(* ===== verification/Prelude.thy ===== *)
theory Prelude
  imports Main "HOL-Library.Char_ord" "HOL-Library.AList"
begin

text \<open>Shared vocabulary of the development.

  A Rust \<^theory_text>\<open>&str\<close> or \<^theory_text>\<open>Vec<u8>\<close> is a \<^theory_text>\<open>string\<close>: the list of its (UTF-8) bytes,
  so a length is a byte length.  The string functions below are the ones of the
  Rust standard library that the program calls (\<^theory_text>\<open>split\<close>, \<^theory_text>\<open>join\<close>,
  \<^theory_text>\<open>strip_prefix\<close>, \<^theory_text>\<open>to_ascii_uppercase\<close>, \<^theory_text>\<open>str::parse::<i64>\<close>, integer formatting).
  Fallible code returns a sum, \<^theory_text>\<open>Inl\<close> the error.  Code that also threads the
  store returns the result and the new state (\<^theory_text>\<open>io\<close>).\<close>

named_theorems str_simps "facts on the string functions of the standard library"
named_theorems io_simps "unfolding of the state and error plumbing"

section \<open>Results\<close>

type_synonym ('s, 'e, 'a) io = "'s \<Rightarrow> ('e + 'a) \<times> 's"

definition rbind :: "'e + 'a \<Rightarrow> ('a \<Rightarrow> 'e + 'b) \<Rightarrow> 'e + 'b" where
  "rbind r f = (case r of Inl e \<Rightarrow> Inl e | Inr x \<Rightarrow> f x)"

definition rmap :: "('a \<Rightarrow> 'b) \<Rightarrow> 'e + 'a \<Rightarrow> 'e + 'b" where
  "rmap f r = (case r of Inl e \<Rightarrow> Inl e | Inr x \<Rightarrow> Inr (f x))"

definition ret :: "'a \<Rightarrow> ('s, 'e, 'a) io" where
  "ret x s = (Inr x, s)"

definition raise :: "'e \<Rightarrow> ('s, 'e, 'a) io" where
  "raise e s = (Inl e, s)"

definition bind_io :: "('s, 'e, 'a) io \<Rightarrow> ('a \<Rightarrow> ('s, 'e, 'b) io) \<Rightarrow> ('s, 'e, 'b) io" where
  "bind_io m f s = (case m s of (Inl e, s') \<Rightarrow> (Inl e, s') | (Inr x, s') \<Rightarrow> f x s')"

definition seq_io :: "('s, 'e, 'a) io \<Rightarrow> ('s, 'e, 'b) io \<Rightarrow> ('s, 'e, 'b) io" where
  "seq_io m n = bind_io m (\<lambda>_. n)"

definition map_err :: "('e \<Rightarrow> 'f) \<Rightarrow> ('s, 'e, 'a) io \<Rightarrow> ('s, 'f, 'a) io" where
  "map_err g m s = (case m s of (Inl e, s') \<Rightarrow> (Inl (g e), s') | (Inr x, s') \<Rightarrow> (Inr x, s'))"

text \<open>\<^theory_text>\<open>let _ = call().await\<close>: the effect is kept and an error is dropped.\<close>

definition ignore_err :: "('s, 'e, 'a) io \<Rightarrow> ('s, 'f, unit) io" where
  "ignore_err m s = (Inr (), snd (m s))"

definition lift_result :: "'e + 'a \<Rightarrow> ('s, 'e, 'a) io" where
  "lift_result r s = (r, s)"

text \<open>\<^theory_text>\<open>for x in xs { f(x)?; }\<close>\<close>

fun each_io :: "('a \<Rightarrow> ('s, 'e, unit) io) \<Rightarrow> 'a list \<Rightarrow> ('s, 'e, unit) io" where
  "each_io f [] = ret ()"
| "each_io f (x # xs) = seq_io (f x) (each_io f xs)"

declare rbind_def [io_simps] rmap_def [io_simps] ret_def [io_simps] raise_def [io_simps]
  bind_io_def [io_simps] seq_io_def [io_simps] map_err_def [io_simps]
  ignore_err_def [io_simps] lift_result_def [io_simps]

lemma rbind_simps [simp]:
  "rbind (Inl e) f = Inl e" "rbind (Inr x) f = f x"
  by (simp_all add: rbind_def)

lemma rmap_simps [simp]:
  "rmap f (Inl e) = Inl e" "rmap f (Inr x) = Inr (f x)"
  by (simp_all add: rmap_def)

lemma bind_ret [simp]: "bind_io (ret x) f = f x"
  by (rule ext) (simp add: io_simps)

lemma bind_raise [simp]: "bind_io (raise e) f = raise e"
  by (rule ext) (simp add: io_simps)

lemma bind_assoc: "bind_io (bind_io m f) g = bind_io m (\<lambda>x. bind_io (f x) g)"
  by (rule ext) (simp add: bind_io_def split: prod.splits sum.splits)

lemma bind_io_Inr_iff:
  "bind_io m f s = (Inr y, s') \<longleftrightarrow> (\<exists>x t. m s = (Inr x, t) \<and> f x t = (Inr y, s'))"
  by (auto simp: bind_io_def split: prod.splits sum.splits)

lemma each_io_invariant:
  assumes "\<And>x s. x \<in> set xs \<Longrightarrow> P s \<Longrightarrow> P (snd (f x s))" and "P s"
  shows "P (snd (each_io f xs s))"
  using assms
proof (induction xs arbitrary: s)
  case Nil
  then show ?case by (simp add: io_simps)
next
  case (Cons x xs)
  obtain r t where r: "f x s = (r, t)" by force
  have "P t" using Cons.prems(1)[of x s] Cons.prems(2) r by simp
  then have "P (snd (each_io f xs t))" using Cons.IH Cons.prems(1) by simp
  then show ?case using r \<open>P t\<close> by (cases r) (simp_all add: io_simps)
qed

section \<open>ASCII characters\<close>

abbreviation code :: "char \<Rightarrow> nat" where
  "code c \<equiv> of_char c"

definition is_lower :: "char \<Rightarrow> bool" where
  "is_lower c \<longleftrightarrow> 97 \<le> code c \<and> code c \<le> 122"

definition is_upper :: "char \<Rightarrow> bool" where
  "is_upper c \<longleftrightarrow> 65 \<le> code c \<and> code c \<le> 90"

definition is_digit :: "char \<Rightarrow> bool" where
  "is_digit c \<longleftrightarrow> 48 \<le> code c \<and> code c \<le> 57"

definition is_alnum :: "char \<Rightarrow> bool" where
  "is_alnum c \<longleftrightarrow> is_lower c \<or> is_upper c \<or> is_digit c"

definition upper :: "char \<Rightarrow> char" where
  "upper c = (if is_lower c then char_of (code c - 32) else c)"

definition lower :: "char \<Rightarrow> char" where
  "lower c = (if is_upper c then char_of (code c + 32) else c)"

definition to_upper :: "string \<Rightarrow> string" where
  "to_upper s = map upper s"

definition to_lower :: "string \<Rightarrow> string" where
  "to_lower s = map lower s"

definition eq_ignore_case :: "string \<Rightarrow> string \<Rightarrow> bool" where
  "eq_ignore_case a b \<longleftrightarrow> to_lower a = to_lower b"

lemma code_less_256 [simp]: "code c < 256"
  by (metis of_char_of nat_of_char_less_256)

lemma upper_of_upper [simp]: "is_upper c \<Longrightarrow> upper c = c"
  by (simp add: upper_def is_upper_def is_lower_def)

lemma lower_upper_id: "is_upper (upper c) \<Longrightarrow> lower (upper c) = lower c"
  by (auto simp: upper_def lower_def is_upper_def is_lower_def)

lemma lower_inj_upper:
  "\<lbrakk>\<not> is_lower c; \<not> is_lower d; lower c = lower d\<rbrakk> \<Longrightarrow> c = d"
proof -
  assume h: "\<not> is_lower c" "\<not> is_lower d" "lower c = lower d"
  have "code (lower c) = code (lower d)" using h(3) by simp
  then have "code c = code d"
    using h(1,2) by (auto simp: lower_def is_upper_def is_lower_def split: if_splits)
  then show ?thesis by (metis char_of_char)
qed

lemma upper_not_lower [simp]: "\<not> is_lower (upper c)"
  by (auto simp: upper_def is_lower_def)

section \<open>Splitting, joining and trimming\<close>

fun split_on :: "char \<Rightarrow> string \<Rightarrow> string list" where
  "split_on d [] = [[]]"
| "split_on d (c # cs) =
     (if c = d then [] # split_on d cs
      else (case split_on d cs of [] \<Rightarrow> [[c]] | w # ws \<Rightarrow> (c # w) # ws))"

fun join :: "string \<Rightarrow> string list \<Rightarrow> string" where
  "join sep [] = []"
| "join sep [w] = w"
| "join sep (w # ws) = w @ sep @ join sep ws"

fun strip_prefix :: "string \<Rightarrow> string \<Rightarrow> string option" where
  "strip_prefix [] s = Some s"
| "strip_prefix (p # ps) [] = None"
| "strip_prefix (p # ps) (c # cs) = (if p = c then strip_prefix ps cs else None)"

definition strip_suffix :: "string \<Rightarrow> string \<Rightarrow> string option" where
  "strip_suffix p s = map_option rev (strip_prefix (rev p) (rev s))"

definition starts_with :: "string \<Rightarrow> string \<Rightarrow> bool" where
  "starts_with p s \<longleftrightarrow> strip_prefix p s \<noteq> None"

definition ends_with :: "string \<Rightarrow> string \<Rightarrow> bool" where
  "ends_with p s \<longleftrightarrow> strip_suffix p s \<noteq> None"

lemma split_on_not_Nil [simp]: "split_on d s \<noteq> []"
  by (induction s) (auto split: list.splits)

lemma split_on_no_sep: "w \<in> set (split_on d s) \<Longrightarrow> d \<notin> set w"
  by (induction s arbitrary: w) (force split: list.splits if_splits)+

lemma split_on_word: "d \<notin> set w \<Longrightarrow> split_on d w = [w]"
  by (induction w) auto

lemma split_on_append: "d \<notin> set w \<Longrightarrow> split_on d (w @ d # s) = w # split_on d s"
  by (induction w) auto

lemma join_split [simp]: "join [d] (split_on d s) = s"
proof (induction s)
  case (Cons c s)
  then show ?case by (cases "split_on d s"; cases "tl (split_on d s)") auto
qed simp

lemma split_join:
  "\<lbrakk>ws \<noteq> []; \<And>w. w \<in> set ws \<Longrightarrow> d \<notin> set w\<rbrakk> \<Longrightarrow> split_on d (join [d] ws) = ws"
proof (induction "[d]" ws rule: join.induct)
  case (2 w)
  then show ?case by (simp add: split_on_word)
next
  case (3 w v vs)
  then show ?case by (simp add: split_on_append)
qed simp

lemma strip_prefix_Some_iff [str_simps]: "strip_prefix p s = Some t \<longleftrightarrow> s = p @ t"
  by (induction p s rule: strip_prefix.induct) auto

lemma strip_prefix_append [simp]: "strip_prefix p (p @ t) = Some t"
  by (simp add: str_simps)

lemma strip_suffix_Some_iff [str_simps]: "strip_suffix p s = Some t \<longleftrightarrow> s = t @ p"
  by (auto simp: strip_suffix_def strip_prefix_Some_iff) (metis rev_append rev_rev_ident)

lemma strip_suffix_append [simp]: "strip_suffix p (t @ p) = Some t"
  by (simp add: str_simps)

lemma starts_with_iff [str_simps]: "starts_with p s \<longleftrightarrow> (\<exists>t. s = p @ t)"
  using strip_prefix_Some_iff[of p s] by (auto simp: starts_with_def)

lemma ends_with_iff [str_simps]: "ends_with p s \<longleftrightarrow> (\<exists>t. s = t @ p)"
  using strip_suffix_Some_iff[of p s] by (auto simp: ends_with_def)

lemma starts_with_append [simp]: "starts_with p (p @ s)"
  by (simp add: starts_with_def)

lemma starts_with_Nil [simp]: "starts_with [] s"
  by (simp add: starts_with_def)

lemma starts_with_Cons [simp]:
  "starts_with (p # ps) (c # cs) \<longleftrightarrow> p = c \<and> starts_with ps cs"
  "\<not> starts_with (p # ps) []"
  by (auto simp: starts_with_def)

lemma ends_with_single: "ends_with [c] s \<longleftrightarrow> s \<noteq> [] \<and> last s = c"
  by (auto simp: ends_with_iff) (metis append_butlast_last_id)

section \<open>Decimal numbers\<close>

definition digit_char :: "nat \<Rightarrow> char" where
  "digit_char n = char_of (48 + n)"

definition digit_val :: "char \<Rightarrow> nat" where
  "digit_val c = code c - 48"

function show_nat :: "nat \<Rightarrow> string" where
  "show_nat n = (let r = [digit_char (n mod 10)] in if n < 10 then r else show_nat (n div 10) @ r)"
  by pat_completeness auto
termination by (relation "measure id") auto

declare show_nat.simps [simp del]

definition show_int :: "int \<Rightarrow> string" where
  "show_int i = (if i < 0 then CHR ''-'' # show_nat (nat (- i)) else show_nat (nat i))"

definition digits_val :: "string \<Rightarrow> nat" where
  "digits_val s = foldl (\<lambda>acc c. 10 * acc + digit_val c) 0 s"

text \<open>\<^theory_text>\<open>parse\<close> of an integer type: an optional sign (a minus only for the signed
  types), at least one digit, digits only, and a value inside the type's range.\<close>

definition parse_digits :: "string \<Rightarrow> nat option" where
  "parse_digits s = (if s \<noteq> [] \<and> list_all is_digit s then Some (digits_val s) else None)"

definition i64_min :: int where "i64_min = - (2 ^ 63)"
definition i64_max :: int where "i64_max = 2 ^ 63 - 1"
definition u64_max :: nat where "u64_max = 2 ^ 64 - 1"

definition in_i64 :: "int \<Rightarrow> bool" where
  "in_i64 i \<longleftrightarrow> i64_min \<le> i \<and> i \<le> i64_max"

definition check_i64 :: "int \<Rightarrow> int option" where
  "check_i64 i = (if in_i64 i then Some i else None)"

definition parse_i64 :: "string \<Rightarrow> int option" where
  "parse_i64 s = (case s of
      [] \<Rightarrow> None
    | c # cs \<Rightarrow>
        if c = CHR ''-'' then Option.bind (parse_digits cs) (\<lambda>n. check_i64 (- int n))
        else if c = CHR ''+'' then Option.bind (parse_digits cs) (\<lambda>n. check_i64 (int n))
        else Option.bind (parse_digits s) (\<lambda>n. check_i64 (int n)))"

definition parse_unsigned :: "nat \<Rightarrow> string \<Rightarrow> nat option" where
  "parse_unsigned hi s = (case s of
      [] \<Rightarrow> None
    | c # cs \<Rightarrow>
        Option.bind (parse_digits (if c = CHR ''+'' then cs else s))
          (\<lambda>n. if n \<le> hi then Some n else None))"

definition parse_u64 :: "string \<Rightarrow> nat option" where
  "parse_u64 s = parse_unsigned u64_max s"

definition u32_max :: nat where "u32_max = 2 ^ 32 - 1"

definition parse_u32 :: "string \<Rightarrow> nat option" where
  "parse_u32 s = parse_unsigned u32_max s"

lemma code_digit_char: "n < 10 \<Longrightarrow> code (digit_char n) = 48 + n"
  by (simp add: digit_char_def)

lemma is_digit_digit_char: "n < 10 \<Longrightarrow> is_digit (digit_char n)"
  by (simp add: is_digit_def code_digit_char)

lemma show_nat_digits: "list_all is_digit (show_nat n)"
proof (induction n rule: show_nat.induct)
  case (1 n)
  then show ?case
    by (subst show_nat.simps) (simp add: is_digit_digit_char Let_def)
qed

lemma show_nat_not_Nil [simp]: "show_nat n \<noteq> []"
  by (subst show_nat.simps) (simp add: Let_def)

lemma digits_val_show [simp]: "digits_val (show_nat n) = n"
proof (induction n rule: show_nat.induct)
  case (1 n)
  then show ?case
    by (subst show_nat.simps)
      (simp add: digits_val_def Let_def digit_val_def code_digit_char)
qed

lemma parse_digits_show [simp]: "parse_digits (show_nat n) = Some n"
  by (simp add: parse_digits_def show_nat_digits)

lemma show_nat_Cons:
  obtains c cs where "show_nat n = c # cs" "is_digit c"
proof -
  obtain c cs where h: "show_nat n = c # cs" by (cases "show_nat n") simp_all
  moreover have "is_digit c" using show_nat_digits[of n] h by simp
  ultimately show ?thesis by (rule that)
qed

lemma digit_not_sign: "is_digit c \<Longrightarrow> c \<noteq> CHR ''-'' \<and> c \<noteq> CHR ''+''"
  by (auto simp: is_digit_def)

lemma parse_i64_show: "in_i64 i \<Longrightarrow> parse_i64 (show_int i) = Some i"
proof -
  assume r: "in_i64 i"
  obtain c cs where c: "show_nat (nat i) = c # cs" "is_digit c" by (rule show_nat_Cons)
  show ?thesis
  proof (cases "i < 0")
    case True
    then show ?thesis using r by (simp add: show_int_def parse_i64_def check_i64_def)
  next
    case False
    then have "parse_i64 (show_int i) = Option.bind (parse_digits (c # cs)) (\<lambda>n. check_i64 (int n))"
      using c digit_not_sign[OF c(2)] by (simp add: show_int_def parse_i64_def)
    also have "\<dots> = Some i" using False r parse_digits_show[of "nat i"] c(1)
      by (simp add: check_i64_def)
    finally show ?thesis .
  qed
qed

lemma parse_unsigned_show: "n \<le> hi \<Longrightarrow> parse_unsigned hi (show_nat n) = Some n"
proof -
  assume r: "n \<le> hi"
  obtain c cs where c: "show_nat n = c # cs" "is_digit c" by (rule show_nat_Cons)
  have "parse_unsigned hi (show_nat n) = Option.bind (parse_digits (show_nat n))
      (\<lambda>n. if n \<le> hi then Some n else None)"
    using c digit_not_sign[OF c(2)] by (simp add: parse_unsigned_def)
  then show ?thesis using r by simp
qed

lemma parse_u64_show: "n \<le> u64_max \<Longrightarrow> parse_u64 (show_nat n) = Some n"
  by (simp add: parse_u64_def parse_unsigned_show)

lemma parse_u32_show: "n \<le> u32_max \<Longrightarrow> parse_u32 (show_nat n) = Some n"
  by (simp add: parse_u32_def parse_unsigned_show)

lemma parse_i64_range: "parse_i64 s = Some i \<Longrightarrow> in_i64 i"
  by (auto simp: parse_i64_def check_i64_def bind_eq_Some_conv split: list.splits if_splits)

lemma show_nat_inj: "show_nat m = show_nat n \<Longrightarrow> m = n"
  by (metis digits_val_show)

section \<open>UTF-8 and white space\<close>

text \<open>\<^theory_text>\<open>String::from_utf8\<close>: the pending list holds the byte ranges the current
  character still needs.\<close>

definition utf8_pending :: "nat \<Rightarrow> (nat \<times> nat) list option" where
  "utf8_pending b =
    (if b < 128 then Some []
     else if 194 \<le> b \<and> b \<le> 223 then Some [(128, 191)]
     else if b = 224 then Some [(160, 191), (128, 191)]
     else if b = 237 then Some [(128, 159), (128, 191)]
     else if 225 \<le> b \<and> b \<le> 239 then Some [(128, 191), (128, 191)]
     else if b = 240 then Some [(144, 191), (128, 191), (128, 191)]
     else if 241 \<le> b \<and> b \<le> 243 then Some [(128, 191), (128, 191), (128, 191)]
     else if b = 244 then Some [(128, 143), (128, 191), (128, 191)]
     else None)"

fun utf8_from :: "(nat \<times> nat) list \<Rightarrow> string \<Rightarrow> bool" where
  "utf8_from pending [] = (pending = [])"
| "utf8_from ((lo, hi) # pending) (c # cs) = (lo \<le> code c \<and> code c \<le> hi \<and> utf8_from pending cs)"
| "utf8_from [] (c # cs) =
     (case utf8_pending (code c) of None \<Rightarrow> False | Some pending \<Rightarrow> utf8_from pending cs)"

definition valid_utf8 :: "string \<Rightarrow> bool" where
  "valid_utf8 s = utf8_from [] s"

text \<open>\<^theory_text>\<open>s.trim().is_empty()\<close>: only Unicode white space.\<close>

definition ascii_space :: "char \<Rightarrow> bool" where
  "ascii_space c \<longleftrightarrow> code c = 32 \<or> (9 \<le> code c \<and> code c \<le> 13)"

fun blank :: "string \<Rightarrow> bool" where
  "blank [] = True"
| "blank (a # s) = (if ascii_space a then blank s else (case s of
      [] \<Rightarrow> False
    | b # t \<Rightarrow>
        if code a = 194 \<and> (code b = 133 \<or> code b = 160) then blank t
        else (case t of
          [] \<Rightarrow> False
        | c # u \<Rightarrow>
            if (code a = 225 \<and> code b = 154 \<and> code c = 128)
              \<or> (code a = 226 \<and> code b = 128 \<and> ((128 \<le> code c \<and> code c \<le> 138) \<or> code c \<in> {168, 169, 175}))
              \<or> (code a = 226 \<and> code b = 129 \<and> code c = 159)
              \<or> (code a = 227 \<and> code b = 128 \<and> code c = 128)
            then blank u else False)))"

lemma utf8_from_append: "\<lbrakk>utf8_from p s; valid_utf8 t\<rbrakk> \<Longrightarrow> utf8_from p (s @ t)"
  unfolding valid_utf8_def
  by (induction p s rule: utf8_from.induct) (auto split: option.splits)

lemma valid_utf8_append: "\<lbrakk>valid_utf8 s; valid_utf8 t\<rbrakk> \<Longrightarrow> valid_utf8 (s @ t)"
  using utf8_from_append by (simp add: valid_utf8_def)

lemma valid_utf8_ascii: "list_all (\<lambda>c. code c < 128) s \<Longrightarrow> valid_utf8 s"
  unfolding valid_utf8_def by (induction s) (auto simp: utf8_pending_def)

lemma show_nat_utf8 [simp]: "valid_utf8 (show_nat n)"
  using show_nat_digits[of n]
  by (intro valid_utf8_ascii) (auto simp: list_all_iff is_digit_def)

section \<open>Association lists\<close>

lemma map_of_update [simp]: "map_of (AList.update k v al) = (map_of al)(k \<mapsto> v)"
  by (rule update_conv')

lemma map_of_delete [simp]: "map_of (AList.delete k al) = (map_of al)(k := None)"
  by (rule delete_conv')

lemma map_of_filter_fst:
  "map_of (filter (\<lambda>(k, v). P k) al) k = (if P k then map_of al k else None)"
  by (induction al) auto

end
