(* ===== verification/Store.thy ===== *)
theory Store
  imports Prelude
begin

text \<open>The storage layer (\<^theory_text>\<open>store/memory.rs\<close>, \<^theory_text>\<open>store/mod.rs\<close>).

  \<^theory_text>\<open>mem_store\<close> is the key map of the in-memory backend as an association list, so
  that scans have an order; \<^theory_text>\<open>mem_*\<close> are the functions of \<^theory_text>\<open>memory.rs\<close>.  A bucket
  is its key prefix over the threaded store, and \<^theory_text>\<open>bucket_*\<close> are the in-memory arms of
  the operations of \<^theory_text>\<open>Bucket\<close>: the key is prefixed, and an error names the caller's
  key again.  Every operation of the source runs under one lock, so it is one step here.
  The Valkey arms talk to a server that is not part of the repository.\<close>

type_synonym bytes = string

datatype mem_value =
    Bytes bytes
  | List "bytes list"
  | Hash "(string \<times> bytes) list"
  | Set "string list"

type_synonym mem_store = "(string \<times> mem_value) list"

datatype store_error =
    WrongType string string string
  | NotInteger string
  | IncrOverflow string
  | Backend string

type_synonym 'a sio = "(mem_store, store_error, 'a) io"

section \<open>The in-memory backend\<close>

fun value_kind :: "mem_value \<Rightarrow> string" where
  "value_kind (Bytes b) = ''bytes''"
| "value_kind (List q) = ''list''"
| "value_kind (Hash h) = ''hash''"
| "value_kind (Set m) = ''set''"

definition mem_kind :: "string \<Rightarrow> mem_store \<Rightarrow> string option" where
  "mem_kind key s = map_option value_kind (map_of s key)"

definition mem_copy_with_prefix :: "string \<Rightarrow> string \<Rightarrow> mem_store \<Rightarrow> nat \<times> mem_store" where
  "mem_copy_with_prefix src dst s =
    (let pairs = map (\<lambda>(k, v). (dst @ drop (length src) k, v))
                   (filter (\<lambda>(k, v). starts_with src k) s)
     in (length pairs, foldl (\<lambda>st (k, v). AList.update k v st) s pairs))"

definition mem_get :: "string \<Rightarrow> bytes option sio" where
  "mem_get key s = (case map_of s key of
      None \<Rightarrow> (Inr None, s)
    | Some (Bytes b) \<Rightarrow> (Inr (Some b), s)
    | Some v \<Rightarrow> (Inl (WrongType key (value_kind v) ''bytes''), s))"

definition mem_set :: "string \<Rightarrow> bytes \<Rightarrow> mem_store \<Rightarrow> mem_store" where
  "mem_set key value s = AList.update key (Bytes value) s"

definition mem_delete :: "string \<Rightarrow> mem_store \<Rightarrow> mem_store" where
  "mem_delete key s = AList.delete key s"

text \<open>Adding to a stored decimal, as both counters do: the text must be an \<^theory_text>\<open>i64\<close> and the
  sum must not leave the type.\<close>

definition add_to_text :: "string \<Rightarrow> bytes \<Rightarrow> int \<Rightarrow> store_error + int" where
  "add_to_text key b n = (case parse_i64 b of
      None \<Rightarrow> Inl (NotInteger key)
    | Some cur \<Rightarrow> (case check_i64 (cur + n) of
        None \<Rightarrow> Inl (IncrOverflow key)
      | Some next \<Rightarrow> Inr next))"

definition mem_incr :: "string \<Rightarrow> int \<Rightarrow> int sio" where
  "mem_incr key n s = (case map_of s key of
      None \<Rightarrow> (Inr n, AList.update key (Bytes (show_int n)) s)
    | Some (Bytes b) \<Rightarrow> (case add_to_text key b n of
        Inl e \<Rightarrow> (Inl e, s)
      | Inr next \<Rightarrow> (Inr next, AList.update key (Bytes (show_int next)) s))
    | Some v \<Rightarrow> (Inl (WrongType key (value_kind v) ''bytes''), s))"

definition mem_scan_with_prefix :: "string \<Rightarrow> mem_store \<Rightarrow> string list" where
  "mem_scan_with_prefix full_prefix s = filter (starts_with full_prefix) (map fst s)"

definition mem_list_push :: "string \<Rightarrow> bytes \<Rightarrow> unit sio" where
  "mem_list_push key value s = (case map_of s key of
      None \<Rightarrow> (Inr (), AList.update key (List [value]) s)
    | Some (List q) \<Rightarrow> (Inr (), AList.update key (List (q @ [value])) s)
    | Some v \<Rightarrow> (Inl (WrongType key (value_kind v) ''list''), s))"

definition mem_list_pop :: "string \<Rightarrow> bytes option sio" where
  "mem_list_pop key s = (case map_of s key of
      None \<Rightarrow> (Inr None, s)
    | Some (List []) \<Rightarrow> (Inr None, s)
    | Some (List (x # q)) \<Rightarrow> (Inr (Some x), AList.update key (List q) s)
    | Some v \<Rightarrow> (Inl (WrongType key (value_kind v) ''list''), s))"

definition range_index :: "int \<Rightarrow> int \<Rightarrow> int" where
  "range_index len i = (if i < 0 then max (len + i) 0 else min i (len - 1))"

definition mem_list_range :: "string \<Rightarrow> int \<Rightarrow> int \<Rightarrow> bytes list sio" where
  "mem_list_range key start stop s = (case map_of s key of
      None \<Rightarrow> (Inr [], s)
    | Some (List q) \<Rightarrow>
        (let len = int (length q) in
         if len = 0 then (Inr [], s)
         else let i = range_index len start; e = range_index len stop in
           if i > e then (Inr [], s)
           else (Inr (take (nat (e - i + 1)) (drop (nat i) q)), s))
    | Some v \<Rightarrow> (Inl (WrongType key (value_kind v) ''list''), s))"

definition mem_list_length :: "string \<Rightarrow> nat sio" where
  "mem_list_length key s = (case map_of s key of
      None \<Rightarrow> (Inr 0, s)
    | Some (List q) \<Rightarrow> (Inr (length q), s)
    | Some v \<Rightarrow> (Inl (WrongType key (value_kind v) ''list''), s))"

definition mem_hash_get :: "string \<Rightarrow> string \<Rightarrow> bytes option sio" where
  "mem_hash_get key field s = (case map_of s key of
      None \<Rightarrow> (Inr None, s)
    | Some (Hash h) \<Rightarrow> (Inr (map_of h field), s)
    | Some v \<Rightarrow> (Inl (WrongType key (value_kind v) ''hash''), s))"

definition mem_hash_set :: "string \<Rightarrow> string \<Rightarrow> bytes \<Rightarrow> unit sio" where
  "mem_hash_set key field value s = (case map_of s key of
      None \<Rightarrow> (Inr (), AList.update key (Hash [(field, value)]) s)
    | Some (Hash h) \<Rightarrow> (Inr (), AList.update key (Hash (AList.update field value h)) s)
    | Some v \<Rightarrow> (Inl (WrongType key (value_kind v) ''hash''), s))"

definition mem_hash_delete :: "string \<Rightarrow> string \<Rightarrow> unit sio" where
  "mem_hash_delete key field s = (case map_of s key of
      None \<Rightarrow> (Inr (), s)
    | Some (Hash h) \<Rightarrow> (Inr (), AList.update key (Hash (AList.delete field h)) s)
    | Some v \<Rightarrow> (Inl (WrongType key (value_kind v) ''hash''), s))"

definition mem_hash_keys :: "string \<Rightarrow> string list sio" where
  "mem_hash_keys key s = (case map_of s key of
      None \<Rightarrow> (Inr [], s)
    | Some (Hash h) \<Rightarrow> (Inr (map fst h), s)
    | Some v \<Rightarrow> (Inl (WrongType key (value_kind v) ''hash''), s))"

text \<open>\<^theory_text>\<open>or_insert_with\<close> creates the empty hash before the field is looked at.\<close>

definition mem_hash_incr :: "string \<Rightarrow> string \<Rightarrow> int \<Rightarrow> int sio" where
  "mem_hash_incr key field n s =
    (let s = (if map_of s key = None then AList.update key (Hash []) s else s) in
     case map_of s key of
      Some (Hash h) \<Rightarrow> (case map_of h field of
          None \<Rightarrow> (Inr n, AList.update key (Hash (AList.update field (show_int n) h)) s)
        | Some b \<Rightarrow> (case add_to_text (key @ ''.'' @ field) b n of
            Inl e \<Rightarrow> (Inl e, s)
          | Inr next \<Rightarrow> (Inr next, AList.update key (Hash (AList.update field (show_int next) h)) s)))
    | Some v \<Rightarrow> (Inl (WrongType key (value_kind v) ''hash''), s)
    | None \<Rightarrow> (Inr n, s))"

definition mem_hash_get_all :: "string \<Rightarrow> (string \<times> bytes) list sio" where
  "mem_hash_get_all key s = (case map_of s key of
      None \<Rightarrow> (Inr [], s)
    | Some (Hash h) \<Rightarrow> (Inr h, s)
    | Some v \<Rightarrow> (Inl (WrongType key (value_kind v) ''hash''), s))"

definition mem_set_members :: "string \<Rightarrow> string list sio" where
  "mem_set_members key s = (case map_of s key of
      None \<Rightarrow> (Inr [], s)
    | Some (Set m) \<Rightarrow> (Inr m, s)
    | Some v \<Rightarrow> (Inl (WrongType key (value_kind v) ''set''), s))"

definition mem_set_add :: "string \<Rightarrow> string \<Rightarrow> unit sio" where
  "mem_set_add key member s = (case map_of s key of
      None \<Rightarrow> (Inr (), AList.update key (Set [member]) s)
    | Some (Set m) \<Rightarrow>
        (Inr (), AList.update key (Set (if member \<in> set m then m else m @ [member])) s)
    | Some v \<Rightarrow> (Inl (WrongType key (value_kind v) ''set''), s))"

definition mem_set_remove :: "string \<Rightarrow> string \<Rightarrow> unit sio" where
  "mem_set_remove key member s = (case map_of s key of
      None \<Rightarrow> (Inr (), s)
    | Some (Set m) \<Rightarrow> (Inr (), AList.update key (Set (removeAll member m)) s)
    | Some v \<Rightarrow> (Inl (WrongType key (value_kind v) ''set''), s))"

definition mem_set_contains :: "string \<Rightarrow> string \<Rightarrow> bool sio" where
  "mem_set_contains key member s = (case map_of s key of
      None \<Rightarrow> (Inr False, s)
    | Some (Set m) \<Rightarrow> (Inr (member \<in> set m), s)
    | Some v \<Rightarrow> (Inl (WrongType key (value_kind v) ''set''), s))"

section \<open>Buckets\<close>

type_synonym bucket = string

definition strip_bucket :: "string \<Rightarrow> string \<Rightarrow> string" where
  "strip_bucket full prefix = (case strip_prefix prefix full of Some r \<Rightarrow> r | None \<Rightarrow> full)"

fun restore_user_key :: "string \<Rightarrow> store_error \<Rightarrow> store_error" where
  "restore_user_key prefix (WrongType key actual expected) =
     WrongType (strip_bucket key prefix) actual expected"
| "restore_user_key prefix (NotInteger key) = NotInteger (strip_bucket key prefix)"
| "restore_user_key prefix (IncrOverflow key) = IncrOverflow (strip_bucket key prefix)"
| "restore_user_key prefix (Backend m) = Backend m"

definition route_bucket_under :: "string \<Rightarrow> string \<Rightarrow> string \<Rightarrow> bucket" where
  "route_bucket_under root group_ulid route_ulid =
     root @ ''kv:'' @ group_ulid @ '':'' @ route_ulid @ '':''"

definition group_bucket_under :: "string \<Rightarrow> string \<Rightarrow> bucket" where
  "group_bucket_under root group_ulid = root @ ''gkv:'' @ group_ulid @ '':''"

definition route_bucket :: "string \<Rightarrow> string \<Rightarrow> bucket" where
  "route_bucket group_ulid route_ulid = route_bucket_under [] group_ulid route_ulid"

definition group_bucket :: "string \<Rightarrow> bucket" where
  "group_bucket group_ulid = group_bucket_under [] group_ulid"

definition admin_bucket :: bucket where
  "admin_bucket = []"

definition copy_keys_with_prefix :: "string \<Rightarrow> string \<Rightarrow> nat sio" where
  "copy_keys_with_prefix src dst s = (case mem_copy_with_prefix src dst s of (n, s') \<Rightarrow> (Inr n, s'))"

definition bucket_get :: "bucket \<Rightarrow> string \<Rightarrow> bytes option sio" where
  "bucket_get b key = map_err (restore_user_key b) (mem_get (b @ key))"

definition bucket_set :: "bucket \<Rightarrow> string \<Rightarrow> bytes \<Rightarrow> unit sio" where
  "bucket_set b key value s = (Inr (), mem_set (b @ key) value s)"

definition bucket_delete :: "bucket \<Rightarrow> string \<Rightarrow> unit sio" where
  "bucket_delete b key s = (Inr (), mem_delete (b @ key) s)"

definition bucket_set_with_ttl :: "bucket \<Rightarrow> string \<Rightarrow> bytes \<Rightarrow> nat \<Rightarrow> unit sio" where
  "bucket_set_with_ttl b key value ttl_seconds = bucket_set b key value"

definition bucket_set_ttl :: "bucket \<Rightarrow> string \<Rightarrow> nat \<Rightarrow> unit sio" where
  "bucket_set_ttl b key ttl_seconds s = (Inr (), s)"

definition bucket_clear_ttl :: "bucket \<Rightarrow> string \<Rightarrow> unit sio" where
  "bucket_clear_ttl b key s = (Inr (), s)"

definition bucket_remaining_ttl :: "bucket \<Rightarrow> string \<Rightarrow> nat option sio" where
  "bucket_remaining_ttl b key s = (Inr None, s)"

definition bucket_set_if_absent :: "bucket \<Rightarrow> string \<Rightarrow> bytes \<Rightarrow> bool sio" where
  "bucket_set_if_absent b key value =
    bind_io (bucket_get b key) (\<lambda>cur.
      if cur \<noteq> None then ret False
      else seq_io (\<lambda>s. (Inr (), mem_set (b @ key) value s)) (ret True))"

text \<open>Time is a number of nanoseconds; its text form is chrono's, a parameter.\<close>

record time_codec =
  to_rfc3339 :: "int \<Rightarrow> string"
  parse_rfc3339 :: "string \<Rightarrow> int option"

definition time_ok :: "time_codec \<Rightarrow> bool" where
  "time_ok tc \<longleftrightarrow> (\<forall>t. parse_rfc3339 tc (to_rfc3339 tc t) = Some t)"

abbreviation seconds :: "nat \<Rightarrow> int" where
  "seconds n \<equiv> int n * 1000000000"

text \<open>The clock is read twice: \<^theory_text>\<open>t0\<close> for the deadline, \<^theory_text>\<open>t1\<close> for the comparison.\<close>

definition bucket_try_acquire_lease ::
  "time_codec \<Rightarrow> int \<Rightarrow> int \<Rightarrow> bucket \<Rightarrow> string \<Rightarrow> nat \<Rightarrow> bool sio" where
  "bucket_try_acquire_lease tc t0 t1 b key ttl_seconds =
    (let deadline = t0 + seconds (max ttl_seconds 1); payload = to_rfc3339 tc deadline in
     bind_io (bucket_get b key) (\<lambda>existing.
       if (case Option.bind existing (parse_rfc3339 tc) of
             Some held_until \<Rightarrow> held_until > t1 | None \<Rightarrow> False)
       then ret False
       else seq_io (\<lambda>s. (Inr (), mem_set (b @ key) payload s)) (ret True)))"

definition bucket_publish :: "bucket \<Rightarrow> string \<Rightarrow> bytes \<Rightarrow> nat sio" where
  "bucket_publish b channel payload s = (Inr 0, s)"

definition bucket_incr :: "bucket \<Rightarrow> string \<Rightarrow> int \<Rightarrow> int sio" where
  "bucket_incr b key n = map_err (restore_user_key b) (mem_incr (b @ key) n)"

definition bucket_kind :: "bucket \<Rightarrow> string \<Rightarrow> string option sio" where
  "bucket_kind b key s = (Inr (mem_kind (b @ key) s), s)"

definition bucket_list_keys :: "bucket \<Rightarrow> string option \<Rightarrow> string list sio" where
  "bucket_list_keys b user_prefix s =
    (let combined = (case user_prefix of Some p \<Rightarrow> b @ p | None \<Rightarrow> b) in
     (Inr (map (\<lambda>k. strip_bucket k b) (mem_scan_with_prefix combined s)), s))"

definition bucket_delete_with_prefix :: "bucket \<Rightarrow> string \<Rightarrow> nat sio" where
  "bucket_delete_with_prefix b user_prefix =
    bind_io (bucket_list_keys b (Some user_prefix)) (\<lambda>keys.
      seq_io (each_io (bucket_delete b) keys) (ret (length keys)))"

definition bucket_list_push :: "bucket \<Rightarrow> string \<Rightarrow> bytes \<Rightarrow> unit sio" where
  "bucket_list_push b key value = map_err (restore_user_key b) (mem_list_push (b @ key) value)"

definition bucket_list_pop :: "bucket \<Rightarrow> string \<Rightarrow> bytes option sio" where
  "bucket_list_pop b key = map_err (restore_user_key b) (mem_list_pop (b @ key))"

definition bucket_list_range :: "bucket \<Rightarrow> string \<Rightarrow> int \<Rightarrow> int \<Rightarrow> bytes list sio" where
  "bucket_list_range b key start stop =
    map_err (restore_user_key b) (mem_list_range (b @ key) start stop)"

definition bucket_list_length :: "bucket \<Rightarrow> string \<Rightarrow> nat sio" where
  "bucket_list_length b key = map_err (restore_user_key b) (mem_list_length (b @ key))"

definition bucket_hash_get :: "bucket \<Rightarrow> string \<Rightarrow> string \<Rightarrow> bytes option sio" where
  "bucket_hash_get b key field = map_err (restore_user_key b) (mem_hash_get (b @ key) field)"

definition bucket_hash_set :: "bucket \<Rightarrow> string \<Rightarrow> string \<Rightarrow> bytes \<Rightarrow> unit sio" where
  "bucket_hash_set b key field value =
    map_err (restore_user_key b) (mem_hash_set (b @ key) field value)"

definition bucket_hash_delete :: "bucket \<Rightarrow> string \<Rightarrow> string \<Rightarrow> unit sio" where
  "bucket_hash_delete b key field = map_err (restore_user_key b) (mem_hash_delete (b @ key) field)"

definition bucket_hash_keys :: "bucket \<Rightarrow> string \<Rightarrow> string list sio" where
  "bucket_hash_keys b key = map_err (restore_user_key b) (mem_hash_keys (b @ key))"

definition bucket_hash_incr :: "bucket \<Rightarrow> string \<Rightarrow> string \<Rightarrow> int \<Rightarrow> int sio" where
  "bucket_hash_incr b key field n =
    map_err (restore_user_key b) (mem_hash_incr (b @ key) field n)"

definition bucket_hash_get_all :: "bucket \<Rightarrow> string \<Rightarrow> (string \<times> bytes) list sio" where
  "bucket_hash_get_all b key = map_err (restore_user_key b) (mem_hash_get_all (b @ key))"

definition bucket_set_add :: "bucket \<Rightarrow> string \<Rightarrow> string \<Rightarrow> unit sio" where
  "bucket_set_add b key member = map_err (restore_user_key b) (mem_set_add (b @ key) member)"

definition bucket_set_remove :: "bucket \<Rightarrow> string \<Rightarrow> string \<Rightarrow> unit sio" where
  "bucket_set_remove b key member = map_err (restore_user_key b) (mem_set_remove (b @ key) member)"

definition bucket_set_contains :: "bucket \<Rightarrow> string \<Rightarrow> string \<Rightarrow> bool sio" where
  "bucket_set_contains b key member =
    map_err (restore_user_key b) (mem_set_contains (b @ key) member)"

definition bucket_set_members :: "bucket \<Rightarrow> string \<Rightarrow> string list sio" where
  "bucket_set_members b key = map_err (restore_user_key b) (mem_set_members (b @ key))"

section \<open>Locality: which keys an operation depends on\<close>

named_theorems confined_intros "operations that stay inside a set of keys"

text \<open>\<^theory_text>\<open>view P s\<close> is the part of the store under the keys satisfying \<^theory_text>\<open>P\<close>.  A computation
  is \<^theory_text>\<open>confined P\<close> when it leaves every other key alone and its result and its effect
  depend on nothing else.\<close>

definition view :: "(string \<Rightarrow> bool) \<Rightarrow> mem_store \<Rightarrow> mem_store" where
  "view P s = filter (\<lambda>(k, v). P k) s"

definition confined :: "(string \<Rightarrow> bool) \<Rightarrow> 'a sio \<Rightarrow> bool" where
  "confined P m \<longleftrightarrow>
    (\<forall>s. view (\<lambda>k. \<not> P k) (snd (m s)) = view (\<lambda>k. \<not> P k) s) \<and>
    (\<forall>s s'. view P s = view P s' \<longrightarrow>
       fst (m s) = fst (m s') \<and> view P (snd (m s)) = view P (snd (m s')))"

lemma view_update [simp]:
  "view P (AList.update k v s) = (if P k then AList.update k v (view P s) else view P s)"
  by (induction s) (auto simp: view_def)

lemma view_delete [simp]:
  "view P (AList.delete k s) = (if P k then AList.delete k (view P s) else view P s)"
  by (induction s) (auto simp: view_def AList.delete_eq)

lemma view_Nil [simp]: "view P [] = []"
  by (simp add: view_def)

lemma map_of_view: "map_of (view P s) k = (if P k then map_of s k else None)"
  by (simp add: view_def map_of_filter_fst)

lemma map_of_view_eq: "\<lbrakk>view P s = view P s'; P k\<rbrakk> \<Longrightarrow> map_of s k = map_of s' k"
  by (metis map_of_view)

lemma view_frame:
  assumes "view (\<lambda>k. \<not> P k) s' = view (\<lambda>k. \<not> P k) s" "\<not> P k"
  shows "map_of s' k = map_of s k"
  using assms map_of_view[of "\<lambda>k. \<not> P k" s' k] map_of_view[of "\<lambda>k. \<not> P k" s k] by simp

text \<open>Most operations look at one cell and write that cell: they act as on the store that
  holds this cell alone.\<close>

definition cell :: "string \<Rightarrow> mem_store \<Rightarrow> mem_store" where
  "cell k s = (case map_of s k of None \<Rightarrow> [] | Some v \<Rightarrow> [(k, v)])"

definition put_cell :: "string \<Rightarrow> mem_value option \<Rightarrow> mem_store \<Rightarrow> mem_store" where
  "put_cell k c s = (case c of None \<Rightarrow> AList.delete k s | Some v \<Rightarrow> AList.update k v s)"

definition local_at :: "string \<Rightarrow> 'a sio \<Rightarrow> bool" where
  "local_at k m \<longleftrightarrow>
    (\<forall>s. m s = (fst (m (cell k s)), put_cell k (map_of (snd (m (cell k s))) k) s))"

lemma update_same [simp]: "map_of s k = Some v \<Longrightarrow> AList.update k v s = s"
  by (induction s) (auto split: if_splits)

lemma delete_absent [simp]: "map_of s k = None \<Longrightarrow> AList.delete k s = s"
  by (induction s) (auto simp: AList.delete_eq split: if_splits)

lemma update_twice [simp]: "AList.update k v (AList.update k w s) = AList.update k v s"
  by (induction s) auto

lemma view_put_cell:
  "view P (put_cell k c s) = (if P k then put_cell k c (view P s) else view P s)"
  by (simp add: put_cell_def split: option.splits)

lemma local_fst: "local_at k m \<Longrightarrow> fst (m s) = fst (m (cell k s))"
  unfolding local_at_def by (drule spec[of _ s], drule arg_cong[of _ _ fst], simp only: fst_conv)

lemma local_snd: "local_at k m \<Longrightarrow> snd (m s) = put_cell k (map_of (snd (m (cell k s))) k) s"
  unfolding local_at_def by (drule spec[of _ s], drule arg_cong[of _ _ snd], simp only: snd_conv)

lemma local_confined:
  assumes "local_at k m" "P k"
  shows "confined P m"
  unfolding confined_def
proof (intro conjI allI impI)
  fix s
  show "view (\<lambda>k. \<not> P k) (snd (m s)) = view (\<lambda>k. \<not> P k) s"
    by (subst local_snd[OF assms(1)]) (simp add: view_put_cell assms(2))
next
  fix s s' assume v: "view P s = view P s'"
  have c: "cell k s = cell k s'" using map_of_view_eq[OF v] assms(2) by (simp add: cell_def)
  show "fst (m s) = fst (m s')"
    by (subst (1 2) local_fst[OF assms(1)]) (simp only: c)
  show "view P (snd (m s)) = view P (snd (m s'))"
    by (subst (1 2) local_snd[OF assms(1)]) (simp add: view_put_cell assms(2) v c)
qed

lemma local_frame:
  assumes "local_at k m" "k' \<noteq> k"
  shows "map_of (snd (m s)) k' = map_of s k'"
  by (subst local_snd[OF assms(1)]) (simp add: put_cell_def assms(2) split: option.splits)

named_theorems local_ops "operations that act on one cell"

lemmas local_defs = local_at_def cell_def put_cell_def

lemma local_get [local_ops]: "local_at k (mem_get k)"
  by (auto simp: local_defs mem_get_def split: option.splits mem_value.splits)

lemma local_set [local_ops]: "local_at k (\<lambda>s. (Inr (), mem_set k v s))"
  by (auto simp: local_defs mem_set_def split: option.splits)

lemma local_delete [local_ops]: "local_at k (\<lambda>s. (Inr (), mem_delete k s))"
  by (auto simp: local_defs mem_delete_def split: option.splits)

lemma local_incr [local_ops]: "local_at k (mem_incr k n)"
  by (auto simp: local_defs mem_incr_def split: option.splits mem_value.splits sum.splits)

lemma local_list_push [local_ops]: "local_at k (mem_list_push k v)"
  by (auto simp: local_defs mem_list_push_def split: option.splits mem_value.splits)

lemma local_list_pop [local_ops]: "local_at k (mem_list_pop k)"
  by (auto simp: local_defs mem_list_pop_def split: option.splits mem_value.splits list.splits)

lemma local_list_range [local_ops]: "local_at k (mem_list_range k i j)"
  by (auto simp: local_defs mem_list_range_def Let_def split: option.splits mem_value.splits)

lemma local_list_length [local_ops]: "local_at k (mem_list_length k)"
  by (auto simp: local_defs mem_list_length_def split: option.splits mem_value.splits)

lemma local_hash_get [local_ops]: "local_at k (mem_hash_get k f)"
  by (auto simp: local_defs mem_hash_get_def split: option.splits mem_value.splits)

lemma local_hash_set [local_ops]: "local_at k (mem_hash_set k f v)"
  by (auto simp: local_defs mem_hash_set_def split: option.splits mem_value.splits)

lemma local_hash_delete [local_ops]: "local_at k (mem_hash_delete k f)"
  by (auto simp: local_defs mem_hash_delete_def split: option.splits mem_value.splits)

lemma local_hash_keys [local_ops]: "local_at k (mem_hash_keys k)"
  by (auto simp: local_defs mem_hash_keys_def split: option.splits mem_value.splits)

lemma local_hash_incr [local_ops]: "local_at k (mem_hash_incr k f n)"
  by (auto simp: local_defs mem_hash_incr_def Let_def
      split: option.splits mem_value.splits sum.splits)

lemma local_hash_get_all [local_ops]: "local_at k (mem_hash_get_all k)"
  by (auto simp: local_defs mem_hash_get_all_def split: option.splits mem_value.splits)

lemma local_set_add [local_ops]: "local_at k (mem_set_add k v)"
  by (auto simp: local_defs mem_set_add_def split: option.splits mem_value.splits)

lemma local_set_remove [local_ops]: "local_at k (mem_set_remove k v)"
  by (auto simp: local_defs mem_set_remove_def split: option.splits mem_value.splits)

lemma local_set_contains [local_ops]: "local_at k (mem_set_contains k v)"
  by (auto simp: local_defs mem_set_contains_def split: option.splits mem_value.splits)

lemma local_set_members [local_ops]: "local_at k (mem_set_members k)"
  by (auto simp: local_defs mem_set_members_def split: option.splits mem_value.splits)

section \<open>Confinement of compound computations\<close>

lemma confinedI:
  assumes "\<And>s. view (\<lambda>k. \<not> P k) (snd (m s)) = view (\<lambda>k. \<not> P k) s"
    and "\<And>s s'. view P s = view P s' \<Longrightarrow> fst (m s) = fst (m s')"
    and "\<And>s s'. view P s = view P s' \<Longrightarrow> view P (snd (m s)) = view P (snd (m s'))"
  shows "confined P m"
  unfolding confined_def using assms by blast

lemma confined_out: "confined P m \<Longrightarrow> view (\<lambda>k. \<not> P k) (snd (m s)) = view (\<lambda>k. \<not> P k) s"
  unfolding confined_def by blast

lemma confined_fst: "\<lbrakk>confined P m; view P s = view P s'\<rbrakk> \<Longrightarrow> fst (m s) = fst (m s')"
  unfolding confined_def by blast

lemma confined_snd:
  "\<lbrakk>confined P m; view P s = view P s'\<rbrakk> \<Longrightarrow> view P (snd (m s)) = view P (snd (m s'))"
  unfolding confined_def by blast

lemma confined_pure: "confined P (\<lambda>s. (r, s))"
  by (rule confinedI) simp_all

lemma confined_ret [confined_intros]: "confined P (ret x)"
  using confined_pure[of P "Inr x"] by (simp add: ret_def[abs_def])

lemma confined_raise [confined_intros]: "confined P (raise e)"
  using confined_pure[of P "Inl e"] by (simp add: raise_def[abs_def])

lemma map_err_parts:
  "fst (map_err g m s) = (case fst (m s) of Inl e \<Rightarrow> Inl (g e) | Inr x \<Rightarrow> Inr x)"
  "snd (map_err g m s) = snd (m s)"
  by (auto simp: map_err_def split: prod.splits sum.splits)

lemma bind_io_parts:
  "fst (bind_io m f s) = (case fst (m s) of Inl e \<Rightarrow> Inl e | Inr x \<Rightarrow> fst (f x (snd (m s))))"
  "snd (bind_io m f s) = (case fst (m s) of Inl e \<Rightarrow> snd (m s) | Inr x \<Rightarrow> snd (f x (snd (m s))))"
  by (auto simp: bind_io_def split: prod.splits sum.splits)

lemma confined_map_err [confined_intros]:
  assumes "confined P m"
  shows "confined P (map_err g m)"
proof (rule confinedI)
  fix s s' assume v: "view P s = view P s'"
  show "fst (map_err g m s) = fst (map_err g m s')"
    unfolding map_err_parts confined_fst[OF assms v] ..
  show "view P (snd (map_err g m s)) = view P (snd (map_err g m s'))"
    unfolding map_err_parts by (rule confined_snd[OF assms v])
qed (unfold map_err_parts, rule confined_out[OF assms])

lemma confined_bind [confined_intros]:
  assumes m: "confined P m" and f: "\<And>x. confined P (f x)"
  shows "confined P (bind_io m f)"
proof (rule confinedI)
  fix s
  show "view (\<lambda>k. \<not> P k) (snd (bind_io m f s)) = view (\<lambda>k. \<not> P k) s"
    unfolding bind_io_parts by (cases "fst (m s)") (simp_all add: confined_out[OF m] confined_out[OF f])
next
  fix s s' assume v: "view P s = view P s'"
  note e = confined_fst[OF m v] and t = confined_snd[OF m v]
  show "fst (bind_io m f s) = fst (bind_io m f s')"
  proof (cases "fst (m s')")
    case (Inr x)
    show ?thesis unfolding bind_io_parts e Inr sum.case by (rule confined_fst[OF f t])
  qed (simp only: bind_io_parts e sum.case)
  show "view P (snd (bind_io m f s)) = view P (snd (bind_io m f s'))"
  proof (cases "fst (m s')")
    case (Inr x)
    show ?thesis unfolding bind_io_parts e Inr sum.case by (rule confined_snd[OF f t])
  qed (simp only: bind_io_parts e sum.case t)
qed

lemma confined_seq [confined_intros]:
  "\<lbrakk>confined P m; confined P n\<rbrakk> \<Longrightarrow> confined P (seq_io m n)"
  by (simp add: seq_io_def confined_bind)

lemma confined_ignore [confined_intros]: "confined P m \<Longrightarrow> confined P (ignore_err m)"
  by (rule confinedI; unfold ignore_err_def fst_conv snd_conv)
    (blast intro: confined_out confined_snd)+

lemma confined_each [confined_intros]:
  "(\<And>x. confined P (f x)) \<Longrightarrow> confined P (each_io f xs)"
  by (induction xs) (auto intro!: confined_intros)

lemma confined_if [confined_intros]:
  "\<lbrakk>confined P m; confined P n\<rbrakk> \<Longrightarrow> confined P (if c then m else n)"
  by simp

lemma confined_option [confined_intros]:
  "\<lbrakk>confined P m; \<And>x. confined P (f x)\<rbrakk> \<Longrightarrow> confined P (case y of None \<Rightarrow> m | Some x \<Rightarrow> f x)"
  by (simp split: option.splits)

lemma starts_with_own [simp]: "starts_with b (b @ k)"
  by simp

lemma confined_local:
  "local_at (b @ k) m \<Longrightarrow> confined (starts_with b) m"
  by (erule local_confined) simp

text \<open>Every bucket operation stays under the bucket's prefix.\<close>

lemma confined_bucket_one [confined_intros]:
  "confined (starts_with b) (bucket_get b key)"
  "confined (starts_with b) (bucket_set b key v)"
  "confined (starts_with b) (bucket_delete b key)"
  "confined (starts_with b) (bucket_incr b key n)"
  "confined (starts_with b) (bucket_list_push b key v)"
  "confined (starts_with b) (bucket_list_pop b key)"
  "confined (starts_with b) (bucket_list_range b key i j)"
  "confined (starts_with b) (bucket_list_length b key)"
  "confined (starts_with b) (bucket_hash_get b key f)"
  "confined (starts_with b) (bucket_hash_set b key f v)"
  "confined (starts_with b) (bucket_hash_delete b key f)"
  "confined (starts_with b) (bucket_hash_keys b key)"
  "confined (starts_with b) (bucket_hash_incr b key f n)"
  "confined (starts_with b) (bucket_hash_get_all b key)"
  "confined (starts_with b) (bucket_set_add b key w)"
  "confined (starts_with b) (bucket_set_remove b key w)"
  "confined (starts_with b) (bucket_set_contains b key w)"
  "confined (starts_with b) (bucket_set_members b key)"
  unfolding bucket_get_def bucket_set_def[abs_def] bucket_delete_def[abs_def] bucket_incr_def
    bucket_list_push_def bucket_list_pop_def bucket_list_range_def bucket_list_length_def
    bucket_hash_get_def bucket_hash_set_def bucket_hash_delete_def bucket_hash_keys_def
    bucket_hash_incr_def bucket_hash_get_all_def bucket_set_add_def bucket_set_remove_def
    bucket_set_contains_def bucket_set_members_def
  by (intro confined_map_err confined_local[where b = b and k = key] local_ops)+

lemma confined_bucket_ttl [confined_intros]:
  "confined (starts_with b) (bucket_set_with_ttl b key v n)"
  "confined P (bucket_set_ttl b key n)" "confined P (bucket_clear_ttl b key)"
  "confined P (bucket_remaining_ttl b key)" "confined P (bucket_publish b ch payload)"
  by (simp_all add: bucket_set_with_ttl_def confined_bucket_one bucket_set_ttl_def[abs_def]
      bucket_clear_ttl_def[abs_def] bucket_remaining_ttl_def[abs_def] bucket_publish_def[abs_def]
      confined_pure)

lemma confined_mem_set: "confined (starts_with b) (\<lambda>s. (Inr (), mem_set (b @ key) v s))"
  by (rule confined_local[OF local_set])

lemma confined_bucket_conditional [confined_intros]:
  "confined (starts_with b) (bucket_set_if_absent b key v)"
  "confined (starts_with b) (bucket_try_acquire_lease tc t0 t1 b key n)"
  unfolding bucket_set_if_absent_def bucket_try_acquire_lease_def Let_def
  by (intro confined_intros confined_mem_set)+

lemma confined_bucket_kind [confined_intros]: "confined (starts_with b) (bucket_kind b key)"
proof (rule confinedI)
  fix s s' assume v: "view (starts_with b) s = view (starts_with b) s'"
  have "map_of s (b @ key) = map_of s' (b @ key)" by (rule map_of_view_eq[OF v]) simp
  then show "fst (bucket_kind b key s) = fst (bucket_kind b key s')"
    by (simp only: bucket_kind_def mem_kind_def fst_conv)
  show "view (starts_with b) (snd (bucket_kind b key s)) = view (starts_with b) (snd (bucket_kind b key s'))"
    using v by (simp only: bucket_kind_def snd_conv)
qed (simp add: bucket_kind_def)

lemma map_fst_view: "map fst (view P s) = filter P (map fst s)"
  by (induction s) (auto simp: view_def)

lemma starts_with_trans: "starts_with (b @ p) k \<Longrightarrow> starts_with b k"
  by (auto simp: starts_with_iff)

lemma mem_scan_view:
  "mem_scan_with_prefix (b @ p) s = filter (starts_with (b @ p)) (map fst (view (starts_with b) s))"
  by (auto simp: mem_scan_with_prefix_def map_fst_view intro!: filter_cong dest: starts_with_trans)

lemma confined_bucket_list_keys [confined_intros]:
  "confined (starts_with b) (bucket_list_keys b up)"
proof -
  obtain p where p: "(case up of Some q \<Rightarrow> b @ q | None \<Rightarrow> b) = b @ p"
    by (cases up) (auto intro: that[of "[]"])
  show ?thesis by (rule confinedI) (simp_all add: bucket_list_keys_def p mem_scan_view)
qed

lemma confined_delete_with_prefix [confined_intros]:
  "confined (starts_with b) (bucket_delete_with_prefix b up)"
  unfolding bucket_delete_with_prefix_def by (intro confined_intros)

lemma confined_frame:
  "\<lbrakk>confined P m; \<not> P k\<rbrakk> \<Longrightarrow> map_of (snd (m s)) k = map_of s k"
  by (rule view_frame[of P]) (rule confined_out)

section \<open>Clearing a namespace\<close>

lemma each_delete:
  "each_io (bucket_delete b) keys s = (Inr (), foldl (\<lambda>st k. AList.delete (b @ k) st) s keys)"
  by (induction keys arbitrary: s) (simp_all add: io_simps bucket_delete_def mem_delete_def)

lemma foldl_delete_lookup:
  "map_of (foldl (\<lambda>st k. AList.delete (b @ k) st) s keys) k' =
    (if \<exists>k \<in> set keys. k' = b @ k then None else map_of s k')"
  by (induction keys arbitrary: s) auto

lemma scan_mem: "k \<in> set (mem_scan_with_prefix p s) \<longleftrightarrow> starts_with p k \<and> map_of s k \<noteq> None"
  by (auto simp: mem_scan_with_prefix_def map_of_eq_None_iff)

lemma strip_bucket_append [simp]: "strip_bucket (b @ k) b = k"
  by (simp add: strip_bucket_def)

lemma delete_with_prefix_spec:
  "bucket_delete_with_prefix b p s =
    (Inr (length (mem_scan_with_prefix (b @ p) s)), snd (bucket_delete_with_prefix b p s))"
  "map_of (snd (bucket_delete_with_prefix b p s)) k =
    (if starts_with (b @ p) k then None else map_of s k)"
proof -
  let ?ks = "map (\<lambda>k. strip_bucket k b) (mem_scan_with_prefix (b @ p) s)"
  have r: "bucket_delete_with_prefix b p s =
      (Inr (length ?ks), foldl (\<lambda>st k. AList.delete (b @ k) st) s ?ks)"
    by (simp add: bucket_delete_with_prefix_def bucket_list_keys_def each_delete io_simps)
  have ks: "(\<exists>u \<in> set ?ks. k = b @ u) \<longleftrightarrow> starts_with (b @ p) k \<and> map_of s k \<noteq> None"
  proof -
    have "\<exists>u. x = b @ u" if "starts_with (b @ p) x" for x
      using that by (auto simp: starts_with_iff)
    then show ?thesis by (force simp: scan_mem)
  qed
  show "bucket_delete_with_prefix b p s =
      (Inr (length (mem_scan_with_prefix (b @ p) s)), snd (bucket_delete_with_prefix b p s))"
    using r by simp
  show "map_of (snd (bucket_delete_with_prefix b p s)) k =
      (if starts_with (b @ p) k then None else map_of s k)"
    unfolding r snd_conv foldl_delete_lookup ks by auto
qed

section \<open>Counters, ranges and leases\<close>

lemma check_i64_Some: "check_i64 i = Some j \<longleftrightarrow> in_i64 i \<and> j = i"
  by (auto simp: check_i64_def)

lemma add_to_text_Inr:
  "add_to_text key b n = Inr v \<longleftrightarrow> (\<exists>cur. parse_i64 b = Some cur \<and> v = cur + n \<and> in_i64 v)"
  by (auto simp: add_to_text_def check_i64_def split: option.splits)

lemma add_to_text_show: "in_i64 c \<Longrightarrow> add_to_text key (show_int c) n =
    (if in_i64 (c + n) then Inr (c + n) else Inl (IncrOverflow key))"
  by (simp add: add_to_text_def parse_i64_show check_i64_def)

lemma bucket_incr_cases:
  "bucket_incr b key n s = (case map_of s (b @ key) of
      None \<Rightarrow> (Inr n, AList.update (b @ key) (Bytes (show_int n)) s)
    | Some (Bytes w) \<Rightarrow> (case add_to_text key w n of
        Inl e \<Rightarrow> (Inl e, s)
      | Inr v \<Rightarrow> (Inr v, AList.update (b @ key) (Bytes (show_int v)) s))
    | Some v \<Rightarrow> (Inl (WrongType key (value_kind v) ''bytes''), s))"
proof -
  have "add_to_text (b @ key) w n = (case add_to_text key w n of
      Inl (NotInteger _) \<Rightarrow> Inl (NotInteger (b @ key))
    | Inl (IncrOverflow _) \<Rightarrow> Inl (IncrOverflow (b @ key)) | r \<Rightarrow> r)" for w
    by (auto simp: add_to_text_def split: option.splits)
  moreover have "add_to_text key w n = Inl e \<Longrightarrow> e = NotInteger key \<or> e = IncrOverflow key" for w e
    by (auto simp: add_to_text_def split: option.splits)
  ultimately show ?thesis
    by (auto simp: bucket_incr_def mem_incr_def map_err_def split: option.splits mem_value.splits sum.splits store_error.splits)
qed

lemma filter_upt_interval:
  "e < n \<Longrightarrow> filter (\<lambda>k. i \<le> k \<and> k \<le> e) [0..<n] = [i..<Suc e]"
  by (rule sorted_distinct_set_unique) (auto simp: sorted_wrt_filter simp del: upt_Suc)

lemma map_nth_upt: "\<lbrakk>i \<le> j; j \<le> length q\<rbrakk> \<Longrightarrow> map (nth q) [i..<j] = take (j - i) (drop i q)"
  by (rule nth_equalityI) auto

text \<open>A counter never leaves the signed 64-bit range and never loses a value: when an
  increment by an \<^theory_text>\<open>i64\<close> succeeds, the returned value is the old one (0 for a missing
  key) plus the increment, lies in the range and is what the key now parses to, with no
  other key touched; when it fails, with whatever error, the store is unchanged.\<close>

theorem bucket_incr_exact:
  assumes "in_i64 n"
  shows "case bucket_incr b key n s of
      (Inl e, s') \<Rightarrow> s' = s
    | (Inr v, s') \<Rightarrow> in_i64 v
        \<and> (\<exists>w. map_of s' (b @ key) = Some (Bytes w) \<and> parse_i64 w = Some v)
        \<and> (case map_of s (b @ key) of
             None \<Rightarrow> v = n
           | Some c \<Rightarrow> \<exists>w cur. c = Bytes w \<and> parse_i64 w = Some cur \<and> v = cur + n)
        \<and> (\<forall>k. k \<noteq> b @ key \<longrightarrow> map_of s' k = map_of s k)"
  unfolding bucket_incr_cases using assms
  by (auto simp: add_to_text_Inr parse_i64_show split: option.splits mem_value.splits sum.splits)

theorem bucket_incr_exact_witness:
  "bucket_incr ''kv:g:r:'' ''n'' 3 [(''kv:g:r:n'', Bytes ''39'')]
     = (Inr 42, [(''kv:g:r:n'', Bytes ''42'')]) \<and> in_i64 42"
proof -
  have e: "bucket_incr ''kv:g:r:'' ''n'' 3 [(''kv:g:r:n'', Bytes ''39'')]
     = (Inr 42, [(''kv:g:r:n'', Bytes ''42'')])" by code_simp
  have "in_i64 3" by (simp add: in_i64_def i64_min_def i64_max_def)
  from bucket_incr_exact[OF this, where b = "''kv:g:r:''" and key = "''n''"
      and s = "[(''kv:g:r:n'', Bytes ''39'')]"] e
  show ?thesis by simp
qed

text \<open>A range over a list of length \<^theory_text>\<open>n\<close> whose start is inside the list and whose stop
  does not lie before its first element returns exactly the elements at the positions
  from the start to the stop, a negative index counting from the end and a stop past the
  end meaning the last element.\<close>

theorem list_range_positions:
  assumes "map_of s (b @ key) = Some (List q)"
    and "- int (length q) \<le> start" "start < int (length q)" "- int (length q) \<le> stop"
  shows "bucket_list_range b key start stop s =
    (Inr (map (nth q) (filter (\<lambda>i.
        (if start < 0 then int (length q) + start else start) \<le> int i \<and>
        int i \<le> (if stop < 0 then int (length q) + stop else stop)) [0..<length q])), s)"
proof -
  let ?n = "int (length q)"
  define i e where "i = nat (range_index ?n start)" and "e = range_index ?n stop"
  have n: "q \<noteq> []" using assms(2,3) by auto
  have idx: "range_index ?n start = (if start < 0 then ?n + start else start)" "0 \<le> range_index ?n start"
    using assms(2,3) by (auto simp: range_index_def)
  have e: "0 \<le> e" "e < ?n" using n assms(4) by (auto simp: e_def range_index_def)
  have cond: "(int k \<le> (if stop < 0 then ?n + stop else stop)) = (int k \<le> e)" if "k < length q" for k
    using that assms(4) by (auto simp: e_def range_index_def)
  have "filter (\<lambda>k. int i \<le> int k \<and> int k \<le> e) [0..<length q] = [i..<Suc (nat e)]"
  proof -
    have "filter (\<lambda>k. int i \<le> int k \<and> int k \<le> e) [0..<length q]
        = filter (\<lambda>k. i \<le> k \<and> k \<le> nat e) [0..<length q]"
      using e by (intro filter_cong) auto
    moreover have "nat e < length q" using e by linarith
    ultimately show ?thesis using filter_upt_interval by metis
  qed
  moreover have "map (nth q) [i..<Suc (nat e)] = take (nat (e - int i + 1)) (drop i q)"
  proof (cases "i \<le> nat e")
    case True
    then have "nat (e - int i + 1) = Suc (nat e) - i" using e by linarith
    moreover have "Suc (nat e) \<le> length q" using e by linarith
    ultimately show ?thesis using True by (simp add: map_nth_upt del: upt_Suc)
  next
    case False
    then have "nat (e - int i + 1) = 0" using e by linarith
    then show ?thesis using False by simp
  qed
  moreover have "filter (\<lambda>k. (if start < 0 then ?n + start else start) \<le> int k \<and>
        int k \<le> (if stop < 0 then ?n + stop else stop)) [0..<length q]
      = filter (\<lambda>k. int i \<le> int k \<and> int k \<le> e) [0..<length q]"
    using cond idx by (intro filter_cong) (auto simp: i_def)
  moreover have "int i = range_index ?n start" using idx(2) by (simp add: i_def)
  ultimately show ?thesis using assms(1) n
    by (simp add: bucket_list_range_def mem_list_range_def map_err_def Let_def i_def[symmetric] e_def[symmetric])
qed

theorem list_range_positions_witness:
  "bucket_list_range ''b:'' ''q'' (- 2) 9 [(''b:q'', List [''x'', ''y'', ''z''])]
     = (Inr [''y'', ''z''], [(''b:q'', List [''x'', ''y'', ''z''])])"
proof -
  have "map_of [(''b:q'', List [''x'', ''y'', ''z''])] (''b:'' @ ''q'') = Some (List [''x'', ''y'', ''z''])"
    by simp
  from list_range_positions[OF this, of "- 2" 9] show ?thesis by (simp add: upt_rec)
qed

text \<open>A range that starts past the end of a non-empty list, and does not stop before
  its last element, is not empty on this backend: it returns the last element, which is
  outside the requested positions (the WIT contract promises the elements at positions
  start to stop).\<close>

theorem list_range_past_end:
  assumes "map_of s (b @ key) = Some (List q)" "q \<noteq> []"
    and "int (length q) \<le> start" "int (length q) \<le> stop"
  shows "bucket_list_range b key start stop s = (Inr [last q], s)"
proof -
  let ?n = "int (length q)"
  have "range_index ?n start = ?n - 1" "range_index ?n stop = ?n - 1"
    using assms(3,4) by (auto simp: range_index_def)
  moreover have "drop (nat (?n - 1)) q = [last q]"
  proof -
    have "nat (?n - 1) = length (butlast q)" by simp
    then show ?thesis using assms(2) by (metis append_butlast_last_id append_eq_conv_conj)
  qed
  ultimately show ?thesis using assms(1,2)
    by (simp add: bucket_list_range_def mem_list_range_def map_err_def)
qed

theorem list_range_past_end_witness:
  "bucket_list_range ''b:'' ''q'' 5 9 [(''b:q'', List [''x'', ''y''])]
     = (Inr [''y''], [(''b:q'', List [''x'', ''y''])])"
proof -
  have "map_of [(''b:q'', List [''x'', ''y''])] (''b:'' @ ''q'') = Some (List [''x'', ''y''])" by simp
  from list_range_past_end[OF this, of 5 9] show ?thesis by simp
qed

text \<open>A lease key holds a deadline; what else the store holds does not matter.\<close>

lemma lease_held:
  assumes "time_ok tc" "map_of s (b @ key) = Some (Bytes (to_rfc3339 tc d))"
  shows "bucket_try_acquire_lease tc t0 t1 b key n s =
    (if t1 < d then (Inr False, s)
     else (Inr True, mem_set (b @ key) (to_rfc3339 tc (t0 + seconds (max n 1))) s))"
  using assms by (simp add: bucket_try_acquire_lease_def bucket_get_def mem_get_def io_simps time_ok_def)

lemma lease_won:
  assumes "bucket_try_acquire_lease tc t0 t1 b key n s = (Inr True, s')"
  shows "map_of s' (b @ key) = Some (Bytes (to_rfc3339 tc (t0 + seconds (max n 1))))"
  using assms
  by (auto simp: bucket_try_acquire_lease_def bind_io_def seq_io_def ret_def mem_set_def Let_def
      split: prod.splits sum.splits if_splits)

text \<open>A lease excludes: once an acquisition at time \<^theory_text>\<open>t0\<close> has won, then, as long as
  nobody else writes the lease key, a later acquisition is refused and changes nothing
  while its clock is before \<^theory_text>\<open>t0\<close> plus the term (at least one second), and wins from that
  deadline on, so a lease is never stuck.\<close>

theorem lease_excludes_until_deadline:
  assumes "time_ok tc"
    and "bucket_try_acquire_lease tc t0 t1 b key n s = (Inr True, s1)"
    and "map_of s2 (b @ key) = map_of s1 (b @ key)"
  shows "bucket_try_acquire_lease tc u0 u1 b key m s2 =
    (if u1 < t0 + seconds (max n 1) then (Inr False, s2)
     else (Inr True, mem_set (b @ key) (to_rfc3339 tc (u0 + seconds (max m 1))) s2))"
  using lease_held[OF assms(1)] lease_won[OF assms(2)] assms(3) by simp

text \<open>A decimal codec, to run the time-dependent code on.\<close>

definition decimal_time :: time_codec where
  "decimal_time = \<lparr>to_rfc3339 = show_int, parse_rfc3339 = (\<lambda>w.
     case w of [] \<Rightarrow> None
     | c # cs \<Rightarrow> if c = CHR ''-'' then map_option (\<lambda>n. - int n) (parse_digits cs)
                else map_option int (parse_digits w))\<rparr>"

lemma decimal_time_ok: "time_ok decimal_time"
proof -
  have "parse_rfc3339 decimal_time (to_rfc3339 decimal_time t) = Some t" for t
  proof (cases "t < 0")
    case True
    then show ?thesis by (simp add: decimal_time_def show_int_def)
  next
    case False
    obtain c cs where c: "show_nat (nat t) = c # cs" "is_digit c" by (rule show_nat_Cons)
    have "parse_digits (c # cs) = Some (nat t)" using parse_digits_show[of "nat t"] c(1) by simp
    then show ?thesis using False c digit_not_sign[OF c(2)] by (simp add: decimal_time_def show_int_def)
  qed
  then show ?thesis by (simp add: time_ok_def)
qed

theorem lease_excludes_until_deadline_witness:
  "fst (bucket_try_acquire_lease decimal_time 9 9 [] ''lease:lifecycle'' 60
     (snd (bucket_try_acquire_lease decimal_time 5 5 [] ''lease:lifecycle'' 60 []))) = Inr False"
proof -
  have "bucket_try_acquire_lease decimal_time 5 5 [] ''lease:lifecycle'' 60 []
      = (Inr True, snd (bucket_try_acquire_lease decimal_time 5 5 [] ''lease:lifecycle'' 60 []))"
    by (simp add: bucket_try_acquire_lease_def bucket_get_def mem_get_def io_simps)
  from lease_excludes_until_deadline[OF decimal_time_ok this refl, of 9 9 60] show ?thesis by simp
qed

end
