(* ===== verification/Records.thy ===== *)
theory Records
  imports Store
begin

text \<open>Records kept in the admin bucket: what a hash, set or plain key holds, what the bucket
  operations do to it, and which keys a computation leaves alone (\<^theory_text>\<open>keeps\<close>).  The
  registry, the account store, the sessions and the OAuth store share these facts.\<close>

definition hash_at :: "mem_store \<Rightarrow> string \<Rightarrow> (string \<times> bytes) list option" where
  "hash_at s k = (case map_of s k of None \<Rightarrow> Some [] | Some (Hash h) \<Rightarrow> Some h | Some _ \<Rightarrow> None)"

definition set_at :: "mem_store \<Rightarrow> string \<Rightarrow> string list option" where
  "set_at s k = (case map_of s k of None \<Rightarrow> Some [] | Some (Set m) \<Rightarrow> Some m | Some _ \<Rightarrow> None)"

definition bytes_at :: "mem_store \<Rightarrow> string \<Rightarrow> bytes option option" where
  "bytes_at s k = (case map_of s k of
      None \<Rightarrow> Some None | Some (Bytes b) \<Rightarrow> Some (Some b) | Some _ \<Rightarrow> None)"

definition set_insert :: "string \<Rightarrow> string list \<Rightarrow> string list" where
  "set_insert x xs = (if x \<in> set xs then xs else xs @ [x])"

named_theorems cell_simps "what a key holds after a write"

lemma cell_update [cell_simps]:
  "hash_at (AList.update k' v s) k = (if k = k' then (case v of Hash h \<Rightarrow> Some h | _ \<Rightarrow> None) else hash_at s k)"
  "set_at (AList.update k' v s) k = (if k = k' then (case v of Set m \<Rightarrow> Some m | _ \<Rightarrow> None) else set_at s k)"
  "bytes_at (AList.update k' v s) k =
     (if k = k' then (case v of Bytes b \<Rightarrow> Some (Some b) | _ \<Rightarrow> None) else bytes_at s k)"
  by (auto simp: hash_at_def set_at_def bytes_at_def split: mem_value.splits)

lemma cell_delete [cell_simps]:
  "hash_at (AList.delete k' s) k = (if k = k' then Some [] else hash_at s k)"
  "set_at (AList.delete k' s) k = (if k = k' then Some [] else set_at s k)"
  "bytes_at (AList.delete k' s) k = (if k = k' then Some None else bytes_at s k)"
  by (auto simp: hash_at_def set_at_def bytes_at_def)

lemma cell_list [cell_simps]:
  "hash_at ((k', v) # s) k = (if k = k' then (case v of Hash h \<Rightarrow> Some h | _ \<Rightarrow> None) else hash_at s k)"
  "set_at ((k', v) # s) k = (if k = k' then (case v of Set m \<Rightarrow> Some m | _ \<Rightarrow> None) else set_at s k)"
  "bytes_at ((k', v) # s) k =
     (if k = k' then (case v of Bytes b \<Rightarrow> Some (Some b) | _ \<Rightarrow> None) else bytes_at s k)"
  "hash_at [] k = Some []" "set_at [] k = Some []" "bytes_at [] k = Some None"
  by (auto simp: hash_at_def set_at_def bytes_at_def split: mem_value.splits)

lemma cell_cong:
  assumes "map_of s k = map_of s' k"
  shows "hash_at s k = hash_at s' k" "set_at s k = set_at s' k" "bytes_at s k = bytes_at s' k"
  using assms by (simp_all add: hash_at_def set_at_def bytes_at_def)

lemma set_set_insert [simp]: "set (set_insert x xs) = insert x (set xs)"
  by (auto simp: set_insert_def)

lemma distinct_set_insert [simp]: "distinct (set_insert x xs) = distinct xs"
  by (auto simp: set_insert_def)

section \<open>Admin-bucket operations on a cell\<close>

lemmas admin_defs = admin_bucket_def bucket_hash_set_def bucket_hash_delete_def
  bucket_hash_get_all_def bucket_hash_get_def bucket_set_add_def bucket_set_remove_def
  bucket_set_members_def bucket_get_def map_err_def

lemma admin_hash_set:
  "hash_at s k = Some h \<Longrightarrow> bucket_hash_set admin_bucket k f v s
     = (Inr (), AList.update k (Hash (AList.update f v h)) s)"
  by (auto simp: hash_at_def admin_defs mem_hash_set_def split: option.splits mem_value.splits)

lemma admin_hash_set_Inr:
  "bucket_hash_set admin_bucket k f v s = (Inr u, s') \<longleftrightarrow>
    (\<exists>h. hash_at s k = Some h \<and> s' = AList.update k (Hash (AList.update f v h)) s)"
  by (auto simp: hash_at_def admin_defs mem_hash_set_def split: option.splits mem_value.splits)

lemma admin_hash_delete:
  "hash_at s k = Some h \<Longrightarrow> bucket_hash_delete admin_bucket k f s
     = (Inr (), if map_of s k = None then s else AList.update k (Hash (AList.delete f h)) s)"
  by (auto simp: hash_at_def admin_defs mem_hash_delete_def split: option.splits mem_value.splits)

lemma admin_hash_delete_Inr:
  "bucket_hash_delete admin_bucket k f s = (Inr u, s') \<Longrightarrow>
    \<exists>h. hash_at s k = Some h \<and> hash_at s' k = Some (AList.delete f h)"
  by (auto simp: hash_at_def admin_defs mem_hash_delete_def split: option.splits mem_value.splits)

lemma admin_hash_get_all:
  "bucket_hash_get_all admin_bucket k s = (case hash_at s k of
      Some h \<Rightarrow> (Inr h, s)
    | None \<Rightarrow> (Inl (WrongType k (value_kind (the (map_of s k))) ''hash''), s))"
  by (auto simp: hash_at_def admin_defs mem_hash_get_all_def strip_bucket_def
      split: option.splits mem_value.splits)

lemma admin_hash_get:
  "bucket_hash_get admin_bucket k f s = (case hash_at s k of
      Some h \<Rightarrow> (Inr (map_of h f), s)
    | None \<Rightarrow> (Inl (WrongType k (value_kind (the (map_of s k))) ''hash''), s))"
  by (auto simp: hash_at_def admin_defs mem_hash_get_def strip_bucket_def
      split: option.splits mem_value.splits)

lemma admin_hash_incr_Inr:
  "bucket_hash_incr admin_bucket k f n s = (Inr v, s') \<longleftrightarrow>
    (\<exists>h. hash_at s k = Some h
       \<and> (case map_of h f of None \<Rightarrow> v = n
            | Some b \<Rightarrow> (\<exists>cur. parse_i64 b = Some cur \<and> v = cur + n \<and> in_i64 v))
       \<and> s' = AList.update k (Hash (AList.update f (show_int v) h)) s)"
proof -
  note d = hash_at_def bucket_hash_incr_def admin_bucket_def map_err_def mem_hash_incr_def Let_def
    add_to_text_def check_i64_def
  show ?thesis
  proof (cases "map_of s k")
    case None
    then show ?thesis by (auto simp: d)
  next
    case (Some c)
    show ?thesis
    proof (cases c)
      case (Hash h)
      show ?thesis
      proof (cases "map_of h f")
        case None
        then show ?thesis using Some Hash by (auto simp: d)
      next
        case b: (Some b)
        then show ?thesis using Some Hash
          by (cases "parse_i64 b") (auto simp: d split: option.splits)
      qed
    qed (use Some in \<open>auto simp: d\<close>)
  qed
qed

lemma admin_hash_incr_fresh:
  "\<lbrakk>hash_at s k = Some h; map_of h f = None\<rbrakk> \<Longrightarrow> bucket_hash_incr admin_bucket k f n s =
     (Inr n, AList.update k (Hash (AList.update f (show_int n) h)) s)"
  by (simp add: admin_hash_incr_Inr)

lemma admin_set_add:
  "set_at s k = Some m \<Longrightarrow>
    bucket_set_add admin_bucket k x s = (Inr (), AList.update k (Set (set_insert x m)) s)"
  by (auto simp: set_at_def admin_defs mem_set_add_def set_insert_def
      split: option.splits mem_value.splits)

lemma admin_set_add_Inr:
  "bucket_set_add admin_bucket k x s = (Inr u, s') \<longleftrightarrow>
    (\<exists>m. set_at s k = Some m \<and> s' = AList.update k (Set (set_insert x m)) s)"
  by (auto simp: set_at_def admin_defs mem_set_add_def set_insert_def
      split: option.splits mem_value.splits)

lemma admin_set_remove:
  "set_at s k = Some m \<Longrightarrow> bucket_set_remove admin_bucket k x s
     = (Inr (), if map_of s k = None then s else AList.update k (Set (removeAll x m)) s)"
  by (auto simp: set_at_def admin_defs mem_set_remove_def split: option.splits mem_value.splits)

lemma admin_set_remove_Inr:
  "bucket_set_remove admin_bucket k x s = (Inr u, s') \<Longrightarrow>
    \<exists>m. set_at s k = Some m \<and> set_at s' k = Some (removeAll x m)"
  by (auto simp: set_at_def admin_defs mem_set_remove_def split: option.splits mem_value.splits)

lemma admin_set_members:
  "bucket_set_members admin_bucket k s = (case set_at s k of
      Some m \<Rightarrow> (Inr m, s)
    | None \<Rightarrow> (Inl (WrongType k (value_kind (the (map_of s k))) ''set''), s))"
  by (auto simp: set_at_def admin_defs mem_set_members_def strip_bucket_def
      split: option.splits mem_value.splits)

lemma admin_get:
  "bucket_get admin_bucket k s = (case bytes_at s k of
      Some b \<Rightarrow> (Inr b, s)
    | None \<Rightarrow> (Inl (WrongType k (value_kind (the (map_of s k))) ''bytes''), s))"
  by (auto simp: bytes_at_def admin_defs mem_get_def strip_bucket_def
      split: option.splits mem_value.splits)

lemma admin_set: "bucket_set admin_bucket k v s = (Inr (), AList.update k (Bytes v) s)"
  by (simp add: bucket_set_def admin_bucket_def mem_set_def)

lemma admin_delete: "bucket_delete admin_bucket k s = (Inr (), AList.delete k s)"
  by (simp add: bucket_delete_def admin_bucket_def mem_delete_def)

lemma admin_ttl:
  "bucket_set_ttl admin_bucket k n s = (Inr (), s)" "bucket_clear_ttl admin_bucket k s = (Inr (), s)"
  by (simp_all add: bucket_set_ttl_def bucket_clear_ttl_def)

lemma map_err_run:
  "map_err g m s = (case m s of (Inl e, s') \<Rightarrow> (Inl (g e), s') | (Inr x, s') \<Rightarrow> (Inr x, s'))"
  by (simp add: map_err_def)

lemma map_err_Inr_iff: "map_err g m s = (Inr x, s') \<longleftrightarrow> m s = (Inr x, s')"
  by (auto simp: map_err_def split: prod.splits sum.splits)

section \<open>Computations that leave a key alone\<close>

named_theorems keeps_intros "computations that leave a key alone"

definition keeps :: "string \<Rightarrow> (mem_store, 'e, 'a) io \<Rightarrow> bool" where
  "keeps k m \<longleftrightarrow> (\<forall>s. map_of (snd (m s)) k = map_of s k)"

lemma keepsD: "keeps k m \<Longrightarrow> m s = (r, s') \<Longrightarrow> map_of s' k = map_of s k"
  unfolding keeps_def by (metis snd_conv)

lemma keeps_snd: "keeps k m \<Longrightarrow> map_of (snd (m s)) k = map_of s k"
  by (simp add: keeps_def)

lemma keeps_cells:
  assumes "keeps k m" "m s = (r, s')"
  shows "hash_at s' k = hash_at s k" "set_at s' k = set_at s k" "bytes_at s' k = bytes_at s k"
  using cell_cong[OF keepsD[OF assms]] by simp_all

lemma keeps_pure [keeps_intros]: "keeps k (ret x)" "keeps k (raise e)" "keeps k (lift_result r)"
  by (simp_all add: keeps_def io_simps)

lemma keeps_bind [keeps_intros]:
  "\<lbrakk>keeps k m; \<And>x. keeps k (f x)\<rbrakk> \<Longrightarrow> keeps k (bind_io m f)"
  unfolding keeps_def by (auto simp: bind_io_parts split: sum.splits)

lemma keeps_seq [keeps_intros]: "\<lbrakk>keeps k m; keeps k n\<rbrakk> \<Longrightarrow> keeps k (seq_io m n)"
  by (simp add: seq_io_def keeps_bind)

lemma keeps_map_err [keeps_intros]: "keeps k m \<Longrightarrow> keeps k (map_err g m)"
  by (simp add: keeps_def map_err_parts)

lemma keeps_ignore [keeps_intros]: "keeps k m \<Longrightarrow> keeps k (ignore_err m)"
  by (simp add: keeps_def ignore_err_def)

lemma keeps_each [keeps_intros]:
  "(\<And>x. x \<in> set xs \<Longrightarrow> keeps k (f x)) \<Longrightarrow> keeps k (each_io f xs)"
  by (induction xs) (auto intro!: keeps_intros)

lemma keeps_if [keeps_intros]:
  "\<lbrakk>c \<Longrightarrow> keeps k m; \<not> c \<Longrightarrow> keeps k n\<rbrakk> \<Longrightarrow> keeps k (if c then m else n)"
  by simp

lemma keeps_option [keeps_intros]:
  "\<lbrakk>y = None \<Longrightarrow> keeps k m; \<And>x. y = Some x \<Longrightarrow> keeps k (f x)\<rbrakk>
   \<Longrightarrow> keeps k (case y of None \<Rightarrow> m | Some x \<Rightarrow> f x)"
  by (simp split: option.splits)

lemma keeps_local: "\<lbrakk>local_at k' m; k \<noteq> k'\<rbrakk> \<Longrightarrow> keeps k m"
  by (simp add: keeps_def local_frame)

lemma snd_mem_get [simp]: "snd (mem_get key s) = s"
  by (simp add: mem_get_def split: option.splits mem_value.splits)

lemma snd_mem_hash_get [simp]: "snd (mem_hash_get key f s) = s"
  by (simp add: mem_hash_get_def split: option.splits mem_value.splits)

lemma snd_mem_hash_get_all [simp]: "snd (mem_hash_get_all key s) = s"
  by (simp add: mem_hash_get_all_def split: option.splits mem_value.splits)

lemma snd_mem_set_members [simp]: "snd (mem_set_members key s) = s"
  by (simp add: mem_set_members_def split: option.splits mem_value.splits)

lemma snd_mem_set_contains [simp]: "snd (mem_set_contains key m s) = s"
  by (simp add: mem_set_contains_def split: option.splits mem_value.splits)

lemma snd_mem_hash_keys [simp]: "snd (mem_hash_keys key s) = s"
  by (simp add: mem_hash_keys_def split: option.splits mem_value.splits)

lemma snd_mem_list_length [simp]: "snd (mem_list_length key s) = s"
  by (simp add: mem_list_length_def split: option.splits mem_value.splits)

lemma keeps_read [keeps_intros]:
  "keeps k (bucket_get b key)" "keeps k (bucket_hash_get b key f)"
  "keeps k (bucket_hash_get_all b key)" "keeps k (bucket_set_members b key)"
  "keeps k (bucket_set_contains b key m)" "keeps k (bucket_list_keys b up)"
  "keeps k (bucket_kind b key)" "keeps k (bucket_hash_keys b key)" "keeps k (bucket_list_length b key)"
  by (simp_all add: keeps_def bucket_get_def bucket_hash_get_def bucket_hash_get_all_def
      bucket_set_members_def bucket_set_contains_def bucket_list_keys_def bucket_kind_def
      bucket_hash_keys_def bucket_list_length_def map_err_parts Let_def)

lemma keeps_ttl [keeps_intros]:
  "keeps k (bucket_set_ttl b key n)" "keeps k (bucket_clear_ttl b key)" "keeps k (bucket_publish b ch p)"
  by (simp_all add: keeps_def bucket_set_ttl_def bucket_clear_ttl_def bucket_publish_def)

lemma keeps_write [keeps_intros]:
  assumes "k \<noteq> b @ key"
  shows "keeps k (bucket_set b key v)" "keeps k (bucket_delete b key)"
    "keeps k (bucket_set_with_ttl b key v n)"
    "keeps k (bucket_incr b key i)" "keeps k (bucket_hash_set b key f v)"
    "keeps k (bucket_hash_delete b key f)" "keeps k (bucket_hash_incr b key f i)"
    "keeps k (bucket_set_add b key m)" "keeps k (bucket_set_remove b key m)"
    "keeps k (bucket_list_push b key v)" "keeps k (bucket_list_pop b key)"
  unfolding bucket_set_def[abs_def] bucket_delete_def[abs_def] bucket_set_with_ttl_def bucket_incr_def
    bucket_hash_set_def bucket_hash_delete_def bucket_hash_incr_def bucket_set_add_def
    bucket_set_remove_def bucket_list_push_def bucket_list_pop_def
  by (intro keeps_map_err keeps_local[OF _ assms] local_ops)+

lemma keeps_delete_prefix [keeps_intros]:
  "\<not> starts_with (b @ p) k \<Longrightarrow> keeps k (bucket_delete_with_prefix b p)"
  by (simp only: keeps_def delete_with_prefix_spec(2) if_False simp_thms)

end
