(* ===== verification/Pattern.thy ===== *)
theory Pattern
  imports Prelude
begin

text \<open>Path patterns (\<^theory_text>\<open>pattern.rs\<close>): parsing, matching a request path, and the conflict
  check that registration runs.  The segments, the pattern and the parse errors are
  the source's types.  \<^theory_text>\<open>match_path\<close> contains an \<^theory_text>\<open>unreachable!\<close> arm; the model returns
  \<^theory_text>\<open>Inl Unreachable\<close> there and the lemmas show that no parsed pattern reaches it.\<close>

datatype pattern_error =
    MissingLeadingSlash
  | EmptySegment
  | BadParam
  | DuplicateParam string
  | InvalidParamName string
  | TailNotFinal string

datatype segment = Literal string | Param string | Tail string

record pattern =
  raw :: string
  segments :: "segment list"

datatype panic = Unreachable

type_synonym captures = "(string \<times> string) list"

section \<open>Parsing\<close>

definition name_char :: "char \<Rightarrow> bool" where
  "name_char c \<longleftrightarrow> is_alnum c \<or> c = CHR ''_'' \<or> c = CHR ''-''"

definition trim_slash :: "string \<Rightarrow> string" where
  "trim_slash s = (if length s > 1 \<and> ends_with ''/'' s then butlast s else s)"

text \<open>One turn of the parse loop: the segment it pushes, with the names seen so far.\<close>

definition parse_segment :: "string list \<Rightarrow> string \<Rightarrow> pattern_error + segment" where
  "parse_segment seen part =
    (if part = [] then Inl EmptySegment
     else case strip_prefix ''{'' part of
       Some rest \<Rightarrow>
         (case strip_suffix ''}'' rest of
            None \<Rightarrow> Inl BadParam
          | Some inner \<Rightarrow>
              if inner = [] then Inl BadParam
              else
                let (name, is_tail) =
                  (case strip_suffix ''...'' inner of Some n \<Rightarrow> (n, True) | None \<Rightarrow> (inner, False))
                in if name = [] then Inl BadParam
                   else if \<not> list_all name_char name then Inl (InvalidParamName name)
                   else if name \<in> set seen then Inl (DuplicateParam name)
                   else Inr (if is_tail then Tail name else Param name))
     | None \<Rightarrow>
         if CHR ''{'' \<in> set part \<or> CHR ''}'' \<in> set part then Inl BadParam
         else Inr (Literal part))"

fun seg_name :: "segment \<Rightarrow> string list" where
  "seg_name (Literal l) = []"
| "seg_name (Param n) = [n]"
| "seg_name (Tail n) = [n]"

fun is_tail_seg :: "segment \<Rightarrow> bool" where
  "is_tail_seg (Tail n) = True"
| "is_tail_seg (Literal l) = False"
| "is_tail_seg (Param n) = False"

fun parse_parts :: "string list \<Rightarrow> string list \<Rightarrow> pattern_error + segment list" where
  "parse_parts seen [] = Inr []"
| "parse_parts seen (part # parts) =
     rbind (parse_segment seen part) (\<lambda>s.
       rbind (parse_parts (seg_name s @ seen) parts) (\<lambda>ss. Inr (s # ss)))"

text \<open>The check after the loop: the first tail must be the last segment.\<close>

fun misplaced_tail :: "segment list \<Rightarrow> string option" where
  "misplaced_tail [] = None"
| "misplaced_tail (Tail n # rest) = (if rest = [] then None else Some n)"
| "misplaced_tail (s # rest) = misplaced_tail rest"

definition pattern_parse :: "string \<Rightarrow> pattern_error + pattern" where
  "pattern_parse r =
    (if \<not> starts_with ''/'' r then Inl MissingLeadingSlash
     else
       let trimmed = trim_slash r in
       if trimmed = ''/'' then Inr \<lparr>raw = ''/'', segments = []\<rparr>
       else rbind (parse_parts [] (split_on CHR ''/'' (tl trimmed))) (\<lambda>ss.
         case misplaced_tail ss of
           Some n \<Rightarrow> Inl (TailNotFinal n)
         | None \<Rightarrow> Inr \<lparr>raw = trimmed, segments = ss\<rparr>))"

section \<open>Matching\<close>

definition has_tail :: "pattern \<Rightarrow> bool" where
  "has_tail p = (case rev (segments p) of Tail n # _ \<Rightarrow> True | _ \<Rightarrow> False)"

text \<open>The loop over the zipped segments and path parts, shared by both branches of
  \<^theory_text>\<open>match_path\<close>; as with \<^theory_text>\<open>zip\<close> it stops at the shorter list.\<close>

fun match_segments :: "segment list \<Rightarrow> string list \<Rightarrow> panic + captures option" where
  "match_segments [] parts = Inr (Some [])"
| "match_segments segs [] = Inr (Some [])"
| "match_segments (s # segs) (part # parts) =
     (if part = [] then Inr None
      else case s of
        Literal l \<Rightarrow> if l \<noteq> part then Inr None else match_segments segs parts
      | Param n \<Rightarrow> rmap (map_option (\<lambda>cs. (n, part) # cs)) (match_segments segs parts)
      | Tail n \<Rightarrow> Inl Unreachable)"

definition path_parts :: "string \<Rightarrow> string list" where
  "path_parts trimmed = (if trimmed = ''/'' then [] else split_on CHR ''/'' (tl trimmed))"

definition match_path :: "pattern \<Rightarrow> string \<Rightarrow> panic + captures option" where
  "match_path p path =
    (if \<not> starts_with ''/'' path then Inr None
     else
       let trimmed = trim_slash path; parts = path_parts trimmed in
       case rev (segments p) of
         Tail tail_name # _ \<Rightarrow>
           (let prefix = butlast (segments p) in
            if length parts < length prefix then Inr None
            else rmap (map_option (\<lambda>cs. cs @ [(tail_name, join ''/'' (drop (length prefix) parts))]))
                   (match_segments prefix parts))
       | _ \<Rightarrow>
           if trimmed = ''/'' then (if segments p = [] then Inr (Some []) else Inr None)
           else if length parts \<noteq> length (segments p) then Inr None
           else match_segments (segments p) parts)"

section \<open>Methods and conflicts\<close>

type_synonym methods = "string list"

definition methods_match :: "methods \<Rightarrow> string \<Rightarrow> bool" where
  "methods_match ms method =
    (let m = to_upper method in list_ex (\<lambda>x. x = ''ANY'' \<or> eq_ignore_case x m) ms)"

definition methods_overlap :: "methods \<Rightarrow> methods \<Rightarrow> bool" where
  "methods_overlap a b =
    (let any_a = list_ex (\<lambda>m. m = ''ANY'') a; any_b = list_ex (\<lambda>m. m = ''ANY'') b in
     if any_a \<or> any_b then True else list_ex (\<lambda>x. list_ex (\<lambda>y. x = y) b) a)"

fun segments_compatible :: "segment \<Rightarrow> segment \<Rightarrow> bool" where
  "segments_compatible (Literal x) (Literal y) = (x = y)"
| "segments_compatible (Literal x) (Param y) = True"
| "segments_compatible (Param x) (Literal y) = True"
| "segments_compatible (Param x) (Param y) = True"
| "segments_compatible (Tail x) s = False"
| "segments_compatible s (Tail y) = False"

definition compatible_lists :: "segment list \<Rightarrow> segment list \<Rightarrow> bool" where
  "compatible_lists as bs \<longleftrightarrow>
     length as = length bs \<and> list_all (\<lambda>(a, b). segments_compatible a b) (zip as bs)"

definition patterns_conflict :: "pattern \<Rightarrow> pattern \<Rightarrow> bool" where
  "patterns_conflict a b =
    (if \<not> has_tail a \<and> \<not> has_tail b then compatible_lists (segments a) (segments b)
     else if has_tail a \<and> has_tail b
       then compatible_lists (butlast (segments a)) (butlast (segments b))
     else False)"

definition routes_conflict :: "methods \<Rightarrow> pattern \<Rightarrow> methods \<Rightarrow> pattern \<Rightarrow> bool" where
  "routes_conflict ma pa mb pb \<longleftrightarrow> methods_overlap ma mb \<and> patterns_conflict pa pb"

text \<open>\<^theory_text>\<open>collect\<close> into a \<^theory_text>\<open>HashMap\<close>: a later pair replaces an earlier one.\<close>

definition captures_to_map :: "captures \<Rightarrow> string \<rightharpoonup> string" where
  "captures_to_map cs = foldl (\<lambda>m (k, v). m(k \<mapsto> v)) Map.empty cs"

section \<open>Well-formed patterns\<close>

fun show_segment :: "segment \<Rightarrow> string" where
  "show_segment (Literal l) = l"
| "show_segment (Param n) = ''{'' @ n @ ''}''"
| "show_segment (Tail n) = ''{'' @ n @ ''...}''"

fun wf_segment :: "segment \<Rightarrow> bool" where
  "wf_segment (Literal l) \<longleftrightarrow>
     l \<noteq> [] \<and> CHR ''/'' \<notin> set l \<and> CHR ''{'' \<notin> set l \<and> CHR ''}'' \<notin> set l"
| "wf_segment (Param n) \<longleftrightarrow> n \<noteq> [] \<and> list_all name_char n"
| "wf_segment (Tail n) \<longleftrightarrow> n \<noteq> [] \<and> list_all name_char n"

definition seg_names :: "segment list \<Rightarrow> string list" where
  "seg_names ss = concat (map seg_name ss)"

definition render :: "segment list \<Rightarrow> string" where
  "render ss = CHR ''/'' # join ''/'' (map show_segment ss)"

definition wf_segments :: "segment list \<Rightarrow> bool" where
  "wf_segments ss \<longleftrightarrow> list_all wf_segment ss \<and> distinct (seg_names ss) \<and> misplaced_tail ss = None"

definition wf_pattern :: "pattern \<Rightarrow> bool" where
  "wf_pattern p \<longleftrightarrow> wf_segments (segments p) \<and> raw p = render (segments p)"

lemma seg_names_simps [simp]:
  "seg_names [] = []" "seg_names (s # ss) = seg_name s @ seg_names ss"
  "seg_names (as @ bs) = seg_names as @ seg_names bs"
  by (simp_all add: seg_names_def)

lemma name_char_facts [simp]:
  "\<not> name_char CHR ''/''" "\<not> name_char CHR ''{''" "\<not> name_char CHR ''}''" "\<not> name_char CHR ''.''"
  by (simp_all add: name_char_def is_alnum_def is_lower_def is_upper_def is_digit_def)

lemma name_no_char: "\<lbrakk>list_all name_char n; \<not> name_char c\<rbrakk> \<Longrightarrow> c \<notin> set n"
  by (auto simp: list_all_iff)

lemma strip_dots_name: "list_all name_char n \<Longrightarrow> strip_suffix ''...'' n = None"
proof (rule ccontr)
  assume n: "list_all name_char n" and "strip_suffix ''...'' n \<noteq> None"
  then obtain t where "n = t @ ''...''" by (auto simp: str_simps)
  then show False using name_no_char[OF n, of "CHR ''.''"] by simp
qed

lemma strip_none_no_char: "c \<notin> set s \<Longrightarrow> strip_prefix [c] s = None"
  by (cases s) auto

lemma parse_segment_sound:
  assumes "parse_segment seen part = Inr s" and "CHR ''/'' \<notin> set part"
  shows "show_segment s = part \<and> wf_segment s \<and> set (seg_name s) \<inter> set seen = {}
    \<and> distinct (seg_name s)"
proof (cases "strip_prefix ''{'' part")
  case None
  then show ?thesis using assms by (auto simp: parse_segment_def split: if_splits)
next
  case (Some rest)
  then have part: "part = CHR ''{'' # rest" by (simp add: str_simps)
  obtain inner where inner: "strip_suffix ''}'' rest = Some inner"
    using assms(1) part by (auto simp: parse_segment_def split: option.splits)
  then have rest: "rest = inner @ ''}''" by (simp add: str_simps)
  show ?thesis
  proof (cases "strip_suffix ''...'' inner")
    case None
    then show ?thesis using assms(1) part rest
      by (auto simp: parse_segment_def split: if_splits)
  next
    case (Some n)
    then have "inner = n @ ''...''" by (simp add: str_simps)
    moreover have "strip_suffix ''}'' (n @ ''...}'') = Some (n @ ''...'')" by (simp add: str_simps)
    ultimately show ?thesis using assms(1) part rest Some
      by (auto simp: parse_segment_def split: if_splits)
  qed
qed

lemma parse_segment_complete:
  assumes "wf_segment s" and "set (seg_name s) \<inter> set seen = {}"
  shows "parse_segment seen (show_segment s) = Inr s"
proof (cases s)
  case (Literal l)
  then show ?thesis using assms by (simp add: parse_segment_def strip_none_no_char)
next
  case (Param n)
  then show ?thesis using assms by (simp add: parse_segment_def strip_dots_name)
next
  case (Tail n)
  have "strip_suffix ''}'' (n @ ''...}'') = Some (n @ ''...'')" by (simp add: str_simps)
  then show ?thesis using Tail assms by (simp add: parse_segment_def)
qed

lemma show_segment_no_slash: "wf_segment s \<Longrightarrow> CHR ''/'' \<notin> set (show_segment s)"
  by (cases s) (auto dest: name_no_char[of _ "CHR ''/''"])

lemma show_segment_not_Nil: "wf_segment s \<Longrightarrow> show_segment s \<noteq> []"
  by (cases s) auto

lemma parse_parts_sound:
  assumes "parse_parts seen parts = Inr ss" and "\<And>w. w \<in> set parts \<Longrightarrow> CHR ''/'' \<notin> set w"
  shows "map show_segment ss = parts \<and> list_all wf_segment ss \<and> distinct (seg_names ss)
    \<and> set (seg_names ss) \<inter> set seen = {}"
  using assms
proof (induction seen parts arbitrary: ss rule: parse_parts.induct)
  case (1 seen)
  then show ?case by simp
next
  case (2 seen part parts)
  obtain s where s: "parse_segment seen part = Inr s"
    using "2.prems"(1) by (cases "parse_segment seen part") auto
  obtain ts where ts: "parse_parts (seg_name s @ seen) parts = Inr ts"
    using "2.prems"(1) s by (cases "parse_parts (seg_name s @ seen) parts") auto
  have ss: "ss = s # ts" using "2.prems"(1) s ts by simp
  have "show_segment s = part \<and> wf_segment s \<and> set (seg_name s) \<inter> set seen = {}
    \<and> distinct (seg_name s)"
    using parse_segment_sound[OF s] "2.prems"(2) by simp
  moreover have "map show_segment ts = parts \<and> list_all wf_segment ts \<and> distinct (seg_names ts)
    \<and> set (seg_names ts) \<inter> set (seg_name s @ seen) = {}"
    using "2.IH"[OF ts] "2.prems"(2) by simp
  ultimately show ?case using ss by auto
qed

lemma parse_parts_complete:
  "\<lbrakk>list_all wf_segment ss; distinct (seg_names ss); set (seg_names ss) \<inter> set seen = {}\<rbrakk>
   \<Longrightarrow> parse_parts seen (map show_segment ss) = Inr ss"
proof (induction ss arbitrary: seen)
  case (Cons s ss)
  then have "parse_segment seen (show_segment s) = Inr s"
    by (intro parse_segment_complete) auto
  moreover have "set (seg_names ss) \<inter> set (seg_name s @ seen) = {}" using Cons.prems by auto
  ultimately show ?case using Cons by simp
qed simp

lemma trim_slash_Cons: "starts_with ''/'' r \<Longrightarrow> \<exists>t. trim_slash r = CHR ''/'' # t"
  by (cases r) (auto simp: trim_slash_def)

lemma pattern_parse_wf:
  assumes "pattern_parse r = Inr p"
  shows "wf_pattern p"
proof -
  have st: "starts_with ''/'' r" using assms by (simp add: pattern_parse_def split: if_splits)
  obtain t where t: "trim_slash r = CHR ''/'' # t" using trim_slash_Cons[OF st] by blast
  show ?thesis
  proof (cases "t = []")
    case True
    then show ?thesis using assms st t
      by (auto simp: pattern_parse_def wf_pattern_def wf_segments_def render_def)
  next
    case False
    obtain ss where ss: "parse_parts [] (split_on CHR ''/'' t) = Inr ss"
      using assms st t False
      by (cases "parse_parts [] (split_on CHR ''/'' t)") (auto simp: pattern_parse_def)
    have p: "p = \<lparr>raw = CHR ''/'' # t, segments = ss\<rparr>" "misplaced_tail ss = None"
      using assms st t False ss by (auto simp: pattern_parse_def split: option.splits)
    show ?thesis using parse_parts_sound[OF ss] p split_on_no_sep[of _ "CHR ''/''" t]
      by (auto simp: wf_pattern_def wf_segments_def render_def)
  qed
qed

lemma last_join: "\<lbrakk>ws \<noteq> []; last ws \<noteq> []\<rbrakk> \<Longrightarrow> join sep ws \<noteq> [] \<and> last (join sep ws) = last (last ws)"
  by (induction sep ws rule: join.induct) auto

lemma trim_slash_join:
  assumes "\<And>w. w \<in> set ws \<Longrightarrow> w \<noteq> [] \<and> CHR ''/'' \<notin> set w"
  shows "trim_slash (CHR ''/'' # join ''/'' ws) = CHR ''/'' # join ''/'' ws"
proof (cases "ws = []")
  case False
  then have w: "last ws \<noteq> []" "CHR ''/'' \<notin> set (last ws)" using assms[of "last ws"] by auto
  then have "last (last ws) \<noteq> CHR ''/''" by (metis last_in_set)
  then show ?thesis using last_join[OF False w(1), of "''/''"]
    by (auto simp: trim_slash_def ends_with_single)
qed (simp add: trim_slash_def)

lemma path_parts_join:
  assumes "\<And>w. w \<in> set ws \<Longrightarrow> w \<noteq> [] \<and> CHR ''/'' \<notin> set w"
  shows "path_parts (CHR ''/'' # join ''/'' ws) = ws"
proof (cases "ws = []")
  case False
  then have "join ''/'' ws \<noteq> []" using last_join[OF False] assms by auto
  then show ?thesis using split_join[OF False] assms by (simp add: path_parts_def)
qed (simp add: path_parts_def)

lemma pattern_parse_render:
  assumes "wf_pattern p"
  shows "pattern_parse (raw p) = Inr p"
proof -
  have wf: "list_all wf_segment (segments p)" "distinct (seg_names (segments p))"
      "misplaced_tail (segments p) = None" and r: "raw p = render (segments p)"
    using assms by (auto simp: wf_pattern_def wf_segments_def)
  let ?ws = "map show_segment (segments p)"
  have ws: "w \<noteq> [] \<and> CHR ''/'' \<notin> set w" if "w \<in> set ?ws" for w
    using that wf(1) show_segment_no_slash show_segment_not_Nil by (auto simp: list_all_iff)
  have t: "trim_slash (raw p) = raw p" using trim_slash_join[of ?ws, OF ws] r by (simp add: render_def)
  show ?thesis
  proof (cases "segments p = []")
    case True
    then show ?thesis using r by (simp add: pattern_parse_def trim_slash_def render_def)
  next
    case False
    then have "last ?ws \<in> set ?ws" by (intro last_in_set) simp
    then have "join ''/'' ?ws \<noteq> []" using last_join[of ?ws] ws False by blast
    moreover have "split_on CHR ''/'' (join ''/'' ?ws) = ?ws" using split_join[of ?ws] False ws by simp
    ultimately show ?thesis
      using t r wf(3) parse_parts_complete[OF wf(1,2), of "[]"]
      by (simp add: pattern_parse_def render_def)
  qed
qed

section \<open>What matching means\<close>

text \<open>A segment accepts a non-empty path part: a literal itself, a parameter anything.\<close>

fun seg_ok :: "segment \<Rightarrow> string \<Rightarrow> bool" where
  "seg_ok (Literal l) part \<longleftrightarrow> part \<noteq> [] \<and> l = part"
| "seg_ok (Param n) part \<longleftrightarrow> part \<noteq> []"
| "seg_ok (Tail n) part \<longleftrightarrow> False"

fun bindings :: "segment list \<Rightarrow> string list \<Rightarrow> captures" where
  "bindings (Param n # segs) (part # parts) = (n, part) # bindings segs parts"
| "bindings (Literal l # segs) (part # parts) = bindings segs parts"
| "bindings _ _ = []"

fun inst :: "(string \<rightharpoonup> string) \<Rightarrow> segment \<Rightarrow> string" where
  "inst m (Literal l) = l"
| "inst m (Param n) = (case m n of None \<Rightarrow> [] | Some v \<Rightarrow> v)"
| "inst m (Tail n) = (case m n of None \<Rightarrow> [] | Some v \<Rightarrow> v)"

definition tail_free :: "segment list \<Rightarrow> bool" where
  "tail_free ss \<longleftrightarrow> list_all (\<lambda>s. \<not> is_tail_seg s) ss"

lemma tail_free_simps [simp]:
  "tail_free []" "tail_free (s # ss) \<longleftrightarrow> \<not> is_tail_seg s \<and> tail_free ss"
  "tail_free (as @ bs) \<longleftrightarrow> tail_free as \<and> tail_free bs"
  by (simp_all add: tail_free_def)

lemma misplaced_tail_None_iff: "misplaced_tail ss = None \<longleftrightarrow> tail_free (butlast ss)"
  by (induction ss rule: misplaced_tail.induct) auto

lemma match_segments_iff:
  "\<lbrakk>tail_free ss; length ss \<le> length parts\<rbrakk> \<Longrightarrow>
   match_segments ss parts =
     Inr (if list_all2 seg_ok ss (take (length ss) parts) then Some (bindings ss parts) else None)"
proof (induction ss parts rule: match_segments.induct)
  case (3 s segs part parts)
  then show ?case by (cases s) auto
qed simp_all

lemma bindings_take: "bindings ss (take (length ss) parts) = bindings ss parts"
  by (induction ss parts rule: bindings.induct) auto

lemma map_fst_bindings:
  "\<lbrakk>tail_free ss; length ss \<le> length parts\<rbrakk> \<Longrightarrow> map fst (bindings ss parts) = seg_names ss"
proof (induction ss arbitrary: parts)
  case (Cons s ss)
  then obtain q qs where "parts = q # qs" by (cases parts) auto
  then show ?case using Cons by (cases s) auto
qed simp

lemma seg_names_Param: "Param n \<in> set ss \<Longrightarrow> n \<in> set (seg_names ss)"
  by (induction ss) auto

lemma map_inst_cong:
  assumes "tail_free ss" and "\<And>n. n \<in> set (seg_names ss) \<Longrightarrow> m n = m' n"
  shows "map (inst m) ss = map (inst m') ss"
proof (rule map_cong[OF refl])
  fix s assume s: "s \<in> set ss"
  then have "\<not> is_tail_seg s" using assms(1) by (simp add: tail_free_def list_all_iff)
  then show "inst m s = inst m' s" using assms(2) seg_names_Param[of _ ss] s
    by (cases s) simp_all
qed

lemma inst_bindings:
  "\<lbrakk>list_all2 seg_ok ss parts; distinct (seg_names ss)\<rbrakk>
   \<Longrightarrow> map (inst (map_of (bindings ss parts))) ss = parts"
proof (induction ss parts rule: list_all2_induct)
  case (Cons s ss q qs)
  have tf: "tail_free (s # ss)" using Cons.hyps
    by (auto simp: tail_free_def list_all_iff list_all2_conv_all_nth in_set_conv_nth)
      (metis is_tail_seg.elims(2) seg_ok.simps(3))+
  have IH: "map (inst (map_of (bindings ss qs))) ss = qs" using Cons by simp
  show ?case
  proof (cases s)
    case (Param n)
    have "n \<notin> set (seg_names ss)" using Cons.prems Param by simp
    then have "map (inst (map_of (bindings (s # ss) (q # qs)))) ss
        = map (inst (map_of (bindings ss qs))) ss"
      using tf Param by (intro map_inst_cong) auto
    then show ?thesis using IH Param by (simp add: fun_upd_def)
  qed (use Cons IH in auto)
qed simp

lemma bindings_values:
  "list_all2 seg_ok ss parts \<Longrightarrow> v \<in> snd ` set (bindings ss parts) \<Longrightarrow> v \<in> set parts \<and> v \<noteq> []"
proof (induction ss parts rule: list_all2_induct)
  case (Cons s ss q qs)
  then show ?case by (cases s) auto
qed simp

lemma seg_ok_nonempty: "\<lbrakk>list_all2 seg_ok ss parts; w \<in> set parts\<rbrakk> \<Longrightarrow> w \<noteq> []"
proof (induction ss parts rule: list_all2_induct)
  case (Cons s ss q qs)
  then show ?case by (cases s) auto
qed simp

lemma inst_no_slash:
  assumes "list_all wf_segment ss" "tail_free ss"
    and "\<forall>v \<in> snd ` set cs. v \<noteq> [] \<and> CHR ''/'' \<notin> set v"
    and "w \<in> set (map (inst (map_of cs)) ss)"
  shows "CHR ''/'' \<notin> set w"
proof -
  obtain s where s: "s \<in> set ss" "w = inst (map_of cs) s" using assms(4) by auto
  show ?thesis
  proof (cases s)
    case (Param n)
    then show ?thesis using s assms(3) map_of_SomeD[of cs n] by (force split: option.splits)
  qed (use s assms(1,2) in \<open>auto simp: list_all_iff tail_free_def\<close>)
qed

text \<open>The captures of a match are the values that instantiate the segments to the path.\<close>

lemma bindings_unique:
  "\<lbrakk>tail_free ss; distinct (seg_names ss); map fst cs = seg_names ss;
    parts = map (inst (map_of cs)) ss\<rbrakk> \<Longrightarrow> bindings ss parts = cs"
proof (induction ss arbitrary: cs parts)
  case (Cons s ss)
  show ?case
  proof (cases s)
    case (Literal l)
    then show ?thesis using Cons by simp
  next
    case (Param n)
    then obtain v ds where cs: "cs = (n, v) # ds" "map fst ds = seg_names ss"
      using Cons.prems(3) by auto
    have "map (inst (map_of cs)) ss = map (inst (map_of ds)) ss"
      using Cons.prems Param cs by (intro map_inst_cong) auto
    moreover have "bindings ss (map (inst (map_of ds)) ss) = ds"
      using Cons.IH[of ds] Cons.prems Param cs(2) by simp
    ultimately have "bindings ss (map (inst (map_of cs)) ss) = ds" by (simp only:)
    then show ?thesis using Cons.prems(4) Param cs by (simp add: fun_upd_def)
  next
    case (Tail n)
    then show ?thesis using Cons by simp
  qed
qed simp

lemma seg_ok_inst:
  assumes "list_all wf_segment ss" "tail_free ss" "map fst cs = seg_names ss"
    "distinct (seg_names ss)" "\<And>v. v \<in> snd ` set cs \<Longrightarrow> v \<noteq> []"
  shows "list_all2 seg_ok ss (map (inst (map_of cs)) ss)"
  unfolding list_all2_map2
proof (rule list.rel_refl_strong)
  fix s assume s: "s \<in> set ss"
  show "seg_ok s (inst (map_of cs) s)"
  proof (cases s)
    case (Param n)
    then have "n \<in> fst ` set cs" using s seg_names_Param[of n ss] assms(3) by (metis list.set_map)
    then obtain v where "map_of cs n = Some v" by (auto dest: weak_map_of_SomeI)
    then show ?thesis using Param assms(5)[of v] map_of_SomeD[of cs n v] by force
  qed (use s assms in \<open>auto simp: list_all_iff tail_free_def\<close>)
qed

lemma has_tail_iff: "has_tail p \<longleftrightarrow> (\<exists>pre t. segments p = pre @ [Tail t])"
  by (cases "segments p" rule: rev_cases) (auto simp: has_tail_def split: segment.splits)

lemma wf_no_tail_free:
  assumes "wf_segments (segments p)" "\<not> has_tail p"
  shows "tail_free (segments p)"
proof (cases "segments p" rule: rev_cases)
  case (snoc pre s)
  then have "tail_free pre" using assms(1) by (simp add: wf_segments_def misplaced_tail_None_iff)
  moreover have "\<not> is_tail_seg s" using assms(2) snoc by (cases s) (auto simp: has_tail_iff)
  ultimately show ?thesis using snoc by simp
qed simp

lemma match_path_specific:
  assumes "wf_segments (segments p)" "\<not> has_tail p"
  shows "match_path p path = Inr
    (if starts_with ''/'' path \<and> list_all2 seg_ok (segments p) (path_parts (trim_slash path))
     then Some (bindings (segments p) (path_parts (trim_slash path))) else None)"
proof -
  have tf: "tail_free (segments p)" by (rule wf_no_tail_free[OF assms])
  have nt: "\<not> (\<exists>t ss. rev (segments p) = Tail t # ss)"
    using assms(2) by (auto simp: has_tail_def)
  show ?thesis using nt tf match_segments_iff[OF tf, of "path_parts (trim_slash path)"]
    by (auto simp: match_path_def Let_def path_parts_def list_all2_lengthD
        dest: list_all2_lengthD split: list.splits segment.splits)
qed

lemma match_path_tail:
  assumes "segments p = pre @ [Tail t]" "tail_free pre"
  shows "match_path p path = (let parts = path_parts (trim_slash path) in Inr
    (if starts_with ''/'' path \<and> length pre \<le> length parts
        \<and> list_all2 seg_ok pre (take (length pre) parts)
     then Some (bindings pre parts @ [(t, join ''/'' (drop (length pre) parts))]) else None))"
  using assms match_segments_iff[OF assms(2), of "path_parts (trim_slash path)"]
  by (auto simp: match_path_def Let_def)

section \<open>Conflicts are exactly shared requests\<close>

fun sample :: "segment \<Rightarrow> segment \<Rightarrow> string" where
  "sample (Literal l) s = l"
| "sample s (Literal l) = l"
| "sample s t = ''x''"

lemma compatible_Cons [simp]:
  "compatible_lists [] []"
  "compatible_lists (a # as) (b # bs) \<longleftrightarrow> segments_compatible a b \<and> compatible_lists as bs"
  "\<not> compatible_lists [] (b # bs)" "\<not> compatible_lists (a # as) []"
  by (auto simp: compatible_lists_def)

lemma seg_ok_compatible: "\<lbrakk>seg_ok a w; seg_ok b w\<rbrakk> \<Longrightarrow> segments_compatible a b"
  by (cases a; cases b) auto

lemma sample_ok:
  "\<lbrakk>segments_compatible a b; wf_segment a; wf_segment b\<rbrakk>
   \<Longrightarrow> seg_ok a (sample a b) \<and> seg_ok b (sample a b) \<and> CHR ''/'' \<notin> set (sample a b)"
  by (cases a; cases b) auto

lemma seg_ok_lists_compatible:
  "\<lbrakk>list_all2 seg_ok as ws; list_all2 seg_ok bs ws\<rbrakk> \<Longrightarrow> compatible_lists as bs"
proof (induction as ws arbitrary: bs rule: list_all2_induct)
  case (Cons a as w ws)
  then show ?case by (cases bs) (auto intro: seg_ok_compatible)
qed simp

lemma compatible_lists_sample:
  "\<lbrakk>compatible_lists as bs; list_all wf_segment as; list_all wf_segment bs\<rbrakk>
   \<Longrightarrow> \<exists>ws. list_all2 seg_ok as ws \<and> list_all2 seg_ok bs ws
        \<and> (\<forall>w\<in>set ws. w \<noteq> [] \<and> CHR ''/'' \<notin> set w)"
proof (induction as arbitrary: bs)
  case Nil
  then have "bs = []" by (cases bs) auto
  then show ?case by simp
next
  case (Cons a as)
  then obtain b cs where bs: "bs = b # cs" by (cases bs) auto
  then obtain ws where ws: "list_all2 seg_ok as ws" "list_all2 seg_ok cs ws"
      "\<forall>w\<in>set ws. w \<noteq> [] \<and> CHR ''/'' \<notin> set w"
    using Cons.IH[of cs] Cons.prems by auto
  have s: "seg_ok a (sample a b)" "seg_ok b (sample a b)" "CHR ''/'' \<notin> set (sample a b)"
    using sample_ok Cons.prems bs by auto
  have "sample a b \<noteq> []" using s(1) by (cases a) auto
  then show ?case using ws s bs by (intro exI[of _ "sample a b # ws"]) simp
qed

lemma wf_tail_split:
  assumes "wf_segments (segments p)" "has_tail p"
  obtains pre t where "segments p = pre @ [Tail t]" "tail_free pre" "list_all wf_segment pre"
    "butlast (segments p) = pre"
  using assms by (auto simp: has_tail_iff wf_segments_def misplaced_tail_None_iff)

definition matches_path :: "pattern \<Rightarrow> string \<Rightarrow> bool" where
  "matches_path p path \<longleftrightarrow> (\<exists>cs. match_path p path = Inr (Some cs))"

lemma matches_specific:
  assumes "wf_segments (segments p)" "\<not> has_tail p"
  shows "matches_path p path \<longleftrightarrow>
    starts_with ''/'' path \<and> list_all2 seg_ok (segments p) (path_parts (trim_slash path))"
  using match_path_specific[OF assms] by (simp add: matches_path_def)

lemma matches_tail:
  assumes "segments p = pre @ [Tail t]" "tail_free pre"
  shows "matches_path p path \<longleftrightarrow> starts_with ''/'' path
    \<and> length pre \<le> length (path_parts (trim_slash path))
    \<and> list_all2 seg_ok pre (take (length pre) (path_parts (trim_slash path)))"
  using match_path_tail[OF assms] by (simp add: matches_path_def Let_def)

lemma conflict_complete:
  assumes "wf_segments (segments a)" "wf_segments (segments b)"
    and "has_tail a = has_tail b" "length (segments a) = length (segments b)"
    and m: "matches_path a path" "matches_path b path"
  shows "patterns_conflict a b"
proof (cases "has_tail a")
  case False
  then show ?thesis using assms matches_specific[of a path] matches_specific[of b path]
    by (auto simp: patterns_conflict_def intro: seg_ok_lists_compatible)
next
  case True
  obtain pa ta where a: "segments a = pa @ [Tail ta]" "tail_free pa" "butlast (segments a) = pa"
    using wf_tail_split[OF assms(1) True] by metis
  have tb: "has_tail b" using True assms(3) by simp
  obtain pb tb where b: "segments b = pb @ [Tail tb]" "tail_free pb" "butlast (segments b) = pb"
    using wf_tail_split[OF assms(2) tb] by metis
  have "length pa = length pb" using assms(4) a(1) b(1) by simp
  then show ?thesis using m matches_tail[OF a(1,2)] matches_tail[OF b(1,2)] True tb a(3) b(3)
      seg_ok_lists_compatible[of pa "take (length pa) (path_parts (trim_slash path))" pb]
    by (simp add: patterns_conflict_def \<open>has_tail b\<close>)
qed

lemma conflict_sound:
  assumes wf: "wf_segments (segments a)" "wf_segments (segments b)"
    and c: "patterns_conflict a b"
  shows "\<exists>path. matches_path a path \<and> matches_path b path"
proof -
  have t: "has_tail a = has_tail b" using c by (auto simp: patterns_conflict_def split: if_splits)
  define pa pb where "pa = (if has_tail a then butlast (segments a) else segments a)"
    and "pb = (if has_tail b then butlast (segments b) else segments b)"
  have comp: "compatible_lists pa pb"
    using c t by (auto simp: patterns_conflict_def pa_def pb_def split: if_splits)
  have wfs: "list_all wf_segment pa" "list_all wf_segment pb"
    using wf by (auto simp: pa_def pb_def wf_segments_def list_all_iff dest: in_set_butlastD)
  obtain ws where ws: "list_all2 seg_ok pa ws" "list_all2 seg_ok pb ws"
      "\<forall>w\<in>set ws. w \<noteq> [] \<and> CHR ''/'' \<notin> set w"
    using compatible_lists_sample[OF comp wfs] by blast
  let ?path = "CHR ''/'' # join ''/'' ws"
  have parts: "path_parts (trim_slash ?path) = ws"
    using trim_slash_join[of ws] path_parts_join[of ws] ws(3) by simp
  have one: "matches_path p ?path"
    if h: "wf_segments (segments p)" "list_all2 seg_ok (if has_tail p then butlast (segments p) else segments p) ws"
    for p
  proof (cases "has_tail p")
    case True
    then obtain pre t where "segments p = pre @ [Tail t]" "tail_free pre" "butlast (segments p) = pre"
      using wf_tail_split[OF h(1)] by metis
    moreover have "length pre = length ws"
      using h(2) True calculation(3) by (auto dest: list_all2_lengthD)
    ultimately show ?thesis using h(2) True parts matches_tail[of p pre t ?path] by simp
  next
    case False
    then show ?thesis using h parts matches_specific[of p ?path] by simp
  qed
  show ?thesis using one[OF wf(1)] one[OF wf(2)] ws(1,2) by (auto simp: pa_def pb_def)
qed

text \<open>Methods: a registered list passes \<^theory_text>\<open>validate_methods\<close>, so its names are upper case.\<close>

definition upper_methods :: "methods \<Rightarrow> bool" where
  "upper_methods ms \<longleftrightarrow> ms \<noteq> [] \<and> list_all (\<lambda>m. list_all (\<lambda>c. \<not> is_lower c) m) ms"

lemma to_upper_id: "list_all (\<lambda>c. \<not> is_lower c) m \<Longrightarrow> to_upper m = m"
  by (induction m) (auto simp: to_upper_def upper_def)

lemma to_lower_upper: "to_lower (to_upper m) = to_lower m"
proof -
  have "lower (upper c) = lower c" for c
    by (auto simp: upper_def lower_def is_upper_def is_lower_def)
  then show ?thesis by (simp add: to_lower_def to_upper_def)
qed

lemma eq_ignore_case_upper:
  assumes "list_all (\<lambda>c. \<not> is_lower c) x" "list_all (\<lambda>c. \<not> is_lower c) y"
  shows "eq_ignore_case x y \<longleftrightarrow> x = y"
proof
  assume "eq_ignore_case x y"
  then show "x = y" using assms
  proof (induction x arbitrary: y)
    case (Cons c x)
    then show ?case by (cases y) (auto simp: eq_ignore_case_def to_lower_def dest: lower_inj_upper)
  qed (auto simp: eq_ignore_case_def to_lower_def)
qed (simp add: eq_ignore_case_def)

lemma upper_has_no_lower: "list_all (\<lambda>c. \<not> is_lower c) (to_upper m)"
  by (simp add: to_upper_def list_all_iff)

lemma methods_match_iff:
  assumes "upper_methods ms"
  shows "methods_match ms m \<longleftrightarrow> ''ANY'' \<in> set ms \<or> to_upper m \<in> set ms"
proof -
  have "eq_ignore_case x (to_upper m) \<longleftrightarrow> x = to_upper m" if "x \<in> set ms" for x
    using assms that upper_has_no_lower by (intro eq_ignore_case_upper) (auto simp: upper_methods_def list_all_iff)
  then show ?thesis by (auto simp: methods_match_def Let_def list_ex_iff)
qed

lemma methods_overlap_iff:
  assumes "upper_methods a" "upper_methods b"
  shows "methods_overlap a b \<longleftrightarrow> (\<exists>m. methods_match a m \<and> methods_match b m)"
proof -
  have up: "to_upper m = m" if "m \<in> set a \<or> m \<in> set b" for m
    using assms that by (intro to_upper_id) (auto simp: upper_methods_def list_all_iff)
  have mem: "hd a \<in> set a" "hd b \<in> set b" using assms by (simp_all add: upper_methods_def)
  have "methods_overlap a b \<longleftrightarrow> ''ANY'' \<in> set a \<or> ''ANY'' \<in> set b \<or> set a \<inter> set b \<noteq> {}"
    by (auto simp: methods_overlap_def list_ex_iff)
  then show ?thesis using methods_match_iff[OF assms(1)] methods_match_iff[OF assms(2)] up mem
    by (metis disjoint_iff)
qed

lemma routes_conflict_complete:
  assumes "wf_segments (segments pa)" "wf_segments (segments pb)"
    "has_tail pa = has_tail pb" "length (segments pa) = length (segments pb)"
    "upper_methods ma" "upper_methods mb"
    "methods_match ma m" "methods_match mb m" "matches_path pa path" "matches_path pb path"
  shows "routes_conflict ma pa mb pb"
  using assms conflict_complete methods_overlap_iff by (auto simp: routes_conflict_def)

lemma patterns_conflict_sym: "patterns_conflict a b = patterns_conflict b a"
proof -
  have c: "segments_compatible s t = segments_compatible t s" for s t
    by (cases s; cases t) auto
  have "compatible_lists as bs = compatible_lists bs as" for as bs
  proof (induction as arbitrary: bs)
    case Nil
    then show ?case by (cases bs) auto
  next
    case (Cons x xs)
    then show ?case using c by (cases bs) auto
  qed
  then show ?thesis by (simp add: patterns_conflict_def)
qed

lemma routes_conflict_sym: "routes_conflict ma pa mb pb = routes_conflict mb pb ma pa"
proof -
  have "methods_overlap ma mb = methods_overlap mb ma"
    by (auto simp: methods_overlap_def list_ex_iff Let_def)
  then show ?thesis using patterns_conflict_sym by (simp add: routes_conflict_def)
qed

section \<open>Properties\<close>

lemma path_parts_no_slash:
  "\<lbrakk>starts_with ''/'' path; v \<in> set (path_parts (trim_slash path))\<rbrakk> \<Longrightarrow> CHR ''/'' \<notin> set v"
  using split_on_no_sep by (auto simp: path_parts_def split: if_splits)

lemma trim_parts_join:
  assumes "starts_with ''/'' path"
  shows "trim_slash path = CHR ''/'' # join ''/'' (path_parts (trim_slash path))"
  using trim_slash_Cons[OF assms] by (auto simp: path_parts_def)



text \<open>C17: The parser accepts only well-formed patterns and is stable: what it stores as
  \<^theory_text>\<open>raw\<close> is the rendering of the segments, and parsing that text again gives the same
  pattern.\<close>

theorem pattern_parse_roundtrip:
  assumes "pattern_parse r = Inr p"
  shows "wf_segments (segments p) \<and> raw p = render (segments p) \<and> pattern_parse (raw p) = Inr p"
  using pattern_parse_wf[OF assms] pattern_parse_render by (auto simp: wf_pattern_def)

theorem pattern_parse_roundtrip_witness:
  "\<exists>p. pattern_parse ''/a/{b}/{c...}/'' = Inr p \<and> raw p = render (segments p) \<and>
    pattern_parse (raw p) = Inr p"
proof -
  have "pattern_parse ''/a/{b}/{c...}/'' = Inr \<lparr>raw = ''/a/{b}/{c...}'',
      segments = [Literal ''a'', Param ''b'', Tail ''c'']\<rparr>"
    by code_simp
  from pattern_parse_roundtrip[OF this] this show ?thesis by blast
qed

text \<open>C16: For a parsed pattern without a tail, a match returns the captures \<^theory_text>\<open>cs\<close> exactly
  when \<^theory_text>\<open>cs\<close> binds the pattern's parameters in order to non-empty slash-free values and
  substituting them into the segments spells the request path (without its trailing
  slash); the \<^theory_text>\<open>unreachable!\<close> arm is never taken.\<close>

theorem match_path_iff_instance:
  assumes "pattern_parse r = Inr p" "\<not> has_tail p"
  shows "match_path p path \<noteq> Inl Unreachable \<and>
    (match_path p path = Inr (Some cs) \<longleftrightarrow>
     starts_with ''/'' path \<and> map fst cs = seg_names (segments p) \<and>
     (\<forall>v \<in> snd ` set cs. v \<noteq> [] \<and> CHR ''/'' \<notin> set v) \<and>
     trim_slash path = CHR ''/'' # join ''/'' (map (inst (map_of cs)) (segments p)))"
    (is "_ \<and> (?L \<longleftrightarrow> ?R)")
proof -
  let ?ss = "segments p" and ?parts = "path_parts (trim_slash path)"
  have wf: "wf_segments ?ss" using pattern_parse_wf[OF assms(1)] by (simp add: wf_pattern_def)
  then have wfs: "list_all wf_segment ?ss" "distinct (seg_names ?ss)" by (auto simp: wf_segments_def)
  have tf: "tail_free ?ss" by (rule wf_no_tail_free[OF wf assms(2)])
  note mp = match_path_specific[OF wf assms(2), of path]
  have "?R" if ?L
  proof -
    have h: "starts_with ''/'' path" "list_all2 seg_ok ?ss ?parts" "cs = bindings ?ss ?parts"
      using that mp by (auto split: if_splits)
    have "map (inst (map_of cs)) ?ss = ?parts" using inst_bindings[OF h(2) wfs(2)] h(3) by simp
    moreover have "map fst cs = seg_names ?ss"
      using map_fst_bindings[OF tf, of ?parts] h by (simp add: list_all2_lengthD)
    moreover have "v \<in> set ?parts \<and> v \<noteq> []" if "v \<in> snd ` set cs" for v
      using that bindings_values[OF h(2)] h(3) by blast
    ultimately show ?R using h(1) trim_parts_join[OF h(1)] path_parts_no_slash[OF h(1)] by auto
  qed
  moreover have ?L if r: ?R
  proof -
    let ?ws = "map (inst (map_of cs)) ?ss"
    have ok: "list_all2 seg_ok ?ss ?ws" using seg_ok_inst[OF wfs(1) tf _ wfs(2)] r by blast
    have vals: "w \<noteq> [] \<and> CHR ''/'' \<notin> set w" if w: "w \<in> set ?ws" for w
      using inst_no_slash[OF wfs(1) tf _ w] seg_ok_nonempty[OF ok w] r by blast
    have parts: "?parts = ?ws" using path_parts_join[of ?ws, OF vals] r by (simp only:)
    have "starts_with ''/'' path \<and> list_all2 seg_ok ?ss ?parts"
      unfolding parts using ok r by blast
    moreover have "bindings ?ss ?parts = cs"
      unfolding parts using bindings_unique[OF tf wfs(2) _ refl] r by blast
    ultimately show ?L unfolding mp by simp
  qed
  moreover have "match_path p path \<noteq> Inl Unreachable" unfolding mp by simp
  ultimately show ?thesis by blast
qed

theorem match_path_iff_instance_witness:
  "\<exists>p. pattern_parse ''/u/{id}'' = Inr p \<and> match_path p ''/u/7/'' = Inr (Some [(''id'', ''7'')]) \<and>
    trim_slash ''/u/7/'' = CHR ''/'' # join ''/'' (map (inst (map_of [(''id'', ''7'')])) (segments p))"
proof -
  let ?p = "\<lparr>raw = ''/u/{id}'', segments = [Literal ''u'', Param ''id'']\<rparr>"
  have p: "pattern_parse ''/u/{id}'' = Inr ?p" "\<not> has_tail ?p" by code_simp+
  have m: "match_path ?p ''/u/7/'' = Inr (Some [(''id'', ''7'')])" by code_simp
  then show ?thesis
    using match_path_iff_instance[OF p, of "''/u/7/''" "[(''id'', ''7'')]"] p(1) by blast
qed

text \<open>A parsed pattern ending in a tail matches exactly the paths whose leading parts
  match the specific segments; the tail captures the remaining parts joined by slashes,
  possibly empty, so the bare prefix matches as well.\<close>

theorem match_path_tail_iff:
  assumes "pattern_parse r = Inr p" "segments p = pre @ [Tail t]"
  shows "match_path p path = Inr (Some cs) \<longleftrightarrow>
    starts_with ''/'' path \<and> (\<exists>front rest. path_parts (trim_slash path) = front @ rest \<and>
      list_all2 seg_ok pre front \<and> cs = bindings pre front @ [(t, join ''/'' rest)])"
    (is "?L \<longleftrightarrow> ?R")
proof -
  let ?parts = "path_parts (trim_slash path)"
  have "tail_free pre" using pattern_parse_wf[OF assms(1)] assms(2)
    by (simp add: wf_pattern_def wf_segments_def misplaced_tail_None_iff)
  note mp = match_path_tail[OF assms(2) this, of path]
  show ?thesis
  proof
    assume ?L
    then have "starts_with ''/'' path" "list_all2 seg_ok pre (take (length pre) ?parts)"
      "cs = bindings pre (take (length pre) ?parts) @ [(t, join ''/'' (drop (length pre) ?parts))]"
      using mp by (auto simp: Let_def bindings_take split: if_splits)
    then show ?R by (metis append_take_drop_id)
  next
    assume ?R
    then obtain front rest where h: "starts_with ''/'' path" "?parts = front @ rest"
      "list_all2 seg_ok pre front" "cs = bindings pre front @ [(t, join ''/'' rest)]" by blast
    then have "length front = length pre" by (simp add: list_all2_lengthD)
    then show ?L using mp h bindings_take[of pre "front @ rest"] by (simp add: Let_def)
  qed
qed

theorem match_path_tail_iff_witness:
  "\<exists>p. pattern_parse ''/v1/{p...}'' = Inr p \<and>
    match_path p ''/v1'' = Inr (Some [(''p'', [])]) \<and>
    (\<exists>front rest. path_parts (trim_slash ''/v1'') = front @ rest \<and>
      list_all2 seg_ok [Literal ''v1''] front \<and>
      [(''p'', [])] = bindings [Literal ''v1''] front @ [(''p'', join ''/'' rest)])"
proof -
  let ?p = "\<lparr>raw = ''/v1/{p...}'', segments = [Literal ''v1''] @ [Tail ''p'']\<rparr>"
  have p: "pattern_parse ''/v1/{p...}'' = Inr ?p" by code_simp
  have m: "match_path ?p ''/v1'' = Inr (Some [(''p'', [])])" by code_simp
  have s: "segments ?p = [Literal ''v1''] @ [Tail ''p'']" by simp
  show ?thesis using match_path_tail_iff[OF p s, of "''/v1''" "[(''p'', [])]"] p m by blast
qed

end
