(* ===== verification/Naming.thy ===== *)
theory Naming
  imports Prelude
begin

text \<open>Friendly group names (\<^theory_text>\<open>naming.rs\<close>): the word lists, the generator (the two
  indices it draws at random are its arguments) and the DNS label check that every group
  name passes before it doubles as a subdomain.\<close>

definition MAX_LABEL_LEN :: nat where "MAX_LABEL_LEN = 63"

definition ADJECTIVES :: "string list" where
  "ADJECTIVES = [
    ''swift'', ''calm'', ''amber'', ''brave'', ''bright'', ''clever'', ''cosmic'', ''crisp'',
    ''dapper'', ''eager'', ''fancy'', ''gentle'', ''glad'', ''golden'', ''happy'', ''jolly'',
    ''keen'', ''lively'', ''lucky'', ''merry'', ''mellow'', ''noble'', ''plucky'', ''proud'',
    ''quiet'', ''rapid'', ''ruby'', ''sage'', ''scarlet'', ''shiny'', ''sleek'', ''snappy'',
    ''solar'', ''spry'', ''sterling'', ''sunny'', ''teal'', ''tidy'', ''vivid'', ''witty'',
    ''zesty'', ''azure'', ''breezy'', ''frosty'', ''hardy'', ''ivory'', ''jaunty'', ''mighty'',
    ''agile'', ''ample'', ''balmy'', ''bold'', ''brisk'', ''chipper'', ''classic'', ''clean'',
    ''cobalt'', ''cozy'', ''dandy'', ''daring'', ''deft'', ''dewy'', ''downy'', ''dreamy'',
    ''earnest'', ''easy'', ''fleet'', ''fond'', ''frank'', ''fresh'', ''gallant'', ''giddy'',
    ''graceful'', ''grand'', ''hearty'', ''honest'', ''humble'', ''jade'', ''kind'',
    ''limber'', ''lithe'', ''loyal'', ''lush'', ''marble'', ''modest'', ''nimble'', ''opal'',
    ''peppy'', ''placid'', ''polished'', ''prime'', ''pure'', ''quick'', ''regal'', ''robust'',
    ''rosy'', ''rugged'', ''rustic'', ''serene'', ''sharp'', ''silver'', ''smart'', ''smooth'',
    ''snug'', ''sober'', ''spirited'', ''steady'', ''stoic'', ''stout'', ''sturdy'', ''suave'',
    ''sunlit'', ''sweet'', ''tender'', ''trusty'', ''upbeat'', ''urbane'', ''valiant'',
    ''velvet'', ''verdant'', ''warm'', ''vibrant'', ''wise'', ''wistful'', ''wry'',
    ''zealous'', ''zen'', ''plush'']"

definition NOUNS :: "string list" where
  "NOUNS = [
    ''otter'', ''finch'', ''falcon'', ''willow'', ''cedar'', ''comet'', ''ember'', ''river'',
    ''meadow'', ''badger'', ''heron'', ''sparrow'', ''lynx'', ''beacon'', ''canyon'',
    ''delta'', ''fjord'', ''glade'', ''grove'', ''harbor'', ''isle'', ''kestrel'', ''lagoon'',
    ''maple'', ''nimbus'', ''oak'', ''pine'', ''quartz'', ''reef'', ''summit'', ''thicket'',
    ''vale'', ''walrus'', ''yarrow'', ''zephyr'', ''basin'', ''brook'', ''cove'', ''dune'',
    ''fern'', ''gull'', ''hollow'', ''inlet'', ''jetty'', ''knoll'', ''ledge'', ''marsh'',
    ''ridge'', ''acorn'', ''alder'', ''arbor'', ''aspen'', ''aurora'', ''birch'', ''bison'',
    ''bluff'', ''bramble'', ''breeze'', ''cliff'', ''cloud'', ''crane'', ''creek'', ''crest'',
    ''dahlia'', ''dale'', ''dawn'', ''dell'', ''drift'', ''eagle'', ''egret'', ''elm'',
    ''fox'', ''gale'', ''garnet'', ''geyser'', ''glacier'', ''gorge'', ''hawk'', ''hazel'',
    ''hedge'', ''heath'', ''hill'', ''ibis'', ''juniper'', ''lake'', ''lark'', ''laurel'',
    ''lily'', ''lotus'', ''mantis'', ''marlin'', ''mesa'', ''mist'', ''moss'', ''moth'',
    ''oasis'', ''onyx'', ''orchid'', ''osprey'', ''owl'', ''peak'', ''pebble'', ''petal'',
    ''plover'', ''pond'', ''poppy'', ''prairie'', ''quail'', ''raven'', ''robin'', ''sable'',
    ''shore'', ''sierra'', ''slope'', ''sorrel'', ''spruce'', ''stork'', ''stream'', ''tarn'',
    ''tundra'', ''vista'', ''wren'', ''glen'', ''beck'', ''fell'', ''holt'', ''wold'', ''moor'']"

definition generate :: "nat \<Rightarrow> nat \<Rightarrow> string" where
  "generate i j = ADJECTIVES ! i @ ''-'' @ NOUNS ! j"

definition label_char :: "char \<Rightarrow> bool" where
  "label_char c \<longleftrightarrow> is_lower c \<or> is_digit c \<or> c = CHR ''-''"

definition is_valid_label :: "string \<Rightarrow> bool" where
  "is_valid_label name =
    (let len = length name in
     if len = 0 \<or> len > MAX_LABEL_LEN then False
     else if starts_with ''-'' name \<or> ends_with ''-'' name then False
     else list_all label_char name)"

text \<open>Every listed word is a short run of lowercase letters; the two facts are the only
  ones the generator's correctness needs from the lists.\<close>

definition word_ok :: "string \<Rightarrow> bool" where
  "word_ok w \<longleftrightarrow> w \<noteq> [] \<and> length w \<le> 20 \<and> list_all is_lower w"

lemma adjectives_ok: "list_all word_ok ADJECTIVES"
  by code_simp

lemma nouns_ok: "list_all word_ok NOUNS"
  by code_simp

lemma word_lists_sized: "length ADJECTIVES = 128" "length NOUNS = 128"
  by (simp_all add: ADJECTIVES_def NOUNS_def)

lemma generate_parts:
  assumes "i < length ADJECTIVES" "j < length NOUNS"
  obtains a n where "generate i j = a @ ''-'' @ n" "word_ok a" "word_ok n"
proof -
  have "word_ok (ADJECTIVES ! i)"
    using adjectives_ok assms by (auto simp: list_all_length word_lists_sized)
  moreover have "word_ok (NOUNS ! j)"
    using nouns_ok assms by (auto simp: list_all_length word_lists_sized)
  ultimately show ?thesis using that by (simp add: generate_def)
qed

lemma lower_label [simp]: "list_all is_lower w \<Longrightarrow> list_all label_char w"
  by (auto simp: list_all_iff label_char_def)

lemma lower_not_dash: "list_all is_lower w \<Longrightarrow> CHR ''-'' \<notin> set w"
  by (auto simp: list_all_iff is_lower_def)

lemma is_valid_label_join:
  assumes "word_ok a" "word_ok n"
  shows "is_valid_label (a @ ''-'' @ n)"
proof -
  obtain a0 a1 where a: "a = a0 # a1" using assms(1) by (cases a) (auto simp: word_ok_def)
  have "n \<noteq> []" "CHR ''-'' \<notin> set n"
    using assms(2) lower_not_dash[of n] by (simp_all add: word_ok_def)
  then have "last n \<noteq> CHR ''-''" by (metis last_in_set)
  then have "last (a @ ''-'' @ n) \<noteq> CHR ''-''"
    using \<open>n \<noteq> []\<close> by simp
  moreover have "a0 \<noteq> CHR ''-''" using lower_not_dash[of a] assms(1) a by (auto simp: word_ok_def)
  ultimately show ?thesis using assms a
    by (simp add: is_valid_label_def Let_def MAX_LABEL_LEN_def ends_with_single word_ok_def label_char_def)
qed

text \<open>The label check in one line: 1 to 63 label characters, a hyphen at neither end.\<close>

lemma is_valid_label_iff:
  "is_valid_label s \<longleftrightarrow> s \<noteq> [] \<and> length s \<le> 63 \<and> hd s \<noteq> CHR ''-'' \<and> last s \<noteq> CHR ''-''
     \<and> list_all label_char s"
  by (cases s) (auto simp: is_valid_label_def MAX_LABEL_LEN_def ends_with_single Let_def)

lemma valid_label_no_char:
  assumes "is_valid_label s" "\<not> label_char c"
  shows "c \<notin> set s"
  using assms by (auto simp: is_valid_label_iff list_all_iff)

end
