(* ===== verification/Registry.thy ===== *)
theory Registry
  imports Records Pattern Naming "HOL-Library.List_Lexorder"
begin

text \<open>The route registry (\<^theory_text>\<open>registry.rs\<close>): group and route records as hashes in the
  admin bucket, their indexes, and every operation of \<^theory_text>\<open>Registry\<close>.

  \<^theory_text>\<open>env\<close> holds what the code takes from libraries: chrono's text form of times,
  serde_json's encoding of the method list and ulid's parser.  Fresh ULIDs, the clock
  and the random name candidates are arguments.  A message that the source formats for
  display is kept as the data it is built from.\<close>

record registry_env = time_codec +
  methods_to_json :: "string list \<Rightarrow> bytes"
  methods_of_json :: "bytes \<Rightarrow> string list option"
  ulid_parses :: "string \<Rightarrow> bool"

definition env_ok :: "registry_env \<Rightarrow> bool" where
  "env_ok env \<longleftrightarrow> (\<forall>t. parse_rfc3339 env (to_rfc3339 env t) = Some t)
     \<and> (\<forall>t. valid_utf8 (to_rfc3339 env t))
     \<and> (\<forall>ms. methods_of_json env (methods_to_json env ms) = Some ms)"

datatype conflict =
    GroupExists string
  | RouteConflict string nat "string list" string

datatype registry_error =
    StorageError store_error
  | NotFound
  | Conflict conflict
  | Malformed string
  | InvalidPath pattern_error
  | InvalidMethod string
  | InvalidName string
  | InvalidTtl nat

type_synonym 'a rio = "(mem_store, registry_error, 'a) io"

record route =
  r_id :: string
  r_group_id :: string
  r_group_name :: string
  r_number :: nat
  r_methods :: "string list"
  r_path :: string
  r_language :: string
  r_bindings_version :: string
  r_compiled_wasm :: bytes
  r_source :: "string option"
  r_created_at :: int
  r_owner_id :: string
  r_hits_total :: nat
  r_last_hit_at :: "int option"

record group =
  g_id :: string
  g_name :: string
  g_implicit :: bool
  g_created_at :: int
  g_owner_id :: string
  g_ttl_seconds :: nat
  g_sliding_ttl :: bool
  g_callout_enabled :: bool
  g_last_activity_at :: "int option"

definition DEFAULT_GROUP_TTL_SECONDS :: nat where "DEFAULT_GROUP_TTL_SECONDS = 24 * 60 * 60"
definition MAX_GROUP_TTL_SECONDS :: nat where "MAX_GROUP_TTL_SECONDS = 30 * 24 * 60 * 60"
definition DEFAULT_GROUP_SLIDING_TTL :: bool where "DEFAULT_GROUP_SLIDING_TTL = True"

record new_group =
  ng_name :: string
  ng_owner_id :: string
  ng_ttl_seconds :: "nat option"
  ng_sliding_ttl :: "bool option"

record new_route =
  nr_group :: "string option"
  nr_methods :: "string list"
  nr_path :: string
  nr_language :: string
  nr_bindings_version :: string
  nr_compiled_wasm :: bytes
  nr_source :: "string option"
  nr_owner_id :: string

record patch_route =
  pr_methods :: "string list option"
  pr_path :: "string option"
  pr_language :: "string option"
  pr_bindings_version :: "string option"
  pr_compiled_wasm :: "bytes option"
  pr_source :: "string option option"

record state_entry =
  se_key :: string
  se_kind :: string
  se_value :: "bytes option"
  se_length :: "nat option"

definition render_slug :: "string \<Rightarrow> nat \<Rightarrow> string" where
  "render_slug group_name number = group_name @ ''/'' @ show_nat number"

section \<open>Keys and admin-bucket calls\<close>

definition group_key :: "string \<Rightarrow> string" where "group_key i = ''group:'' @ i"
definition by_name_key :: "string \<Rightarrow> string" where "by_name_key n = ''group:by-name:'' @ n"
definition group_owner_key :: "string \<Rightarrow> string" where "group_owner_key u = ''group:owner:'' @ u"
definition counters_key :: "string \<Rightarrow> string" where "counters_key i = ''group:counters:'' @ i"
definition route_key :: "string \<Rightarrow> string" where "route_key i = ''route:'' @ i"
definition by_number_key :: "string \<Rightarrow> nat \<Rightarrow> string" where
  "by_number_key gid n = ''route:by-number:'' @ gid @ '':'' @ show_nat n"
definition in_group_key :: "string \<Rightarrow> string" where "in_group_key gid = ''route:in-group:'' @ gid"
definition by_owner_key :: "string \<Rightarrow> string" where "by_owner_key u = ''route:by-owner:'' @ u"

abbreviation st :: "'a sio \<Rightarrow> 'a rio" where "st m \<equiv> map_err StorageError m"
abbreviation aget where "aget k \<equiv> st (bucket_get admin_bucket k)"
abbreviation aset where "aset k v \<equiv> st (bucket_set admin_bucket k v)"
abbreviation adel where "adel k \<equiv> st (bucket_delete admin_bucket k)"
abbreviation ahset where "ahset k f v \<equiv> st (bucket_hash_set admin_bucket k f v)"
abbreviation ahdel where "ahdel k f \<equiv> st (bucket_hash_delete admin_bucket k f)"
abbreviation ahall where "ahall k \<equiv> st (bucket_hash_get_all admin_bucket k)"
abbreviation ahincr where "ahincr k f n \<equiv> st (bucket_hash_incr admin_bucket k f n)"
abbreviation asadd where "asadd k m \<equiv> st (bucket_set_add admin_bucket k m)"
abbreviation asrem where "asrem k m \<equiv> st (bucket_set_remove admin_bucket k m)"
abbreviation asmem where "asmem k \<equiv> st (bucket_set_members admin_bucket k)"
abbreviation adelpre where "adelpre p \<equiv> st (bucket_delete_with_prefix admin_bucket p)"

abbreviation do_all :: "('s, 'e, unit) io list \<Rightarrow> ('s, 'e, unit) io" where
  "do_all ms \<equiv> each_io (\<lambda>m. m) ms"

definition flag :: "bool \<Rightarrow> bytes" where "flag b = (if b then ''1'' else ''0'')"

section \<open>Encoding and decoding\<close>

definition utf8 :: "(string \<times> bytes) list \<Rightarrow> string \<Rightarrow> registry_error + string" where
  "utf8 fs name = (case map_of fs name of
      None \<Rightarrow> Inl (Malformed (''field '' @ name @ '' missing''))
    | Some b \<Rightarrow> if valid_utf8 b then Inr b else Inl (Malformed (''field '' @ name @ '' not utf-8'')))"

definition utf8_opt :: "(string \<times> bytes) list \<Rightarrow> string \<Rightarrow> string option" where
  "utf8_opt fs name = (case map_of fs name of
      None \<Rightarrow> None | Some b \<Rightarrow> if valid_utf8 b then Some b else None)"

definition parse_ts :: "registry_env \<Rightarrow> string \<Rightarrow> registry_error + int" where
  "parse_ts env s = (case parse_rfc3339 env s of
      None \<Rightarrow> Inl (Malformed ''created_at'') | Some t \<Rightarrow> Inr t)"

definition transpose_ts :: "registry_env \<Rightarrow> string option \<Rightarrow> registry_error + int option" where
  "transpose_ts env so = (case so of None \<Rightarrow> Inr None | Some s \<Rightarrow> rmap Some (parse_ts env s))"

definition validate_methods :: "string list \<Rightarrow> registry_error + methods" where
  "validate_methods ms =
    (if ms = [] then Inl (InvalidMethod ''(empty)'')
     else case List.find (\<lambda>m. m = [] \<or> (m \<noteq> ''ANY'' \<and>
              \<not> list_all (\<lambda>c. is_upper c \<or> is_digit c \<or> c = CHR ''-'') m)) ms of
       Some m \<Rightarrow> Inl (InvalidMethod m)
     | None \<Rightarrow> Inr ms)"

definition normalize_ttl :: "nat \<Rightarrow> registry_error + nat" where
  "normalize_ttl ttl_seconds =
    (if ttl_seconds > MAX_GROUP_TTL_SECONDS then Inl (InvalidTtl ttl_seconds) else Inr ttl_seconds)"

definition arm_group_ttl :: "string \<Rightarrow> nat \<Rightarrow> unit rio" where
  "arm_group_ttl key ttl_seconds =
    (if ttl_seconds = 0 then st (bucket_clear_ttl admin_bucket key)
     else st (bucket_set_ttl admin_bucket key ttl_seconds))"

definition arm_group_ttls :: "string \<Rightarrow> string \<Rightarrow> nat \<Rightarrow> unit rio" where
  "arm_group_ttls gid name ttl_seconds =
    do_all [arm_group_ttl (group_key gid) ttl_seconds, arm_group_ttl (by_name_key name) ttl_seconds]"

definition write_group :: "registry_env \<Rightarrow> group \<Rightarrow> unit rio" where
  "write_group env g = (let key = group_key (g_id g) in do_all [
     ahset key ''id'' (g_id g),
     ahset key ''name'' (g_name g),
     ahset key ''implicit'' (flag (g_implicit g)),
     ahset key ''created_at'' (to_rfc3339 env (g_created_at g)),
     ahset key ''owner_id'' (g_owner_id g),
     ahset key ''ttl_seconds'' (show_nat (g_ttl_seconds g)),
     ahset key ''sliding_ttl'' (flag (g_sliding_ttl g)),
     ahset key ''callout_enabled'' (flag (g_callout_enabled g)),
     aset (by_name_key (g_name g)) (g_id g),
     asadd (group_owner_key (g_owner_id g)) (g_id g),
     asadd ''group:all'' (g_id g)])"

definition strip_route_indexes :: "route \<Rightarrow> unit rio" where
  "strip_route_indexes r = do_all [
     adel (by_number_key (r_group_id r) (r_number r)),
     asrem (in_group_key (r_group_id r)) (r_id r),
     asrem ''route:all'' (r_id r),
     asrem (by_owner_key (r_owner_id r)) (r_id r)]"

definition write_route :: "registry_env \<Rightarrow> route \<Rightarrow> unit rio" where
  "write_route env r = (let key = route_key (r_id r) in do_all [
     ahset key ''id'' (r_id r),
     ahset key ''group_id'' (r_group_id r),
     ahset key ''group_name'' (r_group_name r),
     ahset key ''number'' (show_nat (r_number r)),
     ahset key ''methods'' (methods_to_json env (r_methods r)),
     ahset key ''path'' (r_path r),
     ahset key ''language'' (r_language r),
     ahset key ''bindings_version'' (r_bindings_version r),
     ahset key ''compiled_wasm'' (r_compiled_wasm r),
     (case r_source r of Some src \<Rightarrow> ahset key ''source'' src | None \<Rightarrow> ahdel key ''source''),
     ahset key ''created_at'' (to_rfc3339 env (r_created_at r)),
     ahset key ''owner_id'' (r_owner_id r)])"

definition decode_group :: "registry_env \<Rightarrow> (string \<times> bytes) list \<Rightarrow> registry_error + group" where
  "decode_group env fs =
    rbind (utf8 fs ''id'') (\<lambda>i.
    rbind (utf8 fs ''name'') (\<lambda>name.
    rbind (utf8 fs ''implicit'') (\<lambda>implicit.
    rbind (rbind (utf8 fs ''created_at'') (parse_ts env)) (\<lambda>created_at.
    rbind (utf8 fs ''owner_id'') (\<lambda>owner_id.
    rbind (rbind (utf8 fs ''ttl_seconds'') (\<lambda>t. case parse_u64 t of
        None \<Rightarrow> Inl (Malformed ''ttl_seconds'') | Some n \<Rightarrow> Inr n)) (\<lambda>ttl_seconds.
    rbind (utf8 fs ''sliding_ttl'') (\<lambda>sliding_ttl.
    rbind (transpose_ts env (utf8_opt fs ''last_activity_at'')) (\<lambda>last_activity_at.
    Inr \<lparr>g_id = i, g_name = name, g_implicit = (implicit = ''1''), g_created_at = created_at,
      g_owner_id = owner_id, g_ttl_seconds = ttl_seconds, g_sliding_ttl = (sliding_ttl = ''1''),
      g_callout_enabled = (utf8_opt fs ''callout_enabled'' = Some ''1''),
      g_last_activity_at = last_activity_at\<rparr>))))))))"

definition decode_route :: "registry_env \<Rightarrow> (string \<times> bytes) list \<Rightarrow> registry_error + route" where
  "decode_route env fs =
    rbind (utf8 fs ''id'') (\<lambda>i.
    rbind (utf8 fs ''group_id'') (\<lambda>group_id.
    rbind (utf8 fs ''group_name'') (\<lambda>group_name.
    rbind (rbind (utf8 fs ''number'') (\<lambda>t. case parse_u32 t of
        None \<Rightarrow> Inl (Malformed ''number'') | Some n \<Rightarrow> Inr n)) (\<lambda>number.
    rbind (case map_of fs ''methods'' of None \<Rightarrow> Inl (Malformed ''methods missing'')
        | Some b \<Rightarrow> (case methods_of_json env b of
            None \<Rightarrow> Inl (Malformed ''methods decode'') | Some ms \<Rightarrow> Inr ms)) (\<lambda>ms.
    rbind (utf8 fs ''path'') (\<lambda>path.
    rbind (utf8 fs ''language'') (\<lambda>language.
    rbind (utf8 fs ''bindings_version'') (\<lambda>bindings_version.
    rbind (case map_of fs ''compiled_wasm'' of
        None \<Rightarrow> Inl (Malformed ''compiled_wasm missing'') | Some b \<Rightarrow> Inr b) (\<lambda>compiled_wasm.
    rbind (rbind (utf8 fs ''created_at'') (parse_ts env)) (\<lambda>created_at.
    rbind (utf8 fs ''owner_id'') (\<lambda>owner_id.
    rbind (case utf8_opt fs ''hits_total'' of None \<Rightarrow> Inr 0
        | Some t \<Rightarrow> (case parse_u64 t of
            None \<Rightarrow> Inl (Malformed ''hits_total'') | Some n \<Rightarrow> Inr n)) (\<lambda>hits_total.
    rbind (transpose_ts env (utf8_opt fs ''last_hit_at'')) (\<lambda>last_hit_at.
    Inr \<lparr>r_id = i, r_group_id = group_id, r_group_name = group_name, r_number = number,
      r_methods = ms, r_path = path, r_language = language,
      r_bindings_version = bindings_version, r_compiled_wasm = compiled_wasm,
      r_source = utf8_opt fs ''source'', r_created_at = created_at, r_owner_id = owner_id,
      r_hits_total = hits_total, r_last_hit_at = last_hit_at\<rparr>)))))))))))))"

section \<open>Group operations\<close>

definition stored_id :: "string \<Rightarrow> bytes \<Rightarrow> registry_error + string" where
  "stored_id what b = (if valid_utf8 b then Inr b else Inl (Malformed what))"

definition resolve_group :: "registry_env \<Rightarrow> string \<Rightarrow> string option rio" where
  "resolve_group env reference =
    bind_io (if ulid_parses env reference \<and> reference \<noteq> []
             then bind_io (ahall (group_key reference)) (\<lambda>fs. ret (map_of fs ''id'' \<noteq> None))
             else ret False) (\<lambda>by_ulid.
      if by_ulid then ret (Some reference)
      else bind_io (aget (by_name_key reference)) (\<lambda>b. case b of
          Some bytes \<Rightarrow> lift_result (rmap Some (stored_id ''group:by-name value'' bytes))
        | None \<Rightarrow> ret None))"

definition read_group :: "registry_env \<Rightarrow> string \<Rightarrow> group rio" where
  "read_group env gid = bind_io (ahall (group_key gid)) (\<lambda>fs.
     if fs = [] then raise NotFound else lift_result (decode_group env fs))"

definition or_not_found :: "'a option \<Rightarrow> 'a rio" where
  "or_not_found x = (case x of None \<Rightarrow> raise NotFound | Some y \<Rightarrow> ret y)"

definition read_group_by_ref :: "registry_env \<Rightarrow> string \<Rightarrow> group rio" where
  "read_group_by_ref env reference =
    bind_io (bind_io (resolve_group env reference) or_not_found) (read_group env)"

text \<open>\<^theory_text>\<open>generate_group_name\<close>: \<^theory_text>\<open>gen i\<close> is the \<^theory_text>\<open>i\<close>-th candidate drawn.  The numeric loop
  has no bound in the source; the fuel is one more than the number of keys, and
  \<^theory_text>\<open>numbered_name_free\<close> below shows that it is never used up.\<close>

fun try_candidates :: "string list \<Rightarrow> string option rio" where
  "try_candidates [] = ret None"
| "try_candidates (c # cs) = bind_io (aget (by_name_key c)) (\<lambda>b.
     if b = None then ret (Some c) else try_candidates cs)"

fun numbered_name :: "nat \<Rightarrow> string \<Rightarrow> nat \<Rightarrow> string rio" where
  "numbered_name 0 base n = ret (base @ ''-'' @ show_nat n)"
| "numbered_name (Suc fuel) base n = (let candidate = base @ ''-'' @ show_nat n in
     bind_io (aget (by_name_key candidate)) (\<lambda>b.
       if b = None then ret candidate else numbered_name fuel base (n + 1)))"

definition generate_group_name :: "(nat \<Rightarrow> string) \<Rightarrow> string rio" where
  "generate_group_name gen =
    bind_io (try_candidates (map gen [0..<8])) (\<lambda>found. case found of
       Some c \<Rightarrow> ret c
     | None \<Rightarrow> (\<lambda>s. numbered_name (Suc (length s)) (gen 8) 2 s))"

definition create_group ::
  "registry_env \<Rightarrow> (nat \<Rightarrow> string) \<Rightarrow> string \<Rightarrow> int \<Rightarrow> new_group \<Rightarrow> group rio" where
  "create_group env gen new_id now params =
    bind_io
      (if blank (ng_name params) then generate_group_name gen
       else if \<not> is_valid_label (ng_name params) then raise (InvalidName (ng_name params))
       else bind_io (aget (by_name_key (ng_name params))) (\<lambda>b.
         if b \<noteq> None then raise (Conflict (GroupExists (ng_name params)))
         else ret (ng_name params)))
    (\<lambda>name.
    bind_io (lift_result (normalize_ttl
        (case ng_ttl_seconds params of Some t \<Rightarrow> t | None \<Rightarrow> DEFAULT_GROUP_TTL_SECONDS)))
    (\<lambda>ttl_seconds.
      let g = \<lparr>g_id = new_id, g_name = name, g_implicit = False, g_created_at = now,
        g_owner_id = ng_owner_id params, g_ttl_seconds = ttl_seconds,
        g_sliding_ttl = (case ng_sliding_ttl params of Some b \<Rightarrow> b | None \<Rightarrow> DEFAULT_GROUP_SLIDING_TTL),
        g_callout_enabled = False, g_last_activity_at = None\<rparr>
      in seq_io (write_group env g)
           (seq_io (arm_group_ttls (g_id g) (g_name g) (g_ttl_seconds g)) (ret g))))"

text \<open>Listing walks past records that cannot be read.\<close>

fun readable_groups :: "registry_env \<Rightarrow> string list \<Rightarrow> group list rio" where
  "readable_groups env [] = ret []"
| "readable_groups env (i # is) = (\<lambda>s. case read_group env i s of
     (Inr g, s') \<Rightarrow> bind_io (readable_groups env is) (\<lambda>gs. ret (g # gs)) s'
   | (Inl e, s') \<Rightarrow> readable_groups env is s')"

definition list_groups :: "registry_env \<Rightarrow> group list rio" where
  "list_groups env = bind_io (asmem ''group:all'') (readable_groups env)"

definition list_groups_by_owner :: "registry_env \<Rightarrow> string \<Rightarrow> group list rio" where
  "list_groups_by_owner env owner = bind_io (asmem (group_owner_key owner)) (readable_groups env)"

definition patch_group ::
  "registry_env \<Rightarrow> string \<Rightarrow> nat option \<Rightarrow> bool option \<Rightarrow> bool option \<Rightarrow> group rio" where
  "patch_group env gid ttl_seconds sliding_ttl callout_enabled =
    bind_io (read_group env gid) (\<lambda>g.
    bind_io (case ttl_seconds of None \<Rightarrow> ret g | Some t \<Rightarrow>
        bind_io (lift_result (normalize_ttl t)) (\<lambda>ttl.
          seq_io (ahset (group_key gid) ''ttl_seconds'' (show_nat ttl))
            (seq_io (arm_group_ttls gid (g_name g) ttl) (ret (g\<lparr>g_ttl_seconds := ttl\<rparr>))))) (\<lambda>g.
    bind_io (case sliding_ttl of None \<Rightarrow> ret g | Some b \<Rightarrow>
        seq_io (ahset (group_key gid) ''sliding_ttl'' (flag b)) (ret (g\<lparr>g_sliding_ttl := b\<rparr>))) (\<lambda>g.
    (case callout_enabled of None \<Rightarrow> ret g | Some b \<Rightarrow>
        seq_io (ahset (group_key gid) ''callout_enabled'' (flag b))
          (ret (g\<lparr>g_callout_enabled := b\<rparr>))))))"

section \<open>Reading routes\<close>

definition read_route :: "registry_env \<Rightarrow> string \<Rightarrow> route rio" where
  "read_route env rid = bind_io (ahall (route_key rid)) (\<lambda>fs.
     if fs = [] then raise NotFound else lift_result (decode_route env fs))"

fun read_routes :: "registry_env \<Rightarrow> string list \<Rightarrow> route list rio" where
  "read_routes env [] = ret []"
| "read_routes env (i # is) = bind_io (read_route env i) (\<lambda>r.
     bind_io (read_routes env is) (\<lambda>rs. ret (r # rs)))"

definition list_routes :: "registry_env \<Rightarrow> route list rio" where
  "list_routes env = bind_io (asmem ''route:all'') (read_routes env)"

definition list_routes_by_owner :: "registry_env \<Rightarrow> string \<Rightarrow> route list rio" where
  "list_routes_by_owner env owner = bind_io (asmem (by_owner_key owner)) (read_routes env)"

definition routes_in_group :: "registry_env \<Rightarrow> string \<Rightarrow> route list rio" where
  "routes_in_group env gid = bind_io (asmem (in_group_key gid)) (read_routes env)"

definition route_id_by_number :: "string \<Rightarrow> nat \<Rightarrow> string rio" where
  "route_id_by_number gid n =
    bind_io (bind_io (aget (by_number_key gid n)) or_not_found) (\<lambda>b.
      lift_result (stored_id ''route ulid'' b))"

definition get_route_by_slug :: "registry_env \<Rightarrow> string \<Rightarrow> nat \<Rightarrow> route rio" where
  "get_route_by_slug env group_ref n =
    bind_io (bind_io (resolve_group env group_ref) or_not_found) (\<lambda>gid.
    bind_io (route_id_by_number gid n) (read_route env))"

definition rename_group :: "registry_env \<Rightarrow> string \<Rightarrow> string \<Rightarrow> group rio" where
  "rename_group env group_ref new_name =
    bind_io (bind_io (resolve_group env group_ref) or_not_found) (\<lambda>gid.
    bind_io (read_group env gid) (\<lambda>g.
    if g_name g = new_name then ret g
    else if \<not> is_valid_label new_name then raise (InvalidName new_name)
    else bind_io (aget (by_name_key new_name)) (\<lambda>b.
      if b \<noteq> None then raise (Conflict (GroupExists new_name))
      else seq_io (do_all [
             ahset (group_key gid) ''name'' new_name,
             adel (by_name_key (g_name g)),
             aset (by_name_key new_name) gid,
             arm_group_ttl (by_name_key new_name) (g_ttl_seconds g)])
        (bind_io (routes_in_group env gid) (\<lambda>rs.
          seq_io (each_io (\<lambda>r. ahset (route_key (r_id r)) ''group_name'' new_name) rs)
            (ret (g\<lparr>g_name := new_name\<rparr>)))))))"

definition refresh_group_if_sliding :: "registry_env \<Rightarrow> string \<Rightarrow> bool rio" where
  "refresh_group_if_sliding env gid = (\<lambda>s. case read_group env gid s of
      (Inl NotFound, s') \<Rightarrow> (Inr False, s')
    | (Inl e, s') \<Rightarrow> (Inl e, s')
    | (Inr g, s') \<Rightarrow>
        (if \<not> g_sliding_ttl g then ret False
         else if g_ttl_seconds g = 0 then ret False
         else seq_io (arm_group_ttls gid (g_name g) (g_ttl_seconds g)) (ret True)) s')"

definition record_route_hit :: "registry_env \<Rightarrow> string \<Rightarrow> string \<Rightarrow> int \<Rightarrow> unit rio" where
  "record_route_hit env gid rid now = (let ts = to_rfc3339 env now in
    seq_io (ahset (route_key rid) ''last_hit_at'' ts)
      (bind_io (ahincr (route_key rid) ''hits_total'' 1) (\<lambda>_.
        ahset (group_key gid) ''last_activity_at'' ts)))"

definition refresh_group :: "registry_env \<Rightarrow> string \<Rightarrow> group rio" where
  "refresh_group env gid = bind_io (read_group env gid) (\<lambda>g.
     if g_ttl_seconds g = 0 then raise (InvalidTtl 0)
     else seq_io (arm_group_ttls gid (g_name g) (g_ttl_seconds g)) (ret g))"

section \<open>Cascade, state and journal clearing\<close>

definition cascade_route_fields :: "string list" where
  "cascade_route_fields = [''id'', ''group_id'', ''group_name'', ''number'', ''methods'', ''path'',
     ''language'', ''bindings_version'', ''compiled_wasm'', ''created_at'', ''owner_id'',
     ''hits_total'', ''last_hit_at'']"

definition cascade_group_fields :: "string list" where
  "cascade_group_fields = [''id'', ''name'', ''implicit'', ''created_at'', ''owner_id'',
     ''ttl_seconds'', ''sliding_ttl'', ''last_activity_at'']"

definition kv_prefix :: "string \<Rightarrow> string \<Rightarrow> string" where
  "kv_prefix gid rid = ''kv:'' @ gid @ '':'' @ rid @ '':''"

definition cascade_route :: "registry_env \<Rightarrow> string \<Rightarrow> string \<Rightarrow> unit rio" where
  "cascade_route env gid rid =
    seq_io (\<lambda>s. case read_route env rid s of
        (Inr r, s') \<Rightarrow> strip_route_indexes r s' | (Inl e, s') \<Rightarrow> ret () s')
    (bind_io (adelpre (kv_prefix gid rid)) (\<lambda>_.
      seq_io (each_io (\<lambda>f. ahdel (route_key rid) f) cascade_route_fields)
        (asrem ''route:all'' rid)))"

definition cascade_containers :: "string \<Rightarrow> unit rio" where
  "cascade_containers gid = do_all [
     adel (in_group_key gid),
     bind_io (adelpre (''gkv:'' @ gid @ '':'')) (\<lambda>_. ret ()),
     bind_io (adelpre (''journal:'' @ gid @ '':'')) (\<lambda>_. ret ()),
     bind_io (adelpre (''journal:by-number:'' @ gid @ '':'')) (\<lambda>_. ret ()),
     adel (counters_key gid)]"

definition cascade_group_record :: "string \<Rightarrow> group \<Rightarrow> unit rio" where
  "cascade_group_record gid g =
    seq_io (adel (by_name_key (g_name g)))
      (seq_io (asrem (group_owner_key (g_owner_id g)) gid)
        (each_io (\<lambda>f. ahdel (group_key gid) f) cascade_group_fields))"

definition cascade_delete_group :: "registry_env \<Rightarrow> string \<Rightarrow> nat rio" where
  "cascade_delete_group env gid =
    bind_io (\<lambda>s. case read_group env gid s of
        (Inr g, s') \<Rightarrow> (Inr (Some g), s')
      | (Inl NotFound, s') \<Rightarrow> (Inr None, s')
      | (Inl e, s') \<Rightarrow> (Inl e, s')) (\<lambda>g.
    bind_io (asmem (in_group_key gid)) (\<lambda>route_ids.
    seq_io (each_io (cascade_route env gid) route_ids)
    (seq_io (cascade_containers gid)
    (seq_io (case g of None \<Rightarrow> ret () | Some g \<Rightarrow> cascade_group_record gid g)
    (seq_io (asrem ''group:all'' gid) (ret (length route_ids)))))))"

definition state_entry_for :: "bucket \<Rightarrow> string \<Rightarrow> state_entry rio" where
  "state_entry_for b key = bind_io (st (bucket_kind b key)) (\<lambda>k.
    let kind = (case k of Some x \<Rightarrow> x | None \<Rightarrow> ''bytes'') in
    if kind = ''bytes'' then bind_io (st (bucket_get b key)) (\<lambda>v.
      ret \<lparr>se_key = key, se_kind = ''bytes'', se_value = v, se_length = None\<rparr>)
    else if kind = ''list'' then bind_io (st (bucket_list_length b key)) (\<lambda>n.
      ret \<lparr>se_key = key, se_kind = ''list'', se_value = None, se_length = Some n\<rparr>)
    else if kind = ''hash'' then bind_io (st (bucket_hash_keys b key)) (\<lambda>ks.
      ret \<lparr>se_key = key, se_kind = ''hash'', se_value = None, se_length = Some (length ks)\<rparr>)
    else if kind = ''set'' then bind_io (st (bucket_set_members b key)) (\<lambda>ms.
      ret \<lparr>se_key = key, se_kind = ''set'', se_value = None, se_length = Some (length ms)\<rparr>)
    else ret \<lparr>se_key = key, se_kind = kind, se_value = None, se_length = None\<rparr>)"

fun state_entries :: "bucket \<Rightarrow> string list \<Rightarrow> state_entry list rio" where
  "state_entries b [] = ret []"
| "state_entries b (k # ks) = bind_io (state_entry_for b k) (\<lambda>e.
     bind_io (state_entries b ks) (\<lambda>es. ret (e # es)))"

definition list_bucket_state :: "bucket \<Rightarrow> state_entry list rio" where
  "list_bucket_state b = bind_io (st (bucket_list_keys b None)) (\<lambda>keys.
     bind_io (state_entries b keys) (\<lambda>out. ret (sort_key se_key out)))"

definition list_group_state :: "string \<Rightarrow> state_entry list rio" where
  "list_group_state gid = list_bucket_state (group_bucket gid)"

definition clear_group_state :: "string \<Rightarrow> unit rio" where
  "clear_group_state gid = bind_io (adelpre (''kv:'' @ gid @ '':'')) (\<lambda>_.
     bind_io (adelpre (''gkv:'' @ gid @ '':'')) (\<lambda>_. ret ()))"

definition set_bucket_state :: "bucket \<Rightarrow> (string \<times> bytes) list \<Rightarrow> unit rio" where
  "set_bucket_state b entries = each_io (\<lambda>(k, v). st (bucket_set b k v)) entries"

definition set_group_state :: "string \<Rightarrow> (string \<times> bytes) list \<Rightarrow> unit rio" where
  "set_group_state gid entries = set_bucket_state (group_bucket gid) entries"

definition clear_group_journal :: "string \<Rightarrow> unit rio" where
  "clear_group_journal gid =
    bind_io (adelpre (''journal:'' @ gid @ '':'')) (\<lambda>_.
    bind_io (adelpre (''journal:by-number:'' @ gid @ '':'')) (\<lambda>_.
    adel (counters_key gid)))"

definition create_implicit_group ::
  "registry_env \<Rightarrow> (nat \<Rightarrow> string) \<Rightarrow> string \<Rightarrow> int \<Rightarrow> string \<Rightarrow> group rio" where
  "create_implicit_group env gen new_id now owner_id =
    bind_io (generate_group_name gen) (\<lambda>name.
      let g = \<lparr>g_id = new_id, g_name = name, g_implicit = True, g_created_at = now,
        g_owner_id = owner_id, g_ttl_seconds = DEFAULT_GROUP_TTL_SECONDS,
        g_sliding_ttl = DEFAULT_GROUP_SLIDING_TTL, g_callout_enabled = False,
        g_last_activity_at = None\<rparr>
      in seq_io (write_group env g)
           (seq_io (arm_group_ttls (g_id g) (g_name g) (g_ttl_seconds g)) (ret g)))"

section \<open>Route operations\<close>

definition lift_pattern :: "pattern_error + 'a \<Rightarrow> registry_error + 'a" where
  "lift_pattern r = (case r of Inl e \<Rightarrow> Inl (InvalidPath e) | Inr x \<Rightarrow> Inr x)"

text \<open>The loop of \<^theory_text>\<open>scan_pattern_conflict\<close> over the records of the group.\<close>

fun check_conflicts :: "methods \<Rightarrow> pattern \<Rightarrow> string option \<Rightarrow> route list \<Rightarrow> registry_error + unit" where
  "check_conflicts ms p exclude [] = Inr ()"
| "check_conflicts ms p exclude (r # rs) =
     (if exclude = Some (r_id r) then check_conflicts ms p exclude rs
      else rbind (lift_pattern (pattern_parse (r_path r))) (\<lambda>q.
        if routes_conflict ms p (r_methods r) q
        then Inl (Conflict (RouteConflict (r_group_name r) (r_number r) (r_methods r) (r_path r)))
        else check_conflicts ms p exclude rs))"

definition scan_pattern_conflict ::
  "registry_env \<Rightarrow> string \<Rightarrow> methods \<Rightarrow> pattern \<Rightarrow> string option \<Rightarrow> unit rio" where
  "scan_pattern_conflict env gid ms p exclude =
    bind_io (routes_in_group env gid) (\<lambda>rs. lift_result (check_conflicts ms p exclude rs))"

definition precheck_create_conflict ::
  "registry_env \<Rightarrow> string option \<Rightarrow> string list \<Rightarrow> string \<Rightarrow> unit rio" where
  "precheck_create_conflict env group_ref ms path =
    bind_io (lift_result (lift_pattern (pattern_parse path))) (\<lambda>p.
    bind_io (lift_result (validate_methods ms)) (\<lambda>ms.
    bind_io (case group_ref of Some reference \<Rightarrow> resolve_group env reference | None \<Rightarrow> ret None) (\<lambda>gid.
    case gid of Some g \<Rightarrow> scan_pattern_conflict env g ms p None | None \<Rightarrow> ret ())))"

definition as_u32 :: "int \<Rightarrow> nat" where
  "as_u32 i = nat (i mod 2 ^ 32)"

text \<open>The group a new route goes to.\<close>

definition target_group ::
  "registry_env \<Rightarrow> (nat \<Rightarrow> string) \<Rightarrow> string \<Rightarrow> int \<Rightarrow> new_route \<Rightarrow> group rio" where
  "target_group env gen new_gid now params = (case nr_group params of
      Some reference \<Rightarrow> bind_io (resolve_group env reference) (\<lambda>found. case found of
          Some gid \<Rightarrow> read_group env gid
        | None \<Rightarrow> raise NotFound)
    | None \<Rightarrow> create_implicit_group env gen new_gid now (nr_owner_id params))"

definition index_route :: "route \<Rightarrow> unit rio" where
  "index_route r = do_all [
     aset (by_number_key (r_group_id r) (r_number r)) (r_id r),
     asadd (in_group_key (r_group_id r)) (r_id r),
     asadd ''route:all'' (r_id r),
     asadd (by_owner_key (r_owner_id r)) (r_id r)]"

definition create_route ::
  "registry_env \<Rightarrow> (nat \<Rightarrow> string) \<Rightarrow> string \<Rightarrow> string \<Rightarrow> int \<Rightarrow> new_route \<Rightarrow> route rio" where
  "create_route env gen new_gid new_rid now params =
    bind_io (lift_result (lift_pattern (pattern_parse (nr_path params)))) (\<lambda>p.
    bind_io (lift_result (validate_methods (nr_methods params))) (\<lambda>ms.
    bind_io (target_group env gen new_gid now params) (\<lambda>g.
    seq_io (scan_pattern_conflict env (g_id g) ms p None) (
    bind_io (ahincr (counters_key (g_id g)) ''next_route_number'' 1) (\<lambda>n.
      let r = \<lparr>r_id = new_rid, r_group_id = g_id g, r_group_name = g_name g, r_number = as_u32 n,
        r_methods = nr_methods params, r_path = raw p, r_language = nr_language params,
        r_bindings_version = nr_bindings_version params, r_compiled_wasm = nr_compiled_wasm params,
        r_source = nr_source params, r_created_at = now, r_owner_id = nr_owner_id params,
        r_hits_total = 0, r_last_hit_at = None\<rparr>
      in seq_io (write_route env r) (seq_io (index_route r) (ret r)))))))"

definition delete_route_fields :: "string list" where
  "delete_route_fields = [''id'', ''group_id'', ''group_name'', ''number'', ''methods'', ''path'',
     ''language'', ''bindings_version'', ''compiled_wasm'', ''source'', ''created_at'', ''owner_id'',
     ''hits_total'', ''last_hit_at'']"

definition delete_route :: "registry_env \<Rightarrow> string \<Rightarrow> nat \<Rightarrow> unit rio" where
  "delete_route env group_ref n =
    bind_io (bind_io (resolve_group env group_ref) or_not_found) (\<lambda>gid.
    bind_io (route_id_by_number gid n) (\<lambda>rid.
    bind_io (read_route env rid) (\<lambda>r.
    seq_io (strip_route_indexes r)
    (bind_io (adelpre (kv_prefix (r_group_id r) (r_id r))) (\<lambda>_.
    each_io (\<lambda>f. ahdel (route_key rid) f) delete_route_fields)))))"

definition list_route_state :: "registry_env \<Rightarrow> string \<Rightarrow> nat \<Rightarrow> state_entry list rio" where
  "list_route_state env group_ref n = bind_io (get_route_by_slug env group_ref n) (\<lambda>r.
     list_bucket_state (route_bucket (r_group_id r) (r_id r)))"

definition clear_route_state :: "registry_env \<Rightarrow> string \<Rightarrow> nat \<Rightarrow> nat rio" where
  "clear_route_state env group_ref n = bind_io (get_route_by_slug env group_ref n) (\<lambda>r.
     adelpre (kv_prefix (r_group_id r) (r_id r)))"

definition set_route_state ::
  "registry_env \<Rightarrow> string \<Rightarrow> nat \<Rightarrow> (string \<times> bytes) list \<Rightarrow> unit rio" where
  "set_route_state env group_ref n entries = bind_io (get_route_by_slug env group_ref n) (\<lambda>r.
     set_bucket_state (route_bucket (r_group_id r) (r_id r)) entries)"

text \<open>\<^theory_text>\<open>update_route\<close> after the checks: the fields present in the patch are written.\<close>

definition apply_patch :: "registry_env \<Rightarrow> string \<Rightarrow> patch_route \<Rightarrow> string \<Rightarrow> route \<Rightarrow> route rio" where
  "apply_patch env rid patch new_path r = (let key = route_key rid in
    bind_io (case pr_methods patch of None \<Rightarrow> ret r | Some m \<Rightarrow>
        seq_io (ahset key ''methods'' (methods_to_json env m)) (ret (r\<lparr>r_methods := m\<rparr>))) (\<lambda>r.
    bind_io (case pr_path patch of None \<Rightarrow> ret r | Some p \<Rightarrow>
        seq_io (ahset key ''path'' new_path) (ret (r\<lparr>r_path := new_path\<rparr>))) (\<lambda>r.
    bind_io (case pr_language patch of None \<Rightarrow> ret r | Some l \<Rightarrow>
        seq_io (ahset key ''language'' l) (ret (r\<lparr>r_language := l\<rparr>))) (\<lambda>r.
    bind_io (case pr_bindings_version patch of None \<Rightarrow> ret r | Some v \<Rightarrow>
        seq_io (ahset key ''bindings_version'' v) (ret (r\<lparr>r_bindings_version := v\<rparr>))) (\<lambda>r.
    bind_io (case pr_compiled_wasm patch of None \<Rightarrow> ret r | Some w \<Rightarrow>
        seq_io (ahset key ''compiled_wasm'' w) (ret (r\<lparr>r_compiled_wasm := w\<rparr>))) (\<lambda>r.
    (case pr_source patch of None \<Rightarrow> ret r | Some src \<Rightarrow>
        seq_io (case src of Some t \<Rightarrow> ahset key ''source'' t | None \<Rightarrow> ahdel key ''source'')
          (ret (r\<lparr>r_source := src\<rparr>)))))))))"

definition update_route :: "registry_env \<Rightarrow> string \<Rightarrow> nat \<Rightarrow> patch_route \<Rightarrow> route rio" where
  "update_route env group_ref n patch =
    bind_io (bind_io (resolve_group env group_ref) or_not_found) (\<lambda>gid.
    bind_io (route_id_by_number gid n) (\<lambda>rid.
    bind_io (read_route env rid) (\<lambda>r.
    bind_io (case pr_methods patch of
        Some m \<Rightarrow> seq_io (lift_result (rmap (\<lambda>_. ()) (validate_methods m))) (ret m)
      | None \<Rightarrow> ret (r_methods r)) (\<lambda>new_methods.
    bind_io (case pr_path patch of
        Some p \<Rightarrow> lift_result (rmap raw (lift_pattern (pattern_parse p)))
      | None \<Rightarrow> ret (r_path r)) (\<lambda>new_path.
    seq_io (if pr_methods patch \<noteq> None \<or> pr_path patch \<noteq> None
            then bind_io (lift_result (lift_pattern (pattern_parse new_path))) (\<lambda>new_pattern.
              scan_pattern_conflict env (r_group_id r) new_methods new_pattern (Some (r_id r)))
            else ret ())
      (apply_patch env rid patch new_path r))))))"

section \<open>Records written and read back\<close>

text \<open>The text form of a ULID: 26 letters or digits.\<close>

definition ulid_text :: "string \<Rightarrow> bool" where
  "ulid_text i \<longleftrightarrow> length i = 26 \<and> list_all is_alnum i"

lemma ulid_no_colon: "ulid_text i \<Longrightarrow> CHR '':'' \<notin> set i"
  by (auto simp: ulid_text_def list_all_iff is_alnum_def is_lower_def is_upper_def is_digit_def)

lemma ulid_not_word: "ulid_text i \<Longrightarrow> length w \<noteq> 26 \<Longrightarrow> i \<noteq> w"
  by (auto simp: ulid_text_def)

lemmas key_defs = group_key_def by_name_key_def group_owner_key_def counters_key_def route_key_def
  by_number_key_def in_group_key_def by_owner_key_def

lemma route_key_neq [simp]:
  assumes "ulid_text i"
  shows "route_key i \<noteq> by_number_key g n" "by_number_key g n \<noteq> route_key i"
    "route_key i \<noteq> in_group_key g" "in_group_key g \<noteq> route_key i"
    "route_key i \<noteq> by_owner_key u" "by_owner_key u \<noteq> route_key i"
    "route_key i \<noteq> ''route:all''" "''route:all'' \<noteq> route_key i"
  using ulid_no_colon[OF assms] ulid_not_word[OF assms, of "''all''"] by (auto simp: key_defs)

lemma route_index_neq [simp]:
  "by_number_key g n \<noteq> in_group_key h" "in_group_key h \<noteq> by_number_key g n"
  "by_owner_key u \<noteq> in_group_key h" "in_group_key h \<noteq> by_owner_key u"
  "''route:all'' \<noteq> in_group_key h" "in_group_key h \<noteq> ''route:all''"
  "''route:all'' \<noteq> by_number_key g n" "by_number_key g n \<noteq> ''route:all''"
  "''route:all'' \<noteq> by_owner_key u" "by_owner_key u \<noteq> ''route:all''"
  "by_owner_key u \<noteq> by_number_key g n" "by_number_key g n \<noteq> by_owner_key u"
  by (auto simp: key_defs)

lemma in_group_key_inj [simp]: "in_group_key g = in_group_key h \<longleftrightarrow> g = h"
  by (simp add: key_defs)

lemma route_key_inj [simp]: "route_key i = route_key j \<longleftrightarrow> i = j"
  by (simp add: key_defs)

text \<open>Keys of routes and keys of groups.\<close>

definition route_space :: "string \<Rightarrow> bool" where
  "route_space k \<longleftrightarrow> starts_with ''route:'' k"

lemma route_space_simps [simp]:
  "route_space (route_key i)" "route_space (by_number_key g n)" "route_space (in_group_key g)"
  "route_space (by_owner_key u)" "route_space ''route:all''"
  "\<not> route_space (group_key i)" "\<not> route_space (by_name_key nm)" "\<not> route_space (counters_key i)"
  "\<not> route_space (group_owner_key u)" "\<not> route_space ''group:all''"
  by (simp_all add: route_space_def key_defs)

lemma not_route_space_neq: "route_space k \<Longrightarrow> \<not> route_space k' \<Longrightarrow> k \<noteq> k'"
  by auto

lemma ahset_run: "hash_at s k = Some h \<Longrightarrow>
    ahset k f v s = (Inr (), AList.update k (Hash (AList.update f v h)) s)"
  by (simp add: map_err_run admin_hash_set)

lemma ahdel_run: "hash_at s k = Some h \<Longrightarrow>
    ahdel k f s = (Inr (), if map_of s k = None then s else AList.update k (Hash (AList.delete f h)) s)"
  by (simp add: map_err_run admin_hash_delete)

lemma run_all: "do_all (m # ms) s = (case m s of (Inl e, s') \<Rightarrow> (Inl e, s') | (Inr u, s') \<Rightarrow> do_all ms s')"
  "do_all [] s = (Inr (), s)"
  by (simp_all add: io_simps)

definition route_fields :: "registry_env \<Rightarrow> route \<Rightarrow> (string \<times> bytes) list" where
  "route_fields env r =
    [(''id'', r_id r), (''group_id'', r_group_id r), (''group_name'', r_group_name r),
     (''number'', show_nat (r_number r)), (''methods'', methods_to_json env (r_methods r)),
     (''path'', r_path r), (''language'', r_language r), (''bindings_version'', r_bindings_version r),
     (''compiled_wasm'', r_compiled_wasm r)]
    @ (case r_source r of Some src \<Rightarrow> [(''source'', src)] | None \<Rightarrow> [])
    @ [(''created_at'', to_rfc3339 env (r_created_at r)), (''owner_id'', r_owner_id r)]"

definition wf_route :: "route \<Rightarrow> bool" where
  "wf_route r \<longleftrightarrow> list_all valid_utf8 [r_id r, r_group_id r, r_group_name r, r_path r, r_language r,
      r_bindings_version r, r_owner_id r]
    \<and> (case r_source r of Some src \<Rightarrow> valid_utf8 src | None \<Rightarrow> True)
    \<and> r_number r \<le> u32_max \<and> r_hits_total r = 0 \<and> r_last_hit_at r = None"

lemma write_route_run:
  assumes "map_of s (route_key (r_id r)) = None"
  shows "write_route env r s = (Inr (), AList.update (route_key (r_id r)) (Hash (route_fields env r)) s)"
proof -
  have h: "hash_at s (route_key (r_id r)) = Some []" using assms by (simp add: hash_at_def)
  show ?thesis
    by (cases "r_source r")
      (simp_all add: write_route_def Let_def run_all ahset_run ahdel_run h cell_simps route_fields_def
        del: each_io.simps)
qed

lemma utf8_Some: "\<lbrakk>map_of fs n = Some b; valid_utf8 b\<rbrakk> \<Longrightarrow> utf8 fs n = Inr b"
  by (simp add: utf8_def)

lemma decode_route_fields:
  assumes "env_ok env" "wf_route r"
  shows "decode_route env (route_fields env r) = Inr r"
  using assms
  by (cases "r_source r")
    (simp_all add: decode_route_def route_fields_def utf8_def utf8_opt_def parse_ts_def
      transpose_ts_def env_ok_def wf_route_def parse_u32_show)

section \<open>What each operation leaves alone\<close>

lemma keeps_admin_write:
  assumes "k \<noteq> key"
  shows "keeps k (bucket_set admin_bucket key v)" "keeps k (bucket_delete admin_bucket key)"
    "keeps k (bucket_hash_set admin_bucket key f v)" "keeps k (bucket_hash_delete admin_bucket key f)"
    "keeps k (bucket_hash_incr admin_bucket key f i)"
    "keeps k (bucket_set_add admin_bucket key m)" "keeps k (bucket_set_remove admin_bucket key m)"
  using assms by (auto simp: admin_bucket_def intro!: keeps_intros)

lemma keeps_resolve_group [keeps_intros]: "keeps k (resolve_group env reference)"
  unfolding resolve_group_def by (intro keeps_intros)

lemma keeps_read_group [keeps_intros]: "keeps k (read_group env gid)"
  unfolding read_group_def by (intro keeps_intros)

lemma keeps_read_route [keeps_intros]: "keeps k (read_route env rid)"
  unfolding read_route_def by (intro keeps_intros)

lemma keeps_read_routes [keeps_intros]: "keeps k (read_routes env ids)"
  by (induction ids) (auto intro!: keeps_intros)

lemma keeps_routes_in_group [keeps_intros]: "keeps k (routes_in_group env gid)"
  unfolding routes_in_group_def by (intro keeps_intros)

lemma keeps_scan [keeps_intros]: "keeps k (scan_pattern_conflict env gid ms p ex)"
  unfolding scan_pattern_conflict_def by (intro keeps_intros)

lemma keeps_arm [keeps_intros]: "keeps k (arm_group_ttl key n)" "keeps k (arm_group_ttls gid nm n)"
  unfolding arm_group_ttls_def arm_group_ttl_def by (auto intro!: keeps_intros)

lemma keeps_try_candidates [keeps_intros]: "keeps k (try_candidates cs)"
  by (induction cs) (auto intro!: keeps_intros)

lemma keeps_numbered_name [keeps_intros]: "keeps k (numbered_name fuel base n)"
  by (induction fuel arbitrary: n) (auto simp: Let_def intro!: keeps_intros)

lemma keeps_generate [keeps_intros]: "keeps k (generate_group_name gen)"
proof -
  have "keeps k (\<lambda>s. numbered_name (Suc (length s)) base n s)" for base n
    using keeps_numbered_name unfolding keeps_def by blast
  then show ?thesis unfolding generate_group_name_def by (intro keeps_intros)
qed

lemma keeps_write_group:
  "route_space k \<Longrightarrow> keeps k (write_group env g)"
  unfolding write_group_def Let_def
  by (intro keeps_each)
     (auto intro!: keeps_map_err keeps_admin_write dest: not_route_space_neq)

lemma keeps_or_not_found [keeps_intros]: "keeps k (or_not_found x)"
  unfolding or_not_found_def by (intro keeps_intros)

lemma keeps_target_group:
  "route_space k \<Longrightarrow> keeps k (target_group env gen new_gid now params)"
  unfolding target_group_def create_implicit_group_def Let_def
  by (intro keeps_intros keeps_write_group)

section \<open>The route table of a group\<close>

text \<open>\<^theory_text>\<open>group_routes env s gid rs\<close>: the group's member set lists the records \<^theory_text>\<open>rs\<close>.\<close>

definition stored_route :: "registry_env \<Rightarrow> mem_store \<Rightarrow> string \<Rightarrow> route \<Rightarrow> bool" where
  "stored_route env s i r \<longleftrightarrow>
    (\<exists>h. hash_at s (route_key i) = Some h \<and> h \<noteq> [] \<and> decode_route env h = Inr r \<and> r_id r = i)"

definition group_routes :: "registry_env \<Rightarrow> mem_store \<Rightarrow> string \<Rightarrow> route list \<Rightarrow> bool" where
  "group_routes env s gid rs \<longleftrightarrow>
    (\<exists>ids. set_at s (in_group_key gid) = Some ids \<and> distinct ids \<and> list_all ulid_text ids
       \<and> list_all2 (stored_route env s) ids rs)"

definition clash :: "route \<Rightarrow> route \<Rightarrow> bool" where
  "clash a b = (case (pattern_parse (r_path a), pattern_parse (r_path b)) of
      (Inr p, Inr q) \<Rightarrow> routes_conflict (r_methods a) p (r_methods b) q | _ \<Rightarrow> False)"

fun conflict_free :: "route list \<Rightarrow> bool" where
  "conflict_free [] = True"
| "conflict_free (r # rs) = (list_all (\<lambda>q. \<not> clash r q) rs \<and> conflict_free rs)"

definition well_formed_route :: "string \<Rightarrow> route \<Rightarrow> bool" where
  "well_formed_route gid r \<longleftrightarrow> r_group_id r = gid
     \<and> validate_methods (r_methods r) = Inr (r_methods r)
     \<and> (\<exists>p. pattern_parse (r_path r) = Inr p)"

definition group_ok :: "registry_env \<Rightarrow> mem_store \<Rightarrow> string \<Rightarrow> route list \<Rightarrow> bool" where
  "group_ok env s gid rs \<longleftrightarrow>
     group_routes env s gid rs \<and> conflict_free rs \<and> list_all (well_formed_route gid) rs"

lemma read_route_stored: "stored_route env s i r \<Longrightarrow> read_route env i s = (Inr r, s)"
  by (auto simp: stored_route_def read_route_def bind_io_def map_err_run admin_hash_get_all
      lift_result_def)

lemma read_routes_stored:
  "list_all2 (stored_route env s) ids rs \<Longrightarrow> read_routes env ids s = (Inr rs, s)"
proof (induction ids rs rule: list_all2_induct)
  case (Cons i ids r rs)
  then show ?case by (simp add: bind_io_def read_route_stored ret_def)
qed (simp add: ret_def)

lemma routes_in_group_stored: "group_routes env s gid rs \<Longrightarrow> routes_in_group env gid s = (Inr rs, s)"
  by (auto simp: group_routes_def routes_in_group_def bind_io_def map_err_run admin_set_members
      read_routes_stored)

lemma stored_route_cong:
  "map_of s' (route_key i) = map_of s (route_key i) \<Longrightarrow> stored_route env s' i r = stored_route env s i r"
  using cell_cong(1)[of s' "route_key i" s] by (simp add: stored_route_def)

lemma group_routes_transfer:
  assumes "group_routes env s gid rs"
    and "map_of s' (in_group_key gid) = map_of s (in_group_key gid)"
    and "\<And>i. \<lbrakk>ulid_text i; map_of s (route_key i) \<noteq> None\<rbrakk> \<Longrightarrow> map_of s' (route_key i) = map_of s (route_key i)"
  shows "group_routes env s' gid rs"
proof -
  obtain ids where ids: "set_at s (in_group_key gid) = Some ids" "distinct ids" "list_all ulid_text ids"
      "list_all2 (stored_route env s) ids rs"
    using assms(1) by (auto simp: group_routes_def)
  have "stored_route env s' i r" if "i \<in> set ids" "stored_route env s i r" for i r
  proof -
    have "map_of s (route_key i) \<noteq> None" using that(2)
      by (auto simp: stored_route_def hash_at_def split: option.splits)
    then show ?thesis using that assms(3) ids(3) stored_route_cong[of s' i s env r]
      by (simp add: list_all_iff)
  qed
  then have "list_all2 (stored_route env s') ids rs"
    using ids(4) by (auto simp: list_all2_conv_all_nth)
  then show ?thesis using ids cell_cong(2)[OF assms(2)] by (auto simp: group_routes_def)
qed

lemma clash_sym: "clash a b = clash b a"
  using routes_conflict_sym by (auto simp: clash_def split: sum.splits)

lemma conflict_free_append:
  "conflict_free (rs @ [r]) \<longleftrightarrow> conflict_free rs \<and> (\<forall>q \<in> set rs. \<not> clash r q)"
  by (induction rs) (auto simp: clash_sym list_all_iff)

lemma check_conflicts_Inr:
  "check_conflicts ms p ex rs = Inr () \<longleftrightarrow>
    (\<forall>r \<in> set rs. ex = Some (r_id r) \<or>
      (\<exists>q. pattern_parse (r_path r) = Inr q \<and> \<not> routes_conflict ms p (r_methods r) q))"
proof (induction rs)
  case (Cons r rs)
  then show ?case by (cases "pattern_parse (r_path r)") (auto simp: lift_pattern_def)
qed simp

lemma read_route_state: "snd (read_route env i s) = s"
  by (simp add: read_route_def bind_io_parts map_err_parts admin_hash_get_all lift_result_def raise_def
      split: option.splits sum.splits)

lemma read_routes_state: "snd (read_routes env ids s) = s"
  by (induction ids) (simp_all add: bind_io_parts ret_def read_route_state split: sum.splits)

lemma routes_in_group_state: "snd (routes_in_group env gid s) = s"
  by (simp add: routes_in_group_def bind_io_parts map_err_parts admin_set_members read_routes_state
      split: option.splits sum.splits)

lemma scan_state: "snd (scan_pattern_conflict env gid ms p ex s) = s"
  by (simp add: scan_pattern_conflict_def bind_io_parts routes_in_group_state lift_result_def
      split: sum.splits)

lemma check_conflicts_no_clash:
  assumes "check_conflicts (r_methods r) p None rs = Inr ()" "pattern_parse (r_path r) = Inr p"
  shows "\<forall>q \<in> set rs. \<not> clash r q"
  using assms by (auto simp: check_conflicts_Inr clash_def split: sum.splits)

lemma pattern_parse_raw: "pattern_parse r = Inr p \<Longrightarrow> pattern_parse (raw p) = Inr p"
  using pattern_parse_wf pattern_parse_render by blast

section \<open>Creating a route\<close>

lemma lift_result_Inr: "lift_result r s = (Inr x, s') \<longleftrightarrow> r = Inr x \<and> s' = s"
  by (auto simp: lift_result_def)

lemma seq_io_Inr: "seq_io m n s = (Inr x, s') \<longleftrightarrow> (\<exists>u t. m s = (Inr u, t) \<and> n t = (Inr x, s'))"
  by (auto simp: seq_io_def bind_io_Inr_iff)

lemma ret_Inr: "ret x s = (Inr y, s') \<longleftrightarrow> y = x \<and> s' = s"
  by (auto simp: ret_def)

lemmas run_Inr = bind_io_Inr_iff seq_io_Inr ret_Inr lift_result_Inr map_err_Inr_iff

lemma validate_methods_Inr: "validate_methods ms = Inr ms' \<Longrightarrow> ms' = ms"
  by (auto simp: validate_methods_def split: if_splits option.splits)

lemma create_route_steps:
  assumes "create_route env gen new_gid new_rid now params s = (Inr r, s')"
  obtains p g s1 n s2 s3 where
    "pattern_parse (nr_path params) = Inr p" "validate_methods (nr_methods params) = Inr (nr_methods params)"
    "target_group env gen new_gid now params s = (Inr g, s1)"
    "scan_pattern_conflict env (g_id g) (nr_methods params) p None s1 = (Inr (), s1)"
    "ahincr (counters_key (g_id g)) ''next_route_number'' 1 s1 = (Inr n, s2)"
    "write_route env r s2 = (Inr (), s3)" "index_route r s3 = (Inr (), s')"
    "r_id r = new_rid" "r_group_id r = g_id g" "r_methods r = nr_methods params" "r_path r = raw p"
    "r_number r = as_u32 n"
proof -
  obtain p ms g s1 n s2 s3 t u v where h:
    "lift_pattern (pattern_parse (nr_path params)) = Inr p" "validate_methods (nr_methods params) = Inr ms"
    "target_group env gen new_gid now params s = (Inr g, s1)"
    "scan_pattern_conflict env (g_id g) ms p None s1 = (Inr u, t)"
    "ahincr (counters_key (g_id g)) ''next_route_number'' 1 t = (Inr n, s2)"
    "write_route env r s2 = (Inr v, s3)" "index_route r s3 = (Inr (), s')"
    "r_id r = new_rid" "r_group_id r = g_id g" "r_methods r = nr_methods params" "r_path r = raw p"
    "r_number r = as_u32 n"
    using assms unfolding create_route_def Let_def
    by (auto simp: run_Inr)
  have "t = s1" using h(4) scan_state[of env "g_id g" ms p None s1] by simp
  then show ?thesis using that h validate_methods_Inr[OF h(2)]
    by (auto simp: lift_pattern_def split: sum.splits)
qed

lemma do_all_Inr:
  "do_all (m # ms) s = (Inr u, s') \<longleftrightarrow> (\<exists>v t. m s = (Inr v, t) \<and> do_all ms t = (Inr u, s'))"
  "do_all [] s = (Inr u, s') \<longleftrightarrow> s' = s"
  by (auto simp: run_all split: prod.splits sum.splits simp del: each_io.simps)

lemma index_route_run:
  assumes "index_route r s = (Inr (), s')"
  obtains ids m2 m3 where "set_at s (in_group_key (r_group_id r)) = Some ids"
    "s' = AList.update (by_owner_key (r_owner_id r)) (Set m3)
      (AList.update ''route:all'' (Set m2)
      (AList.update (in_group_key (r_group_id r)) (Set (set_insert (r_id r) ids))
      (AList.update (by_number_key (r_group_id r) (r_number r)) (Bytes (r_id r)) s)))"
  using assms unfolding index_route_def
  by (auto simp: do_all_Inr map_err_Inr_iff admin_set admin_set_add_Inr cell_simps simp del: each_io.simps)

lemma create_route_group_ok:
  assumes env: "env_ok env" and fresh: "ulid_text new_rid" "map_of s (route_key new_rid) = None"
    and run: "create_route env gen new_gid new_rid now params s = (Inr r, s')"
    and wf: "wf_route r" and ok: "group_ok env s gid rs"
  shows "group_ok env s' gid (if gid = r_group_id r then rs @ [r] else rs)"
proof -
  obtain p g s1 n s2 s3 where c:
    "pattern_parse (nr_path params) = Inr p" "validate_methods (nr_methods params) = Inr (nr_methods params)"
    "target_group env gen new_gid now params s = (Inr g, s1)"
    "scan_pattern_conflict env (g_id g) (nr_methods params) p None s1 = (Inr (), s1)"
    "ahincr (counters_key (g_id g)) ''next_route_number'' 1 s1 = (Inr n, s2)"
    "write_route env r s2 = (Inr (), s3)" "index_route r s3 = (Inr (), s')"
    "r_id r = new_rid" "r_group_id r = g_id g" "r_methods r = nr_methods params" "r_path r = raw p"
    using create_route_steps[OF run] by metis
  have k1: "map_of s1 k = map_of s k" if "route_space k" for k
    using keepsD[OF keeps_target_group[OF that] c(3)] .
  have k2: "map_of s2 k = map_of s k" if "route_space k" for k
  proof -
    have "k \<noteq> counters_key (g_id g)" using that by auto
    then have kp: "keeps k (ahincr (counters_key (g_id g)) ''next_route_number'' 1)"
      by (intro keeps_map_err keeps_admin_write)
    show ?thesis using keepsD[OF kp c(5)] k1[OF that] by simp
  qed
  have s3: "s3 = AList.update (route_key new_rid) (Hash (route_fields env r)) s2"
    using write_route_run[of s2 r env] c(6,8) k2[of "route_key new_rid"] fresh(2) by simp
  obtain ids m2 m3 where ix: "set_at s3 (in_group_key (r_group_id r)) = Some ids"
    "s' = AList.update (by_owner_key (r_owner_id r)) (Set m3)
      (AList.update ''route:all'' (Set m2)
      (AList.update (in_group_key (r_group_id r)) (Set (set_insert (r_id r) ids))
      (AList.update (by_number_key (r_group_id r) (r_number r)) (Bytes (r_id r)) s3)))"
    using index_route_run[OF c(7)] by metis
  have other: "map_of s' (route_key i) = map_of s (route_key i)" if "ulid_text i" "i \<noteq> new_rid" for i
    using that k2[of "route_key i"] by (simp add: ix(2) s3 c(8))
  have old: "map_of s' (route_key i) = map_of s (route_key i)"
    if "ulid_text i" "map_of s (route_key i) \<noteq> None" for i
    using that other fresh(2) by (cases "i = new_rid") auto
  show ?thesis
  proof (cases "gid = r_group_id r")
    case False
    have "map_of s' (in_group_key gid) = map_of s (in_group_key gid)"
      using False fresh(1) k2[of "in_group_key gid"] by (simp add: ix(2) s3)
    then have "group_routes env s' gid rs"
      using group_routes_transfer[of env s gid rs s'] ok old by (simp add: group_ok_def)
    then show ?thesis using ok False by (simp add: group_ok_def)
  next
    case True
    obtain ids0 where i0: "set_at s (in_group_key gid) = Some ids0" "distinct ids0" "list_all ulid_text ids0"
        "list_all2 (stored_route env s) ids0 rs"
      using ok by (auto simp: group_ok_def group_routes_def)
    have ids: "ids = ids0"
      using ix(1) i0(1) cell_cong(2)[of s2 "in_group_key gid" s] k2[of "in_group_key gid"] True fresh(1)
      by (simp add: s3 cell_simps)
    have notin: "new_rid \<notin> set ids0"
    proof
      assume "new_rid \<in> set ids0"
      then obtain q where "stored_route env s new_rid q"
        using i0(4) by (auto simp: list_all2_conv_all_nth in_set_conv_nth)
      then show False using fresh(2) by (auto simp: stored_route_def hash_at_def)
    qed
    have "set_at s' (in_group_key gid) = Some (ids0 @ [new_rid])"
      using notin fresh(1) by (simp add: ix(2) cell_simps True ids c(8) set_insert_def)
    moreover have "list_all2 (stored_route env s') ids0 rs"
    proof -
      have "stored_route env s' i q" if "i \<in> set ids0" "stored_route env s i q" for i q
        using that stored_route_cong[of s' i s env q] other[of i] notin i0(3)
        by (auto simp: list_all_iff)
      then show ?thesis using i0(4) by (auto simp: list_all2_conv_all_nth)
    qed
    moreover have "stored_route env s' new_rid r"
      using fresh(1) decode_route_fields[OF env wf] c(8)
      by (simp add: stored_route_def ix(2) s3 cell_simps) (simp add: route_fields_def)
    ultimately have gr: "group_routes env s' gid (rs @ [r])"
      using i0 notin fresh(1) by (auto simp: group_routes_def list_all2_appendI)
    have "group_routes env s1 gid rs"
      using group_routes_transfer[of env s gid rs s1] ok k1 by (simp add: group_ok_def)
    then have "check_conflicts (nr_methods params) p None rs = Inr ()"
      using c(4,9) True routes_in_group_stored
      by (auto simp: scan_pattern_conflict_def run_Inr)
    then have "\<forall>q \<in> set rs. \<not> clash r q"
      using check_conflicts_no_clash[of r p rs] pattern_parse_raw[OF c(1)] c(10,11) by simp
    then show ?thesis using ok gr True c(2,10,11) pattern_parse_raw[OF c(1)]
      by (auto simp: group_ok_def conflict_free_append well_formed_route_def)
  qed
qed

section \<open>Choosing a group name\<close>

definition name_free :: "mem_store \<Rightarrow> string \<Rightarrow> bool" where
  "name_free s nm \<longleftrightarrow> bytes_at s (by_name_key nm) = Some None"

lemma aget_Inr: "bucket_get admin_bucket k s = (Inr b, s') \<longleftrightarrow> bytes_at s k = Some b \<and> s' = s"
  by (auto simp: admin_get split: option.splits)

lemma try_candidates_Inr:
  "try_candidates cs s = (Inr (Some c), s') \<Longrightarrow> c \<in> set cs \<and> name_free s c \<and> s' = s"
  by (induction cs)
    (auto simp: ret_Inr run_Inr aget_Inr name_free_def split: if_splits)

lemma try_candidates_state: "try_candidates cs s = (Inr x, s') \<Longrightarrow> s' = s"
  by (induction cs) (auto simp: ret_Inr run_Inr aget_Inr split: if_splits)

lemma numbered_name_Inr:
  assumes "numbered_name fuel base n s = (Inr nm, s')"
  shows "s' = s \<and> (\<exists>k \<le> fuel. nm = base @ ''-'' @ show_nat (n + k)) \<and>
    (name_free s nm \<or> (\<forall>k < fuel. by_name_key (base @ ''-'' @ show_nat (n + k)) \<in> fst ` set s))"
  using assms
proof (induction fuel arbitrary: n)
  case 0
  then show ?case by (simp add: ret_Inr)
next
  case (Suc fuel)
  let ?c = "base @ ''-'' @ show_nat n"
  obtain b where b: "bytes_at s (by_name_key ?c) = Some b"
    and r: "(if b = None then ret ?c else numbered_name fuel base (n + 1)) s = (Inr nm, s')"
    using Suc.prems
    unfolding numbered_name.simps Let_def bind_io_Inr_iff map_err_Inr_iff aget_Inr by blast
  show ?case
  proof (cases b)
    case None
    then show ?thesis using r b by (auto simp: ret_Inr name_free_def intro!: exI[of _ 0])
  next
    case (Some v)
    then have "map_of s (by_name_key ?c) \<noteq> None"
      using b by (auto simp: bytes_at_def split: option.splits)
    then have here: "by_name_key ?c \<in> fst ` set s" by (simp add: map_of_eq_None_iff)
    have IH: "s' = s" "\<exists>k \<le> fuel. nm = base @ ''-'' @ show_nat (n + 1 + k)"
      "name_free s nm \<or> (\<forall>k < fuel. by_name_key (base @ ''-'' @ show_nat (n + 1 + k)) \<in> fst ` set s)"
      using Suc.IH[of "n + 1"] r Some by auto
    have "\<exists>k \<le> Suc fuel. nm = base @ ''-'' @ show_nat (n + k)"
      using IH(2) by (metis Suc_le_mono add.assoc plus_1_eq_Suc)
    moreover have "name_free s nm \<or> (\<forall>k < Suc fuel. by_name_key (base @ ''-'' @ show_nat (n + k)) \<in> fst ` set s)"
      using IH(3) here by (auto simp: less_Suc_eq_0_disj)
    ultimately show ?thesis using IH(1) by blast
  qed
qed

lemma numbered_name_free:
  assumes "numbered_name (Suc (length s)) base n s = (Inr nm, s')"
  shows "name_free s nm"
proof (rule ccontr)
  assume "\<not> name_free s nm"
  then have sub: "(\<lambda>k. by_name_key (base @ ''-'' @ show_nat (n + k))) ` {..<Suc (length s)} \<subseteq> fst ` set s"
    using numbered_name_Inr[OF assms] by auto
  have "inj_on (\<lambda>k. by_name_key (base @ ''-'' @ show_nat (n + k))) {..<Suc (length s)}"
    by (auto simp: inj_on_def by_name_key_def dest: show_nat_inj)
  then have "card {..<Suc (length s)} \<le> card (fst ` set s)"
    using sub by (metis card_image card_mono finite_imageI finite_set)
  also have "\<dots> \<le> length s" by (metis card_image_le card_length finite_set le_trans)
  finally show False by simp
qed

lemma generate_group_name_Inr:
  assumes "generate_group_name gen s = (Inr nm, s')"
  shows "s' = s \<and> name_free s nm \<and>
    (nm \<in> gen ` {..<8} \<or> (\<exists>k \<le> length s + 3. nm = gen 8 @ ''-'' @ show_nat k))"
proof -
  obtain f t where f: "try_candidates (map gen [0..<8]) s = (Inr f, t)"
    and r: "(case f of Some c \<Rightarrow> ret c | None \<Rightarrow> (\<lambda>s. numbered_name (Suc (length s)) (gen 8) 2 s)) t = (Inr nm, s')"
    using assms unfolding generate_group_name_def bind_io_Inr_iff by blast
  have t: "t = s" using try_candidates_state[OF f] .
  show ?thesis
  proof (cases f)
    case None
    then have n: "numbered_name (Suc (length s)) (gen 8) 2 s = (Inr nm, s')" using r t by simp
    obtain k where "k \<le> Suc (length s)" "nm = gen 8 @ ''-'' @ show_nat (2 + k)"
      using numbered_name_Inr[OF n] by blast
    then have "\<exists>k \<le> length s + 3. nm = gen 8 @ ''-'' @ show_nat k"
      by (intro exI[of _ "2 + k"]) simp
    then show ?thesis using numbered_name_Inr[OF n] numbered_name_free[OF n] by simp
  next
    case (Some c)
    then have "nm = c" "s' = s" using r t by (auto simp: ret_Inr)
    then show ?thesis using try_candidates_Inr[of "map gen [0..<8]" s c t] f Some
      by (auto simp: atLeast0LessThan simp del: upt_Suc)
  qed
qed

lemma show_nat_length: "n < 10 ^ Suc d \<Longrightarrow> length (show_nat n) \<le> Suc d"
proof (induction d arbitrary: n)
  case 0
  then show ?case by (subst show_nat.simps) simp
next
  case (Suc d)
  then have "length (show_nat (n div 10)) \<le> Suc d"
    by (intro Suc.IH) (simp add: less_mult_imp_div_less)
  then show ?case by (subst show_nat.simps) (simp add: Let_def)
qed

lemma digit_label: "is_digit c \<Longrightarrow> label_char c \<and> c \<noteq> CHR ''-''"
  by (auto simp: label_char_def is_digit_def)

lemma numbered_label:
  assumes "is_valid_label base" "length base \<le> 41" "k < 10 ^ 21"
  shows "is_valid_label (base @ ''-'' @ show_nat k)"
proof -
  have d: "list_all is_digit (show_nat k)" "show_nat k \<noteq> []" by (simp_all add: show_nat_digits)
  then have "list_all label_char (show_nat k)" "last (show_nat k) \<noteq> CHR ''-''"
    using digit_label last_in_set[OF d(2)] by (auto simp: list_all_iff)
  moreover have "length (show_nat k) \<le> 21" using show_nat_length[of k 20] assms(3) by simp
  ultimately show ?thesis using assms(1,2) d(2)
    by (auto simp: is_valid_label_iff label_char_def)
qed

text \<open>What \<^theory_text>\<open>naming::generate\<close> draws: a candidate made of two listed words.\<close>

definition generated :: "(nat \<Rightarrow> string) \<Rightarrow> bool" where
  "generated gen \<longleftrightarrow> (\<forall>k. \<exists>i < length ADJECTIVES. \<exists>j < length NOUNS. gen k = generate i j)"

lemma generated_label: "generated gen \<Longrightarrow> is_valid_label (gen k) \<and> length (gen k) \<le> 41"
proof -
  assume "generated gen"
  then obtain i j where ij: "i < length ADJECTIVES" "j < length NOUNS" "gen k = generate i j"
    unfolding generated_def by blast
  obtain a n where an: "generate i j = a @ ''-'' @ n" "word_ok a" "word_ok n"
    using generate_parts[OF ij(1,2)] by metis
  have "length (gen k) \<le> 41" using ij(3) an by (simp add: word_ok_def)
  then show ?thesis using is_valid_label_join[OF an(2,3)] ij(3) an(1) by simp
qed

lemma generate_group_name_label:
  assumes "generated gen" "generate_group_name gen s = (Inr nm, s')" "length s < 2 ^ 32"
  shows "is_valid_label nm"
proof -
  consider (plain) k where "nm = gen k" | (numbered) k where "k \<le> length s + 3" "nm = gen 8 @ ''-'' @ show_nat k"
    using generate_group_name_Inr[OF assms(2)] by auto
  then show ?thesis
  proof cases
    case plain
    then show ?thesis using generated_label[OF assms(1)] by simp
  next
    case numbered
    have "k < 10 ^ 21" using numbered(1) assms(3) by simp
    then show ?thesis using generated_label[OF assms(1), of 8] numbered(2) numbered_label by blast
  qed
qed

section \<open>Creating a group\<close>

definition group_fields :: "registry_env \<Rightarrow> group \<Rightarrow> (string \<times> bytes) list" where
  "group_fields env g =
    [(''id'', g_id g), (''name'', g_name g), (''implicit'', flag (g_implicit g)),
     (''created_at'', to_rfc3339 env (g_created_at g)), (''owner_id'', g_owner_id g),
     (''ttl_seconds'', show_nat (g_ttl_seconds g)), (''sliding_ttl'', flag (g_sliding_ttl g)),
     (''callout_enabled'', flag (g_callout_enabled g))]"

definition wf_group :: "group \<Rightarrow> bool" where
  "wf_group g \<longleftrightarrow> list_all valid_utf8 [g_id g, g_name g, g_owner_id g]
     \<and> g_ttl_seconds g \<le> u64_max \<and> g_last_activity_at g = None"

lemma flag_simps [simp]: "valid_utf8 (flag b)" "flag b = ''1'' \<longleftrightarrow> b"
  by (simp_all add: flag_def valid_utf8_def utf8_pending_def)

lemma decode_group_fields:
  assumes "env_ok env" "wf_group g"
  shows "decode_group env (group_fields env g) = Inr g"
  using assms
  by (simp add: decode_group_def group_fields_def utf8_def utf8_opt_def parse_ts_def
      transpose_ts_def env_ok_def wf_group_def parse_u64_show)

lemma group_key_neq:
  assumes "ulid_text i"
  shows "group_key i \<noteq> by_name_key nm" "group_key i \<noteq> group_owner_key u"
    "group_key i \<noteq> ''group:all''" "group_key i \<noteq> counters_key j"
  using ulid_no_colon[OF assms] ulid_not_word[OF assms, of "''all''"] by (auto simp: key_defs)

lemma group_index_neq:
  "by_name_key nm \<noteq> group_owner_key u" "by_name_key nm \<noteq> ''group:all''"
  by (auto simp: key_defs)

lemma write_group_run:
  assumes "map_of s (group_key (g_id g)) = None" "ulid_text (g_id g)"
    and "write_group env g s = (Inr (), s')"
  shows "map_of s' (group_key (g_id g)) = Some (Hash (group_fields env g))"
    "map_of s' (by_name_key (g_name g)) = Some (Bytes (g_id g))"
proof -
  let ?k = "group_key (g_id g)"
  have h: "hash_at s ?k = Some []" using assms(1) by (simp add: hash_at_def)
  note neq = group_key_neq[OF assms(2)]
  obtain m1 m2 where "s' = AList.update ''group:all'' (Set m1) (AList.update (group_owner_key (g_owner_id g)) (Set m2)
      (AList.update (by_name_key (g_name g)) (Bytes (g_id g)) (AList.update ?k (Hash (group_fields env g)) s)))"
    using assms(3) h
    by (auto simp: write_group_def Let_def do_all_Inr map_err_Inr_iff admin_hash_set_Inr admin_set
        admin_set_add_Inr cell_simps group_fields_def simp del: each_io.simps)
  then show "map_of s' ?k = Some (Hash (group_fields env g))"
    "map_of s' (by_name_key (g_name g)) = Some (Bytes (g_id g))"
    using neq neq[symmetric] group_index_neq by auto
qed

lemma arm_state: "arm_group_ttls gid nm n s = (Inr (), s)"
  by (simp add: arm_group_ttls_def arm_group_ttl_def run_all map_err_run admin_ttl del: each_io.simps)

lemma normalize_ttl_Inr: "normalize_ttl t = Inr t' \<longleftrightarrow> t' = t \<and> t \<le> MAX_GROUP_TTL_SECONDS"
  by (auto simp: normalize_ttl_def)

lemma create_group_steps:
  assumes "create_group env gen new_id now params s = (Inr g, s')"
  obtains s1 where "name_free s (g_name g)" "g_id g = new_id" "write_group env g s = (Inr (), s')"
    "g_ttl_seconds g \<le> MAX_GROUP_TTL_SECONDS" "g_owner_id g = ng_owner_id params"
    "g_last_activity_at g = None" "\<not> g_callout_enabled g"
    "if blank (ng_name params) then generate_group_name gen s = (Inr (g_name g), s)
     else g_name g = ng_name params \<and> is_valid_label (g_name g)"
proof -
  let ?pick = "if blank (ng_name params) then generate_group_name gen
       else if \<not> is_valid_label (ng_name params) then raise (InvalidName (ng_name params))
       else bind_io (aget (by_name_key (ng_name params))) (\<lambda>b.
         if b \<noteq> None then raise (Conflict (GroupExists (ng_name params)))
         else ret (ng_name params))"
  obtain name t where n: "?pick s = (Inr name, t)" and
    g: "g_name g = name" "g_id g = new_id" "write_group env g t = (Inr (), s')"
      "g_ttl_seconds g \<le> MAX_GROUP_TTL_SECONDS" "g_owner_id g = ng_owner_id params"
      "g_last_activity_at g = None" "\<not> g_callout_enabled g"
    using assms unfolding create_group_def Let_def
    by (auto simp: run_Inr arm_state normalize_ttl_Inr)
  have "t = s \<and> name_free s name \<and> (if blank (ng_name params) then generate_group_name gen s = (Inr name, s)
      else name = ng_name params \<and> is_valid_label name)"
    using n generate_group_name_Inr[of gen s name t]
    by (auto simp: run_Inr aget_Inr name_free_def raise_def split: if_splits)
  then show ?thesis using that g by auto
qed

lemma ulid_text_utf8: "ulid_text i \<Longrightarrow> valid_utf8 i"
  by (rule valid_utf8_ascii)
    (auto simp: ulid_text_def list_all_iff is_alnum_def is_lower_def is_upper_def is_digit_def)

lemma label_utf8: "is_valid_label n \<Longrightarrow> valid_utf8 n"
  by (rule valid_utf8_ascii)
    (auto simp: is_valid_label_iff list_all_iff label_char_def is_lower_def is_digit_def)

lemma read_group_hash:
  "hash_at s (group_key gid) = Some h \<Longrightarrow> read_group env gid s =
    (if h = [] then Inl NotFound else decode_group env h, s)"
  by (simp add: read_group_def bind_io_def map_err_run admin_hash_get_all raise_def lift_result_def)

lemma label_not_ulid_resolve:
  assumes "bytes_at s (by_name_key nm) = Some (Some gid)" "valid_utf8 gid" "\<not> ulid_parses env nm"
  shows "resolve_group env nm s = (Inr (Some gid), s)"
  using assms by (simp add: resolve_group_def bind_io_def map_err_run admin_get ret_def
      lift_result_def stored_id_def)

text \<open>C18: A group that \<^theory_text>\<open>create_group\<close> returns has a valid DNS label as its name, whether
  given or generated, that no group held before; its TTL is within the bound, outbound
  callbacks are off, and it can be read back unchanged by its id and found by its name.\<close>

theorem create_group_correct:
  assumes "env_ok env" "generated gen" "length s < 2 ^ 32"
    and "ulid_text new_id" "map_of s (group_key new_id) = None" "valid_utf8 (ng_owner_id params)"
    and "create_group env gen new_id now params s = (Inr g, s')"
  shows "is_valid_label (g_name g) \<and> name_free s (g_name g)
    \<and> g_ttl_seconds g \<le> MAX_GROUP_TTL_SECONDS \<and> \<not> g_callout_enabled g
    \<and> read_group env new_id s' = (Inr g, s')
    \<and> bytes_at s' (by_name_key (g_name g)) = Some (Some new_id)"
proof -
  obtain s1 where c: "name_free s (g_name g)" "g_id g = new_id" "write_group env g s = (Inr (), s')"
    "g_ttl_seconds g \<le> MAX_GROUP_TTL_SECONDS" "g_owner_id g = ng_owner_id params"
    "g_last_activity_at g = None" "\<not> g_callout_enabled g"
    "if blank (ng_name params) then generate_group_name gen s = (Inr (g_name g), s)
     else g_name g = ng_name params \<and> is_valid_label (g_name g)"
    using create_group_steps[OF assms(7)] by metis
  have lab: "is_valid_label (g_name g)"
    using c(8) generate_group_name_label[OF assms(2) _ assms(3)] by (auto split: if_splits)
  have w: "map_of s' (group_key new_id) = Some (Hash (group_fields env g))"
    "map_of s' (by_name_key (g_name g)) = Some (Bytes new_id)"
    using write_group_run[OF _ _ c(3)] assms(4,5) c(2) by simp_all
  have "MAX_GROUP_TTL_SECONDS \<le> u64_max" by (simp add: MAX_GROUP_TTL_SECONDS_def u64_max_def)
  then have "wf_group g" using c assms(4,6) lab
    by (simp add: wf_group_def ulid_text_utf8 label_utf8)
  then have "read_group env new_id s' = (Inr g, s')"
    using w(1) decode_group_fields[OF assms(1)]
    by (subst read_group_hash[of _ _ "group_fields env g"]) (auto simp: hash_at_def group_fields_def)
  then show ?thesis using lab c w(2) by (simp add: bytes_at_def)
qed

section \<open>A concrete environment\<close>

text \<open>Concrete codecs to run the registry on: decimal times, and method lists written as
  an \<^theory_text>\<open>m\<close> per method and a \<^theory_text>\<open>c\<close> before each character.\<close>

definition list_encode :: "string list \<Rightarrow> string" where
  "list_encode ms = concat (map (\<lambda>m. ''m'' @ concat (map (\<lambda>c. [CHR ''c'', c]) m)) ms)"

fun list_decode_rev :: "string \<Rightarrow> string \<times> string list" where
  "list_decode_rev [] = ([], [])"
| "list_decode_rev [x] = ([], [[]])"
| "list_decode_rev (x # y # rest) =
     (if x = CHR ''m'' then (let (p, ws) = list_decode_rev (y # rest) in ([], p # ws))
      else (let (p, ws) = list_decode_rev rest in (y # p, ws)))"

definition sample_env :: registry_env where
  "sample_env = \<lparr>to_rfc3339 = to_rfc3339 decimal_time, parse_rfc3339 = parse_rfc3339 decimal_time,
     methods_to_json = list_encode, methods_of_json = (\<lambda>b. Some (snd (list_decode_rev b))),
     ulid_parses = ulid_text\<rparr>"

lemma list_decode_chars:
  "list_decode_rev (concat (map (\<lambda>c. [CHR ''c'', c]) m) @ rest)
    = (m @ fst (list_decode_rev rest), snd (list_decode_rev rest))"
  by (induction m) (auto split: prod.splits)

lemma list_decode_m:
  "list_decode_rev (CHR ''m'' # rest) = ([], fst (list_decode_rev rest) # snd (list_decode_rev rest))"
  by (cases rest) (auto split: prod.splits)

lemma list_decode_encode: "fst (list_decode_rev (list_encode ms)) = [] \<and> snd (list_decode_rev (list_encode ms)) = ms"
proof (induction ms)
  case (Cons m ms)
  have "list_encode (m # ms) = CHR ''m'' # concat (map (\<lambda>c. [CHR ''c'', c]) m) @ list_encode ms"
    by (simp add: list_encode_def)
  then show ?case using Cons by (simp add: list_decode_m list_decode_chars)
qed (simp add: list_encode_def)

lemma show_int_utf8: "valid_utf8 (show_int i)"
proof -
  have d: "list_all (\<lambda>c. code c < 128) (show_nat n)" for n
    using show_nat_digits[of n] by (auto simp: list_all_iff is_digit_def)
  show ?thesis using d by (intro valid_utf8_ascii) (simp add: show_int_def)
qed

lemma sample_env_ok: "env_ok sample_env"
  using decimal_time_ok list_decode_encode show_int_utf8
  by (simp add: env_ok_def sample_env_def time_ok_def) (simp add: decimal_time_def)

definition ulid_a :: string where "ulid_a = ''01J0000000000000000000000A''"
definition ulid_b :: string where "ulid_b = ''01J0000000000000000000000B''"
definition ulid_c :: string where "ulid_c = ''01J0000000000000000000000C''"

lemma sample_ulids [simp]: "ulid_text ulid_a" "ulid_text ulid_b" "ulid_text ulid_c"
  by code_simp+

definition first_words :: "nat \<Rightarrow> string" where "first_words k = generate 0 0"

lemma first_words_generated: "generated first_words"
proof -
  have "0 < length ADJECTIVES" "0 < length NOUNS" by (simp_all add: word_lists_sized)
  then show ?thesis unfolding generated_def first_words_def by blast
qed

definition demo_group :: "(registry_error + group) \<times> mem_store" where
  "demo_group = create_group sample_env first_words ulid_a 7
     \<lparr>ng_name = ''demo'', ng_owner_id = ''u1'', ng_ttl_seconds = Some 60, ng_sliding_ttl = None\<rparr> []"

definition demo_route :: "string \<Rightarrow> string \<Rightarrow> mem_store \<Rightarrow> (registry_error + route) \<times> mem_store" where
  "demo_route rid path = create_route sample_env first_words ulid_c rid 8
     \<lparr>nr_group = Some ''demo'', nr_methods = [''GET''], nr_path = path, nr_language = ''javascript'',
      nr_bindings_version = ''1'', nr_compiled_wasm = ''x'', nr_source = Some ''y'', nr_owner_id = ''u1''\<rparr>"

lemma not_isl_Inr: "\<not> isl (fst x) \<Longrightarrow> \<exists>a b. x = (Inr a, b)"
  by (cases x; cases "fst x") auto

lemmas registry_run = bind_io_def seq_io_def ret_def raise_def lift_result_def map_err_run
  admin_get admin_set admin_delete admin_hash_set admin_set_add admin_hash_get_all admin_set_members
  cell_simps Let_def

lemma demo_name: "blank ''demo'' = False" "is_valid_label ''demo'' = True"
  by (simp add: ascii_space_def, code_simp)

lemmas registry_eval = registry_run key_defs ulid_a_def ulid_b_def ulid_c_def run_all ahset_run
  normalize_ttl_def MAX_GROUP_TTL_SECONDS_def set_insert_def

lemma demo_group_ok: "\<not> isl (fst demo_group)"
  by (simp add: demo_group_def create_group_def write_group_def arm_state demo_name registry_eval
      del: each_io.simps blank.simps)

theorem create_group_correct_witness:
  "\<exists>g s'. demo_group = (Inr g, s') \<and> is_valid_label (g_name g)
     \<and> read_group sample_env ulid_a s' = (Inr g, s')"
proof -
  obtain g s' where d: "demo_group = (Inr g, s')" using not_isl_Inr[OF demo_group_ok] by blast
  have "length ([]::mem_store) < 2 ^ 32" "map_of ([]::mem_store) (group_key ulid_a) = None" by simp_all
  from create_group_correct[OF sample_env_ok first_words_generated this(1) sample_ulids(1) this(2) _
      d[unfolded demo_group_def]]
  have "is_valid_label (g_name g) \<and> read_group sample_env ulid_a s' = (Inr g, s')"
    by (simp add: valid_utf8_def utf8_pending_def)
  then show ?thesis using d by blast
qed

text \<open>A store holding the group \<^theory_text>\<open>demo\<close> and no route.\<close>

definition demo_store :: mem_store where
  "demo_store = [(group_key ulid_a, Hash (group_fields sample_env
      \<lparr>g_id = ulid_a, g_name = ''demo'', g_implicit = False, g_created_at = 7, g_owner_id = ''u1'',
       g_ttl_seconds = 60, g_sliding_ttl = True, g_callout_enabled = False, g_last_activity_at = None\<rparr>)),
     (by_name_key ''demo'', Bytes ulid_a)]"

definition demo_route_record :: "string \<Rightarrow> string \<Rightarrow> nat \<Rightarrow> route" where
  "demo_route_record rid path n = \<lparr>r_id = rid, r_group_id = ulid_a, r_group_name = ''demo'',
     r_number = n, r_methods = [''GET''], r_path = path, r_language = ''javascript'',
     r_bindings_version = ''1'', r_compiled_wasm = ''x'', r_source = Some ''y'', r_created_at = 8,
     r_owner_id = ''u1'', r_hits_total = 0, r_last_hit_at = None\<rparr>"

lemma demo_resolve: "bytes_at s (by_name_key ''demo'') = Some (Some ulid_a) \<Longrightarrow>
    resolve_group sample_env ''demo'' s = (Inr (Some ulid_a), s)"
proof -
  assume "bytes_at s (by_name_key ''demo'') = Some (Some ulid_a)"
  moreover have "\<not> ulid_parses sample_env ''demo''" by (simp add: sample_env_def ulid_text_def)
  moreover have "valid_utf8 ulid_a" by (rule ulid_text_utf8) simp
  ultimately show ?thesis by (intro label_not_ulid_resolve)
qed

lemma demo_store_cells:
  "bytes_at demo_store (by_name_key ''demo'') = Some (Some ulid_a)"
  "\<And>i. map_of demo_store (route_key i) = None" "\<And>g. map_of demo_store (in_group_key g) = None"
  by (simp_all add: demo_store_def cell_simps key_defs ulid_a_def)

lemma demo_read_group:
  "read_group sample_env ulid_a demo_store = (Inr
      \<lparr>g_id = ulid_a, g_name = ''demo'', g_implicit = False, g_created_at = 7, g_owner_id = ''u1'',
       g_ttl_seconds = 60, g_sliding_ttl = True, g_callout_enabled = False, g_last_activity_at = None\<rparr>,
      demo_store)"
proof -
  let ?g = "\<lparr>g_id = ulid_a, g_name = ''demo'', g_implicit = False, g_created_at = 7, g_owner_id = ''u1'',
       g_ttl_seconds = 60, g_sliding_ttl = True, g_callout_enabled = False, g_last_activity_at = None\<rparr>"
  have "hash_at demo_store (group_key ulid_a) = Some (group_fields sample_env ?g)"
    by (simp add: demo_store_def cell_simps)
  moreover have "wf_group ?g"
    by (simp add: wf_group_def ulid_text_utf8 valid_utf8_def utf8_pending_def u64_max_def)
      (simp add: ulid_a_def utf8_pending_def)
  ultimately show ?thesis
    using decode_group_fields[OF sample_env_ok, of ?g] by (simp add: read_group_hash group_fields_def)
qed

lemma demo_pattern: "pattern_parse ''/x'' = Inr \<lparr>raw = ''/x'', segments = [Literal ''x'']\<rparr>"
  by code_simp

lemma demo_create: "\<exists>s'. demo_route ulid_b ''/x'' demo_store = (Inr (demo_route_record ulid_b ''/x'' 1), s')"
proof -
  have m: "validate_methods [''GET''] = Inr [''GET'']" by code_simp
  have s: "set_at demo_store (in_group_key ulid_a) = Some []"
    using demo_store_cells by (simp add: set_at_def)
  have c: "hash_at demo_store (counters_key ulid_a) = Some []"
    by (simp add: demo_store_def cell_simps key_defs ulid_a_def)
  have one: "as_u32 1 = 1" by (simp add: as_u32_def)
  show ?thesis
    by (simp add: demo_route_def create_route_def demo_pattern lift_pattern_def m target_group_def
        demo_resolve demo_store_cells demo_read_group scan_pattern_conflict_def routes_in_group_def
        registry_run s c admin_hash_incr_fresh one demo_route_record_def write_route_run
        index_route_def run_all del: each_io.simps)
      (simp add: demo_store_def key_defs ulid_a_def ulid_b_def cell_simps write_route_run
        registry_run admin_set_add route_key_def)
qed

text \<open>C15: Creating a route keeps every group's route set free of conflicts.  A successful
  \<^theory_text>\<open>create_route\<close> appends the new record to the set of the group it went to, where it
  clashes with none of the routes already there, and leaves the route set of every other
  group as it was.\<close>

theorem create_route_keeps_conflict_free:
  assumes "env_ok env" "ulid_text new_rid" "map_of s (route_key new_rid) = None"
    and "create_route env gen new_gid new_rid now params s = (Inr r, s')"
    and "wf_route r" "group_ok env s gid rs"
  shows "group_ok env s' gid (if gid = r_group_id r then rs @ [r] else rs)"
  by (rule create_route_group_ok[OF assms])

lemma demo_empty_group: "group_ok sample_env demo_store ulid_a []"
  using demo_store_cells by (simp add: group_ok_def group_routes_def set_at_def)

lemma demo_record_wf: "wf_route (demo_route_record ulid_b ''/x'' 1)"
  by (simp add: wf_route_def demo_route_record_def ulid_text_utf8 valid_utf8_def utf8_pending_def u32_max_def)
    (simp add: ulid_b_def ulid_a_def utf8_pending_def)

theorem create_route_keeps_conflict_free_witness:
  "\<exists>s'. demo_route ulid_b ''/x'' demo_store = (Inr (demo_route_record ulid_b ''/x'' 1), s')
     \<and> group_ok sample_env s' ulid_a [demo_route_record ulid_b ''/x'' 1]"
proof -
  obtain s' where d: "demo_route ulid_b ''/x'' demo_store = (Inr (demo_route_record ulid_b ''/x'' 1), s')"
    using demo_create by blast
  have "group_ok sample_env s' ulid_a
      (if ulid_a = r_group_id (demo_route_record ulid_b ''/x'' 1)
       then [] @ [demo_route_record ulid_b ''/x'' 1] else [])"
    by (rule create_route_keeps_conflict_free[OF sample_env_ok sample_ulids(2) demo_store_cells(2)
          d[unfolded demo_route_def] demo_record_wf demo_empty_group])
  then have "group_ok sample_env s' ulid_a [demo_route_record ulid_b ''/x'' 1]"
    by (simp add: demo_route_record_def)
  then show ?thesis using d by blast
qed

section \<open>Clearing the journal also clears the route counter\<close>

lemma adelpre_run: "adelpre p s = (Inr (length (mem_scan_with_prefix p s)), snd (bucket_delete_with_prefix admin_bucket p s))"
  by (subst map_err_run, subst delete_with_prefix_spec(1)) (simp add: admin_bucket_def)

lemma adelpre_lookup:
  "map_of (snd (bucket_delete_with_prefix admin_bucket p s)) k = (if starts_with p k then None else map_of s k)"
  using delete_with_prefix_spec(2)[of admin_bucket p s k] by (simp add: admin_bucket_def)

lemma clear_group_journal_run:
  obtains s' where "clear_group_journal gid s = (Inr (), s')"
    "map_of s' (counters_key gid) = None"
    "\<And>k. route_space k \<Longrightarrow> map_of s' k = map_of s k"
proof -
  let ?s1 = "snd (bucket_delete_with_prefix admin_bucket (''journal:'' @ gid @ '':'') s)"
  let ?s2 = "snd (bucket_delete_with_prefix admin_bucket (''journal:by-number:'' @ gid @ '':'') ?s1)"
  have r: "clear_group_journal gid s = (Inr (), AList.delete (counters_key gid) ?s2)"
    unfolding clear_group_journal_def bind_io_def adelpre_run by (simp add: map_err_run admin_delete)
  have k: "map_of (AList.delete (counters_key gid) ?s2) k = map_of s k" if rk: "route_space k" for k
  proof -
    obtain t where "k = ''route:'' @ t" using rk unfolding route_space_def starts_with_iff by blast
    then show ?thesis by (simp add: adelpre_lookup counters_key_def)
  qed
  show ?thesis by (rule that[OF r _ k]) simp_all
qed

lemma explicit_target_state:
  "\<lbrakk>nr_group params = Some reference; target_group env gen new_gid now params s = (Inr g, s')\<rbrakk> \<Longrightarrow> s' = s"
  by (auto simp: target_group_def resolve_group_def read_group_def run_Inr raise_def admin_get
      admin_hash_get_all split: option.splits if_splits)

text \<open>Route numbers are not unique once a journal has been cleared.  Clearing a group's
  journal drops the hash that also holds the route counter, so the next route created in
  the group is numbered 1 again: with an older route numbered 1 the group then lists two
  routes with the same number, and the number resolves to the new one, leaving the older
  route without a slug.\<close>

theorem clear_journal_reuses_route_number:
  assumes "env_ok env" "ulid_text new_rid" "map_of s (route_key new_rid) = None"
    and "group_ok env s gid rs" "q \<in> set rs" "r_number q = 1" "nr_group params = Some reference"
    and "create_route env gen new_gid new_rid now params (snd (clear_group_journal gid s)) = (Inr r, s')"
    and "r_group_id r = gid" "wf_route r"
  shows "routes_in_group env gid s' = (Inr (rs @ [r]), s') \<and> r_number r = r_number q \<and> r_id r \<noteq> r_id q
    \<and> route_id_by_number gid 1 s' = (Inr (r_id r), s')"
proof -
  obtain s0 where c: "clear_group_journal gid s = (Inr (), s0)" "map_of s0 (counters_key gid) = None"
    "\<And>k. route_space k \<Longrightarrow> map_of s0 k = map_of s k"
    using clear_group_journal_run by blast
  have run: "create_route env gen new_gid new_rid now params s0 = (Inr r, s')"
    using assms(8) c(1) by simp
  obtain g s1 n s2 s3 p where st: "target_group env gen new_gid now params s0 = (Inr g, s1)"
    "ahincr (counters_key (g_id g)) ''next_route_number'' 1 s1 = (Inr n, s2)"
    "index_route r s3 = (Inr (), s')" "r_id r = new_rid" "r_group_id r = g_id g" "r_number r = as_u32 n"
    using create_route_steps[OF run] by metis
  have "s1 = s0" using explicit_target_state[OF assms(7) st(1)] .
  then have "n = 1" using st(2,5) assms(9) c(2)
    by (auto simp: map_err_Inr_iff admin_hash_incr_Inr hash_at_def)
  then have num: "r_number r = 1" using st(6) by (simp add: as_u32_def)
  have "group_routes env s0 gid rs" using group_routes_transfer[of env s gid rs s0] assms(4) c(3)
    by (simp add: group_ok_def)
  then have ok0: "group_ok env s0 gid rs" using assms(4) by (simp add: group_ok_def)
  have "map_of s0 (route_key new_rid) = None" using c(3)[of "route_key new_rid"] assms(3) by simp
  then have "group_ok env s' gid (rs @ [r])"
    using create_route_group_ok[OF assms(1,2) _ run assms(10) ok0] assms(9) by simp
  then have "routes_in_group env gid s' = (Inr (rs @ [r]), s')"
    using routes_in_group_stored by (simp add: group_ok_def)
  moreover have "r_id r \<noteq> r_id q"
  proof -
    obtain i where "stored_route env s i q"
      using assms(4,5) by (auto simp: group_ok_def group_routes_def list_all2_conv_all_nth in_set_conv_nth)
    then show ?thesis using assms(3) st(4) by (auto simp: stored_route_def hash_at_def)
  qed
  moreover have "bytes_at s' (by_number_key gid 1) = Some (Some new_rid)"
  proof -
    obtain ids m2 m3 where "s' = AList.update (by_owner_key (r_owner_id r)) (Set m3)
      (AList.update ''route:all'' (Set m2)
      (AList.update (in_group_key (r_group_id r)) (Set (set_insert (r_id r) ids))
      (AList.update (by_number_key (r_group_id r) (r_number r)) (Bytes (r_id r)) s3)))"
      using index_route_run[OF st(3)] by metis
    then show ?thesis using num st(4) assms(9) by (simp add: cell_simps)
  qed
  then have "route_id_by_number gid 1 s' = (Inr (r_id r), s')"
    using assms(2) st(4)
    by (simp add: route_id_by_number_def bind_io_def map_err_run admin_get or_not_found_def ret_def
        stored_id_def lift_result_def ulid_text_utf8)
  ultimately show ?thesis using num assms(6) by simp
qed

definition demo_group_record :: group where
  "demo_group_record = \<lparr>g_id = ulid_a, g_name = ''demo'', g_implicit = False, g_created_at = 7,
     g_owner_id = ''u1'', g_ttl_seconds = 60, g_sliding_ttl = True, g_callout_enabled = False,
     g_last_activity_at = None\<rparr>"

text \<open>The same store with one route, numbered 1.\<close>

definition demo_store1 :: mem_store where
  "demo_store1 = demo_store @
     [(counters_key ulid_a, Hash [(''next_route_number'', ''1'')]),
      (route_key ulid_b, Hash (route_fields sample_env (demo_route_record ulid_b ''/x'' 1))),
      (by_number_key ulid_a 1, Bytes ulid_b), (in_group_key ulid_a, Set [ulid_b])]"

lemma demo_group_wf: "wf_group demo_group_record"
  by (simp add: demo_group_record_def wf_group_def ulid_text_utf8 valid_utf8_def utf8_pending_def u64_max_def)
    (simp add: ulid_a_def utf8_pending_def)

lemma demo_create_again:
  assumes "bytes_at s (by_name_key ''demo'') = Some (Some ulid_a)"
    "hash_at s (group_key ulid_a) = Some (group_fields sample_env demo_group_record)"
    "group_routes sample_env s ulid_a rs"
    "check_conflicts [''GET''] \<lparr>raw = ''/y'', segments = [Literal ''y'']\<rparr> None rs = Inr ()"
    "hash_at s (counters_key ulid_a) = Some []" "map_of s (route_key ulid_c) = None"
    "set_at s ''route:all'' = Some xs" "set_at s (by_owner_key ''u1'') = Some ys"
  shows "\<exists>s'. demo_route ulid_c ''/y'' s = (Inr (demo_route_record ulid_c ''/y'' 1), s')"
proof -
  obtain ids where ids: "set_at s (in_group_key ulid_a) = Some ids"
    using assms(3) by (auto simp: group_routes_def)
  have m: "validate_methods [''GET''] = Inr [''GET'']" by code_simp
  have p: "pattern_parse ''/y'' = Inr \<lparr>raw = ''/y'', segments = [Literal ''y'']\<rparr>" by code_simp
  have g: "read_group sample_env ulid_a s = (Inr demo_group_record, s)"
    using decode_group_fields[OF sample_env_ok demo_group_wf] assms(2)
    by (simp add: read_group_hash group_fields_def)
  let ?s2 = "AList.update (counters_key ulid_a) (Hash [(''next_route_number'', show_int 1)]) s"
  let ?r = "demo_route_record ulid_c ''/y'' 1"
  let ?s3 = "AList.update (route_key ulid_c) (Hash (route_fields sample_env ?r)) ?s2"
  have ne: "route_key ulid_c \<noteq> counters_key ulid_a" "in_group_key ulid_a \<noteq> counters_key ulid_a"
    "''route:all'' \<noteq> counters_key ulid_a" "by_owner_key ''u1'' \<noteq> counters_key ulid_a"
    by (simp_all add: key_defs)
  have w: "write_route sample_env ?r ?s2 = (Inr (), ?s3)"
    using write_route_run[of ?s2 ?r sample_env] assms(6) ne(1) by (simp add: demo_route_record_def)
  have "\<exists>s'. index_route ?r ?s3 = (Inr (), s')"
    using ids assms(7,8) ne
    by (simp add: index_route_def run_all map_err_run admin_set admin_set_add cell_simps
        demo_route_record_def del: each_io.simps)
  then obtain s' where ix: "index_route ?r ?s3 = (Inr (), s')" by blast
  have sc: "scan_pattern_conflict sample_env ulid_a [''GET''] \<lparr>raw = ''/y'', segments = [Literal ''y'']\<rparr> None s
      = (Inr (), s)"
    using routes_in_group_stored[OF assms(3)] assms(4)
    by (simp add: scan_pattern_conflict_def bind_io_def lift_result_def)
  have "demo_route ulid_c ''/y'' s = (Inr ?r, s')"
    using w ix sc
    by (simp add: demo_route_def create_route_def p lift_pattern_def m target_group_def
        demo_resolve[OF assms(1)] g demo_group_record_def registry_run assms(5) admin_hash_incr_fresh
        as_u32_def demo_route_record_def)
  then show ?thesis by blast
qed

lemma demo_store1_group:
  "group_ok sample_env demo_store1 ulid_a [demo_route_record ulid_b ''/x'' 1]"
proof -
  let ?r = "demo_route_record ulid_b ''/x'' 1"
  have "map_of demo_store1 (route_key ulid_b) = Some (Hash (route_fields sample_env ?r))"
    "map_of demo_store1 (in_group_key ulid_a) = Some (Set [ulid_b])"
    by (simp_all add: demo_store1_def demo_store_def key_defs ulid_a_def ulid_b_def)
  then have "stored_route sample_env demo_store1 ulid_b ?r" "set_at demo_store1 (in_group_key ulid_a) = Some [ulid_b]"
    using decode_route_fields[OF sample_env_ok demo_record_wf]
    by (simp_all add: stored_route_def hash_at_def set_at_def) (simp_all add: route_fields_def demo_route_record_def)
  moreover have "validate_methods [''GET''] = Inr [''GET'']" by code_simp
  ultimately show ?thesis using demo_pattern
    by (simp add: group_ok_def group_routes_def well_formed_route_def) (simp add: demo_route_record_def)
qed

lemma demo_cleared_store:
  "snd (clear_group_journal ulid_a demo_store1) = demo_store @
     [(route_key ulid_b, Hash (route_fields sample_env (demo_route_record ulid_b ''/x'' 1))),
      (by_number_key ulid_a 1, Bytes ulid_b), (in_group_key ulid_a, Set [ulid_b])]"
  by (simp add: clear_group_journal_def bind_io_def map_err_run bucket_delete_with_prefix_def
      bucket_list_keys_def mem_scan_with_prefix_def demo_store1_def demo_store_def key_defs
      ulid_a_def ulid_b_def io_simps admin_bucket_def bucket_delete_def mem_delete_def)

theorem clear_journal_reuses_route_number_witness:
  "\<exists>r s'. demo_route ulid_c ''/y'' (snd (clear_group_journal ulid_a demo_store1)) = (Inr r, s')
     \<and> routes_in_group sample_env ulid_a s' = (Inr [demo_route_record ulid_b ''/x'' 1, r], s')
     \<and> r_number r = 1 \<and> route_id_by_number ulid_a 1 s' = (Inr ulid_c, s')"
proof -
  let ?q = "demo_route_record ulid_b ''/x'' 1"
  let ?s0 = "snd (clear_group_journal ulid_a demo_store1)"
  have cells: "bytes_at ?s0 (by_name_key ''demo'') = Some (Some ulid_a)"
    "hash_at ?s0 (group_key ulid_a) = Some (group_fields sample_env demo_group_record)"
    "hash_at ?s0 (counters_key ulid_a) = Some []" "map_of ?s0 (route_key ulid_c) = None"
    "set_at ?s0 ''route:all'' = Some []" "set_at ?s0 (by_owner_key ''u1'') = Some []"
    unfolding demo_cleared_store
    by (simp_all add: demo_store_def cell_simps key_defs ulid_a_def ulid_b_def ulid_c_def demo_group_record_def)
  have "map_of demo_store1 (route_key ulid_c) = None"
    by (simp add: demo_store1_def demo_store_def key_defs ulid_a_def ulid_b_def ulid_c_def)
  moreover have "group_routes sample_env ?s0 ulid_a [?q]"
  proof -
    obtain t where t: "clear_group_journal ulid_a demo_store1 = (Inr (), t)"
      "\<And>k. route_space k \<Longrightarrow> map_of t k = map_of demo_store1 k"
      using clear_group_journal_run[of ulid_a demo_store1] by blast
    have "group_routes sample_env t ulid_a [?q]"
      using group_routes_transfer[of sample_env demo_store1 ulid_a "[?q]" t] t(2) demo_store1_group
      by (simp add: group_ok_def)
    then show ?thesis unfolding t(1) snd_conv .
  qed
  moreover have "check_conflicts [''GET''] \<lparr>raw = ''/y'', segments = [Literal ''y'']\<rparr> None [?q] = Inr ()"
    using demo_pattern
    by (simp add: demo_route_record_def lift_pattern_def routes_conflict_def patterns_conflict_def has_tail_def)
  ultimately obtain s' where d: "demo_route ulid_c ''/y'' ?s0 = (Inr (demo_route_record ulid_c ''/y'' 1), s')"
    using demo_create_again[OF cells(1,2)] cells(3-6) by blast
  have wf: "wf_route (demo_route_record ulid_c ''/y'' 1)"
    by (simp add: wf_route_def demo_route_record_def ulid_text_utf8 valid_utf8_def utf8_pending_def u32_max_def)
      (simp add: ulid_c_def ulid_a_def utf8_pending_def)
  have "routes_in_group sample_env ulid_a s' = (Inr ([?q] @ [demo_route_record ulid_c ''/y'' 1]), s')
      \<and> r_number (demo_route_record ulid_c ''/y'' 1) = r_number ?q
      \<and> r_id (demo_route_record ulid_c ''/y'' 1) \<noteq> r_id ?q
      \<and> route_id_by_number ulid_a 1 s' = (Inr (r_id (demo_route_record ulid_c ''/y'' 1)), s')"
    by (rule clear_journal_reuses_route_number[OF sample_env_ok sample_ulids(3)
          \<open>map_of demo_store1 (route_key ulid_c) = None\<close> demo_store1_group _ _ _ d[unfolded demo_route_def] _ wf])
      (simp_all add: demo_route_record_def)
  moreover have "r_number (demo_route_record ulid_c ''/y'' 1) = 1"
    "r_id (demo_route_record ulid_c ''/y'' 1) = ulid_c"
    by (simp_all add: demo_route_record_def)
  ultimately show ?thesis using d
    by (intro exI[of _ "demo_route_record ulid_c ''/y'' 1"] exI[of _ s']) (simp only: append.simps simp_thms)
qed

section \<open>What a cascade leaves behind\<close>

lemma each_hdel:
  assumes "hash_at s k = Some h"
  shows "\<exists>s'. each_io (\<lambda>f. ahdel k f) fs s = (Inr (), s')
    \<and> hash_at s' k = Some (filter (\<lambda>(f, v). f \<notin> set fs) h)"
  using assms
proof (induction fs arbitrary: s h)
  case Nil
  then show ?case by (simp add: ret_def)
next
  case (Cons f fs)
  obtain s1 where d: "ahdel k f s = (Inr (), s1)" using ahdel_run[OF Cons.prems, of f] by blast
  have s1: "ahdel k f s = (Inr (), s1)" "hash_at s1 k = Some (AList.delete f h)"
    using admin_hash_delete_Inr[of k f s "()" s1] d Cons.prems by (auto simp: map_err_Inr_iff)
  obtain s' where "each_io (\<lambda>f. ahdel k f) fs s1 = (Inr (), s')"
    "hash_at s' k = Some (filter (\<lambda>(f, v). f \<notin> set fs) (AList.delete f h))"
    using Cons.IH[OF s1(2)] by blast
  moreover have "filter (\<lambda>(g, v). g \<notin> set fs) (AList.delete f h) = filter (\<lambda>(g, v). g \<notin> set (f # fs)) h"
    by (auto simp: AList.delete_eq intro!: filter_cong)
  ultimately show ?case using s1(1) by (simp add: seq_io_def bind_io_def)
qed

lemma group_key_no_prefix:
  assumes "ulid_text gid"
  shows "\<not> starts_with (''kv:'' @ x) (group_key gid)" "\<not> starts_with (''gkv:'' @ x) (group_key gid)"
    "\<not> starts_with (''journal:'' @ x) (group_key gid)"
  by (simp_all add: group_key_def)

lemma keeps_strip:
  "\<not> route_space k \<Longrightarrow> keeps k (strip_route_indexes r)"
  unfolding strip_route_indexes_def
  by (intro keeps_each) (auto intro!: keeps_map_err keeps_admin_write)

lemma keeps_cascade_route:
  assumes "\<not> route_space k" "\<not> starts_with ''kv:'' k"
  shows "keeps k (cascade_route env gid rid)"
proof -
  have "\<not> starts_with (kv_prefix gid rid) k"
    using assms(2) by (auto simp: kv_prefix_def starts_with_iff)
  then have d: "keeps k (bucket_delete_with_prefix admin_bucket (kv_prefix gid rid))"
    using keeps_delete_prefix[of admin_bucket "kv_prefix gid rid" k] by (simp add: admin_bucket_def)
  have "keeps k (\<lambda>s. case read_route env rid s of
        (Inr r, s') \<Rightarrow> strip_route_indexes r s' | (Inl e, s') \<Rightarrow> ret () s')"
    using keeps_strip[OF assms(1)] read_route_state[of env rid]
    by (auto simp: keeps_def ret_def split: prod.splits sum.splits) (metis snd_conv)+
  moreover have "k \<noteq> route_key rid" "k \<noteq> ''route:all''" using assms(1) by auto
  ultimately show ?thesis unfolding cascade_route_def using d
    by (intro keeps_seq keeps_bind keeps_each keeps_map_err keeps_admin_write)
qed

lemma adelpre_keeps: "\<not> starts_with p k \<Longrightarrow> keeps k (bind_io (adelpre p) (\<lambda>_. ret ()))"
  using keeps_delete_prefix[of admin_bucket p k] by (auto simp: admin_bucket_def intro!: keeps_intros)

lemma rbind_Inl: "rbind r f = Inl e \<longleftrightarrow> r = Inl e \<or> (\<exists>x. r = Inr x \<and> f x = Inl e)"
  by (cases r) auto

lemma decode_group_error: "decode_group env h \<noteq> Inl NotFound"
proof -
  have u: "utf8 fs n \<noteq> Inl NotFound" "parse_ts env t \<noteq> Inl NotFound"
    "transpose_ts env so \<noteq> Inl NotFound" for fs n t so
    by (auto simp: utf8_def parse_ts_def transpose_ts_def rmap_def split: option.splits sum.splits)
  show ?thesis unfolding decode_group_def
    by (auto simp: rbind_Inl u split: option.splits)
qed

text \<open>Fields of a group record that the cascade does not delete.\<close>

lemma cascade_group_left:
  assumes "ulid_text gid" "hash_at s (group_key gid) = Some h" "h \<noteq> []"
    and "cascade_delete_group env gid s = (Inr n, s')"
  shows "hash_at s' (group_key gid) = Some (filter (\<lambda>(f, v). f \<notin> set cascade_group_fields) h)"
proof -
  let ?k = "group_key gid"
  have rg: "read_group env gid s = (decode_group env h, s)" using read_group_hash[OF assms(2)] assms(3) by simp
  obtain g s1 ids s2 s3 s4 where c: "decode_group env h = Inr g"
    "asmem (in_group_key gid) s = (Inr ids, s1)"
    "each_io (cascade_route env gid) ids s1 = (Inr (), s2)"
    "cascade_containers gid s2 = (Inr (), s3)"
    "cascade_group_record gid g s3 = (Inr (), s4)"
    "asrem ''group:all'' gid s4 = (Inr (), s')"
  proof (cases "decode_group env h")
    case (Inl e)
    then show ?thesis using assms(4) rg decode_group_error[of env h]
      by (cases e) (simp_all add: cascade_delete_group_def bind_io_def)
  next
    case (Inr g)
    then show ?thesis using assms(4) rg that
      unfolding cascade_delete_group_def bind_io_Inr_iff seq_io_Inr ret_Inr by auto
  qed
  have ne: "\<not> route_space ?k" "\<not> starts_with ''kv:'' ?k" by (simp_all add: group_key_def route_space_def)
  note gk = group_key_neq[OF assms(1)]
  have km: "keeps ?k (asmem (in_group_key gid))" "keeps ?k (each_io (cascade_route env gid) ids)"
    by (intro keeps_intros, intro keeps_each keeps_cascade_route[OF ne])
  have h2: "hash_at s2 ?k = Some h"
    using keeps_cells(1)[OF km(1) c(2)] keeps_cells(1)[OF km(2) c(3)] assms(2) by simp
  have k3: "keeps ?k (cascade_containers gid)"
    unfolding cascade_containers_def by (intro keeps_each) (use gk(4) ne in \<open>auto simp: key_defs intro!: adelpre_keeps keeps_map_err keeps_admin_write\<close>)
  have h3: "hash_at s3 ?k = Some h" using keeps_cells(1)[OF k3 c(4)] h2 by simp
  obtain t1 t2 where t: "adel (by_name_key (g_name g)) s3 = (Inr (), t1)"
    "asrem (group_owner_key (g_owner_id g)) gid t1 = (Inr (), t2)"
    "each_io (\<lambda>f. ahdel ?k f) cascade_group_fields t2 = (Inr (), s4)"
    using c(5) by (auto simp: cascade_group_record_def seq_io_Inr)
  have kt: "keeps ?k (adel (by_name_key (g_name g)))" "keeps ?k (asrem (group_owner_key (g_owner_id g)) gid)"
    "keeps ?k (asrem ''group:all'' gid)"
    using gk by (auto intro!: keeps_map_err keeps_admin_write)
  have "hash_at t2 ?k = Some h" using keeps_cells(1)[OF kt(1) t(1)] keeps_cells(1)[OF kt(2) t(2)] h3 by simp
  then have "hash_at s4 ?k = Some (filter (\<lambda>(f, v). f \<notin> set cascade_group_fields) h)"
    using each_hdel[of t2 ?k h cascade_group_fields] t(3) by auto
  then show ?thesis using keeps_cells(1)[OF kt(3) c(6)] by simp
qed

text \<open>Deleting a group is not idempotent.  A cascade removes the record fields it lists,
  and \<^theory_text>\<open>callout_enabled\<close>, which every created group has, is not among them: after a
  successful cascade the group's hash is still there, reading the group fails as a
  malformed record instead of reporting that it does not exist, and a second cascade of
  the same group stops with that error before it cleans anything.\<close>

theorem cascade_delete_not_idempotent:
  assumes "ulid_text gid" "hash_at s (group_key gid) = Some h" "map_of h ''callout_enabled'' \<noteq> None"
    and "cascade_delete_group env gid s = (Inr n, s')"
  shows "read_group env gid s' = (Inl (Malformed ''field id missing''), s')
    \<and> cascade_delete_group env gid s' = (Inl (Malformed ''field id missing''), s')"
proof -
  let ?h = "filter (\<lambda>(f, v). f \<notin> set cascade_group_fields) h"
  have h: "hash_at s' (group_key gid) = Some ?h"
    using cascade_group_left[OF assms(1,2) _ assms(4)] assms(3) by (cases h) simp_all
  have m: "map_of ?h f = (if f \<notin> set cascade_group_fields then map_of h f else None)" for f
    by (rule map_of_filter_fst)
  have "map_of ?h ''id'' = None" "map_of ?h ''callout_enabled'' \<noteq> None"
    unfolding m using assms(3) by (simp_all add: cascade_group_fields_def)
  then have "decode_group env ?h = Inl (Malformed ''field id missing'')" "?h \<noteq> []"
    by (auto simp: decode_group_def utf8_def)
  then have r: "read_group env gid s' = (Inl (Malformed ''field id missing''), s')"
    using read_group_hash[OF h] by simp
  then show ?thesis by (simp add: cascade_delete_group_def bind_io_def)
qed

lemma adelpre_none: "mem_scan_with_prefix p s = [] \<Longrightarrow> adelpre p s = (Inr 0, s)"
  by (simp add: bucket_delete_with_prefix_def bucket_list_keys_def admin_bucket_def bind_io_def
      seq_io_def ret_def map_err_run)

lemma demo_cascade: "\<exists>s'. cascade_delete_group sample_env ulid_a demo_store = (Inr 0, s')"
proof -
  have s: "set_at demo_store (in_group_key ulid_a) = Some []"
    using demo_store_cells by (simp add: set_at_def)
  have d: "AList.delete (in_group_key ulid_a) demo_store = demo_store"
    "AList.delete (counters_key ulid_a) demo_store = demo_store"
    by (simp_all add: demo_store_def key_defs ulid_a_def)
  have p: "mem_scan_with_prefix (''gkv:'' @ x) demo_store = []"
    "mem_scan_with_prefix (''journal:'' @ x) demo_store = []" for x
    by (simp_all add: mem_scan_with_prefix_def demo_store_def key_defs)
  have p2: "adelpre (''journal:by-number:'' @ x) demo_store = (Inr 0, demo_store)" for x
    using adelpre_none[OF p(2)[of "''by-number:'' @ x"]] by simp
  let ?s1 = "AList.delete (by_name_key ''demo'') demo_store"
  have k: "set_at ?s1 (group_owner_key ''u1'') = Some []" "map_of ?s1 (group_owner_key ''u1'') = None"
    by (simp_all add: cell_simps demo_store_def key_defs ulid_a_def)
  obtain h where "hash_at ?s1 (group_key ulid_a) = Some h"
    by (simp add: cell_simps demo_store_def group_key_neq)
  then obtain s2 where e: "each_io (\<lambda>f. ahdel (group_key ulid_a) f) cascade_group_fields ?s1 = (Inr (), s2)"
    using each_hdel by blast
  have "keeps ''group:all'' (each_io (\<lambda>f. ahdel (group_key ulid_a) f) cascade_group_fields)"
    using group_key_neq(3)[of ulid_a] by (intro keeps_each keeps_map_err keeps_admin_write) simp
  then have "set_at s2 ''group:all'' = set_at ?s1 ''group:all''" using keeps_cells(2) e by blast
  then have "set_at s2 ''group:all'' = Some []" by (simp add: cell_simps demo_store_def key_defs ulid_a_def)
  then obtain s3 where r: "asrem ''group:all'' ulid_a s2 = (Inr (), s3)"
    using admin_set_remove[of s2 "''group:all''"] by (simp add: map_err_run)
  have "cascade_containers ulid_a demo_store = (Inr (), demo_store)"
    by (simp add: cascade_containers_def run_all map_err_run[of StorageError "bucket_delete b x" for b x]
        admin_delete d bind_io_def adelpre_none p p2 ret_def del: each_io.simps append_Cons)
  moreover have "cascade_group_record ulid_a demo_group_record demo_store = (Inr (), s2)"
    using e k admin_set_remove[OF k(1), of ulid_a]
    by (simp add: cascade_group_record_def demo_group_record_def seq_io_def bind_io_def map_err_run admin_delete)
  moreover have "read_group sample_env ulid_a demo_store = (Inr demo_group_record, demo_store)"
    using demo_read_group by (simp add: demo_group_record_def)
  moreover have "asmem (in_group_key ulid_a) demo_store = (Inr [], demo_store)"
    by (simp add: map_err_run admin_set_members s)
  ultimately have "cascade_delete_group sample_env ulid_a demo_store = (Inr 0, s3)"
    using r by (simp add: cascade_delete_group_def bind_io_def seq_io_def ret_def)
  then show ?thesis by blast
qed

theorem cascade_delete_not_idempotent_witness:
  "\<exists>s'. cascade_delete_group sample_env ulid_a demo_store = (Inr 0, s')
     \<and> read_group sample_env ulid_a s' = (Inl (Malformed ''field id missing''), s')"
proof -
  obtain s' where d: "cascade_delete_group sample_env ulid_a demo_store = (Inr 0, s')"
    using demo_cascade by blast
  obtain h where "hash_at demo_store (group_key ulid_a) = Some h" "map_of h ''callout_enabled'' \<noteq> None"
    by (simp add: demo_store_def cell_simps group_fields_def)
  from cascade_delete_not_idempotent[OF sample_ulids(1) this d] d show ?thesis by blast
qed

end
