(* ===== verification/Throttle.thy ===== *)
theory Throttle
  imports Registry
begin

text \<open>The login throttle (\<^theory_text>\<open>login_throttle.rs\<close>): per address a counter of failures, the
  lease of the current window and the lease of a lockout, all in the store.

  An address is the text it is shown as.  A call reads the clock several times; the readings
  are the argument \<^theory_text>\<open>ticks\<close>.  The locale \<^theory_text>\<open>lease_clock\<close> is what the throttle relies on:
  a lease, once won, is refused until its deadline and free from then on.\<close>

section \<open>Operations\<close>

definition WINDOW_SECONDS :: nat where "WINDOW_SECONDS = 60"
definition MAX_FAILS :: int where "MAX_FAILS = 5"
definition LOCKOUT_SECONDS :: nat where "LOCKOUT_SECONDS = 60"

definition fails_key :: "string \<Rightarrow> string" where "fails_key ip = ''throttle:fails:'' @ ip"
definition window_key :: "string \<Rightarrow> string" where "window_key ip = ''throttle:window:'' @ ip"
definition lock_key :: "string \<Rightarrow> string" where "lock_key ip = ''throttle:lock:'' @ ip"

text \<open>The readings of the clock: before and after the store is reached, for each lease.\<close>

record ticks =
  window_start :: int
  window_check :: int
  lock_start :: int
  lock_check :: int

definition is_locked_out :: "time_codec \<Rightarrow> int \<Rightarrow> string \<Rightarrow> mem_store \<Rightarrow> bool" where
  "is_locked_out tc now ip s = (case fst (bucket_get admin_bucket (lock_key ip) s) of
      Inl e \<Rightarrow> False
    | Inr None \<Rightarrow> False
    | Inr (Some b) \<Rightarrow> (case (if valid_utf8 b then parse_rfc3339 tc b else None) of
        Some until \<Rightarrow> until > now | None \<Rightarrow> False))"

text \<open>\<^theory_text>\<open>unwrap_or_else\<close> on a result: the error is logged and a value takes its place.\<close>

definition or_else :: "'a \<Rightarrow> ('s, 'e, 'a) io \<Rightarrow> 's \<Rightarrow> 'a \<times> 's" where
  "or_else d m s = (case m s of (Inl e, s') \<Rightarrow> (d, s') | (Inr x, s') \<Rightarrow> (x, s'))"

definition count_failure :: "bool \<Rightarrow> string \<Rightarrow> int sio" where
  "count_failure fresh_window ip =
    (if fresh_window then seq_io (bucket_set admin_bucket (fails_key ip) ''1'') (ret 1)
     else bucket_incr admin_bucket (fails_key ip) 1)"

definition record_failure :: "time_codec \<Rightarrow> ticks \<Rightarrow> string \<Rightarrow> mem_store \<Rightarrow> bool \<times> mem_store" where
  "record_failure tc tk ip s0 =
    (case or_else False (bucket_try_acquire_lease tc (window_start tk) (window_check tk)
        admin_bucket (window_key ip) WINDOW_SECONDS) s0 of (fresh_window, s1) \<Rightarrow>
     (case count_failure fresh_window ip s1 of
        (Inl e, s2) \<Rightarrow> (False, s2)
      | (Inr fails, s2) \<Rightarrow>
        (let s3 = snd (bucket_set_ttl admin_bucket (fails_key ip) WINDOW_SECONDS s2) in
         if fails < MAX_FAILS then (False, s3)
         else (case or_else False (bucket_try_acquire_lease tc (lock_start tk) (lock_check tk)
             admin_bucket (lock_key ip) LOCKOUT_SECONDS) s3 of (newly_locked, s4) \<Rightarrow>
           (let s5 = snd (bucket_delete admin_bucket (fails_key ip) s4);
                s6 = snd (bucket_delete admin_bucket (window_key ip) s5) in
            (newly_locked, s6))))))"

definition record_success :: "string \<Rightarrow> mem_store \<Rightarrow> mem_store" where
  "record_success ip s =
    snd (bucket_delete admin_bucket (window_key ip) (snd (bucket_delete admin_bucket (fails_key ip) s)))"

section \<open>Leases\<close>

text \<open>\<^theory_text>\<open>deadline k s\<close> is the time the lease \<^theory_text>\<open>k\<close> is held until, if it is held at all;
  \<^theory_text>\<open>usable k s\<close> says that the cell behind it can hold a lease.\<close>

locale lease_clock =
  fixes usable :: "'k \<Rightarrow> 's \<Rightarrow> bool"
    and deadline :: "'k \<Rightarrow> 's \<Rightarrow> int option"
    and acquire :: "int \<Rightarrow> int \<Rightarrow> 'k \<Rightarrow> nat \<Rightarrow> 's \<Rightarrow> bool \<times> 's"
  assumes refused: "\<lbrakk>usable k s; deadline k s = Some d; t1 < d\<rbrakk> \<Longrightarrow> acquire t0 t1 k n s = (False, s)"
    and free: "\<lbrakk>usable k s; \<And>d. deadline k s = Some d \<Longrightarrow> d \<le> t1; acquire t0 t1 k n s = (r, s')\<rbrakk> \<Longrightarrow>
      r \<and> usable k s' \<and> deadline k s' = Some (t0 + seconds (max n 1))"
begin

text \<open>Who wins a lease keeps everybody out until the deadline, and nobody after it.\<close>

lemma won_until_deadline:
  assumes "usable k s" "\<And>d. deadline k s = Some d \<Longrightarrow> d \<le> t1" "acquire t0 t1 k n s = (r, s')"
  shows "fst (acquire u0 u1 k m s') \<longleftrightarrow> t0 + seconds (max n 1) \<le> u1"
proof -
  have won: "usable k s'" "deadline k s' = Some (t0 + seconds (max n 1))"
    using free[OF assms] by simp_all
  show ?thesis
  proof (cases "t0 + seconds (max n 1) \<le> u1")
    case True
    then show ?thesis using free[OF won(1), of u1 u0 m] won(2) by (cases "acquire u0 u1 k m s'") auto
  next
    case False
    then show ?thesis using refused[OF won, of u1 u0 m] by simp
  qed
qed

end

definition clock_ok :: "time_codec \<Rightarrow> bool" where
  "clock_ok tc \<longleftrightarrow> time_ok tc \<and> (\<forall>t. valid_utf8 (to_rfc3339 tc t))"

definition lease_cell :: "time_codec \<Rightarrow> string \<Rightarrow> mem_store \<Rightarrow> bool" where
  "lease_cell tc k s \<longleftrightarrow> clock_ok tc \<and> bytes_at s k \<noteq> None"

text \<open>A text that is not a time is not a lease.\<close>

definition lease_until :: "time_codec \<Rightarrow> string \<Rightarrow> mem_store \<Rightarrow> int option" where
  "lease_until tc k s = (case bytes_at s k of
      Some (Some b) \<Rightarrow> parse_rfc3339 tc b | _ \<Rightarrow> None)"

definition acquire_or_not :: "time_codec \<Rightarrow> int \<Rightarrow> int \<Rightarrow> string \<Rightarrow> nat \<Rightarrow> mem_store \<Rightarrow> bool \<times> mem_store" where
  "acquire_or_not tc t0 t1 k n =
     or_else False (bucket_try_acquire_lease tc t0 t1 admin_bucket k n)"

lemma bytes_at_update [simp]:
  "bytes_at (AList.update k v s) j = (if j = k then bytes_at [(k, v)] k else bytes_at s j)"
  by (simp add: bytes_at_def)

lemma bytes_at_cell [simp]: "bytes_at [(k, Bytes b)] k = Some (Some b)"
  by (simp add: bytes_at_def)

lemma acquire_run:
  "lease_cell tc k s \<Longrightarrow> acquire_or_not tc t0 t1 k n s =
    (if (case lease_until tc k s of Some d \<Rightarrow> t1 < d | None \<Rightarrow> False) then (False, s)
     else (True, AList.update k (Bytes (to_rfc3339 tc (t0 + seconds (max n 1)))) s))"
  unfolding acquire_or_not_def or_else_def bucket_try_acquire_lease_def Let_def bind_io_def admin_get
  by (auto simp: lease_cell_def lease_until_def mem_set_def admin_bucket_def ret_def seq_io_def bind_io_def
      split: option.splits)

interpretation throttle_lease: lease_clock "lease_cell tc" "lease_until tc" "acquire_or_not tc" for tc
proof
  fix k s d t1 t0 n
  assume "lease_cell tc k s" "lease_until tc k s = Some d" "t1 < d"
  then show "acquire_or_not tc t0 t1 k n s = (False, s)" by (simp add: acquire_run)
next
  fix k s t1 t0 n r s'
  assume u: "lease_cell tc k s" and d: "\<And>d. lease_until tc k s = Some d \<Longrightarrow> d \<le> t1"
    and a: "acquire_or_not tc t0 t1 k n s = (r, s')"
  have "r \<and> s' = AList.update k (Bytes (to_rfc3339 tc (t0 + seconds (max n 1)))) s"
    using a d by (auto simp: acquire_run[OF u] split: option.splits if_splits)
  then show "r \<and> lease_cell tc k s' \<and> lease_until tc k s' = Some (t0 + seconds (max n 1))"
    using u by (simp add: lease_cell_def lease_until_def clock_ok_def time_ok_def)
qed

section \<open>Counting to five\<close>

fun failures :: "time_codec \<Rightarrow> string \<Rightarrow> ticks list \<Rightarrow> mem_store \<Rightarrow> bool list \<times> mem_store" where
  "failures tc ip [] s = ([], s)"
| "failures tc ip (tk # tks) s = (case record_failure tc tk ip s of
      (r, s') \<Rightarrow> (case failures tc ip tks s' of (rs, s'') \<Rightarrow> (r # rs, s'')))"

definition throttle_clear :: "string \<Rightarrow> mem_store \<Rightarrow> bool" where
  "throttle_clear ip s \<longleftrightarrow> map_of s (fails_key ip) = None \<and> map_of s (window_key ip) = None
     \<and> map_of s (lock_key ip) = None"

text \<open>\<^theory_text>\<open>k\<close> failures in the window that ends at \<^theory_text>\<open>d\<close>, and no lockout.\<close>

definition counted :: "time_codec \<Rightarrow> string \<Rightarrow> nat \<Rightarrow> int \<Rightarrow> mem_store \<Rightarrow> bool" where
  "counted tc ip k d s \<longleftrightarrow> map_of s (fails_key ip) = Some (Bytes (show_nat k))
     \<and> map_of s (window_key ip) = Some (Bytes (to_rfc3339 tc d)) \<and> map_of s (lock_key ip) = None"

lemma throttle_keys [simp]:
  "fails_key ip \<noteq> window_key ip" "window_key ip \<noteq> fails_key ip" "fails_key ip \<noteq> lock_key ip"
  "lock_key ip \<noteq> fails_key ip" "window_key ip \<noteq> lock_key ip" "lock_key ip \<noteq> window_key ip"
  by (simp_all add: fails_key_def window_key_def lock_key_def)

lemma record_failure_leases:
  "record_failure tc tk ip s0 =
    (case acquire_or_not tc (window_start tk) (window_check tk) (window_key ip) 60 s0 of (fresh_window, s1) \<Rightarrow>
     (case count_failure fresh_window ip s1 of
        (Inl e, s2) \<Rightarrow> (False, s2)
      | (Inr fails, s2) \<Rightarrow>
        if fails < 5 then (False, s2)
        else (case acquire_or_not tc (lock_start tk) (lock_check tk) (lock_key ip) 60 s2 of (newly_locked, s4) \<Rightarrow>
          (newly_locked, AList.delete (window_key ip) (AList.delete (fails_key ip) s4)))))"
  by (simp add: record_failure_def acquire_or_not_def WINDOW_SECONDS_def LOCKOUT_SECONDS_def MAX_FAILS_def
      Let_def admin_delete bucket_set_ttl_def split: prod.splits sum.splits)

lemma first_failure:
  assumes "clock_ok tc" "throttle_clear ip s"
  shows "\<exists>s'. record_failure tc tk ip s = (False, s') \<and> counted tc ip 1 (window_start tk + seconds 60) s'"
proof -
  have "lease_cell tc (window_key ip) s" "lease_until tc (window_key ip) s = None"
    using assms by (simp_all add: lease_cell_def lease_until_def throttle_clear_def bytes_at_def)
  moreover have "show_nat 1 = ''1''" by code_simp
  ultimately show ?thesis using assms
    by (simp add: record_failure_leases acquire_run count_failure_def io_simps admin_set counted_def
        throttle_clear_def)
qed

text \<open>A window that has ended starts again with the next failure.\<close>

lemma failure_after_window:
  assumes "clock_ok tc" "counted tc ip k d s" "d \<le> window_check tk"
  shows "\<exists>s'. record_failure tc tk ip s = (False, s') \<and> counted tc ip 1 (window_start tk + seconds 60) s'"
proof -
  have "lease_cell tc (window_key ip) s" "lease_until tc (window_key ip) s = Some d"
    using assms(1,2) by (simp_all add: lease_cell_def lease_until_def counted_def bytes_at_def clock_ok_def
        time_ok_def)
  moreover have "show_nat 1 = ''1''" by code_simp
  ultimately show ?thesis using assms
    by (simp add: record_failure_leases acquire_run count_failure_def io_simps admin_set counted_def)
qed

lemma incr_counted:
  assumes "map_of s (fails_key ip) = Some (Bytes (show_nat k))" "k \<le> 5"
  shows "bucket_incr admin_bucket (fails_key ip) 1 s
    = (Inr (int k + 1), AList.update (fails_key ip) (Bytes (show_nat (k + 1))) s)"
proof -
  have i: "in_i64 (int k)" "in_i64 (int k + 1)" using assms(2) by (simp_all add: in_i64_def i64_min_def i64_max_def)
  have "parse_i64 (show_nat k) = Some (int k)" using parse_i64_show[OF i(1)] by (simp add: show_int_def)
  moreover have "show_int (int k + 1) = show_nat (k + 1)" by (simp add: show_int_def nat_add_distrib)
  ultimately show ?thesis using assms(1) i(2)
    by (simp add: bucket_incr_def mem_incr_def map_err_run admin_bucket_def add_to_text_def check_i64_def)
qed

lemma failure_in_window:
  assumes "clock_ok tc" "counted tc ip k d s" "window_check tk < d" "k \<le> 4"
  shows "\<exists>s'. record_failure tc tk ip s = (k = 4, s') \<and>
    (if k = 4 then map_of s' (lock_key ip) = Some (Bytes (to_rfc3339 tc (lock_start tk + seconds 60)))
       \<and> map_of s' (fails_key ip) = None \<and> map_of s' (window_key ip) = None
     else counted tc ip (k + 1) d s')"
proof -
  have l: "lease_cell tc (window_key ip) s" "lease_until tc (window_key ip) s = Some d"
    using assms(1,2) by (simp_all add: lease_cell_def lease_until_def counted_def bytes_at_def clock_ok_def
        time_ok_def)
  have inc: "bucket_incr admin_bucket (fails_key ip) 1 s
    = (Inr (int k + 1), AList.update (fails_key ip) (Bytes (show_nat (k + 1))) s)"
    using assms(2,4) by (intro incr_counted) (simp_all add: counted_def)
  let ?s = "AList.update (fails_key ip) (Bytes (show_nat (k + 1))) s"
  have lock: "lease_cell tc (lock_key ip) ?s" "lease_until tc (lock_key ip) ?s = None"
    using assms(1,2) by (simp_all add: lease_cell_def lease_until_def counted_def bytes_at_def)
  have w: "acquire_or_not tc (window_start tk) (window_check tk) (window_key ip) 60 s = (False, s)"
    by (rule throttle_lease.refused[OF l assms(3)])
  show ?thesis
  proof (cases "k = 4")
    case True
    then show ?thesis using lock inc
      by (simp add: record_failure_leases w count_failure_def acquire_run)
  next
    case False
    then show ?thesis using assms(2,4) inc
      by (simp add: record_failure_leases w count_failure_def counted_def)
  qed
qed

lemma locked_out_iff:
  assumes "clock_ok tc" "map_of s (lock_key ip) = Some (Bytes (to_rfc3339 tc d))"
  shows "is_locked_out tc now ip s \<longleftrightarrow> now < d"
  using assms by (auto simp: is_locked_out_def admin_get bytes_at_def clock_ok_def time_ok_def)

lemma not_locked: "map_of s (lock_key ip) = None \<Longrightarrow> \<not> is_locked_out tc now ip s"
  by (simp add: is_locked_out_def admin_get bytes_at_def)

text \<open>Five failures in one window lock an address out.  Only the fifth reports the lockout;
  from then on the address is locked out for exactly sixty seconds, and it starts clean after
  that.\<close>

theorem five_failures_lock_out:
  assumes "clock_ok tc" "throttle_clear ip s" "tks = [a, b, c, d, e]"
    and "\<forall>tk\<in>{b, c, d, e}. window_check tk < window_start a + seconds 60"
  shows "\<exists>s'. failures tc ip tks s = ([False, False, False, False, True], s')
    \<and> (\<forall>now. is_locked_out tc now ip s' \<longleftrightarrow> now < lock_start e + seconds 60)
    \<and> map_of s' (fails_key ip) = None \<and> map_of s' (window_key ip) = None"
proof -
  let ?d = "window_start a + seconds 60"
  obtain s1 where 1: "record_failure tc a ip s = (False, s1)" "counted tc ip 1 ?d s1"
    using first_failure[OF assms(1,2)] by blast
  obtain s2 where 2: "record_failure tc b ip s1 = (False, s2)" "counted tc ip 2 ?d s2"
    using failure_in_window[OF assms(1) 1(2), of b] assms(4) by (auto simp: numeral_2_eq_2)
  obtain s3 where 3: "record_failure tc c ip s2 = (False, s3)" "counted tc ip 3 ?d s3"
    using failure_in_window[OF assms(1) 2(2), of c] assms(4) by auto
  obtain s4 where 4: "record_failure tc d ip s3 = (False, s4)" "counted tc ip 4 ?d s4"
    using failure_in_window[OF assms(1) 3(2), of d] assms(4) by auto
  obtain s5 where 5: "record_failure tc e ip s4 = (True, s5)"
    "map_of s5 (lock_key ip) = Some (Bytes (to_rfc3339 tc (lock_start e + seconds 60)))"
    "map_of s5 (fails_key ip) = None" "map_of s5 (window_key ip) = None"
    using failure_in_window[OF assms(1) 4(2), of e] assms(4) by auto
  have "failures tc ip tks s = ([False, False, False, False, True], s5)"
    by (simp add: assms(3) 1(1) 2(1) 3(1) 4(1) 5(1))
  then show ?thesis using locked_out_iff[OF assms(1) 5(2)] 5(3,4) by blast
qed

definition at_time :: "int \<Rightarrow> ticks" where
  "at_time t = \<lparr>window_start = t, window_check = t, lock_start = t, lock_check = t\<rparr>"

lemma decimal_clock_ok: "clock_ok decimal_time"
  using decimal_time_ok show_int_utf8 by (simp add: clock_ok_def decimal_time_def)

lemma empty_clear: "throttle_clear ip []"
  by (simp add: throttle_clear_def)

theorem five_failures_lock_out_witness:
  "\<exists>s'. failures decimal_time ''127.0.0.1'' (replicate 5 (at_time 7)) []
      = ([False, False, False, False, True], s') \<and> is_locked_out decimal_time 60000000006 ''127.0.0.1'' s'"
  using five_failures_lock_out[OF decimal_clock_ok empty_clear, of "replicate 5 (at_time 7)"]
  by (fastforce simp: at_time_def eval_nat_numeral)

text \<open>The window is fixed, not sliding.  It starts with its first failure and ends sixty
  seconds later, so three failures at the end of one window and four at the start of the next,
  seven in a row with no time between them, are not locked out.\<close>

theorem seven_failures_unlocked:
  assumes "clock_ok tc" "throttle_clear ip s" "tks = [a, b, c, d, e, f, g, h]"
    and "\<forall>tk\<in>{b, c, d}. window_check tk < window_start a + seconds 60"
    and "window_start a + seconds 60 \<le> window_check e"
    and "\<forall>tk\<in>{f, g, h}. window_check tk < window_start e + seconds 60"
  shows "\<exists>s'. failures tc ip tks s = (replicate 8 False, s') \<and> (\<forall>now. \<not> is_locked_out tc now ip s')"
proof -
  let ?d = "window_start a + seconds 60" and ?e = "window_start e + seconds 60"
  obtain s1 where 1: "record_failure tc a ip s = (False, s1)" "counted tc ip 1 ?d s1"
    using first_failure[OF assms(1,2)] by blast
  obtain s2 where 2: "record_failure tc b ip s1 = (False, s2)" "counted tc ip 2 ?d s2"
    using failure_in_window[OF assms(1) 1(2), of b] assms(4) by (auto simp: numeral_2_eq_2)
  obtain s3 where 3: "record_failure tc c ip s2 = (False, s3)" "counted tc ip 3 ?d s3"
    using failure_in_window[OF assms(1) 2(2), of c] assms(4) by auto
  obtain s4 where 4: "record_failure tc d ip s3 = (False, s4)" "counted tc ip 4 ?d s4"
    using failure_in_window[OF assms(1) 3(2), of d] assms(4) by auto
  obtain s5 where 5: "record_failure tc e ip s4 = (False, s5)" "counted tc ip 1 ?e s5"
    using failure_after_window[OF assms(1) 4(2) assms(5)] by blast
  obtain s6 where 6: "record_failure tc f ip s5 = (False, s6)" "counted tc ip 2 ?e s6"
    using failure_in_window[OF assms(1) 5(2), of f] assms(6) by (auto simp: numeral_2_eq_2)
  obtain s7 where 7: "record_failure tc g ip s6 = (False, s7)" "counted tc ip 3 ?e s7"
    using failure_in_window[OF assms(1) 6(2), of g] assms(6) by auto
  obtain s8 where 8: "record_failure tc h ip s7 = (False, s8)" "counted tc ip 4 ?e s8"
    using failure_in_window[OF assms(1) 7(2), of h] assms(6) by auto
  have "failures tc ip tks s = (replicate 8 False, s8)"
    by (simp add: assms(3) 1(1) 2(1) 3(1) 4(1) 5(1) 6(1) 7(1) 8(1) eval_nat_numeral)
  then show ?thesis using not_locked 8(2) by (auto simp: counted_def)
qed

theorem seven_failures_unlocked_witness:
  "\<exists>s'. failures decimal_time ''127.0.0.1''
      (at_time 0 # replicate 3 (at_time 59999999999) @ replicate 4 (at_time 60000000000)) []
      = (replicate 8 False, s')"
  using seven_failures_unlocked[OF decimal_clock_ok empty_clear,
      of "at_time 0 # replicate 3 (at_time 59999999999) @ replicate 4 (at_time 60000000000)"]
  by (fastforce simp: at_time_def eval_nat_numeral)

end
