(* ===== verification/Journal.thy ===== *)
theory Journal
  imports Registry
begin

text \<open>The request journal (\<^theory_text>\<open>journal.rs\<close>): handled requests and callbacks numbered
  per group, unmatched requests numbered per host.

  The three logs share one shape, which the locale \<^theory_text>\<open>numbered_log\<close> states: records are
  found by their number, and a page is a walk down from the newest number.  The
  records are stored as JSON; serde's encoder and decoder are parameters, and
  \<^theory_text>\<open>codecs_ok\<close> is the round trip they promise.  The clock and the ULID generator are
  arguments.  Publishing on the local bus is the event in the result of a write; the
  Valkey fan-out is not modelled.\<close>

section \<open>Records\<close>

definition HANDLED_TTL_SECONDS :: nat where "HANDLED_TTL_SECONDS = 3600"
definition UNMATCHED_TTL_SECONDS :: nat where "UNMATCHED_TTL_SECONDS = 3600"
definition CALLBACK_TTL_SECONDS :: nat where "CALLBACK_TTL_SECONDS = 3600"
definition HANDLED_BODY_LIMIT :: nat where "HANDLED_BODY_LIMIT = 16 * 1024"
definition UNMATCHED_BODY_LIMIT :: nat where "UNMATCHED_BODY_LIMIT = 4 * 1024"
definition UNMATCHED_WINDOW_SCAN_CAP :: nat where "UNMATCHED_WINDOW_SCAN_CAP = 2000"
definition DEFAULT_LIMIT :: nat where "DEFAULT_LIMIT = 100"
definition MAX_LIMIT :: nat where "MAX_LIMIT = 100"

datatype journal_error = JStorage store_error | JNotFound | JMalformed string

type_synonym pairs = "(string \<times> string) list"

record request_envelope =
  rq_method :: string
  rq_path :: string
  rq_headers :: pairs
  rq_body :: bytes
  rq_body_truncated :: bool
  rq_original_body_size :: nat

record response_envelope =
  rs_status :: nat
  rs_headers :: pairs
  rs_body :: bytes
  rs_body_truncated :: bool
  rs_original_body_size :: nat

record handler_log_entry =
  hl_level :: string
  hl_message :: string
  hl_timestamp :: int

record resource_usage =
  fuel_consumed :: nat
  memory_peak_bytes :: nat
  wall_clock_ms :: nat

record new_journal_entry =
  ne_trace_id :: "string option"
  ne_group_id :: string
  ne_group_name :: string
  ne_route_id :: string
  ne_route_number :: nat
  ne_matched_pattern :: string
  ne_request :: request_envelope
  ne_response :: response_envelope
  ne_path_params :: pairs
  ne_query :: pairs
  ne_handler_logs :: "handler_log_entry list"
  ne_duration_ms :: nat
  ne_resources :: resource_usage
  ne_error :: "string option"
  ne_dropped_response_headers :: "string list"

record journal_record =
  jr_id :: string
  jr_number :: nat
  jr_trace_id :: "string option"
  jr_group_id :: string
  jr_group_name :: string
  jr_route_id :: string
  jr_route_number :: nat
  jr_matched_pattern :: string
  jr_request :: request_envelope
  jr_response :: response_envelope
  jr_path_params :: pairs
  jr_query :: pairs
  jr_handler_logs :: "handler_log_entry list"
  jr_duration_ms :: nat
  jr_resources :: resource_usage
  jr_error :: "string option"
  jr_dropped_response_headers :: "string list"
  jr_created_at :: int

datatype unmatched_near_miss_reason =
    UMethodMismatch "string list" string
  | UPrefixMatch nat string string

record unmatched_near_miss =
  um_route :: string
  um_route_path :: string
  um_route_methods :: "string list"
  um_reason :: unmatched_near_miss_reason

record new_unmatched_entry =
  nu_trace_id :: "string option"
  nu_group_id :: string
  nu_group_name :: string
  nu_request :: request_envelope
  nu_near_misses :: "unmatched_near_miss list"

record unmatched_record =
  ur_id :: string
  ur_number :: nat
  ur_group_id :: string
  ur_group_name :: string
  ur_trace_id :: "string option"
  ur_created_at :: int
  ur_request :: request_envelope
  ur_near_misses :: "unmatched_near_miss list"

datatype callback_outcome =
    Delivered nat
  | EgressDenied string "string list"
  | Failed string

record new_callback_entry =
  nc_trace_id :: "string option"
  nc_group_id :: string
  nc_group_name :: string
  nc_route_id :: string
  nc_route_number :: nat
  nc_url :: string
  nc_method :: string
  nc_request_headers :: pairs
  nc_request_body :: bytes
  nc_request_body_truncated :: bool
  nc_request_body_size :: nat
  nc_delay_ms :: nat
  nc_outcome :: callback_outcome
  nc_duration_ms :: nat

record callback_record =
  cr_id :: string
  cr_number :: nat
  cr_trace_id :: "string option"
  cr_group_id :: string
  cr_group_name :: string
  cr_route_id :: string
  cr_route_number :: nat
  cr_url :: string
  cr_method :: string
  cr_request_headers :: pairs
  cr_request_body :: bytes
  cr_request_body_truncated :: bool
  cr_request_body_size :: nat
  cr_delay_ms :: nat
  cr_outcome :: callback_outcome
  cr_duration_ms :: nat
  cr_created_at :: int

datatype journal_event = Handled journal_record | Unmatched unmatched_record

record list_cursor =
  cu_before :: "nat option"
  cu_limit :: nat

record unmatched_window_count =
  uw_count :: nat
  uw_saturated :: bool

definition truncate_body :: "bytes \<Rightarrow> nat \<Rightarrow> bytes \<times> nat \<times> bool" where
  "truncate_body body limit =
    (let original_size = length body in
     if original_size \<le> limit then (body, original_size, False)
     else (take limit body, original_size, True))"

text \<open>JSON encoding of one record type.\<close>

record 'r codec =
  encode :: "'r \<Rightarrow> bytes option"
  decode :: "bytes \<Rightarrow> 'r option"

definition codec_ok :: "'r codec \<Rightarrow> bool" where
  "codec_ok c \<longleftrightarrow> (\<forall>r b. encode c r = Some b \<longrightarrow> decode c b = Some r)"

section \<open>Reading and writing\<close>

type_synonym 'a jio = "(mem_store, journal_error, 'a) io"

abbreviation js :: "'a sio \<Rightarrow> 'a jio" where "js m \<equiv> map_err JStorage m"

definition journal_key :: "string \<Rightarrow> string \<Rightarrow> string" where
  "journal_key gid rid = ''journal:'' @ gid @ '':'' @ rid"
definition journal_number_key :: "string \<Rightarrow> nat \<Rightarrow> string" where
  "journal_number_key gid n = ''journal:by-number:'' @ gid @ '':'' @ show_nat n"
definition unmatched_key :: "string \<Rightarrow> string" where
  "unmatched_key rid = ''unmatched:'' @ rid"
definition unmatched_number_key :: "nat \<Rightarrow> string" where
  "unmatched_number_key n = ''unmatched:by-number:'' @ show_nat n"
definition callback_key :: "string \<Rightarrow> string \<Rightarrow> string" where
  "callback_key gid rid = ''callback:'' @ gid @ '':'' @ rid"
definition callback_number_key :: "string \<Rightarrow> nat \<Rightarrow> string" where
  "callback_number_key gid n = ''callback:by-number:'' @ gid @ '':'' @ show_nat n"

text \<open>\<^theory_text>\<open>as u64\<close> of an \<^theory_text>\<open>i64\<close>.\<close>

definition as_u64 :: "int \<Rightarrow> nat" where
  "as_u64 i = nat (i mod 2 ^ 64)"

definition or_missing :: "'a option \<Rightarrow> 'a jio" where
  "or_missing x = (case x of None \<Rightarrow> raise JNotFound | Some v \<Rightarrow> ret v)"

definition id_text :: "string \<Rightarrow> bytes \<Rightarrow> string jio" where
  "id_text what b = (if valid_utf8 b then ret b else raise (JMalformed what))"

definition decoded :: "'r codec \<Rightarrow> bytes \<Rightarrow> 'r jio" where
  "decoded c b = (case decode c b of None \<Rightarrow> raise (JMalformed ''decode'') | Some r \<Rightarrow> ret r)"

definition encoded :: "'r codec \<Rightarrow> 'r \<Rightarrow> bytes jio" where
  "encoded c r = (case encode c r of None \<Rightarrow> raise (JMalformed ''encode'') | Some b \<Rightarrow> ret b)"

definition read_by_id :: "journal_record codec \<Rightarrow> string \<Rightarrow> string \<Rightarrow> journal_record jio" where
  "read_by_id c gid rid =
    bind_io (js (bucket_get admin_bucket (journal_key gid rid))) (\<lambda>v.
    bind_io (or_missing v) (decoded c))"

definition get_via_bucket :: "journal_record codec \<Rightarrow> string \<Rightarrow> nat \<Rightarrow> journal_record jio" where
  "get_via_bucket c gid n =
    bind_io (js (bucket_get admin_bucket (journal_number_key gid n))) (\<lambda>v.
    bind_io (or_missing v) (\<lambda>b.
    bind_io (id_text ''journal:by-number value'' b) (read_by_id c gid)))"

definition journal_get :: "journal_record codec \<Rightarrow> string \<Rightarrow> nat \<Rightarrow> journal_record jio" where
  "journal_get c gid n =
    bind_io (js (bucket_get admin_bucket (journal_number_key gid n))) (\<lambda>v.
    bind_io (or_missing v) (\<lambda>b.
    bind_io (id_text ''journal:by-number value'' b) (read_by_id c gid)))"

definition read_unmatched_by_id :: "unmatched_record codec \<Rightarrow> string \<Rightarrow> unmatched_record jio" where
  "read_unmatched_by_id c rid =
    bind_io (js (bucket_get admin_bucket (unmatched_key rid))) (\<lambda>v.
    bind_io (or_missing v) (decoded c))"

definition get_unmatched_via_bucket :: "unmatched_record codec \<Rightarrow> nat \<Rightarrow> unmatched_record jio" where
  "get_unmatched_via_bucket c n =
    bind_io (js (bucket_get admin_bucket (unmatched_number_key n))) (\<lambda>v.
    bind_io (or_missing v) (\<lambda>b.
    bind_io (id_text ''unmatched:by-number value'' b) (read_unmatched_by_id c)))"

definition get_unmatched :: "unmatched_record codec \<Rightarrow> nat \<Rightarrow> unmatched_record jio" where
  "get_unmatched c n =
    bind_io (js (bucket_get admin_bucket (unmatched_number_key n))) (\<lambda>v.
    bind_io (or_missing v) (\<lambda>b.
    bind_io (id_text ''unmatched:by-number value'' b) (read_unmatched_by_id c)))"

definition get_callback_via_bucket :: "callback_record codec \<Rightarrow> string \<Rightarrow> nat \<Rightarrow> callback_record jio" where
  "get_callback_via_bucket c gid n =
    bind_io (js (bucket_get admin_bucket (callback_number_key gid n))) (\<lambda>v.
    bind_io (or_missing v) (\<lambda>b.
    bind_io (id_text ''callback:by-number value'' b) (\<lambda>rid.
    bind_io (js (bucket_get admin_bucket (callback_key gid rid))) (\<lambda>w.
    bind_io (or_missing w) (decoded c)))))"

definition get_callback :: "callback_record codec \<Rightarrow> string \<Rightarrow> nat \<Rightarrow> callback_record jio" where
  "get_callback c gid n = get_callback_via_bucket c gid n"

text \<open>The record that a handled request gets, before it is stored.\<close>

definition handled_record :: "new_journal_entry \<Rightarrow> string \<Rightarrow> nat \<Rightarrow> int \<Rightarrow> journal_record" where
  "handled_record e rid n now =
    \<lparr>jr_id = rid, jr_number = n, jr_trace_id = ne_trace_id e, jr_group_id = ne_group_id e,
     jr_group_name = ne_group_name e, jr_route_id = ne_route_id e,
     jr_route_number = ne_route_number e, jr_matched_pattern = ne_matched_pattern e,
     jr_request = ne_request e, jr_response = ne_response e, jr_path_params = ne_path_params e,
     jr_query = ne_query e, jr_handler_logs = ne_handler_logs e,
     jr_duration_ms = ne_duration_ms e, jr_resources = ne_resources e, jr_error = ne_error e,
     jr_dropped_response_headers = ne_dropped_response_headers e, jr_created_at = now\<rparr>"

definition record_handled ::
  "journal_record codec \<Rightarrow> string \<Rightarrow> int \<Rightarrow> new_journal_entry \<Rightarrow> (journal_record \<times> journal_event) jio" where
  "record_handled c new_id now entry =
    bind_io (js (bucket_hash_incr admin_bucket (counters_key (ne_group_id entry))
      ''next_journal_number'' 1)) (\<lambda>n.
    let r = handled_record entry new_id (as_u32 n) now in
    bind_io (encoded c r) (\<lambda>json.
    seq_io (js (bucket_set_with_ttl admin_bucket (journal_key (jr_group_id r) (jr_id r)) json
      HANDLED_TTL_SECONDS))
    (seq_io (js (bucket_set_with_ttl admin_bucket (journal_number_key (jr_group_id r) (jr_number r))
      (jr_id r) HANDLED_TTL_SECONDS))
    (ret (r, Handled r)))))"

definition unmatched_record_of :: "new_unmatched_entry \<Rightarrow> string \<Rightarrow> nat \<Rightarrow> int \<Rightarrow> unmatched_record" where
  "unmatched_record_of e rid n now =
    \<lparr>ur_id = rid, ur_number = n, ur_group_id = nu_group_id e, ur_group_name = nu_group_name e,
     ur_trace_id = nu_trace_id e, ur_created_at = now, ur_request = nu_request e,
     ur_near_misses = nu_near_misses e\<rparr>"

definition record_unmatched ::
  "unmatched_record codec \<Rightarrow> string \<Rightarrow> int \<Rightarrow> new_unmatched_entry
   \<Rightarrow> (unmatched_record \<times> journal_event) jio" where
  "record_unmatched c new_id now entry =
    bind_io (js (bucket_incr admin_bucket ''unmatched:counter'' 1)) (\<lambda>n.
    let r = unmatched_record_of entry new_id (as_u64 n) now in
    bind_io (encoded c r) (\<lambda>json.
    seq_io (js (bucket_set_with_ttl admin_bucket (unmatched_key (ur_id r)) json UNMATCHED_TTL_SECONDS))
    (seq_io (js (bucket_set admin_bucket (unmatched_number_key (ur_number r)) (ur_id r)))
    (ret (r, Unmatched r)))))"

definition callback_record_of :: "new_callback_entry \<Rightarrow> string \<Rightarrow> nat \<Rightarrow> int \<Rightarrow> callback_record" where
  "callback_record_of e rid n now =
    \<lparr>cr_id = rid, cr_number = n, cr_trace_id = nc_trace_id e, cr_group_id = nc_group_id e,
     cr_group_name = nc_group_name e, cr_route_id = nc_route_id e,
     cr_route_number = nc_route_number e, cr_url = nc_url e, cr_method = nc_method e,
     cr_request_headers = nc_request_headers e, cr_request_body = nc_request_body e,
     cr_request_body_truncated = nc_request_body_truncated e,
     cr_request_body_size = nc_request_body_size e, cr_delay_ms = nc_delay_ms e,
     cr_outcome = nc_outcome e, cr_duration_ms = nc_duration_ms e, cr_created_at = now\<rparr>"

definition record_callback ::
  "callback_record codec \<Rightarrow> string \<Rightarrow> int \<Rightarrow> new_callback_entry \<Rightarrow> callback_record jio" where
  "record_callback c new_id now entry =
    bind_io (js (bucket_hash_incr admin_bucket (counters_key (nc_group_id entry))
      ''next_callback_number'' 1)) (\<lambda>n.
    let r = callback_record_of entry new_id (as_u32 n) now in
    bind_io (encoded c r) (\<lambda>json.
    seq_io (js (bucket_set_with_ttl admin_bucket (callback_key (cr_group_id r) (cr_id r)) json
      CALLBACK_TTL_SECONDS))
    (seq_io (js (bucket_set admin_bucket (callback_number_key (cr_group_id r) (cr_number r)) (cr_id r)))
    (ret r))))"

section \<open>Listing\<close>

text \<open>The loop of the three listings: walk down from a number, skip what does not read and
  what is not visible, stop at the limit.\<close>

fun walk_down :: "(nat \<Rightarrow> 'r jio) \<Rightarrow> ('r \<Rightarrow> bool) \<Rightarrow> nat \<Rightarrow> nat \<Rightarrow> 'r list \<Rightarrow> 'r list jio" where
  "walk_down get visible limit 0 out s = (Inr out, s)"
| "walk_down get visible limit (Suc n) out s =
    (if length out < limit then (case get (Suc n) s of
        (Inr r, s') \<Rightarrow> walk_down get visible limit n (if visible r then out @ [r] else out) s'
      | (Inl e, s') \<Rightarrow> walk_down get visible limit n out s')
     else (Inr out, s))"

definition counter_u32 :: "bytes option \<Rightarrow> nat" where
  "counter_u32 v = (case v of None \<Rightarrow> 0
    | Some b \<Rightarrow> if valid_utf8 b then (case parse_u32 b of Some n \<Rightarrow> n | None \<Rightarrow> 0) else 0)"

definition counter_u64 :: "bytes option \<Rightarrow> nat" where
  "counter_u64 v = (case v of None \<Rightarrow> 0
    | Some b \<Rightarrow> if valid_utf8 b then (case parse_u64 b of Some n \<Rightarrow> n | None \<Rightarrow> 0) else 0)"

definition starting :: "nat option \<Rightarrow> nat \<Rightarrow> nat" where
  "starting before highest = (case before of Some b \<Rightarrow> b - 1 | None \<Rightarrow> highest)"

definition clamp :: "nat \<Rightarrow> nat \<Rightarrow> nat \<Rightarrow> nat" where
  "clamp lo hi n = max lo (min hi n)"

definition list_for_group ::
  "journal_record codec \<Rightarrow> string \<Rightarrow> list_cursor \<Rightarrow> journal_record list jio" where
  "list_for_group c gid cursor =
    bind_io (js (bucket_hash_get admin_bucket (counters_key gid) ''next_journal_number'')) (\<lambda>v.
    let start = starting (cu_before cursor) (counter_u32 v) in
    if start = 0 then ret []
    else walk_down (get_via_bucket c gid) (\<lambda>r. True) (clamp 1 MAX_LIMIT (cu_limit cursor)) start [])"

definition list_callbacks_for_group ::
  "callback_record codec \<Rightarrow> string \<Rightarrow> list_cursor \<Rightarrow> callback_record list jio" where
  "list_callbacks_for_group c gid cursor =
    bind_io (js (bucket_hash_get admin_bucket (counters_key gid) ''next_callback_number'')) (\<lambda>v.
    let start = starting (cu_before cursor) (counter_u32 v) in
    if start = 0 then ret []
    else walk_down (get_callback_via_bucket c gid) (\<lambda>r. True) (clamp 1 MAX_LIMIT (cu_limit cursor)) start [])"

definition group_visible :: "string set option \<Rightarrow> unmatched_record \<Rightarrow> bool" where
  "group_visible visible_groups r =
    (case visible_groups of None \<Rightarrow> True | Some groups \<Rightarrow> ur_group_id r \<in> groups)"

definition list_unmatched ::
  "unmatched_record codec \<Rightarrow> list_cursor \<Rightarrow> string set option \<Rightarrow> unmatched_record list jio" where
  "list_unmatched c cursor visible_groups =
    bind_io (js (bucket_get admin_bucket ''unmatched:counter'')) (\<lambda>v.
    let start = starting (cu_before cursor) (counter_u64 v) in
    if start = 0 then ret []
    else walk_down (get_unmatched_via_bucket c) (group_visible visible_groups)
      (clamp 1 MAX_LIMIT (cu_limit cursor)) start [])"

text \<open>The loop of \<^theory_text>\<open>count_unmatched_since\<close>; \<^theory_text>\<open>budget\<close> is what is left of the scan cap.\<close>

fun count_down :: "unmatched_record codec \<Rightarrow> string set option \<Rightarrow> int \<Rightarrow> nat \<Rightarrow> nat \<Rightarrow> nat
    \<Rightarrow> unmatched_window_count jio" where
  "count_down c visible cutoff 0 budget count s = (Inr \<lparr>uw_count = count, uw_saturated = False\<rparr>, s)"
| "count_down c visible cutoff (Suc n) 0 count s = (Inr \<lparr>uw_count = count, uw_saturated = True\<rparr>, s)"
| "count_down c visible cutoff (Suc n) (Suc budget) count s =
    (case get_unmatched_via_bucket c (Suc n) s of
       (Inr r, s') \<Rightarrow>
         if ur_created_at r < cutoff then (Inr \<lparr>uw_count = count, uw_saturated = False\<rparr>, s')
         else count_down c visible cutoff n budget (if group_visible visible r then count + 1 else count) s'
     | (Inl e, s') \<Rightarrow> count_down c visible cutoff n budget count s')"

definition count_unmatched_since ::
  "unmatched_record codec \<Rightarrow> int \<Rightarrow> int \<Rightarrow> string set option \<Rightarrow> unmatched_window_count jio" where
  "count_unmatched_since c now window visible_groups =
    bind_io (js (bucket_get admin_bucket ''unmatched:counter'')) (\<lambda>v.
      count_down c visible_groups (now - window) (counter_u64 v) UNMATCHED_WINDOW_SCAN_CAP 0)"

section \<open>The shape shared by the logs\<close>

text \<open>The readable records with number at most \<^theory_text>\<open>n\<close>, newest first.\<close>

fun readable :: "(nat \<Rightarrow> 'r jio) \<Rightarrow> mem_store \<Rightarrow> nat \<Rightarrow> 'r list" where
  "readable get s 0 = []"
| "readable get s (Suc n) = (case fst (get (Suc n) s) of
      Inr r \<Rightarrow> r # readable get s n | Inl e \<Rightarrow> readable get s n)"

definition numbered :: "(nat \<Rightarrow> 'r jio) \<Rightarrow> ('r \<Rightarrow> nat) \<Rightarrow> mem_store \<Rightarrow> nat \<Rightarrow> bool" where
  "numbered get number s n \<longleftrightarrow> (\<forall>k\<in>{1..n}. \<forall>r. fst (get k s) = Inr r \<longrightarrow> number r = k)"

lemma readable_cong:
  "(\<And>k. \<lbrakk>0 < k; k \<le> n\<rbrakk> \<Longrightarrow> fst (get k s) = fst (get k s')) \<Longrightarrow> readable get s n = readable get s' n"
  by (induction n) (simp_all split: sum.split)

lemma readable_numbers:
  assumes "numbered get number s n" "r \<in> set (readable get s n)"
  shows "0 < number r \<and> number r \<le> n"
  using assms
proof (induction n)
  case (Suc n)
  have "numbered get number s n" using Suc.prems(1) by (simp add: numbered_def)
  moreover have "number x = Suc n" if "fst (get (Suc n) s) = Inr x" for x
    using Suc.prems(1) that by (simp add: numbered_def)
  ultimately show ?case using Suc.IH Suc.prems(2) by (fastforce split: sum.splits)
qed simp

lemma readable_rest:
  assumes "numbered get number s n" "readable get s n = page @ rest" "page \<noteq> []"
  shows "rest = readable get s (number (last page) - 1)"
  using assms
proof (induction n arbitrary: page)
  case (Suc n)
  have num: "numbered get number s n" using Suc.prems(1) by (simp add: numbered_def)
  show ?case
  proof (cases "fst (get (Suc n) s)")
    case (Inl e)
    then show ?thesis using Suc.IH[OF num] Suc.prems(2,3) by simp
  next
    case (Inr r)
    then have n: "number r = Suc n" using Suc.prems(1) by (simp add: numbered_def)
    obtain p where p: "page = r # p" "readable get s n = p @ rest"
      using Suc.prems(2,3) Inr by (cases page) simp_all
    show ?thesis using Suc.IH[OF num p(2)] p n by (cases "p = []") simp_all
  qed
qed simp

text \<open>What a listing relies on: looking a record up by its number does not change the
  store.\<close>

locale numbered_log =
  fixes get :: "nat \<Rightarrow> 'r jio"
  assumes get_reads: "snd (get n s) = s"
begin

lemma walk_down_spec:
  "walk_down get visible limit n out s =
     (Inr (out @ take (limit - length out) (filter visible (readable get s n))), s)"
proof (induction n arbitrary: out)
  case (Suc n)
  obtain x where g: "get (Suc n) s = (x, s)" using get_reads by (metis surjective_pairing)
  show ?case
  proof (cases "length out < limit")
    case True
    then obtain k where k: "limit - length out = Suc k" by (metis Suc_diff_Suc)
    then have "limit - length (out @ [r]) = k" for r by simp
    then show ?thesis using Suc True g k by (cases x) simp_all
  qed simp
qed simp

lemma next_page:
  assumes "numbered get number s n" and "page = take limit (readable get s n)" "page \<noteq> []"
  shows "readable get s (number (last page) - 1) = drop limit (readable get s n)"
  using readable_rest[OF assms(1) _ assms(3), of "drop limit (readable get s n)"] assms(2) by simp

end

named_theorems journal_simps "unfolding of the lookups by number"

declare or_missing_def [journal_simps] id_text_def [journal_simps] decoded_def [journal_simps]
  admin_get [journal_simps]

lemma read_by_id_reads: "snd (read_by_id c gid rid s) = s"
  by (auto simp: read_by_id_def io_simps journal_simps split: option.splits sum.splits)

lemma read_unmatched_by_id_reads: "snd (read_unmatched_by_id c rid s) = s"
  by (auto simp: read_unmatched_by_id_def io_simps journal_simps split: option.splits sum.splits)

interpretation handled_log: numbered_log "get_via_bucket c gid" for c gid
proof
  show "snd (get_via_bucket c gid n s) = s" for n s
    by (auto simp: get_via_bucket_def io_simps journal_simps read_by_id_reads
        split: option.splits sum.splits)
qed

interpretation unmatched_log: numbered_log "get_unmatched_via_bucket c" for c
proof
  show "snd (get_unmatched_via_bucket c n s) = s" for n s
    by (auto simp: get_unmatched_via_bucket_def io_simps journal_simps read_unmatched_by_id_reads
        split: option.splits sum.splits)
qed

interpretation callback_log: numbered_log "get_callback_via_bucket c gid" for c gid
proof
  show "snd (get_callback_via_bucket c gid n s) = s" for n s
    by (auto simp: get_callback_via_bucket_def io_simps journal_simps split: option.splits sum.splits)
qed

section \<open>What the listings return\<close>

text \<open>The number last given out for a group's log, when the counter is as the program
  writes it.\<close>

definition counter_at :: "mem_store \<Rightarrow> string \<Rightarrow> string \<Rightarrow> nat option" where
  "counter_at s gid field = (case hash_at s (counters_key gid) of
      None \<Rightarrow> None
    | Some h \<Rightarrow> (case map_of h field of
        None \<Rightarrow> Some 0
      | Some b \<Rightarrow> (case parse_u32 b of
          Some n \<Rightarrow> if b = show_nat n then Some n else None
        | None \<Rightarrow> None)))"

lemma counter_at_Some:
  assumes "counter_at s gid field = Some n"
  obtains h where "hash_at s (counters_key gid) = Some h" "counter_u32 (map_of h field) = n"
    "n \<le> u32_max" "map_of h field = None \<and> n = 0 \<or> map_of h field = Some (show_nat n)"
proof -
  obtain h where h: "hash_at s (counters_key gid) = Some h"
    using assms by (auto simp: counter_at_def split: option.splits)
  have "parse_u32 b = Some n \<Longrightarrow> n \<le> u32_max" for b n
    by (auto simp: parse_u32_def parse_unsigned_def bind_eq_Some_conv split: list.splits if_splits)
  then show thesis using assms h that[of h]
    by (auto simp: counter_at_def counter_u32_def split: option.splits if_splits)
qed

lemma list_for_group_spec:
  assumes "counter_at s gid ''next_journal_number'' = Some h"
  shows "list_for_group c gid cur s =
    (Inr (take (clamp 1 MAX_LIMIT (cu_limit cur))
       (readable (get_via_bucket c gid) s (starting (cu_before cur) h))), s)"
  by (rule counter_at_Some[OF assms])
    (cases "starting (cu_before cur) h = 0";
      simp add: list_for_group_def io_simps Let_def admin_hash_get handled_log.walk_down_spec del: walk_down.simps)

lemma list_callbacks_spec:
  assumes "counter_at s gid ''next_callback_number'' = Some h"
  shows "list_callbacks_for_group c gid cur s =
    (Inr (take (clamp 1 MAX_LIMIT (cu_limit cur))
       (readable (get_callback_via_bucket c gid) s (starting (cu_before cur) h))), s)"
  by (rule counter_at_Some[OF assms])
    (cases "starting (cu_before cur) h = 0";
      simp add: list_callbacks_for_group_def io_simps Let_def admin_hash_get callback_log.walk_down_spec del: walk_down.simps)

text \<open>Paging through a group's journal misses nothing and repeats nothing.  The first page
  is the newest records, at most a hundred; asking again with the number of its last record
  as the cursor gives exactly the records that follow.  Gaps left by expired records do not
  end a page.\<close>

theorem list_for_group_pages:
  assumes "counter_at s gid ''next_journal_number'' = Some h"
    and "numbered (get_via_bucket c gid) jr_number s h"
    and "list_for_group c gid \<lparr>cu_before = None, cu_limit = l\<rparr> s = (Inr page, s')" "page \<noteq> []"
  shows "s' = s \<and> length page \<le> 100 \<and>
    (\<exists>next. list_for_group c gid \<lparr>cu_before = Some (jr_number (last page)), cu_limit = l\<rparr> s = (Inr next, s)
      \<and> page @ next = take (2 * clamp 1 100 l) (readable (get_via_bucket c gid) s h))"
proof -
  let ?all = "readable (get_via_bucket c gid) s h" and ?k = "clamp 1 100 l"
  have p: "page = take ?k ?all" "s' = s"
    using assms(3) by (auto simp: list_for_group_spec[OF assms(1)] starting_def MAX_LIMIT_def)
  have "list_for_group c gid \<lparr>cu_before = Some (jr_number (last page)), cu_limit = l\<rparr> s
      = (Inr (take ?k (drop ?k ?all)), s)"
    using handled_log.next_page[OF assms(2) p(1) assms(4)]
    by (simp add: list_for_group_spec[OF assms(1)] starting_def MAX_LIMIT_def)
  moreover have "page @ take ?k (drop ?k ?all) = take (2 * ?k) ?all"
    by (simp add: p(1) mult_2 take_add)
  moreover have "length page \<le> 100" by (simp add: p(1) clamp_def)
  ultimately show ?thesis using p(2) by blast
qed

text \<open>Keys of the journal are told apart by the group and by the fixed words in them.\<close>

lemma journal_keys_differ:
  assumes "ulid_text gid"
  shows "journal_key gid rid \<noteq> journal_number_key gid n"
    "journal_key gid rid \<noteq> counters_key gid" "journal_number_key gid n \<noteq> counters_key gid"
proof -
  have "gid \<noteq> ''by-number''" using ulid_not_word[OF assms] by simp
  then have "gid @ '':'' @ rid \<noteq> ''by-number:'' @ gid @ '':'' @ show_nat n"
    using split_on_append[of "CHR '':''" gid rid]
      split_on_append[of "CHR '':''" "''by-number''" "gid @ '':'' @ show_nat n"] ulid_no_colon[OF assms]
    by (auto dest!: arg_cong[of _ _ "split_on (CHR '':'')"])
  then show "journal_key gid rid \<noteq> journal_number_key gid n"
    by (simp add: journal_key_def journal_number_key_def)
qed (simp_all add: journal_key_def journal_number_key_def counters_key_def)

lemma journal_key_inj [simp]: "journal_key gid a = journal_key gid b \<longleftrightarrow> a = b"
  by (simp add: journal_key_def)

lemma journal_number_key_inj [simp]: "journal_number_key gid m = journal_number_key gid n \<longleftrightarrow> m = n"
  by (auto simp: journal_number_key_def dest: show_nat_inj)

text \<open>A lookup that finds a record goes through the cell of its id.\<close>

lemma get_via_bucket_fst:
  "fst (get_via_bucket c gid n s) = (case bytes_at s (journal_number_key gid n) of
      None \<Rightarrow> Inl (JStorage (WrongType (journal_number_key gid n)
        (value_kind (the (map_of s (journal_number_key gid n)))) ''bytes''))
    | Some None \<Rightarrow> Inl JNotFound
    | Some (Some i) \<Rightarrow> if \<not> valid_utf8 i then Inl (JMalformed ''journal:by-number value'')
        else fst (read_by_id c gid i s))"
  by (auto simp: get_via_bucket_def io_simps journal_simps split: option.splits sum.splits prod.splits)

lemma read_by_id_cong:
  "map_of s (journal_key gid i) = map_of s' (journal_key gid i) \<Longrightarrow>
     fst (read_by_id c gid i s) = fst (read_by_id c gid i s')"
  by (auto simp: read_by_id_def io_simps journal_simps bytes_at_def split: option.splits sum.splits mem_value.splits)

text \<open>The index entries of a group never point at an id that has no record: the state in
  which a fresh id is fresh.\<close>

definition id_unused :: "mem_store \<Rightarrow> string \<Rightarrow> string \<Rightarrow> nat \<Rightarrow> bool" where
  "id_unused s gid i n \<longleftrightarrow> map_of s (journal_key gid i) = None
     \<and> (\<forall>k\<in>{1..n}. bytes_at s (journal_number_key gid k) \<noteq> Some (Some i))"

text \<open>Concrete instances: one request recorded twice, with the encoder that knows the records
  of the example.\<close>

definition table_codec :: "'r list \<Rightarrow> 'r codec" where
  "table_codec rs = \<lparr>encode = (\<lambda>r. map_of (zip rs (map show_nat [0..<length rs])) r),
     decode = (\<lambda>b. map_of (zip (map show_nat [0..<length rs]) rs) b)\<rparr>"

lemma table_codec_ok: "distinct rs \<Longrightarrow> codec_ok (table_codec rs)"
proof -
  assume d: "distinct rs"
  let ?ks = "map show_nat [0..<length rs]"
  have ks: "distinct ?ks" by (simp add: distinct_map inj_on_def show_nat_inj)
  have "map_of (zip ?ks rs) b = Some r" if "map_of (zip rs ?ks) r = Some b" for r b
  proof -
    have "(r, b) \<in> set (zip rs ?ks)" by (rule map_of_SomeD[OF that])
    then have "(b, r) \<in> set (zip ?ks rs)" by (auto simp: set_zip)
    then show ?thesis using ks by simp
  qed
  then show ?thesis by (simp add: codec_ok_def table_codec_def)
qed

definition demo_request :: request_envelope where
  "demo_request = \<lparr>rq_method = ''GET'', rq_path = ''/v1/ping'', rq_headers = [], rq_body = [],
     rq_body_truncated = False, rq_original_body_size = 0\<rparr>"

definition demo_entry :: new_journal_entry where
  "demo_entry = \<lparr>ne_trace_id = None, ne_group_id = ulid_a, ne_group_name = ''demo'',
     ne_route_id = ulid_b, ne_route_number = 1, ne_matched_pattern = ''/v1/ping'',
     ne_request = demo_request,
     ne_response = \<lparr>rs_status = 200, rs_headers = [], rs_body = ''pong'', rs_body_truncated = False,
       rs_original_body_size = 4\<rparr>,
     ne_path_params = [], ne_query = [], ne_handler_logs = [], ne_duration_ms = 1,
     ne_resources = \<lparr>fuel_consumed = 0, memory_peak_bytes = 0, wall_clock_ms = 1\<rparr>,
     ne_error = None, ne_dropped_response_headers = []\<rparr>"

definition demo_handled :: "nat \<Rightarrow> journal_record" where
  "demo_handled n =
     handled_record demo_entry (if n = 1 then ulid_a else if n = 2 then ulid_b else ulid_c) n (int n)"

definition demo_codec :: "journal_record codec" where
  "demo_codec = table_codec [demo_handled 1, demo_handled 2, demo_handled 3]"

definition demo_journal :: mem_store where
  "demo_journal =
    [(counters_key ulid_a, Hash [(''next_journal_number'', ''2'')]),
     (journal_key ulid_a ulid_a, Bytes ''0''), (journal_number_key ulid_a 1, Bytes ulid_a),
     (journal_key ulid_a ulid_b, Bytes ''1''), (journal_number_key ulid_a 2, Bytes ulid_b)]"

lemma demo_handled_inj [simp]: "demo_handled m = demo_handled n \<longleftrightarrow> m = n"
proof
  show "demo_handled m = demo_handled n \<Longrightarrow> m = n"
    by (drule arg_cong[of _ _ jr_number]) (simp add: demo_handled_def handled_record_def)
qed simp

lemma demo_codec_ok: "codec_ok demo_codec"
  unfolding demo_codec_def by (rule table_codec_ok) simp

lemma demo_digits:
  "show_nat 0 = ''0''" "show_nat (Suc 0) = ''1''" "show_nat 2 = ''2''" "show_nat (Suc (Suc 0)) = ''2''"
  "show_nat 3 = ''3''"
proof -
  show "show_nat 2 = ''2''" by code_simp
  then show "show_nat (Suc (Suc 0)) = ''2''" by (simp add: numeral_2_eq_2)
qed code_simp+

lemma demo_codec_run:
  "decode demo_codec ''0'' = Some (demo_handled 1)" "decode demo_codec ''1'' = Some (demo_handled 2)"
  "encode demo_codec (demo_handled 3) = Some ''2''"
  by (simp_all add: demo_codec_def table_codec_def demo_digits upt_rec)

lemma demo_ulids:
  "ulid_text ulid_a" "valid_utf8 ulid_a" "valid_utf8 ulid_b" "valid_utf8 ulid_c"
  "ulid_a \<noteq> ulid_b" "ulid_b \<noteq> ulid_a" "ulid_c \<noteq> ulid_a" "ulid_c \<noteq> ulid_b" "ulid_a \<noteq> ulid_c" "ulid_b \<noteq> ulid_c"
proof -
  show "ulid_a \<noteq> ulid_b" "ulid_b \<noteq> ulid_a" "ulid_c \<noteq> ulid_a" "ulid_c \<noteq> ulid_b" "ulid_a \<noteq> ulid_c" "ulid_b \<noteq> ulid_c"
    by (simp_all add: ulid_a_def ulid_b_def ulid_c_def)
qed code_simp+

lemma up_to_two: "{1..2} = {Suc 0, Suc (Suc 0)}"
  by auto

lemma parse_two: "parse_u32 ''2'' = Some 2" "parse_u64 ''2'' = Some 2"
  using parse_u32_show[of 2] parse_u64_show[of 2] by (simp_all add: demo_digits u32_max_def u64_max_def)

lemma demo_counter: "counter_at demo_journal ulid_a ''next_journal_number'' = Some 2"
  by (simp add: counter_at_def demo_journal_def hash_at_def parse_two demo_digits)

lemma demo_keys_differ:
  "journal_key ulid_a i \<noteq> journal_number_key ulid_a n" "journal_number_key ulid_a n \<noteq> journal_key ulid_a i"
  "journal_key ulid_a i \<noteq> counters_key ulid_a" "journal_number_key ulid_a n \<noteq> counters_key ulid_a"
  "counters_key ulid_a \<noteq> journal_key ulid_a i" "counters_key ulid_a \<noteq> journal_number_key ulid_a n"
  using journal_keys_differ[OF demo_ulids(1)] by metis+

lemma demo_lookup_fst:
  "fst (get_via_bucket demo_codec ulid_a (Suc 0) demo_journal) = Inr (demo_handled 1)"
  "fst (get_via_bucket demo_codec ulid_a (Suc (Suc 0)) demo_journal) = Inr (demo_handled 2)"
  by (simp_all add: get_via_bucket_fst read_by_id_def io_simps journal_simps bytes_at_def
      demo_journal_def demo_keys_differ demo_ulids demo_codec_run)

lemma demo_readable:
  "readable (get_via_bucket demo_codec ulid_a) demo_journal 2 = [demo_handled 2, demo_handled 1]"
  by (simp add: numeral_2_eq_2 demo_lookup_fst)

lemma demo_numbered: "numbered (get_via_bucket demo_codec ulid_a) jr_number demo_journal 2"
  unfolding numbered_def up_to_two by (simp add: demo_lookup_fst demo_handled_def handled_record_def)

theorem list_for_group_pages_witness:
  "\<exists>next. list_for_group demo_codec ulid_a \<lparr>cu_before = Some 2, cu_limit = 1\<rparr> demo_journal = (Inr next, demo_journal)
     \<and> demo_handled 2 # next = [demo_handled 2, demo_handled 1]"
proof -
  have run: "list_for_group demo_codec ulid_a \<lparr>cu_before = None, cu_limit = 1\<rparr> demo_journal
      = (Inr [demo_handled 2], demo_journal)"
    by (simp add: list_for_group_spec[OF demo_counter] starting_def clamp_def MAX_LIMIT_def demo_readable)
  have two: "jr_number (demo_handled 2) = 2" "2 * clamp 1 100 1 = 2"
    by (simp_all add: demo_handled_def handled_record_def clamp_def)
  show ?thesis
    using list_for_group_pages[OF demo_counter demo_numbered run] two demo_readable by auto
qed

text \<open>C21: A recorded request is the newest entry of its group's journal.  It gets the next
  number, reads back by it, the earlier entries are unchanged, and it is announced.\<close>

theorem record_handled_is_newest:
  assumes "codec_ok c" "ulid_text (ne_group_id e)" "valid_utf8 i"
    and "counter_at s (ne_group_id e) ''next_journal_number'' = Some h" "h < u32_max"
    and "id_unused s (ne_group_id e) i h"
    and "record_handled c i now e s = (Inr (r, ev), s')"
  shows "jr_number r = h + 1 \<and> ev = Handled r
    \<and> counter_at s' (ne_group_id e) ''next_journal_number'' = Some (h + 1)
    \<and> journal_get c (ne_group_id e) (h + 1) s' = (Inr r, s')
    \<and> readable (get_via_bucket c (ne_group_id e)) s' (h + 1)
        = r # readable (get_via_bucket c (ne_group_id e)) s h"
proof -
  let ?g = "ne_group_id e" and ?rec = "handled_record e i (h + 1) now"
  obtain hs where hs: "hash_at s (counters_key ?g) = Some hs"
    "map_of hs ''next_journal_number'' = None \<and> h = 0 \<or> map_of hs ''next_journal_number'' = Some (show_nat h)"
    by (rule counter_at_Some[OF assms(4)]) blast
  have i64: "in_i64 (int h)" "in_i64 (int h + 1)"
    using assms(5) by (auto simp: in_i64_def i64_min_def i64_max_def u32_max_def)
  have incr: "bucket_hash_incr admin_bucket (counters_key ?g) ''next_journal_number'' 1 s =
      (Inr (int h + 1), AList.update (counters_key ?g)
        (Hash (AList.update ''next_journal_number'' (show_int (int h + 1)) hs)) s)"
    using hs i64 parse_i64_show[OF i64(1)] by (auto simp: admin_hash_incr_Inr show_int_def)
  have u32: "as_u32 (int h + 1) = h + 1"
    using assms(5) by (simp add: as_u32_def u32_max_def nat_add_distrib)
  obtain json where json: "encode c ?rec = Some json"
    using assms(7) by (auto simp: record_handled_def io_simps incr u32 Let_def encoded_def
      split: option.splits)
  let ?s = "AList.update (journal_number_key ?g (h + 1)) (Bytes i)
    (AList.update (journal_key ?g i) (Bytes json)
      (AList.update (counters_key ?g)
        (Hash (AList.update ''next_journal_number'' (show_int (int h + 1)) hs)) s))"
  have run: "record_handled c i now e s = (Inr (?rec, Handled ?rec), ?s)"
    using json by (simp add: record_handled_def io_simps incr u32 Let_def encoded_def
      bucket_set_with_ttl_def admin_set handled_record_def)
  have r: "r = ?rec" "ev = Handled ?rec" "s' = ?s" using assms(7) unfolding run by auto
  note ne = journal_keys_differ[OF assms(2)]
  have dec: "decode c json = Some ?rec" using assms(1) json by (simp add: codec_ok_def)
  have new: "fst (get_via_bucket c ?g (h + 1) s') = Inr ?rec"
    by (simp add: get_via_bucket_fst read_by_id_def io_simps journal_simps bytes_at_def r(3) ne
        assms(3) dec)
  have old: "fst (get_via_bucket c ?g k s') = fst (get_via_bucket c ?g k s)"
    if k: "0 < k" "k \<le> h" for k
  proof -
    have "map_of s' (journal_number_key ?g k) = map_of s (journal_number_key ?g k)"
      using k ne ne(1)[of i k, symmetric] by (simp add: r(3))
    then have "bytes_at s' (journal_number_key ?g k) = bytes_at s (journal_number_key ?g k)"
      "map_of s' (journal_number_key ?g k) = map_of s (journal_number_key ?g k)"
      by (simp_all add: bytes_at_def)
    moreover have "fst (read_by_id c ?g j s') = fst (read_by_id c ?g j s)"
      if "bytes_at s (journal_number_key ?g k) = Some (Some j)" for j
    proof (rule read_by_id_cong)
      have "j \<noteq> i" using that k assms(6) by (auto simp: id_unused_def)
      then show "map_of s' (journal_key ?g j) = map_of s (journal_key ?g j)"
        by (simp add: r(3) ne)
    qed
    ultimately show ?thesis by (auto simp: get_via_bucket_fst split: option.splits)
  qed
  have rest: "readable (get_via_bucket c ?g) s' h = readable (get_via_bucket c ?g) s h"
    by (rule readable_cong) (rule old)
  have get: "journal_get c ?g (h + 1) s' = (Inr ?rec, s')"
    using new handled_log.get_reads[of c ?g "h + 1" s']
    by (simp add: journal_get_def get_via_bucket_def prod_eq_iff)
  have cnt: "counter_at s' ?g ''next_journal_number'' = Some (h + 1)"
    using assms(5) ne(2)[of i, symmetric] ne(3)[of "h + 1", symmetric]
    by (simp add: counter_at_def hash_at_def r(3) show_int_def nat_add_distrib
        parse_u32_show)
  show ?thesis using get cnt new rest by (simp add: r(1,2) handled_record_def)
qed

lemma demo_id_unused: "id_unused demo_journal ulid_a ulid_c 2"
  unfolding id_unused_def up_to_two
  by (simp add: bytes_at_def demo_journal_def demo_keys_differ demo_ulids)

lemma demo_third: "handled_record demo_entry ulid_c 3 3 = demo_handled 3"
  by (simp add: demo_handled_def)

theorem record_handled_is_newest_witness:
  "\<exists>r s'. record_handled demo_codec ulid_c 3 demo_entry demo_journal = (Inr (r, Handled r), s')
     \<and> readable (get_via_bucket demo_codec ulid_a) s' 3 = [r, demo_handled 2, demo_handled 1]"
proof -
  have g: "ne_group_id demo_entry = ulid_a" by (simp add: demo_entry_def)
  have "bucket_hash_incr admin_bucket (counters_key ulid_a) ''next_journal_number'' 1 demo_journal
      = (Inr 3, AList.update (counters_key ulid_a) (Hash [(''next_journal_number'', ''3'')]) demo_journal)"
    using parse_i64_show[of 2]
    by (simp add: admin_hash_incr_Inr demo_journal_def hash_at_def show_int_def demo_digits in_i64_def
        i64_min_def i64_max_def)
  then obtain r ev s' where run:
    "record_handled demo_codec ulid_c 3 demo_entry demo_journal = (Inr (r, ev), s')"
    by (simp add: record_handled_def io_simps g as_u32_def Let_def demo_third encoded_def demo_codec_run
        bucket_set_with_ttl_def admin_set)
  have "2 < u32_max" by (simp add: u32_max_def)
  then show ?thesis
    using record_handled_is_newest[of demo_codec demo_entry ulid_c demo_journal 2 3 r ev s'] run g
      demo_codec_ok demo_ulids demo_counter demo_id_unused demo_readable by auto
qed

section \<open>Counting recent unmatched requests\<close>

text \<open>The unmatched records a window covers, newest first.\<close>

definition in_window :: "string set option \<Rightarrow> int \<Rightarrow> unmatched_record \<Rightarrow> bool" where
  "in_window visible cutoff r \<longleftrightarrow> cutoff \<le> ur_created_at r \<and> group_visible visible r"

text \<open>Later numbers were recorded later.\<close>

definition in_time_order :: "unmatched_record list \<Rightarrow> bool" where
  "in_time_order rs = sorted_wrt (\<lambda>a b. ur_created_at b \<le> ur_created_at a) rs"

lemma none_in_window:
  "\<lbrakk>in_time_order (r # rs); ur_created_at r < cutoff\<rbrakk> \<Longrightarrow> filter (in_window visible cutoff) rs = []"
  by (auto simp: in_time_order_def in_window_def filter_empty_conv)

abbreviation window_count :: "unmatched_record codec \<Rightarrow> string set option \<Rightarrow> int \<Rightarrow> mem_store \<Rightarrow> nat \<Rightarrow> nat" where
  "window_count c visible cutoff s n \<equiv>
     length (filter (in_window visible cutoff) (readable (get_unmatched_via_bucket c) s n))"

lemma count_down_spec:
  assumes "in_time_order (readable (get_unmatched_via_bucket c) s n)"
  shows "\<exists>w. count_down c visible cutoff n budget count s = (Inr w, s) \<and> (uw_saturated w \<longrightarrow> budget < n)
    \<and> uw_count w + (if uw_saturated w then window_count c visible cutoff s (n - budget) else 0)
        = count + window_count c visible cutoff s n"
  using assms
proof (induction n arbitrary: budget count)
  case (Suc n)
  show ?case
  proof (cases budget)
    case b: (Suc b)
    obtain x where g: "get_unmatched_via_bucket c (Suc n) s = (x, s)"
      using unmatched_log.get_reads by (metis surjective_pairing)
    show ?thesis
    proof (cases x)
      case (Inl e)
      then show ?thesis using Suc.IH[of b count] Suc.prems g unfolding b by (simp split del: if_split cong: if_cong)
    next
      case (Inr r)
      have prems: "in_time_order (r # readable (get_unmatched_via_bucket c) s n)"
        "in_time_order (readable (get_unmatched_via_bucket c) s n)"
        using Suc.prems Inr g by (simp_all add: in_time_order_def)
      show ?thesis
      proof (cases "ur_created_at r < cutoff")
        case True
        moreover have "\<not> in_window visible cutoff r" using True by (simp add: in_window_def)
        ultimately show ?thesis using none_in_window[OF prems(1) True, of visible] b g Inr by simp
      next
        case False
        then show ?thesis
          using Suc.IH[OF prems(2), of b "if group_visible visible r then count + 1 else count"] b g Inr
          by (auto simp: in_window_def split: if_splits)
      qed
    qed
  qed simp
qed simp

text \<open>The count of recent unmatched requests never counts too many, and says so when it
  counts too few.  Unless it is flagged as saturated it is the number of stored, visible
  records inside the window; a saturated count leaves out exactly those numbered below the
  last two thousand.\<close>

theorem count_unmatched_since_exact:
  assumes "bytes_at s ''unmatched:counter'' = Some v" "counter_u64 v = h"
    and "in_time_order (readable (get_unmatched_via_bucket c) s h)"
  shows "\<exists>w. count_unmatched_since c now window visible s = (Inr w, s)
    \<and> (uw_saturated w \<longrightarrow> 2000 < h)
    \<and> uw_count w = (if uw_saturated w
        then window_count c visible (now - window) s h - window_count c visible (now - window) s (h - 2000)
        else window_count c visible (now - window) s h)"
proof -
  obtain w where w: "count_down c visible (now - window) h UNMATCHED_WINDOW_SCAN_CAP 0 s = (Inr w, s)"
    "uw_saturated w \<longrightarrow> UNMATCHED_WINDOW_SCAN_CAP < h"
    "uw_count w + (if uw_saturated w then
         window_count c visible (now - window) s (h - UNMATCHED_WINDOW_SCAN_CAP) else 0)
       = 0 + window_count c visible (now - window) s h"
    using count_down_spec[OF assms(3)] by blast
  have "count_unmatched_since c now window visible s = (Inr w, s)"
    using w(1) assms(1,2)
    by (simp add: count_unmatched_since_def io_simps admin_get del: count_down.simps)
  then show ?thesis using w(2,3) by (auto simp: UNMATCHED_WINDOW_SCAN_CAP_def split: if_splits)
qed

definition demo_unmatched :: "nat \<Rightarrow> unmatched_record" where
  "demo_unmatched n = \<lparr>ur_id = show_nat n, ur_number = n, ur_group_id = ulid_a, ur_group_name = ''demo'',
     ur_trace_id = None, ur_created_at = 10 * int n, ur_request = demo_request, ur_near_misses = []\<rparr>"

definition demo_unmatched_codec :: "unmatched_record codec" where
  "demo_unmatched_codec = \<lparr>encode = (\<lambda>r. if r = demo_unmatched (ur_number r) then Some (show_nat (ur_number r)) else None),
     decode = (\<lambda>b. map_option demo_unmatched (parse_digits b))\<rparr>"

definition demo_unmatched_store :: mem_store where
  "demo_unmatched_store =
    [(''unmatched:counter'', Bytes ''2''),
     (''unmatched:1'', Bytes ''1''), (''unmatched:by-number:1'', Bytes ''1''),
     (''unmatched:2'', Bytes ''2''), (''unmatched:by-number:2'', Bytes ''2'')]"

lemma demo_unmatched_readable:
  "readable (get_unmatched_via_bucket demo_unmatched_codec) demo_unmatched_store 2
     = [demo_unmatched 2, demo_unmatched 1]"
proof -
  have "parse_digits ''1'' = Some 1" "parse_digits ''2'' = Some 2" "valid_utf8 ''1''" "valid_utf8 ''2''"
    by code_simp+
  then show ?thesis
    by (simp add: numeral_2_eq_2 get_unmatched_via_bucket_def read_unmatched_by_id_def io_simps
        journal_simps bytes_at_def demo_unmatched_store_def unmatched_number_key_def unmatched_key_def
        demo_digits demo_unmatched_codec_def)
qed

theorem count_unmatched_since_exact_witness:
  "\<exists>w. count_unmatched_since demo_unmatched_codec 25 10 None demo_unmatched_store = (Inr w, demo_unmatched_store)
     \<and> \<not> uw_saturated w \<and> uw_count w = 1"
proof -
  have v: "bytes_at demo_unmatched_store ''unmatched:counter'' = Some (Some ''2'')" "counter_u64 (Some ''2'') = 2"
    by (simp_all add: bytes_at_def demo_unmatched_store_def counter_u64_def parse_two)
      (simp add: valid_utf8_def utf8_pending_def)
  have o: "in_time_order (readable (get_unmatched_via_bucket demo_unmatched_codec) demo_unmatched_store 2)"
    by (simp add: demo_unmatched_readable in_time_order_def demo_unmatched_def)
  have "window_count demo_unmatched_codec None (25 - 10) demo_unmatched_store 2 = 1"
    by (simp add: demo_unmatched_readable in_window_def demo_unmatched_def group_visible_def)
  then show ?thesis using count_unmatched_since_exact[OF v o, of 25 10 None] by fastforce
qed

text \<open>A tenant's listing of unmatched requests shows its own groups only, and a page
  fills from visible records: it is the first hundred or fewer of the visible records, newest
  first, however many others lie between them.\<close>

theorem list_unmatched_scoped:
  assumes "bytes_at s ''unmatched:counter'' = Some v"
  shows "list_unmatched c cur visible s =
    (Inr (take (clamp 1 100 (cu_limit cur)) (filter (group_visible visible)
       (readable (get_unmatched_via_bucket c) s (starting (cu_before cur) (counter_u64 v))))), s)"
  using assms
  by (cases "starting (cu_before cur) (counter_u64 v) = 0")
    (simp_all add: list_unmatched_def io_simps Let_def admin_get MAX_LIMIT_def unmatched_log.walk_down_spec
      del: walk_down.simps)

theorem list_unmatched_scoped_witness:
  "list_unmatched demo_unmatched_codec \<lparr>cu_before = None, cu_limit = 5\<rparr> (Some {ulid_b}) demo_unmatched_store
     = (Inr [], demo_unmatched_store)"
proof -
  have v: "bytes_at demo_unmatched_store ''unmatched:counter'' = Some (Some ''2'')" "counter_u64 (Some ''2'') = 2"
    by (simp_all add: bytes_at_def demo_unmatched_store_def counter_u64_def parse_two)
      (simp add: valid_utf8_def utf8_pending_def)
  show ?thesis
    by (simp add: list_unmatched_scoped[OF v(1)] v(2) starting_def demo_unmatched_readable
        group_visible_def demo_unmatched_def demo_ulids)
qed

end
