(* ===== verification/Sessions.thy ===== *)
theory Sessions
  imports Journal
begin

text \<open>Browser sessions (\<^theory_text>\<open>session.rs\<close>): a signed cookie names a token, the token names
  the stored record, and every authenticated request pushes the expiry forward.

  The HMAC with its base64 text (\<^theory_text>\<open>compute_signature\<close>) and the JSON codec are parameters;
  the random token and the clock are arguments.  The locale \<^theory_text>\<open>record_cells\<close> states what the
  session operations need from the cells the records live in.\<close>

section \<open>State and operations\<close>

definition COOKIE_NAME :: string where "COOKIE_NAME = ''wm_session''"
definition DEFAULT_SESSION_TTL_SECONDS :: nat where "DEFAULT_SESSION_TTL_SECONDS = 24 * 60 * 60"

datatype session_error =
    SStorage store_error | SNotFound | SMalformed string | InvalidCookie | SignatureMismatch | WeakSecret

record session =
  ss_id :: string
  ss_user_id :: string
  ss_provider :: string
  ss_created_at :: int
  ss_last_seen_at :: int
  ss_expires_at :: int
  ss_ip_first_seen :: string
  ss_user_agent :: string
  ss_epoch :: nat

text \<open>The configuration of the store, with \<^theory_text>\<open>hmac secret token\<close> the signature text.\<close>

record session_store =
  secret :: bytes
  ttl_seconds :: nat
  hmac :: "bytes \<Rightarrow> string \<Rightarrow> string"
  session_codec :: "session codec"

type_synonym 'a zio = "(mem_store, session_error, 'a) io"

definition session_store_new ::
  "(bytes \<Rightarrow> string \<Rightarrow> string) \<Rightarrow> session codec \<Rightarrow> bytes \<Rightarrow> session_error + session_store" where
  "session_store_new mac c key =
    (if length key < 32 then Inl WeakSecret
     else Inr \<lparr>secret = key, ttl_seconds = DEFAULT_SESSION_TTL_SECONDS, hmac = mac, session_codec = c\<rparr>)"

definition with_ttl_seconds :: "nat \<Rightarrow> session_store \<Rightarrow> session_store" where
  "with_ttl_seconds ttl ss = ss\<lparr>ttl_seconds := ttl\<rparr>"

definition session_key :: "string \<Rightarrow> string" where "session_key token = ''session:'' @ token"

definition compute_signature :: "session_store \<Rightarrow> string \<Rightarrow> string" where
  "compute_signature ss token = hmac ss (secret ss) token"

definition verify_signature :: "session_store \<Rightarrow> string \<Rightarrow> string \<Rightarrow> bool" where
  "verify_signature ss token signature \<longleftrightarrow> compute_signature ss token = signature"

definition sign_cookie :: "session_store \<Rightarrow> string \<Rightarrow> string" where
  "sign_cookie ss token = token @ ''.'' @ compute_signature ss token"

definition session_write :: "session_store \<Rightarrow> string \<Rightarrow> session \<Rightarrow> unit zio" where
  "session_write ss token session = (case encode (session_codec ss) session of
      None \<Rightarrow> raise (SMalformed ''encode'')
    | Some b \<Rightarrow> map_err SStorage (bucket_set_with_ttl admin_bucket (session_key token) b (ttl_seconds ss)))"

definition session_read :: "session_store \<Rightarrow> string \<Rightarrow> session zio" where
  "session_read ss token =
    bind_io (map_err SStorage (bucket_get admin_bucket (session_key token))) (\<lambda>v. case v of
      None \<Rightarrow> raise SNotFound
    | Some b \<Rightarrow> (case decode (session_codec ss) b of
        None \<Rightarrow> raise (SMalformed ''decode'') | Some r \<Rightarrow> ret r))"

definition session_delete :: "string \<Rightarrow> unit zio" where
  "session_delete token = map_err SStorage (bucket_delete admin_bucket (session_key token))"

text \<open>\<^theory_text>\<open>split_once\<close>: split at the first separator.\<close>

definition split_once :: "char \<Rightarrow> string \<Rightarrow> (string \<times> string) option" where
  "split_once d s =
    (if d \<in> set s then Some (takeWhile (\<lambda>c. c \<noteq> d) s, tl (dropWhile (\<lambda>c. c \<noteq> d) s)) else None)"

definition session_create ::
  "session_store \<Rightarrow> string \<Rightarrow> string \<Rightarrow> int \<Rightarrow> string \<Rightarrow> string \<Rightarrow> string \<Rightarrow> string \<Rightarrow> nat \<Rightarrow> (session \<times> string) zio" where
  "session_create ss token new_id now user_id provider ip_first_seen user_agent epoch =
    (let session = \<lparr>ss_id = new_id, ss_user_id = user_id, ss_provider = provider, ss_created_at = now,
       ss_last_seen_at = now, ss_expires_at = now + seconds (ttl_seconds ss),
       ss_ip_first_seen = ip_first_seen, ss_user_agent = user_agent, ss_epoch = epoch\<rparr> in
     seq_io (session_write ss token session) (ret (session, sign_cookie ss token)))"

definition session_validate :: "session_store \<Rightarrow> int \<Rightarrow> string \<Rightarrow> session zio" where
  "session_validate ss now cookie_value = (case split_once (CHR ''.'') cookie_value of
      None \<Rightarrow> raise InvalidCookie
    | Some (token, signature) \<Rightarrow>
      if \<not> verify_signature ss token signature then raise SignatureMismatch
      else bind_io (session_read ss token) (\<lambda>session.
        if ss_expires_at session < now
        then seq_io (ignore_err (session_delete token)) (raise SNotFound)
        else ret session))"

text \<open>\<^theory_text>\<open>now\<close> is read again for the new expiry; \<^theory_text>\<open>later\<close> is that reading.\<close>

definition session_touch :: "session_store \<Rightarrow> int \<Rightarrow> int \<Rightarrow> string \<Rightarrow> session zio" where
  "session_touch ss now later cookie_value = (case split_once (CHR ''.'') cookie_value of
      None \<Rightarrow> raise InvalidCookie
    | Some (token, signature) \<Rightarrow>
      if \<not> verify_signature ss token signature then raise SignatureMismatch
      else bind_io (session_read ss token) (\<lambda>session.
        if ss_expires_at session < now
        then seq_io (ignore_err (session_delete token)) (raise SNotFound)
        else (let session = session\<lparr>ss_last_seen_at := later,
                ss_expires_at := later + seconds (ttl_seconds ss)\<rparr> in
          seq_io (session_write ss token session) (ret session))))"

definition delete_by_cookie :: "string \<Rightarrow> unit zio" where
  "delete_by_cookie cookie_value = (case split_once (CHR ''.'') cookie_value of
      None \<Rightarrow> raise InvalidCookie
    | Some (token, signature) \<Rightarrow> session_delete token)"

section \<open>Cells that hold one record each\<close>

locale record_cells =
  fixes put :: "'t \<Rightarrow> 'r \<Rightarrow> ('s, 'e, unit) io"
    and fetch :: "'t \<Rightarrow> ('s, 'e, 'r) io"
    and remove :: "'t \<Rightarrow> ('s, 'e, unit) io"
    and writable :: "'r \<Rightarrow> bool" and missing :: "'e"
  assumes written: "\<lbrakk>writable r; put t r s = (x, s')\<rbrakk> \<Longrightarrow> x = Inr () \<and> fetch t s' = (Inr r, s')"
    and removed: "remove t s = (x, s') \<Longrightarrow> x = Inr () \<and> fetch t s' = (Inl missing, s')"
    and others_written: "\<lbrakk>t' \<noteq> t; put t r s = (x, s')\<rbrakk> \<Longrightarrow> fst (fetch t' s') = fst (fetch t' s)"
    and others_removed: "\<lbrakk>t' \<noteq> t; remove t s = (x, s')\<rbrakk> \<Longrightarrow> fst (fetch t' s') = fst (fetch t' s)"
begin

text \<open>A record survives whatever happens to the others, and goes only by its own removal.\<close>

fun apply_writes :: "('t \<times> 'r option) list \<Rightarrow> 's \<Rightarrow> 's" where
  "apply_writes [] s = s"
| "apply_writes ((t, None) # ws) s = apply_writes ws (snd (remove t s))"
| "apply_writes ((t, Some r) # ws) s = apply_writes ws (snd (put t r s))"

lemma untouched: "t \<notin> fst ` set ws \<Longrightarrow> fst (fetch t (apply_writes ws s)) = fst (fetch t s)"
proof (induction ws arbitrary: s)
  case (Cons w ws)
  obtain t' ro where w: "w = (t', ro)" by force
  show ?case
  proof (cases ro)
    case None
    obtain x s1 where r: "remove t' s = (x, s1)" by force
    then show ?thesis using Cons w None others_removed[OF _ r, of t] by simp
  next
    case (Some v)
    obtain x s1 where r: "put t' v s = (x, s1)" by force
    then show ?thesis using Cons w Some others_written[OF _ r, of t] by simp
  qed
qed simp

end

definition encodable :: "session_store \<Rightarrow> session \<Rightarrow> bool" where
  "encodable ss r \<longleftrightarrow> codec_ok (session_codec ss) \<and> encode (session_codec ss) r \<noteq> None"

lemma session_key_inj [simp]: "session_key a = session_key b \<longleftrightarrow> a = b"
  by (simp add: session_key_def)

lemma session_read_state [simp]: "snd (session_read ss t s) = s"
  by (auto simp: session_read_def io_simps admin_get split: option.splits)

lemma session_read_cong:
  "map_of s (session_key t) = map_of s' (session_key t) \<Longrightarrow> fst (session_read ss t s) = fst (session_read ss t s')"
  by (auto simp: session_read_def io_simps admin_get bytes_at_def split: option.splits mem_value.splits)

lemma session_write_run:
  "encode (session_codec ss) r = Some b \<Longrightarrow>
     session_write ss t r s = (Inr (), AList.update (session_key t) (Bytes b) s)"
  by (simp add: session_write_def map_err_run bucket_set_with_ttl_def admin_set)

lemma session_delete_run: "session_delete t s = (Inr (), AList.delete (session_key t) s)"
  by (simp add: session_delete_def map_err_run admin_delete)

interpretation session_cells: record_cells "session_write ss" "session_read ss" session_delete
  "encodable ss" SNotFound for ss
proof
  fix r t s x s'
  assume "encodable ss r" "session_write ss t r s = (x, s')"
  then show "x = Inr () \<and> session_read ss t s' = (Inr r, s')"
    by (auto simp: encodable_def codec_ok_def session_write_run session_read_def io_simps admin_get bytes_at_def)
next
  fix t s x s'
  assume "session_delete t s = (x, s')"
  then show "x = Inr () \<and> session_read ss t s' = (Inl SNotFound, s')"
    by (auto simp: session_delete_run session_read_def io_simps admin_get bytes_at_def)
next
  fix t' t r s x s'
  assume h: "t' \<noteq> t" "session_write ss t r s = (x, s')"
  have "map_of s' (session_key t') = map_of s (session_key t')"
    using h by (auto simp: session_write_def raise_def map_err_run bucket_set_with_ttl_def admin_set
        split: option.splits)
  then show "fst (session_read ss t' s') = fst (session_read ss t' s)" by (rule session_read_cong)
next
  fix t' t s x s'
  assume h: "t' \<noteq> t" "session_delete t s = (x, s')"
  have "map_of s' (session_key t') = map_of s (session_key t')"
    using h by (auto simp: session_delete_run)
  then show "fst (session_read ss t' s') = fst (session_read ss t' s)" by (rule session_read_cong)
qed

section \<open>Life of a session\<close>

lemma split_once_append: "d \<notin> set a \<Longrightarrow> split_once d (a @ d # b) = Some (a, b)"
proof -
  assume d: "d \<notin> set a"
  then have "takeWhile (\<lambda>c. c \<noteq> d) (a @ d # b) = a" "dropWhile (\<lambda>c. c \<noteq> d) (a @ d # b) = d # b"
    by (subst takeWhile_append2, auto) (subst dropWhile_append2, auto)
  then show ?thesis by (simp add: split_once_def)
qed

lemma split_once_Some: "split_once d s = Some (a, b) \<Longrightarrow> s = a @ d # b \<and> d \<notin> set a"
proof -
  assume h: "split_once d s = Some (a, b)"
  then have d: "d \<in> set s" by (simp add: split_once_def split: if_splits)
  then obtain u v where s: "s = u @ d # v" "d \<notin> set u" by (metis split_list_first)
  then show ?thesis using h split_once_append[of d u v] by simp
qed

lemma split_cookie [simp]:
  "CHR ''.'' \<notin> set token \<Longrightarrow> split_once (CHR ''.'') (sign_cookie ss token) = Some (token, compute_signature ss token)"
  by (simp add: sign_cookie_def split_once_append)

lemma validate_run:
  assumes "CHR ''.'' \<notin> set token" "session_read ss token s = (Inr r, s)"
  shows "session_validate ss now (sign_cookie ss token) s =
    (if ss_expires_at r < now then (Inl SNotFound, AList.delete (session_key token) s) else (Inr r, s))"
  using assms by (simp add: session_validate_def verify_signature_def bind_io_def assms(2) ret_def seq_io_def
      ignore_err_def raise_def session_delete_run)

text \<open>Only a cookie the host signed is accepted.  If a cookie validates, it is the signed
  form of a token with a stored record that has not expired, and the record is returned; no
  cookie changes the store except an expired session's own removal.\<close>

theorem validate_only_signed:
  assumes "session_validate ss now cookie s = (x, s')"
  shows "(\<forall>r. x = Inr r \<longrightarrow> s' = s \<and> now \<le> ss_expires_at r \<and>
      (\<exists>token. CHR ''.'' \<notin> set token \<and> cookie = sign_cookie ss token \<and> session_read ss token s = (Inr r, s)))
    \<and> (s' \<noteq> s \<longrightarrow> x = Inl SNotFound \<and> (\<exists>token r. cookie = sign_cookie ss token
        \<and> session_read ss token s = (Inr r, s) \<and> ss_expires_at r < now
        \<and> s' = AList.delete (session_key token) s))"
proof (cases "split_once (CHR ''.'') cookie")
  case None
  then show ?thesis using assms by (auto simp: session_validate_def raise_def)
next
  case (Some p)
  obtain token sig where p: "p = (token, sig)" by force
  note sp = split_once_Some[OF Some[unfolded p]]
  show ?thesis
  proof (cases "verify_signature ss token sig")
    case False
    then show ?thesis using assms Some p by (auto simp: session_validate_def raise_def)
  next
    case True
    then have c: "cookie = sign_cookie ss token" "CHR ''.'' \<notin> set token"
      using sp by (simp_all add: verify_signature_def sign_cookie_def)
    show ?thesis
    proof (cases "session_read ss token s")
      case (Pair y s1)
      then have s1: "s1 = s" using session_read_state[of ss token s] by simp
      show ?thesis
      proof (cases y)
        case (Inl e)
        then show ?thesis using assms Some p True Pair s1
          by (auto simp: session_validate_def bind_io_def)
      next
        case (Inr r)
        then show ?thesis using assms validate_run[OF c(2), of ss s r now] Pair s1 c
          by (auto split: if_splits)
      qed
    qed
  qed
qed

text \<open>The store and the answers after touching a session at the given times.\<close>

fun touches :: "session_store \<Rightarrow> string \<Rightarrow> int list \<Rightarrow> mem_store \<Rightarrow> bool list \<times> mem_store" where
  "touches ss cookie [] s = ([], s)"
| "touches ss cookie (t # ts) s = (case session_touch ss t t cookie s of
      (x, s') \<Rightarrow> (case touches ss cookie ts s' of (rs, s'') \<Rightarrow> ((\<not> isl x) # rs, s'')))"

text \<open>The sliding expiry: each use must come within the lifetime after the one before.\<close>

fun alive :: "nat \<Rightarrow> int \<Rightarrow> int list \<Rightarrow> bool list" where
  "alive ttl seen [] = []"
| "alive ttl seen (t # ts) =
    (if t \<le> seen + seconds ttl then True # alive ttl t ts else replicate (length ts + 1) False)"

lemma touch_run:
  assumes "CHR ''.'' \<notin> set token" "session_read ss token s = (Inr r, s)"
  shows "session_touch ss now later (sign_cookie ss token) s =
    (if ss_expires_at r < now then (Inl SNotFound, AList.delete (session_key token) s)
     else (let r' = r\<lparr>ss_last_seen_at := later, ss_expires_at := later + seconds (ttl_seconds ss)\<rparr> in
       (case session_write ss token r' s of (Inl e, s') \<Rightarrow> (Inl e, s') | (Inr u, s') \<Rightarrow> (Inr r', s'))))"
  using assms by (simp add: session_touch_def verify_signature_def bind_io_def assms(2) ret_def seq_io_def
      ignore_err_def raise_def session_delete_run Let_def split: prod.split sum.split)

lemma touches_missing:
  assumes "CHR ''.'' \<notin> set token" "session_read ss token s = (Inl e, s)"
  shows "touches ss (sign_cookie ss token) ts s = (replicate (length ts) False, s)"
  using assms
  by (induction ts) (simp_all add: session_touch_def verify_signature_def bind_io_def)

lemma touches_alive:
  assumes "CHR ''.'' \<notin> set token" "\<And>r. encodable ss r"
    and "session_read ss token s = (Inr r, s)" "ss_expires_at r = seen + seconds (ttl_seconds ss)"
  shows "fst (touches ss (sign_cookie ss token) ts s) = alive (ttl_seconds ss) seen ts"
  using assms(3,4)
proof (induction ts arbitrary: s r seen)
  case (Cons t ts)
  note run = touch_run[OF assms(1) Cons.prems(1), of t t]
  show ?case
  proof (cases "t \<le> seen + seconds (ttl_seconds ss)")
    case False
    have "session_read ss token (AList.delete (session_key token) s)
        = (Inl SNotFound, AList.delete (session_key token) s)"
      using session_cells.removed[of token s "Inr ()"] by (simp add: session_delete_run)
    from touches_missing[OF assms(1) this, of ts] show ?thesis
      using False run Cons.prems(2) by (simp split: prod.splits)
  next
    case True
    let ?r = "r\<lparr>ss_last_seen_at := t, ss_expires_at := t + seconds (ttl_seconds ss)\<rparr>"
    obtain x s' where w: "session_write ss token ?r s = (x, s')" by force
    from session_cells.written[OF assms(2) w] have x: "x = Inr ()" "session_read ss token s' = (Inr ?r, s')"
      by simp_all
    then have "session_touch ss t t (sign_cookie ss token) s = (Inr ?r, s')"
      using run w True Cons.prems(2) by (simp add: Let_def)
    then show ?thesis using Cons.IH[OF x(2), of t] True by (simp add: case_prod_beta)
  qed
qed simp

text \<open>C23: A session lives exactly as long as it is used: after a login, the requests at the
  given times are accepted as long as each comes within the lifetime after the one before;
  the first late one, and every one after it, is refused.\<close>

theorem session_slides:
  assumes "CHR ''.'' \<notin> set token" "\<forall>r. encodable ss r"
    and "session_create ss token i now user provider ip agent epoch s = (Inr (r, cookie), s')"
  shows "cookie = sign_cookie ss token \<and> session_validate ss now cookie s' = (Inr r, s')
    \<and> fst (touches ss cookie ts s') = alive (ttl_seconds ss) now ts"
proof -
  obtain x s1 where w: "session_write ss token r s = (x, s1)" by force
  have r: "ss_expires_at r = now + seconds (ttl_seconds ss)" "cookie = sign_cookie ss token"
    "session_write ss token r s = (Inr (), s')"
    using assms(3) by (auto simp: session_create_def Let_def seq_io_def bind_io_Inr_iff ret_def)
  have rd: "session_read ss token s' = (Inr r, s')"
    using session_cells.written[OF _ r(3)] assms(2) by blast
  show ?thesis
    using touches_alive[OF assms(1) _ rd r(1), of ts] assms(2) validate_run[OF assms(1) rd, of now] r(1,2)
    by simp
qed

section \<open>A concrete store\<close>

text \<open>Records as lists of texts.\<close>

definition list_codec :: "('r \<Rightarrow> string list) \<Rightarrow> (string list \<Rightarrow> 'r option) \<Rightarrow> 'r codec" where
  "list_codec to_list of_list = \<lparr>encode = (\<lambda>r. Some (list_encode (to_list r))),
     decode = (\<lambda>b. of_list (snd (list_decode_rev b)))\<rparr>"

lemma list_codec_ok: "(\<And>r. of_list (to_list r) = Some r) \<Longrightarrow> codec_ok (list_codec to_list of_list)"
  by (auto simp: codec_ok_def list_codec_def list_decode_encode)

definition session_to_list :: "session \<Rightarrow> string list" where
  "session_to_list r = [ss_id r, ss_user_id r, ss_provider r, show_int (ss_created_at r),
     show_int (ss_last_seen_at r), show_int (ss_expires_at r), ss_ip_first_seen r, ss_user_agent r,
     show_nat (ss_epoch r)]"

definition session_of_list :: "string list \<Rightarrow> session option" where
  "session_of_list xs = (case xs of
      [i, u, p, c, l, e, ip, ua, ep] \<Rightarrow>
        Some \<lparr>ss_id = i, ss_user_id = u, ss_provider = p,
          ss_created_at = the (parse_rfc3339 decimal_time c),
          ss_last_seen_at = the (parse_rfc3339 decimal_time l),
          ss_expires_at = the (parse_rfc3339 decimal_time e),
          ss_ip_first_seen = ip, ss_user_agent = ua, ss_epoch = digits_val ep\<rparr>
    | _ \<Rightarrow> None)"

definition demo_sessions :: session_store where
  "demo_sessions = \<lparr>secret = replicate 32 CHR ''k'', ttl_seconds = 60, hmac = (\<lambda>key token. key @ token),
     session_codec = list_codec session_to_list session_of_list\<rparr>"

lemma decimal_round [simp]: "parse_rfc3339 decimal_time (show_int i) = Some i"
  using decimal_time_ok by (simp add: time_ok_def decimal_time_def)

lemma demo_sessions_encodable: "encodable demo_sessions r"
proof -
  have "session_of_list (session_to_list x) = Some x" for x
    by (simp add: session_to_list_def session_of_list_def)
  then have "codec_ok (list_codec session_to_list session_of_list)" by (rule list_codec_ok)
  then show ?thesis by (simp add: encodable_def demo_sessions_def list_codec_def)
qed

lemma demo_session_run:
  "\<exists>r s'. session_create demo_sessions ''tok'' ulid_a 0 ''u'' ''local'' ''ip'' ''ua'' 0 []
     = (Inr (r, sign_cookie demo_sessions ''tok''), s')"
  by (simp add: session_create_def Let_def seq_io_def bind_io_def ret_def session_write_def
      demo_sessions_def list_codec_def map_err_run bucket_set_with_ttl_def admin_set)

theorem session_slides_witness:
  "\<exists>r s'. session_create demo_sessions ''tok'' ulid_a 0 ''u'' ''local'' ''ip'' ''ua'' 0 []
      = (Inr (r, sign_cookie demo_sessions ''tok''), s')
    \<and> fst (touches demo_sessions (sign_cookie demo_sessions ''tok'') [seconds 50, seconds 110, seconds 171, seconds 172] s')
      = [True, True, False, False]"
proof -
  obtain r s' where c: "session_create demo_sessions ''tok'' ulid_a 0 ''u'' ''local'' ''ip'' ''ua'' 0 []
     = (Inr (r, sign_cookie demo_sessions ''tok''), s')" using demo_session_run by blast
  have t: "ttl_seconds demo_sessions = 60" by (simp add: demo_sessions_def)
  have "fst (touches demo_sessions (sign_cookie demo_sessions ''tok'') [seconds 50, seconds 110, seconds 171, seconds 172] s')
      = alive 60 0 [seconds 50, seconds 110, seconds 171, seconds 172]"
  proof -
    have d: "CHR ''.'' \<notin> set ''tok''" "\<forall>r. encodable demo_sessions r"
      using demo_sessions_encodable by simp_all
    show ?thesis using session_slides[OF d c] unfolding t by blast
  qed
  then show ?thesis using c by (simp del: touches.simps)
qed

theorem validate_only_signed_witness:
  "\<exists>x s'. session_validate demo_sessions 0 ''tok.forged'' [] = (x, s') \<and> \<not> (\<exists>r. x = Inr r)"
proof -
  obtain x s' where v: "session_validate demo_sessions 0 ''tok.forged'' [] = (x, s')" by force
  have "\<not> x = Inr r" for r
  proof
    assume "x = Inr r"
    then obtain token where t: "''tok.forged'' = sign_cookie demo_sessions token" "CHR ''.'' \<notin> set token"
      using validate_only_signed[OF v] by blast
    then have "split_once (CHR ''.'') ''tok.forged'' = Some (token, compute_signature demo_sessions token)"
      by simp
    then have "''forged'' = replicate 32 CHR ''k'' @ token"
      by (simp add: split_once_def compute_signature_def demo_sessions_def)
    then have "length ''forged'' = 32 + length token" by (metis length_append length_replicate)
    then show False by simp
  qed
  then show ?thesis using v by blast
qed

end
