(* ===== verification/OAuth.thy ===== *)
theory OAuth
  imports Sessions
begin

text \<open>The OAuth server for MCP clients (\<^theory_text>\<open>mcp_oauth.rs\<close>): clients, pending
  authorizations, authorization codes, access and refresh tokens, and the endpoints that
  move between them.

  \<^theory_text>\<open>oauth_env\<close> holds what is not code of the repository: the JSON codecs, SHA-256 in its
  two text forms, the URL parser and the password hash.  Random tokens and the clock are
  arguments.  The locale \<^theory_text>\<open>one_shot\<close> states when a kind of record can be consumed once.\<close>

section \<open>Records\<close>

definition PENDING_AUTH_TTL_SECONDS :: nat where "PENDING_AUTH_TTL_SECONDS = 600"
definition AUTH_CODE_TTL_SECONDS :: nat where "AUTH_CODE_TTL_SECONDS = 600"
definition ACCESS_TOKEN_TTL_SECONDS :: nat where "ACCESS_TOKEN_TTL_SECONDS = 3600"
definition REFRESH_TOKEN_TTL_SECONDS :: nat where "REFRESH_TOKEN_TTL_SECONDS = 30 * 24 * 3600"

datatype oauth_store_error = OStorage store_error | OMalformed string | ONotFound

record oauth_client =
  oc_client_id :: string
  oc_client_secret_hash :: string
  oc_client_name :: string
  oc_redirect_uris :: "string list"
  oc_grant_types :: "string list"
  oc_response_types :: "string list"
  oc_token_endpoint_auth_method :: string
  oc_created_at :: int
  oc_last_used_at :: "int option"
  oc_revoked_at :: "int option"

record pending_authorization =
  pa_client_id :: string
  pa_redirect_uri :: string
  pa_code_challenge :: string
  pa_code_challenge_method :: string
  pa_scope :: string
  pa_original_state :: "string option"
  pa_created_at :: int

record authorization_code =
  ac_code :: string
  ac_client_id :: string
  ac_user_id :: string
  ac_redirect_uri :: string
  ac_scope :: string
  ac_code_challenge :: string
  ac_code_challenge_method :: string
  ac_created_at :: int
  ac_used_at :: "int option"

record refresh_token =
  rt_token_hash :: string
  rt_client_id :: string
  rt_user_id :: string
  rt_scope :: string
  rt_created_at :: int
  rt_used_at :: "int option"
  rt_revoked_at :: "int option"

record access_token =
  at_token_hash :: string
  at_client_id :: string
  at_user_id :: string
  at_scope :: string
  at_created_at :: int
  at_expires_at :: int

record url =
  u_scheme :: string
  u_host :: "string option"
  u_path :: string

record oauth_env =
  client_codec :: "oauth_client codec"
  pending_codec :: "pending_authorization codec"
  code_codec :: "authorization_code codec"
  refresh_codec :: "refresh_token codec"
  access_codec :: "access_token codec"
  sha256_hex :: "string \<Rightarrow> string"
  sha256_b64 :: "string \<Rightarrow> string"
  parse_url :: "string \<Rightarrow> url option"
  append_params :: "string \<Rightarrow> (string \<times> string) list \<Rightarrow> string"
  verify_password :: "string \<Rightarrow> string \<Rightarrow> bool"
  base64_decode :: "string \<Rightarrow> bytes option"

definition oauth_env_ok :: "oauth_env \<Rightarrow> bool" where
  "oauth_env_ok env \<longleftrightarrow> codec_ok (client_codec env) \<and> codec_ok (pending_codec env)
     \<and> codec_ok (code_codec env) \<and> codec_ok (refresh_codec env) \<and> codec_ok (access_codec env)"

type_synonym 'a oio = "(mem_store, oauth_store_error, 'a) io"

abbreviation os :: "'a sio \<Rightarrow> 'a oio" where "os m \<equiv> map_err OStorage m"

definition client_key :: "string \<Rightarrow> string" where "client_key i = ''oauth:client:'' @ i"
definition pending_key :: "string \<Rightarrow> string" where "pending_key i = ''oauth:pending:'' @ i"
definition code_key :: "string \<Rightarrow> string" where "code_key i = ''oauth:code:'' @ i"
definition refresh_key :: "string \<Rightarrow> string" where "refresh_key h = ''oauth:refresh:'' @ h"
definition refresh_user_index_key :: "string \<Rightarrow> string" where
  "refresh_user_index_key u = ''oauth:refresh:by-user:'' @ u"
definition access_key :: "string \<Rightarrow> string" where "access_key h = ''oauth:access:'' @ h"

section \<open>Records in the store\<close>

definition write_json_hash :: "'r codec \<Rightarrow> string \<Rightarrow> 'r \<Rightarrow> unit oio" where
  "write_json_hash c key r = (case encode c r of
      None \<Rightarrow> raise (OMalformed ''encode JSON'')
    | Some b \<Rightarrow> os (bucket_hash_set admin_bucket key ''data'' b))"

definition read_json_hash :: "'r codec \<Rightarrow> string \<Rightarrow> 'r option oio" where
  "read_json_hash c key = bind_io (os (bucket_hash_get admin_bucket key ''data'')) (\<lambda>v. case v of
      None \<Rightarrow> ret None
    | Some b \<Rightarrow> (case decode c b of None \<Rightarrow> raise (OMalformed ''decode JSON'') | Some r \<Rightarrow> ret (Some r)))"

definition save_client :: "oauth_env \<Rightarrow> oauth_client \<Rightarrow> unit oio" where
  "save_client env c = write_json_hash (client_codec env) (client_key (oc_client_id c)) c"

definition load_client :: "oauth_env \<Rightarrow> string \<Rightarrow> oauth_client option oio" where
  "load_client env i = read_json_hash (client_codec env) (client_key i)"

definition revoke_client :: "oauth_env \<Rightarrow> int \<Rightarrow> string \<Rightarrow> bool oio" where
  "revoke_client env now i =
    bind_io (read_json_hash (client_codec env) (client_key i)) (\<lambda>v. case v of
      None \<Rightarrow> ret False
    | Some c \<Rightarrow> if oc_revoked_at c \<noteq> None then ret False
        else seq_io (write_json_hash (client_codec env) (client_key i) (c\<lparr>oc_revoked_at := Some now\<rparr>)) (ret True))"

definition save_pending :: "oauth_env \<Rightarrow> string \<Rightarrow> pending_authorization \<Rightarrow> unit oio" where
  "save_pending env nonce p = seq_io (write_json_hash (pending_codec env) (pending_key nonce) p)
     (os (bucket_set_ttl admin_bucket (pending_key nonce) PENDING_AUTH_TTL_SECONDS))"

definition consume_pending :: "oauth_env \<Rightarrow> string \<Rightarrow> pending_authorization option oio" where
  "consume_pending env nonce =
    bind_io (read_json_hash (pending_codec env) (pending_key nonce)) (\<lambda>p.
      if p \<noteq> None then seq_io (os (bucket_delete admin_bucket (pending_key nonce))) (ret p) else ret p)"

definition save_authorization_code :: "oauth_env \<Rightarrow> authorization_code \<Rightarrow> unit oio" where
  "save_authorization_code env c = seq_io (write_json_hash (code_codec env) (code_key (ac_code c)) c)
     (os (bucket_set_ttl admin_bucket (code_key (ac_code c)) AUTH_CODE_TTL_SECONDS))"

definition load_authorization_code :: "oauth_env \<Rightarrow> string \<Rightarrow> authorization_code option oio" where
  "load_authorization_code env i = read_json_hash (code_codec env) (code_key i)"

definition consume_authorization_code :: "oauth_env \<Rightarrow> int \<Rightarrow> string \<Rightarrow> authorization_code option oio" where
  "consume_authorization_code env now i =
    bind_io (read_json_hash (code_codec env) (code_key i)) (\<lambda>v. case v of
      None \<Rightarrow> ret None
    | Some r \<Rightarrow> if ac_used_at r \<noteq> None then ret None
        else (let r = r\<lparr>ac_used_at := Some now\<rparr> in
          seq_io (write_json_hash (code_codec env) (code_key i) r) (ret (Some r))))"

definition save_refresh_token :: "oauth_env \<Rightarrow> refresh_token \<Rightarrow> unit oio" where
  "save_refresh_token env t = seq_io (write_json_hash (refresh_codec env) (refresh_key (rt_token_hash t)) t)
    (seq_io (os (bucket_set_ttl admin_bucket (refresh_key (rt_token_hash t)) REFRESH_TOKEN_TTL_SECONDS))
      (os (bucket_set_add admin_bucket (refresh_user_index_key (rt_user_id t)) (rt_token_hash t))))"

definition load_refresh_token :: "oauth_env \<Rightarrow> string \<Rightarrow> refresh_token option oio" where
  "load_refresh_token env h = read_json_hash (refresh_codec env) (refresh_key h)"

definition consume_refresh_token :: "oauth_env \<Rightarrow> int \<Rightarrow> string \<Rightarrow> refresh_token option oio" where
  "consume_refresh_token env now h =
    bind_io (read_json_hash (refresh_codec env) (refresh_key h)) (\<lambda>v. case v of
      None \<Rightarrow> ret None
    | Some r \<Rightarrow> if rt_used_at r \<noteq> None \<or> rt_revoked_at r \<noteq> None then ret None
        else (let r = r\<lparr>rt_used_at := Some now\<rparr> in
          seq_io (write_json_hash (refresh_codec env) (refresh_key h) r) (ret (Some r))))"

definition save_access_token :: "oauth_env \<Rightarrow> int \<Rightarrow> access_token \<Rightarrow> unit oio" where
  "save_access_token env now t = seq_io (write_json_hash (access_codec env) (access_key (at_token_hash t)) t)
     (os (bucket_set_ttl admin_bucket (access_key (at_token_hash t))
       (nat (max ((at_expires_at t - now) div 1000000000) 1))))"

definition load_access_token :: "oauth_env \<Rightarrow> string \<Rightarrow> access_token option oio" where
  "load_access_token env h = read_json_hash (access_codec env) (access_key h)"

definition delete_access_token :: "string \<Rightarrow> unit oio" where
  "delete_access_token h = os (bucket_delete admin_bucket (access_key h))"

section \<open>Grants of a user\<close>

record oauth_grant_summary =
  og_client_id :: string
  og_client_name :: string
  og_scope :: string
  og_granted_at :: int
  og_expires_at :: int

definition keep_newest ::
  "oauth_grant_summary \<Rightarrow> (string \<times> oauth_grant_summary) list \<Rightarrow> (string \<times> oauth_grant_summary) list" where
  "keep_newest g m = (case map_of m (og_client_id g) of
      Some old \<Rightarrow> if og_granted_at g > og_granted_at old then AList.update (og_client_id g) g m else m
    | None \<Rightarrow> AList.update (og_client_id g) g m)"

fun collect_grants :: "oauth_env \<Rightarrow> string list \<Rightarrow> (string \<times> oauth_grant_summary) list
    \<Rightarrow> (string \<times> oauth_grant_summary) list oio" where
  "collect_grants env [] m = ret m"
| "collect_grants env (h # hs) m =
    bind_io (read_json_hash (refresh_codec env) (refresh_key h)) (\<lambda>v. case v of
      None \<Rightarrow> collect_grants env hs m
    | Some r \<Rightarrow>
      if rt_used_at r \<noteq> None \<or> rt_revoked_at r \<noteq> None then collect_grants env hs m
      else bind_io (load_client env (rt_client_id r)) (\<lambda>c. case c of
          None \<Rightarrow> collect_grants env hs m
        | Some client \<Rightarrow> collect_grants env hs (keep_newest
            \<lparr>og_client_id = rt_client_id r, og_client_name = oc_client_name client, og_scope = rt_scope r,
             og_granted_at = rt_created_at r,
             og_expires_at = rt_created_at r + seconds REFRESH_TOKEN_TTL_SECONDS\<rparr> m)))"

text \<open>The source collects into a hash map; the order of grants with the same time is the
  order of the index here.\<close>

definition list_active_oauth_grants :: "oauth_env \<Rightarrow> string \<Rightarrow> oauth_grant_summary list oio" where
  "list_active_oauth_grants env user_id =
    bind_io (os (bucket_set_members admin_bucket (refresh_user_index_key user_id))) (\<lambda>hs.
    bind_io (collect_grants env hs []) (\<lambda>m.
      ret (sort_key (\<lambda>g. - og_granted_at g) (map snd m))))"

fun revoke_each :: "oauth_env \<Rightarrow> int \<Rightarrow> string \<Rightarrow> string list \<Rightarrow> nat \<Rightarrow> nat oio" where
  "revoke_each env now cid [] revoked = ret revoked"
| "revoke_each env now cid (h # hs) revoked =
    bind_io (read_json_hash (refresh_codec env) (refresh_key h)) (\<lambda>v. case v of
      None \<Rightarrow> revoke_each env now cid hs revoked
    | Some r \<Rightarrow>
      if rt_client_id r \<noteq> cid then revoke_each env now cid hs revoked
      else if rt_revoked_at r \<noteq> None then revoke_each env now cid hs revoked
      else seq_io (save_refresh_token env (r\<lparr>rt_revoked_at := Some now\<rparr>))
        (revoke_each env now cid hs (revoked + 1)))"

definition revoke_grants_for_client :: "oauth_env \<Rightarrow> int \<Rightarrow> string \<Rightarrow> string \<Rightarrow> nat oio" where
  "revoke_grants_for_client env now user_id cid =
    bind_io (os (bucket_set_members admin_bucket (refresh_user_index_key user_id))) (\<lambda>hs.
      revoke_each env now cid hs 0)"

section \<open>Matching of URIs and secrets\<close>

definition hash_token :: "oauth_env \<Rightarrow> string \<Rightarrow> string" where
  "hash_token env plaintext = sha256_hex env plaintext"

definition verify_pkce :: "oauth_env \<Rightarrow> string \<Rightarrow> string \<Rightarrow> bool" where
  "verify_pkce env challenge verifier \<longleftrightarrow> sha256_b64 env verifier = challenge"

definition loopback_normalize :: "oauth_env \<Rightarrow> string \<Rightarrow> string option" where
  "loopback_normalize env uri = (case parse_url env uri of
      None \<Rightarrow> None
    | Some u \<Rightarrow>
      if u_scheme u \<noteq> ''http'' then None
      else (case u_host u of
          None \<Rightarrow> None
        | Some host \<Rightarrow>
            if host \<noteq> ''127.0.0.1'' \<and> host \<noteq> ''[::1]'' \<and> host \<noteq> ''::1'' then None
            else Some (''http://'' @ host @ u_path u)))"

fun redirect_uri_matches :: "oauth_env \<Rightarrow> string list \<Rightarrow> string \<Rightarrow> bool" where
  "redirect_uri_matches env [] provided = False"
| "redirect_uri_matches env (reg # registered) provided =
    (if reg = provided then True
     else if (case (loopback_normalize env reg, loopback_normalize env provided) of
        (Some a, Some b) \<Rightarrow> a = b | _ \<Rightarrow> False) then True
     else redirect_uri_matches env registered provided)"

definition validate_redirect_uri_at_registration :: "oauth_env \<Rightarrow> string \<Rightarrow> bool" where
  "validate_redirect_uri_at_registration env uri = (case parse_url env uri of
      None \<Rightarrow> False
    | Some u \<Rightarrow>
      if u_scheme u = ''https'' then True
      else if u_scheme u = ''http'' then
        (let host = (case u_host u of Some h \<Rightarrow> h | None \<Rightarrow> []) in
         host = ''127.0.0.1'' \<or> host = ''[::1]'' \<or> host = ''::1'' \<or> host = ''localhost'')
      else False)"

text \<open>\<^theory_text>\<open>trim_end_matches\<close> of a slash.\<close>

definition trim_slashes :: "string \<Rightarrow> string" where
  "trim_slashes s = rev (dropWhile (\<lambda>c. c = CHR ''/'') (rev s))"

definition resource_matches_mcp :: "string \<Rightarrow> string \<Rightarrow> bool" where
  "resource_matches_mcp requested expected \<longleftrightarrow> trim_slashes requested = trim_slashes expected"

definition hex_digit :: "nat \<Rightarrow> char" where
  "hex_digit n = (if n < 10 then char_of (48 + n) else char_of (55 + n))"

definition percent_encode :: "string \<Rightarrow> string" where
  "percent_encode s = concat (map (\<lambda>b.
     if is_alnum b \<or> b \<in> {CHR ''-'', CHR ''_'', CHR ''.'', CHR ''~'', CHR ''/''} then [b]
     else [CHR ''%'', hex_digit (code b div 16), hex_digit (code b mod 16)]) s)"

section \<open>Endpoints\<close>

text \<open>A response: a plain or an OAuth error with its status, a redirect, or a success.\<close>

record token_response =
  tr_access_token :: string
  tr_token_type :: string
  tr_expires_in :: nat
  tr_scope :: string
  tr_refresh_token :: "string option"

datatype oauth_reply =
    Plain nat string
  | OAuthError nat string
  | RedirectTo string
  | Tokens token_response
  | Registered oauth_client string
  | Done nat

abbreviation internal_error :: oauth_reply where "internal_error \<equiv> OAuthError 500 ''server_error''"
abbreviation plain_error :: oauth_reply where "plain_error \<equiv> Plain 500 ''internal error''"

text \<open>\<^theory_text>\<open>match call { Ok(x) => .., Err(e) => return reply }\<close> in a handler.\<close>

definition try_or :: "oauth_reply \<Rightarrow> 'a oio \<Rightarrow> ('a \<Rightarrow> mem_store \<Rightarrow> oauth_reply \<times> mem_store)
    \<Rightarrow> mem_store \<Rightarrow> oauth_reply \<times> mem_store" where
  "try_or bad m f s = (case m s of (Inl e, s') \<Rightarrow> (bad, s') | (Inr x, s') \<Rightarrow> f x s')"

definition reply :: "oauth_reply \<Rightarrow> mem_store \<Rightarrow> oauth_reply \<times> mem_store" where
  "reply r s = (r, s)"

record register_body =
  rb_client_name :: "string option"
  rb_redirect_uris :: "string list"
  rb_grant_types :: "string list option"
  rb_response_types :: "string list option"
  rb_token_endpoint_auth_method :: "string option"

definition unwrap_or :: "'a \<Rightarrow> 'a option \<Rightarrow> 'a" where
  "unwrap_or d v = (case v of Some x \<Rightarrow> x | None \<Rightarrow> d)"

text \<open>\<^theory_text>\<open>secret_hash\<close> is the salted hash of the secret, if hashing succeeds.\<close>

definition oauth_register :: "oauth_env \<Rightarrow> string \<Rightarrow> string \<Rightarrow> string option \<Rightarrow> int \<Rightarrow> register_body
    \<Rightarrow> mem_store \<Rightarrow> oauth_reply \<times> mem_store" where
  "oauth_register env cid plaintext_secret secret_hash now body =
    (if rb_redirect_uris body = [] then reply (OAuthError 400 ''invalid_redirect_uri'')
     else if \<not> list_all (validate_redirect_uri_at_registration env) (rb_redirect_uris body)
     then reply (OAuthError 400 ''invalid_redirect_uri'')
     else (case secret_hash of
         None \<Rightarrow> reply internal_error
       | Some h \<Rightarrow>
         (let client = \<lparr>oc_client_id = cid, oc_client_secret_hash = h,
            oc_client_name = unwrap_or ''Unnamed Client'' (rb_client_name body),
            oc_redirect_uris = rb_redirect_uris body,
            oc_grant_types = unwrap_or [''authorization_code'', ''refresh_token''] (rb_grant_types body),
            oc_response_types = unwrap_or [''code''] (rb_response_types body),
            oc_token_endpoint_auth_method = unwrap_or ''client_secret_post'' (rb_token_endpoint_auth_method body),
            oc_created_at = now, oc_last_used_at = None, oc_revoked_at = None\<rparr> in
          try_or internal_error (save_client env client) (\<lambda>u. reply (Registered client plaintext_secret)))))"

record authorize_query =
  aq_response_type :: "string option"
  aq_client_id :: "string option"
  aq_redirect_uri :: "string option"
  aq_state :: "string option"
  aq_scope :: "string option"
  aq_code_challenge :: "string option"
  aq_code_challenge_method :: "string option"
  aq_resource :: "string option"

text \<open>\<^theory_text>\<open>logged_in\<close> is the outcome of the session check, \<^theory_text>\<open>path_and_query\<close> the request's own
  URI, \<^theory_text>\<open>base\<close> the public base URL, \<^theory_text>\<open>nonce\<close> the fresh internal state.\<close>

definition oauth_authorize :: "oauth_env \<Rightarrow> bool \<Rightarrow> string \<Rightarrow> string \<Rightarrow> string \<Rightarrow> int \<Rightarrow> authorize_query
    \<Rightarrow> mem_store \<Rightarrow> oauth_reply \<times> mem_store" where
  "oauth_authorize env logged_in base path_and_query nonce now q =
    (if aq_response_type q \<noteq> Some ''code'' then reply (Plain 400 ''response_type'')
     else (case aq_client_id q of None \<Rightarrow> reply (Plain 400 ''client_id'') | Some cid \<Rightarrow>
       (case aq_redirect_uri q of None \<Rightarrow> reply (Plain 400 ''redirect_uri'') | Some redirect_uri \<Rightarrow>
       (case aq_code_challenge q of None \<Rightarrow> reply (Plain 400 ''code_challenge'') | Some challenge \<Rightarrow>
       (let ch_method = unwrap_or ''S256'' (aq_code_challenge_method q) in
        if ch_method \<noteq> ''S256'' then reply (Plain 400 ''code_challenge_method'')
        else if (case aq_resource q of
            Some requested \<Rightarrow> requested \<noteq> [] \<and> \<not> resource_matches_mcp requested (base @ ''/api/mcp'')
          | None \<Rightarrow> False) then reply (Plain 400 ''resource'')
        else try_or plain_error (load_client env cid) (\<lambda>found. case found of
            None \<Rightarrow> reply (Plain 401 ''unknown client_id'')
          | Some client \<Rightarrow>
            if oc_revoked_at client \<noteq> None then reply (Plain 401 ''client is revoked'')
            else if \<not> redirect_uri_matches env (oc_redirect_uris client) redirect_uri
            then reply (Plain 400 ''redirect_uri does not match'')
            else if \<not> logged_in
            then reply (RedirectTo (''/auth/login?next='' @ percent_encode path_and_query))
            else try_or plain_error (save_pending env nonce
              \<lparr>pa_client_id = oc_client_id client, pa_redirect_uri = redirect_uri,
               pa_code_challenge = challenge, pa_code_challenge_method = ch_method,
               pa_scope = unwrap_or ''*'' (aq_scope q), pa_original_state = aq_state q,
               pa_created_at = now\<rparr>)
              (\<lambda>u. reply (RedirectTo (''/ui/oauth/consent?state='' @ percent_encode nonce)))))))))"

text \<open>\<^theory_text>\<open>user\<close> is the logged-in user, if there is one.\<close>

definition consent_submit :: "oauth_env \<Rightarrow> string option \<Rightarrow> string \<Rightarrow> int \<Rightarrow> string \<Rightarrow> string
    \<Rightarrow> mem_store \<Rightarrow> oauth_reply \<times> mem_store" where
  "consent_submit env user new_code now form_state action = (case user of
      None \<Rightarrow> reply (RedirectTo ''/auth/login?next=/ui/'')
    | Some user_id \<Rightarrow> try_or plain_error (consume_pending env form_state) (\<lambda>found. case found of
        None \<Rightarrow> reply (Plain 400 ''expired or already handled'')
      | Some pending \<Rightarrow>
        (let original_state = unwrap_or [] (pa_original_state pending) in
         if action = ''deny'' then reply (RedirectTo (append_params env (pa_redirect_uri pending)
           [(''error'', ''access_denied''), (''state'', original_state)]))
         else if action \<noteq> ''approve'' then reply (Plain 400 ''invalid action'')
         else try_or plain_error (save_authorization_code env
           \<lparr>ac_code = new_code, ac_client_id = pa_client_id pending, ac_user_id = user_id,
            ac_redirect_uri = pa_redirect_uri pending, ac_scope = pa_scope pending,
            ac_code_challenge = pa_code_challenge pending,
            ac_code_challenge_method = pa_code_challenge_method pending,
            ac_created_at = now, ac_used_at = None\<rparr>)
           (\<lambda>u. reply (RedirectTo (append_params env (pa_redirect_uri pending)
             [(''code'', new_code), (''state'', original_state)]))))))"

record token_form =
  tf_grant_type :: string
  tf_code :: "string option"
  tf_redirect_uri :: "string option"
  tf_code_verifier :: "string option"
  tf_refresh_token :: "string option"
  tf_client_id :: "string option"
  tf_client_secret :: "string option"

text \<open>The value of the authorization header, if it is there and is visible ASCII.\<close>

definition basic_auth :: "oauth_env \<Rightarrow> string option \<Rightarrow> (string \<times> string) option" where
  "basic_auth env authorization =
    Option.bind authorization (\<lambda>txt. Option.bind (strip_prefix ''Basic '' txt) (\<lambda>b64.
    Option.bind (base64_decode env b64) (\<lambda>decoded.
      if valid_utf8 decoded then split_once (CHR '':'') decoded else None)))"

definition extract_client_auth :: "oauth_env \<Rightarrow> string option \<Rightarrow> token_form \<Rightarrow> (string \<times> string) option" where
  "extract_client_auth env authorization form = (case basic_auth env authorization of
      Some p \<Rightarrow> Some p
    | None \<Rightarrow> (case (tf_client_id form, tf_client_secret form) of
        (Some i, Some s) \<Rightarrow> Some (i, s) | _ \<Rightarrow> None))"

text \<open>The tokens minted in one exchange.\<close>

record minted =
  new_access :: string
  new_refresh :: string

definition mint_tokens :: "oauth_env \<Rightarrow> minted \<Rightarrow> int \<Rightarrow> string \<Rightarrow> string \<Rightarrow> string
    \<Rightarrow> mem_store \<Rightarrow> oauth_reply \<times> mem_store" where
  "mint_tokens env mint now cid user_id scope =
    try_or internal_error (save_access_token env now
      \<lparr>at_token_hash = hash_token env (new_access mint), at_client_id = cid, at_user_id = user_id,
       at_scope = scope, at_created_at = now, at_expires_at = now + seconds ACCESS_TOKEN_TTL_SECONDS\<rparr>) (\<lambda>u.
    try_or internal_error (save_refresh_token env
      \<lparr>rt_token_hash = hash_token env (new_refresh mint), rt_client_id = cid, rt_user_id = user_id,
       rt_scope = scope, rt_created_at = now, rt_used_at = None, rt_revoked_at = None\<rparr>) (\<lambda>u.
    reply (Tokens \<lparr>tr_access_token = new_access mint, tr_token_type = ''Bearer'',
      tr_expires_in = ACCESS_TOKEN_TTL_SECONDS, tr_scope = scope,
      tr_refresh_token = Some (new_refresh mint)\<rparr>)))"

definition handle_authorization_code_grant :: "oauth_env \<Rightarrow> minted \<Rightarrow> int \<Rightarrow> oauth_client \<Rightarrow> token_form
    \<Rightarrow> mem_store \<Rightarrow> oauth_reply \<times> mem_store" where
  "handle_authorization_code_grant env mint now client form =
    (case tf_code form of None \<Rightarrow> reply (OAuthError 400 ''invalid_request'') | Some given \<Rightarrow>
    (case tf_redirect_uri form of None \<Rightarrow> reply (OAuthError 400 ''invalid_request'') | Some redirect_uri \<Rightarrow>
    (case tf_code_verifier form of None \<Rightarrow> reply (OAuthError 400 ''invalid_request'') | Some verifier \<Rightarrow>
    try_or internal_error (consume_authorization_code env now given) (\<lambda>found. case found of
        None \<Rightarrow> reply (OAuthError 400 ''invalid_grant'')
      | Some consumed \<Rightarrow>
        if ac_client_id consumed \<noteq> oc_client_id client then reply (OAuthError 400 ''invalid_grant'')
        else if ac_redirect_uri consumed \<noteq> redirect_uri then reply (OAuthError 400 ''invalid_grant'')
        else if \<not> verify_pkce env (ac_code_challenge consumed) verifier
        then reply (OAuthError 400 ''invalid_grant'')
        else mint_tokens env mint now (oc_client_id client) (ac_user_id consumed) (ac_scope consumed)))))"

definition handle_refresh_token_grant :: "oauth_env \<Rightarrow> minted \<Rightarrow> int \<Rightarrow> oauth_client \<Rightarrow> token_form
    \<Rightarrow> mem_store \<Rightarrow> oauth_reply \<times> mem_store" where
  "handle_refresh_token_grant env mint now client form =
    (case tf_refresh_token form of None \<Rightarrow> reply (OAuthError 400 ''invalid_request'') | Some plaintext \<Rightarrow>
    try_or internal_error (consume_refresh_token env now (hash_token env plaintext)) (\<lambda>found. case found of
        None \<Rightarrow> reply (OAuthError 400 ''invalid_grant'')
      | Some consumed \<Rightarrow>
        if rt_client_id consumed \<noteq> oc_client_id client then reply (OAuthError 400 ''invalid_grant'')
        else mint_tokens env mint now (rt_client_id consumed) (rt_user_id consumed) (rt_scope consumed)))"

text \<open>Client authentication, shared by the token and the revoke endpoint: a client that is
  unknown, revoked or does not load is refused.\<close>

definition authenticate_client :: "oauth_env \<Rightarrow> (string \<times> string) option
    \<Rightarrow> (oauth_client \<Rightarrow> mem_store \<Rightarrow> oauth_reply \<times> mem_store) \<Rightarrow> mem_store \<Rightarrow> oauth_reply \<times> mem_store" where
  "authenticate_client env auth f = (case auth of
      None \<Rightarrow> reply (OAuthError 401 ''invalid_client'')
    | Some (cid, given_secret) \<Rightarrow>
      try_or (OAuthError 401 ''invalid_client'') (load_client env cid) (\<lambda>found. case found of
        None \<Rightarrow> reply (OAuthError 401 ''invalid_client'')
      | Some client \<Rightarrow>
        if oc_revoked_at client \<noteq> None then reply (OAuthError 401 ''invalid_client'')
        else if \<not> verify_password env (oc_client_secret_hash client) given_secret
        then reply (OAuthError 401 ''invalid_client'')
        else f client))"

definition oauth_token :: "oauth_env \<Rightarrow> minted \<Rightarrow> int \<Rightarrow> string option \<Rightarrow> token_form
    \<Rightarrow> mem_store \<Rightarrow> oauth_reply \<times> mem_store" where
  "oauth_token env mint now authorization form =
    authenticate_client env (extract_client_auth env authorization form) (\<lambda>client.
      if tf_grant_type form = ''authorization_code''
      then handle_authorization_code_grant env mint now client form
      else if tf_grant_type form = ''refresh_token''
      then handle_refresh_token_grant env mint now client form
      else reply (OAuthError 400 ''unsupported_grant_type''))"

text \<open>\<^theory_text>\<open>let _ = ..\<close>: the outcome is dropped, its effect is kept.\<close>

definition then_done :: "'a oio \<Rightarrow> mem_store \<Rightarrow> oauth_reply \<times> mem_store" where
  "then_done m s = (Done 200, snd (m s))"

definition oauth_revoke :: "oauth_env \<Rightarrow> int \<Rightarrow> string option \<Rightarrow> token_form \<Rightarrow> string
    \<Rightarrow> mem_store \<Rightarrow> oauth_reply \<times> mem_store" where
  "oauth_revoke env now authorization form token =
    authenticate_client env (extract_client_auth env authorization form) (\<lambda>client s.
      let h = hash_token env token in
      case load_access_token env h s of
        (Inr (Some access), s1) \<Rightarrow>
          if at_client_id access = oc_client_id client then then_done (delete_access_token h) s1
          else (Done 200, s1)
      | (_, s1) \<Rightarrow> (case load_refresh_token env h s1 of
          (Inr (Some refresh), s2) \<Rightarrow>
            if rt_client_id refresh = oc_client_id client \<and> rt_revoked_at refresh = None
            then then_done (save_refresh_token env (refresh\<lparr>rt_revoked_at := Some now\<rparr>)) s2
            else (Done 200, s2)
        | (_, s2) \<Rightarrow> (Done 200, s2)))"

section \<open>What is found in a cell\<close>

definition found_at :: "'r codec \<Rightarrow> string \<Rightarrow> mem_store \<Rightarrow> 'r option" where
  "found_at c key s = (case hash_at s key of
      None \<Rightarrow> None | Some h \<Rightarrow> Option.bind (map_of h ''data'') (decode c))"

lemma read_json_state [simp]: "snd (read_json_hash c key s) = s"
  by (auto simp: read_json_hash_def io_simps admin_hash_get split: option.splits)

lemma read_json_Inr: "read_json_hash c key s = (Inr v, s') \<Longrightarrow> s' = s \<and> v = found_at c key s"
  by (auto simp: read_json_hash_def io_simps admin_hash_get found_at_def split: option.splits)

lemma read_json_found: "found_at c key s = Some r \<Longrightarrow> read_json_hash c key s = (Inr (Some r), s)"
  by (auto simp: read_json_hash_def io_simps admin_hash_get found_at_def bind_eq_Some_conv split: option.splits)

lemma write_json_Inr:
  assumes "codec_ok c" "write_json_hash c key r s = (Inr u, s')"
  shows "found_at c key s' = Some r" "key' \<noteq> key \<Longrightarrow> found_at c' key' s' = found_at c' key' s"
    "key' \<noteq> key \<Longrightarrow> map_of s' key' = map_of s key'"
proof -
  obtain b h where h: "encode c r = Some b" "hash_at s key = Some h"
    "s' = AList.update key (Hash (AList.update ''data'' b h)) s"
    using assms(2) by (auto simp: write_json_hash_def raise_def map_err_Inr_iff admin_hash_set_Inr split: option.splits)
  have "decode c b = Some r" using assms(1) h(1) by (simp add: codec_ok_def)
  then show "found_at c key s' = Some r" by (simp add: found_at_def h(3) cell_simps)
  show "key' \<noteq> key \<Longrightarrow> map_of s' key' = map_of s key'" by (simp add: h(3))
  then show "key' \<noteq> key \<Longrightarrow> found_at c' key' s' = found_at c' key' s"
    by (simp add: found_at_def hash_at_def)
qed

lemma found_at_cong: "map_of s key = map_of s' key \<Longrightarrow> found_at c key s = found_at c key s'"
  by (simp add: found_at_def hash_at_def)

lemma oauth_key_inj [simp]:
  "code_key a = code_key b \<longleftrightarrow> a = b" "refresh_key a = refresh_key b \<longleftrightarrow> a = b"
  "pending_key a = pending_key b \<longleftrightarrow> a = b" "access_key a = access_key b \<longleftrightarrow> a = b"
  by (simp_all add: code_key_def refresh_key_def pending_key_def access_key_def)

lemma oauth_keys_differ [simp]:
  "code_key a \<noteq> access_key b" "access_key b \<noteq> code_key a" "code_key a \<noteq> refresh_key b" "refresh_key b \<noteq> code_key a"
  "access_key a \<noteq> refresh_key b" "refresh_key b \<noteq> access_key a" "code_key a \<noteq> refresh_user_index_key u"
  "access_key a \<noteq> refresh_user_index_key u" "refresh_user_index_key u \<noteq> access_key a"
  "refresh_user_index_key u \<noteq> code_key a" "client_key c \<noteq> code_key a" "client_key c \<noteq> refresh_key a"
  by (simp_all add: code_key_def access_key_def refresh_key_def refresh_user_index_key_def client_key_def)

section \<open>Consuming once\<close>

text \<open>How often a key is used in a run of attempts on any keys.\<close>

fun wins :: "(int \<Rightarrow> 'k \<Rightarrow> 's \<Rightarrow> ('e + 'r option) \<times> 's) \<Rightarrow> 'k \<Rightarrow> (int \<times> 'k) list \<Rightarrow> 's \<Rightarrow> nat" where
  "wins consume k [] s = 0"
| "wins consume k ((t, k') # ks) s = (case consume t k' s of (x, s') \<Rightarrow>
     (if k' = k \<and> (\<exists>r. x = Inr (Some r)) then 1 else 0) + wins consume k ks s')"

text \<open>A kind of record that is good for one use: \<^theory_text>\<open>look\<close> finds it, \<^theory_text>\<open>live\<close> says that it has
  not been used, \<^theory_text>\<open>consume\<close> uses it.\<close>

locale one_shot =
  fixes valid :: bool
    and look :: "'k \<Rightarrow> 's \<Rightarrow> 'r option"
    and live :: "'r \<Rightarrow> bool"
    and consume :: "int \<Rightarrow> 'k \<Rightarrow> 's \<Rightarrow> ('e + 'r option) \<times> 's"
  assumes spends: "\<lbrakk>valid; consume t k s = (Inr (Some r), s')\<rbrakk> \<Longrightarrow>
      (\<exists>r0. look k s = Some r0 \<and> live r0) \<and> (\<forall>r1. look k s' = Some r1 \<longrightarrow> \<not> live r1)"
    and refuses: "\<lbrakk>valid; \<forall>r0. look k s = Some r0 \<longrightarrow> \<not> live r0; consume t k s = (x, s')\<rbrakk> \<Longrightarrow>
      (\<forall>r. x \<noteq> Inr (Some r)) \<and> (\<forall>r1. look k s' = Some r1 \<longrightarrow> \<not> live r1)"
    and leaves: "\<lbrakk>valid; k' \<noteq> k; consume t k s = (x, s')\<rbrakk> \<Longrightarrow> look k' s' = look k' s"
begin

lemma no_wins: "\<lbrakk>valid; \<forall>r. look k s = Some r \<longrightarrow> \<not> live r\<rbrakk> \<Longrightarrow> wins consume k ks s = 0"
proof (induction ks arbitrary: s)
  case (Cons p ks)
  obtain t k' where p: "p = (t, k')" by force
  obtain x s' where c: "consume t k' s = (x, s')" by force
  show ?case
  proof (cases "k' = k")
    case True
    then show ?thesis using refuses[OF Cons.prems(1) _ c] Cons p c by simp
  next
    case False
    then show ?thesis using leaves[OF Cons.prems(1) _ c, of k] Cons p c by simp
  qed
qed simp

lemma at_most_once: "valid \<Longrightarrow> wins consume k ks s \<le> 1"
proof (induction ks arbitrary: s)
  case (Cons p ks)
  obtain t k' where p: "p = (t, k')" by force
  obtain x s' where c: "consume t k' s = (x, s')" by force
  show ?case
  proof (cases "k' = k \<and> (\<exists>r. x = Inr (Some r))")
    case True
    then have "\<forall>r. look k s' = Some r \<longrightarrow> \<not> live r" using spends[OF Cons.prems] c by blast
    then show ?thesis using no_wins[OF Cons.prems] p c True by simp
  next
    case False
    then show ?thesis using Cons p c by auto
  qed
qed simp

end

text \<open>The shape of both: read, give up on a dead record, mark it and write it back.\<close>

definition use_once :: "'r codec \<Rightarrow> string \<Rightarrow> ('r \<Rightarrow> bool) \<Rightarrow> ('r \<Rightarrow> 'r) \<Rightarrow> 'r option oio" where
  "use_once c key dead mark = bind_io (read_json_hash c key) (\<lambda>v. case v of
      None \<Rightarrow> ret None
    | Some r \<Rightarrow> if dead r then ret None else seq_io (write_json_hash c key (mark r)) (ret (Some (mark r))))"

lemma consume_code_use:
  "consume_authorization_code env t k =
     use_once (code_codec env) (code_key k) (\<lambda>r. ac_used_at r \<noteq> None) (\<lambda>r. r\<lparr>ac_used_at := Some t\<rparr>)"
  unfolding consume_authorization_code_def use_once_def Let_def by (rule refl)

lemma consume_refresh_use:
  "consume_refresh_token env t k = use_once (refresh_codec env) (refresh_key k)
     (\<lambda>r. rt_used_at r \<noteq> None \<or> rt_revoked_at r \<noteq> None) (\<lambda>r. r\<lparr>rt_used_at := Some t\<rparr>)"
  unfolding consume_refresh_token_def use_once_def Let_def by (rule refl)

definition code_live :: "authorization_code \<Rightarrow> bool" where "code_live r \<longleftrightarrow> ac_used_at r = None"
definition refresh_live :: "refresh_token \<Rightarrow> bool" where
  "refresh_live r \<longleftrightarrow> rt_used_at r = None \<and> rt_revoked_at r = None"

lemma write_json_Inl: "write_json_hash c key r s = (Inl e, s') \<Longrightarrow> s' = s"
  by (auto simp: write_json_hash_def raise_def map_err_run bucket_hash_set_def admin_bucket_def
      mem_hash_set_def split: option.splits mem_value.splits prod.splits sum.splits)

lemma read_json_cases:
  obtains e where "read_json_hash c key s = (Inl e, s)" "found_at c key s = None"
  | "read_json_hash c key s = (Inr (found_at c key s), s)"
proof -
  obtain x s' where r: "read_json_hash c key s = (x, s')" by force
  then have s': "s' = s" using read_json_state[of c key s] by simp
  show thesis
  proof (cases x)
    case (Inl e)
    have "found_at c key s = None"
      using read_json_found[of c key s] r Inl by (cases "found_at c key s") auto
    then show thesis using that(1) r Inl s' by simp
  next
    case (Inr v)
    then show thesis using that(2) r s' read_json_Inr[of c key s v s'] by simp
  qed
qed

lemma use_once_cases:
  assumes "codec_ok c" "use_once c key dead mark s = (x, s')"
  shows "(\<exists>r. found_at c key s = Some r \<and> \<not> dead r \<and> x = Inr (Some (mark r))
        \<and> found_at c key s' = Some (mark r) \<and> (\<forall>key'. key' \<noteq> key \<longrightarrow> map_of s' key' = map_of s key'))
    \<or> (s' = s \<and> (\<forall>r. x \<noteq> Inr (Some r)))"
proof (cases rule: read_json_cases[of c key s])
  case (1 e)
  then have "use_once c key dead mark s = (Inl e, s)" by (simp add: use_once_def bind_io_def)
  then show ?thesis using assms(2) by auto
next
  case 2
  show ?thesis
  proof (cases "found_at c key s")
    case None
    then have "use_once c key dead mark s = (Inr None, s)" using 2 by (simp add: use_once_def bind_io_def ret_def)
    then show ?thesis using assms(2) by auto
  next
    case (Some r)
    obtain y s1 where w: "write_json_hash c key (mark r) s = (y, s1)" by force
    have run: "use_once c key dead mark s = (if dead r then (Inr None, s)
        else (case y of Inl e \<Rightarrow> (Inl e, s1) | Inr u \<Rightarrow> (Inr (Some (mark r)), s1)))"
      using 2 w Some by (simp add: use_once_def bind_io_def seq_io_def ret_def split: sum.split)
    show ?thesis
    proof (cases "dead r \<or> isl y")
      case True
      then have "s' = s \<and> (\<forall>r. x \<noteq> Inr (Some r))"
        using assms(2) run w write_json_Inl by (cases y) (fastforce split: if_splits)+
      then show ?thesis by simp
    next
      case False
      then obtain u where y: "y = Inr u" by (cases y) auto
      have "x = Inr (Some (mark r))" "s' = s1" using assms(2) run False y by auto
      then show ?thesis using write_json_Inr(1,3)[OF assms(1) w[unfolded y]] Some False by blast
    qed
  qed
qed

lemma consume_code_cases:
  assumes "oauth_env_ok env" "consume_authorization_code env t k s = (x, s')"
  shows "(\<exists>r. found_at (code_codec env) (code_key k) s = Some r \<and> code_live r
        \<and> x = Inr (Some (r\<lparr>ac_used_at := Some t\<rparr>))
        \<and> found_at (code_codec env) (code_key k) s' = Some (r\<lparr>ac_used_at := Some t\<rparr>)
        \<and> (\<forall>key. key \<noteq> code_key k \<longrightarrow> map_of s' key = map_of s key))
    \<or> (s' = s \<and> (\<forall>r. x \<noteq> Inr (Some r)))"
  using use_once_cases[OF _ assms(2)[unfolded consume_code_use]] assms(1)
  by (simp add: oauth_env_ok_def code_live_def)

lemma consume_refresh_cases:
  assumes "oauth_env_ok env" "consume_refresh_token env t k s = (x, s')"
  shows "(\<exists>r. found_at (refresh_codec env) (refresh_key k) s = Some r \<and> refresh_live r
        \<and> x = Inr (Some (r\<lparr>rt_used_at := Some t\<rparr>))
        \<and> found_at (refresh_codec env) (refresh_key k) s' = Some (r\<lparr>rt_used_at := Some t\<rparr>)
        \<and> (\<forall>key. key \<noteq> refresh_key k \<longrightarrow> map_of s' key = map_of s key))
    \<or> (s' = s \<and> (\<forall>r. x \<noteq> Inr (Some r)))"
  using use_once_cases[OF _ assms(2)[unfolded consume_refresh_use]] assms(1)
  by (simp add: oauth_env_ok_def refresh_live_def)

interpretation code_use: one_shot "oauth_env_ok env" "\<lambda>k. found_at (code_codec env) (code_key k)"
  code_live "consume_authorization_code env" for env
proof
  fix t k s r s'
  assume "oauth_env_ok env" "consume_authorization_code env t k s = (Inr (Some r), s')"
  from consume_code_cases[OF this]
  show "(\<exists>r0. found_at (code_codec env) (code_key k) s = Some r0 \<and> code_live r0)
    \<and> (\<forall>r1. found_at (code_codec env) (code_key k) s' = Some r1 \<longrightarrow> \<not> code_live r1)"
    by (auto simp: code_live_def)
next
  fix t k s x s'
  assume h: "\<forall>r0. found_at (code_codec env) (code_key k) s = Some r0 \<longrightarrow> \<not> code_live r0"
    and c: "oauth_env_ok env" "consume_authorization_code env t k s = (x, s')"
  show "(\<forall>r. x \<noteq> Inr (Some r)) \<and> (\<forall>r1. found_at (code_codec env) (code_key k) s' = Some r1 \<longrightarrow> \<not> code_live r1)"
    using consume_code_cases[OF c] h by auto
next
  fix k' k t s x s'
  assume "k' \<noteq> k" and c: "oauth_env_ok env" "consume_authorization_code env t k s = (x, s')"
  then show "found_at (code_codec env) (code_key k') s' = found_at (code_codec env) (code_key k') s"
    using consume_code_cases[OF c] by (auto intro: found_at_cong)
qed

interpretation refresh_use: one_shot "oauth_env_ok env" "\<lambda>k. found_at (refresh_codec env) (refresh_key k)"
  refresh_live "consume_refresh_token env" for env
proof
  fix t k s r s'
  assume "oauth_env_ok env" "consume_refresh_token env t k s = (Inr (Some r), s')"
  from consume_refresh_cases[OF this]
  show "(\<exists>r0. found_at (refresh_codec env) (refresh_key k) s = Some r0 \<and> refresh_live r0)
    \<and> (\<forall>r1. found_at (refresh_codec env) (refresh_key k) s' = Some r1 \<longrightarrow> \<not> refresh_live r1)"
    by (auto simp: refresh_live_def)
next
  fix t k s x s'
  assume h: "\<forall>r0. found_at (refresh_codec env) (refresh_key k) s = Some r0 \<longrightarrow> \<not> refresh_live r0"
    and c: "oauth_env_ok env" "consume_refresh_token env t k s = (x, s')"
  show "(\<forall>r. x \<noteq> Inr (Some r)) \<and> (\<forall>r1. found_at (refresh_codec env) (refresh_key k) s' = Some r1 \<longrightarrow> \<not> refresh_live r1)"
    using consume_refresh_cases[OF c] h by auto
next
  fix k' k t s x s'
  assume "k' \<noteq> k" and c: "oauth_env_ok env" "consume_refresh_token env t k s = (x, s')"
  then show "found_at (refresh_codec env) (refresh_key k') s' = found_at (refresh_codec env) (refresh_key k') s"
    using consume_refresh_cases[OF c] by (auto intro: found_at_cong)
qed

text \<open>A small host: one client, one code; hashes and challenges are plain texts.\<close>

definition demo_client :: oauth_client where
  "demo_client = \<lparr>oc_client_id = ''c'', oc_client_secret_hash = ''pw'', oc_client_name = ''n'',
     oc_redirect_uris = [''u''], oc_grant_types = [], oc_response_types = [],
     oc_token_endpoint_auth_method = ''client_secret_post'', oc_created_at = 0,
     oc_last_used_at = None, oc_revoked_at = None\<rparr>"

definition demo_code :: "int option \<Rightarrow> authorization_code" where
  "demo_code used = \<lparr>ac_code = ''k'', ac_client_id = ''c'', ac_user_id = ''user'', ac_redirect_uri = ''u'',
     ac_scope = ''*'', ac_code_challenge = ''v'', ac_code_challenge_method = ''S256'', ac_created_at = 0,
     ac_used_at = used\<rparr>"

definition demo_access :: access_token where
  "demo_access = \<lparr>at_token_hash = ''a1'', at_client_id = ''c'', at_user_id = ''user'', at_scope = ''*'',
     at_created_at = 5, at_expires_at = 5 + seconds 3600\<rparr>"

definition demo_refresh :: refresh_token where
  "demo_refresh = \<lparr>rt_token_hash = ''r1'', rt_client_id = ''c'', rt_user_id = ''user'', rt_scope = ''*'',
     rt_created_at = 5, rt_used_at = None, rt_revoked_at = None\<rparr>"

definition demo_oauth :: oauth_env where
  "demo_oauth = \<lparr>client_codec = table_codec [demo_client], pending_codec = table_codec [],
     code_codec = table_codec [demo_code None, demo_code (Some 5)], refresh_codec = table_codec [demo_refresh],
     access_codec = table_codec [demo_access],
     sha256_hex = map (\<lambda>c. if c = CHR '':'' then CHR ''.'' else c), sha256_b64 = (\<lambda>t. t),
     parse_url = (\<lambda>t. None), append_params = (\<lambda>u ps. u), verify_password = (\<lambda>h t. h = t),
     base64_decode = (\<lambda>t. None)\<rparr>"

definition demo_oauth_store :: mem_store where
  "demo_oauth_store = [(client_key ''c'', Hash [(''data'', ''0'')]), (code_key ''k'', Hash [(''data'', ''0'')])]"

lemma demo_oauth_ok: "oauth_env_ok demo_oauth"
proof -
  have "codec_ok (table_codec [demo_client])" "codec_ok (table_codec [demo_code None, demo_code (Some 5)])"
    "codec_ok (table_codec [demo_refresh])" "codec_ok (table_codec [demo_access])"
    "codec_ok (table_codec ([]::pending_authorization list))"
    by (rule table_codec_ok, simp add: demo_code_def)+
  then show ?thesis by (simp add: oauth_env_ok_def demo_oauth_def)
qed

lemma demo_rows:
  "decode (table_codec (r # rs)) ''0'' = Some r" "encode (table_codec (r # rs)) r = Some ''0''"
  "r' \<noteq> r \<Longrightarrow> encode (table_codec [r, r']) r' = Some ''1''" "decode (table_codec [r, r']) ''1'' = Some r'"
  by (simp_all add: table_codec_def demo_digits upt_rec)

lemma demo_code_found:
  "found_at (code_codec demo_oauth) (code_key ''k'') demo_oauth_store = Some (demo_code None)"
  "found_at (client_codec demo_oauth) (client_key ''c'') demo_oauth_store = Some demo_client"
  by (simp_all add: found_at_def hash_at_def demo_oauth_store_def demo_oauth_def demo_rows)

lemma demo_code_marked:
  "code_live (demo_code None)" "(demo_code None)\<lparr>ac_used_at := Some 5\<rparr> = demo_code (Some 5)"
  "encode (code_codec demo_oauth) ((demo_code None)\<lparr>ac_used_at := Some 5\<rparr>) \<noteq> None"
proof -
  show e: "(demo_code None)\<lparr>ac_used_at := Some 5\<rparr> = demo_code (Some 5)" by (simp add: demo_code_def)
  have "demo_code (Some 5) \<noteq> demo_code None" by (simp add: demo_code_def)
  then show "encode (code_codec demo_oauth) ((demo_code None)\<lparr>ac_used_at := Some 5\<rparr>) \<noteq> None"
    unfolding e by (simp add: demo_oauth_def demo_rows)
qed (simp add: code_live_def demo_code_def)

text \<open>Authorization codes and refresh tokens are single use: in any run of requests, with
  any keys and at any times, handled one after the other, a code is redeemed at most once and
  a refresh token is rotated at most once.\<close>

theorem single_use:
  assumes "oauth_env_ok env"
  shows "wins (consume_authorization_code env) k ks s \<le> 1 \<and> wins (consume_refresh_token env) k ks s \<le> 1"
  using code_use.at_most_once[OF assms] refresh_use.at_most_once[OF assms] by blast

theorem single_use_witness:
  "wins (consume_authorization_code demo_oauth) ''k'' [(5, ''k''), (6, ''k''), (7, ''j''), (8, ''k'')] demo_oauth_store \<le> 1"
  using single_use[OF demo_oauth_ok] by blast

section \<open>The token endpoint\<close>

lemma try_or_Tokens:
  assumes "try_or bad m f s = (Tokens r, s')" "\<And>t. bad \<noteq> Tokens t"
  obtains x s1 where "m s = (Inr x, s1)" "f x s1 = (Tokens r, s')"
  using assms by (auto simp: try_or_def split: prod.splits sum.splits)

lemma save_access_Inr:
  assumes "codec_ok (access_codec env)" "save_access_token env now t s = (Inr u, s')"
  shows "found_at (access_codec env) (access_key (at_token_hash t)) s' = Some t"
    "\<forall>key. key \<noteq> access_key (at_token_hash t) \<longrightarrow> map_of s' key = map_of s key"
proof -
  have w: "write_json_hash (access_codec env) (access_key (at_token_hash t)) t s = (Inr (), s')"
    using assms(2) by (auto simp: save_access_token_def seq_io_def bind_io_Inr_iff map_err_Inr_iff admin_ttl)
  show "found_at (access_codec env) (access_key (at_token_hash t)) s' = Some t"
    by (rule write_json_Inr(1)[OF assms(1) w])
  show "\<forall>key. key \<noteq> access_key (at_token_hash t) \<longrightarrow> map_of s' key = map_of s key"
    using write_json_Inr(3)[OF assms(1) w] by blast
qed

text \<open>Hashes are not the word that the index keys start with.\<close>

definition hash_like :: "string \<Rightarrow> bool" where
  "hash_like h \<longleftrightarrow> CHR '':'' \<notin> set h"

lemma index_key_differs [simp]: "hash_like h \<Longrightarrow> refresh_key h \<noteq> refresh_user_index_key u"
  by (auto simp: hash_like_def refresh_key_def refresh_user_index_key_def)

lemma save_refresh_Inr:
  assumes "codec_ok (refresh_codec env)" "save_refresh_token env t s = (Inr u, s')" "hash_like (rt_token_hash t)"
  shows "found_at (refresh_codec env) (refresh_key (rt_token_hash t)) s' = Some t"
    "\<forall>key. key \<noteq> refresh_key (rt_token_hash t) \<and> key \<noteq> refresh_user_index_key (rt_user_id t)
       \<longrightarrow> map_of s' key = map_of s key"
proof -
  obtain s1 where w: "write_json_hash (refresh_codec env) (refresh_key (rt_token_hash t)) t s = (Inr (), s1)"
    and a: "bucket_set_add admin_bucket (refresh_user_index_key (rt_user_id t)) (rt_token_hash t) s1 = (Inr u, s')"
    using assms(2) by (auto simp: save_refresh_token_def seq_io_def bind_io_Inr_iff map_err_Inr_iff admin_ttl)
  obtain m where s': "s' = AList.update (refresh_user_index_key (rt_user_id t)) (Set m) s1"
    using a by (auto simp: admin_set_add_Inr)
  show "found_at (refresh_codec env) (refresh_key (rt_token_hash t)) s' = Some t"
    using write_json_Inr(1)[OF assms(1) w] index_key_differs[OF assms(3)]
    by (simp add: s' found_at_def hash_at_def)
  show "\<forall>key. key \<noteq> refresh_key (rt_token_hash t) \<and> key \<noteq> refresh_user_index_key (rt_user_id t)
       \<longrightarrow> map_of s' key = map_of s key"
    using write_json_Inr(3)[OF assms(1) w] by (simp add: s')
qed

text \<open>What an exchange that answers with tokens has stored.\<close>

definition tokens_stored :: "oauth_env \<Rightarrow> minted \<Rightarrow> int \<Rightarrow> string \<Rightarrow> string \<Rightarrow> string \<Rightarrow> mem_store \<Rightarrow> bool" where
  "tokens_stored env mint now cid user_id scope s \<longleftrightarrow>
     found_at (access_codec env) (access_key (hash_token env (new_access mint))) s =
       Some \<lparr>at_token_hash = hash_token env (new_access mint), at_client_id = cid, at_user_id = user_id,
         at_scope = scope, at_created_at = now, at_expires_at = now + seconds 3600\<rparr>
   \<and> found_at (refresh_codec env) (refresh_key (hash_token env (new_refresh mint))) s =
       Some \<lparr>rt_token_hash = hash_token env (new_refresh mint), rt_client_id = cid, rt_user_id = user_id,
         rt_scope = scope, rt_created_at = now, rt_used_at = None, rt_revoked_at = None\<rparr>"

definition hashes_ok :: "oauth_env \<Rightarrow> bool" where
  "hashes_ok env \<longleftrightarrow> oauth_env_ok env \<and> (\<forall>t. hash_like (hash_token env t))"

lemma mint_tokens_Tokens:
  assumes "hashes_ok env" "mint_tokens env mint now cid user_id scope s = (Tokens r, s')"
  shows "tr_access_token r = new_access mint \<and> tr_refresh_token r = Some (new_refresh mint)
    \<and> tr_scope r = scope \<and> tokens_stored env mint now cid user_id scope s'
    \<and> (\<forall>key. key \<noteq> access_key (hash_token env (new_access mint))
          \<and> key \<noteq> refresh_key (hash_token env (new_refresh mint))
          \<and> key \<noteq> refresh_user_index_key user_id \<longrightarrow> map_of s' key = map_of s key)"
proof -
  let ?a = "\<lparr>at_token_hash = hash_token env (new_access mint), at_client_id = cid, at_user_id = user_id,
       at_scope = scope, at_created_at = now, at_expires_at = now + seconds ACCESS_TOKEN_TTL_SECONDS\<rparr>"
  let ?r = "\<lparr>rt_token_hash = hash_token env (new_refresh mint), rt_client_id = cid, rt_user_id = user_id,
       rt_scope = scope, rt_created_at = now, rt_used_at = None, rt_revoked_at = None\<rparr>"
  have ok: "codec_ok (access_codec env)" "codec_ok (refresh_codec env)" "hash_like (rt_token_hash ?r)"
    using assms(1) by (simp_all add: hashes_ok_def oauth_env_ok_def)
  obtain u1 s1 u2 where 1: "save_access_token env now ?a s = (Inr u1, s1)"
    and 2: "save_refresh_token env ?r s1 = (Inr u2, s')"
    and r: "r = \<lparr>tr_access_token = new_access mint, tr_token_type = ''Bearer'',
      tr_expires_in = ACCESS_TOKEN_TTL_SECONDS, tr_scope = scope, tr_refresh_token = Some (new_refresh mint)\<rparr>"
    using assms(2) unfolding mint_tokens_def by (auto elim!: try_or_Tokens simp: reply_def)
  note a = save_access_Inr[OF ok(1) 1] and b = save_refresh_Inr[OF ok(2) 2 ok(3)]
  have "found_at (access_codec env) (access_key (hash_token env (new_access mint))) s' = Some ?a"
    using a(1) b(2) by (simp add: found_at_cong[of s'])
  then show ?thesis using a(2) b(1,2) r
    by (simp add: tokens_stored_def ACCESS_TOKEN_TTL_SECONDS_def)
qed

lemma reply_not_Tokens [simp]:
  "reply (OAuthError n c) s \<noteq> (Tokens r, s')" "reply internal_error s \<noteq> (Tokens r, s')"
  by (simp_all add: reply_def)

lemma authenticate_Tokens:
  assumes "authenticate_client env auth f s = (Tokens r, s')"
  obtains cid given client where "auth = Some (cid, given)"
    "found_at (client_codec env) (client_key cid) s = Some client" "oc_revoked_at client = None"
    "verify_password env (oc_client_secret_hash client) given" "f client s = (Tokens r, s')"
proof (cases auth)
  case None
  then show thesis using assms by (simp add: authenticate_client_def)
next
  case (Some p)
  obtain cid given where p: "p = (cid, given)" by force
  obtain v s1 where l: "load_client env cid s = (Inr v, s1)"
    "(case v of None \<Rightarrow> reply (OAuthError 401 ''invalid_client'')
      | Some client \<Rightarrow> if oc_revoked_at client \<noteq> None then reply (OAuthError 401 ''invalid_client'')
        else if \<not> verify_password env (oc_client_secret_hash client) given
        then reply (OAuthError 401 ''invalid_client'') else f client) s1 = (Tokens r, s')"
    using assms Some p unfolding authenticate_client_def by (auto elim!: try_or_Tokens simp del: not_None_eq)
  have v: "s1 = s" "v = found_at (client_codec env) (client_key cid) s"
    using read_json_Inr[OF l(1)[unfolded load_client_def]] by simp_all
  show thesis
    using that[of cid given] l(2)[unfolded v] Some p
    by (cases "found_at (client_codec env) (client_key cid) s") (auto split: if_splits)
qed

text \<open>C24: Tokens are issued only for a credential that was good.  When the token endpoint
  answers with tokens, the client is known, not revoked and proved its secret, and either the
  code was unused, issued to that client for that redirect URI and the verifier is the
  pre-image of its challenge, or the refresh token was live and its own.  The new tokens are
  stored for the same user, and the code or the old refresh token is spent.\<close>

theorem token_endpoint_sound:
  assumes "hashes_ok env" "oauth_token env mint now authz form s = (Tokens r, s')"
    and "\<forall>old. tf_refresh_token form = Some old \<longrightarrow> hash_token env old \<noteq> hash_token env (new_refresh mint)"
  shows "\<exists>cid given client. extract_client_auth env authz form = Some (cid, given)
    \<and> found_at (client_codec env) (client_key cid) s = Some client \<and> oc_revoked_at client = None
    \<and> verify_password env (oc_client_secret_hash client) given
    \<and> ((\<exists>i c verifier. tf_code form = Some i \<and> found_at (code_codec env) (code_key i) s = Some c
          \<and> code_live c \<and> ac_client_id c = oc_client_id client \<and> tf_redirect_uri form = Some (ac_redirect_uri c)
          \<and> tf_code_verifier form = Some verifier \<and> sha256_b64 env verifier = ac_code_challenge c
          \<and> tokens_stored env mint now (oc_client_id client) (ac_user_id c) (ac_scope c) s'
          \<and> (\<forall>c'. found_at (code_codec env) (code_key i) s' = Some c' \<longrightarrow> \<not> code_live c'))
      \<or> (\<exists>old t. tf_refresh_token form = Some old
          \<and> found_at (refresh_codec env) (refresh_key (hash_token env old)) s = Some t
          \<and> refresh_live t \<and> rt_client_id t = oc_client_id client
          \<and> tokens_stored env mint now (oc_client_id client) (rt_user_id t) (rt_scope t) s'
          \<and> (\<forall>t'. found_at (refresh_codec env) (refresh_key (hash_token env old)) s' = Some t' \<longrightarrow> \<not> refresh_live t')))"
proof -
  have ok: "oauth_env_ok env" using assms(1) by (simp add: hashes_ok_def)
  obtain cid given client where c: "extract_client_auth env authz form = Some (cid, given)"
    "found_at (client_codec env) (client_key cid) s = Some client" "oc_revoked_at client = None"
    "verify_password env (oc_client_secret_hash client) given"
    "(if tf_grant_type form = ''authorization_code''
      then handle_authorization_code_grant env mint now client form
      else if tf_grant_type form = ''refresh_token''
      then handle_refresh_token_grant env mint now client form
      else reply (OAuthError 400 ''unsupported_grant_type'')) s = (Tokens r, s')"
    using assms(2) unfolding oauth_token_def by (rule authenticate_Tokens)
  consider (code) "handle_authorization_code_grant env mint now client form s = (Tokens r, s')"
    | (refresh) "handle_refresh_token_grant env mint now client form s = (Tokens r, s')"
    using c(5) by (auto split: if_splits)
  then show ?thesis
  proof cases
    case code
    obtain i uri verifier where f: "tf_code form = Some i" "tf_redirect_uri form = Some uri"
      "tf_code_verifier form = Some verifier"
      using code by (auto simp: handle_authorization_code_grant_def split: option.splits)
    obtain v s1 where m: "consume_authorization_code env now i s = (Inr v, s1)"
      "(case v of None \<Rightarrow> reply (OAuthError 400 ''invalid_grant'')
       | Some consumed \<Rightarrow>
        if ac_client_id consumed \<noteq> oc_client_id client then reply (OAuthError 400 ''invalid_grant'')
        else if ac_redirect_uri consumed \<noteq> uri then reply (OAuthError 400 ''invalid_grant'')
        else if \<not> verify_pkce env (ac_code_challenge consumed) verifier
        then reply (OAuthError 400 ''invalid_grant'')
        else mint_tokens env mint now (oc_client_id client) (ac_user_id consumed) (ac_scope consumed)) s1
       = (Tokens r, s')"
      using code f unfolding handle_authorization_code_grant_def by (auto elim!: try_or_Tokens)
    obtain rec where v: "v = Some rec" using m(2) by (cases v) auto
    obtain x where x: "found_at (code_codec env) (code_key i) s = Some x" "code_live x"
      "rec = x\<lparr>ac_used_at := Some now\<rparr>"
      "found_at (code_codec env) (code_key i) s1 = Some (x\<lparr>ac_used_at := Some now\<rparr>)"
      using consume_code_cases[OF ok m(1)] v by auto
    have g: "ac_client_id x = oc_client_id client" "ac_redirect_uri x = uri"
      "sha256_b64 env verifier = ac_code_challenge x"
      and mt: "mint_tokens env mint now (oc_client_id client) (ac_user_id x) (ac_scope x) s1 = (Tokens r, s')"
      using m(2) v x(3) by (auto simp: verify_pkce_def split: if_splits)
    note stored = mint_tokens_Tokens[OF assms(1) mt]
    have "found_at (code_codec env) (code_key i) s' = found_at (code_codec env) (code_key i) s1"
      using stored by (auto intro: found_at_cong)
    then show ?thesis using c f x(1,2,4) g stored by (auto simp: code_live_def)
  next
    case refresh
    obtain old where f: "tf_refresh_token form = Some old"
      using refresh by (auto simp: handle_refresh_token_grant_def split: option.splits)
    obtain v s1 where m: "consume_refresh_token env now (hash_token env old) s = (Inr v, s1)"
      "(case v of None \<Rightarrow> reply (OAuthError 400 ''invalid_grant'')
       | Some consumed \<Rightarrow>
        if rt_client_id consumed \<noteq> oc_client_id client then reply (OAuthError 400 ''invalid_grant'')
        else mint_tokens env mint now (rt_client_id consumed) (rt_user_id consumed) (rt_scope consumed)) s1
       = (Tokens r, s')"
      using refresh f unfolding handle_refresh_token_grant_def by (auto elim!: try_or_Tokens)
    obtain rec where v: "v = Some rec" using m(2) by (cases v) auto
    obtain x where x: "found_at (refresh_codec env) (refresh_key (hash_token env old)) s = Some x" "refresh_live x"
      "rec = x\<lparr>rt_used_at := Some now\<rparr>"
      "found_at (refresh_codec env) (refresh_key (hash_token env old)) s1 = Some (x\<lparr>rt_used_at := Some now\<rparr>)"
      using consume_refresh_cases[OF ok m(1)] v by auto
    have g: "rt_client_id x = oc_client_id client"
      and mt: "mint_tokens env mint now (oc_client_id client) (rt_user_id x) (rt_scope x) s1 = (Tokens r, s')"
      using m(2) v x(3) by (auto split: if_splits)
    note stored = mint_tokens_Tokens[OF assms(1) mt]
    have "hash_token env old \<noteq> hash_token env (new_refresh mint)" using f assms(3) by blast
    moreover have "refresh_key (hash_token env old) \<noteq> refresh_user_index_key (rt_user_id x)"
      using assms(1) by (simp add: hashes_ok_def)
    ultimately have "found_at (refresh_codec env) (refresh_key (hash_token env old)) s'
        = found_at (refresh_codec env) (refresh_key (hash_token env old)) s1"
      using stored by (auto intro: found_at_cong)
    then show ?thesis using c f x(1,2,4) g stored by (auto simp: refresh_live_def)
  qed
qed

definition demo_form :: "string \<Rightarrow> token_form" where
  "demo_form verifier = \<lparr>tf_grant_type = ''authorization_code'', tf_code = Some ''k'', tf_redirect_uri = Some ''u'',
     tf_code_verifier = Some verifier, tf_refresh_token = None, tf_client_id = Some ''c'', tf_client_secret = Some ''pw''\<rparr>"

definition demo_mint :: minted where
  "demo_mint = \<lparr>new_access = ''a1'', new_refresh = ''r1''\<rparr>"

lemma demo_hashes: "hashes_ok demo_oauth"
proof -
  have "CHR '':'' \<notin> (\<lambda>c. if c = CHR '':'' then CHR ''.'' else c) ` S" for S by auto
  then show ?thesis using demo_oauth_ok by (simp add: hashes_ok_def hash_like_def hash_token_def demo_oauth_def)
qed

lemma demo_consume:
  "consume_authorization_code demo_oauth 5 ''k'' demo_oauth_store = (Inr (Some (demo_code (Some 5))),
     [(client_key ''c'', Hash [(''data'', ''0'')]), (code_key ''k'', Hash [(''data'', ''1'')])])"
proof -
  have "encode (code_codec demo_oauth) (demo_code (Some 5)) = Some ''1''"
    by (simp add: demo_oauth_def demo_rows demo_code_def)
  moreover have "hash_at demo_oauth_store (code_key ''k'') = Some [(''data'', ''0'')]"
    by (simp add: hash_at_def demo_oauth_store_def)
  moreover have "ac_used_at (demo_code None) = None" by (simp add: demo_code_def)
  ultimately show ?thesis
    by (simp add: consume_code_use use_once_def bind_io_def seq_io_def ret_def read_json_found[OF demo_code_found(1)]
        demo_code_marked(2) write_json_hash_def map_err_run admin_hash_set) (simp add: demo_oauth_store_def)
qed

lemma demo_exchange: "\<exists>r s'. oauth_token demo_oauth demo_mint 5 None (demo_form ''v'') demo_oauth_store = (Tokens r, s')"
proof -
  have f: "tf_client_id (demo_form ''v'') = Some ''c''" "tf_client_secret (demo_form ''v'') = Some ''pw''"
    "tf_grant_type (demo_form ''v'') = ''authorization_code''" "tf_code (demo_form ''v'') = Some ''k''"
    "tf_redirect_uri (demo_form ''v'') = Some ''u''" "tf_code_verifier (demo_form ''v'') = Some ''v''"
    by (simp_all add: demo_form_def)
  have c: "oc_revoked_at demo_client = None" "oc_client_secret_hash demo_client = ''pw''" "oc_client_id demo_client = ''c''"
    "verify_password demo_oauth h t = (h = t)" "verify_pkce demo_oauth ch t = (t = ch)" for h t ch
    by (simp_all add: demo_client_def demo_oauth_def verify_pkce_def)
  have d: "ac_client_id (demo_code u) = ''c''" "ac_redirect_uri (demo_code u) = ''u''"
    "ac_code_challenge (demo_code u) = ''v''" "ac_user_id (demo_code u) = ''user''" "ac_scope (demo_code u) = ''*''" for u
    by (simp_all add: demo_code_def)
  have m: "new_access demo_mint = ''a1''" "new_refresh demo_mint = ''r1''"
    "hash_token demo_oauth ''a1'' = ''a1''" "hash_token demo_oauth ''r1'' = ''r1''"
    by (simp_all add: demo_mint_def hash_token_def demo_oauth_def)
  have e: "encode (access_codec demo_oauth) demo_access = Some ''0''" "encode (refresh_codec demo_oauth) demo_refresh = Some ''0''"
    by (simp_all add: demo_oauth_def demo_rows)
  have a: "\<lparr>at_token_hash = ''a1'', at_client_id = ''c'', at_user_id = ''user'', at_scope = ''*'',
     at_created_at = 5, at_expires_at = 3600000000005\<rparr> = demo_access"
    "rt_token_hash demo_refresh = ''r1''" "rt_user_id demo_refresh = ''user''"
    by (simp_all add: demo_access_def demo_refresh_def)
  show ?thesis
    by (simp add: oauth_token_def extract_client_auth_def basic_auth_def authenticate_client_def f try_or_def c
        load_client_def read_json_found[OF demo_code_found(2)] handle_authorization_code_grant_def demo_consume d
        mint_tokens_def m save_access_token_def save_refresh_token_def seq_io_def bind_io_def write_json_hash_def
        a demo_refresh_def[symmetric] ACCESS_TOKEN_TTL_SECONDS_def e map_err_run
        bucket_set_ttl_def reply_def)
      (simp add: admin_hash_set admin_set_add hash_at_def set_at_def bind_io_def seq_io_def map_err_run
        try_or_def reply_def bucket_set_ttl_def a e
        access_key_def refresh_key_def client_key_def code_key_def refresh_user_index_key_def)
qed

theorem token_endpoint_sound_witness:
  "\<exists>r s'. oauth_token demo_oauth demo_mint 5 None (demo_form ''v'') demo_oauth_store = (Tokens r, s')
    \<and> tokens_stored demo_oauth demo_mint 5 ''c'' ''user'' ''*'' s'"
proof -
  obtain r s' where x: "oauth_token demo_oauth demo_mint 5 None (demo_form ''v'') demo_oauth_store = (Tokens r, s')"
    using demo_exchange by blast
  have n: "tf_refresh_token (demo_form ''v'') = None" "tf_code (demo_form ''v'') = Some ''k''"
    "extract_client_auth demo_oauth None (demo_form ''v'') = Some (''c'', ''pw'')"
    by (simp_all add: demo_form_def extract_client_auth_def basic_auth_def)
  have d: "ac_user_id (demo_code None) = ''user''" "ac_scope (demo_code None) = ''*''" "oc_client_id demo_client = ''c''"
    by (simp_all add: demo_code_def demo_client_def)
  have "tokens_stored demo_oauth demo_mint 5 ''c'' ''user'' ''*'' s'"
    using token_endpoint_sound[OF demo_hashes x] n demo_code_found d by auto
  then show ?thesis using x by blast
qed

text \<open>A failed exchange burns the code.  The code is marked used before the client, the
  redirect URI and the verifier are compared, so one request with a wrong verifier, or from
  any other registered client, makes every later exchange of the code fail, the right one
  included.\<close>

theorem wrong_verifier_burns_code:
  assumes "oauth_env_ok env"
    and "tf_code form = Some i" "tf_redirect_uri form = Some uri" "tf_code_verifier form = Some verifier"
    and "found_at (code_codec env) (code_key i) s = Some c" "encode (code_codec env) (c\<lparr>ac_used_at := Some now\<rparr>) \<noteq> None"
    and "ac_client_id c \<noteq> oc_client_id other \<or> ac_redirect_uri c \<noteq> uri \<or> sha256_b64 env verifier \<noteq> ac_code_challenge c"
    and "handle_authorization_code_grant env mint now other form s = (r, s')"
    and "tf_code form' = Some i"
  shows "r = OAuthError 400 ''invalid_grant'' \<and>
    (\<forall>later client mint' tr s''. handle_authorization_code_grant env mint' later client form' s' \<noteq> (Tokens tr, s''))"
proof -
  obtain h where h: "hash_at s (code_key i) = Some h"
    using assms(5) by (auto simp: found_at_def split: option.splits)
  obtain x s1 where x: "consume_authorization_code env now i s = (x, s1)" by force
  note run = consume_code_cases[OF assms(1) x]
  have dead: "\<forall>r0. found_at (code_codec env) (code_key i) s1 = Some r0 \<longrightarrow> \<not> code_live r0"
    and bad: "(case x of Inl e \<Rightarrow> False | Inr None \<Rightarrow> True | Inr (Some rec) \<Rightarrow> rec = c\<lparr>ac_used_at := Some now\<rparr>)"
  proof -
    have "read_json_hash (code_codec env) (code_key i) s = (Inr (Some c), s)" by (rule read_json_found[OF assms(5)])
    moreover obtain b where "encode (code_codec env) (c\<lparr>ac_used_at := Some now\<rparr>) = Some b" using assms(6) by blast
    ultimately have xs: "x = (if ac_used_at c \<noteq> None then Inr None else Inr (Some (c\<lparr>ac_used_at := Some now\<rparr>)))"
      using x h by (auto simp: consume_authorization_code_def bind_io_def ret_def Let_def seq_io_def write_json_hash_def
          map_err_run admin_hash_set split: if_splits)
    show "\<forall>r0. found_at (code_codec env) (code_key i) s1 = Some r0 \<longrightarrow> \<not> code_live r0"
      using run xs assms(5) by (auto simp: code_live_def split: if_splits)
    show "case x of Inl e \<Rightarrow> False | Inr None \<Rightarrow> True | Inr (Some rec) \<Rightarrow> rec = c\<lparr>ac_used_at := Some now\<rparr>"
      using xs by simp
  qed
  have r: "r = OAuthError 400 ''invalid_grant'' \<and> s' = s1"
    using assms(2-4,7,8) x bad
    by (auto simp: handle_authorization_code_grant_def try_or_def reply_def verify_pkce_def
        split: sum.splits option.splits if_splits)
  have "handle_authorization_code_grant env mint' later client form' s' \<noteq> (Tokens tr, s'')"
    for later client mint' tr s''
  proof
    assume t: "handle_authorization_code_grant env mint' later client form' s' = (Tokens tr, s'')"
    obtain uri' ver' where f: "tf_redirect_uri form' = Some uri'" "tf_code_verifier form' = Some ver'"
      using t assms(9) by (auto simp: handle_authorization_code_grant_def split: option.splits)
    obtain v s2 where m: "consume_authorization_code env later i s' = (Inr v, s2)" "v \<noteq> None"
      using t assms(9) f unfolding handle_authorization_code_grant_def
      by (auto elim!: try_or_Tokens split: option.splits)
    then show False using code_use.refuses[OF assms(1) dead, of later "Inr v" s2] r by auto
  qed
  then show ?thesis using r by blast
qed

theorem wrong_verifier_burns_code_witness:
  "\<exists>s'. handle_authorization_code_grant demo_oauth demo_mint 5 demo_client (demo_form ''guess'') demo_oauth_store
      = (OAuthError 400 ''invalid_grant'', s')
    \<and> (\<forall>tr s''. handle_authorization_code_grant demo_oauth demo_mint 6 demo_client (demo_form ''v'') s' \<noteq> (Tokens tr, s''))"
proof -
  obtain r s' where x: "handle_authorization_code_grant demo_oauth demo_mint 5 demo_client (demo_form ''guess'')
      demo_oauth_store = (r, s')" by force
  have f: "tf_code (demo_form t) = Some ''k''" "tf_redirect_uri (demo_form t) = Some ''u''"
    "tf_code_verifier (demo_form t) = Some t" for t by (simp_all add: demo_form_def)
  have "sha256_b64 demo_oauth ''guess'' \<noteq> ac_code_challenge (demo_code None)"
    by (simp add: demo_oauth_def demo_code_def)
  then have "ac_client_id (demo_code None) \<noteq> oc_client_id demo_client \<or> ac_redirect_uri (demo_code None) \<noteq> ''u''
      \<or> sha256_b64 demo_oauth ''guess'' \<noteq> ac_code_challenge (demo_code None)" by blast
  from wrong_verifier_burns_code[OF demo_oauth_ok f(1) f(2) f(3) demo_code_found(1) demo_code_marked(3) this x f(1)]
  show ?thesis using x by blast
qed

section \<open>Two exchanges at once\<close>

text \<open>A request handler as another one sees it: the read of the code is one step, the write
  that marks it is another.\<close>

datatype redeemer =
    Waiting
  | Loaded authorization_code
  | Redeemed "authorization_code option"

definition redeem_step :: "oauth_env \<Rightarrow> int \<Rightarrow> string \<Rightarrow> redeemer \<Rightarrow> mem_store \<Rightarrow> redeemer \<times> mem_store" where
  "redeem_step env now i p s = (case p of
      Waiting \<Rightarrow> (case found_at (code_codec env) (code_key i) s of
          Some r \<Rightarrow> if ac_used_at r \<noteq> None then (Redeemed None, s) else (Loaded r, s)
        | None \<Rightarrow> (Redeemed None, s))
    | Loaded r \<Rightarrow> (let r = r\<lparr>ac_used_at := Some now\<rparr> in
        case write_json_hash (code_codec env) (code_key i) r s of
          (Inr u, s') \<Rightarrow> (Redeemed (Some r), s') | (Inl e, s') \<Rightarrow> (Redeemed None, s'))
    | Redeemed x \<Rightarrow> (Redeemed x, s))"

text \<open>A schedule says which of the two makes each step.\<close>

fun run_schedule :: "oauth_env \<Rightarrow> int \<Rightarrow> string \<Rightarrow> bool list \<Rightarrow> redeemer \<times> redeemer \<times> mem_store
    \<Rightarrow> redeemer \<times> redeemer \<times> mem_store" where
  "run_schedule env now i [] w = w"
| "run_schedule env now i (first # sched) (p, q, s) =
    (if first then (case redeem_step env now i p s of (p', s') \<Rightarrow> run_schedule env now i sched (p', q, s'))
     else (case redeem_step env now i q s of (q', s') \<Rightarrow> run_schedule env now i sched (p, q', s')))"

text \<open>The two steps of one handler with nothing in between are the operation.\<close>

lemma two_steps_consume:
  assumes "found_at (code_codec env) (code_key i) s = Some r" "consume_authorization_code env now i s = (Inr v, s')"
  shows "redeem_step env now i (fst (redeem_step env now i Waiting s)) (snd (redeem_step env now i Waiting s))
    = (Redeemed v, s')"
  using assms(2) read_json_found[OF assms(1)] assms(1)
  by (auto simp: redeem_step_def consume_code_use use_once_def bind_io_def seq_io_def ret_def Let_def
      split: prod.splits sum.splits if_splits)

text \<open>Consuming a code is not atomic.  When two requests with the same unused code
  interleave so that both read it before either marks it, both are told that they consumed it
  first; handled one after the other, only the first is.\<close>

theorem consume_code_race:
  assumes "oauth_env_ok env" "found_at (code_codec env) (code_key i) s = Some r" "code_live r"
    and "encode (code_codec env) (r\<lparr>ac_used_at := Some now\<rparr>) \<noteq> None"
  shows "\<exists>s1 s2. run_schedule env now i [True, False, True, False] (Waiting, Waiting, s)
      = (Redeemed (Some (r\<lparr>ac_used_at := Some now\<rparr>)), Redeemed (Some (r\<lparr>ac_used_at := Some now\<rparr>)), s1)
    \<and> run_schedule env now i [True, True, False, False] (Waiting, Waiting, s)
      = (Redeemed (Some (r\<lparr>ac_used_at := Some now\<rparr>)), Redeemed None, s2)"
proof -
  let ?r = "r\<lparr>ac_used_at := Some now\<rparr>"
  have ok: "codec_ok (code_codec env)" using assms(1) by (simp add: oauth_env_ok_def)
  obtain b where b: "encode (code_codec env) ?r = Some b" using assms(4) by blast
  have w: "\<exists>t'. write_json_hash (code_codec env) (code_key i) ?r t = (Inr (), t')
      \<and> found_at (code_codec env) (code_key i) t' = Some ?r"
    if t: "found_at (code_codec env) (code_key i) t \<noteq> None" for t
  proof -
    obtain h where "hash_at t (code_key i) = Some h" using t by (auto simp: found_at_def split: option.splits)
    then obtain t' where w: "write_json_hash (code_codec env) (code_key i) ?r t = (Inr (), t')"
      using b by (simp add: write_json_hash_def map_err_run admin_hash_set)
    then show ?thesis using write_json_Inr(1)[OF ok w] by blast
  qed
  obtain s1 where s1: "write_json_hash (code_codec env) (code_key i) ?r s = (Inr (), s1)"
    "found_at (code_codec env) (code_key i) s1 = Some ?r" using w[of s] assms(2) by auto
  obtain s2 where s2: "write_json_hash (code_codec env) (code_key i) ?r s1 = (Inr (), s2)"
    using w[of s1] s1(2) by auto
  have live: "ac_used_at r = None" using assms(3) by (simp add: code_live_def)
  show ?thesis using assms(2) live s1 s2 by (simp add: redeem_step_def)
qed

theorem consume_code_race_witness:
  "\<exists>s1. run_schedule demo_oauth 5 ''k'' [True, False, True, False] (Waiting, Waiting, demo_oauth_store)
     = (Redeemed (Some (demo_code (Some 5))), Redeemed (Some (demo_code (Some 5))), s1)"
  using consume_code_race[OF demo_oauth_ok demo_code_found(1) demo_code_marked(1) demo_code_marked(3)]
  unfolding demo_code_marked(2) by blast

section \<open>Revoking a grant\<close>

abbreviation refresh_at :: "oauth_env \<Rightarrow> string \<Rightarrow> mem_store \<Rightarrow> refresh_token option" where
  "refresh_at env h s \<equiv> found_at (refresh_codec env) (refresh_key h) s"

text \<open>Tokens are changed by being marked as revoked only, and only those of the client.\<close>

definition only_revoked :: "oauth_env \<Rightarrow> int \<Rightarrow> string \<Rightarrow> mem_store \<Rightarrow> mem_store \<Rightarrow> bool" where
  "only_revoked env now cid s s' \<longleftrightarrow> (\<forall>h. hash_like h \<longrightarrow> refresh_at env h s' = refresh_at env h s
     \<or> (\<exists>t. refresh_at env h s = Some t \<and> rt_client_id t = cid \<and> rt_revoked_at t = None
          \<and> refresh_at env h s' = Some (t\<lparr>rt_revoked_at := Some now\<rparr>)))"

lemma only_revoked_refl: "only_revoked env now cid s s"
  by (simp add: only_revoked_def)

lemma only_revoked_trans:
  assumes "only_revoked env now cid s t" "only_revoked env now cid t u"
  shows "only_revoked env now cid s u"
  unfolding only_revoked_def
proof (intro allI impI)
  fix h assume h: "hash_like h"
  show "refresh_at env h u = refresh_at env h s \<or> (\<exists>t. refresh_at env h s = Some t \<and> rt_client_id t = cid
      \<and> rt_revoked_at t = None \<and> refresh_at env h u = Some (t\<lparr>rt_revoked_at := Some now\<rparr>))"
    using assms[unfolded only_revoked_def, rule_format, OF h] by fastforce
qed

lemma only_revokedE:
  assumes "only_revoked env now cid s s'" "hash_like h"
  obtains "refresh_at env h s' = refresh_at env h s"
  | t where "refresh_at env h s = Some t" "rt_client_id t = cid" "rt_revoked_at t = None"
      "refresh_at env h s' = Some (t\<lparr>rt_revoked_at := Some now\<rparr>)"
  using assms unfolding only_revoked_def by blast

text \<open>An index entry that has a record names that record.\<close>

definition index_ok :: "oauth_env \<Rightarrow> string list \<Rightarrow> mem_store \<Rightarrow> bool" where
  "index_ok env hs s \<longleftrightarrow> (\<forall>h\<in>set hs. hash_like h \<and> (\<forall>t. refresh_at env h s = Some t \<longrightarrow> rt_token_hash t = h))"

lemma index_ok_kept: "\<lbrakk>index_ok env hs s; only_revoked env now cid s s'\<rbrakk> \<Longrightarrow> index_ok env hs s'"
  unfolding index_ok_def only_revoked_def by fastforce

lemma revoke_each_result:
  assumes "oauth_env_ok env" "index_ok env hs s" "revoke_each env now cid hs n s = (Inr m, s')"
  shows "only_revoked env now cid s s'
    \<and> (\<forall>h\<in>set hs. \<forall>t. refresh_at env h s' = Some t \<and> rt_client_id t = cid \<longrightarrow> rt_revoked_at t \<noteq> None)"
  using assms(2,3)
proof (induction hs arbitrary: n s)
  case Nil
  then show ?case by (simp add: ret_def only_revoked_refl)
next
  case (Cons h hs)
  obtain v s1 where rd: "read_json_hash (refresh_codec env) (refresh_key h) s = (Inr v, s1)"
    using Cons.prems(2) by (auto simp: bind_io_Inr_iff)
  then have v: "read_json_hash (refresh_codec env) (refresh_key h) s = (Inr v, s)" "v = refresh_at env h s"
    using read_json_Inr by metis+
  have hh: "hash_like h" "index_ok env hs s" using Cons.prems(1) by (simp_all add: index_ok_def)
  show ?case
  proof (cases "\<exists>r. v = Some r \<and> rt_client_id r = cid \<and> rt_revoked_at r = None")
    case False
    then have "revoke_each env now cid (h # hs) n s = revoke_each env now cid hs n s"
      by (cases v) (simp_all add: bind_io_def v(1) del: not_None_eq)
    then have rest: "revoke_each env now cid hs n s = (Inr m, s')" using Cons.prems(2) by simp
    note ih = Cons.IH[OF hh(2) rest]
    have "rt_revoked_at t \<noteq> None" if t: "refresh_at env h s' = Some t" "rt_client_id t = cid" for t
      by (rule only_revokedE[OF ih[THEN conjunct1] hh(1)]) (use t False v(2) in auto)
    then show ?thesis using ih by (metis set_ConsD)
  next
    case True
    then obtain r where r: "v = Some r" "rt_client_id r = cid" "rt_revoked_at r = None" by blast
    let ?r = "r\<lparr>rt_revoked_at := Some now\<rparr>"
    obtain u s1 where sv: "save_refresh_token env ?r s = (Inr u, s1)"
      and rest: "revoke_each env now cid hs (n + 1) s1 = (Inr m, s')"
    proof -
      have "revoke_each env now cid (h # hs) n s
          = seq_io (save_refresh_token env ?r) (revoke_each env now cid hs (n + 1)) s"
        by (simp add: bind_io_def v(1) r)
      then show thesis using that Cons.prems(2) by (auto simp: seq_io_def bind_io_Inr_iff)
    qed
    have th: "rt_token_hash ?r = h" using Cons.prems(1) r(1) v(2) by (simp add: index_ok_def)
    have ok: "codec_ok (refresh_codec env)" using assms(1) by (simp add: oauth_env_ok_def)
    have hl: "hash_like (rt_token_hash ?r)" using th hh(1) by simp
    note saved = save_refresh_Inr[OF ok sv hl]
    have step: "only_revoked env now cid s s1"
      unfolding only_revoked_def
    proof (intro allI impI)
      fix k assume k: "hash_like k"
      show "refresh_at env k s1 = refresh_at env k s \<or> (\<exists>t. refresh_at env k s = Some t \<and> rt_client_id t = cid
          \<and> rt_revoked_at t = None \<and> refresh_at env k s1 = Some (t\<lparr>rt_revoked_at := Some now\<rparr>))"
      proof (cases "k = h")
        case True
        then show ?thesis using saved(1) th r v(2) by auto
      next
        case False
        then have "map_of s1 (refresh_key k) = map_of s (refresh_key k)"
          using saved(2) th index_key_differs[OF k, of "rt_user_id ?r"] by simp
        then show ?thesis using found_at_cong by blast
      qed
    qed
    note ih = Cons.IH[OF index_ok_kept[OF hh(2) step] rest]
    have "rt_revoked_at t \<noteq> None" if t: "refresh_at env h s' = Some t" for t
      by (rule only_revokedE[OF ih[THEN conjunct1] hh(1)]) (use saved(1) th t in auto)
    then show ?thesis using ih only_revoked_trans[OF step] by (metis set_ConsD)
  qed
qed

text \<open>Revoking a client's access revokes all of it and nothing else: afterwards no refresh
  token in the user's index that belongs to the client can be rotated, and the tokens of
  other clients are as they were.\<close>

theorem revoke_grants_complete:
  assumes "oauth_env_ok env" "set_at s (refresh_user_index_key user) = Some hs" "index_ok env hs s"
    and "revoke_grants_for_client env now user cid s = (Inr n, s')"
  shows "(\<forall>h\<in>set hs. \<forall>t later r s''. refresh_at env h s' = Some t \<and> rt_client_id t = cid
        \<longrightarrow> consume_refresh_token env later h s' \<noteq> (Inr (Some r), s''))
    \<and> (\<forall>h t. hash_like h \<and> refresh_at env h s = Some t \<and> rt_client_id t \<noteq> cid \<longrightarrow> refresh_at env h s' = Some t)"
proof -
  have run: "revoke_each env now cid hs 0 s = (Inr n, s')"
    using assms(2,4) by (simp add: revoke_grants_for_client_def bind_io_def map_err_run admin_set_members)
  note res = revoke_each_result[OF assms(1,3) run]
  have "consume_refresh_token env later h s' \<noteq> (Inr (Some r), s'')"
    if h: "h \<in> set hs" "refresh_at env h s' = Some t" "rt_client_id t = cid" for h t later r s''
  proof
    assume "consume_refresh_token env later h s' = (Inr (Some r), s'')"
    from refresh_use.spends[OF assms(1) this] have "refresh_live t" using h(2) by simp
    then show False using res h by (auto simp: refresh_live_def)
  qed
  moreover have "refresh_at env h s' = Some t"
    if h: "hash_like h" "refresh_at env h s = Some t" "rt_client_id t \<noteq> cid" for h t
    using res[THEN conjunct1, unfolded only_revoked_def, rule_format, OF h(1)] h by auto
  ultimately show ?thesis by blast
qed

definition demo_grant_store :: mem_store where
  "demo_grant_store = [(refresh_user_index_key ''user'', Set [''r1'']), (refresh_key ''r1'', Hash [(''data'', ''0'')])]"

definition demo_grants :: oauth_env where
  "demo_grants = demo_oauth\<lparr>refresh_codec := table_codec [demo_refresh, demo_refresh\<lparr>rt_revoked_at := Some 9\<rparr>]\<rparr>"

theorem revoke_grants_complete_witness:
  "\<exists>s'. revoke_grants_for_client demo_grants 9 ''user'' ''c'' demo_grant_store = (Inr 1, s')
     \<and> (\<forall>later r s''. consume_refresh_token demo_grants later ''r1'' s' \<noteq> (Inr (Some r), s''))"
proof -
  have d: "distinct [demo_refresh, demo_refresh\<lparr>rt_revoked_at := Some 9\<rparr>]" by (simp add: demo_refresh_def)
  then have ok: "oauth_env_ok demo_grants"
    using demo_oauth_ok table_codec_ok[OF d] by (simp add: oauth_env_ok_def demo_grants_def)
  have rows: "decode (refresh_codec demo_grants) ''0'' = Some demo_refresh"
    "encode (refresh_codec demo_grants) (demo_refresh\<lparr>rt_revoked_at := Some 9\<rparr>) = Some ''1''"
    using d by (simp_all add: demo_grants_def demo_rows)
  have f: "refresh_at demo_grants ''r1'' demo_grant_store = Some demo_refresh"
    by (simp add: found_at_def hash_at_def demo_grant_store_def rows(1))
      (simp add: refresh_key_def refresh_user_index_key_def)
  have i: "set_at demo_grant_store (refresh_user_index_key ''user'') = Some [''r1'']"
    by (simp add: set_at_def demo_grant_store_def)
  have p: "rt_client_id demo_refresh = ''c''" "rt_revoked_at demo_refresh = None" "rt_token_hash demo_refresh = ''r1''"
    "rt_user_id demo_refresh = ''user''"
    by (simp_all add: demo_refresh_def)
  have x: "index_ok demo_grants [''r1''] demo_grant_store"
    using f p by (simp add: index_ok_def hash_like_def)
  obtain s' where run: "revoke_grants_for_client demo_grants 9 ''user'' ''c'' demo_grant_store = (Inr 1, s')"
    and fs: "refresh_at demo_grants ''r1'' s' = Some (demo_refresh\<lparr>rt_revoked_at := Some 9\<rparr>)"
  proof -
    have "decode (refresh_codec demo_grants) ''1'' = Some (demo_refresh\<lparr>rt_revoked_at := Some 9\<rparr>)"
      using d by (simp add: demo_grants_def demo_rows)
    then show thesis
      using that by (simp add: revoke_grants_for_client_def bind_io_def map_err_run admin_set_members i
          read_json_found[OF f] p save_refresh_token_def seq_io_def write_json_hash_def rows bucket_set_ttl_def ret_def)
        (simp add: admin_hash_set admin_set_add hash_at_def set_at_def demo_grant_store_def found_at_def
          bind_io_def ret_def map_err_run bucket_set_ttl_def set_insert_def refresh_key_def refresh_user_index_key_def)
  qed
  from revoke_grants_complete[OF ok i x run] show ?thesis using run fs p by auto
qed

end
