(* ===== verification/Filters.thy ===== *)
theory Filters
  imports Journal
begin

text \<open>Filters of the listing endpoints (\<^theory_text>\<open>api_filters.rs\<close>, \<^theory_text>\<open>journal_filter.rs\<close>): the
  \<^theory_text>\<open>*\<close> globs, the time bounds, the slug and status parsers and the conjunctive filter on
  journal events.

  chrono's parser and its date arithmetic are parameters; a panic of the standard library
  or of chrono is the value \<^theory_text>\<open>Inl\<close> of the type \<^theory_text>\<open>panic\<close>.\<close>

section \<open>Globs\<close>

fun find_sub :: "string \<Rightarrow> string \<Rightarrow> nat option" where
  "find_sub p [] = (if p = [] then Some 0 else None)"
| "find_sub p (c # cs) = (if starts_with p (c # cs) then Some 0 else map_option Suc (find_sub p cs))"

fun glob_loop :: "nat \<Rightarrow> nat \<Rightarrow> string list \<Rightarrow> string \<Rightarrow> nat \<Rightarrow> bool" where
  "glob_loop i last_idx [] target cursor = True"
| "glob_loop i last_idx (part # parts) target cursor =
    (if part = [] then glob_loop (i + 1) last_idx parts target cursor
     else if i = 0 then
       (if \<not> starts_with part (drop cursor target) then False
        else glob_loop (i + 1) last_idx parts target (cursor + length part))
     else if i = last_idx then ends_with part (drop cursor target)
     else (case find_sub part (drop cursor target) of
         Some pos \<Rightarrow> glob_loop (i + 1) last_idx parts target (cursor + (pos + length part))
       | None \<Rightarrow> False))"

definition glob_match :: "string \<Rightarrow> string \<Rightarrow> bool" where
  "glob_match pat target =
    (if CHR ''*'' \<notin> set pat then pat = target
     else let parts = split_on (CHR ''*'') pat in glob_loop 0 (length parts - 1) parts target 0)"

text \<open>What a glob means: every star stands for some text, every other character for itself.\<close>

inductive expands :: "string \<Rightarrow> string \<Rightarrow> bool" where
  expands_Nil: "expands [] []"
| expands_Star: "expands p t \<Longrightarrow> expands (CHR ''*'' # p) (u @ t)"
| expands_Char: "\<lbrakk>c \<noteq> CHR ''*''; expands p t\<rbrakk> \<Longrightarrow> expands (c # p) (c # t)"

inductive_simps expands_simps: "expands [] t" "expands (c # p) t"

text \<open>The same for the parts between the stars.\<close>

fun fills :: "string list \<Rightarrow> string \<Rightarrow> bool" where
  "fills [] t = (t = [])"
| "fills [w] t = (t = w)"
| "fills (w # ws) t = (\<exists>u v. t = w @ u @ v \<and> fills ws v)"

lemma expands_literal: "CHR ''*'' \<notin> set w \<Longrightarrow> expands (w @ p) t \<longleftrightarrow> (\<exists>t'. t = w @ t' \<and> expands p t')"
proof (induction w arbitrary: t)
  case (Cons c w)
  then show ?case by (subst append_Cons, subst expands_simps(2)) auto
qed simp

lemma expands_no_star: "CHR ''*'' \<notin> set w \<Longrightarrow> expands w t \<longleftrightarrow> t = w"
  using expands_literal[of w "[]" t] by (auto simp: expands_simps)

lemma expands_star: "expands (CHR ''*'' # p) t \<longleftrightarrow> (\<exists>u v. t = u @ v \<and> expands p v)"
  by (subst expands_simps(2)) auto

lemma expands_join:
  assumes "ws \<noteq> []" "\<And>w. w \<in> set ws \<Longrightarrow> CHR ''*'' \<notin> set w"
  shows "expands (join ''*'' ws) t \<longleftrightarrow> fills ws t"
  using assms
proof (induction ws arbitrary: t rule: induct_list012)
  case (3 w v vs)
  have "expands (join ''*'' (w # v # vs)) t \<longleftrightarrow> (\<exists>t'. t = w @ t' \<and> expands (CHR ''*'' # join ''*'' (v # vs)) t')"
    using expands_literal[of w "CHR ''*'' # join ''*'' (v # vs)" t] 3 by simp
  also have "\<dots> \<longleftrightarrow> fills (w # v # vs) t"
    using 3 by (auto simp: expands_star)
  finally show ?case .
qed (auto simp: expands_no_star)

text \<open>A part in the middle may as well be taken at its first occurrence.\<close>

lemma find_sub_None: "find_sub p t = None \<longleftrightarrow> (\<forall>u v. t \<noteq> u @ p @ v)"
proof (induction t)
  case (Cons c t)
  have "(\<exists>u v. c # t = u @ p @ v) \<longleftrightarrow> starts_with p (c # t) \<or> (\<exists>u v. t = u @ p @ v)"
    by (auto simp: starts_with_iff Cons_eq_append_conv)
  then show ?case using Cons by auto
qed auto

lemma find_sub_first:
  "find_sub p t = Some k \<Longrightarrow> (\<exists>v. t = take k t @ p @ v) \<and> k \<le> length t \<and> (\<forall>u v. t = u @ p @ v \<longrightarrow> k \<le> length u)"
proof (induction t arbitrary: k)
  case (Cons c t)
  show ?case
  proof (cases "starts_with p (c # t)")
    case True
    then show ?thesis using Cons.prems by (auto simp: starts_with_iff)
  next
    case False
    then obtain j where j: "k = Suc j" "find_sub p t = Some j" using Cons.prems by auto
    have "Suc j \<le> length u" if "c # t = u @ p @ v" for u v
    proof (cases u)
      case Nil
      then show ?thesis using that False by (simp add: starts_with_iff)
    next
      case (Cons d w)
      then show ?thesis using that Cons.IH j(2) by auto
    qed
    then show ?thesis using Cons.IH[OF j(2)] j(1) by auto
  qed
qed (auto split: if_splits)

text \<open>The text between the cursor and the end of the target may be matched by the remaining
  parts after skipping something.\<close>

definition fills_after :: "string list \<Rightarrow> string \<Rightarrow> bool" where
  "fills_after ws t \<longleftrightarrow> (\<exists>u v. t = u @ v \<and> fills ws v)"

lemma fills_after_skip: "fills_after ws v \<Longrightarrow> fills_after ws (u @ v)"
  by (auto simp: fills_after_def) (metis append.assoc)

lemma fills_after_single: "fills_after [w] t \<longleftrightarrow> ends_with w t"
  by (auto simp: fills_after_def ends_with_iff)

lemma fills_Cons: "ws \<noteq> [] \<Longrightarrow> fills (w # ws) t \<longleftrightarrow> (\<exists>v. t = w @ v \<and> fills_after ws v)"
  by (cases ws) (auto simp: fills_after_def)

lemma fills_after_Cons:
  assumes "ws \<noteq> []"
  shows "fills_after (w # ws) t \<longleftrightarrow> (case find_sub w t of
      None \<Rightarrow> False | Some k \<Rightarrow> fills_after ws (drop (k + length w) t))"
proof (cases "find_sub w t")
  case None
  then have "\<And>u v. t \<noteq> u @ w @ v" by (simp add: find_sub_None)
  then have "\<not> fills_after (w # ws) t" by (auto simp: fills_after_def[of "w # ws"] fills_Cons[OF assms])
  then show ?thesis using None by simp
next
  case (Some k)
  obtain v where v: "t = take k t @ w @ v" "k \<le> length t" "\<And>u v. t = u @ w @ v \<Longrightarrow> k \<le> length u"
    using find_sub_first[OF Some] by blast
  have d: "drop (k + length w) t = v"
  proof -
    have "drop (k + length w) (take k t @ w @ v) = v" using v(2) by simp
    then show ?thesis using v(1) by simp
  qed
  have "fills_after ws v" if h: "fills_after (w # ws) t"
  proof -
    obtain u x where ux: "t = u @ w @ x" "fills_after ws x"
      using h by (auto simp: fills_after_def[of "w # ws"] fills_Cons[OF assms])
    then have "k + length w \<le> length (u @ w)" using v(3) by simp
    then have "v = drop (k + length w) (u @ w) @ x"
      using d ux(1) by (simp add: append_assoc[symmetric] del: append_assoc)
    then show ?thesis by (simp only: fills_after_skip[OF ux(2)])
  qed
  moreover have "fills_after (w # ws) t" if h: "fills_after ws v"
    using h v(1) by (auto simp: fills_after_def[of "w # ws"] fills_Cons[OF assms])
  ultimately show ?thesis using Some d by auto
qed

lemma find_sub_Nil [simp]: "find_sub [] t = Some 0"
  by (cases t) (simp_all add: starts_with_def)

lemma glob_loop_middle:
  assumes "0 < i" "i + length ws = Suc last_idx" "ws \<noteq> []"
  shows "glob_loop i last_idx ws target cursor \<longleftrightarrow> fills_after ws (drop cursor target)"
  using assms
proof (induction ws arbitrary: i cursor)
  case (Cons w ws)
  show ?case
  proof (cases "ws = []")
    case True
    then show ?thesis using Cons.prems by (auto simp: fills_after_single ends_with_iff)
  next
    case False
    have ih: "glob_loop (i + 1) last_idx ws target c \<longleftrightarrow> fills_after ws (drop c target)" for c
      using Cons.IH[of "i + 1" c] Cons.prems False by simp
    have "i \<noteq> last_idx" using Cons.prems False by (cases ws) auto
    then show ?thesis using Cons.prems ih
      by (auto simp: fills_after_Cons[OF False] ac_simps split: option.split)
  qed
qed simp

text \<open>C22: Glob matching is exact.  The single left-to-right pass, which takes every part at
  its first occurrence and never goes back, accepts exactly the targets obtained by
  replacing each star of the pattern by some text.\<close>

theorem glob_match_iff_expands:
  "glob_match pat target \<longleftrightarrow> expands pat target"
proof (cases "CHR ''*'' \<in> set pat")
  case False
  then show ?thesis by (auto simp: glob_match_def expands_no_star)
next
  case True
  let ?ws = "split_on (CHR ''*'') pat"
  obtain w ws where ws: "?ws = w # ws" by (cases ?ws) simp_all
  have "ws \<noteq> []"
  proof
    assume "ws = []"
    then have "pat = w" using ws join_split[of "CHR ''*''" pat] by simp
    moreover have "CHR ''*'' \<notin> set w" using split_on_no_sep[of w "CHR ''*''" pat] ws by simp
    ultimately show False using True by simp
  qed
  have m: "glob_loop 1 (length ws) ws target c \<longleftrightarrow> fills_after ws (drop c target)" for c
    using glob_loop_middle[of 1 ws "length ws" target c] \<open>ws \<noteq> []\<close> by simp
  have "glob_match pat target \<longleftrightarrow> glob_loop 0 (length ws) (w # ws) target 0"
    using True ws by (simp add: glob_match_def)
  also have "\<dots> \<longleftrightarrow> starts_with w target \<and> fills_after ws (drop (length w) target)"
    using m[of 0] m[of "length w"] by (cases "w = []") simp_all
  also have "\<dots> \<longleftrightarrow> fills ?ws target"
    unfolding ws fills_Cons[OF \<open>ws \<noteq> []\<close>] by (auto simp: starts_with_iff)
  also have "\<dots> \<longleftrightarrow> expands (join ''*'' ?ws) target"
    using expands_join[of ?ws target] split_on_no_sep by simp
  finally show ?thesis by simp
qed

section \<open>Time bounds\<close>

datatype filter_parse_error =
    BadSince string | BadSort string | BadDir string | SortNotSupported | BadOffset string
  | BadLimit string | BadMethod string | BadPathPattern string | OwnerNonAdmin

fun parameter :: "filter_parse_error \<Rightarrow> string" where
  "parameter (BadSince x) = ''since''"
| "parameter (BadSort x) = ''sort''"
| "parameter SortNotSupported = ''sort''"
| "parameter (BadDir x) = ''dir''"
| "parameter (BadOffset x) = ''offset''"
| "parameter (BadLimit x) = ''limit''"
| "parameter (BadMethod x) = ''method''"
| "parameter (BadPathPattern x) = ''path_pattern''"
| "parameter OwnerNonAdmin = ''owner_id''"

text \<open>A call that panics: a split inside a character, or a time outside chrono's range.\<close>

datatype filter_panic = NotCharBoundary | TimeOutOfRange

text \<open>chrono's constructor of a duration and its subtraction; \<^theory_text>\<open>None\<close> is a panic.\<close>

record chrono_ops =
  duration_seconds :: "int \<Rightarrow> int option"
  sub_time :: "int \<Rightarrow> int \<Rightarrow> int option"
  add_time :: "int \<Rightarrow> int \<Rightarrow> int option"

text \<open>\<^theory_text>\<open>str::trim\<close> removes white space characters at both ends.\<close>

definition white_len :: "string \<Rightarrow> nat" where
  "white_len s =
    (if s \<noteq> [] \<and> blank (take 1 s) then 1
     else if 1 < length s \<and> blank (take 2 s) then 2
     else if 2 < length s \<and> blank (take 3 s) then 3 else 0)"

function trim_start :: "string \<Rightarrow> string" where
  "trim_start s = (if white_len s = 0 then s else trim_start (drop (white_len s) s))"
  by pat_completeness auto
termination
  by (relation "measure length") (auto simp: white_len_def split: if_splits)

declare trim_start.simps [simp del]

fun trim_end :: "string \<Rightarrow> string" where
  "trim_end [] = []"
| "trim_end (c # cs) = (if blank (c # cs) then [] else c # trim_end cs)"

definition trim :: "string \<Rightarrow> string" where
  "trim s = trim_end (trim_start s)"

definition char_boundary :: "string \<Rightarrow> nat \<Rightarrow> bool" where
  "char_boundary s i \<longleftrightarrow> i = length s \<or> (i < length s \<and> \<not> (128 \<le> code (s ! i) \<and> code (s ! i) \<le> 191))"

definition unit_seconds :: "string \<Rightarrow> int option" where
  "unit_seconds u =
    (if u = ''s'' then Some 1 else if u = ''m'' then Some 60 else if u = ''h'' then Some 3600
     else if u = ''d'' then Some 86400 else None)"

definition parse_since ::
  "time_codec \<Rightarrow> chrono_ops \<Rightarrow> string \<Rightarrow> int \<Rightarrow> filter_panic + (filter_parse_error + int)" where
  "parse_since tc ch txt now = (case parse_rfc3339 tc txt of
      Some ts \<Rightarrow> Inr (Inr ts)
    | None \<Rightarrow>
      (let trimmed = trim txt; mid = length trimmed - 1 in
       if trimmed = [] then Inr (Inl (BadSince txt))
       else if \<not> char_boundary trimmed mid then Inl NotCharBoundary
       else (case parse_i64 (take mid trimmed) of
           None \<Rightarrow> Inr (Inl (BadSince txt))
         | Some n \<Rightarrow>
           if n < 0 then Inr (Inl (BadSince txt))
           else (case unit_seconds (drop mid trimmed) of
               None \<Rightarrow> Inr (Inl (BadSince txt))
             | Some multiplier \<Rightarrow> (case check_i64 (n * multiplier) of
                 None \<Rightarrow> Inr (Inl (BadSince txt))
               | Some secs \<Rightarrow> (case Option.bind (duration_seconds ch secs) (sub_time ch now) of
                   None \<Rightarrow> Inl TimeOutOfRange
                 | Some t \<Rightarrow> Inr (Inr t)))))))"

datatype sort_dir = Asc | Desc

definition sort_dir_parse :: "string option \<Rightarrow> sort_dir \<Rightarrow> filter_parse_error + sort_dir" where
  "sort_dir_parse r dflt = (case r of
      None \<Rightarrow> Inr dflt
    | Some s \<Rightarrow> if to_lower s = ''asc'' then Inr Asc
        else if to_lower s = ''desc'' then Inr Desc else Inl (BadDir s))"

definition validate_method :: "string \<Rightarrow> filter_parse_error + string" where
  "validate_method raw_method =
    (if raw_method = [] then Inl (BadMethod raw_method)
     else if raw_method = ''ANY'' \<or> list_all (\<lambda>c. is_upper c \<or> is_digit c \<or> c = CHR ''-'') raw_method
     then Inr raw_method else Inl (BadMethod raw_method))"

section \<open>Filters on journal events\<close>

datatype slug_parse_error = BadSlug string | BadRouteNumber string | BadStatus string

record route_slug =
  sl_group_ref :: string
  sl_number :: nat

datatype status_filter = TwoXx | ThreeXx | FourXx | FiveXx | Exact nat

text \<open>\<^theory_text>\<open>rsplit_once\<close>: split at the last separator.\<close>

definition rsplit_once :: "char \<Rightarrow> string \<Rightarrow> (string \<times> string) option" where
  "rsplit_once d s =
    (if d \<in> set s then Some (rev (tl (dropWhile (\<lambda>c. c \<noteq> d) (rev s))), rev (takeWhile (\<lambda>c. c \<noteq> d) (rev s)))
     else None)"

definition route_slug_parse :: "string \<Rightarrow> slug_parse_error + route_slug" where
  "route_slug_parse slug = (case rsplit_once (CHR ''/'') slug of
      None \<Rightarrow> Inl (BadSlug slug)
    | Some (grp, num) \<Rightarrow>
        if grp = [] then Inl (BadSlug slug)
        else (case parse_u32 num of
            None \<Rightarrow> Inl (BadRouteNumber num)
          | Some n \<Rightarrow> Inr \<lparr>sl_group_ref = grp, sl_number = n\<rparr>))"

definition status_filter_parse :: "string \<Rightarrow> slug_parse_error + status_filter" where
  "status_filter_parse s =
    (if s \<in> {''2xx'', ''2XX''} then Inr TwoXx
     else if s \<in> {''3xx'', ''3XX''} then Inr ThreeXx
     else if s \<in> {''4xx'', ''4XX''} then Inr FourXx
     else if s \<in> {''5xx'', ''5XX''} then Inr FiveXx
     else (case parse_unsigned (2 ^ 16 - 1) s of
         Some c \<Rightarrow> if 100 \<le> c \<and> c \<le> 599 then Inr (Exact c) else Inl (BadStatus s)
       | None \<Rightarrow> Inl (BadStatus s)))"

fun status_filter_matches :: "status_filter \<Rightarrow> nat \<Rightarrow> bool" where
  "status_filter_matches TwoXx status = (200 \<le> status \<and> status \<le> 299)"
| "status_filter_matches ThreeXx status = (300 \<le> status \<and> status \<le> 399)"
| "status_filter_matches FourXx status = (400 \<le> status \<and> status \<le> 499)"
| "status_filter_matches FiveXx status = (500 \<le> status \<and> status \<le> 599)"
| "status_filter_matches (Exact c) status = (c = status)"

record journal_filter =
  jf_group :: "string option"
  jf_route :: "route_slug option"
  jf_method :: "string option"
  jf_path_pattern :: "string option"
  jf_status :: "status_filter option"
  jf_since :: "int option"
  jf_until :: "int option"

definition matches_handled :: "journal_filter \<Rightarrow> journal_record \<Rightarrow> bool" where
  "matches_handled f r =
    (if (case jf_group f of Some g \<Rightarrow> jr_group_name r \<noteq> g \<and> jr_group_id r \<noteq> g | None \<Rightarrow> False) then False
     else if (case jf_route f of Some slug \<Rightarrow>
         (if jr_group_name r \<noteq> sl_group_ref slug \<and> jr_group_id r \<noteq> sl_group_ref slug then True
          else jr_route_number r \<noteq> sl_number slug) | None \<Rightarrow> False) then False
     else if (case jf_method f of Some m \<Rightarrow> \<not> eq_ignore_case m (rq_method (jr_request r)) | None \<Rightarrow> False) then False
     else if (case jf_path_pattern f of Some pat \<Rightarrow> \<not> glob_match pat (jr_matched_pattern r) | None \<Rightarrow> False) then False
     else if (case jf_status f of Some sf \<Rightarrow> \<not> status_filter_matches sf (rs_status (jr_response r)) | None \<Rightarrow> False) then False
     else if (case jf_since f of Some t \<Rightarrow> jr_created_at r < t | None \<Rightarrow> False) then False
     else if (case jf_until f of Some t \<Rightarrow> jr_created_at r > t | None \<Rightarrow> False) then False
     else True)"

definition matches_unmatched :: "journal_filter \<Rightarrow> unmatched_record \<Rightarrow> bool" where
  "matches_unmatched f u =
    (if jf_route f \<noteq> None \<or> jf_status f \<noteq> None then False
     else if jf_group f \<noteq> None then False
     else if (case jf_method f of Some m \<Rightarrow> \<not> eq_ignore_case m (rq_method (ur_request u)) | None \<Rightarrow> False) then False
     else if (case jf_path_pattern f of Some pat \<Rightarrow> \<not> glob_match pat (rq_path (ur_request u)) | None \<Rightarrow> False) then False
     else if (case jf_since f of Some t \<Rightarrow> ur_created_at u < t | None \<Rightarrow> False) then False
     else if (case jf_until f of Some t \<Rightarrow> ur_created_at u > t | None \<Rightarrow> False) then False
     else True)"

fun filter_matches :: "journal_filter \<Rightarrow> journal_event \<Rightarrow> bool" where
  "filter_matches f (Handled r) = matches_handled f r"
| "filter_matches f (Unmatched u) = matches_unmatched f u"

section \<open>Properties of the parsers and filters\<close>

lemma ascii_not_blank: "\<lbrakk>code c < 128; \<not> ascii_space c\<rbrakk> \<Longrightarrow> \<not> blank (c # cs)"
  by (auto split: list.splits)

definition plain_text :: "string \<Rightarrow> bool" where
  "plain_text s \<longleftrightarrow> list_all (\<lambda>c. code c < 128 \<and> \<not> ascii_space c) s"

lemma trim_plain: "plain_text s \<Longrightarrow> trim s = s"
proof -
  assume p: "plain_text s"
  have e: "trim_end t = t" if "plain_text t" for t
    using that by (induction t) (auto simp: plain_text_def simp del: blank.simps simp: ascii_not_blank)
  have "white_len s = 0"
    using p by (cases s) (auto simp: white_len_def plain_text_def ascii_not_blank numeral_2_eq_2
        numeral_3_eq_3 simp del: blank.simps)
  then have "trim_start s = s" by (simp add: trim_start.simps)
  then show ?thesis using e[OF p] by (simp add: trim_def)
qed

lemma plain_digits: "plain_text (show_nat n)"
  using show_nat_digits[of n]
  by (auto simp: plain_text_def list_all_iff is_digit_def ascii_space_def)

text \<open>A relative time bound is read as what it says: a decimal number of seconds, minutes,
  hours or days before now, as long as the result is a time chrono can represent.\<close>

theorem parse_since_duration:
  assumes "parse_rfc3339 tc (show_nat n @ u) = None" "unit_seconds u = Some k" "in_i64 (int n * k)"
    and "duration_seconds ch (int n * k) = Some d" "sub_time ch now d = Some t"
  shows "parse_since tc ch (show_nat n @ u) now = Inr (Inr t)"
proof -
  obtain c where u: "u = [c]" "c \<in> set ''smhd''"
    using assms(2) by (auto simp: unit_seconds_def split: if_splits)
  have k: "0 < k" using assms(2) by (auto simp: unit_seconds_def split: if_splits)
  have "plain_text u" using u by (auto simp: plain_text_def ascii_space_def)
  then have tr: "trim (show_nat n @ u) = show_nat n @ u"
    using plain_digits[of n] by (intro trim_plain) (simp add: plain_text_def)
  have cb: "char_boundary (show_nat n @ u) (length (show_nat n))"
    using u by (auto simp: char_boundary_def nth_append)
  have n: "in_i64 (int n)"
  proof -
    have "int n \<le> int n * k" using k mult_left_mono[of 1 k "int n"] by simp
    then show ?thesis using assms(3) by (simp add: in_i64_def i64_min_def)
  qed
  have "parse_i64 (show_nat n) = Some (int n)"
    using parse_i64_show[OF n] by (simp add: show_int_def)
  then show ?thesis
    using assms tr cb u by (simp add: parse_since_def Let_def check_i64_def)
qed

text \<open>A request parameter can panic the parser of time bounds: one whose last character is
  not ASCII, because the text is split one byte before its end, and a number of days or
  seconds outside chrono's range, because only the multiplication is checked.\<close>

theorem parse_since_panics:
  assumes "parse_rfc3339 tc txt = None" "trim txt = w @ [b]"
    and "(128 \<le> code b \<and> code b \<le> 191)
      \<or> (w = show_nat n \<and> unit_seconds [b] = Some k \<and> in_i64 (int n) \<and> in_i64 (int n * k)
          \<and> Option.bind (duration_seconds ch (int n * k)) (sub_time ch now) = None)"
  shows "parse_since tc ch txt now =
    Inl (if 128 \<le> code b \<and> code b \<le> 191 then NotCharBoundary else TimeOutOfRange)"
proof (cases "128 \<le> code b \<and> code b \<le> 191")
  case True
  then show ?thesis using assms(1,2) by (simp add: parse_since_def Let_def char_boundary_def nth_append)
next
  case False
  then have h: "w = show_nat n" "unit_seconds [b] = Some k" "in_i64 (int n)" "in_i64 (int n * k)"
    "Option.bind (duration_seconds ch (int n * k)) (sub_time ch now) = None"
    using assms(3) by auto
  have "parse_i64 (show_nat n) = Some (int n)"
    using parse_i64_show[OF h(3)] by (simp add: show_int_def)
  moreover have "char_boundary (show_nat n @ [b]) (length (show_nat n))"
    using False by (simp add: char_boundary_def nth_append)
  ultimately show ?thesis using assms(1,2) h False by (simp add: parse_since_def Let_def check_i64_def)
qed

text \<open>chrono as documented: durations of at most \<^theory_text>\<open>i64::MAX\<close> milliseconds, times in a
  bounded range of years.\<close>

definition sample_chrono :: chrono_ops where
  "sample_chrono = \<lparr>
     duration_seconds = (\<lambda>s. if abs s \<le> i64_max div 1000 then Some (s * 1000000000) else None),
     sub_time = (\<lambda>t d. if t - d < - (10 ^ 22) then None else Some (t - d)),
     add_time = (\<lambda>t d. if t + d > 10 ^ 22 then None else Some (t + d))\<rparr>"

definition no_rfc3339 :: time_codec where
  "no_rfc3339 = \<lparr>to_rfc3339 = (\<lambda>t. []), parse_rfc3339 = (\<lambda>s. None)\<rparr>"

theorem parse_since_panics_witness:
  "parse_since no_rfc3339 sample_chrono [CHR ''5'', char_of (195::nat), char_of (169::nat)] 0 = Inl NotCharBoundary"
proof -
  have "trim [CHR ''5'', char_of (195::nat), char_of (169::nat)]
      = [CHR ''5'', char_of (195::nat)] @ [char_of (169::nat)]"
    by code_simp
  moreover have "parse_rfc3339 no_rfc3339 [CHR ''5'', char_of (195::nat), char_of (169::nat)] = None"
    by (simp add: no_rfc3339_def)
  ultimately show ?thesis
    using parse_since_panics[of no_rfc3339 _ _ "char_of (169::nat)" 0 0 sample_chrono 0] by simp
qed

lemma parse_since_out_of_range:
  "parse_since no_rfc3339 sample_chrono (show_nat 99999999999999999 @ ''s'') 0 = Inl TimeOutOfRange"
proof -
  have tr: "trim (show_nat 99999999999999999 @ ''s'') = show_nat 99999999999999999 @ ''s''"
    using plain_digits by (intro trim_plain) (simp add: plain_text_def ascii_space_def)
  have un: "unit_seconds ''s'' = Some 1" by (simp add: unit_seconds_def)
  have i64: "in_i64 99999999999999999" by (simp add: in_i64_def i64_min_def i64_max_def)
  have none: "duration_seconds sample_chrono 99999999999999999 = None"
    by (simp add: sample_chrono_def i64_max_def)
  have cb: "char_boundary (show_nat 99999999999999999 @ ''s'') (length (show_nat 99999999999999999))"
    by (simp add: char_boundary_def nth_append)
  have "parse_i64 (show_nat 99999999999999999) = Some 99999999999999999"
    using parse_i64_show[of 99999999999999999] i64 by (simp add: show_int_def)
  then show ?thesis using tr un i64 none cb
    by (simp add: parse_since_def Let_def no_rfc3339_def check_i64_def)
qed

theorem parse_since_duration_witness:
  "parse_since no_rfc3339 sample_chrono (show_nat 5 @ ''m'') 0 = Inr (Inr (- 300000000000))"
  by (rule parse_since_duration[of no_rfc3339 5 "''m''" 60 sample_chrono "300000000000" 0])
    (simp_all add: no_rfc3339_def unit_seconds_def in_i64_def i64_min_def i64_max_def sample_chrono_def)

definition only :: "journal_filter" where
  "only = \<lparr>jf_group = None, jf_route = None, jf_method = None, jf_path_pattern = None,
     jf_status = None, jf_since = None, jf_until = None\<rparr>"

text \<open>The journal filter is the conjunction of its fields: an event passes a filter exactly
  when it passes each of the filters with one of the fields.\<close>

theorem filter_conjunctive:
  "filter_matches f ev \<longleftrightarrow>
     filter_matches (only\<lparr>jf_group := jf_group f\<rparr>) ev \<and> filter_matches (only\<lparr>jf_route := jf_route f\<rparr>) ev
   \<and> filter_matches (only\<lparr>jf_method := jf_method f\<rparr>) ev
   \<and> filter_matches (only\<lparr>jf_path_pattern := jf_path_pattern f\<rparr>) ev
   \<and> filter_matches (only\<lparr>jf_status := jf_status f\<rparr>) ev
   \<and> filter_matches (only\<lparr>jf_since := jf_since f\<rparr>) ev \<and> filter_matches (only\<lparr>jf_until := jf_until f\<rparr>) ev"
  by (cases ev) (auto simp: only_def matches_handled_def matches_unmatched_def)

text \<open>Slugs are read back: the slug a route is shown with parses to its group and number,
  whatever the group reference is.\<close>

theorem slug_roundtrip:
  assumes "grp \<noteq> []" "n \<le> u32_max"
  shows "route_slug_parse (render_slug grp n) = Inr \<lparr>sl_group_ref = grp, sl_number = n\<rparr>"
proof -
  have d: "CHR ''/'' \<notin> set (show_nat n)"
    using show_nat_digits[of n] by (auto simp: list_all_iff is_digit_def)
  have "takeWhile (\<lambda>c. c \<noteq> CHR ''/'') (rev (show_nat n) @ CHR ''/'' # rev grp) = rev (show_nat n)"
    using d by (subst takeWhile_append2) auto
  moreover have "dropWhile (\<lambda>c. c \<noteq> CHR ''/'') (rev (show_nat n) @ CHR ''/'' # rev grp) = CHR ''/'' # rev grp"
    using d by (subst dropWhile_append2) auto
  ultimately have "rsplit_once (CHR ''/'') (grp @ ''/'' @ show_nat n) = Some (grp, show_nat n)"
    by (simp add: rsplit_once_def)
  then show ?thesis using assms by (simp add: route_slug_parse_def parse_u32_show render_slug_def)
qed

theorem slug_roundtrip_witness:
  "route_slug_parse (render_slug ''a/b'' 7) = Inr \<lparr>sl_group_ref = ''a/b'', sl_number = 7\<rparr>"
  by (rule slug_roundtrip) (simp_all add: u32_max_def)

end
