(* ===== verification/Auth.thy ===== *)
theory Auth
  imports OAuth Filters
begin

text \<open>Accounts and API tokens (\<^theory_text>\<open>auth.rs\<close>): user records with their e-mail index,
  token records with their three indexes, and the check of a bearer token.

  ULIDs, the clock and the random token are arguments.  A panic of the source (chrono's
  arithmetic out of range) is the error \<^theory_text>\<open>APanic\<close>: like an error it ends the call and
  leaves the writes made so far.  The message of a \<^theory_text>\<open>Malformed\<close> error stops before the text
  that comes from chrono.\<close>

section \<open>Records\<close>

datatype auth_error =
    AStorage store_error | ANotFound | TokenNameTaken string | EmailTaken string
  | AMalformed string | APanic

record user =
  us_id :: string
  us_email :: string
  us_is_admin :: bool
  us_created_at :: int
  us_session_epoch :: nat

record token =
  tk_id :: string
  tk_name :: string
  tk_owner_id :: string
  tk_hash :: string
  tk_created_at :: int
  tk_last_used_at :: "int option"
  tk_expires_at :: "int option"
  tk_scopes :: "string list"

definition FULL_ACCESS_SCOPES :: "string list" where "FULL_ACCESS_SCOPES = [''*'']"

datatype credential_kind = TokenCredential | SessionCredential

record auth_context =
  cx_user_id :: string
  cx_user_email :: string
  cx_is_admin :: bool
  cx_credential_kind :: credential_kind
  cx_credential_id :: string

record auth_env =
  au_time :: time_codec
  au_chrono :: chrono_ops
  au_oauth :: oauth_env

type_synonym 'a aio = "(mem_store, auth_error, 'a) io"
type_synonym field_list = "(string \<times> bytes) list"

abbreviation au :: "'a sio \<Rightarrow> 'a aio" where "au m \<equiv> map_err AStorage m"

definition user_key :: "string \<Rightarrow> string" where "user_key i = ''user:'' @ i"
definition user_all :: string where "user_all = ''user:all''"
definition by_email_key :: "string \<Rightarrow> string" where "by_email_key e = ''user:by-email:'' @ e"
definition by_identity_key :: "string \<Rightarrow> string \<Rightarrow> string" where
  "by_identity_key provider subject = ''user:by-identity:'' @ provider @ '':'' @ subject"
definition legacy_name_key :: "string \<Rightarrow> string" where "legacy_name_key n = ''user:by-name:'' @ n"
definition token_key :: "string \<Rightarrow> string" where "token_key i = ''token:'' @ i"
definition token_by_hash :: "string \<Rightarrow> string" where "token_by_hash h = ''token:by-hash:'' @ h"
definition token_by_name :: "string \<Rightarrow> string \<Rightarrow> string" where
  "token_by_name owner name = ''token:by-name:'' @ owner @ '':'' @ name"
definition token_by_owner :: "string \<Rightarrow> string" where "token_by_owner owner = ''token:by-owner:'' @ owner"

section \<open>Decoding\<close>

definition field_utf8 :: "field_list \<Rightarrow> string \<Rightarrow> auth_error + string" where
  "field_utf8 fs name = (case map_of fs name of
      None \<Rightarrow> Inl (AMalformed (''field '' @ name @ '' missing''))
    | Some b \<Rightarrow> if valid_utf8 b then Inr b else Inl (AMalformed (''field '' @ name @ '' not utf-8'')))"

definition auth_parse_ts :: "time_codec \<Rightarrow> string \<Rightarrow> auth_error + int" where
  "auth_parse_ts tc s = (case parse_rfc3339 tc s of
      Some t \<Rightarrow> Inr t | None \<Rightarrow> Inl (AMalformed ''timestamp''))"

definition normalize_email :: "string \<Rightarrow> string" where
  "normalize_email email = to_lower (trim email)"

definition decode_email :: "field_list \<Rightarrow> auth_error + string" where
  "decode_email fs = (case map_of fs ''primary_email'' of
      Some b \<Rightarrow> if valid_utf8 b then Inr b else Inl (AMalformed ''user.primary_email not utf-8'')
    | None \<Rightarrow> field_utf8 fs ''name'')"

definition decode_epoch :: "field_list \<Rightarrow> auth_error + nat" where
  "decode_epoch fs = (case map_of fs ''session_epoch'' of
      Some b \<Rightarrow> (case (if valid_utf8 b then parse_u64 b else None) of
          Some n \<Rightarrow> Inr n | None \<Rightarrow> Inl (AMalformed ''user.session_epoch not a u64''))
    | None \<Rightarrow> Inr 0)"

definition decode_user :: "time_codec \<Rightarrow> field_list \<Rightarrow> auth_error + user" where
  "decode_user tc fs =
    rbind (decode_email fs) (\<lambda>email.
    rbind (decode_epoch fs) (\<lambda>session_epoch.
    rbind (field_utf8 fs ''id'') (\<lambda>i.
    rbind (field_utf8 fs ''is_admin'') (\<lambda>adm.
    rbind (field_utf8 fs ''created_at'') (\<lambda>created.
    rbind (auth_parse_ts tc created) (\<lambda>t.
      Inr \<lparr>us_id = i, us_email = email, us_is_admin = (adm = ''1''), us_created_at = t,
           us_session_epoch = session_epoch\<rparr>))))))"

text \<open>\<^theory_text>\<open>split_whitespace\<close>: the words between runs of Unicode white space.\<close>

definition emit_word :: "string \<Rightarrow> string list \<Rightarrow> string list" where
  "emit_word w ws = (if w = [] then ws else w # ws)"

function words_from :: "string \<Rightarrow> string \<Rightarrow> string list" where
  "words_from w [] = emit_word w []"
| "words_from w (c # cs) =
    (if white_len (c # cs) = 0 then words_from (w @ [c]) cs
     else emit_word w (words_from [] (drop (white_len (c # cs) - 1) cs)))"
  by pat_completeness auto
termination by (relation "measure (\<lambda>(w, s). length s)") auto

definition split_whitespace :: "string \<Rightarrow> string list" where
  "split_whitespace s = words_from [] s"

definition decode_time_option :: "time_codec \<Rightarrow> field_list \<Rightarrow> string \<Rightarrow> auth_error + int option" where
  "decode_time_option tc fs name = (case map_of fs name of
      None \<Rightarrow> Inr None
    | Some b \<Rightarrow>
      if \<not> valid_utf8 b then Inl (AMalformed (''token.'' @ name @ '' not utf-8''))
      else rmap Some (auth_parse_ts tc b))"

definition decode_token :: "time_codec \<Rightarrow> field_list \<Rightarrow> auth_error + token" where
  "decode_token tc fs =
    rbind (decode_time_option tc fs ''expires_at'') (\<lambda>expires.
    rbind (decode_time_option tc fs ''last_used_at'') (\<lambda>last_used.
    rbind (field_utf8 fs ''scopes'') (\<lambda>scopes.
    rbind (field_utf8 fs ''id'') (\<lambda>i.
    rbind (field_utf8 fs ''name'') (\<lambda>name.
    rbind (field_utf8 fs ''owner_id'') (\<lambda>owner.
    rbind (field_utf8 fs ''hash'') (\<lambda>h.
    rbind (field_utf8 fs ''created_at'') (\<lambda>created.
    rbind (auth_parse_ts tc created) (\<lambda>t.
      Inr \<lparr>tk_id = i, tk_name = name, tk_owner_id = owner, tk_hash = h, tk_created_at = t,
           tk_last_used_at = last_used, tk_expires_at = expires,
           tk_scopes = split_whitespace scopes\<rparr>)))))))))"

text \<open>\<^theory_text>\<open>String::from_utf8(bytes).map_err(..)?\<close> on an index entry.\<close>

definition index_id :: "string \<Rightarrow> bytes \<Rightarrow> string aio" where
  "index_id what b = (if valid_utf8 b then ret b else raise (AMalformed what))"

section \<open>Users\<close>

definition read_user_by_id :: "auth_env \<Rightarrow> string \<Rightarrow> user option aio" where
  "read_user_by_id env i = bind_io (au (bucket_hash_get_all admin_bucket (user_key i))) (\<lambda>fs.
     if fs = [] then ret None
     else bind_io (lift_result (decode_user (au_time env) fs)) (\<lambda>u. ret (Some u)))"

definition has_char :: "char \<Rightarrow> string \<Rightarrow> bool" where "has_char c s \<longleftrightarrow> c \<in> set s"

fun scan_email :: "auth_env \<Rightarrow> string \<Rightarrow> string list \<Rightarrow> user option aio" where
  "scan_email env email [] = ret None"
| "scan_email env email (i # ids) = bind_io (read_user_by_id env i) (\<lambda>found. case found of
      None \<Rightarrow> scan_email env email ids
    | Some user \<Rightarrow>
      if us_email user = email then
        seq_io (if has_char (CHR ''@'') email
                then au (bucket_set admin_bucket (by_email_key email) (us_id user)) else ret ())
          (ret (Some user))
      else scan_email env email ids)"

definition scan_all :: "auth_env \<Rightarrow> string \<Rightarrow> user option aio" where
  "scan_all env email = bind_io (au (bucket_set_members admin_bucket user_all)) (scan_email env email)"

definition find_user_by_email :: "auth_env \<Rightarrow> string \<Rightarrow> user option aio" where
  "find_user_by_email env email =
    bind_io (au (bucket_get admin_bucket (by_email_key email))) (\<lambda>entry. case entry of
      None \<Rightarrow> scan_all env email
    | Some b \<Rightarrow>
      bind_io (index_id ''user:by-email value'' b) (\<lambda>i.
      bind_io (read_user_by_id env i) (\<lambda>found.
        if (case found of Some user \<Rightarrow> us_email user = email | None \<Rightarrow> False) then ret found
        else seq_io (au (bucket_delete admin_bucket (by_email_key email))) (scan_all env email))))"

definition write_new_user :: "auth_env \<Rightarrow> string \<Rightarrow> int \<Rightarrow> string \<Rightarrow> bool \<Rightarrow> user aio" where
  "write_new_user env new_id now email is_admin =
    bind_io (find_user_by_email env email) (\<lambda>found.
      if found \<noteq> None then raise (EmailTaken email)
      else (let user = \<lparr>us_id = new_id, us_email = email, us_is_admin = is_admin,
                us_created_at = now, us_session_epoch = 0\<rparr>; key = user_key new_id in
        seq_io (do_all [
            au (bucket_hash_set admin_bucket key ''id'' new_id),
            au (bucket_hash_set admin_bucket key ''primary_email'' email),
            au (bucket_hash_set admin_bucket key ''is_admin'' (flag is_admin)),
            au (bucket_hash_set admin_bucket key ''created_at'' (to_rfc3339 (au_time env) now)),
            au (bucket_hash_set admin_bucket key ''session_epoch'' ''0'')])
        (bind_io (au (bucket_set_if_absent admin_bucket (by_email_key email) new_id)) (\<lambda>claimed.
          if \<not> claimed then raise (EmailTaken email)
          else seq_io (au (bucket_set_add admin_bucket user_all new_id)) (ret user)))))"

definition any_user_exists :: "bool aio" where
  "any_user_exists = bind_io (au (bucket_set_members admin_bucket user_all)) (\<lambda>ids. ret (ids \<noteq> []))"

definition create_user :: "auth_env \<Rightarrow> string \<Rightarrow> int \<Rightarrow> string \<Rightarrow> bool \<Rightarrow> user aio" where
  "create_user env new_id now email is_admin = write_new_user env new_id now (normalize_email email) is_admin"

text \<open>\<^theory_text>\<open>opt.ok_or(NotFound)?\<close>\<close>

definition found_or_error :: "'a option \<Rightarrow> 'a aio" where
  "found_or_error v = (case v of Some x \<Rightarrow> ret x | None \<Rightarrow> raise ANotFound)"

definition get_user_by_id :: "auth_env \<Rightarrow> string \<Rightarrow> user aio" where
  "get_user_by_id env i = bind_io (read_user_by_id env i) found_or_error"

definition get_user_by_email :: "auth_env \<Rightarrow> string \<Rightarrow> user option aio" where
  "get_user_by_email env email = find_user_by_email env (normalize_email email)"

fun read_users :: "auth_env \<Rightarrow> string list \<Rightarrow> user list aio" where
  "read_users env [] = ret []"
| "read_users env (i # ids) = bind_io (read_user_by_id env i) (\<lambda>found.
     bind_io (read_users env ids) (\<lambda>us. ret (case found of Some u \<Rightarrow> u # us | None \<Rightarrow> us)))"

definition list_users :: "auth_env \<Rightarrow> user list aio" where
  "list_users env = bind_io (au (bucket_set_members admin_bucket user_all)) (read_users env)"

definition count_admins :: "auth_env \<Rightarrow> nat aio" where
  "count_admins env = bind_io (list_users env) (\<lambda>us. ret (length (filter us_is_admin us)))"

text \<open>The admin flag follows the caller's configuration.\<close>

definition sync_admin :: "user \<Rightarrow> bool \<Rightarrow> user aio" where
  "sync_admin user is_admin =
    (if us_is_admin user \<noteq> is_admin
     then seq_io (au (bucket_hash_set admin_bucket (user_key (us_id user)) ''is_admin'' (flag is_admin)))
       (ret (user\<lparr>us_is_admin := is_admin\<rparr>))
     else ret user)"

definition upsert_local_user :: "auth_env \<Rightarrow> string \<Rightarrow> int \<Rightarrow> string \<Rightarrow> bool \<Rightarrow> user aio" where
  "upsert_local_user env new_id now email is_admin = (let email = normalize_email email in
    bind_io (find_user_by_email env email) (\<lambda>found. case found of
      Some user \<Rightarrow> bind_io (sync_admin user is_admin) (\<lambda>user.
        seq_io (au (bucket_set admin_bucket (by_identity_key ''local'' email) (us_id user))) (ret user))
    | None \<Rightarrow> bind_io (write_new_user env new_id now email is_admin) (\<lambda>user.
        seq_io (au (bucket_set admin_bucket (by_identity_key ''local'' email) (us_id user))) (ret user))))"

text \<open>The stored e-mail of a returning user: set once if it is missing, else the index healed.\<close>

definition backfill_email :: "auth_env \<Rightarrow> string \<Rightarrow> user \<Rightarrow> user aio" where
  "backfill_email env email user =
    bind_io (au (bucket_hash_get_all admin_bucket (user_key (us_id user)))) (\<lambda>fs.
      if map_of fs ''primary_email'' = None then
        bind_io (find_user_by_email env email) (\<lambda>found.
          if found = None then
            seq_io (au (bucket_hash_set admin_bucket (user_key (us_id user)) ''primary_email'' email))
            (seq_io (au (bucket_set admin_bucket (by_email_key email) (us_id user)))
              (ret (user\<lparr>us_email := email\<rparr>)))
          else ret user)
      else seq_io (au (bucket_set admin_bucket (by_email_key (us_email user)) (us_id user))) (ret user))"

text \<open>A first-seen identity: linked to the account that holds the e-mail, or a new account.\<close>

definition link_or_create ::
  "auth_env \<Rightarrow> string \<Rightarrow> int \<Rightarrow> string \<Rightarrow> string \<Rightarrow> bool \<Rightarrow> user aio" where
  "link_or_create env new_id now identity_key email is_admin =
    bind_io (find_user_by_email env email) (\<lambda>found. case found of
      Some user \<Rightarrow> seq_io (au (bucket_set admin_bucket identity_key (us_id user))) (sync_admin user is_admin)
    | None \<Rightarrow> bind_io (write_new_user env new_id now email is_admin) (\<lambda>user.
        seq_io (au (bucket_set admin_bucket identity_key (us_id user))) (ret user)))"

definition upsert_oauth_user ::
  "auth_env \<Rightarrow> string \<Rightarrow> int \<Rightarrow> string \<Rightarrow> string \<Rightarrow> string \<Rightarrow> bool \<Rightarrow> user aio" where
  "upsert_oauth_user env new_id now provider subject email is_admin =
    (let identity_key = by_identity_key provider subject; email = normalize_email email in
     bind_io (au (bucket_get admin_bucket identity_key)) (\<lambda>entry. case entry of
       None \<Rightarrow> link_or_create env new_id now identity_key email is_admin
     | Some b \<Rightarrow>
       bind_io (index_id ''identity index value'' b) (\<lambda>i.
       bind_io (read_user_by_id env i) (\<lambda>found. case found of
         Some user \<Rightarrow> bind_io (sync_admin user is_admin) (backfill_email env email)
       | None \<Rightarrow> seq_io (au (bucket_delete admin_bucket identity_key))
           (link_or_create env new_id now identity_key email is_admin)))))"

definition set_user_admin :: "auth_env \<Rightarrow> string \<Rightarrow> bool \<Rightarrow> user aio" where
  "set_user_admin env i is_admin =
    bind_io (bind_io (read_user_by_id env i) found_or_error) (\<lambda>user.
      seq_io (au (bucket_hash_set admin_bucket (user_key (us_id user)) ''is_admin'' (flag is_admin)))
        (ret (user\<lparr>us_is_admin := is_admin\<rparr>)))"

definition bump_session_epoch :: "auth_env \<Rightarrow> string \<Rightarrow> nat aio" where
  "bump_session_epoch env i =
    bind_io (bind_io (read_user_by_id env i) found_or_error) (\<lambda>user.
      bind_io (au (bucket_hash_incr admin_bucket (user_key i) ''session_epoch'' 1)) (\<lambda>next.
        ret (as_u64 next)))"

section \<open>Tokens\<close>

definition read_token_by_id :: "auth_env \<Rightarrow> string \<Rightarrow> token option aio" where
  "read_token_by_id env i = bind_io (au (bucket_hash_get_all admin_bucket (token_key i))) (\<lambda>fs.
     if fs = [] then ret None
     else bind_io (lift_result (decode_token (au_time env) fs)) (\<lambda>t. ret (Some t)))"

definition token_fields :: "string list" where
  "token_fields = [''id'', ''name'', ''owner_id'', ''hash'', ''created_at'', ''expires_at'',
     ''last_used_at'', ''scopes'']"

definition delete_token :: "token \<Rightarrow> unit aio" where
  "delete_token t = do_all [
     au (bucket_delete admin_bucket (token_by_hash (tk_hash t))),
     au (bucket_delete admin_bucket (token_by_name (tk_owner_id t) (tk_name t))),
     au (bucket_set_remove admin_bucket (token_by_owner (tk_owner_id t)) (tk_id t)),
     each_io (\<lambda>f. au (bucket_hash_delete admin_bucket (token_key (tk_id t)) f)) token_fields]"

text \<open>\<^theory_text>\<open>s as i64\<close> for a \<^theory_text>\<open>u64\<close>.\<close>

definition u64_as_i64 :: "nat \<Rightarrow> int" where
  "u64_as_i64 n = (if int n mod 2 ^ 64 < 2 ^ 63 then int n mod 2 ^ 64 else int n mod 2 ^ 64 - 2 ^ 64)"

text \<open>\<^theory_text>\<open>ttl_seconds.map(|s| now + Duration::seconds(s as i64))\<close>\<close>

definition token_expiry :: "chrono_ops \<Rightarrow> int \<Rightarrow> nat option \<Rightarrow> int option aio" where
  "token_expiry ch now ttl = (case ttl of
      None \<Rightarrow> ret None
    | Some s \<Rightarrow> (case Option.bind (duration_seconds ch (u64_as_i64 s)) (add_time ch now) of
        None \<Rightarrow> raise APanic | Some t \<Rightarrow> ret (Some t)))"

definition put_token :: "time_codec \<Rightarrow> token \<Rightarrow> unit aio" where
  "put_token tc t = (let key = token_key (tk_id t) in do_all [
     au (bucket_hash_set admin_bucket key ''id'' (tk_id t)),
     au (bucket_hash_set admin_bucket key ''name'' (tk_name t)),
     au (bucket_hash_set admin_bucket key ''owner_id'' (tk_owner_id t)),
     au (bucket_hash_set admin_bucket key ''hash'' (tk_hash t)),
     au (bucket_hash_set admin_bucket key ''created_at'' (to_rfc3339 tc (tk_created_at t))),
     (case tk_expires_at t of None \<Rightarrow> ret ()
      | Some ts \<Rightarrow> au (bucket_hash_set admin_bucket key ''expires_at'' (to_rfc3339 tc ts))),
     au (bucket_hash_set admin_bucket key ''scopes'' (join '' '' (tk_scopes t))),
     au (bucket_set admin_bucket (token_by_hash (tk_hash t)) (tk_id t)),
     au (bucket_set admin_bucket (token_by_name (tk_owner_id t) (tk_name t)) (tk_id t)),
     au (bucket_set_add admin_bucket (token_by_owner (tk_owner_id t)) (tk_id t))])"

definition write_new_token ::
  "auth_env \<Rightarrow> string \<Rightarrow> int \<Rightarrow> string \<Rightarrow> string \<Rightarrow> string \<Rightarrow> nat option \<Rightarrow> token aio" where
  "write_new_token env new_id now owner name plaintext ttl =
    bind_io (token_expiry (au_chrono env) now ttl) (\<lambda>expires.
      let t = \<lparr>tk_id = new_id, tk_name = name, tk_owner_id = owner,
        tk_hash = sha256_hex (au_oauth env) plaintext, tk_created_at = now, tk_last_used_at = None,
        tk_expires_at = expires, tk_scopes = FULL_ACCESS_SCOPES\<rparr> in
      seq_io (put_token (au_time env) t) (ret t))"

definition create_token ::
  "auth_env \<Rightarrow> string \<Rightarrow> int \<Rightarrow> string \<Rightarrow> string \<Rightarrow> string \<Rightarrow> nat option \<Rightarrow> (token \<times> string) aio" where
  "create_token env new_id now plaintext owner name ttl =
    bind_io (read_user_by_id env owner) (\<lambda>found.
      if found = None then raise ANotFound
      else bind_io (au (bucket_get admin_bucket (token_by_name owner name))) (\<lambda>taken.
        if taken \<noteq> None then raise (TokenNameTaken name)
        else bind_io (write_new_token env new_id now owner name plaintext ttl) (\<lambda>t. ret (t, plaintext))))"

definition get_token_by_name :: "auth_env \<Rightarrow> string \<Rightarrow> string \<Rightarrow> token option aio" where
  "get_token_by_name env owner name =
    bind_io (au (bucket_get admin_bucket (token_by_name owner name))) (\<lambda>entry. case entry of
      None \<Rightarrow> ret None
    | Some b \<Rightarrow> bind_io (index_id ''token:by-name value'' b) (read_token_by_id env))"

fun read_tokens :: "auth_env \<Rightarrow> string list \<Rightarrow> token list aio" where
  "read_tokens env [] = ret []"
| "read_tokens env (i # ids) = bind_io (read_token_by_id env i) (\<lambda>found.
     bind_io (read_tokens env ids) (\<lambda>ts. ret (case found of Some t \<Rightarrow> t # ts | None \<Rightarrow> ts)))"

definition list_tokens_for :: "auth_env \<Rightarrow> string \<Rightarrow> token list aio" where
  "list_tokens_for env owner =
    bind_io (au (bucket_set_members admin_bucket (token_by_owner owner))) (read_tokens env)"

definition rename_token :: "auth_env \<Rightarrow> string \<Rightarrow> string \<Rightarrow> string \<Rightarrow> token aio" where
  "rename_token env owner old_name new_name =
    (if old_name = new_name then bind_io (get_token_by_name env owner old_name) found_or_error
     else bind_io (au (bucket_get admin_bucket (token_by_name owner new_name))) (\<lambda>taken.
       if taken \<noteq> None then raise (TokenNameTaken new_name)
       else bind_io (bind_io (get_token_by_name env owner old_name) found_or_error) (\<lambda>t.
         seq_io (do_all [
             au (bucket_set admin_bucket (token_by_name owner new_name) (tk_id t)),
             au (bucket_hash_set admin_bucket (token_key (tk_id t)) ''name'' new_name),
             au (bucket_delete admin_bucket (token_by_name owner old_name))])
           (ret (t\<lparr>tk_name := new_name\<rparr>)))))"

definition revoke_token_by_name :: "auth_env \<Rightarrow> string \<Rightarrow> string \<Rightarrow> bool aio" where
  "revoke_token_by_name env owner name = bind_io (get_token_by_name env owner name) (\<lambda>found. case found of
      None \<Rightarrow> ret False
    | Some t \<Rightarrow> seq_io (delete_token t) (ret True))"

fun delete_tokens :: "auth_env \<Rightarrow> string list \<Rightarrow> unit aio" where
  "delete_tokens env [] = ret ()"
| "delete_tokens env (i # ids) = bind_io (read_token_by_id env i) (\<lambda>found. case found of
      None \<Rightarrow> delete_tokens env ids
    | Some t \<Rightarrow> seq_io (delete_token t) (delete_tokens env ids))"

definition user_fields :: "string list" where
  "user_fields = [''id'', ''name'', ''primary_email'', ''is_admin'', ''created_at'']"

definition delete_user :: "auth_env \<Rightarrow> string \<Rightarrow> unit aio" where
  "delete_user env i =
    bind_io (bind_io (read_user_by_id env i) found_or_error) (\<lambda>user.
    bind_io (au (bucket_set_members admin_bucket (token_by_owner (us_id user)))) (\<lambda>token_ids.
    seq_io (delete_tokens env token_ids) (do_all [
      au (bucket_delete admin_bucket (by_email_key (us_email user))),
      au (bucket_delete admin_bucket (legacy_name_key (us_email user))),
      au (bucket_set_remove admin_bucket user_all (us_id user)),
      each_io (\<lambda>f. au (bucket_hash_delete admin_bucket (user_key (us_id user)) f)) user_fields])))"

section \<open>Bootstrap\<close>

text \<open>The last step of the bootstrap: a new admin with the given token, unless another replica
  claimed the e-mail first.\<close>

definition bootstrap_new ::
  "auth_env \<Rightarrow> string \<Rightarrow> string \<Rightarrow> int \<Rightarrow> string \<Rightarrow> string \<Rightarrow> bool aio" where
  "bootstrap_new env user_id token_id now email plaintext s =
    (case write_new_user env user_id now email True s of
      (Inl (EmailTaken e), s') \<Rightarrow> (Inr False, s')
    | (Inl e, s') \<Rightarrow> (Inl e, s')
    | (Inr user, s') \<Rightarrow>
        seq_io (write_new_token env token_id now (us_id user) ''bootstrap'' plaintext None) (ret True) s')"

definition bootstrap_admin ::
  "auth_env \<Rightarrow> string \<Rightarrow> string \<Rightarrow> int \<Rightarrow> string \<Rightarrow> string \<Rightarrow> bool aio" where
  "bootstrap_admin env user_id token_id now email plaintext = (let email = normalize_email email in
    bind_io (find_user_by_email env email) (\<lambda>found.
    if found \<noteq> None then ret False
    else bind_io (au (bucket_get admin_bucket (legacy_name_key ''bootstrap''))) (\<lambda>legacy. case legacy of
      None \<Rightarrow> bootstrap_new env user_id token_id now email plaintext
    | Some b \<Rightarrow>
      bind_io (index_id ''user:by-name value'' b) (\<lambda>i.
      bind_io (read_user_by_id env i) (\<lambda>old. case old of
        None \<Rightarrow> bootstrap_new env user_id token_id now email plaintext
      | Some user \<Rightarrow>
        bind_io (au (bucket_hash_get_all admin_bucket (user_key (us_id user)))) (\<lambda>fs.
          if map_of fs ''primary_email'' = None then
            seq_io (do_all [
                au (bucket_hash_set admin_bucket (user_key (us_id user)) ''primary_email'' email),
                au (bucket_set admin_bucket (by_email_key email) (us_id user)),
                au (bucket_delete admin_bucket (legacy_name_key ''bootstrap''))])
              (ret False)
          else bootstrap_new env user_id token_id now email plaintext))))))"

section \<open>Authentication\<close>

definition context_of :: "user \<Rightarrow> string \<Rightarrow> auth_context" where
  "context_of u credential = \<lparr>cx_user_id = us_id u, cx_user_email = us_email u,
     cx_is_admin = us_is_admin u, cx_credential_kind = TokenCredential, cx_credential_id = credential\<rparr>"

text \<open>\<^theory_text>\<open>t0\<close> is the clock at the expiry check, \<^theory_text>\<open>t1\<close> at the touch.\<close>

definition authenticate_wmt :: "auth_env \<Rightarrow> int \<Rightarrow> int \<Rightarrow> string \<Rightarrow> auth_context option aio" where
  "authenticate_wmt env t0 t1 plaintext =
    bind_io (au (bucket_get admin_bucket (token_by_hash (sha256_hex (au_oauth env) plaintext)))) (\<lambda>entry.
      case entry of None \<Rightarrow> ret None
    | Some b \<Rightarrow> bind_io (index_id ''token:by-hash value'' b) (\<lambda>i.
      bind_io (read_token_by_id env i) (\<lambda>found. case found of None \<Rightarrow> ret None
      | Some t \<Rightarrow>
        if (case tk_expires_at t of Some e \<Rightarrow> e < t0 | None \<Rightarrow> False) then ret None
        else bind_io (read_user_by_id env (tk_owner_id t)) (\<lambda>owner. case owner of None \<Rightarrow> ret None
          | Some u \<Rightarrow>
            seq_io (ignore_err (bucket_hash_set admin_bucket (token_key (tk_id t)) ''last_used_at''
                (to_rfc3339 (au_time env) t1)))
              (ret (Some (context_of u (tk_id t))))))))"

fun from_oauth_error :: "oauth_store_error \<Rightarrow> access_token option aio" where
  "from_oauth_error (OStorage e) = raise (AStorage e)"
| "from_oauth_error (OMalformed m) = raise (AMalformed m)"
| "from_oauth_error ONotFound = ret None"

definition load_access :: "auth_env \<Rightarrow> string \<Rightarrow> access_token option aio" where
  "load_access env h s = (case load_access_token (au_oauth env) h s of
      (Inr v, s') \<Rightarrow> (Inr v, s') | (Inl e, s') \<Rightarrow> from_oauth_error e s')"

definition authenticate_wmm :: "auth_env \<Rightarrow> int \<Rightarrow> string \<Rightarrow> auth_context option aio" where
  "authenticate_wmm env t0 plaintext =
    bind_io (load_access env (sha256_hex (au_oauth env) plaintext)) (\<lambda>found. case found of
      None \<Rightarrow> ret None
    | Some access \<Rightarrow>
      if at_expires_at access < t0 then ret None
      else bind_io (read_user_by_id env (at_user_id access)) (\<lambda>owner. case owner of
          None \<Rightarrow> ret None
        | Some u \<Rightarrow> ret (Some (context_of u (at_token_hash access)))))"

definition authenticate :: "auth_env \<Rightarrow> int \<Rightarrow> int \<Rightarrow> string \<Rightarrow> auth_context option aio" where
  "authenticate env t0 t1 plaintext =
    (if starts_with ''wmt_'' plaintext then authenticate_wmt env t0 t1 plaintext
     else if starts_with ''wmm_'' plaintext then authenticate_wmm env t0 plaintext
     else ret None)"

section \<open>What the store says of an account\<close>

definition account :: "time_codec \<Rightarrow> mem_store \<Rightarrow> string \<Rightarrow> user option" where
  "account tc s i = (case hash_at s (user_key i) of
      None \<Rightarrow> None
    | Some h \<Rightarrow> if h = [] then None else (case decode_user tc h of Inr u \<Rightarrow> Some u | Inl e \<Rightarrow> None))"

definition members :: "mem_store \<Rightarrow> string set" where
  "members s = (case set_at s user_all of Some m \<Rightarrow> set m | None \<Rightarrow> {})"

text \<open>A change that adds no account and no member and keeps the identity of every account.\<close>

definition shrinks :: "time_codec \<Rightarrow> mem_store \<Rightarrow> mem_store \<Rightarrow> bool" where
  "shrinks tc s s' \<longleftrightarrow> members s' \<subseteq> members s \<and>
     (\<forall>i u. account tc s' i = Some u \<longrightarrow>
        (\<exists>v. account tc s i = Some v \<and> us_id v = us_id u \<and> us_email v = us_email u))"

definition shrinking :: "time_codec \<Rightarrow> (mem_store, 'e, 'a) io \<Rightarrow> bool" where
  "shrinking tc m \<longleftrightarrow> (\<forall>s. shrinks tc s (snd (m s)))"

text \<open>Every readable record is stored under its own id, an id has no colon, and no two
  listed accounts have the same e-mail.\<close>

definition emails_unique :: "time_codec \<Rightarrow> mem_store \<Rightarrow> bool" where
  "emails_unique tc s \<longleftrightarrow>
     (\<forall>i u. account tc s i = Some u \<longrightarrow> us_id u = i \<and> CHR '':'' \<notin> set i) \<and>
     (\<forall>i\<in>members s. \<forall>j\<in>members s. \<forall>u v. account tc s i = Some u \<longrightarrow> account tc s j = Some v \<longrightarrow>
        us_email u = us_email v \<longrightarrow> i = j)"

named_theorems shrinking_intros "computations that add no account"

lemma shrinks_refl [simp]: "shrinks tc s s"
  by (auto simp: shrinks_def)

lemma shrinks_trans: "\<lbrakk>shrinks tc s t; shrinks tc t u\<rbrakk> \<Longrightarrow> shrinks tc s u"
  unfolding shrinks_def by (metis subset_trans)

lemma shrinks_unique:
  assumes "emails_unique tc s" "shrinks tc s s'"
  shows "emails_unique tc s'"
proof -
  have sub: "members s' \<subseteq> members s"
    and old: "\<And>i u. account tc s' i = Some u \<Longrightarrow>
      \<exists>v. account tc s i = Some v \<and> us_id v = us_id u \<and> us_email v = us_email u"
    using assms(2) by (auto simp: shrinks_def)
  show ?thesis
    unfolding emails_unique_def
  proof (intro conjI allI ballI impI)
    fix i u assume "account tc s' i = Some u"
    then show "us_id u = i" "CHR '':'' \<notin> set i"
      using old assms(1) unfolding emails_unique_def by metis+
  next
    fix i j u v
    assume h: "i \<in> members s'" "j \<in> members s'" "account tc s' i = Some u" "account tc s' j = Some v"
      "us_email u = us_email v"
    then show "i = j" using old[OF h(3)] old[OF h(4)] sub assms(1) unfolding emails_unique_def
      by (metis subsetD)
  qed
qed

lemma shrinkingD: "shrinking tc m \<Longrightarrow> m s = (r, s') \<Longrightarrow> shrinks tc s s'"
  unfolding shrinking_def by (metis snd_conv)

lemma shrinking_pure [shrinking_intros]:
  "shrinking tc (ret x)" "shrinking tc (raise e)" "shrinking tc (lift_result r)"
  by (simp_all add: shrinking_def io_simps)

lemma shrinking_bind [shrinking_intros]:
  "\<lbrakk>shrinking tc m; \<And>x. shrinking tc (f x)\<rbrakk> \<Longrightarrow> shrinking tc (bind_io m f)"
  unfolding shrinking_def by (auto simp: bind_io_parts split: sum.splits intro: shrinks_trans)

lemma shrinking_seq [shrinking_intros]: "\<lbrakk>shrinking tc m; shrinking tc n\<rbrakk> \<Longrightarrow> shrinking tc (seq_io m n)"
  by (simp add: seq_io_def shrinking_bind)

lemma shrinking_map_err [shrinking_intros]: "shrinking tc m \<Longrightarrow> shrinking tc (map_err g m)"
  by (simp add: shrinking_def map_err_parts)

lemma shrinking_ignore [shrinking_intros]: "shrinking tc m \<Longrightarrow> shrinking tc (ignore_err m)"
  by (simp add: shrinking_def ignore_err_def)

lemma shrinking_each [shrinking_intros]:
  "(\<And>x. x \<in> set xs \<Longrightarrow> shrinking tc (f x)) \<Longrightarrow> shrinking tc (each_io f xs)"
  by (induction xs) (auto intro!: shrinking_intros)

lemma shrinking_if [shrinking_intros]:
  "\<lbrakk>c \<Longrightarrow> shrinking tc m; \<not> c \<Longrightarrow> shrinking tc n\<rbrakk> \<Longrightarrow> shrinking tc (if c then m else n)"
  by simp

lemma shrinking_option [shrinking_intros]:
  "\<lbrakk>y = None \<Longrightarrow> shrinking tc m; \<And>x. y = Some x \<Longrightarrow> shrinking tc (f x)\<rbrakk>
   \<Longrightarrow> shrinking tc (case y of None \<Rightarrow> m | Some x \<Rightarrow> f x)"
  by (simp split: option.splits)

lemma shrinks_cells:
  assumes "\<And>i. hash_at s' (user_key i) = hash_at s (user_key i) \<or> hash_at s' (user_key i) \<in> {None, Some []}"
    and "members s' \<subseteq> members s"
  shows "shrinks tc s s'"
  unfolding shrinks_def
proof (intro conjI allI impI)
  fix i u assume u: "account tc s' i = Some u"
  then have "hash_at s' (user_key i) = hash_at s (user_key i)"
    using assms(1)[of i] by (auto simp: account_def)
  then have "account tc s' i = account tc s i" by (simp add: account_def)
  then show "\<exists>v. account tc s i = Some v \<and> us_id v = us_id u \<and> us_email v = us_email u" using u by metis
qed (rule assms(2))

lemma shrinking_reads [shrinking_intros]:
  "shrinking tc (bucket_get b k)" "shrinking tc (bucket_hash_get b k f)"
  "shrinking tc (bucket_hash_get_all b k)" "shrinking tc (bucket_set_members b k)"
  by (simp_all add: shrinking_def bucket_get_def bucket_hash_get_def bucket_hash_get_all_def
      bucket_set_members_def map_err_parts)

lemma shrinking_set [shrinking_intros]:
  "shrinking tc (bucket_set admin_bucket k v)" "shrinking tc (bucket_delete admin_bucket k)"
  unfolding shrinking_def admin_set admin_delete
  by (auto intro!: shrinks_cells simp: cell_simps members_def split: if_splits)

lemma user_key_not_all: "user_key i \<noteq> user_all \<longleftrightarrow> i \<noteq> ''all''"
  by (simp add: user_key_def user_all_def)

lemma admin_set_add_cases:
  "bucket_set_add admin_bucket k x s = (r, s') \<Longrightarrow>
     s' = s \<or> (\<exists>m. set_at s k = Some m \<and> s' = AList.update k (Set (set_insert x m)) s)"
  by (auto simp: set_at_def admin_defs mem_set_add_def set_insert_def
      split: option.splits mem_value.splits if_splits)

lemma admin_set_remove_cases:
  "bucket_set_remove admin_bucket k x s = (r, s') \<Longrightarrow>
     s' = s \<or> (\<exists>m. set_at s k = Some m \<and> s' = AList.update k (Set (removeAll x m)) s)"
  by (auto simp: set_at_def admin_defs mem_set_remove_def split: option.splits mem_value.splits)

lemma admin_hash_set_cases:
  "bucket_hash_set admin_bucket k f v s = (r, s') \<Longrightarrow>
     s' = s \<or> (\<exists>h. hash_at s k = Some h \<and> s' = AList.update k (Hash (AList.update f v h)) s)"
  by (auto simp: hash_at_def admin_defs mem_hash_set_def split: option.splits mem_value.splits)

lemma admin_hash_delete_cases:
  "bucket_hash_delete admin_bucket k f s = (r, s') \<Longrightarrow>
     s' = s \<or> (\<exists>h. hash_at s k = Some h \<and> s' = AList.update k (Hash (AList.delete f h)) s)"
  by (auto simp: hash_at_def admin_defs mem_hash_delete_def split: option.splits mem_value.splits)

lemma shrinking_set_add [shrinking_intros]:
  assumes "k \<noteq> user_all" shows "shrinking tc (bucket_set_add admin_bucket k x)"
  unfolding shrinking_def
proof
  fix s
  obtain r s' where r: "bucket_set_add admin_bucket k x s = (r, s')" by force
  have "shrinks tc s s'" using admin_set_add_cases[OF r] assms
    by (auto intro!: shrinks_cells simp: cell_simps members_def split: if_splits)
  then show "shrinks tc s (snd (bucket_set_add admin_bucket k x s))" by (simp add: r)
qed

lemma shrinking_set_remove [shrinking_intros]: "shrinking tc (bucket_set_remove admin_bucket k x)"
  unfolding shrinking_def
proof
  fix s
  obtain r s' where r: "bucket_set_remove admin_bucket k x s = (r, s')" by force
  have "shrinks tc s s'" using admin_set_remove_cases[OF r]
    by (auto intro!: shrinks_cells simp: cell_simps members_def split: if_splits)
  then show "shrinks tc s (snd (bucket_set_remove admin_bucket k x s))" by (simp add: r)
qed

lemma shrinks_elsewhere:
  assumes "\<not> starts_with ''user:'' k" shows "shrinks tc s (AList.update k v s)"
  using assms by (intro shrinks_cells) (auto simp: cell_simps members_def user_key_def user_all_def)

lemma shrinking_hash_set [shrinking_intros]:
  assumes "\<not> starts_with ''user:'' k" shows "shrinking tc (bucket_hash_set admin_bucket k f v)"
  using admin_hash_set_cases[of k f v] shrinks_elsewhere[OF assms] unfolding shrinking_def
  by (metis prod.collapse shrinks_refl)

lemma shrinking_hash_delete [shrinking_intros]:
  assumes "\<not> starts_with ''user:'' k" shows "shrinking tc (bucket_hash_delete admin_bucket k f)"
  using admin_hash_delete_cases[of k f] shrinks_elsewhere[OF assms] unfolding shrinking_def
  by (metis prod.collapse shrinks_refl)

lemma read_user_state [simp]: "snd (read_user_by_id env i s) = s"
  by (auto simp: read_user_by_id_def io_simps admin_hash_get_all split: option.splits sum.splits)

lemma read_user_Inr:
  "read_user_by_id env i s = (Inr v, s') \<Longrightarrow> s' = s \<and> v = account (au_time env) s i"
  by (auto simp: read_user_by_id_def io_simps admin_hash_get_all account_def
      split: option.splits sum.splits if_splits)

lemma shrinking_read_user [shrinking_intros]: "shrinking tc (read_user_by_id env i)"
  by (simp add: shrinking_def)

lemma read_token_state [simp]: "snd (read_token_by_id env i s) = s"
  by (auto simp: read_token_by_id_def io_simps admin_hash_get_all split: option.splits sum.splits)

lemma shrinking_read_token [shrinking_intros]: "shrinking tc (read_token_by_id env i)"
  by (simp add: shrinking_def)

lemma shrinking_index_id [shrinking_intros]: "shrinking tc (index_id w b)"
  unfolding index_id_def by (intro shrinking_intros)

lemma shrinking_found_or_error [shrinking_intros]: "shrinking tc (found_or_error v)"
  unfolding found_or_error_def by (intro shrinking_intros)

lemma key_kinds [simp]:
  "\<not> starts_with ''user:'' (token_key i)" "token_by_owner i \<noteq> user_all"
  "by_email_key e \<noteq> user_all" "by_identity_key p q \<noteq> user_all" "legacy_name_key n \<noteq> user_all"
  by (simp_all add: token_key_def token_by_owner_def user_all_def by_email_key_def by_identity_key_def
      legacy_name_key_def)

lemma shrinking_delete_token [shrinking_intros]: "shrinking tc (delete_token t)"
  unfolding delete_token_def by (intro shrinking_intros) (auto intro!: shrinking_intros)

lemma shrinking_put_token [shrinking_intros]: "shrinking tc (put_token tc' t)"
  unfolding put_token_def Let_def by (intro shrinking_intros) (auto intro!: shrinking_intros)

lemma shrinking_write_new_token [shrinking_intros]:
  "shrinking tc (write_new_token env i now owner name plaintext ttl)"
  unfolding write_new_token_def token_expiry_def Let_def by (intro shrinking_intros)

lemma shrinking_delete_tokens [shrinking_intros]: "shrinking tc (delete_tokens env ids)"
  by (induction ids) (auto intro!: shrinking_intros)

lemma shrinking_get_token [shrinking_intros]: "shrinking tc (get_token_by_name env owner name)"
  unfolding get_token_by_name_def by (intro shrinking_intros)

lemma shrinking_token_operations [shrinking_intros]:
  "shrinking tc (create_token env i now plaintext owner name ttl)"
  "shrinking tc (revoke_token_by_name env owner name)"
  "shrinking tc (rename_token env owner old_name new_name)"
  unfolding create_token_def revoke_token_by_name_def rename_token_def
  by ((intro shrinking_intros); (auto intro!: shrinking_intros)?)+

lemma shrinking_authenticate [shrinking_intros]: "shrinking tc (authenticate env t0 t1 plaintext)"
proof -
  have l: "shrinking tc (load_access env h)" for h
    unfolding shrinking_def
  proof
    fix s
    have r: "snd (load_access_token (au_oauth env) h s) = s" by (simp add: load_access_token_def)
    obtain v s' where v: "load_access_token (au_oauth env) h s = (v, s')" by force
    have "snd (from_oauth_error e s') = s'" for e
      by (cases e) (simp_all add: io_simps)
    then have "snd (load_access env h s) = s" using r v by (cases v) (simp_all add: load_access_def)
    then show "shrinks tc s (snd (load_access env h s))" by simp
  qed
  show ?thesis
    unfolding authenticate_def authenticate_wmt_def authenticate_wmm_def
    by (intro shrinking_intros l) simp_all
qed

section \<open>Finding an account by its e-mail\<close>

lemma shrinking_scan_email [shrinking_intros]: "shrinking tc (scan_email env email ids)"
  by (induction ids) (auto intro!: shrinking_intros)

lemma shrinking_find [shrinking_intros]: "shrinking tc (find_user_by_email env email)"
  unfolding find_user_by_email_def scan_all_def by (intro shrinking_intros)

lemma keeps_read_user [keeps_intros]: "keeps k (read_user_by_id env i)"
  by (simp add: keeps_def)

lemma keeps_au_set: "k \<noteq> key \<Longrightarrow> keeps k (bucket_set admin_bucket key v)"
  "k \<noteq> key \<Longrightarrow> keeps k (bucket_delete admin_bucket key)"
  by (simp_all add: keeps_def admin_set admin_delete)

lemma keeps_scan_email: "k \<noteq> by_email_key email \<Longrightarrow> keeps k (scan_email env email ids)"
  by (induction ids) (auto intro!: keeps_intros keeps_au_set)

lemma keeps_find: "k \<noteq> by_email_key email \<Longrightarrow> keeps k (find_user_by_email env email)"
  unfolding find_user_by_email_def scan_all_def index_id_def
  by (intro keeps_intros keeps_au_set keeps_scan_email)

lemma plain_id_keys: "CHR '':'' \<notin> set i \<Longrightarrow>
    user_key i \<noteq> by_email_key e \<and> user_key i \<noteq> by_identity_key p q \<and> user_key i \<noteq> legacy_name_key n"
  by (auto simp: user_key_def by_email_key_def by_identity_key_def legacy_name_key_def)

lemma account_cong: "map_of s' (user_key i) = map_of s (user_key i) \<Longrightarrow> account tc s' i = account tc s i"
  by (simp add: account_def hash_at_def)

lemma members_cong: "map_of s' user_all = map_of s user_all \<Longrightarrow> members s' = members s"
  by (simp add: members_def set_at_def)

lemma find_frame:
  assumes "find_user_by_email env email s = (r, s')"
  shows "members s' = members s" "CHR '':'' \<notin> set i \<Longrightarrow> account tc s' i = account tc s i"
    "CHR '':'' \<notin> set i \<Longrightarrow> hash_at s' (user_key i) = hash_at s (user_key i)"
proof -
  show "members s' = members s"
    using keepsD[OF keeps_find assms, of user_all] by (auto intro!: members_cong simp: by_email_key_def user_all_def)
  show "CHR '':'' \<notin> set i \<Longrightarrow> account tc s' i = account tc s i"
    using keepsD[OF keeps_find assms, of "user_key i"] plain_id_keys by (blast intro: account_cong)
  show "CHR '':'' \<notin> set i \<Longrightarrow> hash_at s' (user_key i) = hash_at s (user_key i)"
    using keepsD[OF keeps_find assms, of "user_key i"] plain_id_keys cell_cong(1) by metis
qed

lemma scan_email_None:
  "scan_email env email ids s = (Inr None, s') \<Longrightarrow>
     s' = s \<and> (\<forall>i\<in>set ids. \<forall>u. account (au_time env) s i = Some u \<longrightarrow> us_email u \<noteq> email)"
proof (induction ids arbitrary: s)
  case (Cons i ids)
  obtain v s1 where v: "read_user_by_id env i s = (Inr v, s1)"
    and rest: "(case v of None \<Rightarrow> scan_email env email ids
      | Some user \<Rightarrow> if us_email user = email then
          seq_io (if has_char (CHR ''@'') email
                  then au (bucket_set admin_bucket (by_email_key email) (us_id user)) else ret ())
            (ret (Some user)) else scan_email env email ids) s1 = (Inr None, s')"
    using Cons.prems by (simp add: bind_io_Inr_iff) blast
  have r: "s1 = s" "v = account (au_time env) s i" using read_user_Inr[OF v] by simp_all
  show ?case
  proof (cases v)
    case None
    then show ?thesis using Cons.IH[of s] rest r by auto
  next
    case (Some u)
    have "us_email u \<noteq> email"
      using rest Some by (auto simp: seq_io_def bind_io_Inr_iff ret_def split: if_splits)
    moreover have "account (au_time env) s i = Some u" using r(2) Some by metis
    moreover have "scan_email env email ids s = (Inr None, s')" using rest[unfolded Some] r(1) calculation(1) by simp
    ultimately show ?thesis using Cons.IH[of s] by auto
  qed
qed (simp add: io_simps)

lemma scan_all_None:
  "scan_all env email s = (Inr None, s') \<Longrightarrow>
     \<forall>i\<in>members s'. \<forall>u. account (au_time env) s' i = Some u \<longrightarrow> us_email u \<noteq> email"
proof -
  assume h: "scan_all env email s = (Inr None, s')"
  then obtain m where m: "set_at s user_all = Some m" "scan_email env email m s = (Inr None, s')"
    by (auto simp: scan_all_def bind_io_Inr_iff map_err_Inr_iff admin_set_members split: option.splits)
  then show ?thesis using scan_email_None[OF m(2)] by (simp add: members_def)
qed

lemma find_None:
  assumes "find_user_by_email env email s = (Inr None, s')"
  shows "\<forall>i\<in>members s'. \<forall>u. account (au_time env) s' i = Some u \<longrightarrow> us_email u \<noteq> email"
proof -
  have "\<exists>t. scan_all env email t = (Inr None, s')"
    using assms unfolding find_user_by_email_def seq_io_def
    by (auto simp: bind_io_Inr_iff ret_def split: option.splits if_splits)
  then show ?thesis using scan_all_None by blast
qed

lemma scan_email_Some:
  "scan_email env email ids s = (Inr (Some u), s') \<Longrightarrow>
     us_email u = email \<and> (\<exists>i. account (au_time env) s i = Some u)"
proof (induction ids arbitrary: s)
  case (Cons i ids)
  obtain v s1 where v: "read_user_by_id env i s = (Inr v, s1)"
    and rest: "(case v of None \<Rightarrow> scan_email env email ids
      | Some user \<Rightarrow> if us_email user = email then
          seq_io (if has_char (CHR ''@'') email
                  then au (bucket_set admin_bucket (by_email_key email) (us_id user)) else ret ())
            (ret (Some user)) else scan_email env email ids) s1 = (Inr (Some u), s')"
    using Cons.prems by (simp add: bind_io_Inr_iff) blast
  have r: "s1 = s" "v = account (au_time env) s i" using read_user_Inr[OF v] by simp_all
  show ?case
  proof (cases "v = Some u \<and> us_email u = email")
    case True
    then show ?thesis using r(2) by metis
  next
    case False
    then have "scan_email env email ids s = (Inr (Some u), s')"
      using rest r(1) by (auto simp: seq_io_def bind_io_Inr_iff ret_def split: option.splits if_splits)
    then show ?thesis by (rule Cons.IH)
  qed
qed (simp add: io_simps)

lemma find_Some:
  assumes inv: "emails_unique (au_time env) s" and f: "find_user_by_email env email s = (Inr (Some u), s')"
  shows "account (au_time env) s' (us_id u) = Some u" "us_email u = email" "CHR '':'' \<notin> set (us_id u)"
proof -
  have "us_email u = email \<and> (\<exists>i t. account (au_time env) t i = Some u \<and> shrinks (au_time env) s t
     \<and> (CHR '':'' \<notin> set i \<longrightarrow> account (au_time env) t i = account (au_time env) s i))"
  proof (cases "\<exists>t. scan_all env email t = (Inr (Some u), s') \<and> (t = s \<or> t = AList.delete (by_email_key email) s)")
    case True
    then obtain t where t: "scan_all env email t = (Inr (Some u), s')" "t = s \<or> t = AList.delete (by_email_key email) s"
      by blast
    obtain m where "scan_email env email m t = (Inr (Some u), s')"
      using t(1) by (auto simp: scan_all_def bind_io_Inr_iff map_err_Inr_iff admin_set_members split: option.splits)
    from scan_email_Some[OF this] obtain i where i: "us_email u = email" "account (au_time env) t i = Some u" by blast
    have sh: "shrinks (au_time env) s t"
      using t(2) shrinkingD[OF shrinking_set(2) admin_delete, of "au_time env" s "by_email_key email"] by auto
    have "CHR '':'' \<notin> set i \<longrightarrow> account (au_time env) t i = account (au_time env) s i"
      using t(2) plain_id_keys[of i email] by (auto intro!: account_cong)
    then show ?thesis using i sh by metis
  next
    case False
    have "\<exists>i. account (au_time env) s i = Some u \<and> us_email u = email"
      using f False unfolding find_user_by_email_def seq_io_def
      by (fastforce simp: bind_io_Inr_iff ret_def index_id_def raise_def map_err_Inr_iff admin_get admin_delete
          dest!: read_user_Inr split: option.splits if_splits)
    then show ?thesis using shrinks_refl by metis
  qed
  then obtain i t where i: "us_email u = email" "account (au_time env) t i = Some u" "shrinks (au_time env) s t"
    "CHR '':'' \<notin> set i \<longrightarrow> account (au_time env) t i = account (au_time env) s i" by blast
  have p: "us_id u = i" "CHR '':'' \<notin> set i"
    using shrinks_unique[OF inv i(3)] i(2) unfolding emails_unique_def by metis+
  show "us_email u = email" "CHR '':'' \<notin> set (us_id u)" using i(1) p by simp_all
  show "account (au_time env) s' (us_id u) = Some u"
    using find_frame(2)[OF f p(2), of "au_time env"] i p by simp
qed

lemma unique_grow:
  assumes inv: "emails_unique tc s" and i: "CHR '':'' \<notin> set i" "\<And>u. account tc s' i = Some u \<Longrightarrow> us_id u = i"
    and others: "\<And>j u. \<lbrakk>j \<noteq> i; account tc s' j = Some u\<rbrakk> \<Longrightarrow> account tc s j = Some u"
    and mem: "members s' \<subseteq> insert i (members s)"
    and fresh: "\<And>u j v. \<lbrakk>i \<in> members s'; account tc s' i = Some u; j \<in> members s; j \<noteq> i; account tc s j = Some v\<rbrakk>
      \<Longrightarrow> us_email v \<noteq> us_email u"
  shows "emails_unique tc s'"
  unfolding emails_unique_def
proof (intro conjI allI ballI impI)
  fix j u assume u: "account tc s' j = Some u"
  show "us_id u = j" "CHR '':'' \<notin> set j"
    using u i others[OF _ u] inv unfolding emails_unique_def by metis+
next
  fix j k u v
  assume h: "j \<in> members s'" "k \<in> members s'" "account tc s' j = Some u" "account tc s' k = Some v"
    "us_email u = us_email v"
  show "j = k"
  proof (rule ccontr)
    assume ne: "j \<noteq> k"
    consider "j = i" | "k = i" | "j \<noteq> i" "k \<noteq> i" by blast
    then show False
    proof cases
      case 1
      then show False using fresh[of u k v] h others[OF _ h(4)] mem ne by auto
    next
      case 2
      then show False using fresh[of v j u] h others[OF _ h(3)] mem ne by auto
    next
      case 3
      then show False using inv others[OF _ h(3)] others[OF _ h(4)] h mem ne unfolding emails_unique_def by blast
    qed
  qed
qed

definition new_user_fields :: "auth_env \<Rightarrow> string \<Rightarrow> int \<Rightarrow> string \<Rightarrow> bool \<Rightarrow> field_list" where
  "new_user_fields env i now email is_admin = [(''id'', i), (''primary_email'', email),
     (''is_admin'', flag is_admin), (''created_at'', to_rfc3339 (au_time env) now), (''session_epoch'', ''0'')]"

lemma write_record_run:
  "hash_at s (user_key i) = Some [] \<Longrightarrow> do_all [
       au (bucket_hash_set admin_bucket (user_key i) ''id'' i),
       au (bucket_hash_set admin_bucket (user_key i) ''primary_email'' email),
       au (bucket_hash_set admin_bucket (user_key i) ''is_admin'' (flag is_admin)),
       au (bucket_hash_set admin_bucket (user_key i) ''created_at'' (to_rfc3339 (au_time env) now)),
       au (bucket_hash_set admin_bucket (user_key i) ''session_epoch'' ''0'')] s
     = (Inr (), AList.update (user_key i) (Hash (new_user_fields env i now email is_admin)) s)"
  by (simp add: run_all map_err_run admin_hash_set cell_simps new_user_fields_def del: each_io.simps)

lemma set_if_absent_run:
  "bucket_set_if_absent admin_bucket k v s = (case bytes_at s k of
      Some None \<Rightarrow> (Inr True, AList.update k (Bytes v) s)
    | Some (Some b) \<Rightarrow> (Inr False, s)
    | None \<Rightarrow> (Inl (WrongType k (value_kind (the (map_of s k))) ''bytes''), s))"
proof -
  have k: "admin_bucket @ k = k" by (simp add: admin_bucket_def)
  show ?thesis
    by (auto simp: bucket_set_if_absent_def io_simps admin_get k mem_set_def split: option.splits)
qed

lemma write_new_user_cases:
  assumes f: "find_user_by_email env email s = (Inr None, s1)" and h: "hash_at s1 (user_key i) = Some []"
    and w: "write_new_user env i now email is_admin s = (r, s')"
  defines "s2 \<equiv> AList.update (user_key i) (Hash (new_user_fields env i now email is_admin)) s1"
  shows "s' = s2 \<or> s' = AList.update (by_email_key email) (Bytes i) s2 \<or>
    (\<exists>m. set_at (AList.update (by_email_key email) (Bytes i) s2) user_all = Some m
       \<and> s' = AList.update user_all (Set (set_insert i m)) (AList.update (by_email_key email) (Bytes i) s2))"
proof -
  let ?s3 = "AList.update (by_email_key email) (Bytes i) s2"
  let ?u = "\<lparr>us_id = i, us_email = email, us_is_admin = is_admin, us_created_at = now, us_session_epoch = 0\<rparr>"
  have "write_new_user env i now email is_admin s =
      bind_io (au (bucket_set_if_absent admin_bucket (by_email_key email) i)) (\<lambda>claimed.
        if \<not> claimed then raise (EmailTaken email)
        else seq_io (au (bucket_set_add admin_bucket user_all i)) (ret ?u)) s2"
    using write_record_run[OF h, of email is_admin env now]
    unfolding write_new_user_def bind_io_def[of "find_user_by_email env email"] f s2_def Let_def
    by (simp add: seq_io_def bind_io_def del: each_io.simps)
  then have "(r, s') = (case bytes_at s2 (by_email_key email) of
      Some None \<Rightarrow> seq_io (au (bucket_set_add admin_bucket user_all i)) (ret ?u) ?s3
    | Some (Some b) \<Rightarrow> (Inl (EmailTaken email), s2)
    | None \<Rightarrow> (Inl (AStorage (WrongType (by_email_key email) (value_kind (the (map_of s2 (by_email_key email)))) ''bytes'')), s2))"
    using w by (simp add: bind_io_def map_err_run set_if_absent_run raise_def split: option.splits)
  then consider "s' = s2" | "(r, s') = seq_io (au (bucket_set_add admin_bucket user_all i)) (ret ?u) ?s3"
    by (auto split: option.splits)
  then show ?thesis
  proof cases
    case 2
    obtain x t where x: "bucket_set_add admin_bucket user_all i ?s3 = (x, t)" by force
    have "s' = t" using 2 x by (cases x) (simp_all add: seq_io_def bind_io_def map_err_run ret_def)
    then show ?thesis using admin_set_add_cases[OF x] by blast
  qed simp
qed

lemma user_key_inj [simp]: "user_key i = user_key j \<longleftrightarrow> i = j"
  by (simp add: user_key_def)

lemma account_update:
  "account tc (AList.update k v s) j = (if user_key j = k
     then (case v of Hash h \<Rightarrow> if h = [] then None else
            (case decode_user tc h of Inr u \<Rightarrow> Some u | Inl e \<Rightarrow> None) | _ \<Rightarrow> None)
     else account tc s j)"
  by (cases v) (simp_all add: account_def cell_simps)

lemma new_user_account:
  assumes "map_of s (user_key i) = Some (Hash (new_user_fields env i now email is_admin))"
    and "account tc s i = Some u"
  shows "us_id u = i" "us_email u = email"
  using assms by (auto simp: account_def hash_at_def new_user_fields_def decode_user_def decode_email_def
      field_utf8_def rbind_def split: sum.splits if_splits)

lemma write_new_user_taken:
  assumes "find_user_by_email env email s = (x, s1)" "x \<noteq> Inr None"
  shows "snd (write_new_user env i now email is_admin s) = s1"
proof -
  consider e where "x = Inl e" | u where "x = Inr (Some u)" using assms(2) by (cases x) auto
  then show ?thesis
    by cases (simp_all add: write_new_user_def bind_io_def[of "find_user_by_email env email"] assms(1) raise_def
        del: each_io.simps)
qed

lemma write_new_user_unique:
  assumes inv: "emails_unique (au_time env) s" and i: "CHR '':'' \<notin> set i" "i \<noteq> ''all''" "i \<notin> members s"
    and h: "hash_at s (user_key i) = Some []" and w: "write_new_user env i now email is_admin s = (r, s')"
  shows "emails_unique (au_time env) s'"
proof -
  let ?tc = "au_time env"
  obtain x s1 where f: "find_user_by_email env email s = (x, s1)" by force
  have inv1: "emails_unique ?tc s1" using shrinks_unique[OF inv shrinkingD[OF shrinking_find f]] .
  show ?thesis
  proof (cases "x = Inr None")
    case False
    then have "s' = s1" using write_new_user_taken[OF f] w by (metis snd_conv)
    then show ?thesis using inv1 by simp
  next
    case True
    have f': "find_user_by_email env email s = (Inr None, s1)" using f True by simp
    have h1: "hash_at s1 (user_key i) = Some []" using find_frame(3)[OF f i(1)] h by simp
    have mem1: "i \<notin> members s1" using find_frame(1)[OF f] i(3) by simp
    let ?s2 = "AList.update (user_key i) (Hash (new_user_fields env i now email is_admin)) s1"
    let ?s3 = "AList.update (by_email_key email) (Bytes i) ?s2"
    have k: "user_key i \<noteq> user_all" "user_key i \<noteq> by_email_key email"
      using i(2) user_key_not_all[of i] plain_id_keys[OF i(1)] by simp_all
    have m3: "members ?s3 = members s1" "members ?s2 = members s1"
      using k by (simp_all add: members_def cell_simps user_all_def by_email_key_def)
    have others: "account ?tc s'' j = Some u \<Longrightarrow> j \<noteq> i \<Longrightarrow> account ?tc s1 j = Some u"
      if "s'' = ?s2 \<or> s'' = ?s3 \<or> (\<exists>m. s'' = AList.update user_all (Set m) ?s3)" for s'' j u
      using that by (elim disjE exE) (simp_all add: account_update split: if_splits)
    have own: "map_of s'' (user_key i) = Some (Hash (new_user_fields env i now email is_admin))"
      if "s'' = ?s2 \<or> s'' = ?s3 \<or> (\<exists>m. s'' = AList.update user_all (Set m) ?s3)" for s''
      using that k by auto
    from write_new_user_cases[OF f' h1 w] consider
        "s' = ?s2 \<or> s' = ?s3"
      | m where "set_at ?s3 user_all = Some m" "s' = AList.update user_all (Set (set_insert i m)) ?s3" by blast
    then show ?thesis
    proof cases
      case 1
      then have m: "members s' = members s1" using m3 by metis
      have o: "map_of s' (user_key i) = Some (Hash (new_user_fields env i now email is_admin))"
        by (rule own) (use 1 in blast)
      show ?thesis
      proof (rule unique_grow[OF inv1 i(1)])
        show "account ?tc s' i = Some u \<Longrightarrow> us_id u = i" for u by (rule new_user_account(1)[OF o])
        show "\<lbrakk>j \<noteq> i; account ?tc s' j = Some u\<rbrakk> \<Longrightarrow> account ?tc s1 j = Some u" for j u
          using others[of s' j u] 1 by blast
        show "members s' \<subseteq> insert i (members s1)" using m by blast
        show "us_email v \<noteq> us_email u" if "i \<in> members s'" for u v using that m mem1 by simp
      qed
    next
      case 2
      have mem: "members s' = insert i (members s1)"
        using 2 m3(1) by (simp add: members_def cell_simps)
      have o: "map_of s' (user_key i) = Some (Hash (new_user_fields env i now email is_admin))"
        by (rule own) (use 2 in blast)
      show ?thesis
      proof (rule unique_grow[OF inv1 i(1)])
        show "account ?tc s' i = Some u \<Longrightarrow> us_id u = i" for u by (rule new_user_account(1)[OF o])
        show "\<lbrakk>j \<noteq> i; account ?tc s' j = Some u\<rbrakk> \<Longrightarrow> account ?tc s1 j = Some u" for j u
          using others[of s' j u] 2 by blast
        show "members s' \<subseteq> insert i (members s1)" using mem by simp
        show "us_email v \<noteq> us_email u" if "account ?tc s' i = Some u" "j \<in> members s1"
            "account ?tc s1 j = Some v" for u j v
          using find_None[OF f'] that new_user_account(2)[OF o that(1)] by blast
      qed
    qed
  qed
qed

section \<open>Changes to a stored account\<close>

lemma decode_user_Inr:
  "decode_user tc h = Inr u \<longleftrightarrow> decode_email h = Inr (us_email u)
     \<and> decode_epoch h = Inr (us_session_epoch u) \<and> field_utf8 h ''id'' = Inr (us_id u)
     \<and> (\<exists>a. field_utf8 h ''is_admin'' = Inr a \<and> us_is_admin u = (a = ''1''))
     \<and> (\<exists>c. field_utf8 h ''created_at'' = Inr c \<and> auth_parse_ts tc c = Inr (us_created_at u))"
proof -
  have r: "rbind x f = Inr y \<longleftrightarrow> (\<exists>v. x = Inr v \<and> f v = Inr y)" for x :: "auth_error + 'x" and f and y :: 'y
    by (cases x) simp_all
  show ?thesis by (cases u) (auto simp: decode_user_def r)
qed

lemma field_utf8_update:
  "field_utf8 (AList.update f v h) g = (if f = g then (if valid_utf8 v then Inr v
     else Inl (AMalformed (''field '' @ g @ '' not utf-8''))) else field_utf8 h g)"
  by (simp add: field_utf8_def)

lemma flag_utf8: "valid_utf8 (flag b)" "flag b = ''1'' \<longleftrightarrow> b"
  by (auto simp: flag_def valid_utf8_def utf8_pending_def)

lemma decode_email_update:
  "f \<notin> {''primary_email'', ''name''} \<Longrightarrow> decode_email (AList.update f v h) = decode_email h"
  by (auto simp: decode_email_def field_utf8_update split: option.splits)

lemma decode_epoch_update:
  "f \<noteq> ''session_epoch'' \<Longrightarrow> decode_epoch (AList.update f v h) = decode_epoch h"
  by (simp add: decode_epoch_def)

lemma decode_flag:
  "decode_user tc h = Inr u \<Longrightarrow>
     decode_user tc (AList.update ''is_admin'' (flag b) h) = Inr (u\<lparr>us_is_admin := b\<rparr>)"
  by (auto simp: decode_user_Inr field_utf8_update flag_utf8 decode_email_update decode_epoch_update)

lemma account_Some:
  "account tc s i = Some u \<longleftrightarrow> (\<exists>h. hash_at s (user_key i) = Some h \<and> h \<noteq> [] \<and> decode_user tc h = Inr u)"
  by (auto simp: account_def split: option.splits sum.splits)

lemma shrinks_field:
  assumes a: "account tc s i = Some u0" and h: "hash_at s (user_key i) = Some h"
    and f: "f \<notin> {''id'', ''primary_email'', ''name''}"
  shows "shrinks tc s (AList.update (user_key i) (Hash (AList.update f v h)) s)"
  unfolding shrinks_def
proof (intro conjI allI impI)
  let ?s = "AList.update (user_key i) (Hash (AList.update f v h)) s"
  show "members ?s \<subseteq> members s" by (auto simp: members_def cell_simps split: if_splits)
  fix j u assume u: "account tc ?s j = Some u"
  show "\<exists>w. account tc s j = Some w \<and> us_id w = us_id u \<and> us_email w = us_email u"
  proof (cases "j = i")
    case True
    have "decode_user tc (AList.update f v h) = Inr u" using u True
      by (auto simp: account_Some cell_simps)
    moreover have "decode_user tc h = Inr u0" using a h by (auto simp: account_Some)
    ultimately have "us_id u = us_id u0 \<and> us_email u = us_email u0"
      using f by (auto simp: decode_user_Inr field_utf8_update decode_email_update)
    then show ?thesis using a True by simp
  next
    case False
    then show ?thesis using u by (simp add: account_update)
  qed
qed

lemma sync_admin_run:
  assumes a: "account tc s (us_id user) = Some user" and r: "sync_admin user b s = (r, s')"
  shows "shrinks tc s s'" "r = Inr (user\<lparr>us_is_admin := b\<rparr>)"
    "account tc s' (us_id user) = Some (user\<lparr>us_is_admin := b\<rparr>)"
proof -
  obtain h where h: "hash_at s (user_key (us_id user)) = Some h" "h \<noteq> []" "decode_user tc h = Inr user"
    using a by (auto simp: account_Some)
  let ?s = "AList.update (user_key (us_id user)) (Hash (AList.update ''is_admin'' (flag b) h)) s"
  have run: "sync_admin user b s = (if us_is_admin user \<noteq> b then (Inr (user\<lparr>us_is_admin := b\<rparr>), ?s) else (Inr user, s))"
    by (simp add: sync_admin_def seq_io_def bind_io_def map_err_run admin_hash_set[OF h(1)] ret_def)
  have same: "us_is_admin user = b \<Longrightarrow> user\<lparr>us_is_admin := b\<rparr> = user" by (cases user) simp
  have ne: "AList.update ''is_admin'' (flag b) h \<noteq> []" using h(2) by (cases h) auto
  have acc: "account tc ?s (us_id user) = Some (user\<lparr>us_is_admin := b\<rparr>)"
    using ne decode_flag[OF h(3)] by (simp add: account_update)
  show "shrinks tc s s'" using r run shrinks_field[OF a h(1), of "''is_admin''"] by (auto split: if_splits)
  show "r = Inr (user\<lparr>us_is_admin := b\<rparr>)" using r run same by (auto split: if_splits)
  show "account tc s' (us_id user) = Some (user\<lparr>us_is_admin := b\<rparr>)"
    using r run same acc a by (auto split: if_splits)
qed

text \<open>A missing e-mail may be filled in with one that no listed account has.\<close>

lemma set_email_unique:
  assumes inv: "emails_unique tc s" and a: "account tc s i = Some u0"
    and h: "hash_at s (user_key i) = Some h" and m: "map_of h ''primary_email'' = None"
    and free: "\<forall>j\<in>members s. \<forall>u. account tc s j = Some u \<longrightarrow> us_email u \<noteq> email"
  shows "emails_unique tc (AList.update (user_key i) (Hash (AList.update ''primary_email'' email h)) s)"
    (is "emails_unique tc ?s")
proof (rule unique_grow[OF inv])
  have p: "us_id u0 = i" "CHR '':'' \<notin> set i" using inv a unfolding emails_unique_def by blast+
  show "CHR '':'' \<notin> set i" by (rule p)
  have mem: "members ?s \<subseteq> members s" by (auto simp: members_def cell_simps split: if_splits)
  then show "members ?s \<subseteq> insert i (members s)" by blast
  show "account tc ?s j = Some u \<Longrightarrow> j \<noteq> i \<Longrightarrow> account tc s j = Some u" for j u
    by (simp add: account_update)
  have u: "us_id u = i \<and> us_email u = email" if "account tc ?s i = Some u" for u
  proof -
    have "decode_user tc (AList.update ''primary_email'' email h) = Inr u"
      using that by (auto simp: account_Some cell_simps)
    moreover have "decode_user tc h = Inr u0" using a h by (auto simp: account_Some)
    ultimately show ?thesis using p
      by (auto simp: decode_user_Inr field_utf8_update decode_email_def split: option.splits if_splits)
  qed
  show "account tc ?s i = Some u \<Longrightarrow> us_id u = i" for u using u by blast
  show "us_email v \<noteq> us_email u" if "account tc ?s i = Some u" "j \<in> members s" "account tc s j = Some v" for u j v
    using free that u by metis
qed

section \<open>Every account operation keeps e-mails unique\<close>

definition fresh_id :: "mem_store \<Rightarrow> string \<Rightarrow> bool" where
  "fresh_id s i \<longleftrightarrow> CHR '':'' \<notin> set i \<and> i \<noteq> ''all'' \<and> i \<notin> members s \<and> hash_at s (user_key i) = Some []"

lemma fresh_find:
  assumes "fresh_id s i" "find_user_by_email env email s = (r, s')" shows "fresh_id s' i"
  using assms find_frame(1)[OF assms(2)] find_frame(3)[OF assms(2)] by (simp add: fresh_id_def)

lemma write_new_user_unique':
  "\<lbrakk>emails_unique (au_time env) s; fresh_id s i\<rbrakk> \<Longrightarrow>
     emails_unique (au_time env) (snd (write_new_user env i now email is_admin s))"
  using write_new_user_unique[of env s i _ _ _ _ "snd (write_new_user env i now email is_admin s)", OF _ _ _ _ _ prod.collapse[symmetric]]
  by (simp add: fresh_id_def)

lemma unique_after:
  assumes "emails_unique tc (snd (m s))" "\<And>x. shrinking tc (f x)"
  shows "emails_unique tc (snd (bind_io m f s))"
proof -
  obtain r s' where r: "m s = (r, s')" by force
  show ?thesis using assms r shrinks_unique[of tc s'] unfolding shrinking_def
    by (cases r) (simp_all add: bind_io_def)
qed

lemma bind_run: "m s = (Inr x, s') \<Longrightarrow> bind_io m f s = f x s'"
  "m s = (Inl e, s') \<Longrightarrow> bind_io m f s = (Inl e, s')"
  by (simp_all add: bind_io_def)

lemma backfill_unique:
  assumes inv: "emails_unique (au_time env) s" and a: "account (au_time env) s (us_id user) = Some user"
  shows "emails_unique (au_time env) (snd (backfill_email env email user s))"
proof -
  let ?tc = "au_time env"
  let ?k = "user_key (us_id user)"
  obtain h where h: "hash_at s ?k = Some h" using a by (auto simp: account_Some)
  have "au (bucket_hash_get_all admin_bucket ?k) s = (Inr h, s)"
    by (simp add: map_err_run admin_hash_get_all h)
  note get = bind_run(1)[of "au (bucket_hash_get_all admin_bucket ?k)", OF this]
  show ?thesis
  proof (cases "map_of h ''primary_email''")
    case (Some e)
    let ?m = "seq_io (au (bucket_set admin_bucket (by_email_key (us_email user)) (us_id user))) (ret user)"
    have "shrinking ?tc ?m" by (intro shrinking_intros)
    then show ?thesis using shrinks_unique[OF inv] Some
      by (simp add: backfill_email_def get shrinking_def)
  next
    case None
    obtain r s1 where f: "find_user_by_email env email s = (r, s1)" by force
    have inv1: "emails_unique ?tc s1" using shrinks_unique[OF inv shrinkingD[OF shrinking_find f]] .
    show ?thesis
    proof (cases "r = Inr None")
      case False
      then have "snd (backfill_email env email user s) = s1"
        using f None by (cases r) 
          (auto simp: backfill_email_def get f bind_io_def[of "find_user_by_email env email"] ret_def)
      then show ?thesis using inv1 by simp
    next
      case True
      have f': "find_user_by_email env email s = (Inr None, s1)" using f True by simp
      have p: "CHR '':'' \<notin> set (us_id user)" using inv a unfolding emails_unique_def by blast
      have a1: "account ?tc s1 (us_id user) = Some user" "hash_at s1 ?k = Some h"
        using find_frame(2,3)[OF f p] a h by simp_all
      have inv2: "emails_unique ?tc (snd (au (bucket_hash_set admin_bucket ?k ''primary_email'' email) s1))"
        using set_email_unique[OF inv1 a1 None find_None[OF f']]
        by (simp add: map_err_run admin_hash_set[OF a1(2)])
      have "emails_unique ?tc (snd (seq_io (au (bucket_hash_set admin_bucket ?k ''primary_email'' email))
          (seq_io (au (bucket_set admin_bucket (by_email_key email) (us_id user)))
            (ret (user\<lparr>us_email := email\<rparr>))) s1))"
        unfolding seq_io_def[of "au (bucket_hash_set admin_bucket ?k ''primary_email'' email)"]
        by (rule unique_after[of _ "au (bucket_hash_set admin_bucket ?k ''primary_email'' email)" s1, OF inv2]) (intro shrinking_intros)
      then show ?thesis using None
        by (simp add: backfill_email_def get bind_run(1)[of "find_user_by_email env email", OF f'])
    qed
  qed
qed

lemma sync_after_find:
  assumes inv: "emails_unique (au_time env) s" and f: "find_user_by_email env email s = (Inr (Some u), s1)"
  shows "emails_unique (au_time env) (snd (sync_admin u b s1))"
proof -
  obtain r s' where r: "sync_admin u b s1 = (r, s')" by force
  show ?thesis
    using shrinks_unique[OF shrinks_unique[OF inv shrinkingD[OF shrinking_find f]]
        sync_admin_run(1)[OF find_Some(1)[OF inv f] r]] r by simp
qed

lemma find_then_unique:
  assumes inv: "emails_unique (au_time env) s" and i: "fresh_id s i"
    and f: "\<And>u s1. find_user_by_email env email s = (Inr (Some u), s1) \<Longrightarrow> emails_unique (au_time env) (snd (some u s1))"
    and n: "\<And>x. shrinking (au_time env) (after x)"
  shows "emails_unique (au_time env) (snd (bind_io (find_user_by_email env email)
     (\<lambda>found. case found of Some u \<Rightarrow> some u | None \<Rightarrow> bind_io (write_new_user env i now email is_admin) after) s))"
proof -
  obtain r s1 where r: "find_user_by_email env email s = (r, s1)" by force
  have inv1: "emails_unique (au_time env) s1" using shrinks_unique[OF inv shrinkingD[OF shrinking_find r]] .
  consider e where "r = Inl e" | "r = Inr None" | u where "r = Inr (Some u)"
    by (cases r; cases "projr r") auto
  then show ?thesis
  proof cases
    case 1
    then show ?thesis using inv1 r by (simp add: bind_run)
  next
    case 2
    then show ?thesis
      using unique_after[of _ "write_new_user env i now email is_admin", OF write_new_user_unique'[OF inv1 fresh_find[OF i r]] n] r
      by (simp add: bind_run)
  next
    case 3
    then show ?thesis using f r by (simp add: bind_run)
  qed
qed

lemma link_or_create_unique:
  assumes "emails_unique (au_time env) s" "fresh_id s i"
  shows "emails_unique (au_time env)
    (snd (link_or_create env i now key email is_admin s))"
  unfolding link_or_create_def
proof (rule find_then_unique[OF assms])
  fix u s1
  assume f: "find_user_by_email env email s = (Inr (Some u), s1)"
  let ?s2 = "AList.update key (Bytes (us_id u)) s1"
  have inv1: "emails_unique (au_time env) s1"
    using shrinks_unique[OF assms(1) shrinkingD[OF shrinking_find f]] .
  have inv2: "emails_unique (au_time env) ?s2"
    using shrinks_unique[OF inv1 shrinkingD[OF shrinking_set(1) admin_set]] .
  obtain r s' where r: "sync_admin u is_admin ?s2 = (r, s')" by force
  have "shrinks (au_time env) ?s2 s'"
  proof (cases "key = user_key (us_id u)")
    case True
    then have "hash_at ?s2 (user_key (us_id u)) = None" by (simp add: cell_simps)
    then have "s' = ?s2" using r
      by (auto simp: sync_admin_def seq_io_def bind_io_def map_err_def ret_def
          dest: admin_hash_set_cases split: if_splits prod.splits sum.splits)
    then show ?thesis by simp
  next
    case False
    then have "account (au_time env) ?s2 (us_id u) = Some u"
      using find_Some(1)[OF assms(1) f] by (auto simp: account_update)
    then show ?thesis using sync_admin_run(1) r by blast
  qed
  then have "emails_unique (au_time env) s'" using shrinks_unique[OF inv2] by blast
  then show "emails_unique (au_time env)
      (snd (seq_io (au (bucket_set admin_bucket key (us_id u))) (sync_admin u is_admin) s1))"
    using r by (simp add: seq_io_def bind_io_def map_err_run admin_set)
qed (intro shrinking_intros)

lemma read_found_cases:
  "(\<exists>u. account (au_time env) s i = Some u \<and> bind_io (bind_io (read_user_by_id env i) found_or_error) f s = f u s)
   \<or> (\<exists>e. bind_io (bind_io (read_user_by_id env i) found_or_error) f s = (Inl e, s))"
proof -
  obtain r s' where r: "read_user_by_id env i s = (r, s')" by force
  have s: "s' = s" using read_user_state[of env i s] r by simp
  consider e where "r = Inl e" | "r = Inr None" | u where "r = Inr (Some u)"
    by (cases r; cases "projr r") auto
  then show ?thesis
  proof cases
    case 3
    then have "account (au_time env) s i = Some u" using read_user_Inr[of env i s] r by simp
    then show ?thesis using r s 3 by (simp add: bind_io_def found_or_error_def ret_def)
  qed (use r s in \<open>simp_all add: bind_io_def found_or_error_def raise_def\<close>)
qed

lemma set_user_admin_unique:
  assumes inv: "emails_unique (au_time env) s"
  shows "emails_unique (au_time env) (snd (set_user_admin env i b s))"
proof -
  let ?f = "\<lambda>user. seq_io (au (bucket_hash_set admin_bucket (user_key (us_id user)) ''is_admin'' (flag b)))
        (ret (user\<lparr>us_is_admin := b\<rparr>))"
  have d: "set_user_admin env i b s = bind_io (bind_io (read_user_by_id env i) found_or_error) ?f s"
    by (simp add: set_user_admin_def)
  from read_found_cases[of env s i ?f] show ?thesis
  proof (elim disjE exE conjE)
    fix u assume a: "account (au_time env) s i = Some u" and r: "bind_io (bind_io (read_user_by_id env i) found_or_error) ?f s = ?f u s"
    have "us_id u = i" using inv a unfolding emails_unique_def by blast
    moreover obtain h where h: "hash_at s (user_key i) = Some h" using a by (auto simp: account_Some)
    ultimately have "set_user_admin env i b s = (Inr (u\<lparr>us_is_admin := b\<rparr>),
        AList.update (user_key i) (Hash (AList.update ''is_admin'' (flag b) h)) s)"
      using d r by (simp add: seq_io_def bind_io_def[of "au m" for m] map_err_run admin_hash_set[OF h] ret_def)
    then show ?thesis using shrinks_unique[OF inv shrinks_field[OF a h]] by simp
  qed (use d inv in simp)
qed

lemma bump_session_epoch_unique:
  assumes inv: "emails_unique (au_time env) s"
  shows "emails_unique (au_time env) (snd (bump_session_epoch env i s))"
proof -
  let ?f = "\<lambda>user. bind_io (au (bucket_hash_incr admin_bucket (user_key i) ''session_epoch'' 1)) (\<lambda>n. ret (as_u64 n))"
  have d: "bump_session_epoch env i s = bind_io (bind_io (read_user_by_id env i) found_or_error) ?f s"
    by (simp add: bump_session_epoch_def)
  from read_found_cases[of env s i ?f] show ?thesis
  proof (elim disjE exE conjE)
    fix u assume a: "account (au_time env) s i = Some u"
      and r: "bind_io (bind_io (read_user_by_id env i) found_or_error) ?f s = ?f u s"
    obtain h where h: "hash_at s (user_key i) = Some h" using a by (auto simp: account_Some)
    obtain x s' where x: "bucket_hash_incr admin_bucket (user_key i) ''session_epoch'' 1 s = (x, s')" by force
    have s': "snd (bump_session_epoch env i s) = s'"
      using d r x by (cases x) (simp_all add: bind_io_def[of "au m" for m] map_err_run ret_def)
    show ?thesis
    proof (cases x)
      case (Inl e)
      have "s' = s" using x Inl by (auto simp: bucket_hash_incr_def map_err_run mem_hash_incr_def Let_def
            split: option.splits mem_value.splits sum.splits prod.splits)
      then show ?thesis using s' inv by simp
    next
      case (Inr n)
      have "shrinks (au_time env) s s'"
        using x Inr h shrinks_field[OF a h] by (auto simp: admin_hash_incr_Inr)
      then show ?thesis using s' shrinks_unique[OF inv] by simp
    qed
  qed (use d inv in simp)
qed

text \<open>What is left of a record when \<^theory_text>\<open>delete_user\<close> has removed its fields.\<close>

definition after_delete :: "field_list \<Rightarrow> field_list" where
  "after_delete h = foldl (\<lambda>h f. AList.delete f h) h user_fields"

lemma delete_fields_run:
  "hash_at s (user_key i) = Some h \<Longrightarrow>
     each_io (\<lambda>f. au (bucket_hash_delete admin_bucket (user_key i) f)) user_fields s =
       (Inr (), if map_of s (user_key i) = None then s
         else AList.update (user_key i) (Hash (after_delete h)) s)"
  by (cases "map_of s (user_key i)")
    (auto simp: user_fields_def after_delete_def seq_io_def bind_io_def map_err_run
      admin_hash_delete cell_simps ret_def)

lemma delete_fields_error:
  "hash_at s (user_key i) = None \<Longrightarrow>
     \<exists>e. each_io (\<lambda>f. au (bucket_hash_delete admin_bucket (user_key i) f)) user_fields s = (Inl e, s)"
  by (auto simp: user_fields_def seq_io_def bind_io_def map_err_run hash_at_def admin_defs mem_hash_delete_def
      split: option.splits mem_value.splits)

lemma after_delete_fields:
  "map_of (after_delete h) f = (if f \<in> set user_fields then None else map_of h f)"
  by (auto simp: after_delete_def user_fields_def)

lemma shrinking_delete_fields:
  "shrinking tc (each_io (\<lambda>f. au (bucket_hash_delete admin_bucket (user_key i) f)) user_fields)"
  unfolding shrinking_def
proof
  fix s
  let ?m = "each_io (\<lambda>f. au (bucket_hash_delete admin_bucket (user_key i) f)) user_fields"
  show "shrinks tc s (snd (?m s))"
  proof (cases "hash_at s (user_key i)")
    case None
    then show ?thesis using delete_fields_error[OF None] by auto
  next
    case (Some h)
    have "decode_user tc (after_delete h) \<noteq> Inr u" for u
      by (simp add: decode_user_Inr field_utf8_def after_delete_fields user_fields_def)
    then have "account tc (AList.update (user_key i) (Hash (after_delete h)) s) i = None"
      by (simp add: account_update split: sum.splits)
    then have "shrinks tc s (AList.update (user_key i) (Hash (after_delete h)) s)"
      unfolding shrinks_def by (auto simp: members_def cell_simps account_update split: if_splits)
    then show ?thesis using delete_fields_run[OF Some] by simp
  qed
qed

lemma shrinking_delete_user [shrinking_intros]: "shrinking tc (delete_user env i)"
  unfolding delete_user_def
  by (intro shrinking_intros) (auto intro!: shrinking_intros shrinking_delete_fields)

lemma bootstrap_new_unique:
  assumes "emails_unique (au_time env) s" "fresh_id s i"
  shows "emails_unique (au_time env) (snd (bootstrap_new env i token_id now email plaintext s))"
proof -
  obtain r s' where r: "write_new_user env i now email True s = (r, s')" by force
  have inv: "emails_unique (au_time env) s'" using write_new_user_unique'[OF assms] r by (metis snd_conv)
  have "shrinking (au_time env) (seq_io (write_new_token env token_id now j ''bootstrap'' plaintext None) (ret True))" for j
    by (intro shrinking_intros)
  then show ?thesis using r inv shrinks_unique[OF inv]
    by (cases r; cases "projl r") (auto simp: bootstrap_new_def shrinking_def)
qed

lemma bootstrap_admin_unique:
  assumes inv: "emails_unique (au_time env) s" and i: "fresh_id s i"
  shows "emails_unique (au_time env) (snd (bootstrap_admin env i token_id now email plaintext s))"
proof -
  let ?tc = "au_time env" and ?e = "normalize_email email"
  let ?new = "bootstrap_new env i token_id now ?e plaintext"
  obtain r s1 where f: "find_user_by_email env ?e s = (r, s1)" by force
  have inv1: "emails_unique ?tc s1" using shrinks_unique[OF inv shrinkingD[OF shrinking_find f]] .
  have new: "emails_unique ?tc (snd (?new s1))" by (rule bootstrap_new_unique[OF inv1 fresh_find[OF i f]])
  consider "r \<noteq> Inr None" | (none) "r = Inr None" by blast
  then show ?thesis
  proof cases
    case 1
    then have "snd (bootstrap_admin env i token_id now email plaintext s) = s1"
      using f by (cases r) (auto simp: bootstrap_admin_def Let_def bind_io_def[of "find_user_by_email env ?e"] ret_def)
    then show ?thesis using inv1 by simp
  next
    case none
    define go :: "user \<Rightarrow> bool aio" where "go = (\<lambda>user. bind_io (au (bucket_hash_get_all admin_bucket (user_key (us_id user)))) (\<lambda>fs.
          if map_of fs ''primary_email'' = None then
            seq_io (do_all [
                au (bucket_hash_set admin_bucket (user_key (us_id user)) ''primary_email'' ?e),
                au (bucket_set admin_bucket (by_email_key ?e) (us_id user)),
                au (bucket_delete admin_bucket (legacy_name_key ''bootstrap''))])
              (ret False)
          else ?new))"
    have gone: "emails_unique ?tc (snd (go u s1))" if a: "account ?tc s1 j = Some u" for u j
    proof -
      have j: "us_id u = j" using a inv1 unfolding emails_unique_def by blast
      obtain h where h: "hash_at s1 (user_key j) = Some h" using a by (auto simp: account_Some)
      let ?s2 = "AList.update (user_key j) (Hash (AList.update ''primary_email'' ?e h)) s1"
      show ?thesis
      proof (cases "map_of h ''primary_email''")
        case None
        have inv2: "emails_unique ?tc ?s2"
          using set_email_unique[OF inv1 a h None] find_None[of env ?e s s1] f none by simp
        have "snd (go u s1) = AList.delete (legacy_name_key ''bootstrap'') (AList.update (by_email_key ?e) (Bytes j) ?s2)"
          using None j h by (simp add: go_def bind_io_def map_err_run admin_hash_get_all seq_io_def
              admin_hash_set admin_set admin_delete ret_def)
        then show ?thesis using shrinks_unique[OF shrinks_unique[OF inv2 shrinkingD[OF shrinking_set(1) admin_set]]
            shrinkingD[OF shrinking_set(2) admin_delete]] by metis
      next
        case (Some e)
        have "go u s1 = ?new s1" using Some j h
          by (simp add: go_def bind_io_def[of "au m" for m] map_err_run admin_hash_get_all)
        then show ?thesis using new by simp
      qed
    qed
    have run: "bootstrap_admin env i token_id now email plaintext s =
      bind_io (au (bucket_get admin_bucket (legacy_name_key ''bootstrap''))) (\<lambda>legacy. case legacy of
        None \<Rightarrow> ?new
      | Some b \<Rightarrow> bind_io (index_id ''user:by-name value'' b) (\<lambda>j.
          bind_io (read_user_by_id env j) (\<lambda>old. case old of None \<Rightarrow> ?new | Some user \<Rightarrow> go user))) s1"
      unfolding bootstrap_admin_def Let_def bind_io_def[of "find_user_by_email env ?e"] go_def f none by simp
    show ?thesis
    proof (cases "bytes_at s1 (legacy_name_key ''bootstrap'')")
      case None
      then show ?thesis using inv1 by (simp add: run bind_io_def map_err_run admin_get)
    next
      case b: (Some v)
      show ?thesis
      proof (cases v)
        case None
        then show ?thesis using new b by (simp add: run bind_io_def[of "au m" for m] map_err_run admin_get)
      next
        case (Some t)
        obtain x s2 where x: "read_user_by_id env t s1 = (x, s2)" by force
        have s2: "s2 = s1" using read_user_state[of env t s1] x by simp
        have run2: "snd (bootstrap_admin env i token_id now email plaintext s) =
            (if valid_utf8 t then snd (case x of Inl e \<Rightarrow> (Inl e, s1)
               | Inr old \<Rightarrow> (case old of None \<Rightarrow> ?new | Some user \<Rightarrow> go user) s1) else s1)"
          using Some b x s2
          by (simp add: run bind_io_def[of "au m" for m] map_err_run admin_get index_id_def
              bind_io_def[of "read_user_by_id env t"] raise_def split: sum.splits)
        show ?thesis
        proof (cases x)
          case (Inr old)
          show ?thesis
          proof (cases old)
            case None
            then show ?thesis using run2 Inr new inv1 by simp
          next
            case (Some u)
            have "account ?tc s1 t = Some u" using read_user_Inr[of env t s1 old s2] x Inr Some by simp
            then show ?thesis using run2 Inr Some gone inv1 by simp
          qed
        qed (use run2 inv1 in simp)
      qed
    qed
  qed
qed

lemma upsert_local_user_unique:
  assumes inv: "emails_unique (au_time env) s" and i: "fresh_id s i"
  shows "emails_unique (au_time env) (snd (upsert_local_user env i now email b s))"
  unfolding upsert_local_user_def Let_def
proof (rule find_then_unique[OF inv i])
  fix u s1
  assume f: "find_user_by_email env (normalize_email email) s = (Inr (Some u), s1)"
  show "emails_unique (au_time env) (snd (bind_io (sync_admin u b) (\<lambda>user.
      seq_io (au (bucket_set admin_bucket (by_identity_key ''local'' (normalize_email email)) (us_id user))) (ret user)) s1))"
    by (rule unique_after[of _ "sync_admin u b", OF sync_after_find[OF inv f]]) (intro shrinking_intros)
qed (intro shrinking_intros)

lemma upsert_oauth_user_unique:
  assumes inv: "emails_unique (au_time env) s" and i: "fresh_id s i"
  shows "emails_unique (au_time env) (snd (upsert_oauth_user env i now provider subject email b s))"
proof -
  let ?tc = "au_time env" and ?e = "normalize_email email" and ?k = "by_identity_key provider subject"
  let ?link = "link_or_create env i now ?k ?e b"
  let ?returning = "\<lambda>t. bind_io (read_user_by_id env t) (\<lambda>found. case found of
         Some user \<Rightarrow> bind_io (sync_admin user b) (backfill_email env ?e)
       | None \<Rightarrow> seq_io (au (bucket_delete admin_bucket ?k)) ?link)"
  have returning: "emails_unique ?tc (snd (?returning t s))" for t
  proof -
    obtain x s2 where x: "read_user_by_id env t s = (x, s2)" by force
    have s2: "s2 = s" using read_user_state[of env t s] x by simp
    consider e where "x = Inl e" | "x = Inr None" | u where "x = Inr (Some u)"
      by (cases x; cases "projr x") auto
    then show ?thesis
    proof cases
      case 1
      then show ?thesis using x s2 inv by (simp add: bind_io_def)
    next
      case 2
      let ?s3 = "AList.delete ?k s"
      have "emails_unique ?tc ?s3"
        using shrinks_unique[OF inv shrinkingD[OF shrinking_set(2) admin_delete]] .
      moreover have "fresh_id ?s3 i"
        using i plain_id_keys[of i _ provider subject] by (auto simp: fresh_id_def members_def cell_simps)
      moreover have "?returning t s = ?link ?s3"
        using x s2 2 by (simp add: bind_io_def[of "read_user_by_id env t"] seq_io_def
            bind_io_def[of "au m" for m] map_err_run admin_delete)
      ultimately show ?thesis using link_or_create_unique by metis
    next
      case 3
      have a: "account ?tc s t = Some u" using read_user_Inr[of env t s "Some u" s2] x 3 by simp
      have t: "us_id u = t" using inv a unfolding emails_unique_def by blast
      obtain r s3 where r: "sync_admin u b s = (r, s3)" by force
      have sync: "shrinks ?tc s s3" "r = Inr (u\<lparr>us_is_admin := b\<rparr>)"
        "account ?tc s3 (us_id (u\<lparr>us_is_admin := b\<rparr>)) = Some (u\<lparr>us_is_admin := b\<rparr>)"
        using sync_admin_run[of ?tc s u, OF _ r] a t by simp_all
      have "?returning t s = backfill_email env ?e (u\<lparr>us_is_admin := b\<rparr>) s3"
        using x s2 3 r sync(2) by (simp add: bind_io_def[of "read_user_by_id env t"] bind_io_def[of "sync_admin u b"])
      then show ?thesis using backfill_unique[OF shrinks_unique[OF inv sync(1)] sync(3)] by simp
    qed
  qed
  have run: "upsert_oauth_user env i now provider subject email b s =
     (case bytes_at s ?k of
        None \<Rightarrow> (Inl (AStorage (WrongType ?k (value_kind (the (map_of s ?k))) ''bytes'')), s)
      | Some None \<Rightarrow> ?link s
      | Some (Some t) \<Rightarrow> if valid_utf8 t then ?returning t s else (Inl (AMalformed ''identity index value''), s))"
    by (simp add: upsert_oauth_user_def Let_def bind_io_def[of "au m" for m] map_err_run admin_get index_id_def
        raise_def bind_io_def[of "raise e" for e] split: option.splits)
  show ?thesis using run returning inv link_or_create_unique[OF inv i] by (auto split: option.splits)
qed

text \<open>An operation on accounts or tokens, with the ULIDs it draws.\<close>

datatype account_op =
    CreateUser string int string bool
  | UpsertLocal string int string bool
  | UpsertOAuth string int string string string bool
  | Bootstrap string string int string string
  | FindByEmail string
  | SetAdmin string bool
  | BumpEpoch string
  | DeleteUser string
  | CreateToken string int string string string "nat option"
  | RenameToken string string string
  | RevokeToken string string
  | Authenticate int int string

fun run_op :: "auth_env \<Rightarrow> account_op \<Rightarrow> mem_store \<Rightarrow> mem_store" where
  "run_op env (CreateUser i now email b) s = snd (create_user env i now email b s)"
| "run_op env (UpsertLocal i now email b) s = snd (upsert_local_user env i now email b s)"
| "run_op env (UpsertOAuth i now p q email b) s = snd (upsert_oauth_user env i now p q email b s)"
| "run_op env (Bootstrap i j now email plaintext) s = snd (bootstrap_admin env i j now email plaintext s)"
| "run_op env (FindByEmail email) s = snd (get_user_by_email env email s)"
| "run_op env (SetAdmin i b) s = snd (set_user_admin env i b s)"
| "run_op env (BumpEpoch i) s = snd (bump_session_epoch env i s)"
| "run_op env (DeleteUser i) s = snd (delete_user env i s)"
| "run_op env (CreateToken i now plaintext owner name ttl) s =
     snd (create_token env i now plaintext owner name ttl s)"
| "run_op env (RenameToken owner a b) s = snd (rename_token env owner a b s)"
| "run_op env (RevokeToken owner a) s = snd (revoke_token_by_name env owner a s)"
| "run_op env (Authenticate t0 t1 plaintext) s = snd (authenticate env t0 t1 plaintext s)"

fun new_user_id :: "account_op \<Rightarrow> string option" where
  "new_user_id (CreateUser i now email b) = Some i"
| "new_user_id (UpsertLocal i now email b) = Some i"
| "new_user_id (UpsertOAuth i now p q email b) = Some i"
| "new_user_id (Bootstrap i j now email plaintext) = Some i"
| "new_user_id op = None"

text \<open>Each ULID drawn for a user is new in the store it is drawn in.\<close>

fun fresh_run :: "auth_env \<Rightarrow> account_op list \<Rightarrow> mem_store \<Rightarrow> bool" where
  "fresh_run env [] s = True"
| "fresh_run env (op # ops) s =
     ((case new_user_id op of None \<Rightarrow> True | Some i \<Rightarrow> fresh_id s i) \<and> fresh_run env ops (run_op env op s))"

fun run_ops :: "auth_env \<Rightarrow> account_op list \<Rightarrow> mem_store \<Rightarrow> mem_store" where
  "run_ops env [] s = s"
| "run_ops env (op # ops) s = run_ops env ops (run_op env op s)"

lemma run_op_unique:
  assumes inv: "emails_unique (au_time env) s"
    and fresh: "case new_user_id op of None \<Rightarrow> True | Some i \<Rightarrow> fresh_id s i"
  shows "emails_unique (au_time env) (run_op env op s)"
proof -
  have f: "shrinking (au_time env) (get_user_by_email env email)" for email
    unfolding get_user_by_email_def by (intro shrinking_intros)
  note after = shrinking_def[THEN iffD1, rule_format, THEN shrinks_unique[OF inv]]
  show ?thesis
    using fresh
    by (cases op)
      (simp_all add: create_user_def write_new_user_unique' upsert_local_user_unique upsert_oauth_user_unique
        bootstrap_admin_unique set_user_admin_unique bump_session_epoch_unique inv
        after[OF f] after[OF shrinking_delete_user] after[OF shrinking_token_operations(1)]
        after[OF shrinking_token_operations(2)] after[OF shrinking_token_operations(3)]
        after[OF shrinking_authenticate])
qed

lemma run_ops_unique:
  "\<lbrakk>emails_unique (au_time env) s; fresh_run env ops s\<rbrakk> \<Longrightarrow> emails_unique (au_time env) (run_ops env ops s)"
proof (induction ops arbitrary: s)
  case (Cons op ops)
  then have "emails_unique (au_time env) (run_op env op s)" by (intro run_op_unique) simp_all
  then show ?case using Cons by simp
qed simp

lemma read_users_members:
  "\<lbrakk>read_users env ids s = (Inr us, s'); u \<in> set us\<rbrakk> \<Longrightarrow> \<exists>i\<in>set ids. account (au_time env) s i = Some u"
proof (induction ids arbitrary: us s')
  case (Cons i ids)
  obtain v t us' t' where h: "read_user_by_id env i s = (Inr v, t)" "read_users env ids t = (Inr us', t')"
    "us = (case v of Some u \<Rightarrow> u # us' | None \<Rightarrow> us')"
    using Cons.prems(1) by (auto simp: bind_io_Inr_iff ret_def)
  have v: "t = s" "v = account (au_time env) s i" using read_user_Inr[OF h(1)] by simp_all
  then show ?case
  proof (cases v)
    case None
    then show ?thesis using Cons.IH[of us' t'] h(2,3) Cons.prems(2) v(1) by auto
  next
    case (Some w)
    have w: "account (au_time env) s i = Some w" using v(2) Some by metis
    then show ?thesis using Cons.IH[of us' t'] h(2) h(3)[unfolded Some] Cons.prems(2) v(1) by auto
  qed
qed (simp add: io_simps)

text \<open>C25: whatever accounts are created, linked from identity providers, bootstrapped, changed
  and deleted from an empty store, two users of the user list never share an e-mail, as long
  as ULIDs are new when drawn; failing operations are included.\<close>

theorem emails_stay_unique:
  assumes "fresh_run env ops []" "list_users env (run_ops env ops []) = (Inr us, s')"
  shows "inj_on us_email (set us)"
proof (rule inj_onI)
  let ?s = "run_ops env ops []"
  have "emails_unique (au_time env) []" by (simp add: emails_unique_def account_def members_def cell_simps)
  then have inv: "emails_unique (au_time env) ?s" using assms(1) by (rule run_ops_unique)
  obtain m where m: "set_at ?s user_all = Some m" "read_users env m ?s = (Inr us, s')"
    using assms(2) by (auto simp: list_users_def bind_io_Inr_iff map_err_Inr_iff admin_set_members split: option.splits)
  fix u v assume h: "u \<in> set us" "v \<in> set us" "us_email u = us_email v"
  obtain i j where "i \<in> members ?s" "account (au_time env) ?s i = Some u" "j \<in> members ?s" "account (au_time env) ?s j = Some v"
    using read_users_members[OF m(2) h(1)] read_users_members[OF m(2) h(2)] m(1) by (auto simp: members_def)
  then show "u = v" using inv h(3) unfolding emails_unique_def by (metis option.inject)
qed

section \<open>A deleted user\<close>

lemma delete_user_Inr:
  assumes "delete_user env i s = (Inr x, s')" "us_id u = i" "account (au_time env) s i = Some u"
  obtains t where "\<And>k. \<lbrakk>\<not> starts_with ''token:'' k; k \<noteq> by_email_key (us_email u); k \<noteq> legacy_name_key (us_email u);
      k \<noteq> user_all\<rbrakk> \<Longrightarrow> map_of t k = map_of s k"
    and "each_io (\<lambda>f. au (bucket_hash_delete admin_bucket (user_key i) f)) user_fields t = (Inr x, s')"
proof -
  let ?tail = "each_io (\<lambda>f. au (bucket_hash_delete admin_bucket (user_key i) f)) user_fields"
  obtain m where "(seq_io (delete_tokens env m) (do_all [
      au (bucket_delete admin_bucket (by_email_key (us_email u))),
      au (bucket_delete admin_bucket (legacy_name_key (us_email u))),
      au (bucket_set_remove admin_bucket user_all i), ?tail])) s = (Inr x, s')"
    using read_found_cases[of env s i] assms
    by (fastforce simp: delete_user_def bind_io_Inr_iff map_err_Inr_iff admin_set_members found_or_error_def
        ret_def raise_def dest!: read_user_Inr split: option.splits)
  then obtain t1 t2 t3 t where t: "delete_tokens env m s = (Inr (), t1)"
    "au (bucket_delete admin_bucket (by_email_key (us_email u))) t1 = (Inr (), t2)"
    "au (bucket_delete admin_bucket (legacy_name_key (us_email u))) t2 = (Inr (), t3)"
    "au (bucket_set_remove admin_bucket user_all i) t3 = (Inr (), t)" "?tail t = (Inr x, s')"
    by (auto simp: seq_io_def bind_io_Inr_iff do_all_Inr simp del: each_io.simps)
  have tok: "keeps k (delete_tokens env ids)" if "\<not> starts_with ''token:'' k" for k ids
  proof (induction ids)
    case (Cons j ids)
    have k: "k \<noteq> admin_bucket @ token_by_hash h" "k \<noteq> admin_bucket @ token_by_name o' n"
      "k \<noteq> admin_bucket @ token_by_owner o'" "k \<noteq> admin_bucket @ token_key j'" for h o' n j'
      using that by (auto simp: admin_bucket_def token_by_hash_def token_by_name_def token_by_owner_def token_key_def)
    have "keeps k (read_token_by_id env j)" "keeps k (delete_token t)" for t
      by (simp add: keeps_def)
        (auto simp: delete_token_def intro!: keeps_intros k)
    then show ?case using Cons by (auto intro!: keeps_intros)
  qed (simp add: keeps_intros)
  show ?thesis
  proof (rule that[OF _ t(5)])
    fix k assume k: "\<not> starts_with ''token:'' k" "k \<noteq> by_email_key (us_email u)" "k \<noteq> legacy_name_key (us_email u)"
      "k \<noteq> user_all"
    have "map_of t k = map_of t3 k"
      by (rule keepsD[of k "au (bucket_set_remove admin_bucket user_all i)", OF _ t(4)])
        (use k in \<open>auto intro!: keeps_intros simp: admin_bucket_def\<close>)
    also have "\<dots> = map_of s k"
      using keepsD[of k "delete_tokens env m", OF tok[OF k(1)] t(1)] t(2,3) k by (auto simp: map_err_run admin_delete)
    finally show "map_of t k = map_of s k" .
  qed
qed

text \<open>Deleting a user leaves the session epoch in the record.  The record then exists but
  does not decode, so looking the user up fails as malformed instead of not found, and the
  identity of an external provider that still points at it can never log in again: the branch
  that drops a stale identity is not reached.\<close>

theorem deleted_identity_locked_out:
  assumes u: "account (au_time env) s i = Some u" "us_id u = i" and i: "CHR '':'' \<notin> set i" "i \<noteq> ''all''" "valid_utf8 i"
    and epoch: "hash_at s (user_key i) = Some h" "map_of h ''session_epoch'' \<noteq> None"
    and identity: "bytes_at s (by_identity_key p q) = Some (Some i)"
    and del: "delete_user env i s = (Inr (), s')"
  shows "fst (get_user_by_id env i s') = Inl (AMalformed ''field name missing'')
    \<and> fst (upsert_oauth_user env j now p q email b s') = Inl (AMalformed ''field name missing'')"
proof -
  obtain t where t: "\<And>k. \<lbrakk>\<not> starts_with ''token:'' k; k \<noteq> by_email_key (us_email u); k \<noteq> legacy_name_key (us_email u);
      k \<noteq> user_all\<rbrakk> \<Longrightarrow> map_of t k = map_of s k"
    and run: "each_io (\<lambda>f. au (bucket_hash_delete admin_bucket (user_key i) f)) user_fields t = (Inr (), s')"
    using delete_user_Inr[OF del u(2,1)] by metis
  have own: "map_of t (user_key i) = map_of s (user_key i)"
    using plain_id_keys[OF i(1)] user_key_not_all[of i] i(2) by (intro t) (auto simp: user_key_def)
  have idk: "map_of t (by_identity_key p q) = map_of s (by_identity_key p q)"
    by (intro t) (auto simp: by_identity_key_def by_email_key_def legacy_name_key_def user_all_def)
  have ht: "hash_at t (user_key i) = Some h" "map_of t (user_key i) \<noteq> None"
    using cell_cong(1)[OF own] epoch own by (auto simp: hash_at_def split: option.splits)
  have s': "s' = AList.update (user_key i) (Hash (after_delete h)) t"
    using run delete_fields_run[OF ht(1)] ht(2) by simp
  have left: "hash_at s' (user_key i) = Some (after_delete h)" by (simp add: s' cell_simps)
  have ne: "after_delete h \<noteq> []"
    using epoch(2) after_delete_fields[of h "''session_epoch''"] by (auto simp: user_fields_def)
  have bad: "decode_user (au_time env) (after_delete h) = Inl (AMalformed ''field name missing'')"
    by (simp add: decode_user_def decode_email_def field_utf8_def after_delete_fields user_fields_def)
  have read: "read_user_by_id env i s' = (Inl (AMalformed ''field name missing''), s')"
    using ne bad by (simp add: read_user_by_id_def bind_io_def map_err_run admin_hash_get_all left lift_result_def)
  have "by_identity_key p q \<noteq> user_key i" using plain_id_keys[OF i(1)] by metis
  then have "bytes_at s' (by_identity_key p q) = Some (Some i)"
    using identity cell_cong(3)[OF idk] by (simp add: s' cell_simps)
  then have "fst (upsert_oauth_user env j now p q email b s') = Inl (AMalformed ''field name missing'')"
    using i(3) by (simp add: upsert_oauth_user_def Let_def bind_io_def map_err_run admin_get index_id_def ret_def read)
  then show ?thesis using read by (simp add: get_user_by_id_def bind_io_def)
qed

definition demo_auth :: auth_env where
  "demo_auth = \<lparr>au_time = decimal_time, au_chrono = sample_chrono, au_oauth = demo_oauth\<rparr>"

definition demo_user_fields :: field_list where
  "demo_user_fields = new_user_fields demo_auth ''U'' 5 ''a@x'' False"

definition demo_accounts :: mem_store where
  "demo_accounts = [(user_key ''U'', Hash demo_user_fields), (by_email_key ''a@x'', Bytes ''U''),
     (user_all, Set [''U'']), (by_identity_key ''github'' ''7'', Bytes ''U'')]"

lemma show_zero: "show_nat 0 = ''0''"
  by code_simp

lemma demo_user_decodes:
  "decode_user (au_time demo_auth) demo_user_fields
     = Inr \<lparr>us_id = ''U'', us_email = ''a@x'', us_is_admin = False, us_created_at = 5, us_session_epoch = 0\<rparr>"
proof -
  have "parse_rfc3339 decimal_time (to_rfc3339 decimal_time 5) = Some 5"
    using decimal_time_ok by (simp add: time_ok_def)
  moreover have "valid_utf8 (to_rfc3339 decimal_time 5)" by code_simp
  moreover have "decode_epoch demo_user_fields = Inr 0"
  proof -
    have "parse_u64 ''0'' = Some 0" using parse_u64_show[of 0] show_zero by simp
    then show ?thesis
      by (simp add: decode_epoch_def demo_user_fields_def new_user_fields_def valid_utf8_def utf8_pending_def)
  qed
  ultimately show ?thesis
    by (simp add: decode_user_def decode_email_def field_utf8_def demo_user_fields_def new_user_fields_def
        demo_auth_def auth_parse_ts_def flag_def valid_utf8_def utf8_pending_def)
qed

theorem deleted_identity_locked_out_witness:
  "\<exists>s'. delete_user demo_auth ''U'' demo_accounts = (Inr (), s')
    \<and> fst (get_user_by_id demo_auth ''U'' s') = Inl (AMalformed ''field name missing'')
    \<and> fst (upsert_oauth_user demo_auth ''V'' 9 ''github'' ''7'' ''a@x'' False s') = Inl (AMalformed ''field name missing'')"
proof -
  have a: "account (au_time demo_auth) demo_accounts ''U'' = Some \<lparr>us_id = ''U'', us_email = ''a@x'',
      us_is_admin = False, us_created_at = 5, us_session_epoch = 0\<rparr>"
    using demo_user_decodes by (simp add: account_Some demo_accounts_def cell_simps)
      (simp add: demo_user_fields_def new_user_fields_def)
  have h: "hash_at demo_accounts (user_key ''U'') = Some demo_user_fields"
    by (simp add: demo_accounts_def cell_simps)
  have d: "map_of demo_user_fields ''session_epoch'' \<noteq> None"
    by (simp add: demo_user_fields_def new_user_fields_def)
  have e: "bytes_at demo_accounts (by_identity_key ''github'' ''7'') = Some (Some ''U'')"
    by (simp add: demo_accounts_def cell_simps by_identity_key_def user_key_def by_email_key_def user_all_def)
  have ne: "demo_user_fields \<noteq> []" by (simp add: demo_user_fields_def new_user_fields_def)
  have r: "read_user_by_id demo_auth ''U'' demo_accounts = (Inr (Some \<lparr>us_id = ''U'', us_email = ''a@x'',
      us_is_admin = False, us_created_at = 5, us_session_epoch = 0\<rparr>), demo_accounts)"
    using ne by (simp add: read_user_by_id_def bind_io_def map_err_run admin_hash_get_all h demo_user_decodes
        lift_result_def ret_def)
  have cells: "set_at demo_accounts (token_by_owner ''U'') = Some []" "set_at demo_accounts user_all = Some [''U'']"
    "user_all \<noteq> user_key ''U''" "by_email_key ''a@x'' \<noteq> user_key ''U''" "legacy_name_key ''a@x'' \<noteq> user_key ''U''"
    "user_key ''U'' \<noteq> by_email_key ''a@x''" "user_key ''U'' \<noteq> legacy_name_key ''a@x''" "user_key ''U'' \<noteq> user_all"
    "user_all \<noteq> by_email_key ''a@x''" "user_all \<noteq> legacy_name_key ''a@x''"
    by (simp_all add: demo_accounts_def cell_simps token_by_owner_def user_key_def by_email_key_def user_all_def
        by_identity_key_def legacy_name_key_def)
  have "fst (delete_user demo_auth ''U'' demo_accounts) = Inr ()"
    by (simp add: delete_user_def bind_io_def r found_or_error_def ret_def map_err_run admin_set_members cells
        seq_io_def admin_delete admin_set_remove cell_simps h
        delete_fields_run run_all del: each_io.simps)
  then obtain s' where s': "delete_user demo_auth ''U'' demo_accounts = (Inr (), s')" by (metis prod.collapse)
  show ?thesis
    using s' deleted_identity_locked_out[OF a _ _ _ _ h d e s', of "''V''" 9 "''a@x''" False]
    by (simp add: valid_utf8_def utf8_pending_def)
qed

definition demo_new_accounts :: mem_store where
  "demo_new_accounts = [(user_key ''U'', Hash demo_user_fields), (by_email_key ''a@x'', Bytes ''U''),
     (user_all, Set [''U''])]"

theorem emails_stay_unique_witness:
  "\<exists>us s'. list_users demo_auth (run_ops demo_auth
       [CreateUser ''U'' 5 ''a@x'' False, CreateUser ''V'' 6 '' A@x'' True] []) = (Inr us, s')
    \<and> inj_on us_email (set us) \<and> length us = 1"
proof -
  let ?u = "\<lparr>us_id = ''U'', us_email = ''a@x'', us_is_admin = False, us_created_at = 5, us_session_epoch = 0\<rparr>"
  have norm: "normalize_email ''a@x'' = ''a@x''" "normalize_email '' A@x'' = ''a@x''" by code_simp+
  have none: "find_user_by_email demo_auth ''a@x'' [] = (Inr None, [])"
    by (simp add: find_user_by_email_def scan_all_def bind_io_def map_err_run admin_get admin_set_members
        cell_simps ret_def)
  have keys: "user_key ''U'' \<noteq> by_email_key ''a@x''" "user_key ''U'' \<noteq> user_all" "user_all \<noteq> by_email_key ''a@x''"
    by (simp_all add: user_key_def by_email_key_def user_all_def)
  have one: "snd (create_user demo_auth ''U'' 5 ''a@x'' False []) = demo_new_accounts"
    using keys write_record_run[of "[]" "''U''" "''a@x''" False demo_auth 5]
    unfolding create_user_def norm write_new_user_def bind_io_def[of "find_user_by_email demo_auth e" for e] none Let_def
    by (simp add: cell_simps seq_io_def bind_io_def[of "do_all ms" for ms] bind_io_def[of "au m" for m]
        map_err_run set_if_absent_run admin_set_add set_insert_def ret_def demo_new_accounts_def
        demo_user_fields_def del: each_io.simps)
  have ne: "demo_user_fields \<noteq> []" by (simp add: demo_user_fields_def new_user_fields_def)
  have read: "read_user_by_id demo_auth ''U'' demo_new_accounts = (Inr (Some ?u), demo_new_accounts)"
    using ne keys by (simp add: read_user_by_id_def bind_io_def map_err_run admin_hash_get_all cell_simps
        demo_new_accounts_def demo_user_decodes lift_result_def ret_def)
  have found: "find_user_by_email demo_auth ''a@x'' demo_new_accounts = (Inr (Some ?u), demo_new_accounts)"
  proof -
    have "bytes_at demo_new_accounts (by_email_key ''a@x'') = Some (Some ''U'')"
      using keys by (simp add: demo_new_accounts_def cell_simps)
    then show ?thesis using read
      by (simp add: find_user_by_email_def bind_io_def map_err_run admin_get index_id_def ret_def valid_utf8_def
          utf8_pending_def)
  qed
  have two: "snd (create_user demo_auth ''V'' 6 '' A@x'' True demo_new_accounts) = demo_new_accounts"
    using write_new_user_taken[OF found] by (simp add: create_user_def norm)
  have "list_users demo_auth demo_new_accounts = (Inr [?u], demo_new_accounts)"
  proof -
    have "set_at demo_new_accounts user_all = Some [''U'']"
      using keys by (simp add: demo_new_accounts_def cell_simps user_key_def user_all_def by_email_key_def)
    then show ?thesis using read by (simp add: list_users_def bind_io_def map_err_run admin_set_members ret_def)
  qed
  moreover have "fresh_run demo_auth [CreateUser ''U'' 5 ''a@x'' False, CreateUser ''V'' 6 '' A@x'' True] []"
    using keys by (simp add: fresh_id_def one demo_new_accounts_def members_def cell_simps user_key_def user_all_def
        by_email_key_def)
  ultimately show ?thesis
    using emails_stay_unique[of demo_auth "[CreateUser ''U'' 5 ''a@x'' False, CreateUser ''V'' 6 '' A@x'' True]" "[?u]" demo_new_accounts]
    by (simp add: one two)
qed

section \<open>The life of a token\<close>

definition new_token_fields :: "time_codec \<Rightarrow> token \<Rightarrow> field_list" where
  "new_token_fields tc t = [(''id'', tk_id t), (''name'', tk_name t), (''owner_id'', tk_owner_id t),
     (''hash'', tk_hash t), (''created_at'', to_rfc3339 tc (tk_created_at t))]
     @ (case tk_expires_at t of None \<Rightarrow> [] | Some e \<Rightarrow> [(''expires_at'', to_rfc3339 tc e)])
     @ [(''scopes'', join '' '' (tk_scopes t))]"

lemma token_keys:
  assumes "CHR '':'' \<notin> set i"
  shows "token_key i \<noteq> token_by_hash h" "token_key i \<noteq> token_by_name x y" "token_key i \<noteq> token_by_owner x"
    "token_by_hash h \<noteq> token_key i" "token_by_name x y \<noteq> token_key i" "token_by_owner x \<noteq> token_key i"
    "token_by_hash h \<noteq> token_by_name x y" "token_by_name x y \<noteq> token_by_hash h"
    "token_by_hash h \<noteq> token_by_owner z" "token_by_owner z \<noteq> token_by_hash h"
    "token_by_name x y \<noteq> token_by_owner z" "token_by_owner z \<noteq> token_by_name x y"
  using assms by (auto simp: token_key_def token_by_hash_def token_by_name_def token_by_owner_def)

lemma put_token_Inr:
  assumes i: "CHR '':'' \<notin> set (tk_id t)" and h: "hash_at s (token_key (tk_id t)) = Some []"
    and p: "put_token tc t s = (Inr x, s')"
  shows "hash_at s' (token_key (tk_id t)) = Some (new_token_fields tc t)"
    "bytes_at s' (token_by_hash (tk_hash t)) = Some (Some (tk_id t))"
    "bytes_at s' (token_by_name (tk_owner_id t) (tk_name t)) = Some (Some (tk_id t))"
    "\<exists>m. set_at s' (token_by_owner (tk_owner_id t)) = Some m"
    "\<And>j. map_of s' (user_key j) = map_of s (user_key j)"
proof -
  let ?k = "token_key (tk_id t)"
  note ks = token_keys[OF i]
  obtain m where s': "set_at s (token_by_owner (tk_owner_id t)) = Some m"
    "s' = AList.update (token_by_owner (tk_owner_id t)) (Set (set_insert (tk_id t) m))
       (AList.update (token_by_name (tk_owner_id t) (tk_name t)) (Bytes (tk_id t))
       (AList.update (token_by_hash (tk_hash t)) (Bytes (tk_id t))
       (AList.update ?k (Hash (new_token_fields tc t)) s)))"
    using p h ks
    by (cases "tk_expires_at t")
      (auto simp: put_token_def Let_def do_all_Inr map_err_Inr_iff admin_hash_set_Inr admin_set admin_set_add_Inr
        cell_simps ret_def new_token_fields_def simp del: each_io.simps)
  show "hash_at s' ?k = Some (new_token_fields tc t)" "bytes_at s' (token_by_hash (tk_hash t)) = Some (Some (tk_id t))"
    "bytes_at s' (token_by_name (tk_owner_id t) (tk_name t)) = Some (Some (tk_id t))"
    "\<exists>m. set_at s' (token_by_owner (tk_owner_id t)) = Some m"
    using ks by (simp_all add: s'(2) cell_simps)
  show "map_of s' (user_key j) = map_of s (user_key j)" for j
    by (simp add: s'(2) user_key_def token_key_def token_by_hash_def token_by_name_def token_by_owner_def)
qed

text \<open>What a token's record must hold to be read back.\<close>

definition token_text_ok :: "time_codec \<Rightarrow> token \<Rightarrow> bool" where
  "token_text_ok tc t \<longleftrightarrow> valid_utf8 (tk_id t) \<and> valid_utf8 (tk_name t) \<and> valid_utf8 (tk_owner_id t)
     \<and> valid_utf8 (tk_hash t) \<and> valid_utf8 (to_rfc3339 tc (tk_created_at t))
     \<and> (\<forall>e. tk_expires_at t = Some e \<longrightarrow> valid_utf8 (to_rfc3339 tc e))"

lemma words_star: "split_whitespace ''*'' = [''*'']"
  by code_simp

lemma decode_new_token:
  assumes "time_ok tc" "token_text_ok tc t" "tk_scopes t = FULL_ACCESS_SCOPES" "tk_last_used_at t = None"
  shows "decode_token tc (new_token_fields tc t) = Inr t"
    "valid_utf8 (to_rfc3339 tc later) \<Longrightarrow>
       decode_token tc (AList.update ''last_used_at'' (to_rfc3339 tc later) (new_token_fields tc t))
         = Inr (t\<lparr>tk_last_used_at := Some later\<rparr>)"
  using assms
  by (cases t; cases "tk_expires_at t";
      simp add: decode_token_def decode_time_option_def field_utf8_def new_token_fields_def auth_parse_ts_def time_ok_def
        token_text_ok_def words_star FULL_ACCESS_SCOPES_def rmap_def valid_utf8_def utf8_pending_def)+

lemma token_read:
  assumes "hash_at s (token_key i) = Some h" "h \<noteq> []" "decode_token (au_time env) h = Inr t"
  shows "read_token_by_id env i s = (Inr (Some t), s)"
  using assms by (simp add: read_token_by_id_def bind_io_def map_err_run admin_hash_get_all lift_result_def ret_def)

lemma user_read: "account (au_time env) s i = Some u \<Longrightarrow> read_user_by_id env i s = (Inr (Some u), s)"
  by (auto simp: account_Some read_user_by_id_def bind_io_def map_err_run admin_hash_get_all lift_result_def ret_def)

definition expired :: "token \<Rightarrow> int \<Rightarrow> bool" where
  "expired t now \<longleftrightarrow> (case tk_expires_at t of Some e \<Rightarrow> e < now | None \<Rightarrow> False)"

lemma authenticate_wmt_run:
  assumes "bytes_at s (token_by_hash (sha256_hex (au_oauth env) plaintext)) = Some (Some i)" "valid_utf8 i"
    and "hash_at s (token_key i) = Some h" "h \<noteq> []" "decode_token (au_time env) h = Inr t" "tk_id t = i"
    and "account (au_time env) s (tk_owner_id t) = Some u"
  shows "authenticate_wmt env t0 t1 plaintext s =
    (if expired t t0 then (Inr None, s)
     else (Inr (Some (context_of u i)),
       AList.update (token_key i) (Hash (AList.update ''last_used_at'' (to_rfc3339 (au_time env) t1) h)) s))"
proof -
  have "authenticate_wmt env t0 t1 plaintext s =
     (if expired t t0 then ret None
      else seq_io (ignore_err (bucket_hash_set admin_bucket (token_key i) ''last_used_at''
           (to_rfc3339 (au_time env) t1))) (ret (Some (context_of u i)))) s"
    using assms(1,2) token_read[OF assms(3-5)] user_read[OF assms(7)] assms(6)
    by (simp add: authenticate_wmt_def bind_io_def[of "au m" for m] bind_io_def[of "read_token_by_id env i"]
        bind_io_def[of "read_user_by_id env j" for j] map_err_run admin_get index_id_def expired_def)
  then show ?thesis by (simp add: ret_def seq_io_def bind_io_def ignore_err_def admin_hash_set[OF assms(3)])
qed

lemma authenticate_unknown:
  assumes "bytes_at s (token_by_hash (sha256_hex (au_oauth env) plaintext)) = Some None"
  shows "authenticate_wmt env t0 t1 plaintext s = (Inr None, s)"
  using assms by (simp add: authenticate_wmt_def bind_io_def map_err_run admin_get ret_def)

lemma revoke_run:
  assumes "bytes_at s (token_by_name owner name) = Some (Some i)" "valid_utf8 i" "CHR '':'' \<notin> set i"
    and "hash_at s (token_key i) = Some h" "h \<noteq> []" "decode_token (au_time env) h = Inr t" "tk_id t = i"
    and "set_at s (token_by_owner (tk_owner_id t)) = Some m"
  shows "\<exists>s'. revoke_token_by_name env owner name s = (Inr True, s')
    \<and> bytes_at s' (token_by_hash (tk_hash t)) = Some None"
proof -
  let ?del = "each_io (\<lambda>f. au (bucket_hash_delete admin_bucket (token_key i) f)) token_fields"
  note ks = token_keys[OF assms(3)]
  obtain s4 where s4: "do_all [
     au (bucket_delete admin_bucket (token_by_hash (tk_hash t))),
     au (bucket_delete admin_bucket (token_by_name (tk_owner_id t) (tk_name t))),
     au (bucket_set_remove admin_bucket (token_by_owner (tk_owner_id t)) i)] s = (Inr (), s4)"
    and c: "hash_at s4 (token_key i) = Some h" "bytes_at s4 (token_by_hash (tk_hash t)) = Some None"
    using assms(4,8) ks by (simp add: run_all map_err_run admin_delete admin_set_remove cell_simps del: each_io.simps)
  have step: "\<exists>s'. each_io (\<lambda>f. au (bucket_hash_delete admin_bucket (token_key i) f)) fs v = (Inr (), s')
      \<and> bytes_at s' (token_by_hash (tk_hash t)) = Some None"
    if "hash_at v (token_key i) = Some h'" "bytes_at v (token_by_hash (tk_hash t)) = Some None" for fs v h'
    using that
  proof (induction fs arbitrary: v h')
    case (Cons f fs)
    let ?v = "if map_of v (token_key i) = None then v else AList.update (token_key i) (Hash (AList.delete f h')) v"
    have "hash_at ?v (token_key i) \<noteq> None" "bytes_at ?v (token_by_hash (tk_hash t)) = Some None"
      using Cons.prems ks by (simp_all add: cell_simps)
    then obtain s' where "each_io (\<lambda>f. au (bucket_hash_delete admin_bucket (token_key i) f)) fs ?v = (Inr (), s')"
      "bytes_at s' (token_by_hash (tk_hash t)) = Some None" using Cons.IH by blast
    moreover have "au (bucket_hash_delete admin_bucket (token_key i) f) v = (Inr (), ?v)"
      by (simp add: map_err_run admin_hash_delete[OF Cons.prems(1)])
    ultimately show ?case
      by (simp only: each_io.simps seq_io_def bind_io_def[of "au m" for m] prod.case sum.case) blast
  qed (simp add: ret_def)
  obtain s5 where s5: "?del s4 = (Inr (), s5)" "bytes_at s5 (token_by_hash (tk_hash t)) = Some None"
    using step[OF c] by blast
  have "delete_token t s = (Inr (), s5)"
    using s4 s5(1) assms(7) by (auto simp: delete_token_def run_all split: prod.splits sum.splits simp del: each_io.simps)
  moreover have "get_token_by_name env owner name s = (Inr (Some t), s)"
    using assms(1,2) token_read[OF assms(4-6)]
    by (simp add: get_token_by_name_def bind_io_def map_err_run admin_get index_id_def ret_def)
  ultimately show ?thesis using s5(2) by (simp add: revoke_token_by_name_def bind_io_def seq_io_def ret_def)
qed

text \<open>C26: A token that was created authenticates its owner until it expires, and nobody once its
  owner has revoked it by name; using it in between does not get in the way.\<close>

theorem token_works_until_revoked:
  assumes ok: "time_ok (au_time env)" "\<And>x. valid_utf8 (to_rfc3339 (au_time env) x)"
    and utf: "starts_with ''wmt_'' plaintext" "valid_utf8 i" "valid_utf8 name" "valid_utf8 owner"
      "valid_utf8 (sha256_hex (au_oauth env) plaintext)"
    and new: "CHR '':'' \<notin> set i" "hash_at s (token_key i) = Some []"
    and u: "account (au_time env) s owner = Some u"
    and create: "create_token env i now plaintext owner name ttl s = (Inr (t, given), s1)"
  shows "\<exists>s2 s3. authenticate env t0 t1 plaintext s1
      = (Inr (if expired t t0 then None else Some (context_of u i)), s2)
    \<and> revoke_token_by_name env owner name s2 = (Inr True, s3)
    \<and> fst (authenticate env t2 t3 plaintext s3) = Inr None"
proof -
  obtain expires where t: "t = \<lparr>tk_id = i, tk_name = name, tk_owner_id = owner,
      tk_hash = sha256_hex (au_oauth env) plaintext, tk_created_at = now, tk_last_used_at = None,
      tk_expires_at = expires, tk_scopes = FULL_ACCESS_SCOPES\<rparr>"
    and put: "put_token (au_time env) t s = (Inr (), s1)"
    using create user_read[OF u]
    by (auto simp: create_token_def write_new_token_def bind_io_Inr_iff seq_io_def ret_def raise_def map_err_Inr_iff
        admin_get token_expiry_def Let_def split: option.splits if_splits)
  let ?h = "new_token_fields (au_time env) t"
  let ?h' = "AList.update ''last_used_at'' (to_rfc3339 (au_time env) t1) ?h"
  have p: "hash_at s1 (token_key i) = Some ?h" "bytes_at s1 (token_by_hash (tk_hash t)) = Some (Some i)"
    "bytes_at s1 (token_by_name owner name) = Some (Some i)" "\<exists>m. set_at s1 (token_by_owner owner) = Some m"
    "account (au_time env) s1 owner = Some u"
    using put_token_Inr[of t s "au_time env" "()" s1] put new u account_cong[of s1 owner s] by (simp_all add: t)
  have tok: "token_text_ok (au_time env) t" using ok(2) utf by (simp add: token_text_ok_def t)
  note dec = decode_new_token[OF ok(1) tok]
  have d: "decode_token (au_time env) ?h = Inr t"
    "decode_token (au_time env) ?h' = Inr (t\<lparr>tk_last_used_at := Some t1\<rparr>)" using dec ok(2) by (simp_all add: t)
  have ne: "?h \<noteq> []" "?h' \<noteq> []" by (simp_all add: new_token_fields_def)
  let ?s2 = "if expired t t0 then s1 else AList.update (token_key i) (Hash ?h') s1"
  let ?t2 = "if expired t t0 then t else t\<lparr>tk_last_used_at := Some t1\<rparr>"
  have auth: "authenticate env t0 t1 plaintext s1
      = (Inr (if expired t t0 then None else Some (context_of u i)), ?s2)"
    using authenticate_wmt_run[of s1 env plaintext i ?h t u t0 t1] p(1,2,5) utf d(1) ne
    by (simp add: authenticate_def t)
  obtain m where m: "set_at s1 (token_by_owner owner) = Some m" using p(4) by blast
  have "\<exists>s3. revoke_token_by_name env owner name ?s2 = (Inr True, s3)
      \<and> bytes_at s3 (token_by_hash (tk_hash ?t2)) = Some None"
    by (rule revoke_run[of _ _ _ i "if expired t t0 then ?h else ?h'" env ?t2 m])
      (use p(1,3) utf(2) new(1) ne d m token_keys[OF new(1)] in \<open>auto simp: cell_simps t\<close>)
  then obtain s3 where s3: "revoke_token_by_name env owner name ?s2 = (Inr True, s3)"
    "bytes_at s3 (token_by_hash (tk_hash ?t2)) = Some None" by blast
  have "tk_hash ?t2 = sha256_hex (au_oauth env) plaintext" by (cases "expired t t0") (simp_all add: t)
  note gone = s3(2)[unfolded this]
  then show ?thesis using s3(1) auth authenticate_unknown[OF gone] utf(1) by (simp add: authenticate_def)
qed

lemma demo_owner: "account (au_time demo_auth) demo_accounts ''U'' = Some \<lparr>us_id = ''U'', us_email = ''a@x'',
    us_is_admin = False, us_created_at = 5, us_session_epoch = 0\<rparr>"
  using demo_user_decodes by (simp add: account_Some demo_accounts_def cell_simps)
    (simp add: demo_user_fields_def new_user_fields_def)

theorem token_works_until_revoked_witness:
  "\<exists>t s1 s2 s3. create_token demo_auth ''T'' 7 ''wmt_x'' ''U'' ''ci'' (Some 60) demo_accounts = (Inr (t, ''wmt_x''), s1)
    \<and> authenticate demo_auth 8 9 ''wmt_x'' s1
      = (Inr (if expired t 8 then None else Some (context_of \<lparr>us_id = ''U'', us_email = ''a@x'',
           us_is_admin = False, us_created_at = 5, us_session_epoch = 0\<rparr> ''T'')), s2)
    \<and> revoke_token_by_name demo_auth ''U'' ''ci'' s2 = (Inr True, s3)
    \<and> fst (authenticate demo_auth 10 11 ''wmt_x'' s3) = Inr None"
proof -
  let ?t = "\<lparr>tk_id = ''T'', tk_name = ''ci'', tk_owner_id = ''U'', tk_hash = ''wmt_x'', tk_created_at = 7,
      tk_last_used_at = None, tk_expires_at = Some 60000000007, tk_scopes = FULL_ACCESS_SCOPES\<rparr>"
  have hash: "sha256_hex (au_oauth demo_auth) ''wmt_x'' = ''wmt_x''" by (simp add: demo_auth_def demo_oauth_def)
  have exp: "token_expiry (au_chrono demo_auth) 7 (Some 60) demo_accounts = (Inr (Some 60000000007), demo_accounts)"
    by (simp add: token_expiry_def u64_as_i64_def demo_auth_def sample_chrono_def i64_max_def ret_def)
  note ds = demo_accounts_def cell_simps user_key_def by_email_key_def user_all_def by_identity_key_def
    token_key_def token_by_hash_def token_by_name_def token_by_owner_def
  have cells: "hash_at demo_accounts (token_key ''T'') = Some []" "set_at demo_accounts (token_by_owner ''U'') = Some []"
    "bytes_at demo_accounts (token_by_name ''U'' ''ci'') = Some None" by (simp_all add: ds)
  have ks: "CHR '':'' \<notin> set ''T''" by simp
  have "fst (put_token (au_time demo_auth) ?t demo_accounts) = Inr ()"
    using token_keys[OF ks]
    by (simp add: put_token_def Let_def run_all map_err_run admin_hash_set admin_set admin_set_add cell_simps cells
        del: each_io.simps)
  then obtain s1 where "put_token (au_time demo_auth) ?t demo_accounts = (Inr (), s1)" by (metis prod.collapse)
  then have create: "create_token demo_auth ''T'' 7 ''wmt_x'' ''U'' ''ci'' (Some 60) demo_accounts = (Inr (?t, ''wmt_x''), s1)"
    using exp cells(3) hash
    by (simp add: create_token_def write_new_token_def Let_def bind_io_def user_read[OF demo_owner] map_err_run admin_get
        seq_io_def ret_def)
  have time: "time_ok (au_time demo_auth)" "valid_utf8 (to_rfc3339 (au_time demo_auth) x)" for x
    using decimal_time_ok show_int_utf8 by (simp_all add: demo_auth_def decimal_time_def)
  show ?thesis
    using create token_works_until_revoked[OF time _ _ _ _ _ ks cells(1) demo_owner create, of 8 9 10 11]
    by (simp add: hash valid_utf8_def utf8_pending_def starts_with_iff)
qed

end
