(* ===== verification/Callout.thy ===== *)
theory Callout
  imports Auth "HOL-Library.Word"
begin

text \<open>Outbound callbacks: the egress policy (\<^theory_text>\<open>egress.rs\<close>) and the delivery of one callback
  under it (\<^theory_text>\<open>callout.rs\<close>).

  \<^theory_text>\<open>net_lib\<close> holds the CIDR library and the text forms of addresses, \<^theory_text>\<open>callout_lib\<close> the URL
  parser, the resolver and the HTTP client.  What is sent is a value, so that it can be said
  which addresses a request may reach.\<close>

section \<open>Egress policy\<close>

datatype ip_addr = V4 "32 word" | V6 "128 word"

record 'net net_lib =
  parse_net :: "string \<Rightarrow> 'net option"
  parse_ip :: "string \<Rightarrow> ip_addr option"
  host_net :: "ip_addr \<Rightarrow> 'net"
  net_contains :: "'net \<Rightarrow> ip_addr \<Rightarrow> bool"
  ip_text :: "ip_addr \<Rightarrow> string"

definition SPECIAL_USE :: "string list" where
  "SPECIAL_USE = [''0.0.0.0/8'', ''10.0.0.0/8'', ''100.64.0.0/10'', ''127.0.0.0/8'', ''169.254.0.0/16'',
     ''172.16.0.0/12'', ''192.0.0.0/24'', ''192.168.0.0/16'', ''198.18.0.0/15'', ''224.0.0.0/4'',
     ''240.0.0.0/4'', ''::1/128'', ''::/128'', ''fc00::/7'', ''fe80::/10'', ''ff00::/8'']"

text \<open>\<^theory_text>\<open>EgressPanics\<close> is the \<^theory_text>\<open>expect\<close> on the literals above.\<close>

datatype egress_decision = Allow | Deny string | EgressPanics

record 'net egress_policy =
  ep_enabled :: bool
  ep_allow :: "'net list"
  ep_deny :: "'net list"

datatype egress_config_error = BadCidr string string

definition egress_disabled :: "'net egress_policy" where
  "egress_disabled = \<lparr>ep_enabled = False, ep_allow = [], ep_deny = []\<rparr>"

definition egress_new :: "bool \<Rightarrow> 'net list \<Rightarrow> 'net list \<Rightarrow> 'net egress_policy" where
  "egress_new enabled allow deny = \<lparr>ep_enabled = enabled, ep_allow = allow, ep_deny = deny\<rparr>"

fun parse_entries :: "('net, 'z) net_lib_scheme \<Rightarrow> string \<Rightarrow> string list \<Rightarrow> egress_config_error + 'net list" where
  "parse_entries lib var [] = Inr []"
| "parse_entries lib var (e # es) =
    rbind (case parse_net lib e of
        Some n \<Rightarrow> Inr n
      | None \<Rightarrow> (case parse_ip lib e of
          Some ip \<Rightarrow> Inr (host_net lib ip) | None \<Rightarrow> Inl (BadCidr var e)))
      (\<lambda>n. rmap (\<lambda>ns. n # ns) (parse_entries lib var es))"

definition parse_cidrs :: "('net, 'z) net_lib_scheme \<Rightarrow> string \<Rightarrow> string option \<Rightarrow> egress_config_error + 'net list" where
  "parse_cidrs lib var v = (case v of
      None \<Rightarrow> Inr []
    | Some txt \<Rightarrow> parse_entries lib var (filter (\<lambda>e. e \<noteq> []) (map trim (split_on (CHR '','') txt))))"

definition egress_from_parts ::
  "('net, 'z) net_lib_scheme \<Rightarrow> string option \<Rightarrow> string option \<Rightarrow> string option
    \<Rightarrow> egress_config_error + 'net egress_policy" where
  "egress_from_parts lib enabled allow deny =
    (let on = (case enabled of None \<Rightarrow> False
       | Some v \<Rightarrow> to_lower (trim v) \<in> {''on'', ''true'', ''1'', ''yes''}) in
     rbind (parse_cidrs lib ''WM_EGRESS_ALLOW'' allow) (\<lambda>a.
     rbind (parse_cidrs lib ''WM_EGRESS_DENY'' deny) (\<lambda>d.
       Inr \<lparr>ep_enabled = on, ep_allow = a, ep_deny = d\<rparr>)))"

definition to_ipv4_mapped :: "128 word \<Rightarrow> 32 word option" where
  "to_ipv4_mapped a = (if drop_bit 32 a = 0xFFFF then Some (ucast a) else None)"

fun normalize_ip :: "ip_addr \<Rightarrow> ip_addr" where
  "normalize_ip (V6 a) = (case to_ipv4_mapped a of Some b \<Rightarrow> V4 b | None \<Rightarrow> V6 a)"
| "normalize_ip (V4 a) = V4 a"

definition special_use_ranges :: "('net, 'z) net_lib_scheme \<Rightarrow> 'net list option" where
  "special_use_ranges lib = those (map (parse_net lib) SPECIAL_USE)"

definition evaluate :: "('net, 'z) net_lib_scheme \<Rightarrow> 'net egress_policy \<Rightarrow> ip_addr \<Rightarrow> egress_decision" where
  "evaluate lib p ip =
    (if \<not> ep_enabled p then Deny ''egress is disabled (set WM_EGRESS=on to enable callouts)''
     else let ip = normalize_ip ip in
       if list_ex (\<lambda>n. net_contains lib n ip) (ep_deny p) then Deny ''address matches WM_EGRESS_DENY''
       else if list_ex (\<lambda>n. net_contains lib n ip) (ep_allow p) then Allow
       else (case special_use_ranges lib of
           None \<Rightarrow> EgressPanics
         | Some ns \<Rightarrow> if list_ex (\<lambda>n. net_contains lib n ip) ns
             then Deny ''special-use / non-public address (blocked by default)'' else Allow))"

fun check_each :: "('net, 'z) net_lib_scheme \<Rightarrow> 'net egress_policy \<Rightarrow> ip_addr list \<Rightarrow> egress_decision" where
  "check_each lib p [] = Allow"
| "check_each lib p (ip # ips) = (case evaluate lib p ip of Allow \<Rightarrow> check_each lib p ips | d \<Rightarrow> d)"

definition check_resolved :: "('net, 'z) net_lib_scheme \<Rightarrow> 'net egress_policy \<Rightarrow> ip_addr list \<Rightarrow> egress_decision" where
  "check_resolved lib p ips =
    (if ips = [] then Deny ''host did not resolve to any address'' else check_each lib p ips)"

section \<open>Delivery\<close>

definition MAX_DELAY_MS :: nat where "MAX_DELAY_MS = 300000"
definition FIRE_TIMEOUT :: nat where "FIRE_TIMEOUT = 30"
definition REQUEST_BODY_JOURNAL_LIMIT :: nat where "REQUEST_BODY_JOURNAL_LIMIT = 16 * 1024"

record scheduled_callback =
  sc_url :: string
  sc_method :: string
  sc_headers :: pairs
  sc_body :: bytes
  sc_delay_ms :: nat

record callback_context =
  cc_trace_id :: "string option"
  cc_group_id :: string
  cc_group_name :: string
  cc_route_id :: string
  cc_route_number :: nat

record callout_url =
  cu_scheme :: string
  cu_host :: "string option"
  cu_port :: "nat option"

record socket_addr =
  sa_ip :: ip_addr
  sa_port :: nat

text \<open>The request handed to the client: \<^theory_text>\<open>ob_addrs\<close> are the only addresses it may connect to.\<close>

record outbound =
  ob_method :: string
  ob_url :: callout_url
  ob_headers :: pairs
  ob_body :: bytes
  ob_addrs :: "socket_addr list"
  ob_redirects :: bool
  ob_timeout :: nat

record callout_lib =
  parse_callout_url :: "string \<Rightarrow> string + callout_url"
  parse_method :: "string \<Rightarrow> string option"
  lookup_host :: "string \<Rightarrow> nat \<Rightarrow> string + socket_addr list"
  build_client :: "string \<Rightarrow> socket_addr list \<Rightarrow> string option"
  header_name :: "string \<Rightarrow> string option"
  header_value :: "string \<Rightarrow> string option"
  debug_str :: "string \<Rightarrow> string"
  send :: "outbound \<Rightarrow> string + nat"

fun outbound_headers :: "callout_lib \<Rightarrow> pairs \<Rightarrow> pairs" where
  "outbound_headers cl [] = []"
| "outbound_headers cl ((name, value) # hs) =
    (if to_lower name = ''host'' \<or> to_lower name = ''content-length'' then outbound_headers cl hs
     else (case (header_name cl name, header_value cl value) of
         (Some n, Some v) \<Rightarrow> (n, v) # outbound_headers cl hs
       | _ \<Rightarrow> outbound_headers cl hs))"

text \<open>What \<^theory_text>\<open>deliver\<close> does before it sends: an outcome without a request, the request, or the
  panic of the policy.  \<^theory_text>\<open>debug_str\<close> is the quoted form in which a message shows a text.\<close>

datatype prepared = Refused callback_outcome | Ready outbound | Aborted

definition prepare ::
  "('net, 'z) net_lib_scheme \<Rightarrow> callout_lib \<Rightarrow> 'net egress_policy \<Rightarrow> scheduled_callback \<Rightarrow> prepared" where
  "prepare lib cl p cb = (case parse_callout_url cl (sc_url cb) of
      Inl e \<Rightarrow> Refused (Failed (''invalid url: '' @ e))
    | Inr url \<Rightarrow>
      if cu_scheme url \<noteq> ''http'' \<and> cu_scheme url \<noteq> ''https''
      then Refused (Failed (''unsupported url scheme '' @ debug_str cl (cu_scheme url) @ '' (only http/https)''))
      else (case cu_host url of None \<Rightarrow> Refused (Failed ''url has no host'') | Some host \<Rightarrow>
        (case cu_port url of None \<Rightarrow> Refused (Failed ''url has no port'') | Some port \<Rightarrow>
        (case parse_method cl (to_upper (sc_method cb)) of
          None \<Rightarrow> Refused (Failed (''invalid method '' @ debug_str cl (sc_method cb)))
        | Some m \<Rightarrow> (case lookup_host cl host port of
            Inl e \<Rightarrow> Refused (Failed (''dns resolution failed: '' @ e))
          | Inr addrs \<Rightarrow> (case check_resolved lib p (map sa_ip addrs) of
              Deny reason \<Rightarrow> Refused (EgressDenied reason (map (\<lambda>a. ip_text lib (sa_ip a)) addrs))
            | EgressPanics \<Rightarrow> Aborted
            | Allow \<Rightarrow> (case build_client cl host addrs of
                Some e \<Rightarrow> Refused (Failed (''client build failed: '' @ e))
              | None \<Rightarrow> Ready \<lparr>ob_method = m, ob_url = url, ob_headers = outbound_headers cl (sc_headers cb),
                  ob_body = sc_body cb, ob_addrs = addrs, ob_redirects = False, ob_timeout = FIRE_TIMEOUT\<rparr>)))))))"

text \<open>\<^theory_text>\<open>None\<close>: the task panicked.\<close>

definition deliver ::
  "('net, 'z) net_lib_scheme \<Rightarrow> callout_lib \<Rightarrow> 'net egress_policy \<Rightarrow> scheduled_callback \<Rightarrow> callback_outcome option" where
  "deliver lib cl p cb = (case prepare lib cl p cb of
      Refused outcome \<Rightarrow> Some outcome
    | Aborted \<Rightarrow> None
    | Ready r \<Rightarrow> (case send cl r of
        Inr status \<Rightarrow> Some (Delivered status) | Inl e \<Rightarrow> Some (Failed (''request failed: '' @ e))))"

definition fire_delay :: "scheduled_callback \<Rightarrow> nat" where
  "fire_delay cb = min (sc_delay_ms cb) MAX_DELAY_MS"

definition callback_entry :: "callback_context \<Rightarrow> scheduled_callback \<Rightarrow> callback_outcome \<Rightarrow> nat \<Rightarrow> new_callback_entry" where
  "callback_entry ctx cb outcome duration_ms =
    (case truncate_body (sc_body cb) REQUEST_BODY_JOURNAL_LIMIT of (body, body_size, body_truncated) \<Rightarrow>
     \<lparr>nc_trace_id = cc_trace_id ctx, nc_group_id = cc_group_id ctx, nc_group_name = cc_group_name ctx,
      nc_route_id = cc_route_id ctx, nc_route_number = cc_route_number ctx, nc_url = sc_url cb,
      nc_method = sc_method cb, nc_request_headers = sc_headers cb, nc_request_body = body,
      nc_request_body_truncated = body_truncated, nc_request_body_size = body_size,
      nc_delay_ms = sc_delay_ms cb, nc_outcome = outcome, nc_duration_ms = duration_ms\<rparr>)"

text \<open>A callback after its delay; an error of the journal is only logged.\<close>

definition fire_one ::
  "('net, 'z) net_lib_scheme \<Rightarrow> callout_lib \<Rightarrow> callback_record codec \<Rightarrow> 'net egress_policy \<Rightarrow> string \<Rightarrow> int \<Rightarrow> nat
    \<Rightarrow> callback_context \<Rightarrow> scheduled_callback \<Rightarrow> mem_store \<Rightarrow> mem_store" where
  "fire_one lib cl c p new_id now duration_ms ctx cb s = (case deliver lib cl p cb of
      None \<Rightarrow> s
    | Some outcome \<Rightarrow> snd (record_callback c new_id now (callback_entry ctx cb outcome duration_ms) s))"

section \<open>The special-use ranges\<close>

fun in_prefix :: "ip_addr \<Rightarrow> nat \<Rightarrow> ip_addr \<Rightarrow> bool" where
  "in_prefix (V4 b) n (V4 a) \<longleftrightarrow> drop_bit (32 - n) a = drop_bit (32 - n) b"
| "in_prefix (V6 b) n (V6 a) \<longleftrightarrow> drop_bit (128 - n) a = drop_bit (128 - n) b"
| "in_prefix _ n _ \<longleftrightarrow> False"

definition quad :: "nat \<Rightarrow> nat \<Rightarrow> nat \<Rightarrow> nat \<Rightarrow> nat" where
  "quad a b c d = ((a * 256 + b) * 256 + c) * 256 + d"

text \<open>What the CIDR library is documented to make of the literals: their network and prefix.\<close>

definition special_prefixes :: "(ip_addr \<times> nat) list" where
  "special_prefixes =
    [(V4 (of_nat (quad 0 0 0 0)), 8), (V4 (of_nat (quad 10 0 0 0)), 8), (V4 (of_nat (quad 100 64 0 0)), 10),
     (V4 (of_nat (quad 127 0 0 0)), 8), (V4 (of_nat (quad 169 254 0 0)), 16), (V4 (of_nat (quad 172 16 0 0)), 12),
     (V4 (of_nat (quad 192 0 0 0)), 24), (V4 (of_nat (quad 192 168 0 0)), 16), (V4 (of_nat (quad 198 18 0 0)), 15),
     (V4 (of_nat (quad 224 0 0 0)), 4), (V4 (of_nat (quad 240 0 0 0)), 4), (V6 1, 128), (V6 0, 128),
     (V6 (push_bit 112 0xfc00), 7), (V6 (push_bit 112 0xfe80), 10), (V6 (push_bit 112 0xff00), 8)]"

definition net_lib_ok :: "('net, 'z) net_lib_scheme \<Rightarrow> bool" where
  "net_lib_ok lib \<longleftrightarrow> (\<forall>(txt, b, n)\<in>set (zip SPECIAL_USE special_prefixes).
     \<exists>net. parse_net lib txt = Some net \<and> (\<forall>ip. net_contains lib net ip \<longleftrightarrow> in_prefix b n ip))"

definition between :: "nat \<Rightarrow> nat \<Rightarrow> 32 word \<Rightarrow> bool" where
  "between lo hi a \<longleftrightarrow> lo \<le> unat a \<and> unat a \<le> hi"

text \<open>The addresses no callback may reach by default, as ranges; an address mapped into IPv6
  counts as the IPv4 address it stands for.\<close>

definition special_v4 :: "32 word \<Rightarrow> bool" where
  "special_v4 a \<longleftrightarrow> between (quad 0 0 0 0) (quad 0 255 255 255) a \<or> between (quad 10 0 0 0) (quad 10 255 255 255) a
     \<or> between (quad 100 64 0 0) (quad 100 127 255 255) a \<or> between (quad 127 0 0 0) (quad 127 255 255 255) a
     \<or> between (quad 169 254 0 0) (quad 169 254 255 255) a \<or> between (quad 172 16 0 0) (quad 172 31 255 255) a
     \<or> between (quad 192 0 0 0) (quad 192 0 0 255) a \<or> between (quad 192 168 0 0) (quad 192 168 255 255) a
     \<or> between (quad 198 18 0 0) (quad 198 19 255 255) a \<or> between (quad 224 0 0 0) (quad 255 255 255 255) a"

definition first_group :: "128 word \<Rightarrow> nat" where
  "first_group a = unat (drop_bit 112 a)"

definition special_v6 :: "128 word \<Rightarrow> bool" where
  "special_v6 a \<longleftrightarrow> a = 0 \<or> a = 1 \<or> (0xfc00 \<le> first_group a \<and> first_group a \<le> 0xfdff)
     \<or> (0xfe80 \<le> first_group a \<and> first_group a \<le> 0xfebf) \<or> 0xff00 \<le> first_group a"

fun special_address :: "ip_addr \<Rightarrow> bool" where
  "special_address (V4 a) \<longleftrightarrow> special_v4 a"
| "special_address (V6 a) \<longleftrightarrow>
     (case to_ipv4_mapped a of Some b \<Rightarrow> special_v4 b | None \<Rightarrow> special_v6 a)"

lemma unat_drop: "unat (drop_bit n a) = unat (a::'a::len word) div 2 ^ n"
  unfolding unat_drop_bit_eq by (rule drop_bit_eq_div)

lemma drop_bit_eq_iff: "drop_bit n a = drop_bit n (b::'a::len word) \<longleftrightarrow> unat a div 2 ^ n = unat b div 2 ^ n"
  by (simp only: word_unat_eq_iff unat_drop)

lemma div_between: "0 < d \<Longrightarrow> x div d = c \<longleftrightarrow> c * d \<le> x \<and> x < (c + 1) * (d::nat)"
  using dividend_less_div_times[of d x] div_times_less_eq_dividend[of x d]
  by (auto simp: mult.commute intro!: div_nat_eqI)

lemma prefix_v4:
  assumes "b < 2 ^ 32" "b mod 2 ^ (32 - n) = 0"
  shows "drop_bit (32 - n) a = drop_bit (32 - n) (of_nat b :: 32 word)
     \<longleftrightarrow> between b (b + 2 ^ (32 - n) - 1) a"
proof -
  let ?d = "2 ^ (32 - n) :: nat"
  have u: "unat (of_nat b :: 32 word) = b" using assms(1) by (simp add: unat_of_nat)
  obtain q where q: "b = q * ?d" using assms(2) by (metis mod_0_imp_dvd dvd_def mult.commute)
  have "drop_bit (32 - n) a = drop_bit (32 - n) (of_nat b :: 32 word) \<longleftrightarrow> unat a div ?d = q"
    using drop_bit_eq_iff[of "32 - n" a "of_nat b"] u q by simp
  also have "\<dots> \<longleftrightarrow> between b (b + ?d - 1) a"
  proof -
    have d: "0 < ?d" by simp
    have "(q + 1) * ?d = q * ?d + ?d" by simp
    then have "unat a < (q + 1) * ?d \<longleftrightarrow> unat a \<le> q * ?d + ?d - 1" using d by linarith
    then show ?thesis using div_between[OF d, of "unat a" q] q unfolding between_def by blast
  qed
  finally show ?thesis .
qed

lemma special_v4_prefixes:
  "special_v4 a \<longleftrightarrow> (\<exists>(b, n)\<in>set special_prefixes. in_prefix b n (V4 a))"
proof -
  have p: "in_prefix (V4 (of_nat b)) n (V4 a) \<longleftrightarrow> between b hi a"
    if "b < 2 ^ 32" "b mod 2 ^ (32 - n) = 0" "hi = b + 2 ^ (32 - n) - 1" for b n hi
    using prefix_v4[OF that(1,2)] that(3) by simp
  have i: "in_prefix (V4 (of_nat (quad 0 0 0 0))) 8 (V4 a) \<longleftrightarrow> between (quad 0 0 0 0) (quad 0 255 255 255) a"
    "in_prefix (V4 (of_nat (quad 10 0 0 0))) 8 (V4 a) \<longleftrightarrow> between (quad 10 0 0 0) (quad 10 255 255 255) a"
    "in_prefix (V4 (of_nat (quad 100 64 0 0))) 10 (V4 a) \<longleftrightarrow> between (quad 100 64 0 0) (quad 100 127 255 255) a"
    "in_prefix (V4 (of_nat (quad 127 0 0 0))) 8 (V4 a) \<longleftrightarrow> between (quad 127 0 0 0) (quad 127 255 255 255) a"
    "in_prefix (V4 (of_nat (quad 169 254 0 0))) 16 (V4 a) \<longleftrightarrow> between (quad 169 254 0 0) (quad 169 254 255 255) a"
    "in_prefix (V4 (of_nat (quad 172 16 0 0))) 12 (V4 a) \<longleftrightarrow> between (quad 172 16 0 0) (quad 172 31 255 255) a"
    "in_prefix (V4 (of_nat (quad 192 0 0 0))) 24 (V4 a) \<longleftrightarrow> between (quad 192 0 0 0) (quad 192 0 0 255) a"
    "in_prefix (V4 (of_nat (quad 192 168 0 0))) 16 (V4 a) \<longleftrightarrow> between (quad 192 168 0 0) (quad 192 168 255 255) a"
    "in_prefix (V4 (of_nat (quad 198 18 0 0))) 15 (V4 a) \<longleftrightarrow> between (quad 198 18 0 0) (quad 198 19 255 255) a"
    "in_prefix (V4 (of_nat (quad 224 0 0 0))) 4 (V4 a) \<longleftrightarrow> between (quad 224 0 0 0) (quad 239 255 255 255) a"
    "in_prefix (V4 (of_nat (quad 240 0 0 0))) 4 (V4 a) \<longleftrightarrow> between (quad 240 0 0 0) (quad 255 255 255 255) a"
    by (rule p; simp add: quad_def)+
  have e: "between (quad 224 0 0 0) (quad 255 255 255 255) a
     \<longleftrightarrow> between (quad 224 0 0 0) (quad 239 255 255 255) a \<or> between (quad 240 0 0 0) (quad 255 255 255 255) a"
    by (auto simp: between_def quad_def)
  show ?thesis
    unfolding special_v4_def e special_prefixes_def by (simp add: i del: in_prefix.simps(1))
qed

lemma prefix_v6:
  assumes "drop_bit 112 b = (of_nat g :: 128 word)" "g < 2 ^ 16" "k \<le> 16"
  shows "drop_bit (112 + k) a = drop_bit (112 + k) b \<longleftrightarrow> first_group a div 2 ^ k = g div 2 ^ k"
proof -
  have "unat b div 2 ^ 112 = g"
    using arg_cong[OF assms(1), of unat] assms(2) by (simp only: unat_drop) (simp add: unat_of_nat)
  then show ?thesis
    by (simp only: drop_bit_eq_iff first_group_def unat_drop power_add div_mult2_eq)
qed

lemma unat_lt: "unat (a::'a::len word) < 2 ^ LENGTH('a)"
  by (rule unsigned_less)

lemma special_v6_prefixes:
  "special_v6 a \<longleftrightarrow> (\<exists>(b, n)\<in>set special_prefixes. in_prefix b n (V6 a))"
proof -
  have g: "first_group a < 2 ^ 16"
  proof -
    have "unat a < 2 ^ 112 * 2 ^ 16" using unat_lt[of a] by simp
    then show ?thesis unfolding first_group_def unat_drop by (simp only: less_mult_imp_div_less mult.commute)
  qed
  have d: "drop_bit 112 (push_bit 112 (0xfc00 :: 128 word)) = of_nat 0xfc00"
    "drop_bit 112 (push_bit 112 (0xfe80 :: 128 word)) = of_nat 0xfe80"
    "drop_bit 112 (push_bit 112 (0xff00 :: 128 word)) = of_nat 0xff00" by simp_all
  have i: "in_prefix (V6 (push_bit 112 0xfc00)) 7 (V6 a) \<longleftrightarrow> 0xfc00 \<le> first_group a \<and> first_group a \<le> 0xfdff"
    "in_prefix (V6 (push_bit 112 0xfe80)) 10 (V6 a) \<longleftrightarrow> 0xfe80 \<le> first_group a \<and> first_group a \<le> 0xfebf"
    "in_prefix (V6 (push_bit 112 0xff00)) 8 (V6 a) \<longleftrightarrow> 0xff00 \<le> first_group a"
    using prefix_v6[OF d(1), of 9 a] prefix_v6[OF d(2), of 6 a] prefix_v6[OF d(3), of 8 a] g
      div_between[of 512 "first_group a" 126] div_between[of 64 "first_group a" 1018]
      div_between[of 256 "first_group a" 255]
    by (auto simp del: drop_bit_push_bit)
  have j: "in_prefix (V6 c) 128 (V6 a) \<longleftrightarrow> a = c" for c by simp
  show ?thesis
    unfolding special_v6_def special_prefixes_def
    by (simp only: list.set bex_simps prod.case i j in_prefix.simps(3,4)) blast
qed

section \<open>The policy decides by ranges\<close>

lemma those_map: "(\<And>x. x \<in> set xs \<Longrightarrow> \<exists>y. f x = Some y) \<Longrightarrow> those (map f xs) = Some (map (\<lambda>x. the (f x)) xs)"
proof (induction xs)
  case (Cons x xs)
  obtain y where "f x = Some y" using Cons.prems by force
  then show ?case using Cons by simp
qed simp

lemma zip_images:
  "\<lbrakk>length xs = length ys; \<And>x y. (x, y) \<in> set (zip xs ys) \<Longrightarrow> f x \<longleftrightarrow> g y\<rbrakk>
   \<Longrightarrow> (\<exists>x\<in>set xs. f x) \<longleftrightarrow> (\<exists>y\<in>set ys. g y)"
  by (induction xs ys rule: list_induct2) auto

lemma special_use_run:
  assumes "net_lib_ok lib"
  shows "\<exists>ns. special_use_ranges lib = Some ns
    \<and> (\<forall>ip. list_ex (\<lambda>n. net_contains lib n ip) ns \<longleftrightarrow> (\<exists>(b, n)\<in>set special_prefixes. in_prefix b n ip))"
proof -
  let ?the = "\<lambda>t. the (parse_net lib t)"
  have len: "length SPECIAL_USE = length special_prefixes" by (simp add: SPECIAL_USE_def special_prefixes_def)
  have row: "parse_net lib t = Some (?the t) \<and> net_contains lib (?the t) ip = (case bn of (b, n) \<Rightarrow> in_prefix b n ip)"
    if "(t, bn) \<in> set (zip SPECIAL_USE special_prefixes)" for t bn ip
    using assms that unfolding net_lib_ok_def by fastforce
  have some: "special_use_ranges lib = Some (map ?the SPECIAL_USE)"
    unfolding special_use_ranges_def
  proof (rule those_map)
    fix t assume "t \<in> set SPECIAL_USE"
    then obtain bn where "(t, bn) \<in> set (zip SPECIAL_USE special_prefixes)"
      using len by (metis in_set_impl_in_set_zip1)
    then show "\<exists>y. parse_net lib t = Some y" using row by blast
  qed
  have "list_ex (\<lambda>n. net_contains lib n ip) (map ?the SPECIAL_USE)
      \<longleftrightarrow> (\<exists>(b, n)\<in>set special_prefixes. in_prefix b n ip)" for ip
  proof -
    have "(\<exists>t\<in>set SPECIAL_USE. net_contains lib (?the t) ip)
        \<longleftrightarrow> (\<exists>bn\<in>set special_prefixes. case bn of (b, n) \<Rightarrow> in_prefix b n ip)"
      by (rule zip_images[OF len]) (use row in blast)
    then show ?thesis by (simp add: list_ex_iff)
  qed
  then show ?thesis using some by blast
qed

lemma evaluate_by_ranges_aux:
  assumes "net_lib_ok lib" "ep_enabled p"
  shows "evaluate lib p ip =
    (if list_ex (\<lambda>n. net_contains lib n (normalize_ip ip)) (ep_deny p) then Deny ''address matches WM_EGRESS_DENY''
     else if list_ex (\<lambda>n. net_contains lib n (normalize_ip ip)) (ep_allow p) then Allow
     else if special_address ip then Deny ''special-use / non-public address (blocked by default)'' else Allow)"
proof -
  obtain ns where ns: "special_use_ranges lib = Some ns"
    "\<forall>ip. list_ex (\<lambda>n. net_contains lib n ip) ns \<longleftrightarrow> (\<exists>(b, n)\<in>set special_prefixes. in_prefix b n ip)"
    using special_use_run[OF assms(1)] by blast
  have "special_address ip \<longleftrightarrow> list_ex (\<lambda>n. net_contains lib n (normalize_ip ip)) ns"
    unfolding ns(2)[rule_format]
    by (cases ip) (simp_all add: special_v4_prefixes special_v6_prefixes del: in_prefix.simps split: option.splits)
  then show ?thesis using assms(2) ns(1) by (simp add: evaluate_def Let_def)
qed

text \<open>C27: An enabled policy answers exactly by its three layers: what the deny list covers is
  refused, what the allow list covers is let through, and of the rest exactly the loopback,
  private, link-local, shared, multicast and reserved ranges are refused.  An IPv4 address
  written as an IPv6 one is judged as the IPv4 address.\<close>

theorem evaluate_by_ranges:
  assumes "net_lib_ok lib" "ep_enabled p"
  shows "evaluate lib p ip =
    (if list_ex (\<lambda>n. net_contains lib n (normalize_ip ip)) (ep_deny p) then Deny ''address matches WM_EGRESS_DENY''
     else if list_ex (\<lambda>n. net_contains lib n (normalize_ip ip)) (ep_allow p) then Allow
     else if special_address ip then Deny ''special-use / non-public address (blocked by default)'' else Allow)"
  using assms by (rule evaluate_by_ranges_aux)

definition demo_net :: "(ip_addr \<times> nat) net_lib" where
  "demo_net = \<lparr>parse_net = map_of (zip SPECIAL_USE special_prefixes), parse_ip = (\<lambda>t. None),
     host_net = (\<lambda>ip. (ip, 128)), net_contains = (\<lambda>(b, n) ip. in_prefix b n ip), ip_text = (\<lambda>ip. [])\<rparr>"

lemma demo_net_ok: "net_lib_ok demo_net"
proof -
  have d: "distinct (map fst (zip SPECIAL_USE special_prefixes))"
    by (simp add: SPECIAL_USE_def special_prefixes_def)
  have "map_of (zip SPECIAL_USE special_prefixes) t = Some bn"
    if "(t, bn) \<in> set (zip SPECIAL_USE special_prefixes)" for t bn
    using d that by (simp add: map_of_eq_Some_iff)
  then show ?thesis unfolding net_lib_ok_def demo_net_def by fastforce
qed

theorem evaluate_by_ranges_witness:
  "evaluate demo_net (egress_new True [] []) (V6 0xFFFF0A000001)
     = Deny ''special-use / non-public address (blocked by default)''"
proof -
  have "special_address (V6 0xFFFF0A000001)"
    by (simp add: to_ipv4_mapped_def special_v4_def between_def quad_def)
  then show ?thesis
    using evaluate_by_ranges[OF demo_net_ok, of "egress_new True [] []" "V6 0xFFFF0A000001"]
    by (simp add: egress_new_def del: special_address.simps)
qed

lemma check_each_Allow: "check_each lib p ips = Allow \<Longrightarrow> ip \<in> set ips \<Longrightarrow> evaluate lib p ip = Allow"
  by (induction ips) (auto split: egress_decision.splits)

lemma prepare_Ready:
  assumes "prepare lib cl p cb = Ready r"
  shows "check_resolved lib p (map sa_ip (ob_addrs r)) = Allow" "ob_redirects r = False"
    "ob_headers r = outbound_headers cl (sc_headers cb)"
  using assms by (auto simp: prepare_def split: sum.splits if_splits option.splits egress_decision.splits)

lemma outbound_headers_names:
  "(n, v) \<in> set (outbound_headers cl hs) \<Longrightarrow>
     \<exists>name. header_name cl name = Some n \<and> to_lower name \<noteq> ''host'' \<and> to_lower name \<noteq> ''content-length''"
  by (induction hs rule: outbound_headers.induct) (auto split: if_splits option.splits)


definition demo_callout :: callout_lib where
  "demo_callout = \<lparr>parse_callout_url = (\<lambda>t. Inr \<lparr>cu_scheme = ''http'', cu_host = Some t, cu_port = Some 80\<rparr>),
     parse_method = Some, lookup_host = (\<lambda>h port. Inr [\<lparr>sa_ip = V4 0x08080808, sa_port = port\<rparr>]),
     build_client = (\<lambda>h addrs. None), header_name = Some, header_value = Some, debug_str = (\<lambda>t. [CHR 0x22] @ t @ [CHR 0x22]), send = (\<lambda>r. Inr 200)\<rparr>"


end
