(* ===== verification/Host_State.thy ===== *)
theory Host_State
  imports Callout
begin

text \<open>What a handler can do to the host: the per-request state and the host imports
  (\<^theory_text>\<open>host_state.rs\<close>, \<^theory_text>\<open>log.rs\<close>), the limits under which \<^theory_text>\<open>runtime.rs\<close> runs a handler, and the
  run itself.

  A handler is any program that answers the replies it has had so far with its next host call
  or with its result; wasm code between two calls is what the program computes.  The clocks,
  the client's connection and the firing of the epoch deadline are readings taken at each call.\<close>

section \<open>Logs, limits and the streaming sink\<close>

datatype log_level = DebugLevel | InfoLevel | WarnLevel | ErrorLevel

fun level_text :: "log_level \<Rightarrow> string" where
  "level_text DebugLevel = ''debug''"
| "level_text InfoLevel = ''info''"
| "level_text WarnLevel = ''warn''"
| "level_text ErrorLevel = ''error''"

record log_record =
  lr_level :: log_level
  lr_message :: string
  lr_timestamp :: int

record handler_limits =
  max_memory :: nat
  peak_memory :: nat

definition new_limits :: "nat \<Rightarrow> handler_limits" where
  "new_limits n = \<lparr>max_memory = n, peak_memory = 0\<rparr>"

definition memory_growing :: "nat \<Rightarrow> handler_limits \<Rightarrow> bool \<times> handler_limits" where
  "memory_growing desired l =
    (if desired > max_memory l then (False, l)
     else (True, if desired > peak_memory l then l\<lparr>peak_memory := desired\<rparr> else l))"

record stream_head =
  sh_status :: nat
  sh_headers :: pairs

text \<open>\<^theory_text>\<open>sk_head\<close> and \<^theory_text>\<open>sk_open\<close> say whether the two senders are still held; \<^theory_text>\<open>sk_sent_head\<close> and
  \<^theory_text>\<open>sk_sent\<close> are what went through them.\<close>

record stream_sink =
  sk_head :: bool
  sk_open :: bool
  sk_started :: bool
  sk_started_at :: "nat option"
  sk_chunk_count :: nat
  sk_byte_count :: nat
  sk_client_disconnected :: bool
  sk_sent_head :: "stream_head option"
  sk_sent :: "bytes list"

definition new_sink :: stream_sink where
  "new_sink = \<lparr>sk_head = True, sk_open = True, sk_started = False, sk_started_at = None, sk_chunk_count = 0,
     sk_byte_count = 0, sk_client_disconnected = False, sk_sent_head = None, sk_sent = []\<rparr>"

section \<open>The state of one request\<close>

record host_state =
  hs_table :: "(nat \<times> bucket) list"
  hs_logs :: "log_record list"
  hs_limits :: handler_limits
  hs_source :: "string option"
  hs_stream :: "stream_sink option"
  hs_callouts_allowed :: bool
  hs_callbacks :: "scheduled_callback list"

definition MAX_CALLBACKS_PER_REQUEST :: nat where "MAX_CALLBACKS_PER_REQUEST = 16"
definition MAX_SLEEP_MS :: nat where "MAX_SLEEP_MS = 30000"

definition new_host_state :: "handler_limits \<Rightarrow> host_state" where
  "new_host_state l = \<lparr>hs_table = [], hs_logs = [], hs_limits = l, hs_source = None, hs_stream = None,
     hs_callouts_allowed = False, hs_callbacks = []\<rparr>"

text \<open>The resource table hands out a fresh handle.\<close>

definition push_bucket :: "bucket \<Rightarrow> host_state \<Rightarrow> nat \<times> host_state" where
  "push_bucket b hst = (let n = length (hs_table hst) in (n, hst\<lparr>hs_table := hs_table hst @ [(n, b)]\<rparr>))"

definition set_response_stream_sink :: "host_state \<Rightarrow> host_state" where
  "set_response_stream_sink hst = hst\<lparr>hs_stream := Some new_sink\<rparr>"

definition streaming_elapsed :: "nat \<Rightarrow> host_state \<Rightarrow> nat option" where
  "streaming_elapsed now hst = (case hs_stream hst of
      None \<Rightarrow> None | Some k \<Rightarrow> map_option (\<lambda>t. now - t) (sk_started_at k))"

definition stream_stats :: "host_state \<Rightarrow> (nat \<times> nat \<times> bool) option" where
  "stream_stats hst = (case hs_stream hst of
      Some k \<Rightarrow> if sk_started k then Some (sk_chunk_count k, sk_byte_count k, sk_client_disconnected k) else None
    | None \<Rightarrow> None)"

section \<open>Host imports\<close>

datatype store_call =
    Get string | Put string bytes | Delete string | Incr string int | ListKeys "string option"
  | ListPush string bytes | ListPop string | ListRange string int int | ListLength string
  | HashGet string string | HashSet string string bytes | HashDelete string string | HashKeys string
  | SetAdd string string | SetRemove string string | SetContains string string

datatype import_call =
    OnBucket nat store_call | DropBucket nat
  | Emit log_level string
  | Sleep nat | WallTime | Monotonic
  | StreamStart nat pairs | WriteChunk bytes | StreamFinish
  | Schedule string string pairs bytes nat
  | GetSource
  | GrowMemory nat

datatype reply =
    Done | Value "bytes option" | Number int | Names "string list" | Values "bytes list" | Flag bool
  | Rejected string | Source string

text \<open>Why a handler call fails: the guest's own error or an error of the host.\<close>

datatype trap = Guest string | StoreTrap store_error | NoResource | OutOfBudget

record reading =
  rd_utc :: int
  rd_wall_ms :: int
  rd_mono_ms :: nat
  rd_client_gone :: bool
  rd_deadline :: bool

definition reply_with :: "('a \<Rightarrow> reply) \<Rightarrow> 'a sio \<Rightarrow> mem_store \<Rightarrow> (store_error + reply) \<times> mem_store" where
  "reply_with f m = bind_io m (\<lambda>x. ret (f x))"

fun do_store_call :: "bucket \<Rightarrow> store_call \<Rightarrow> reply sio" where
  "do_store_call b (Get k) = reply_with Value (bucket_get b k)"
| "do_store_call b (Put k v) = reply_with (\<lambda>_. Done) (bucket_set b k v)"
| "do_store_call b (Delete k) = reply_with (\<lambda>_. Done) (bucket_delete b k)"
| "do_store_call b (Incr k n) = reply_with Number (bucket_incr b k n)"
| "do_store_call b (ListKeys p) = reply_with Names (bucket_list_keys b p)"
| "do_store_call b (ListPush k v) = reply_with (\<lambda>_. Done) (bucket_list_push b k v)"
| "do_store_call b (ListPop k) = reply_with Value (bucket_list_pop b k)"
| "do_store_call b (ListRange k i j) = reply_with Values (bucket_list_range b k i j)"
| "do_store_call b (ListLength k) = reply_with (\<lambda>n. Number (int n)) (bucket_list_length b k)"
| "do_store_call b (HashGet k f) = reply_with Value (bucket_hash_get b k f)"
| "do_store_call b (HashSet k f v) = reply_with (\<lambda>_. Done) (bucket_hash_set b k f v)"
| "do_store_call b (HashDelete k f) = reply_with (\<lambda>_. Done) (bucket_hash_delete b k f)"
| "do_store_call b (HashKeys k) = reply_with Names (bucket_hash_keys b k)"
| "do_store_call b (SetAdd k m) = reply_with (\<lambda>_. Done) (bucket_set_add b k m)"
| "do_store_call b (SetRemove k m) = reply_with (\<lambda>_. Done) (bucket_set_remove b k m)"
| "do_store_call b (SetContains k m) = reply_with Flag (bucket_set_contains b k m)"

definition stream_start :: "nat \<Rightarrow> nat \<Rightarrow> pairs \<Rightarrow> stream_sink \<Rightarrow> stream_sink" where
  "stream_start now status headers k =
    (if sk_head k
     then k\<lparr>sk_head := False, sk_started := True, sk_started_at := Some now,
        sk_sent_head := Some \<lparr>sh_status = status, sh_headers = headers\<rparr>\<rparr>
     else k)"

definition write_chunk :: "bool \<Rightarrow> bytes \<Rightarrow> stream_sink \<Rightarrow> bool \<times> stream_sink" where
  "write_chunk client_gone b k =
    (if \<not> sk_started k then (False, k)
     else if \<not> sk_open k then (False, k)
     else if client_gone then (False, k\<lparr>sk_client_disconnected := True\<rparr>)
     else (True, k\<lparr>sk_chunk_count := sk_chunk_count k + 1, sk_byte_count := sk_byte_count k + length b,
             sk_sent := sk_sent k @ [b]\<rparr>))"

definition stream_finish :: "stream_sink \<Rightarrow> stream_sink" where
  "stream_finish k = k\<lparr>sk_open := False\<rparr>"

definition schedule :: "string \<Rightarrow> string \<Rightarrow> pairs \<Rightarrow> bytes \<Rightarrow> nat \<Rightarrow> host_state \<Rightarrow> reply \<times> host_state" where
  "schedule url verb headers body delay_ms hst =
    (if \<not> hs_callouts_allowed hst
     then (Rejected (''outbound callbacks are not enabled: the host must run with WM_EGRESS on and ''
            @ ''this group must set callout_enabled''), hst)
     else if trim url = [] then (Rejected ''callback url must not be empty'', hst)
     else if MAX_CALLBACKS_PER_REQUEST \<le> length (hs_callbacks hst)
     then (Rejected (''too many callbacks scheduled in one request (max ''
            @ show_nat MAX_CALLBACKS_PER_REQUEST @ '')''), hst)
     else (Done, hst\<lparr>hs_callbacks := hs_callbacks hst
       @ [\<lparr>sc_url = url, sc_method = verb, sc_headers = headers, sc_body = body, sc_delay_ms = delay_ms\<rparr>]\<rparr>))"

text \<open>\<^theory_text>\<open>do_sleep\<close>: the milliseconds the thread sleeps.\<close>

definition do_sleep :: "nat \<Rightarrow> nat" where
  "do_sleep ms = min ms MAX_SLEEP_MS"

definition get_source :: "host_state \<Rightarrow> string" where
  "get_source hst = (case hs_source hst of
      Some src \<Rightarrow> src | None \<Rightarrow> ''// engine source unset (host bug)'' @ [CHR 0x0A])"

text \<open>What a running handler acts on.\<close>

record host_world =
  hw_state :: host_state
  hw_store :: mem_store
  hw_slept :: nat

definition with_sink :: "(stream_sink \<Rightarrow> reply \<times> stream_sink) \<Rightarrow> reply \<Rightarrow> host_world \<Rightarrow> reply \<times> host_world" where
  "with_sink f unwired w = (case hs_stream (hw_state w) of
      None \<Rightarrow> (unwired, w)
    | Some k \<Rightarrow> (case f k of (r, k') \<Rightarrow> (r, w\<lparr>hw_state := (hw_state w)\<lparr>hs_stream := Some k'\<rparr>\<rparr>)))"

fun host_call :: "reading \<Rightarrow> import_call \<Rightarrow> host_world \<Rightarrow> (trap + reply) \<times> host_world" where
  "host_call rd (OnBucket h c) w = (case map_of (hs_table (hw_state w)) h of
      None \<Rightarrow> (Inl NoResource, w)
    | Some b \<Rightarrow> (case do_store_call b c (hw_store w) of
        (Inl e, s) \<Rightarrow> (Inl (StoreTrap e), w\<lparr>hw_store := s\<rparr>)
      | (Inr r, s) \<Rightarrow> (Inr r, w\<lparr>hw_store := s\<rparr>)))"
| "host_call rd (DropBucket h) w = (case map_of (hs_table (hw_state w)) h of
      None \<Rightarrow> (Inl NoResource, w)
    | Some b \<Rightarrow> (Inr Done, w\<lparr>hw_state := (hw_state w)\<lparr>hs_table := AList.delete h (hs_table (hw_state w))\<rparr>\<rparr>))"
| "host_call rd (Emit l m) w = (Inr Done, w\<lparr>hw_state := (hw_state w)\<lparr>hs_logs := hs_logs (hw_state w)
      @ [\<lparr>lr_level = l, lr_message = m, lr_timestamp = rd_utc rd\<rparr>]\<rparr>\<rparr>)"
| "host_call rd (Sleep ms) w = (Inr Done, w\<lparr>hw_slept := hw_slept w + do_sleep ms\<rparr>)"
| "host_call rd WallTime w = (Inr (Number (max (rd_wall_ms rd) 0)), w)"
| "host_call rd Monotonic w = (Inr (Number (int (rd_mono_ms rd))), w)"
| "host_call rd (StreamStart status headers) w =
     (case with_sink (\<lambda>k. (Done, stream_start (rd_mono_ms rd) status headers k)) Done w of (r, w') \<Rightarrow> (Inr r, w'))"
| "host_call rd (WriteChunk b) w =
     (case with_sink (\<lambda>k. case write_chunk (rd_client_gone rd) b k of (ok, k') \<Rightarrow> (Flag ok, k')) (Flag False) w of
        (r, w') \<Rightarrow> (Inr r, w'))"
| "host_call rd StreamFinish w =
     (case with_sink (\<lambda>k. (Done, stream_finish k)) Done w of (r, w') \<Rightarrow> (Inr r, w'))"
| "host_call rd (Schedule url verb headers body delay) w =
     (case schedule url verb headers body delay (hw_state w) of (r, hst) \<Rightarrow> (Inr r, w\<lparr>hw_state := hst\<rparr>))"
| "host_call rd GetSource w = (Inr (Source (get_source (hw_state w))), w)"
| "host_call rd (GrowMemory n) w =
     (case memory_growing n (hs_limits (hw_state w)) of
        (ok, l) \<Rightarrow> (Inr (Flag ok), w\<lparr>hw_state := (hw_state w)\<lparr>hs_limits := l\<rparr>\<rparr>))"

section \<open>Running a handler\<close>

record wit_request =
  wq_method :: string
  wq_path :: string
  wq_matched_pattern :: string
  wq_path_params :: pairs
  wq_query :: pairs
  wq_headers :: pairs
  wq_body :: bytes

record wit_response =
  wr_status :: nat
  wr_headers :: pairs
  wr_body :: bytes

datatype program_step = Call import_call | Finish "string + wit_response"

type_synonym program = "reply list \<Rightarrow> program_step"

definition HANDLER_MAX_MEMORY_BYTES :: nat where "HANDLER_MAX_MEMORY_BYTES = 64 * 1024 * 1024"
definition ENGINE_MAX_MEMORY_BYTES :: nat where "ENGINE_MAX_MEMORY_BYTES = 256 * 1024 * 1024"
definition ENGINE_STREAM_MAX :: nat where "ENGINE_STREAM_MAX = 300 * 1000"

text \<open>The epoch deadline: a component has no callback and traps; the shared engine goes on while
  it streams within its budget.\<close>

definition deadline_traps :: "nat option \<Rightarrow> nat \<Rightarrow> host_state \<Rightarrow> bool" where
  "deadline_traps stream_max now hst = (case stream_max of
      None \<Rightarrow> True
    | Some m \<Rightarrow> (case streaming_elapsed now hst of Some e \<Rightarrow> \<not> e < m | None \<Rightarrow> True))"

text \<open>\<^theory_text>\<open>fuel\<close> is the number of steps the fuel of the call pays for; \<^theory_text>\<open>rd n\<close> are the readings before
  the step with \<^theory_text>\<open>n\<close> units left.\<close>

fun run_program ::
  "(nat \<Rightarrow> reading) \<Rightarrow> nat option \<Rightarrow> nat \<Rightarrow> program \<Rightarrow> reply list \<Rightarrow> host_world \<Rightarrow> (trap + wit_response) \<times> host_world" where
  "run_program rd stream_max 0 p rs w = (Inl OutOfBudget, w)"
| "run_program rd stream_max (Suc n) p rs w =
    (if rd_deadline (rd n) \<and> deadline_traps stream_max (rd_mono_ms (rd n)) (hw_state w) then (Inl OutOfBudget, w)
     else (case p rs of
        Finish (Inl e) \<Rightarrow> (Inl (Guest e), w)
      | Finish (Inr r) \<Rightarrow> (Inr r, w)
      | Call c \<Rightarrow> (case host_call (rd n) c w of
          (Inl t, w') \<Rightarrow> (Inl t, w')
        | (Inr x, w') \<Rightarrow> run_program rd stream_max n p (rs @ [x]) w')))"

text \<open>\<^theory_text>\<open>instantiate_with_buckets\<close> and \<^theory_text>\<open>instantiate_engine_with_buckets\<close>: the state a handler starts
  with; handle 0 is its route bucket, handle 1 its group bucket.\<close>

definition with_buckets :: "bucket \<Rightarrow> bucket \<Rightarrow> host_state \<Rightarrow> host_state" where
  "with_buckets route_b group_b hst = snd (push_bucket group_b (snd (push_bucket route_b hst)))"

definition instantiate_state :: "nat \<Rightarrow> bucket \<Rightarrow> bucket \<Rightarrow> host_state" where
  "instantiate_state max_bytes route_b group_b = with_buckets route_b group_b (new_host_state (new_limits max_bytes))"

definition instantiate_engine_state :: "string \<Rightarrow> bucket \<Rightarrow> bucket \<Rightarrow> bool \<Rightarrow> host_state" where
  "instantiate_engine_state src route_b group_b callouts_allowed =
    with_buckets route_b group_b
      ((new_host_state (new_limits ENGINE_MAX_MEMORY_BYTES))\<lparr>hs_source := Some src,
         hs_callouts_allowed := callouts_allowed\<rparr>)"

definition handler_world :: "host_state \<Rightarrow> mem_store \<Rightarrow> host_world" where
  "handler_world hst s = \<lparr>hw_state = hst, hw_store = s, hw_slept = 0\<rparr>"

text \<open>What lies outside this code: the shared engine and the components as programs, the wasm
  compiler, the transpiler, the text of errors, and how far the fuel reaches.\<close>

record 'c host_env =
  he_engine :: "(string + (wit_request \<Rightarrow> program)) option"
  he_component :: "'c \<Rightarrow> string + (wit_request \<Rightarrow> program)"
  he_compile :: "bytes \<Rightarrow> string + 'c"
  he_transpile :: "string \<Rightarrow> string + string"
  he_trap_text :: "trap \<Rightarrow> string"
  he_readings :: "nat \<Rightarrow> reading"
  he_steps :: nat
  he_engine_steps :: nat
  he_max_memory :: nat
  he_stream_max :: nat

text \<open>One call of a handler: the error of its instantiation, or its result with the state it
  leaves.\<close>

definition call_engine :: "('c, 'z) host_env_scheme \<Rightarrow> string \<Rightarrow> bucket \<Rightarrow> bucket \<Rightarrow> bool \<Rightarrow> wit_request \<Rightarrow> mem_store
    \<Rightarrow> (string + (trap + wit_response) \<times> host_state) \<times> mem_store" where
  "call_engine env src route_b group_b allowed req s = (case he_engine env of
      None \<Rightarrow> (Inl ''shared JS engine not configured (call Runtime::with_js_engine on startup)'', s)
    | Some (Inl e) \<Rightarrow> (Inl e, s)
    | Some (Inr prog) \<Rightarrow>
       (case run_program (he_readings env) (Some (he_stream_max env)) (he_engine_steps env) (prog req) []
          (handler_world (set_response_stream_sink (instantiate_engine_state src route_b group_b allowed)) s) of
        (r, w) \<Rightarrow> (Inr (r, hw_state w), hw_store w)))"

definition call_component :: "('c, 'z) host_env_scheme \<Rightarrow> 'c \<Rightarrow> bucket \<Rightarrow> bucket \<Rightarrow> wit_request \<Rightarrow> mem_store
    \<Rightarrow> (string + (trap + wit_response) \<times> host_state) \<times> mem_store" where
  "call_component env cpt route_b group_b req s = (case he_component env cpt of
      Inl e \<Rightarrow> (Inl e, s)
    | Inr prog \<Rightarrow>
       (case run_program (he_readings env) None (he_steps env) (prog req) []
          (handler_world (instantiate_state (he_max_memory env) route_b group_b) s) of
        (r, w) \<Rightarrow> (Inr (r, hw_state w), hw_store w)))"

section \<open>A bucket is a store of its own\<close>

text \<open>\<^theory_text>\<open>contents b s\<close> is what a bucket holds, under the handler's own keys.  On it, a call acts
  as on a store with no prefix: the prefix shows neither in results nor in errors.\<close>

definition contents :: "bucket \<Rightarrow> mem_store \<Rightarrow> mem_store" where
  "contents b s = map (\<lambda>(k, v). (drop (length b) k, v)) (view (starts_with b) s)"

lemma contents_Nil [simp]: "contents b [] = []"
  by (simp add: contents_def)

lemma contents_Cons: "contents b ((k, v) # s) =
    (if starts_with b k then (drop (length b) k, v) # contents b s else contents b s)"
  by (simp add: contents_def view_def)

lemma starts_with_drop: "starts_with b k \<Longrightarrow> drop (length b) k = u \<longleftrightarrow> k = b @ u"
  by (auto simp: starts_with_iff)

lemma map_of_contents: "map_of (contents b s) u = map_of s (b @ u)"
  by (induction s) (auto simp: contents_Cons starts_with_drop starts_with_iff)

lemma contents_update: "contents b (AList.update (b @ u) v s) = AList.update u v (contents b s)"
  by (induction s) (auto simp: contents_Cons starts_with_drop starts_with_iff)

lemma contents_delete: "contents b (AList.delete (b @ u) s) = AList.delete u (contents b s)"
  by (induction s) (auto simp: contents_Cons starts_with_drop starts_with_iff AList.delete_eq)

lemma contents_put_cell: "contents b (put_cell (b @ u) c s) = put_cell u c (contents b s)"
  by (simp add: put_cell_def contents_update contents_delete split: option.splits)

lemma contents_other:
  assumes "\<And>u. k = c @ u \<Longrightarrow> False"
  shows "contents c (put_cell k v s) = contents c s"
proof -
  have "\<not> starts_with c k" using assms by (auto simp: starts_with_iff)
  then show ?thesis by (simp add: contents_def view_put_cell)
qed

definition only :: "string \<Rightarrow> mem_value option \<Rightarrow> mem_store" where
  "only k c = (case c of None \<Rightarrow> [] | Some v \<Rightarrow> [(k, v)])"

lemma cell_only: "cell k s = only k (map_of s k)"
  by (simp add: cell_def only_def)

text \<open>An operation that acts on one cell acts the same under every prefix when it does so on
  each single cell.\<close>

lemma relocate_local:
  assumes "local_at (b @ u) m" "local_at u m0"
    and "\<And>c. fst (m (only (b @ u) c)) = fst (m0 (only u c))"
    and "\<And>c. map_of (snd (m (only (b @ u) c))) (b @ u) = map_of (snd (m0 (only u c))) u"
  shows "fst (m s) = fst (m0 (contents b s)) \<and> contents b (snd (m s)) = snd (m0 (contents b s))"
proof
  show "fst (m s) = fst (m0 (contents b s))"
    unfolding local_fst[OF assms(1), of s] local_fst[OF assms(2), of "contents b s"]
    by (simp add: cell_only map_of_contents assms(3))
  show "contents b (snd (m s)) = snd (m0 (contents b s))"
    unfolding local_snd[OF assms(1), of s] local_snd[OF assms(2), of "contents b s"]
    by (simp add: cell_only map_of_contents assms(4) contents_put_cell)
qed

lemma local_atI:
  assumes "\<And>s. fst (m s) = fst (m (cell k s))"
    and "\<And>s. snd (m s) = put_cell k (map_of (snd (m (cell k s))) k) s"
  shows "local_at k m"
  unfolding local_at_def by (rule allI, rule prod_eqI) (simp_all only: fst_conv snd_conv assms[symmetric])

lemma local_map_err [local_ops]:
  assumes "local_at k m"
  shows "local_at k (map_err g m)"
proof (rule local_atI)
  show "fst (map_err g m s) = fst (map_err g m (cell k s))" for s
    unfolding map_err_parts using local_fst[OF assms, of s] by simp
  show "snd (map_err g m s) = put_cell k (map_of (snd (map_err g m (cell k s))) k) s" for s
    unfolding map_err_parts by (rule local_snd[OF assms])
qed

lemma reply_parts:
  "fst (reply_with f m s) = rmap f (fst (m s))" "snd (reply_with f m s) = snd (m s)"
  by (auto simp: reply_with_def bind_io_parts ret_def rmap_def split: sum.splits)

lemma local_reply:
  assumes "local_at k m"
  shows "local_at k (reply_with f m)"
proof (rule local_atI)
  show "fst (reply_with f m s) = fst (reply_with f m (cell k s))" for s
    unfolding reply_parts using local_fst[OF assms, of s] by simp
  show "snd (reply_with f m s) = put_cell k (map_of (snd (reply_with f m (cell k s))) k) s" for s
    unfolding reply_parts by (rule local_snd[OF assms])
qed

fun call_key :: "store_call \<Rightarrow> string option" where
  "call_key (Get k) = Some k" | "call_key (Put k v) = Some k" | "call_key (Delete k) = Some k"
| "call_key (Incr k n) = Some k" | "call_key (ListKeys p) = None" | "call_key (ListPush k v) = Some k"
| "call_key (ListPop k) = Some k" | "call_key (ListRange k i j) = Some k" | "call_key (ListLength k) = Some k"
| "call_key (HashGet k f) = Some k" | "call_key (HashSet k f v) = Some k" | "call_key (HashDelete k f) = Some k"
| "call_key (HashKeys k) = Some k" | "call_key (SetAdd k m) = Some k" | "call_key (SetRemove k m) = Some k"
| "call_key (SetContains k m) = Some k"

lemmas bucket_one_defs = bucket_get_def bucket_set_def[abs_def] bucket_delete_def[abs_def] bucket_incr_def
  bucket_list_push_def bucket_list_pop_def bucket_list_range_def bucket_list_length_def
  bucket_hash_get_def bucket_hash_set_def bucket_hash_delete_def bucket_hash_keys_def
  bucket_set_add_def bucket_set_remove_def bucket_set_contains_def

lemma store_call_local: "call_key c = Some k \<Longrightarrow> local_at (b @ k) (do_store_call b c)"
  by (cases c) (auto simp: bucket_one_defs intro!: local_reply local_ops)

lemma store_call_only:
  assumes "call_key c = Some k"
  shows "fst (do_store_call b c (only (b @ k) x)) = fst (do_store_call [] c (only k x))"
    and "map_of (snd (do_store_call b c (only (b @ k) x))) (b @ k) = map_of (snd (do_store_call [] c (only k x))) k"
proof -
  have strip: "strip_bucket k [] = k" for k :: string by (simp add: strip_bucket_def)
  show "fst (do_store_call b c (only (b @ k) x)) = fst (do_store_call [] c (only k x))"
    using assms
    by (cases c; cases x)
      (auto simp: only_def reply_parts bucket_one_defs map_err_parts strip rmap_def
        mem_get_def mem_set_def mem_delete_def mem_incr_def add_to_text_def mem_list_push_def mem_list_pop_def
        mem_list_range_def mem_list_length_def mem_hash_get_def mem_hash_set_def mem_hash_delete_def
        mem_hash_keys_def mem_set_add_def mem_set_remove_def mem_set_contains_def Let_def
        split: mem_value.splits option.splits list.splits sum.splits)
  show "map_of (snd (do_store_call b c (only (b @ k) x))) (b @ k) = map_of (snd (do_store_call [] c (only k x))) k"
    using assms
    by (cases c; cases x)
      (auto simp: only_def reply_parts bucket_one_defs map_err_parts
        mem_get_def mem_set_def mem_delete_def mem_incr_def add_to_text_def mem_list_push_def mem_list_pop_def
        mem_list_range_def mem_list_length_def mem_hash_get_def mem_hash_set_def mem_hash_delete_def
        mem_hash_keys_def mem_set_add_def mem_set_remove_def mem_set_contains_def Let_def
        split: mem_value.splits option.splits list.splits sum.splits)
qed

lemma list_keys_contents: "fst (bucket_list_keys b p s) = fst (bucket_list_keys [] p (contents b s))"
proof -
  obtain q where q: "(case p of Some q \<Rightarrow> b @ q | None \<Rightarrow> b) = b @ q" "(case p of Some q \<Rightarrow> [] @ q | None \<Rightarrow> []) = q"
    by (cases p) (auto intro: that[of "[]"])
  have pre: "starts_with (b @ q) k \<longleftrightarrow> starts_with b k \<and> starts_with q (drop (length b) k)" for k
    by (auto simp: starts_with_iff)
  have "map (\<lambda>k. strip_bucket k b) (mem_scan_with_prefix (b @ q) s)
      = map (\<lambda>k. strip_bucket k []) (mem_scan_with_prefix q (contents b s))"
    by (induction s) (auto simp: contents_Cons mem_scan_with_prefix_def pre strip_bucket_def starts_with_iff)
  then show ?thesis by (simp add: bucket_list_keys_def q)
qed

lemma store_call_contents:
  "fst (do_store_call b c s) = fst (do_store_call [] c (contents b s))
   \<and> contents b (snd (do_store_call b c s)) = snd (do_store_call [] c (contents b s))"
proof (cases "call_key c")
  case None
  then obtain p where c: "c = ListKeys p" by (cases c) simp_all
  have "snd (bucket_list_keys b p s) = s" for b s by (simp add: bucket_list_keys_def Let_def)
  then show ?thesis by (simp add: c reply_parts list_keys_contents[of b p s])
next
  case (Some k)
  show ?thesis
    by (rule relocate_local[OF store_call_local[OF Some] store_call_local[OF Some, of "[]", unfolded append.simps]])
      (rule store_call_only[OF Some])+
qed

text \<open>C39: A bucket is a refinement of a store of its own: whatever the prefix, a call answers as
  it would on a store that holds just the bucket's keys under their own names, errors included,
  leaves the bucket with what that store would hold, and touches no key outside the prefix.\<close>

theorem bucket_is_a_store:
  "fst (do_store_call b c s) = fst (do_store_call [] c (contents b s))
   \<and> contents b (snd (do_store_call b c s)) = snd (do_store_call [] c (contents b s))
   \<and> (\<forall>k. \<not> starts_with b k \<longrightarrow> map_of (snd (do_store_call b c s)) k = map_of s k)"
proof -
  have "map_of (snd (do_store_call b c s)) k = map_of s k" if "\<not> starts_with b k" for k
  proof (cases "call_key c")
    case None
    then obtain p where c: "c = ListKeys p" by (cases c) simp_all
    show ?thesis by (simp add: c reply_parts bucket_list_keys_def Let_def)
  next
    case (Some u)
    have "k \<noteq> b @ u" using that by (auto simp: starts_with_iff)
    then show ?thesis by (rule local_frame[OF store_call_local[OF Some]])
  qed
  then show ?thesis using store_call_contents by blast
qed

theorem bucket_is_a_store_witness:
  "map_of (snd (do_store_call ''b:'' (Put ''x'' ''1'') [(''c:x'', Bytes ''0'')])) ''c:x'' = Some (Bytes ''0'')"
  using bucket_is_a_store[of "''b:''" "Put ''x'' ''1''" "[(''c:x'', Bytes ''0'')]"] by (simp add: starts_with_def)

text \<open>The bound handler.  Two worlds agree on \<^theory_text>\<open>P\<close> when they differ at most in keys outside.\<close>

definition agree :: "(string \<Rightarrow> bool) \<Rightarrow> host_world \<Rightarrow> host_world \<Rightarrow> bool" where
  "agree P w w' \<longleftrightarrow> hw_state w = hw_state w' \<and> hw_slept w = hw_slept w'
     \<and> view P (hw_store w) = view P (hw_store w')"

definition buckets_within :: "(string \<Rightarrow> bool) \<Rightarrow> host_state \<Rightarrow> bool" where
  "buckets_within P hst \<longleftrightarrow> (\<forall>h b u. map_of (hs_table hst) h = Some b \<longrightarrow> P (b @ u))"

lemma store_call_confined:
  assumes "\<And>u. P (b @ u)"
  shows "confined P (do_store_call b c)"
proof (cases "call_key c")
  case None
  then obtain p where c: "c = ListKeys p" by (cases c) simp_all
  have f: "filter (starts_with (b @ q)) (map fst (view P s)) = filter (starts_with (b @ q)) (map fst s)" for q s
    by (induction s) (use assms in \<open>auto simp: view_def starts_with_iff\<close>)
  obtain q where q: "(case p of Some q \<Rightarrow> b @ q | None \<Rightarrow> b) = b @ q"
    by (cases p) (auto intro: that[of "[]"])
  have e: "mem_scan_with_prefix (b @ q) s = filter (starts_with (b @ q)) (map fst (view P s))" for s
    by (simp add: f mem_scan_with_prefix_def)
  show ?thesis
    by (rule confinedI) (simp_all add: c reply_parts bucket_list_keys_def q e)
next
  case (Some k)
  show ?thesis by (rule local_confined[OF store_call_local[OF Some], of P b, OF assms])
qed

lemma host_call_confined:
  assumes "buckets_within P (hw_state w)"
  shows "view (\<lambda>k. \<not> P k) (hw_store (snd (host_call rd c w))) = view (\<lambda>k. \<not> P k) (hw_store w)"
    and "buckets_within P (hw_state (snd (host_call rd c w)))"
    and "agree P w w' \<Longrightarrow> fst (host_call rd c w) = fst (host_call rd c w')
           \<and> agree P (snd (host_call rd c w)) (snd (host_call rd c w'))"
proof -
  have b: "confined P (do_store_call b d)" if "map_of (hs_table (hw_state w)) h = Some b" for h b d
    by (rule store_call_confined) (use assms that in \<open>auto simp: buckets_within_def\<close>)
  show "view (\<lambda>k. \<not> P k) (hw_store (snd (host_call rd c w))) = view (\<lambda>k. \<not> P k) (hw_store w)"
  proof (cases c)
    case (OnBucket h d)
    have "hw_store (snd (host_call rd c w)) = (case map_of (hs_table (hw_state w)) h of
        None \<Rightarrow> hw_store w | Some bk \<Rightarrow> snd (do_store_call bk d (hw_store w)))"
      by (simp add: OnBucket split: option.splits prod.splits sum.splits)
    then show ?thesis using confined_out[OF b] by (simp split: option.splits)
  qed (simp_all add: with_sink_def split: option.splits prod.splits)
  show "buckets_within P (hw_state (snd (host_call rd c w)))"
    using assms
    by (cases c) (auto simp: with_sink_def buckets_within_def schedule_def delete_conv split: option.splits prod.splits sum.splits if_splits)
  show "fst (host_call rd c w) = fst (host_call rd c w') \<and> agree P (snd (host_call rd c w)) (snd (host_call rd c w'))"
    if a: "agree P w w'"
  proof (cases c)
    case (OnBucket h d)
    show ?thesis
    proof (cases "map_of (hs_table (hw_state w)) h")
      case (Some bk)
      note f = confined_fst[OF b[OF Some], of "hw_store w" "hw_store w'" d]
        and g = confined_snd[OF b[OF Some], of "hw_store w" "hw_store w'" d]
      show ?thesis using a f g Some
        by (auto simp: OnBucket agree_def split: prod.splits sum.splits)
    qed (use a in \<open>simp add: OnBucket agree_def\<close>)
  qed (use a in \<open>auto simp: agree_def with_sink_def split: option.splits prod.splits\<close>)
qed

lemma run_confined:
  assumes "buckets_within P (hw_state w)"
  shows "view (\<lambda>k. \<not> P k) (hw_store (snd (run_program rd m n p rs w))) = view (\<lambda>k. \<not> P k) (hw_store w)"
    and "agree P w w' \<Longrightarrow> fst (run_program rd m n p rs w) = fst (run_program rd m n p rs w')
           \<and> agree P (snd (run_program rd m n p rs w)) (snd (run_program rd m n p rs w'))"
  using assms
proof (induction n arbitrary: rs w w')
  case (Suc n)
  {
    case 1
    show ?case
    proof (cases "p rs")
      case (Call c)
      note h = host_call_confined(1,2)[OF 1, of "rd n" c]
      show ?thesis
      proof (cases "host_call (rd n) c w")
        case (Pair r w1)
        show ?thesis using h Suc.IH(1)[of w1] Pair by (cases r) (simp_all add: Call)
      qed
    next
      case (Finish x)
      then show ?thesis by (cases x) simp_all
    qed
  next
    case 2
    have hs: "hw_state w' = hw_state w" using 2(1) by (simp add: agree_def)
    show ?case
    proof (cases "p rs")
      case (Call c)
      note h = host_call_confined(2)[OF 2(2), of "rd n" c] host_call_confined(3)[OF 2(2,1), of "rd n" c]
      obtain r w1 where 1: "host_call (rd n) c w = (r, w1)" by fastforce
      obtain r' w2 where 2: "host_call (rd n) c w' = (r', w2)" by fastforce
      have "r' = r" "agree P w1 w2" "buckets_within P (hw_state w1)" using h 1 2 by simp_all
      then show ?thesis using Suc.IH(2)[of w1 w2] 1 2 \<open>agree P w w'\<close>
        by (cases r) (simp_all add: Call hs)
    next
      case (Finish x)
      then show ?thesis using \<open>agree P w w'\<close> by (cases x) (simp_all add: hs)
    qed
  }
qed simp_all

text \<open>The keys of one route: its own bucket and the bucket its group shares.\<close>

definition own_keys :: "string \<Rightarrow> string \<Rightarrow> string \<Rightarrow> bool" where
  "own_keys gid rid k \<longleftrightarrow> starts_with (route_bucket gid rid) k \<or> starts_with (group_bucket gid) k"

lemma instantiated_tables:
  "hs_table (instantiate_state n rb gb) = [(0, rb), (1, gb)]"
  "hs_table (instantiate_engine_state src rb gb ok) = [(0, rb), (1, gb)]"
  by (simp_all add: instantiate_state_def instantiate_engine_state_def with_buckets_def push_bucket_def
      new_host_state_def Let_def)

lemma own_buckets:
  "hs_table hst = [(0, route_bucket gid rid), (1, group_bucket gid)] \<Longrightarrow> buckets_within (own_keys gid rid) hst"
  by (auto simp: buckets_within_def own_keys_def split: if_splits)

lemma colon_split:
  assumes "a @ CHR '':'' # x = b @ CHR '':'' # y" "CHR '':'' \<notin> set a" "CHR '':'' \<notin> set b"
  shows "a = b \<and> x = y"
  using assms by (induction a arbitrary: b) (auto simp: Cons_eq_append_conv append_eq_Cons_conv)

lemma own_route_bucket:
  "own_keys gid rid (route_bucket gid' rid' @ k)
     \<longleftrightarrow> (\<exists>t. gid' @ CHR '':'' # rid' @ CHR '':'' # k = gid @ CHR '':'' # rid @ CHR '':'' # t)"
  by (simp add: own_keys_def starts_with_iff route_bucket_def route_bucket_under_def group_bucket_def
      group_bucket_under_def)

lemma own_group_bucket:
  "own_keys gid rid (group_bucket gid' @ k) \<longleftrightarrow> (\<exists>t. gid' @ CHR '':'' # k = gid @ CHR '':'' # t)"
  by (simp add: own_keys_def starts_with_iff route_bucket_def route_bucket_under_def group_bucket_def
      group_bucket_under_def)

lemma other_tenant:
  assumes "CHR '':'' \<notin> set gid" "CHR '':'' \<notin> set gid'" "gid' \<noteq> gid"
  shows "\<not> own_keys gid rid (route_bucket gid' rid' @ k)" "\<not> own_keys gid rid (group_bucket gid' @ k)"
  using colon_split[OF _ assms(2,1)] assms(3) unfolding own_route_bucket own_group_bucket by blast+

lemma sibling_route:
  assumes "CHR '':'' \<notin> set rid" "CHR '':'' \<notin> set rid'" "rid' \<noteq> rid"
  shows "\<not> own_keys gid rid (route_bucket gid rid' @ k)"
  unfolding own_route_bucket same_append_eq list.inject using colon_split[OF _ assms(2,1)] assms(3) by blast

lemma foreign_bucket:
  assumes "CHR '':'' \<notin> set gid" "CHR '':'' \<notin> set rid" "CHR '':'' \<notin> set gid'" "CHR '':'' \<notin> set rid'"
    and "gid' \<noteq> gid \<or> rid' \<noteq> rid"
  shows "\<not> own_keys gid rid (route_bucket gid' rid' @ k)
    \<and> (gid' \<noteq> gid \<longrightarrow> \<not> own_keys gid rid (group_bucket gid' @ k))"
  using other_tenant[OF assms(1,3)] sibling_route[OF assms(2,4)] assms(5) by (cases "gid' = gid") simp_all

text \<open>C32: No handler reaches another tenant.  Whatever program runs for a route, on the engine or
  as a component, it leaves every bucket of another group and of a sibling route as it was, and
  everything else the host stores; and nothing stored outside its two buckets can make a
  difference to what it answers, logs, schedules or writes.\<close>

theorem handler_isolated:
  assumes "hst = instantiate_engine_state src (route_bucket gid rid) (group_bucket gid) allowed
      \<or> hst = instantiate_state max_bytes (route_bucket gid rid) (group_bucket gid)"
    and "CHR '':'' \<notin> set gid" "CHR '':'' \<notin> set rid"
  shows "(\<forall>k. \<not> own_keys gid rid k \<longrightarrow>
         map_of (hw_store (snd (run_program rd m n p [] (handler_world hst s)))) k = map_of s k)
    \<and> (\<forall>gid' rid' k. CHR '':'' \<notin> set gid' \<and> CHR '':'' \<notin> set rid' \<and> (gid' \<noteq> gid \<or> rid' \<noteq> rid) \<longrightarrow>
         \<not> own_keys gid rid (route_bucket gid' rid' @ k)
         \<and> (gid' \<noteq> gid \<longrightarrow> \<not> own_keys gid rid (group_bucket gid' @ k)))
    \<and> (\<forall>s'. view (own_keys gid rid) s = view (own_keys gid rid) s' \<longrightarrow>
         fst (run_program rd m n p [] (handler_world hst s)) = fst (run_program rd m n p [] (handler_world hst s'))
         \<and> hw_state (snd (run_program rd m n p [] (handler_world hst s)))
           = hw_state (snd (run_program rd m n p [] (handler_world hst s')))
         \<and> view (own_keys gid rid) (hw_store (snd (run_program rd m n p [] (handler_world hst s))))
           = view (own_keys gid rid) (hw_store (snd (run_program rd m n p [] (handler_world hst s')))))"
proof -
  let ?P = "own_keys gid rid"
  have "hs_table hst = [(0, route_bucket gid rid), (1, group_bucket gid)]"
    using assms(1) instantiated_tables by auto
  then have b: "buckets_within ?P (hw_state (handler_world hst s))"
    by (simp add: handler_world_def own_buckets)
  have out: "map_of (hw_store (snd (run_program rd m n p [] (handler_world hst s)))) k = map_of s k" if "\<not> ?P k" for k
    using view_frame[OF run_confined(1)[OF b], of k] that by (simp add: handler_world_def)
  have same: "fst (run_program rd m n p [] (handler_world hst s)) = fst (run_program rd m n p [] (handler_world hst s'))
      \<and> agree ?P (snd (run_program rd m n p [] (handler_world hst s))) (snd (run_program rd m n p [] (handler_world hst s')))"
    if "view ?P s = view ?P s'" for s'
    by (rule run_confined(2)[OF b]) (use that in \<open>simp add: agree_def handler_world_def\<close>)
  show ?thesis
    by (intro conjI allI impI)
      (use out same[unfolded agree_def] foreign_bucket[OF assms(2,3)] in blast)+
qed

theorem handler_isolated_witness:
  "map_of (hw_store (snd (run_program (\<lambda>n. \<lparr>rd_utc = 0, rd_wall_ms = 0, rd_mono_ms = 0, rd_client_gone = False,
       rd_deadline = False\<rparr>) None 3 (\<lambda>rs. if rs = [] then Call (OnBucket 0 (Put ''x'' ''1'')) else Finish (Inl ''e'')) []
       (handler_world (instantiate_state 1 (route_bucket ''G'' ''R'') (group_bucket ''G''))
         [(''kv:G:Q:x'', Bytes ''0'')])))) ''kv:G:Q:x'' = Some (Bytes ''0'')"
proof -
  let ?hst = "instantiate_state 1 (route_bucket ''G'' ''R'') (group_bucket ''G'')"
  have c: "CHR '':'' \<notin> set ''G''" "CHR '':'' \<notin> set ''R''" by simp_all
  have "\<not> own_keys ''G'' ''R'' ''kv:G:Q:x''"
    by (simp add: own_keys_def route_bucket_def route_bucket_under_def group_bucket_def group_bucket_under_def
        starts_with_def)
  then show ?thesis
    using handler_isolated[OF disjI2[OF refl] c] by simp
qed

section \<open>The host state as a state machine\<close>

inductive handler_step :: "host_world \<Rightarrow> host_world \<Rightarrow> bool" where
  call: "host_call rd c w = (r, w') \<Longrightarrow> handler_step w w'"

inductive_cases handler_stepE: "handler_step w w'"

lemma run_reaches: "handler_step\<^sup>*\<^sup>* w (snd (run_program rd m n p rs w))"
proof (induction n arbitrary: rs w)
  case (Suc n)
  show ?case
  proof (cases "p rs")
    case (Call c)
    obtain r w1 where 1: "host_call (rd n) c w = (r, w1)" by fastforce
    then have "handler_step w w1" by (rule handler_step.call)
    then show ?thesis using Suc.IH[of w1] 1 by (cases r) (auto simp: Call intro: converse_rtranclp_into_rtranclp)
  next
    case (Finish x)
    then show ?thesis by (cases x) simp_all
  qed
qed simp

definition sink_ok :: "stream_sink \<Rightarrow> bool" where
  "sink_ok k \<longleftrightarrow> sk_started k = (\<not> sk_head k) \<and> (sk_sent_head k \<noteq> None) = sk_started k
     \<and> (sk_started k \<or> sk_sent k = []) \<and> sk_chunk_count k = length (sk_sent k)
     \<and> sk_byte_count k = length (concat (sk_sent k)) \<and> (sk_client_disconnected k \<longrightarrow> sk_started k)"

definition host_inv :: "host_state \<Rightarrow> bool" where
  "host_inv hst \<longleftrightarrow> length (hs_callbacks hst) \<le> MAX_CALLBACKS_PER_REQUEST
     \<and> (hs_callbacks hst \<noteq> [] \<longrightarrow> hs_callouts_allowed hst)
     \<and> (\<forall>cb\<in>set (hs_callbacks hst). trim (sc_url cb) \<noteq> [])
     \<and> peak_memory (hs_limits hst) \<le> max_memory (hs_limits hst)
     \<and> (\<forall>k. hs_stream hst = Some k \<longrightarrow> sink_ok k)"

text \<open>How a sink evolves: what was sent stays sent, the head is sent once, a finished stream
  gets nothing more.\<close>

definition sink_extends :: "stream_sink \<Rightarrow> stream_sink \<Rightarrow> bool" where
  "sink_extends k k' \<longleftrightarrow> (\<exists>more. sk_sent k' = sk_sent k @ more \<and> (\<not> sk_open k \<longrightarrow> more = []))
     \<and> (sk_sent_head k \<noteq> None \<longrightarrow> sk_sent_head k' = sk_sent_head k) \<and> (\<not> sk_open k \<longrightarrow> \<not> sk_open k')"

fun stream_extends :: "stream_sink option \<Rightarrow> stream_sink option \<Rightarrow> bool" where
  "stream_extends None x \<longleftrightarrow> x = None"
| "stream_extends (Some k) x \<longleftrightarrow> (\<exists>k'. x = Some k' \<and> sink_extends k k')"

lemma sink_moves:
  assumes "sink_ok k"
  shows "sink_ok (stream_start now status hs k)" "sink_extends k (stream_start now status hs k)"
    "sink_ok (snd (write_chunk gone b k))" "sink_extends k (snd (write_chunk gone b k))"
    "sink_ok (stream_finish k)" "sink_extends k (stream_finish k)"
  using assms by (auto simp: sink_ok_def sink_extends_def stream_start_def write_chunk_def stream_finish_def)

lemma sink_extends_refl: "sink_extends k k"
  by (simp add: sink_extends_def)

lemma sink_extends_trans: "\<lbrakk>sink_extends a b; sink_extends b c\<rbrakk> \<Longrightarrow> sink_extends a c"
  by (auto simp: sink_extends_def)

lemma stream_extends_refl: "stream_extends x x"
  by (cases x) (simp_all add: sink_extends_refl)

lemma stream_extends_trans: "\<lbrakk>stream_extends a b; stream_extends b c\<rbrakk> \<Longrightarrow> stream_extends a c"
  by (cases a) (fastforce dest: sink_extends_trans)+

lemma schedule_keeps:
  assumes "host_inv hst"
  shows "host_inv (snd (schedule url verb hs b d hst)) \<and> hs_stream (snd (schedule url verb hs b d hst)) = hs_stream hst
    \<and> hs_callouts_allowed (snd (schedule url verb hs b d hst)) = hs_callouts_allowed hst
    \<and> max_memory (hs_limits (snd (schedule url verb hs b d hst))) = max_memory (hs_limits hst)"
  using assms by (auto simp: schedule_def host_inv_def)

lemma with_sink_keeps:
  assumes "host_inv (hw_state w)"
    and "\<And>k. sink_ok k \<Longrightarrow> sink_ok (snd (f k)) \<and> sink_extends k (snd (f k))"
    and "with_sink f r0 w = (r, w')"
  shows "host_inv (hw_state w') \<and> stream_extends (hs_stream (hw_state w)) (hs_stream (hw_state w'))
    \<and> hs_callouts_allowed (hw_state w') = hs_callouts_allowed (hw_state w)
    \<and> max_memory (hs_limits (hw_state w')) = max_memory (hs_limits (hw_state w))"
proof (cases "hs_stream (hw_state w)")
  case (Some k)
  then have "sink_ok (snd (f k)) \<and> sink_extends k (snd (f k))" using assms(1,2) by (simp add: host_inv_def)
  then show ?thesis using assms(1,3) Some
    by (auto simp: with_sink_def host_inv_def split: prod.splits)
qed (use assms(1,3) in \<open>auto simp: with_sink_def\<close>)

lemma host_call_keeps:
  assumes "host_inv (hw_state w)" "host_call rd c w = (r, w')"
  shows "host_inv (hw_state w') \<and> stream_extends (hs_stream (hw_state w)) (hs_stream (hw_state w'))
    \<and> hs_callouts_allowed (hw_state w') = hs_callouts_allowed (hw_state w)
    \<and> max_memory (hs_limits (hw_state w')) = max_memory (hs_limits (hw_state w))"
proof (cases c)
  case (OnBucket h d)
  then show ?thesis using assms
    by (auto simp: stream_extends_refl split: option.splits prod.splits sum.splits)
next
  case (StreamStart status hs)
  then show ?thesis
    using assms(2) with_sink_keeps[OF assms(1), of "\<lambda>k. (Done, stream_start (rd_mono_ms rd) status hs k)" Done]
    by (auto simp: sink_moves split: prod.splits)
next
  case (WriteChunk b)
  let ?f = "\<lambda>k. case write_chunk (rd_client_gone rd) b k of (ok, k') \<Rightarrow> (Flag ok, k')"
  have f: "snd (?f k) = snd (write_chunk (rd_client_gone rd) b k)" for k by (simp split: prod.split)
  have "sink_ok (snd (?f k)) \<and> sink_extends k (snd (?f k))" if "sink_ok k" for k
    unfolding f using sink_moves[OF that] by blast
  note keeps = with_sink_keeps[OF assms(1) this, of "Flag False"]
  obtain x w1 where "with_sink ?f (Flag False) w = (x, w1)" by fastforce
  then show ?thesis using keeps[of x w1] WriteChunk assms(2) by simp
next
  case StreamFinish
  then show ?thesis
    using assms(2) with_sink_keeps[OF assms(1), of "\<lambda>k. (Done, stream_finish k)" Done]
    by (auto simp: sink_moves split: prod.splits)
next
  case (Schedule url verb hs b d)
  then show ?thesis using assms(2) schedule_keeps[OF assms(1), of url verb hs b d]
    by (auto simp: stream_extends_refl split: prod.splits)
qed (use assms in \<open>auto simp: host_inv_def memory_growing_def stream_extends_refl split: option.splits if_splits prod.splits\<close>)

lemma steps_keep:
  assumes "handler_step\<^sup>*\<^sup>* w w'" "host_inv (hw_state w)"
  shows "host_inv (hw_state w') \<and> stream_extends (hs_stream (hw_state w)) (hs_stream (hw_state w'))
    \<and> hs_callouts_allowed (hw_state w') = hs_callouts_allowed (hw_state w)
    \<and> max_memory (hs_limits (hw_state w')) = max_memory (hs_limits (hw_state w))"
  using assms
proof (induction rule: rtranclp_induct)
  case (step w1 w2)
  obtain rd c r where "host_call rd c w1 = (r, w2)" using step.hyps(2) by (rule handler_stepE)
  then show ?case using host_call_keeps[of w1 rd c r w2] step.IH step.prems
    by (auto intro: stream_extends_trans)
qed (simp add: stream_extends_refl)

lemma start_inv:
  "host_inv (set_response_stream_sink (instantiate_engine_state src rb gb allowed))"
  "host_inv (instantiate_state n rb gb)"
  by (simp_all add: host_inv_def set_response_stream_sink_def instantiate_engine_state_def instantiate_state_def
      with_buckets_def push_bucket_def new_host_state_def new_limits_def new_sink_def sink_ok_def Let_def)

text \<open>C37: A streamed response is committed once and accounted exactly.  At every moment of a
  handler on the shared engine, chunks have gone out only after a head, the counts reported for
  the journal are those of the chunks that went out, and whatever the handler does from there
  neither the head nor a chunk is taken back or replaced, and a finished stream gets no more.\<close>

theorem stream_discipline:
  assumes "hw_state w0 = set_response_stream_sink (instantiate_engine_state src rb gb allowed)"
    and "handler_step\<^sup>*\<^sup>* w0 w" "handler_step\<^sup>*\<^sup>* w w'"
  shows "\<exists>k k'. hs_stream (hw_state w) = Some k \<and> hs_stream (hw_state w') = Some k'
    \<and> (sk_sent_head k = None \<longrightarrow> sk_sent k = [])
    \<and> stream_stats (hw_state w) = (if sk_sent_head k = None then None
         else Some (length (sk_sent k), length (concat (sk_sent k)), sk_client_disconnected k))
    \<and> (\<exists>more. sk_sent k' = sk_sent k @ more \<and> (\<not> sk_open k \<longrightarrow> more = []))
    \<and> (sk_sent_head k \<noteq> None \<longrightarrow> sk_sent_head k' = sk_sent_head k)"
proof -
  have i: "host_inv (hw_state w0)" "hs_stream (hw_state w0) = Some new_sink"
    using assms(1) start_inv(1) by (simp_all add: set_response_stream_sink_def)
  note s = steps_keep[OF assms(2) i(1)]
  then obtain k where k: "hs_stream (hw_state w) = Some k" using i(2) by auto
  have iw: "host_inv (hw_state w)" and ok: "sink_ok k" using s k by (auto simp: host_inv_def)
  obtain k' where "hs_stream (hw_state w') = Some k'" "sink_extends k k'"
    using steps_keep[OF assms(3) iw] k by auto
  then show ?thesis using k ok by (auto simp: sink_ok_def sink_extends_def stream_stats_def)
qed

definition demo_reading :: reading where
  "demo_reading = \<lparr>rd_utc = 0, rd_wall_ms = 0, rd_mono_ms = 0, rd_client_gone = False, rd_deadline = False\<rparr>"

theorem stream_discipline_witness:
  "\<exists>w. handler_step\<^sup>*\<^sup>*
     (handler_world (set_response_stream_sink (instantiate_engine_state ''src'' ''r'' ''g'' False)) []) w
    \<and> stream_stats (hw_state w) = Some (1, 2, False)"
proof -
  let ?start = "handler_world (set_response_stream_sink (instantiate_engine_state ''src'' ''r'' ''g'' False)) []"
  let ?p = "\<lambda>rs. if rs = [] then Call (StreamStart 200 []) else Call (WriteChunk ''ab'')"
  let ?w = "snd (run_program (\<lambda>n. demo_reading) None 2 ?p [] ?start)"
  have r: "handler_step\<^sup>*\<^sup>* ?start ?w" by (rule run_reaches)
  have w: "hs_stream (hw_state ?w) = Some (new_sink\<lparr>sk_head := False, sk_started := True, sk_started_at := Some 0,
      sk_sent_head := Some \<lparr>sh_status = 200, sh_headers = []\<rparr>, sk_chunk_count := 1, sk_byte_count := 2,
      sk_sent := [''ab'']\<rparr>)"
    by (simp add: numeral_2_eq_2 demo_reading_def handler_world_def set_response_stream_sink_def
        with_sink_def stream_start_def write_chunk_def new_sink_def)
  have "\<exists>k. hs_stream (hw_state ?w) = Some k \<and> stream_stats (hw_state ?w) = (if sk_sent_head k = None then None
         else Some (length (sk_sent k), length (concat (sk_sent k)), sk_client_disconnected k))"
    using stream_discipline[of ?start "''src''" "''r''" "''g''" False ?w ?w, OF _ r rtranclp.rtrancl_refl[of _ ?w]]
    unfolding handler_world_def by auto
  then have "stream_stats (hw_state ?w) = Some (1, 2, False)" unfolding w by (auto simp: new_sink_def)
  then show ?thesis using r by blast
qed

lemma host_call_slept: "hw_slept (snd (host_call rd c w)) \<le> hw_slept w + MAX_SLEEP_MS"
  by (cases c) (auto simp: with_sink_def do_sleep_def split: option.splits prod.splits sum.splits)

lemma run_slept: "hw_slept (snd (run_program rd m n p rs w)) \<le> hw_slept w + n * MAX_SLEEP_MS"
proof (induction n arbitrary: rs w)
  case (Suc n)
  show ?case
  proof (cases "p rs")
    case (Call c)
    obtain r w1 where 1: "host_call (rd n) c w = (r, w1)" by fastforce
    then have "hw_slept w1 \<le> hw_slept w + MAX_SLEEP_MS" using host_call_slept[of "rd n" c w] by simp
    then show ?thesis using Suc.IH[of _ w1] 1
      by (cases r) (fastforce simp: Call intro: order_trans)+
  next
    case (Finish x)
    then show ?thesis by (cases x) simp_all
  qed
qed simp

text \<open>C38: The limits of one request hold for every handler on the shared engine: at most sixteen
  callbacks and none unless the host and the group allow them, each with a URL, no memory beyond
  256 MiB, and at most thirty seconds of sleep per host call.\<close>

theorem host_limits:
  "let (r, w) = run_program rd m n p []
       (handler_world (set_response_stream_sink (instantiate_engine_state src rb gb allowed)) s) in
   length (hs_callbacks (hw_state w)) \<le> 16
   \<and> (\<not> allowed \<longrightarrow> hs_callbacks (hw_state w) = [])
   \<and> (\<forall>cb\<in>set (hs_callbacks (hw_state w)). trim (sc_url cb) \<noteq> [])
   \<and> peak_memory (hs_limits (hw_state w)) \<le> 256 * 1024 * 1024
   \<and> hw_slept w \<le> n * 30000"
proof -
  let ?start = "handler_world (set_response_stream_sink (instantiate_engine_state src rb gb allowed)) s"
  let ?w = "snd (run_program rd m n p [] ?start)"
  have s0: "hw_state ?start = set_response_stream_sink (instantiate_engine_state src rb gb allowed)"
    by (simp add: handler_world_def)
  have a0: "hs_callouts_allowed (hw_state ?start) = allowed" "max_memory (hs_limits (hw_state ?start)) = ENGINE_MAX_MEMORY_BYTES"
    by (simp_all add: handler_world_def set_response_stream_sink_def instantiate_engine_state_def with_buckets_def
        push_bucket_def new_host_state_def new_limits_def Let_def)
  have i: "host_inv (hw_state ?start)" unfolding s0 by (rule start_inv(1))
  note k = steps_keep[OF run_reaches i, of rd m n p "[]"]
  have "host_inv (hw_state ?w)" "hs_callouts_allowed (hw_state ?w) = allowed"
    "max_memory (hs_limits (hw_state ?w)) = ENGINE_MAX_MEMORY_BYTES"
    using k a0 by simp_all
  moreover have "hw_slept ?w \<le> n * MAX_SLEEP_MS"
    using run_slept[of rd m n p "[]" ?start] by (simp add: handler_world_def)
  ultimately show ?thesis
    by (auto simp: host_inv_def MAX_CALLBACKS_PER_REQUEST_def ENGINE_MAX_MEMORY_BYTES_def MAX_SLEEP_MS_def
        Let_def split: prod.split)
qed

theorem host_limits_witness:
  "length (hs_callbacks (hw_state (snd (run_program (\<lambda>n. demo_reading) None 20
     (\<lambda>rs. Call (Schedule ''u'' ''GET'' [] [] 0)) []
     (handler_world (set_response_stream_sink (instantiate_engine_state ''src'' ''r'' ''g'' True)) []))))) \<le> 16"
  using host_limits[of "\<lambda>n. demo_reading" None 20 "\<lambda>rs. Call (Schedule ''u'' ''GET'' [] [] 0)" "''src''" "''r''" "''g''" True "[]"]
  by (auto simp: Let_def split: prod.splits)

end
