(* ===== verification/Wire.thy ===== *)
theory Wire
  imports Store
begin

text \<open>Byte values on JSON surfaces (\<^theory_text>\<open>wire.rs\<close>): text when the bytes are text, base64 otherwise.
  Base64 and JSON are parameters.\<close>

datatype 'j wire_bytes = WireText string | WireBinary string | WireJson 'j

record 'j wire_lib =
  b64_encode :: "bytes \<Rightarrow> string"
  b64_decode :: "string \<Rightarrow> string + bytes"
  json_to_vec :: "'j \<Rightarrow> bytes"
  key_debug :: "string \<Rightarrow> string"

fun into_bytes :: "('j, 'z) wire_lib_scheme \<Rightarrow> 'j wire_bytes \<Rightarrow> string + bytes" where
  "into_bytes lib (WireText s) = Inr s"
| "into_bytes lib (WireBinary b) = b64_decode lib b"
| "into_bytes lib (WireJson j) = Inr (json_to_vec lib j)"

definition from_bytes :: "('j, 'z) wire_lib_scheme \<Rightarrow> bytes \<Rightarrow> 'j wire_bytes" where
  "from_bytes lib b = (if valid_utf8 b then WireText b else WireBinary (b64_encode lib b))"

definition MAX_STATE_VALUE_BYTES :: nat where "MAX_STATE_VALUE_BYTES = 1024 * 1024"

fun decode_entries ::
  "('j, 'z) wire_lib_scheme \<Rightarrow> (string \<times> 'j wire_bytes) list \<Rightarrow> (string \<times> bytes) list \<Rightarrow> string + (string \<times> bytes) list" where
  "decode_entries lib [] out = Inr out"
| "decode_entries lib ((key, value) # es) out = (case into_bytes lib value of
      Inl e \<Rightarrow> Inl (''entry '' @ key_debug lib key @ '': invalid base64: '' @ e)
    | Inr b \<Rightarrow>
      if MAX_STATE_VALUE_BYTES < length b
      then Inl (''entry '' @ key_debug lib key @ '': value is '' @ show_nat (length b) @ '' bytes, over the ''
             @ show_nat MAX_STATE_VALUE_BYTES @ ''-byte limit'')
      else decode_entries lib es (AList.update key b out))"

definition base64_ok :: "('j, 'z) wire_lib_scheme \<Rightarrow> bool" where
  "base64_ok lib \<longleftrightarrow> (\<forall>b. b64_decode lib (b64_encode lib b) = Inr b)"

lemma into_from: "base64_ok lib \<Longrightarrow> into_bytes lib (from_bytes lib b) = Inr b"
  by (simp add: from_bytes_def base64_ok_def)

lemma decode_from:
  assumes "base64_ok lib" "distinct (map fst es)" "\<forall>(k, b)\<in>set es. length b \<le> MAX_STATE_VALUE_BYTES"
    and "\<forall>(k, b)\<in>set es. k \<notin> fst ` set out"
  shows "decode_entries lib (map (\<lambda>(k, b). (k, from_bytes lib b)) es) out = Inr (out @ es)"
  using assms(2-4)
proof (induction es arbitrary: out)
  case (Cons e es)
  obtain k b where e: "e = (k, b)" by fastforce
  have "k \<notin> fst ` set out" using Cons.prems(3) e by simp
  then have u: "AList.update k b out = out @ [(k, b)]"
    by (induction out) auto
  have "\<forall>(k', b')\<in>set es. k' \<notin> fst ` set (out @ [(k, b)])"
    using Cons.prems(1,3) e by (auto simp: image_iff)
  then show ?case
    using Cons.IH[of "out @ [(k, b)]"] Cons.prems(1,2) e by (simp add: into_from[OF assms(1)] u)
qed simp

lemma decode_bounded:
  assumes "decode_entries lib es out = Inr r" "\<forall>(k, b)\<in>set out. length b \<le> MAX_STATE_VALUE_BYTES"
  shows "\<forall>(k, b)\<in>set r. length b \<le> MAX_STATE_VALUE_BYTES"
  using assms
proof (induction lib es out rule: decode_entries.induct)
  case (2 lib key x es out)
  obtain b where b: "into_bytes lib x = Inr b" "length b \<le> MAX_STATE_VALUE_BYTES"
    "decode_entries lib es (AList.update key b out) = Inr r"
    using "2.prems"(1) by (auto split: sum.splits if_splits)
  have "set (AList.update key b out) \<subseteq> insert (key, b) (set out)"
    by (induction out) auto
  then have "\<forall>(k, b)\<in>set (AList.update key b out). length b \<le> MAX_STATE_VALUE_BYTES"
    using "2.prems"(2) b(2) by fastforce
  then show ?case using "2.IH"[OF b(1)] b(2,3) by simp
qed simp

text \<open>C40: State entries survive the JSON surface: written out with \<^theory_text>\<open>from_bytes\<close> and decoded
  again, entries under distinct keys come back unchanged and in order as long as each fits the
  size cap, and whatever a client sends, no decoded value exceeds the cap.\<close>

theorem wire_roundtrip:
  assumes "base64_ok lib"
  shows "(distinct (map fst es) \<and> (\<forall>(k, b)\<in>set es. length b \<le> MAX_STATE_VALUE_BYTES) \<longrightarrow>
      decode_entries lib (map (\<lambda>(k, b). (k, from_bytes lib b)) es) [] = Inr es)
    \<and> (\<forall>r. decode_entries lib sent [] = Inr r \<longrightarrow> (\<forall>(k, b)\<in>set r. length b \<le> MAX_STATE_VALUE_BYTES))"
  using decode_from[OF assms, of es "[]"] decode_bounded[of lib sent "[]"] by auto

definition demo_wire :: "bytes wire_lib" where
  "demo_wire = \<lparr>b64_encode = (\<lambda>b. b), b64_decode = Inr, json_to_vec = (\<lambda>j. j), key_debug = (\<lambda>k. k)\<rparr>"

theorem wire_roundtrip_witness:
  "decode_entries demo_wire (map (\<lambda>(k, b). (k, from_bytes demo_wire b)) [(''a'', [CHR 0xFF]), (''b'', ''text'')]) []
     = Inr [(''a'', [CHR 0xFF]), (''b'', ''text'')]"
proof -
  have "base64_ok demo_wire" by (simp add: base64_ok_def demo_wire_def)
  from wire_roundtrip[OF this, of "[(''a'', [CHR 0xFF]), (''b'', ''text'')]"]
  show ?thesis by (simp add: MAX_STATE_VALUE_BYTES_def)
qed

end
