(* ===== verification/Exclusive.thy ===== *)
theory Exclusive
  imports Main
begin

text \<open>The contract between conflict detection and matching.  A provider says which rules
  accept a request, when two rules conflict, and a rank: \<^theory_text>\<open>None\<close> for a specific rule,
  \<^theory_text>\<open>Some n\<close> for a backstop of depth \<^theory_text>\<open>n\<close>.  Its law is that conflict detection is
  complete among rules of the same rank.  The client's result is that in a conflict-free
  table the preferred accepting rule is unique, whatever the order of the table.\<close>

fun beats_or_ties :: "nat option \<Rightarrow> nat option \<Rightarrow> bool" where
  "beats_or_ties None r = True"
| "beats_or_ties (Some m) None = False"
| "beats_or_ties (Some m) (Some n) = (n \<le> m)"

definition preferred :: "('r \<Rightarrow> bool) \<Rightarrow> ('r \<Rightarrow> nat option) \<Rightarrow> 'r list \<Rightarrow> 'r \<Rightarrow> bool" where
  "preferred acc rank rs r \<longleftrightarrow>
     r \<in> set rs \<and> acc r \<and> (\<forall>x \<in> set rs. acc x \<longrightarrow> beats_or_ties (rank r) (rank x))"

fun pairwise_free :: "('r \<Rightarrow> 'r \<Rightarrow> bool) \<Rightarrow> 'r list \<Rightarrow> bool" where
  "pairwise_free c [] = True"
| "pairwise_free c (r # rs) = (list_all (\<lambda>x. \<not> c r x) rs \<and> pairwise_free c rs)"

lemma beats_refl [simp]: "beats_or_ties r r"
  by (cases r) auto

lemma beats_antisym: "\<lbrakk>beats_or_ties a b; beats_or_ties b a\<rbrakk> \<Longrightarrow> a = b"
  by (cases a; cases b) auto

lemma beats_trans: "\<lbrakk>beats_or_ties a b; beats_or_ties b c\<rbrakk> \<Longrightarrow> beats_or_ties a c"
  by (cases a; cases b; cases c) auto

lemma preferred_set: "set rs = set rs' \<Longrightarrow> preferred acc rank rs r = preferred acc rank rs' r"
  by (simp add: preferred_def)

locale ranked_matching =
  fixes accepts :: "'r \<Rightarrow> 'q \<Rightarrow> bool"
    and conflicts :: "'r \<Rightarrow> 'r \<Rightarrow> bool"
    and admissible :: "'r \<Rightarrow> bool"
    and rank :: "'r \<Rightarrow> nat option"
  assumes complete: "\<lbrakk>admissible a; admissible b; rank a = rank b; accepts a q; accepts b q\<rbrakk>
      \<Longrightarrow> conflicts a b"
    and symmetric: "conflicts a b = conflicts b a"
begin

lemma free_pair:
  "\<lbrakk>pairwise_free conflicts rs; a \<in> set rs; b \<in> set rs; a \<noteq> b\<rbrakk> \<Longrightarrow> \<not> conflicts a b"
  by (induction rs) (auto simp: list_all_iff symmetric)

lemma preferred_unique:
  assumes "pairwise_free conflicts rs" "\<And>r. r \<in> set rs \<Longrightarrow> admissible r"
    and a: "preferred (\<lambda>r. scope r \<and> accepts r q) rank rs a"
    and b: "preferred (\<lambda>r. scope r \<and> accepts r q) rank rs b"
  shows "a = b"
proof (rule ccontr)
  assume "a \<noteq> b"
  then have "\<not> conflicts a b" using free_pair[OF assms(1)] a b by (simp add: preferred_def)
  moreover have "rank a = rank b" using a b by (auto simp: preferred_def intro: beats_antisym)
  ultimately show False using complete[of a b q] assms(2) a b by (auto simp: preferred_def)
qed

lemma same_rank_unique:
  assumes "pairwise_free conflicts rs" "\<And>r. r \<in> set rs \<Longrightarrow> admissible r"
    "a \<in> set rs" "b \<in> set rs" "accepts a q" "accepts b q" "rank a = rank b"
  shows "a = b"
  using free_pair[OF assms(1,3,4)] complete[of a b q] assms(2-7) by blast

end

end
