(* ===== verification/Route_Table.thy ===== *)
theory Route_Table
  imports Registry Exclusive
begin

text \<open>The in-memory route table (\<^theory_text>\<open>route_table.rs\<close>) and the invalidation messages of
  \<^theory_text>\<open>bus.rs\<close>.

  The table is a record of its four guarded fields; compiling a component and
  transpiling a source are parameters (wasmtime, oxc).  A reload reads the registry
  state, which is an argument, and the clock is an argument.  \<^theory_text>\<open>refresh_*\<close> return the
  invalidation they publish along with the new table.\<close>

record route_invalidation =
  ri_group_id :: string
  ri_route_ids :: "string list"

record matched_route =
  mr_route :: route
  mr_matched_pattern :: string
  mr_path_params :: captures

datatype near_miss_reason =
    MethodMismatch "string list" string
  | PrefixMatch nat string string

record near_miss =
  nm_route :: route
  nm_reason :: near_miss_reason

datatype match_probe = Hit matched_route | Miss "near_miss list"

record 'c route_table =
  routes :: "route list"
  components :: "(string \<times> 'c) list"
  engine_js :: "(string \<times> string) list"
  revalidated_at :: "(string \<times> nat) list"
  revalidate_interval :: nat

definition DEFAULT_REVALIDATE_INTERVAL :: nat where "DEFAULT_REVALIDATE_INTERVAL = 5 * 1000000000"
definition NEAR_MISS_LIMIT :: nat where "NEAR_MISS_LIMIT = 20"

definition for_group :: "string \<Rightarrow> route_invalidation" where
  "for_group gid = \<lparr>ri_group_id = gid, ri_route_ids = []\<rparr>"

definition with_routes :: "string list \<Rightarrow> route_invalidation \<Rightarrow> route_invalidation" where
  "with_routes ids ev = ev\<lparr>ri_route_ids := ids\<rparr>"

section \<open>Warm-up and matching\<close>

definition warm_with_revalidate_interval ::
  "registry_env \<Rightarrow> nat \<Rightarrow> mem_store \<Rightarrow> registry_error + 'c route_table" where
  "warm_with_revalidate_interval env interval s = rmap (\<lambda>rs.
     \<lparr>routes = rs, components = [], engine_js = [], revalidated_at = [], revalidate_interval = interval\<rparr>)
     (fst (list_routes env s))"

definition warm :: "registry_env \<Rightarrow> mem_store \<Rightarrow> registry_error + 'c route_table" where
  "warm env s = warm_with_revalidate_interval env DEFAULT_REVALIDATE_INTERVAL s"

fun in_scope :: "string option \<Rightarrow> route \<Rightarrow> bool" where
  "in_scope None r = True"
| "in_scope (Some g) r = (r_group_name r = g)"

text \<open>The loop of \<^theory_text>\<open>find_match_filtered\<close>; \<^theory_text>\<open>best\<close> is the best tail so far.\<close>

fun scan_routes :: "string option \<Rightarrow> string \<Rightarrow> string \<Rightarrow> (nat \<times> matched_route) option \<Rightarrow> route list
    \<Rightarrow> panic + matched_route option" where
  "scan_routes g m path best [] = Inr (map_option snd best)"
| "scan_routes g m path best (r # rs) =
    (if \<not> in_scope g r then scan_routes g m path best rs
     else case pattern_parse (r_path r) of
       Inl e \<Rightarrow> scan_routes g m path best rs
     | Inr p \<Rightarrow>
       if \<not> methods_match (r_methods r) m then scan_routes g m path best rs
       else case match_path p path of
         Inl x \<Rightarrow> Inl x
       | Inr None \<Rightarrow> scan_routes g m path best rs
       | Inr (Some cs) \<Rightarrow>
         (let matched = \<lparr>mr_route = r, mr_matched_pattern = raw p, mr_path_params = cs\<rparr>;
              prefix_len = length (segments p) in
          if has_tail p then
            (if (case best of None \<Rightarrow> True | Some (len, _) \<Rightarrow> prefix_len > len)
             then scan_routes g m path (Some (prefix_len, matched)) rs
             else scan_routes g m path best rs)
          else Inr (Some matched)))"

definition find_match_filtered ::
  "'c route_table \<Rightarrow> string option \<Rightarrow> string \<Rightarrow> string \<Rightarrow> panic + matched_route option" where
  "find_match_filtered t g m path = scan_routes g m path None (routes t)"

definition find_match :: "'c route_table \<Rightarrow> string \<Rightarrow> string \<Rightarrow> panic + matched_route option" where
  "find_match t m path = find_match_filtered t None m path"

definition find_match_in_group ::
  "'c route_table \<Rightarrow> string \<Rightarrow> string \<Rightarrow> string \<Rightarrow> panic + matched_route option" where
  "find_match_in_group t g m path = find_match_filtered t (Some g) m path"

section \<open>Reloading from the registry\<close>

definition reload_group ::
  "registry_env \<Rightarrow> mem_store \<Rightarrow> string \<Rightarrow> 'c route_table \<Rightarrow> bool \<times> 'c route_table" where
  "reload_group env s gid t = (case fst (routes_in_group env gid s) of
      Inl e \<Rightarrow> (False, t)
    | Inr fresh \<Rightarrow> (True, t\<lparr>routes := filter (\<lambda>r. r_group_id r \<noteq> gid) (routes t) @ fresh\<rparr>))"

definition revalidate_group ::
  "registry_env \<Rightarrow> mem_store \<Rightarrow> nat \<Rightarrow> string \<Rightarrow> 'c route_table \<Rightarrow> bool \<times> 'c route_table" where
  "revalidate_group env s now gid t =
    (if (case map_of (revalidated_at t) gid of
           Some prev \<Rightarrow> now - prev < revalidate_interval t | None \<Rightarrow> False)
     then (False, t)
     else reload_group env s gid
       (t\<lparr>revalidated_at := AList.update gid now (revalidated_at t)\<rparr>))"

definition revalidate_and_rematch ::
  "registry_env \<Rightarrow> mem_store \<Rightarrow> nat \<Rightarrow> string \<Rightarrow> string \<Rightarrow> string \<Rightarrow> string \<Rightarrow> 'c route_table
   \<Rightarrow> (panic + matched_route option) \<times> 'c route_table" where
  "revalidate_and_rematch env s now gid gname m path t =
    (case revalidate_group env s now gid t of
       (False, t') \<Rightarrow> (Inr None, t')
     | (True, t') \<Rightarrow> (find_match_filtered t' (Some gname) m path, t'))"

definition reload_all :: "registry_env \<Rightarrow> mem_store \<Rightarrow> 'c route_table \<Rightarrow> 'c route_table" where
  "reload_all env s t = (case fst (list_routes env s) of
      Inl e \<Rightarrow> t
    | Inr fresh \<Rightarrow> t\<lparr>routes := fresh, components := [], engine_js := [], revalidated_at := []\<rparr>)"

definition evict :: "string list \<Rightarrow> 'c route_table \<Rightarrow> 'c route_table" where
  "evict ids t = t\<lparr>components := foldl (\<lambda>c i. AList.delete i c) (components t) ids,
     engine_js := foldl (\<lambda>c i. AList.delete i c) (engine_js t) ids\<rparr>"

definition apply_invalidation ::
  "registry_env \<Rightarrow> mem_store \<Rightarrow> nat \<Rightarrow> string \<Rightarrow> string list \<Rightarrow> 'c route_table \<Rightarrow> 'c route_table" where
  "apply_invalidation env s now gid route_ids t =
    (case reload_group env s gid (evict route_ids t) of
       (True, t') \<Rightarrow> t'\<lparr>revalidated_at := AList.update gid now (revalidated_at t')\<rparr>
     | (False, t') \<Rightarrow> t')"

section \<open>Near misses\<close>

text \<open>The loop of \<^theory_text>\<open>prefix_segment_diff\<close>: position, best difference so far.\<close>

fun segment_diff :: "nat \<Rightarrow> (nat \<times> string \<times> string) option \<Rightarrow> segment list \<Rightarrow> string list
    \<Rightarrow> (nat \<times> string \<times> string) option" where
  "segment_diff i diff (Literal expected # ss) (req # rest) =
     (if expected = req then segment_diff (i + 1) diff ss rest
      else if \<not> (starts_with req expected \<or> starts_with expected req) then None
      else if diff \<noteq> None then None
      else segment_diff (i + 1) (Some (i, expected, req)) ss rest)"
| "segment_diff i diff (Param n # ss) (req # rest) = segment_diff (i + 1) diff ss rest"
| "segment_diff i diff (Tail n # ss) (req # rest) = segment_diff (i + 1) diff ss rest"
| "segment_diff i diff [] rest = diff"
| "segment_diff i diff ss [] = diff"

definition prefix_segment_diff :: "pattern \<Rightarrow> string \<Rightarrow> (nat \<times> string \<times> string) option" where
  "prefix_segment_diff p path =
    (if has_tail p then None
     else let trimmed = trim_slash path in
       if \<not> starts_with ''/'' trimmed then None
       else let request_segments = path_parts trimmed in
         if length request_segments \<noteq> length (segments p) then None
         else segment_diff 0 None (segments p) request_segments)"

fun near_misses :: "string option \<Rightarrow> string \<Rightarrow> string \<Rightarrow> route list \<Rightarrow> panic + near_miss list" where
  "near_misses g m path [] = Inr []"
| "near_misses g m path (r # rs) =
    (if \<not> in_scope g r then near_misses g m path rs
     else case pattern_parse (r_path r) of
       Inl e \<Rightarrow> near_misses g m path rs
     | Inr p \<Rightarrow> (case match_path p path of
         Inl x \<Rightarrow> Inl x
       | Inr (Some cs) \<Rightarrow>
           rmap ((#) \<lparr>nm_route = r, nm_reason = MethodMismatch (r_methods r) m\<rparr>) (near_misses g m path rs)
       | Inr None \<Rightarrow> (case prefix_segment_diff p path of
           Some (i, expected, got) \<Rightarrow>
             rmap ((#) \<lparr>nm_route = r, nm_reason = PrefixMatch i expected got\<rparr>) (near_misses g m path rs)
         | None \<Rightarrow> near_misses g m path rs)))"

definition compute_near_misses_filtered ::
  "'c route_table \<Rightarrow> string option \<Rightarrow> string \<Rightarrow> string \<Rightarrow> panic + near_miss list" where
  "compute_near_misses_filtered t g m path =
     rmap (\<lambda>near. if length near > NEAR_MISS_LIMIT then take NEAR_MISS_LIMIT near else near)
       (near_misses g m path (routes t))"

definition compute_near_misses :: "'c route_table \<Rightarrow> string \<Rightarrow> string \<Rightarrow> panic + near_miss list" where
  "compute_near_misses t m path = compute_near_misses_filtered t None m path"

definition compute_near_misses_in_group ::
  "'c route_table \<Rightarrow> string \<Rightarrow> string \<Rightarrow> string \<Rightarrow> panic + near_miss list" where
  "compute_near_misses_in_group t g m path = compute_near_misses_filtered t (Some g) m path"

definition probe :: "'c route_table \<Rightarrow> string \<Rightarrow> string \<Rightarrow> panic + match_probe" where
  "probe t m path = rbind (find_match t m path) (\<lambda>found. case found of
      Some x \<Rightarrow> Inr (Hit x)
    | None \<Rightarrow> rmap Miss (compute_near_misses t m path))"

definition probe_in_group :: "'c route_table \<Rightarrow> string \<Rightarrow> string \<Rightarrow> string \<Rightarrow> panic + match_probe" where
  "probe_in_group t g m path = rbind (find_match_in_group t g m path) (\<lambda>found. case found of
      Some x \<Rightarrow> Inr (Hit x)
    | None \<Rightarrow> rmap Miss (compute_near_misses_in_group t g m path))"

section \<open>Artifacts\<close>

text \<open>\<^theory_text>\<open>compile\<close> and \<^theory_text>\<open>transpile\<close> are wasmtime's and the transpiler's functions.\<close>

definition component_for ::
  "(bytes \<Rightarrow> 'e + 'c) \<Rightarrow> route \<Rightarrow> 'c route_table \<Rightarrow> ('e + 'c) \<times> 'c route_table" where
  "component_for compile r t = (case map_of (components t) (r_id r) of
      Some c \<Rightarrow> (Inr c, t)
    | None \<Rightarrow> (case compile (r_compiled_wasm r) of
        Inl e \<Rightarrow> (Inl e, t)
      | Inr c \<Rightarrow> (Inr c, t\<lparr>components := AList.update (r_id r) c (components t)\<rparr>)))"

datatype 'e engine_error = NoSource string | TranspileError string 'e

definition engine_source_for ::
  "(string \<Rightarrow> 'e + string) \<Rightarrow> route \<Rightarrow> 'c route_table \<Rightarrow> ('e engine_error + string) \<times> 'c route_table" where
  "engine_source_for transpile r t = (case r_source r of
      None \<Rightarrow> (Inl (NoSource (r_id r)), t)
    | Some src \<Rightarrow> (case map_of (engine_js t) (r_id r) of
        Some js \<Rightarrow> (Inr js, t)
      | None \<Rightarrow> (case transpile src of
          Inl e \<Rightarrow> (Inl (TranspileError (r_id r) e), t)
        | Inr js \<Rightarrow> (Inr js, t\<lparr>engine_js := AList.update (r_id r) js (engine_js t)\<rparr>))))"

section \<open>Refreshing after a mutation\<close>

definition refresh_after_create :: "route \<Rightarrow> 'c route_table \<Rightarrow> 'c route_table \<times> route_invalidation" where
  "refresh_after_create r t = (t\<lparr>routes := routes t @ [r]\<rparr>, for_group (r_group_id r))"

definition refresh_after_delete ::
  "string \<Rightarrow> string \<Rightarrow> 'c route_table \<Rightarrow> 'c route_table \<times> route_invalidation" where
  "refresh_after_delete gid rid t =
    (t\<lparr>routes := filter (\<lambda>r. r_id r \<noteq> rid) (routes t),
       components := AList.delete rid (components t),
       engine_js := AList.delete rid (engine_js t)\<rparr>,
     with_routes [rid] (for_group gid))"

fun replace_route :: "route \<Rightarrow> route list \<Rightarrow> route list" where
  "replace_route r [] = [r]"
| "replace_route r (q # qs) = (if r_id q = r_id r then r # qs else q # replace_route r qs)"

definition refresh_after_update :: "route \<Rightarrow> 'c route_table \<Rightarrow> 'c route_table \<times> route_invalidation" where
  "refresh_after_update r t =
    (t\<lparr>routes := replace_route r (routes t),
       components := AList.delete (r_id r) (components t),
       engine_js := AList.delete (r_id r) (engine_js t)\<rparr>,
     with_routes [r_id r] (for_group (r_group_id r)))"

definition refresh_after_group_cascade ::
  "string \<Rightarrow> 'c route_table \<Rightarrow> 'c route_table \<times> route_invalidation" where
  "refresh_after_group_cascade gid t =
    (let to_drop = map r_id (filter (\<lambda>r. r_group_id r = gid) (routes t));
         t1 = (if to_drop \<noteq> []
               then evict to_drop (t\<lparr>routes := filter (\<lambda>r. r_group_id r \<noteq> gid) (routes t)\<rparr>) else t)
     in (t1\<lparr>revalidated_at := AList.delete gid (revalidated_at t1)\<rparr>,
         with_routes to_drop (for_group gid)))"

definition refresh_after_group_rename ::
  "string \<Rightarrow> string \<Rightarrow> 'c route_table \<Rightarrow> 'c route_table \<times> route_invalidation" where
  "refresh_after_group_rename gid new_name t =
    (t\<lparr>routes := map (\<lambda>r. if r_group_id r = gid then r\<lparr>r_group_name := new_name\<rparr> else r) (routes t)\<rparr>,
     for_group gid)"

text \<open>The subscriber's reconnect delay, in milliseconds, after a session that ended
  cleanly or failed.\<close>

definition RECONNECT_BACKOFF_START :: nat where "RECONNECT_BACKOFF_START = 250"
definition RECONNECT_BACKOFF_MAX :: nat where "RECONNECT_BACKOFF_MAX = 30 * 1000"

definition next_backoff :: "bool \<Rightarrow> nat \<Rightarrow> nat" where
  "next_backoff ok backoff =
    (if ok then RECONNECT_BACKOFF_START else min (backoff * 2) RECONNECT_BACKOFF_MAX)"

section \<open>Which route answers\<close>

definition route_accepts :: "route \<Rightarrow> string \<times> string \<Rightarrow> bool" where
  "route_accepts r q \<longleftrightarrow> methods_match (r_methods r) (fst q) \<and>
     (\<exists>p. pattern_parse (r_path r) = Inr p \<and> matches_path p (snd q))"

definition route_rank :: "route \<Rightarrow> nat option" where
  "route_rank r = (case pattern_parse (r_path r) of
      Inl e \<Rightarrow> None
    | Inr p \<Rightarrow> if has_tail p then Some (length (segments p)) else None)"

definition admissible_route :: "route \<Rightarrow> bool" where
  "admissible_route r \<longleftrightarrow> validate_methods (r_methods r) = Inr (r_methods r)
     \<and> (\<exists>p. pattern_parse (r_path r) = Inr p)"

lemma validate_methods_upper:
  assumes "validate_methods ms = Inr ms"
  shows "upper_methods ms"
proof -
  have f: "List.find (\<lambda>m. m = [] \<or> (m \<noteq> ''ANY'' \<and>
      \<not> list_all (\<lambda>c. is_upper c \<or> is_digit c \<or> c = CHR ''-'') m)) ms = None" "ms \<noteq> []"
    using assms by (auto simp: validate_methods_def split: if_splits option.splits)
  have c: "\<not> is_lower c" if "is_upper c \<or> is_digit c \<or> c = CHR ''-''" for c
    using that by (auto simp: is_lower_def is_upper_def is_digit_def)
  have any: "list_all (\<lambda>c. \<not> is_lower c) ''ANY''" by code_simp
  have "list_all (\<lambda>c. \<not> is_lower c) m" if m: "m \<in> set ms" for m
  proof (cases "m = ''ANY''")
    case False
    then have "list_all (\<lambda>c. is_upper c \<or> is_digit c \<or> c = CHR ''-'') m"
      using f(1) m unfolding find_None_iff by blast
    then show ?thesis using c by (auto simp: list_all_iff)
  qed (use any in simp)
  then show ?thesis using f(2) by (simp add: upper_methods_def list_all_iff)
qed

lemma parsed_wf: "pattern_parse r = Inr p \<Longrightarrow> wf_segments (segments p)"
  using pattern_parse_wf by (auto simp: wf_pattern_def)

lemma same_rank_clash:
  assumes "admissible_route a" "admissible_route b" "route_rank a = route_rank b"
    and "route_accepts a q" "route_accepts b q"
  shows "clash a b"
proof -
  obtain p p' where p: "pattern_parse (r_path a) = Inr p" "pattern_parse (r_path b) = Inr p'"
    and m: "matches_path p (snd q)" "matches_path p' (snd q)"
    using assms(4,5) by (auto simp: route_accepts_def)
  note wf = parsed_wf[OF p(1)] parsed_wf[OF p(2)]
  have t: "has_tail p = has_tail p'"
    using assms(3) p by (auto simp: route_rank_def split: if_splits)
  have len: "length (segments p) = length (segments p')"
  proof (cases "has_tail p")
    case True
    then show ?thesis using assms(3) p t by (auto simp: route_rank_def)
  next
    case False
    then show ?thesis using m matches_specific[OF wf(1)] matches_specific[OF wf(2)] t
      by (metis list_all2_lengthD)
  qed
  have "methods_match (r_methods a) (fst q)" "methods_match (r_methods b) (fst q)"
    using assms(4,5) by (auto simp: route_accepts_def)
  then have "routes_conflict (r_methods a) p (r_methods b) p'"
    using routes_conflict_complete[OF wf t len] m validate_methods_upper assms(1,2)
    by (auto simp: admissible_route_def)
  then show ?thesis using p by (simp add: clash_def)
qed

interpretation route_matching: ranked_matching route_accepts clash admissible_route route_rank
  by unfold_locales (auto intro: same_rank_clash simp: clash_sym)

lemma conflict_free_pairwise: "conflict_free rs = pairwise_free clash rs"
  by (induction rs) auto

section \<open>The matching loop\<close>

definition matched_ok :: "string \<Rightarrow> string \<Rightarrow> matched_route \<Rightarrow> bool" where
  "matched_ok m path mr \<longleftrightarrow> methods_match (r_methods (mr_route mr)) m \<and>
     (\<exists>p. pattern_parse (r_path (mr_route mr)) = Inr p \<and> mr_matched_pattern mr = raw p
        \<and> match_path p path = Inr (Some (mr_path_params mr)))"

abbreviation eligible :: "string option \<Rightarrow> string \<Rightarrow> string \<Rightarrow> route \<Rightarrow> bool" where
  "eligible g m path r \<equiv> in_scope g r \<and> route_accepts r (m, path)"

lemma match_path_parsed:
  assumes "pattern_parse r = Inr p"
  obtains c where "match_path p path = Inr c"
proof (cases "has_tail p")
  case True
  obtain pre t where pt: "segments p = pre @ [Tail t]" "tail_free pre"
    using wf_tail_split[OF parsed_wf[OF assms] True] by metis
  show ?thesis by (rule that[OF match_path_tail[OF pt, unfolded Let_def]])
next
  case False
  show ?thesis by (rule that[OF match_path_specific[OF parsed_wf[OF assms] False]])
qed

text \<open>The outcome of the loop started with \<^theory_text>\<open>best\<close>, for the routes still to come.\<close>

inductive scan_result ::
  "string option \<Rightarrow> string \<Rightarrow> string \<Rightarrow> (nat \<times> matched_route) option \<Rightarrow> route list
   \<Rightarrow> panic + matched_route option \<Rightarrow> bool"
  for g m path best rs where
  nothing: "\<lbrakk>best = None; \<And>x. x \<in> set rs \<Longrightarrow> \<not> eligible g m path x\<rbrakk>
     \<Longrightarrow> scan_result g m path best rs (Inr None)"
| found: "\<lbrakk>preferred (eligible g m path) route_rank rs (mr_route mr); matched_ok m path mr;
     \<And>n b. best = Some (n, b) \<Longrightarrow> beats_or_ties (route_rank (mr_route mr)) (Some n)\<rbrakk>
     \<Longrightarrow> scan_result g m path best rs (Inr (Some mr))"
| kept: "\<lbrakk>best = Some (n, mr);
     \<And>x. \<lbrakk>x \<in> set rs; eligible g m path x\<rbrakk> \<Longrightarrow> beats_or_ties (Some n) (route_rank x)\<rbrakk>
     \<Longrightarrow> scan_result g m path best rs (Inr (Some mr))"

inductive_cases scan_result_Inl: "scan_result g m path best rs (Inl x)"

lemma scan_result_skip:
  assumes "\<not> eligible g m path r" "scan_result g m path best rs res"
  shows "scan_result g m path best (r # rs) res"
  using assms(2)
proof cases
  case nothing
  then have e: "best = None" "res = Inr None" "\<And>x. x \<in> set rs \<Longrightarrow> \<not> eligible g m path x" by blast+
  have "\<not> eligible g m path x" if "x \<in> set (r # rs)" for x
    using that e(3) assms(1) by auto
  then show ?thesis unfolding e(2) by (rule scan_result.nothing[OF e(1)])
next
  case (found mr)
  have "preferred (eligible g m path) route_rank (r # rs) (mr_route mr)"
    unfolding preferred_def using found(2) assms(1) unfolding preferred_def by fastforce
  then show ?thesis using found(1,3,4) scan_result.found by blast
next
  case (kept n mr)
  have "beats_or_ties (Some n) (route_rank x)" if "x \<in> set (r # rs)" "eligible g m path x" for x
    using that kept(3) assms(1) by auto
  then show ?thesis unfolding kept(1) by (rule scan_result.kept[OF kept(2)])
qed

text \<open>An eligible tail that is deeper than the best one so far, and one that is not.\<close>

lemma scan_result_deeper:
  assumes r: "eligible g m path r" "route_rank r = Some n" "matched_ok m path mr" "mr_route mr = r"
    and new: "\<And>k b. best = Some (k, b) \<Longrightarrow> k < n"
    and rest: "scan_result g m path (Some (n, mr)) rs res"
  shows "scan_result g m path best (r # rs) res"
  using rest
proof cases
  case nothing
  then show ?thesis by simp
next
  case (found mr')
  have b: "beats_or_ties (route_rank (mr_route mr')) (Some n)" using found(4) by simp
  have "preferred (eligible g m path) route_rank (r # rs) (mr_route mr')"
    using found(2) b r(2) by (auto simp: preferred_def)
  moreover have "beats_or_ties (route_rank (mr_route mr')) (Some k)" if "best = Some (k, c)" for k c
    using b new[OF that] by (cases "route_rank (mr_route mr')") auto
  ultimately show ?thesis unfolding found(1) using found(3) by (intro scan_result.found)
next
  case (kept k mr')
  have "preferred (eligible g m path) route_rank (r # rs) r"
    using r kept(2,3) by (auto simp: preferred_def)
  moreover have "beats_or_ties (route_rank r) (Some j)" if "best = Some (j, b)" for j b
    using new[OF that] r(2) by simp
  moreover have "mr' = mr" using kept(2) by simp
  ultimately show ?thesis unfolding kept(1) using r(3,4) by (intro scan_result.found) simp_all
qed

lemma scan_result_shallower:
  assumes r: "route_rank r = Some n" and b: "best = Some (len, b)" "n \<le> len"
    and rest: "scan_result g m path best rs res"
  shows "scan_result g m path best (r # rs) res"
  using rest
proof cases
  case nothing
  then show ?thesis using b by simp
next
  case (found mr)
  have "beats_or_ties (route_rank (mr_route mr)) (Some n)"
    using found(4)[OF b(1)] b(2) by (cases "route_rank (mr_route mr)") auto
  then have "preferred (eligible g m path) route_rank (r # rs) (mr_route mr)"
    using found(2) r by (auto simp: preferred_def)
  then show ?thesis unfolding found(1) using found(3,4) by (intro scan_result.found)
next
  case (kept k mr)
  have "beats_or_ties (Some k) (route_rank x)" if "x \<in> set (r # rs)" "eligible g m path x" for x
    using that kept(2,3) r b by auto
  then show ?thesis unfolding kept(1) by (rule scan_result.kept[OF kept(2)])
qed

lemma scan_not_eligible:
  assumes "\<not> eligible g m path r"
  shows "scan_routes g m path best (r # rs) = scan_routes g m path best rs"
proof (cases "in_scope g r \<and> (\<exists>p. pattern_parse (r_path r) = Inr p) \<and> methods_match (r_methods r) m")
  case True
  then obtain p where p: "pattern_parse (r_path r) = Inr p" by blast
  obtain c where c: "match_path p path = Inr c" using match_path_parsed[OF p] by metis
  have "c = None" using assms True p c by (cases c) (auto simp: route_accepts_def matches_path_def)
  then show ?thesis using True p c by simp
qed (auto split: sum.splits)

lemma scan_routes_result: "scan_result g m path best rs (scan_routes g m path best rs)"
proof (induction rs arbitrary: best)
  case Nil
  then show ?case
    by (cases best) (auto intro: scan_result.nothing scan_result.kept)
next
  case (Cons r rs)
  show ?case
  proof (cases "eligible g m path r")
    case False
    then show ?thesis using scan_result_skip[OF False Cons.IH] scan_not_eligible by metis
  next
    case True
    then obtain p cs where p: "in_scope g r" "pattern_parse (r_path r) = Inr p"
      "methods_match (r_methods r) m" "match_path p path = Inr (Some cs)"
      by (auto simp: route_accepts_def matches_path_def)
    let ?mr = "\<lparr>mr_route = r, mr_matched_pattern = raw p, mr_path_params = cs\<rparr>"
    have ok: "matched_ok m path ?mr" using p by (simp add: matched_ok_def)
    show ?thesis
    proof (cases "has_tail p")
      case False
      then have "route_rank r = None" "scan_routes g m path best (r # rs) = Inr (Some ?mr)"
        using p by (simp_all add: route_rank_def)
      moreover have "preferred (eligible g m path) route_rank (r # rs) r"
        using True calculation(1) by (simp add: preferred_def)
      ultimately show ?thesis using ok by (auto intro: scan_result.found)
    next
      case tail: True
      let ?n = "length (segments p)"
      have rank: "route_rank r = Some ?n" using p tail by (simp add: route_rank_def)
      show ?thesis
      proof (cases "case best of None \<Rightarrow> True | Some (len, _) \<Rightarrow> ?n > len")
        case new: True
        then have e: "scan_routes g m path best (r # rs) = scan_routes g m path (Some (?n, ?mr)) rs"
          using p tail by simp
        have "k < ?n" if "best = Some (k, b)" for k b using new that by simp
        then show ?thesis unfolding e
          by (intro scan_result_deeper[OF True rank ok _ _ Cons.IH]) simp_all
      next
        case old: False
        then obtain len b where b: "best = Some (len, b)" "?n \<le> len" by (auto split: option.splits)
        then have e: "scan_routes g m path best (r # rs) = scan_routes g m path best rs"
          using p tail by simp
        show ?thesis unfolding e by (rule scan_result_shallower[OF rank b Cons.IH])
      qed
    qed
  qed
qed

lemma find_match_outcome:
  obtains out where "find_match_filtered t g m path = Inr out"
    "case out of
       None \<Rightarrow> \<forall>x \<in> set (routes t). \<not> eligible g m path x
     | Some mr \<Rightarrow> preferred (eligible g m path) route_rank (routes t) (mr_route mr) \<and> matched_ok m path mr"
proof -
  have "scan_result g m path None (routes t) (scan_routes g m path None (routes t))"
    by (rule scan_routes_result)
  then show ?thesis
  proof cases
    case nothing
    then show ?thesis using that[of None] by (simp add: find_match_filtered_def)
  next
    case (found mr)
    then show ?thesis using that[of "Some mr"] by (simp add: find_match_filtered_def)
  next
    case (kept n mr)
    then show ?thesis by simp
  qed
qed

text \<open>C19: Matching in a group never panics.  It answers nothing exactly when no route of
  the group accepts the request; otherwise it answers a route of the group that accepts
  it, with the captures of its pattern, and no accepting route of the group takes
  precedence: a specific route beats every tail, and a tail with more segments beats one
  with fewer.\<close>

theorem find_match_in_group_correct:
  "\<exists>out. find_match_in_group t g m path = Inr out \<and>
    (case out of
       None \<Rightarrow> \<forall>x \<in> set (routes t). r_group_name x = g \<longrightarrow> \<not> route_accepts x (m, path)
     | Some mr \<Rightarrow>
         preferred (\<lambda>x. r_group_name x = g \<and> route_accepts x (m, path)) route_rank (routes t) (mr_route mr)
         \<and> matched_ok m path mr)"
proof -
  have e: "eligible (Some g) m path = (\<lambda>x. r_group_name x = g \<and> route_accepts x (m, path))" by auto
  obtain out where "find_match_filtered t (Some g) m path = Inr out"
    "case out of
       None \<Rightarrow> \<forall>x \<in> set (routes t). \<not> eligible (Some g) m path x
     | Some mr \<Rightarrow> preferred (eligible (Some g) m path) route_rank (routes t) (mr_route mr) \<and> matched_ok m path mr"
    by (rule find_match_outcome)
  then show ?thesis by (auto simp: find_match_in_group_def e split: option.splits)
qed

definition demo_table :: "unit route_table" where
  "demo_table = \<lparr>routes = [demo_route_record ulid_b ''/x/{rest...}'' 1, demo_route_record ulid_c ''/x/{id}'' 2],
     components = [], engine_js = [], revalidated_at = [], revalidate_interval = 5\<rparr>"

lemma demo_table_match:
  "find_match_in_group demo_table ''demo'' ''get'' ''/x/7'' = Inr (Some
     \<lparr>mr_route = demo_route_record ulid_c ''/x/{id}'' 2, mr_matched_pattern = ''/x/{id}'',
      mr_path_params = [(''id'', ''7'')]\<rparr>)"
proof -
  have p: "pattern_parse ''/x/{rest...}'' = Inr \<lparr>raw = ''/x/{rest...}'', segments = [Literal ''x'', Tail ''rest'']\<rparr>"
    "pattern_parse ''/x/{id}'' = Inr \<lparr>raw = ''/x/{id}'', segments = [Literal ''x'', Param ''id'']\<rparr>"
    by code_simp+
  have mm: "methods_match [''GET''] ''get''" by code_simp
  have q: "match_path \<lparr>raw = ''/x/{rest...}'', segments = [Literal ''x'', Tail ''rest'']\<rparr> ''/x/7'' = Inr (Some [(''rest'', ''7'')])"
    "match_path \<lparr>raw = ''/x/{id}'', segments = [Literal ''x'', Param ''id'']\<rparr> ''/x/7'' = Inr (Some [(''id'', ''7'')])"
    by code_simp+
  show ?thesis
    by (simp add: find_match_in_group_def find_match_filtered_def demo_table_def demo_route_record_def p mm q
        has_tail_def)
qed

theorem find_match_in_group_correct_witness:
  "preferred (\<lambda>x. r_group_name x = ''demo'' \<and> route_accepts x (''get'', ''/x/7'')) route_rank
     (routes demo_table) (demo_route_record ulid_c ''/x/{id}'' 2)"
  using find_match_in_group_correct[of demo_table "''demo''" "''get''" "''/x/7''"] demo_table_match by auto

lemma preferred_filter:
  "preferred (\<lambda>x. P x \<and> acc x) rank rs r = preferred (\<lambda>x. P x \<and> acc x) rank (filter P rs) r"
  by (auto simp: preferred_def)

lemma matched_ok_unique:
  assumes "matched_ok m path a" "matched_ok m path b" "mr_route a = mr_route b"
  shows "a = b"
  using assms by (auto simp: matched_ok_def)

text \<open>Matching does not depend on the order of the table.  When the routes of a group
  are admissible and free of conflicts, any two tables that hold the same routes give the
  same answer for every request to the group, so creation order, reload order and hash
  order never decide which handler runs.\<close>

theorem find_match_order_independent:
  assumes "conflict_free (filter (\<lambda>r. r_group_name r = g) (routes t))"
    and "list_all admissible_route (filter (\<lambda>r. r_group_name r = g) (routes t))"
    and "set (routes t) = set (routes t')"
  shows "find_match_in_group t g m path = find_match_in_group t' g m path"
proof -
  let ?F = "\<lambda>t. filter (in_scope (Some g)) (routes t)"
  have F: "?F t = filter (\<lambda>r. r_group_name r = g) (routes t)" by (simp cong: filter_cong)
  obtain out where o: "find_match_filtered t (Some g) m path = Inr out"
    "case out of None \<Rightarrow> \<forall>x \<in> set (routes t). \<not> eligible (Some g) m path x
     | Some mr \<Rightarrow> preferred (eligible (Some g) m path) route_rank (routes t) (mr_route mr) \<and> matched_ok m path mr"
    by (rule find_match_outcome)
  obtain out' where o': "find_match_filtered t' (Some g) m path = Inr out'"
    "case out' of None \<Rightarrow> \<forall>x \<in> set (routes t'). \<not> eligible (Some g) m path x
     | Some mr \<Rightarrow> preferred (eligible (Some g) m path) route_rank (routes t') (mr_route mr) \<and> matched_ok m path mr"
    by (rule find_match_outcome)
  have "out = out'"
  proof (cases out)
    case None
    then have "\<forall>x \<in> set (routes t'). \<not> eligible (Some g) m path x" using o(2) assms(3) by simp
    then show ?thesis using None o'(2) by (cases out') (auto simp: preferred_def)
  next
    case (Some a)
    then have pa: "preferred (eligible (Some g) m path) route_rank (?F t) (mr_route a)" "matched_ok m path a"
      using o(2) preferred_filter[of "in_scope (Some g)"] by auto
    then obtain b where b: "out' = Some b" using o'(2) assms(3)
      by (cases out') (auto simp: preferred_def)
    then have "preferred (eligible (Some g) m path) route_rank (routes t) (mr_route b)" "matched_ok m path b"
      using o'(2) preferred_set[OF assms(3)] by auto
    then have pb: "preferred (eligible (Some g) m path) route_rank (?F t) (mr_route b)" "matched_ok m path b"
      using preferred_filter[of "in_scope (Some g)"] by auto
    have "mr_route a = mr_route b"
      using route_matching.preferred_unique[OF _ _ pa(1) pb(1)] assms(1,2) F
      by (simp add: conflict_free_pairwise list_all_iff)
    then show ?thesis using matched_ok_unique[OF pa(2) pb(2)] Some b by simp
  qed
  then show ?thesis using o(1) o'(1) by (simp add: find_match_in_group_def)
qed

theorem find_match_order_independent_witness:
  "find_match_in_group (demo_table\<lparr>routes := rev (routes demo_table)\<rparr>) ''demo'' ''get'' ''/x/7'' = Inr (Some
     \<lparr>mr_route = demo_route_record ulid_c ''/x/{id}'' 2, mr_matched_pattern = ''/x/{id}'',
      mr_path_params = [(''id'', ''7'')]\<rparr>)"
proof -
  let ?t' = "demo_table\<lparr>routes := rev (routes demo_table)\<rparr>"
  have m: "validate_methods [''GET''] = Inr [''GET'']" by code_simp
  have p: "pattern_parse ''/x/{rest...}'' = Inr \<lparr>raw = ''/x/{rest...}'', segments = [Literal ''x'', Tail ''rest'']\<rparr>"
    "pattern_parse ''/x/{id}'' = Inr \<lparr>raw = ''/x/{id}'', segments = [Literal ''x'', Param ''id'']\<rparr>"
    by code_simp+
  have c: "conflict_free (filter (\<lambda>r. r_group_name r = ''demo'') (routes demo_table))"
    by (simp add: demo_table_def demo_route_record_def clash_def p routes_conflict_def patterns_conflict_def has_tail_def)
  have w: "list_all admissible_route (filter (\<lambda>r. r_group_name r = ''demo'') (routes demo_table))"
    by (simp add: demo_table_def demo_route_record_def admissible_route_def p m)
  have e: "set (routes demo_table) = set (routes ?t')" by simp
  show ?thesis
    by (rule trans[OF find_match_order_independent[OF c w e, symmetric] demo_table_match])
qed

section \<open>Reloads\<close>

lemma routes_in_group_stateless: "routes_in_group env gid s = (fst (routes_in_group env gid s), s)"
  using routes_in_group_state[of env gid s] by (metis prod.collapse)

lemma foldl_delete:
  "map_of (foldl (\<lambda>c i. AList.delete i c) al ids) i = (if i \<in> set ids then None else map_of al i)"
  by (induction ids arbitrary: al) auto

lemma evict_lookup:
  "map_of (components (evict ids t)) i = (if i \<in> set ids then None else map_of (components t) i)"
  "map_of (engine_js (evict ids t)) i = (if i \<in> set ids then None else map_of (engine_js t) i)"
  "routes (evict ids t) = routes t" "revalidated_at (evict ids t) = revalidated_at t"
  by (simp_all add: evict_def foldl_delete)

lemma reload_group_stored:
  assumes "group_ok env s gid rs"
  shows "reload_group env s gid t =
    (True, t\<lparr>routes := filter (\<lambda>r. r_group_id r \<noteq> gid) (routes t) @ rs\<rparr>)"
  using routes_in_group_stored[of env s gid rs] assms by (simp add: reload_group_def group_ok_def)

lemma filter_own_group: "list_all (well_formed_route gid) rs \<Longrightarrow> filter (\<lambda>r. r_group_id r = gid) rs = rs"
  by (induction rs) (auto simp: well_formed_route_def)

lemma filter_other_group:
  "list_all (well_formed_route gid) rs \<Longrightarrow> filter (\<lambda>r. r_group_id r \<noteq> gid) rs = []"
  by (induction rs) (auto simp: well_formed_route_def)



text \<open>The read-through floor over a sequence of misses: how many reloads it performs.\<close>

fun reload_count :: "registry_env \<Rightarrow> string \<Rightarrow> (nat \<times> mem_store) list \<Rightarrow> 'c route_table \<Rightarrow> nat" where
  "reload_count env gid [] t = 0"
| "reload_count env gid ((now, s) # misses) t =
    (case revalidate_group env s now gid t of
       (done, t') \<Rightarrow> (if done then 1 else 0) + reload_count env gid misses t')"

lemma revalidate_interval_kept:
  "revalidate_group env s now gid t = (b, t') \<Longrightarrow> revalidate_interval t' = revalidate_interval t"
  by (auto simp: revalidate_group_def reload_group_def split: if_splits sum.splits)

lemma revalidate_claims_slot:
  assumes "revalidate_group env s now gid t = (b, t')"
  shows "(t' = t \<and> \<not> b \<and> (\<exists>p. map_of (revalidated_at t) gid = Some p \<and> now - p < revalidate_interval t))
    \<or> map_of (revalidated_at t') gid = Some now"
  using assms by (auto simp: revalidate_group_def reload_group_def split: if_splits sum.splits option.splits)

lemma no_reload_in_interval:
  assumes "map_of (revalidated_at t) gid = Some p" "0 < revalidate_interval t"
    and "\<forall>(now, s) \<in> set misses. now < p + revalidate_interval t"
  shows "reload_count env gid misses t = 0"
  using assms
proof (induction misses)
  case (Cons x misses)
  obtain now s where x: "x = (now, s)" by force
  have "now - p < revalidate_interval t" using Cons.prems(2,3) x by auto
  then have "revalidate_group env s now gid t = (False, t)"
    using Cons.prems(1) by (simp add: revalidate_group_def)
  then show ?case using Cons x by simp
qed simp

text \<open>Unmatched traffic cannot turn into a storage amplifier.  However many misses a
  group receives within one revalidation interval, and whatever the storage answers to
  each of them, at most one reloads the group.\<close>

theorem at_most_one_reload_per_interval:
  assumes "0 < revalidate_interval t"
    and "sorted (map fst misses)"
    and "misses \<noteq> [] \<longrightarrow> fst (last misses) < fst (hd misses) + revalidate_interval t"
  shows "reload_count env gid misses t \<le> 1"
  using assms
proof (induction misses)
  case (Cons x misses)
  obtain now s where x: "x = (now, s)" by force
  obtain b t' where r: "revalidate_group env s now gid t = (b, t')" by force
  have i: "revalidate_interval t' = revalidate_interval t" by (rule revalidate_interval_kept[OF r])
  have le: "fst y \<le> fst (last (x # misses))" if "y \<in> set misses" for y
    using that Cons.prems(2) by (induction misses rule: rev_induct) (auto simp: sorted_append)
  show ?case
  proof (cases "t' = t \<and> \<not> b")
    case True
    have "misses \<noteq> [] \<longrightarrow> fst (last misses) < fst (hd misses) + revalidate_interval t"
      using Cons.prems(2,3) by (cases misses) auto
    then have "reload_count env gid misses t \<le> 1" using Cons by simp
    then show ?thesis using x r True by simp
  next
    case False
    then have slot: "map_of (revalidated_at t') gid = Some now"
      using revalidate_claims_slot[OF r] by blast
    have "\<forall>(n, s) \<in> set misses. n < now + revalidate_interval t'"
      using le Cons.prems(3) x i by fastforce
    then have "reload_count env gid misses t' = 0"
      using no_reload_in_interval[OF slot] Cons.prems(1) i by simp
    then show ?thesis using x r by simp
  qed
qed simp

theorem at_most_one_reload_per_interval_witness:
  "reload_count sample_env ulid_a [(10, demo_store1), (12, demo_store1), (14, demo_store1)] demo_table \<le> 1"
  by (rule at_most_one_reload_per_interval) (simp_all add: demo_table_def)

section \<open>Near misses\<close>

text \<open>A segment that a request part does not contradict.\<close>

fun seg_agrees :: "segment \<Rightarrow> string \<Rightarrow> bool" where
  "seg_agrees (Literal l) part = (l = part)"
| "seg_agrees (Param n) part = True"
| "seg_agrees (Tail n) part = True"

lemma segment_diff_rest:
  "\<lbrakk>length ss = length parts; segment_diff i (Some d) ss parts = Some e\<rbrakk>
   \<Longrightarrow> e = d \<and> list_all2 seg_agrees ss parts"
proof (induction ss parts arbitrary: i rule: list_induct2')
  case (4 s ss q qs)
  then show ?case by (cases s) (auto split: if_splits)
qed auto

lemma segment_diff_Some:
  "\<lbrakk>length ss = length parts; segment_diff i None ss parts = Some (k, expected, got)\<rbrakk> \<Longrightarrow>
   \<exists>a b pa pb. ss = a @ Literal expected # b \<and> parts = pa @ got # pb \<and> length pa = length a \<and> k = i + length a
     \<and> list_all2 seg_agrees a pa \<and> list_all2 seg_agrees b pb \<and> expected \<noteq> got
     \<and> (starts_with got expected \<or> starts_with expected got)"
proof (induction ss parts arbitrary: i rule: list_induct2')
  case (4 s ss q qs)
  have skip: ?case if sk: "seg_agrees s q" "segment_diff (i + 1) None ss qs = Some (k, expected, got)"
  proof -
    obtain a b pa pb where h: "ss = a @ Literal expected # b" "qs = pa @ got # pb" "length pa = length a"
      "k = i + 1 + length a" "list_all2 seg_agrees a pa" "list_all2 seg_agrees b pb" "expected \<noteq> got"
      "starts_with got expected \<or> starts_with expected got"
      using "4.IH"[of "i + 1"] "4.prems"(1) sk(2) by auto
    show ?thesis
      by (rule exI[of _ "s # a"], rule exI[of _ b], rule exI[of _ "q # pa"], rule exI[of _ pb])
        (use h sk(1) in simp)
  qed
  show ?case
  proof (cases s)
    case (Literal l)
    show ?thesis
    proof (cases "l = q")
      case True
      then show ?thesis using skip "4.prems"(2) Literal by simp
    next
      case False
      then have d: "starts_with q l \<or> starts_with l q"
        "segment_diff (i + 1) (Some (i, l, q)) ss qs = Some (k, expected, got)"
        using "4.prems"(2) Literal by (auto split: if_splits)
      then have "(k, expected, got) = (i, l, q)" "list_all2 seg_agrees ss qs"
        using segment_diff_rest[OF _ d(2)] "4.prems"(1) by auto
      then show ?thesis using d(1) False Literal
        by (intro exI[of _ "[]"] exI[of _ ss] exI[of _ qs]) simp
    qed
  qed (use skip "4.prems"(2) in auto)
qed auto

definition near_miss_ok :: "string \<Rightarrow> string \<Rightarrow> near_miss \<Rightarrow> bool" where
  "near_miss_ok m path nm \<longleftrightarrow> (\<exists>p. pattern_parse (r_path (nm_route nm)) = Inr p \<and>
     (case nm_reason nm of
        MethodMismatch ms got \<Rightarrow> ms = r_methods (nm_route nm) \<and> got = m \<and> matches_path p path
      | PrefixMatch k expected got \<Rightarrow> \<not> matches_path p path \<and>
          (\<exists>a b pa pb. segments p = a @ Literal expected # b
             \<and> path_parts (trim_slash path) = pa @ got # pb \<and> length a = k \<and> length pa = k
             \<and> list_all2 seg_agrees a pa \<and> list_all2 seg_agrees b pb
             \<and> expected \<noteq> got \<and> (starts_with got expected \<or> starts_with expected got))))"

lemma near_misses_ok:
  "\<exists>near. near_misses g m path rs = Inr near \<and>
     (\<forall>nm \<in> set near. nm_route nm \<in> set rs \<and> in_scope g (nm_route nm) \<and> near_miss_ok m path nm)"
proof (induction rs)
  case (Cons r rs)
  then obtain near where IH: "near_misses g m path rs = Inr near"
    "\<forall>nm \<in> set near. nm_route nm \<in> set rs \<and> in_scope g (nm_route nm) \<and> near_miss_ok m path nm"
    by blast
  show ?case
  proof (cases "in_scope g r \<and> (\<exists>p. pattern_parse (r_path r) = Inr p)")
    case False
    then show ?thesis using IH by (cases "pattern_parse (r_path r)") auto
  next
    case True
    then obtain p where p: "in_scope g r" "pattern_parse (r_path r) = Inr p" by blast
    obtain c where c: "match_path p path = Inr c" using match_path_parsed[OF p(2)] by metis
    consider (hit) cs where "c = Some cs" | (near) k e d where "c = None" "prefix_segment_diff p path = Some (k, e, d)"
      | (none) "c = None" "prefix_segment_diff p path = None" by (cases c; cases "prefix_segment_diff p path") auto
    then show ?thesis
    proof cases
      case hit
      have "near_miss_ok m path \<lparr>nm_route = r, nm_reason = MethodMismatch (r_methods r) m\<rparr>"
        using p c hit by (simp add: near_miss_ok_def matches_path_def)
      then show ?thesis using IH p c hit by simp
    next
      case near
      have "segment_diff 0 None (segments p) (path_parts (trim_slash path)) = Some (k, e, d)"
        "length (segments p) = length (path_parts (trim_slash path))"
        using near(2) by (auto simp: prefix_segment_diff_def Let_def split: if_splits)
      from segment_diff_Some[OF this(2,1)]
      have "near_miss_ok m path \<lparr>nm_route = r, nm_reason = PrefixMatch k e d\<rparr>"
        using p c near(1) by (auto simp: near_miss_ok_def matches_path_def)
      then show ?thesis using IH p c near by simp
    next
      case none
      then show ?thesis using IH p c by auto
    qed
  qed
qed simp

text \<open>The hints of an unmatched request are at most twenty and all true: each names a
  route of the group, and is either a route whose pattern matches the path, with its
  methods, or a route that differs from the path in exactly one literal segment, where the
  one text is a prefix of the other.\<close>

theorem near_misses_bounded_and_true:
  "\<exists>near. compute_near_misses_in_group t g m path = Inr near \<and> length near \<le> 20 \<and>
    (\<forall>nm \<in> set near. nm_route nm \<in> set (routes t) \<and> r_group_name (nm_route nm) = g
       \<and> near_miss_ok m path nm)"
proof -
  obtain near where n: "near_misses (Some g) m path (routes t) = Inr near"
    "\<forall>nm \<in> set near. nm_route nm \<in> set (routes t) \<and> in_scope (Some g) (nm_route nm) \<and> near_miss_ok m path nm"
    using near_misses_ok by blast
  have "set (take 20 near) \<subseteq> set near" by (rule set_take_subset)
  then show ?thesis using n
    by (auto simp: compute_near_misses_in_group_def compute_near_misses_filtered_def NEAR_MISS_LIMIT_def)
qed

theorem near_misses_bounded_and_true_witness:
  "\<exists>near. compute_near_misses_in_group demo_table ''demo'' ''POST'' ''/x/7'' = Inr near \<and> length near \<le> 20"
  using near_misses_bounded_and_true[of demo_table "''demo''" "''POST''" "''/x/7''"] by blast

section \<open>Table and storage together\<close>

text \<open>The table agrees with storage on a group.\<close>

definition table_in_step :: "registry_env \<Rightarrow> mem_store \<Rightarrow> string \<Rightarrow> 'c route_table \<Rightarrow> bool" where
  "table_in_step env s gid t \<longleftrightarrow> (\<exists>rs. group_ok env s gid rs \<and> filter (\<lambda>r. r_group_id r = gid) (routes t) = rs)"

text \<open>A replica that serves a create stays in step with storage: if its table held
  exactly the stored routes of a group, then after a successful \<^theory_text>\<open>create_route\<close> and the
  refresh that follows it the table holds exactly the stored routes of that group again,
  still free of conflicts, and the message it publishes names the group that changed.\<close>

theorem create_and_refresh_in_step:
  assumes "env_ok env" "ulid_text new_rid" "map_of s (route_key new_rid) = None"
    and "create_route env gen new_gid new_rid now params s = (Inr r, s')" "wf_route r"
    and "table_in_step env s gid t"
  shows "table_in_step env s' gid (fst (refresh_after_create r t))
    \<and> ri_group_id (snd (refresh_after_create r t)) = r_group_id r"
proof -
  obtain rs where rs: "group_ok env s gid rs" "filter (\<lambda>r. r_group_id r = gid) (routes t) = rs"
    using assms(6) by (auto simp: table_in_step_def)
  have "group_ok env s' gid (if gid = r_group_id r then rs @ [r] else rs)"
    by (rule create_route_group_ok[OF assms(1-5) rs(1)])
  then show ?thesis using rs(2)
    by (auto simp: table_in_step_def refresh_after_create_def for_group_def)
qed

theorem create_and_refresh_in_step_witness:
  "\<exists>s'. demo_route ulid_b ''/x'' demo_store = (Inr (demo_route_record ulid_b ''/x'' 1), s') \<and>
     table_in_step sample_env s' ulid_a
       (fst (refresh_after_create (demo_route_record ulid_b ''/x'' 1) (demo_table\<lparr>routes := []\<rparr>)))"
proof -
  obtain s' where d: "demo_route ulid_b ''/x'' demo_store = (Inr (demo_route_record ulid_b ''/x'' 1), s')"
    using demo_create by blast
  have t: "table_in_step sample_env demo_store ulid_a (demo_table\<lparr>routes := []\<rparr>)"
    using demo_empty_group by (auto simp: table_in_step_def)
  from create_and_refresh_in_step[OF sample_env_ok sample_ulids(2) demo_store_cells(2)
      d[unfolded demo_route_def] demo_record_wf t] d
  show ?thesis by blast
qed

end
