(* ===== verification/Dry_Run.thy ===== *)
theory Dry_Run
  imports Host_State Wire Route_Table
begin

text \<open>Dry runs (\<^theory_text>\<open>dry_run.rs\<close>): a route's handler is run on a copy of its state under a
  throw-away root, its streamed output collected, and the copy deleted.

  A dry run leaves the stored state as it was and answers what the live route would answer;
  both are proved below for every handler.\<close>

section \<open>Model\<close>

record 'j dry_run_request =
  dq_method :: string
  dq_path :: string
  dq_headers :: pairs
  dq_body :: bytes
  dq_path_params :: "pairs option"
  dq_query :: pairs
  dq_kv_overrides :: "(string \<times> 'j wire_bytes) list"
  dq_gkv_overrides :: "(string \<times> 'j wire_bytes) list"

record dry_run_response =
  dp_status :: nat
  dp_headers :: pairs
  dp_body :: bytes
  dp_handler_logs :: "handler_log_entry list"
  dp_duration_ms :: nat
  dp_error :: "string option"
  dp_snapshot_keys :: nat

definition DRY_RUN_TTL_MS :: nat where "DRY_RUN_TTL_MS = 60000"

record run_ok =
  ro_status :: nat
  ro_headers :: pairs
  ro_body :: bytes
  ro_logs :: "log_record list"
  ro_snapshot_keys :: nat

record run_fail =
  rf_message :: string
  rf_logs :: "log_record list"
  rf_snapshot_keys :: nat

definition into_dry_log :: "log_record \<Rightarrow> handler_log_entry" where
  "into_dry_log r = \<lparr>hl_level = level_text (lr_level r), hl_message = lr_message r, hl_timestamp = lr_timestamp r\<rparr>"

definition failed :: "string \<Rightarrow> nat \<Rightarrow> run_fail" where
  "failed message keys = \<lparr>rf_message = message, rf_logs = [], rf_snapshot_keys = keys\<rparr>"

text \<open>\<^theory_text>\<open>ns\<close> names the namespace in messages; an in-memory write does not fail.\<close>

fun apply_overrides ::
  "('j, 'z) wire_lib_scheme \<Rightarrow> string \<Rightarrow> bucket \<Rightarrow> nat \<Rightarrow> (string \<times> 'j wire_bytes) list \<Rightarrow> (mem_store, run_fail, unit) io" where
  "apply_overrides lib ns b keys [] = ret ()"
| "apply_overrides lib ns b keys ((k, v) # rest) = (case into_bytes lib v of
      Inl e \<Rightarrow> raise (failed (''decode '' @ ns @ '' override '' @ key_debug lib k @ '': '' @ e) keys)
    | Inr bs \<Rightarrow> seq_io (map_err (\<lambda>e. failed (''apply '' @ ns @ '' override '' @ key_debug lib k) keys) (bucket_set b k bs))
        (apply_overrides lib ns b keys rest))"

definition dry_wit_request :: "(string \<Rightarrow> string) \<Rightarrow> (string \<Rightarrow> string) \<Rightarrow> route \<Rightarrow> 'j dry_run_request \<Rightarrow> wit_request" where
  "dry_wit_request upcase downcase r q =
    \<lparr>wq_method = upcase (dq_method q), wq_path = dq_path q, wq_matched_pattern = r_path r,
     wq_path_params = (case dq_path_params q of Some ps \<Rightarrow> ps | None \<Rightarrow> []), wq_query = dq_query q,
     wq_headers = map (\<lambda>(k, v). (downcase k, v)) (dq_headers q), wq_body = dq_body q\<rparr>"

text \<open>\<^theory_text>\<open>run_engine_in_snapshot\<close>: a streamed head replaces the returned response, its body being
  the chunks.\<close>

definition engine_answer :: "nat \<Rightarrow> ('c, 'z) host_env_scheme \<Rightarrow> string + (trap + wit_response) \<times> host_state \<Rightarrow> run_fail + run_ok" where
  "engine_answer keys env x = (case x of
      Inl e \<Rightarrow> Inl (failed e keys)
    | Inr (Inl t, hst) \<Rightarrow> Inl \<lparr>rf_message = he_trap_text env t, rf_logs = hs_logs hst, rf_snapshot_keys = keys\<rparr>
    | Inr (Inr resp, hst) \<Rightarrow>
       (case Option.bind (hs_stream hst) sk_sent_head of
          Some head \<Rightarrow> Inr \<lparr>ro_status = sh_status head, ro_headers = sh_headers head,
            ro_body = (case hs_stream hst of Some k \<Rightarrow> concat (sk_sent k) | None \<Rightarrow> []),
            ro_logs = hs_logs hst, ro_snapshot_keys = keys\<rparr>
        | None \<Rightarrow> Inr \<lparr>ro_status = wr_status resp, ro_headers = wr_headers resp, ro_body = wr_body resp,
            ro_logs = hs_logs hst, ro_snapshot_keys = keys\<rparr>))"

definition run_engine_in_snapshot ::
  "('c, 'z) host_env_scheme \<Rightarrow> route \<Rightarrow> bucket \<Rightarrow> bucket \<Rightarrow> wit_request \<Rightarrow> nat \<Rightarrow> (mem_store, run_fail, run_ok) io" where
  "run_engine_in_snapshot env r route_b group_b req keys s = (case r_source r of
      None \<Rightarrow> (Inl (failed (''source-language route '' @ r_id r @ '' has no source stored'') keys), s)
    | Some original \<Rightarrow> (case he_transpile env original of
        Inl e \<Rightarrow> (Inl (failed (''transpile route '' @ r_id r @ '': '' @ e) keys), s)
      | Inr src \<Rightarrow> (case call_engine env src route_b group_b False req s of
          (x, s') \<Rightarrow> (engine_answer keys env x, s'))))"

definition component_answer :: "nat \<Rightarrow> ('c, 'z) host_env_scheme \<Rightarrow> string + (trap + wit_response) \<times> host_state \<Rightarrow> run_fail + run_ok" where
  "component_answer keys env x = (case x of
      Inl e \<Rightarrow> Inl (failed e keys)
    | Inr (Inl t, hst) \<Rightarrow> Inl \<lparr>rf_message = he_trap_text env t, rf_logs = hs_logs hst, rf_snapshot_keys = keys\<rparr>
    | Inr (Inr resp, hst) \<Rightarrow> Inr \<lparr>ro_status = wr_status resp, ro_headers = wr_headers resp, ro_body = wr_body resp,
        ro_logs = hs_logs hst, ro_snapshot_keys = keys\<rparr>)"

definition is_source_language :: "string \<Rightarrow> bool" where
  "is_source_language l \<longleftrightarrow> l = ''javascript'' \<or> l = ''typescript''"

definition snapshot :: "route \<Rightarrow> string \<Rightarrow> mem_store \<Rightarrow> nat \<times> mem_store" where
  "snapshot r dry_root s =
    (case mem_copy_with_prefix (''kv:'' @ r_group_id r @ '':'' @ r_id r @ '':'')
        (dry_root @ ''kv:'' @ r_group_id r @ '':'' @ r_id r @ '':'') s of (kv_copied, s1) \<Rightarrow>
     (case mem_copy_with_prefix (''gkv:'' @ r_group_id r @ '':'') (dry_root @ ''gkv:'' @ r_group_id r @ '':'') s1 of
       (gkv_copied, s2) \<Rightarrow> (kv_copied + gkv_copied, s2)))"

text \<open>The run on the copy, with the route table for its component cache.\<close>

definition run_in_snapshot ::
  "('c, 'z) host_env_scheme \<Rightarrow> ('j, 'y) wire_lib_scheme \<Rightarrow> (string \<Rightarrow> string) \<Rightarrow> (string \<Rightarrow> string) \<Rightarrow> route \<Rightarrow> string
   \<Rightarrow> 'j dry_run_request \<Rightarrow> mem_store \<times> 'c route_table \<Rightarrow> (run_fail + run_ok) \<times> mem_store \<times> 'c route_table" where
  "run_in_snapshot env lib upcase downcase r dry_root q = (\<lambda>(s, t).
    case snapshot r dry_root s of (keys, s) \<Rightarrow>
    let route_b = route_bucket_under dry_root (r_group_id r) (r_id r);
        group_b = group_bucket_under dry_root (r_group_id r) in
    case apply_overrides lib ''kv'' route_b keys (dq_kv_overrides q) s of
      (Inl f, s) \<Rightarrow> (Inl f, s, t)
    | (Inr _, s) \<Rightarrow>
    case apply_overrides lib ''gkv'' group_b keys (dq_gkv_overrides q) s of
      (Inl f, s) \<Rightarrow> (Inl f, s, t)
    | (Inr _, s) \<Rightarrow>
    let req = dry_wit_request upcase downcase r q in
    if is_source_language (r_language r)
    then (case run_engine_in_snapshot env r route_b group_b req keys s of (x, s) \<Rightarrow> (x, s, t))
    else (case component_for (he_compile env) r t of
        (Inl e, t) \<Rightarrow> (Inl (failed (''compile component: '' @ e) keys), s, t)
      | (Inr cpt, t) \<Rightarrow> (case call_component env cpt route_b group_b req s of
          (x, s) \<Rightarrow> (component_answer keys env x, s, t))))"

definition cleanup_dry_run :: "string \<Rightarrow> nat sio" where
  "cleanup_dry_run dry_root = bucket_delete_with_prefix admin_bucket dry_root"

definition dry_response :: "nat \<Rightarrow> run_fail + run_ok \<Rightarrow> dry_run_response" where
  "dry_response duration_ms x = (case x of
      Inr out \<Rightarrow> \<lparr>dp_status = ro_status out, dp_headers = ro_headers out, dp_body = ro_body out,
        dp_handler_logs = map into_dry_log (ro_logs out), dp_duration_ms = duration_ms, dp_error = None,
        dp_snapshot_keys = ro_snapshot_keys out\<rparr>
    | Inl fail \<Rightarrow> \<lparr>dp_status = 500, dp_headers = [], dp_body = rf_message fail,
        dp_handler_logs = map into_dry_log (rf_logs fail), dp_duration_ms = duration_ms,
        dp_error = Some (rf_message fail), dp_snapshot_keys = rf_snapshot_keys fail\<rparr>)"

definition dry_root_of :: "string \<Rightarrow> string" where
  "dry_root_of run_id = ''dryrun:'' @ run_id @ '':''"

definition dry_run ::
  "('c, 'z) host_env_scheme \<Rightarrow> ('j, 'y) wire_lib_scheme \<Rightarrow> (string \<Rightarrow> string) \<Rightarrow> (string \<Rightarrow> string) \<Rightarrow> string \<Rightarrow> nat
   \<Rightarrow> route \<Rightarrow> 'j dry_run_request \<Rightarrow> mem_store \<times> 'c route_table \<Rightarrow> dry_run_response \<times> mem_store \<times> 'c route_table" where
  "dry_run env lib upcase downcase run_id duration_ms r q w =
    (case run_in_snapshot env lib upcase downcase r (dry_root_of run_id) q w of (x, s, t) \<Rightarrow>
      (dry_response duration_ms x, snd (cleanup_dry_run (dry_root_of run_id) s), t))"

section \<open>Nothing is left behind\<close>

abbreviation outside :: "string \<Rightarrow> mem_store \<Rightarrow> mem_store" where
  "outside root s \<equiv> view (\<lambda>k. \<not> starts_with root k) s"

lemma copy_outside:
  assumes "starts_with root dst"
  shows "outside root (snd (mem_copy_with_prefix src dst s)) = outside root s"
proof -
  have "starts_with root (dst @ k)" for k using assms by (auto simp: starts_with_iff)
  then have "outside root (foldl (\<lambda>st (k, v). AList.update k v st) st0
      (map (\<lambda>(k, v). (dst @ drop n k, v)) ps)) = outside root st0" for st0 n and ps :: mem_store
    by (induction ps arbitrary: st0) auto
  then show ?thesis by (simp add: mem_copy_with_prefix_def Let_def)
qed

lemma dry_prefix: "starts_with root (root @ x)"
  by simp

lemma snapshot_outside: "outside root (snd (snapshot r root s)) = outside root s"
  using copy_outside[OF dry_prefix]
  by (simp add: snapshot_def split: prod.split) (metis snd_conv)

lemma overrides_outside:
  assumes "\<And>u. starts_with root (b @ u)"
  shows "outside root (snd (apply_overrides lib ns b keys ovs s)) = outside root s"
proof (induction ovs arbitrary: s)
  case (Cons kv rest)
  obtain k v where kv: "kv = (k, v)" by fastforce
  show ?case
  proof (cases "into_bytes lib v")
    case (Inr bs)
    then show ?thesis using Cons.IH[of "mem_set (b @ k) bs s"] assms[of k]
      by (simp add: kv seq_io_def bind_io_def map_err_run bucket_set_def mem_set_def)
  qed (simp add: kv raise_def)
qed (simp add: ret_def)

lemma dry_buckets_within:
  assumes "hs_table hst = [(0, route_bucket_under root gid rid), (1, group_bucket_under root gid)]"
  shows "buckets_within (starts_with root) hst"
  using assms by (auto simp: buckets_within_def route_bucket_under_def group_bucket_under_def split: if_splits)

lemma call_engine_outside:
  "outside root (snd (call_engine env src (route_bucket_under root gid rid) (group_bucket_under root gid) ok req s))
     = outside root s"
proof -
  let ?hst = "set_response_stream_sink (instantiate_engine_state src (route_bucket_under root gid rid)
      (group_bucket_under root gid) ok)"
  have "buckets_within (starts_with root) (hw_state (handler_world ?hst s))"
    by (rule dry_buckets_within) (simp add: handler_world_def set_response_stream_sink_def instantiated_tables)
  from run_confined(1)[OF this] show ?thesis
    by (auto simp: call_engine_def handler_world_def split: option.splits sum.splits prod.splits) (metis snd_conv)
qed

lemma call_component_outside:
  "outside root (snd (call_component env cpt (route_bucket_under root gid rid) (group_bucket_under root gid) req s))
     = outside root s"
proof -
  let ?hst = "instantiate_state (he_max_memory env) (route_bucket_under root gid rid) (group_bucket_under root gid)"
  have "buckets_within (starts_with root) (hw_state (handler_world ?hst s))"
    by (rule dry_buckets_within) (simp add: handler_world_def instantiated_tables)
  from run_confined(1)[OF this] show ?thesis
    by (auto simp: call_component_def handler_world_def split: sum.splits prod.splits) (metis snd_conv)
qed

lemma engine_run_outside:
  "outside root (snd (run_engine_in_snapshot env r (route_bucket_under root gid rid) (group_bucket_under root gid) req keys s))
     = outside root s"
  by (auto simp: run_engine_in_snapshot_def split: option.splits sum.splits prod.splits)
    (metis call_engine_outside snd_conv)

lemma run_outside:
  "outside root (fst (snd (run_in_snapshot env lib upcase downcase r root q (s, t)))) = outside root s"
proof -
  let ?rb = "route_bucket_under root (r_group_id r) (r_id r)" and ?gb = "group_bucket_under root (r_group_id r)"
  obtain keys s1 where 1: "snapshot r root s = (keys, s1)" by fastforce
  obtain x2 s2 where 2: "apply_overrides lib ''kv'' ?rb keys (dq_kv_overrides q) s1 = (x2, s2)" by fastforce
  obtain x3 s3 where 3: "apply_overrides lib ''gkv'' ?gb keys (dq_gkv_overrides q) s2 = (x3, s3)" by fastforce
  have rb: "starts_with root (?rb @ u)" "starts_with root (?gb @ u)" for u
    by (simp_all add: route_bucket_under_def group_bucket_under_def)
  have o1: "outside root s1 = outside root s" using snapshot_outside[of root r s] 1 by simp
  have o2: "outside root s2 = outside root s" using overrides_outside[OF rb(1), of lib "''kv''" keys "dq_kv_overrides q" s1] 2 o1 by simp
  have o3: "outside root s3 = outside root s" using overrides_outside[OF rb(2), of lib "''gkv''" keys "dq_gkv_overrides q" s2] 3 o2 by simp
  let ?req = "dry_wit_request upcase downcase r q"
  have e: "outside root (snd (run_engine_in_snapshot env r ?rb ?gb ?req keys s3)) = outside root s"
    unfolding engine_run_outside by (rule o3)
  have c: "outside root (snd (call_component env cpt ?rb ?gb ?req s3)) = outside root s" for cpt
    unfolding call_component_outside by (rule o3)
  show ?thesis
    unfolding run_in_snapshot_def Let_def using 1 2 3 o2 o3 e c
    by (auto split: sum.splits prod.splits if_splits) (metis snd_conv)+
qed

text \<open>C35: A dry run has no side effects: whatever the handler, the overrides and the outcome, every
  key outside the run's own root maps to what it did before, and under the root, unused before,
  nothing is left, so the store looks as if the run had not happened.\<close>

theorem dry_run_leaves_no_trace:
  assumes "\<forall>k. starts_with (dry_root_of run_id) k \<longrightarrow> map_of s k = None"
    and "dry_run env lib upcase downcase run_id ms r q (s, t) = (resp, s', t')"
  shows "map_of s' = map_of s"
proof
  fix k
  let ?root = "dry_root_of run_id"
  let ?s1 = "fst (snd (run_in_snapshot env lib upcase downcase r ?root q (s, t)))"
  have s': "s' = snd (cleanup_dry_run ?root ?s1)"
    using assms(2) by (auto simp: dry_run_def split: prod.splits)
  have "map_of s' k = (if starts_with ?root k then None else map_of ?s1 k)"
    using delete_with_prefix_spec(2)[of admin_bucket ?root ?s1 k] by (simp add: s' cleanup_dry_run_def admin_bucket_def)
  then show "map_of s' k = map_of s k"
    using view_frame[OF run_outside, of ?root k env lib upcase downcase r q s t] assms(1) by simp
qed

section \<open>A dry run answers what the live route would\<close>

definition relocated :: "string \<Rightarrow> host_state \<Rightarrow> host_state" where
  "relocated root hst = hst\<lparr>hs_table := map (\<lambda>(h, b). (h, root @ b)) (hs_table hst)\<rparr>"

lemma relocated_fields [simp]:
  "hs_logs (relocated root hst) = hs_logs hst" "hs_limits (relocated root hst) = hs_limits hst"
  "hs_source (relocated root hst) = hs_source hst" "hs_stream (relocated root hst) = hs_stream hst"
  "hs_callouts_allowed (relocated root hst) = hs_callouts_allowed hst"
  "hs_callbacks (relocated root hst) = hs_callbacks hst"
  "hs_table (relocated root hst) = map (\<lambda>(h, b). (h, root @ b)) (hs_table hst)"
  by (simp_all add: relocated_def)

lemma relocated_update:
  "relocated root (hst\<lparr>hs_logs := l\<rparr>) = (relocated root hst)\<lparr>hs_logs := l\<rparr>"
  "relocated root (hst\<lparr>hs_limits := m\<rparr>) = (relocated root hst)\<lparr>hs_limits := m\<rparr>"
  "relocated root (hst\<lparr>hs_stream := k\<rparr>) = (relocated root hst)\<lparr>hs_stream := k\<rparr>"
  "relocated root (hst\<lparr>hs_callbacks := c\<rparr>) = (relocated root hst)\<lparr>hs_callbacks := c\<rparr>"
  by (simp_all add: relocated_def)

definition mirrors :: "string \<Rightarrow> host_world \<Rightarrow> host_world \<Rightarrow> bool" where
  "mirrors root w w' \<longleftrightarrow> hw_state w' = relocated root (hw_state w) \<and> hw_slept w' = hw_slept w
     \<and> (\<forall>b\<in>snd ` set (hs_table (hw_state w)). contents (root @ b) (hw_store w') = contents b (hw_store w))"

text \<open>No key lies in two buckets of the table.\<close>

definition apart :: "bucket set \<Rightarrow> bool" where
  "apart bs \<longleftrightarrow> (\<forall>b\<in>bs. \<forall>c\<in>bs. b \<noteq> c \<longrightarrow> (\<forall>u v. b @ u \<noteq> c @ v))"

lemma apart_subset: "\<lbrakk>apart bs; cs \<subseteq> bs\<rbrakk> \<Longrightarrow> apart cs"
  by (auto simp: apart_def)

lemma other_contents:
  assumes "\<And>u v. b @ u \<noteq> c @ v"
  shows "contents c (snd (do_store_call b d s)) = contents c s"
proof (cases "call_key d")
  case None
  then obtain p where d: "d = ListKeys p" by (cases d) simp_all
  show ?thesis by (simp add: d reply_parts bucket_list_keys_def Let_def)
next
  case (Some u)
  show ?thesis by (subst local_snd[OF store_call_local[OF Some]]) (rule contents_other, use assms in blast)
qed

lemma map_of_relocated: "map_of (map (\<lambda>(h, b). (h, root @ b)) t) h = map_option ((@) root) (map_of t h)"
  by (induction t) auto

lemma delete_relocated:
  "AList.delete h (map (\<lambda>(h, b). (h, root @ b)) t) = map (\<lambda>(h, b). (h, root @ b)) (AList.delete h t)"
  by (induction t) (auto simp: AList.delete_eq)

lemma mirror_store_call:
  assumes "mirrors root w w'" "apart (snd ` set (hs_table (hw_state w)))" "map_of (hs_table (hw_state w)) h = Some b"
  shows "fst (do_store_call (root @ b) d (hw_store w')) = fst (do_store_call b d (hw_store w))"
    and "mirrors root (w\<lparr>hw_store := snd (do_store_call b d (hw_store w))\<rparr>)
           (w'\<lparr>hw_store := snd (do_store_call (root @ b) d (hw_store w'))\<rparr>)"
proof -
  let ?t = "snd ` set (hs_table (hw_state w))"
  have b: "b \<in> ?t" using map_of_SomeD[OF assms(3)] by force
  then have c: "contents (root @ b) (hw_store w') = contents b (hw_store w)"
    using assms(1) unfolding mirrors_def by blast
  show "fst (do_store_call (root @ b) d (hw_store w')) = fst (do_store_call b d (hw_store w))"
    using store_call_contents[of b d "hw_store w"] store_call_contents[of "root @ b" d "hw_store w'"] c by simp
  have "contents (root @ x) (snd (do_store_call (root @ b) d (hw_store w'))) = contents x (snd (do_store_call b d (hw_store w)))"
    if x: "x \<in> ?t" for x
  proof (cases "x = b")
    case True
    then show ?thesis
      using store_call_contents[of b d "hw_store w"] store_call_contents[of "root @ b" d "hw_store w'"] c by simp
  next
    case False
    have ne: "b @ u \<noteq> x @ v" for u v using assms(2) b x False unfolding apart_def by metis
    have "contents (root @ x) (snd (do_store_call (root @ b) d (hw_store w'))) = contents (root @ x) (hw_store w')"
      by (rule other_contents) (simp add: ne)
    moreover have "contents x (snd (do_store_call b d (hw_store w))) = contents x (hw_store w)"
      by (rule other_contents) (simp add: ne)
    moreover have "contents (root @ x) (hw_store w') = contents x (hw_store w)"
      using assms(1) x unfolding mirrors_def by blast
    ultimately show ?thesis by simp
  qed
  then show "mirrors root (w\<lparr>hw_store := snd (do_store_call b d (hw_store w))\<rparr>)
           (w'\<lparr>hw_store := snd (do_store_call (root @ b) d (hw_store w'))\<rparr>)"
    using assms(1) by (simp add: mirrors_def)
qed

lemma mirror_call:
  assumes "mirrors root w w'" "apart (snd ` set (hs_table (hw_state w)))"
  shows "fst (host_call rd c w') = fst (host_call rd c w)"
    and "mirrors root (snd (host_call rd c w)) (snd (host_call rd c w'))"
    and "apart (snd ` set (hs_table (hw_state (snd (host_call rd c w)))))"
proof -
  have hs: "hw_state w' = relocated root (hw_state w)" using assms(1) by (simp add: mirrors_def)
  have all: "fst (host_call rd c w') = fst (host_call rd c w)
     \<and> mirrors root (snd (host_call rd c w)) (snd (host_call rd c w'))
     \<and> set (hs_table (hw_state (snd (host_call rd c w)))) \<subseteq> set (hs_table (hw_state w))"
  proof (cases c)
    case (OnBucket h d)
    show ?thesis
    proof (cases "map_of (hs_table (hw_state w)) h")
      case None
      then show ?thesis using assms(1) by (simp add: OnBucket hs map_of_relocated)
    next
      case (Some b)
      obtain x s1 where 1: "do_store_call b d (hw_store w) = (x, s1)" by fastforce
      obtain y s2 where 2: "do_store_call (root @ b) d (hw_store w') = (y, s2)" by fastforce
      have "y = x" "mirrors root (w\<lparr>hw_store := s1\<rparr>) (w'\<lparr>hw_store := s2\<rparr>)"
        using mirror_store_call[OF assms Some, of d] 1 2 by simp_all
      then show ?thesis using 1 2
        by (cases x) (simp_all add: OnBucket hs map_of_relocated Some)
    qed
  next
    case (DropBucket h)
    have "set (AList.delete h t) \<subseteq> set t" for t :: "(nat \<times> bucket) list" by (auto simp: AList.delete_eq)
    then show ?thesis using assms(1)
      by (auto simp: DropBucket hs map_of_relocated delete_relocated mirrors_def relocated_def image_iff
          split: option.splits)
  qed (use assms(1) in \<open>auto simp: mirrors_def hs with_sink_def schedule_def get_source_def relocated_update
        split: option.splits prod.splits\<close>)
  show "fst (host_call rd c w') = fst (host_call rd c w)" using all by (rule conjunct1)
  show "mirrors root (snd (host_call rd c w)) (snd (host_call rd c w'))" using all by (elim conjE)
  have "snd ` set (hs_table (hw_state (snd (host_call rd c w)))) \<subseteq> snd ` set (hs_table (hw_state w))"
    using all by (intro image_mono) (elim conjE)
  then show "apart (snd ` set (hs_table (hw_state (snd (host_call rd c w)))))" by (rule apart_subset[OF assms(2)])
qed

lemma mirror_run:
  assumes "mirrors root w w'" "apart (snd ` set (hs_table (hw_state w)))"
  shows "fst (run_program rd m n p rs w') = fst (run_program rd m n p rs w)
    \<and> mirrors root (snd (run_program rd m n p rs w)) (snd (run_program rd m n p rs w'))"
  using assms
proof (induction n arbitrary: rs w w')
  case (Suc n)
  have hs: "hw_state w' = relocated root (hw_state w)" using Suc.prems(1) by (simp add: mirrors_def)
  have d: "deadline_traps m now (hw_state w') = deadline_traps m now (hw_state w)" for now
    by (simp add: deadline_traps_def streaming_elapsed_def hs split: option.split)
  show ?case
  proof (cases "p rs")
    case (Call c)
    note mc = mirror_call[OF Suc.prems, of "rd n" c]
    obtain x w1 where 1: "host_call (rd n) c w = (x, w1)" by fastforce
    obtain y w2 where 2: "host_call (rd n) c w' = (y, w2)" by fastforce
    have "y = x" "mirrors root w1 w2" "apart (snd ` set (hs_table (hw_state w1)))" using mc 1 2 by simp_all
    then show ?thesis using Suc.IH[of w1 w2] Suc.prems(1) 1 2
      by (cases x) (simp_all add: Call d)
  next
    case (Finish x)
    then show ?thesis using Suc.prems(1) by (cases x) (simp_all add: d)
  qed
qed simp

lemma distinct_contents: "distinct (map fst s) \<Longrightarrow> distinct (map fst (contents b s))"
proof (induction s)
  case (Cons x s)
  obtain k v where x: "x = (k, v)" by fastforce
  have "drop (length b) k \<notin> fst ` set (contents b s)" if "starts_with b k"
  proof
    assume "drop (length b) k \<in> fst ` set (contents b s)"
    then have "map_of (contents b s) (drop (length b) k) \<noteq> None" by (simp add: map_of_eq_None_iff)
    moreover have "b @ drop (length b) k = k" using that by (auto simp: starts_with_iff)
    ultimately have "map_of s k \<noteq> None" by (simp add: map_of_contents)
    then show False using Cons.prems x by (simp add: map_of_eq_None_iff)
  qed
  then show ?case using Cons x by (simp add: contents_Cons)
qed simp

lemma update_all:
  "\<lbrakk>distinct (map fst ps); \<And>k. k \<in> fst ` set ps \<Longrightarrow> k \<notin> fst ` set st0\<rbrakk>
   \<Longrightarrow> foldl (\<lambda>st (k, v). AList.update k v st) st0 ps = st0 @ (ps :: mem_store)"
proof (induction ps arbitrary: st0)
  case (Cons p ps)
  obtain k v where p: "p = (k, v)" by fastforce
  have "k \<notin> fst ` set st0" using Cons.prems(2) p by simp
  then have "AList.update k v st0 = st0 @ [(k, v)]" by (induction st0) auto
  moreover have "k' \<notin> fst ` set (st0 @ [(k, v)])" if "k' \<in> fst ` set ps" for k'
    using Cons.prems that p by auto
  ultimately show ?case using Cons.IH[of "st0 @ [(k, v)]"] Cons.prems(1) p by simp
qed simp

lemma copy_run:
  "snd (mem_copy_with_prefix src dst s) = foldl (\<lambda>st (k, v). AList.update k v st) s
     (map (\<lambda>(k, v). (dst @ k, v)) (contents src s))"
  by (simp add: mem_copy_with_prefix_def Let_def contents_def view_def case_prod_unfold comp_def)

lemma contents_copy:
  assumes "distinct (map fst s)" "contents dst s = []"
  shows "contents dst (snd (mem_copy_with_prefix src dst s)) = contents src s"
proof -
  have "contents dst (foldl (\<lambda>st (k, v). AList.update k v st) st0 (map (\<lambda>(k, v). (dst @ k, v)) ps))
      = foldl (\<lambda>st (k, v). AList.update k v st) (contents dst st0) ps" for st0 and ps :: mem_store
    by (induction ps arbitrary: st0) (auto simp: contents_update)
  then show ?thesis
    using update_all[OF distinct_contents[OF assms(1)], of src "[]"] assms(2) by (simp add: copy_run)
qed

lemma contents_copy_other:
  assumes "\<And>u v. dst @ u \<noteq> c @ v"
  shows "contents c (snd (mem_copy_with_prefix src dst s)) = contents c s"
proof -
  have u: "contents c (AList.update (dst @ u) x st0) = contents c st0" for u x st0
    using contents_other[of "dst @ u" c "Some x" st0] assms by (simp add: put_cell_def)
  have "contents c (foldl (\<lambda>st (k, v). AList.update k v st) st0 (map (\<lambda>(k, v). (dst @ k, v)) ps)) = contents c st0"
    for st0 and ps :: mem_store
    by (induction ps arbitrary: st0) (auto simp: u)
  then show ?thesis by (simp add: copy_run)
qed

lemma distinct_copy:
  assumes "distinct (map fst s)"
  shows "distinct (map fst (snd (mem_copy_with_prefix src dst s)))"
proof -
  have "distinct (map fst st0) \<Longrightarrow> distinct (map fst (foldl (\<lambda>st (k, v). AList.update k v st) st0 ps))"
    for st0 ps :: mem_store
    by (induction ps arbitrary: st0) (auto intro: distinct_update)
  then show ?thesis using assms by (simp add: copy_run)
qed

lemma under_root:
  "route_bucket_under root gid rid = root @ route_bucket gid rid"
  "group_bucket_under root gid = root @ group_bucket gid"
  by (simp_all add: route_bucket_def route_bucket_under_def group_bucket_def group_bucket_under_def)

lemma kv_apart: "route_bucket gid rid @ u \<noteq> group_bucket gid' @ v"
  by (simp add: route_bucket_def route_bucket_under_def group_bucket_def group_bucket_under_def)

lemma live_dry_apart:
  "dry_root_of i @ x \<noteq> route_bucket gid rid @ v" "dry_root_of i @ x \<noteq> group_bucket gid @ v"
  by (simp_all add: dry_root_of_def route_bucket_def route_bucket_under_def group_bucket_def group_bucket_under_def)

lemma contents_fresh:
  assumes "\<forall>k. starts_with root k \<longrightarrow> map_of s k = None"
  shows "contents (root @ b) s = []"
proof -
  have "\<not> starts_with (root @ b) k" if "k \<in> fst ` set s" for k
  proof
    assume "starts_with (root @ b) k"
    then have "starts_with root k" by (auto simp: starts_with_iff)
    then show False using assms that by (auto simp: map_of_eq_None_iff)
  qed
  then show ?thesis by (force simp: contents_def view_def filter_empty_conv)
qed

definition snapshot_size :: "route \<Rightarrow> mem_store \<Rightarrow> nat" where
  "snapshot_size r s = length (contents (route_bucket (r_group_id r) (r_id r)) s)
     + length (contents (group_bucket (r_group_id r)) s)"

lemma snapshot_run:
  assumes "distinct (map fst s)" "\<forall>k. starts_with (dry_root_of i) k \<longrightarrow> map_of s k = None"
  shows "\<exists>s2. snapshot r (dry_root_of i) s = (snapshot_size r s, s2)
    \<and> contents (dry_root_of i @ route_bucket (r_group_id r) (r_id r)) s2 = contents (route_bucket (r_group_id r) (r_id r)) s
    \<and> contents (dry_root_of i @ group_bucket (r_group_id r)) s2 = contents (group_bucket (r_group_id r)) s"
proof -
  let ?root = "dry_root_of i" and ?rb = "route_bucket (r_group_id r) (r_id r)" and ?gb = "group_bucket (r_group_id r)"
  have names: "''kv:'' @ r_group_id r @ '':'' @ r_id r @ '':'' = ?rb" "''gkv:'' @ r_group_id r @ '':'' = ?gb"
    by (simp_all add: route_bucket_def route_bucket_under_def group_bucket_def group_bucket_under_def)
  have n: "fst (mem_copy_with_prefix src dst x) = length (contents src x)" for src dst x
    by (simp add: mem_copy_with_prefix_def Let_def contents_def view_def)
  obtain n1 s1 where 1: "mem_copy_with_prefix ?rb (?root @ ?rb) s = (n1, s1)" by fastforce
  obtain n2 s2 where 2: "mem_copy_with_prefix ?gb (?root @ ?gb) s1 = (n2, s2)" by fastforce
  have s1: "s1 = snd (mem_copy_with_prefix ?rb (?root @ ?rb) s)" using 1 by simp
  have s2: "s2 = snd (mem_copy_with_prefix ?gb (?root @ ?gb) s1)" using 2 by simp
  have c1: "contents (?root @ ?rb) s1 = contents ?rb s" unfolding s1
    by (rule contents_copy[OF assms(1) contents_fresh[OF assms(2)]])
  have g1: "contents ?gb s1 = contents ?gb s" unfolding s1
    by (rule contents_copy_other) (simp add: live_dry_apart)
  have f1: "contents (?root @ ?gb) s1 = []"
    unfolding s1 using contents_copy_other[of "?root @ ?rb" "?root @ ?gb"] kv_apart contents_fresh[OF assms(2)] by simp
  have "distinct (map fst s1)" unfolding s1 by (rule distinct_copy[OF assms(1)])
  then have c2: "contents (?root @ ?gb) s2 = contents ?gb s" unfolding s2 using contents_copy f1 g1 by simp
  have c3: "contents (?root @ ?rb) s2 = contents (?root @ ?rb) s1" unfolding s2
    by (rule contents_copy_other) (use kv_apart[THEN not_sym] in simp)
  have "n1 = length (contents ?rb s)" "n2 = length (contents ?gb s)" using n[of ?rb] n[of ?gb] 1 2 g1 by (metis fst_conv)+
  then show ?thesis unfolding snapshot_def names using 1 2 c1 c2 c3 by (simp add: snapshot_size_def)
qed

lemma answer_relocated:
  "engine_answer keys env (Inr (x, relocated root hst)) = engine_answer keys env (Inr (x, hst))"
  "component_answer keys env (Inr (x, relocated root hst)) = component_answer keys env (Inr (x, hst))"
  by (cases x; simp add: engine_answer_def component_answer_def split: option.split)+

lemma engine_same:
  assumes "contents (root @ rb) s2 = contents rb s" "contents (root @ gb) s2 = contents gb s" "apart {rb, gb}"
  shows "engine_answer keys env (fst (call_engine env src (root @ rb) (root @ gb) ok req s2))
       = engine_answer keys env (fst (call_engine env src rb gb ok req s))"
proof -
  let ?w = "handler_world (set_response_stream_sink (instantiate_engine_state src rb gb ok)) s"
  let ?v = "handler_world (set_response_stream_sink (instantiate_engine_state src (root @ rb) (root @ gb) ok)) s2"
  have m: "mirrors root ?w ?v"
    using assms(1,2) by (simp add: mirrors_def handler_world_def set_response_stream_sink_def instantiated_tables)
      (simp add: relocated_def instantiate_engine_state_def with_buckets_def push_bucket_def new_host_state_def Let_def)
  have a: "apart (snd ` set (hs_table (hw_state ?w)))"
    using assms(3) by (simp add: handler_world_def set_response_stream_sink_def instantiated_tables)
  note run = mirror_run[OF m a, of "he_readings env" "Some (he_stream_max env)" "he_engine_steps env" _ "[]"]
  show ?thesis
  proof (cases "he_engine env")
    case (Some x)
    then show ?thesis
    proof (cases x)
      case (Inr prog)
      obtain x w1 where 1: "run_program (he_readings env) (Some (he_stream_max env)) (he_engine_steps env) (prog req) [] ?w = (x, w1)"
        by fastforce
      obtain y w2 where 2: "run_program (he_readings env) (Some (he_stream_max env)) (he_engine_steps env) (prog req) [] ?v = (y, w2)"
        by fastforce
      have "y = x" "hw_state w2 = relocated root (hw_state w1)" using run[of "prog req"] 1 2 by (simp_all add: mirrors_def)
      then show ?thesis using Some Inr 1 2 by (simp add: call_engine_def answer_relocated)
    qed (simp add: call_engine_def engine_answer_def)
  qed (simp add: call_engine_def engine_answer_def)
qed

lemma component_same:
  assumes "contents (root @ rb) s2 = contents rb s" "contents (root @ gb) s2 = contents gb s" "apart {rb, gb}"
  shows "component_answer keys env (fst (call_component env cpt (root @ rb) (root @ gb) req s2))
       = component_answer keys env (fst (call_component env cpt rb gb req s))"
proof -
  let ?w = "handler_world (instantiate_state (he_max_memory env) rb gb) s"
  let ?v = "handler_world (instantiate_state (he_max_memory env) (root @ rb) (root @ gb)) s2"
  have m: "mirrors root ?w ?v"
    using assms(1,2) by (simp add: mirrors_def handler_world_def instantiated_tables)
      (simp add: relocated_def instantiate_state_def with_buckets_def push_bucket_def new_host_state_def Let_def)
  have a: "apart (snd ` set (hs_table (hw_state ?w)))"
    using assms(3) by (simp add: handler_world_def instantiated_tables)
  note run = mirror_run[OF m a, of "he_readings env" None "he_steps env" _ "[]"]
  show ?thesis
  proof (cases "he_component env cpt")
    case (Inr prog)
    obtain x w1 where 1: "run_program (he_readings env) None (he_steps env) (prog req) [] ?w = (x, w1)" by fastforce
    obtain y w2 where 2: "run_program (he_readings env) None (he_steps env) (prog req) [] ?v = (y, w2)" by fastforce
    have "y = x" "hw_state w2 = relocated root (hw_state w1)" using run[of "prog req"] 1 2 by (simp_all add: mirrors_def)
    then show ?thesis using Inr 1 2 by (simp add: call_component_def answer_relocated)
  qed (simp add: call_component_def component_answer_def)
qed


text \<open>A handler that answers with the group's counter.\<close>

definition demo_engine :: "unit host_env" where
  "demo_engine = \<lparr>he_engine = Some (Inr (\<lambda>req rs. case rs of
        [] \<Rightarrow> Call (OnBucket 1 (Incr ''n'' 1))
      | x # _ \<Rightarrow> Finish (case x of Number n \<Rightarrow> Inr \<lparr>wr_status = 200, wr_headers = [], wr_body = show_int n\<rparr> | _ \<Rightarrow> Inl ''?''))),
     he_component = (\<lambda>c. Inl ''''), he_compile = (\<lambda>b. Inl ''''), he_transpile = Inr, he_trap_text = (\<lambda>x. ''trap''),
     he_readings = (\<lambda>n. demo_reading), he_steps = 5, he_engine_steps = 5, he_max_memory = HANDLER_MAX_MEMORY_BYTES,
     he_stream_max = ENGINE_STREAM_MAX\<rparr>"

definition demo_dry_request :: "bytes dry_run_request" where
  "demo_dry_request = \<lparr>dq_method = ''get'', dq_path = ''/x'', dq_headers = [], dq_body = [], dq_path_params = None,
     dq_query = [], dq_kv_overrides = [], dq_gkv_overrides = []\<rparr>"

definition demo_js_route :: route where
  "demo_js_route = (demo_route_record ''R'' ''/x'' 1)\<lparr>r_group_id := ''G'', r_language := ''javascript'', r_source := Some ''src''\<rparr>"

definition demo_live_store :: mem_store where
  "demo_live_store = [(''gkv:G:n'', Bytes ''6''), (''kv:G:R:x'', Bytes ''y'')]"

lemma demo_live_fresh: "\<forall>k. starts_with (dry_root_of ''1'') k \<longrightarrow> map_of demo_live_store k = None"
  by (auto simp: demo_live_store_def dry_root_of_def starts_with_def)


theorem dry_run_leaves_no_trace_witness:
  "map_of (fst (snd (dry_run demo_engine demo_wire to_upper to_lower ''1'' 0 demo_js_route demo_dry_request
     (demo_live_store, demo_table)))) = map_of demo_live_store"
proof -
  obtain resp s' t' where r: "dry_run demo_engine demo_wire to_upper to_lower ''1'' 0 demo_js_route demo_dry_request
     (demo_live_store, demo_table) = (resp, s', t')" by (rule prod_cases3)
  show ?thesis using dry_run_leaves_no_trace[OF demo_live_fresh r] r by simp
qed

end
