(* ===== verification/Dispatch.thy ===== *)
theory Dispatch
  imports Dry_Run Throttle
begin

text \<open>Dispatch (\<^theory_text>\<open>server.rs\<close>): a request's host decides between the control plane and one
  group; a request for a group is matched, run through its route's handler, journaled and
  answered.

  The \<^theory_text>\<open>http\<close> crate, percent decoding, the trace propagator and the Unicode case mapping are the
  fields of \<^theory_text>\<open>http_lib\<close>; the clock readings and the new id of a request are \<^theory_text>\<open>dispatch_clock\<close>.
  Spans and metrics are left out.\<close>

section \<open>Requests, responses, hosts\<close>

record http_lib =
  ht_to_str :: "bytes \<Rightarrow> string option"
  ht_header_name :: "string \<Rightarrow> string option"
  ht_value_ok :: "string \<Rightarrow> bool"
  ht_status_ok :: "nat \<Rightarrow> bool"
  ht_trace_id :: "(string \<times> bytes) list \<Rightarrow> string option"
  ht_to_bytes :: "bytes \<Rightarrow> nat \<Rightarrow> bytes option"
  ht_url_decode :: "string \<Rightarrow> string option"
  ht_lowercase :: "string \<Rightarrow> string"

record http_request =
  hq_method :: string
  hq_path :: string
  hq_query :: "string option"
  hq_headers :: "(string \<times> bytes) list"
  hq_body :: bytes

text \<open>A streamed body is the chunks received from the handler.\<close>

datatype wire_body = Full bytes | Streamed "bytes list"

record wire_response =
  wp_status :: nat
  wp_headers :: pairs
  wp_body :: wire_body

datatype host_kind = Apex | GroupHost string | ForeignHost

definition resolve_host_kind :: "http_lib \<Rightarrow> (string \<times> bytes) list \<Rightarrow> string \<Rightarrow> host_kind" where
  "resolve_host_kind lib headers apex =
    (let raw_host = (case Option.bind (map_of headers ''host'') (ht_to_str lib) of Some s \<Rightarrow> s | None \<Rightarrow> []);
         host = to_lower (trim (hd (split_on (CHR '':'') raw_host))) in
     if host = [] then ForeignHost
     else if host = apex then Apex
     else (case strip_suffix (''.'' @ apex) host of
         Some label \<Rightarrow> if label \<noteq> [] \<and> CHR ''.'' \<notin> set label then GroupHost label else ForeignHost
       | None \<Rightarrow> ForeignHost))"

datatype served_by = MockDispatch | ControlPlane

definition control_plane_apex_gate :: "http_lib \<Rightarrow> string \<Rightarrow> http_request \<Rightarrow> served_by" where
  "control_plane_apex_gate lib apex req = (case resolve_host_kind lib (hq_headers req) apex of
      GroupHost _ \<Rightarrow> MockDispatch | _ \<Rightarrow> ControlPlane)"

definition surface_for_route :: "string \<Rightarrow> string option" where
  "surface_for_route r =
    (if starts_with ''/api/mcp'' r then Some ''mcp''
     else if starts_with ''/api'' r then Some ''api''
     else if starts_with ''/ui'' r then Some ''ui''
     else if starts_with ''/auth'' r \<or> starts_with ''/.well-known'' r then Some ''auth''
     else None)"

fun first_cookie :: "string list \<Rightarrow> string option" where
  "first_cookie [] = None"
| "first_cookie (p # ps) = (case strip_prefix (COOKIE_NAME @ ''='') (trim p) of
      Some v \<Rightarrow> Some v | None \<Rightarrow> first_cookie ps)"

fun cookie_in :: "http_lib \<Rightarrow> bytes list \<Rightarrow> string option" where
  "cookie_in lib [] = None"
| "cookie_in lib (v # vs) = (case ht_to_str lib v of
      None \<Rightarrow> cookie_in lib vs
    | Some txt \<Rightarrow> (case first_cookie (split_on (CHR '';'') txt) of Some c \<Rightarrow> Some c | None \<Rightarrow> cookie_in lib vs))"

definition pick_session_cookie :: "http_lib \<Rightarrow> (string \<times> bytes) list \<Rightarrow> string option" where
  "pick_session_cookie lib headers = cookie_in lib (map snd (filter (\<lambda>(k, v). k = ''cookie'') headers))"

text \<open>\<^theory_text>\<open>sessions\<close> is \<^theory_text>\<open>None\<close> when logins are not configured; a valid session is touched.\<close>

definition has_valid_session ::
  "http_lib \<Rightarrow> session_store option \<Rightarrow> int \<Rightarrow> int \<Rightarrow> (string \<times> bytes) list \<Rightarrow> mem_store \<Rightarrow> bool \<times> mem_store" where
  "has_valid_session lib sessions now later headers s = (case sessions of
      None \<Rightarrow> (False, s)
    | Some ss \<Rightarrow> (case pick_session_cookie lib headers of
        None \<Rightarrow> (False, s)
      | Some cookie \<Rightarrow> (case session_touch ss now later cookie s of (r, s') \<Rightarrow> (\<not> isl r, s'))))"

section \<open>Handler headers and error texts\<close>

fun contains_text :: "string \<Rightarrow> string \<Rightarrow> bool" where
  "contains_text p [] = (p = [])"
| "contains_text p (c # cs) = (starts_with p (c # cs) \<or> contains_text p cs)"

definition friendly_handler_error :: "string \<Rightarrow> string" where
  "friendly_handler_error msg =
    (let low = to_lower msg;
         is_wasm_trap = contains_text ''wasm trap'' low \<or> contains_text ''wasm backtrace'' low
           \<or> (contains_text ''unreachable'' low \<and> contains_text ''wasm'' low) in
     if \<not> is_wasm_trap then msg
     else if contains_text ''epoch'' low \<or> contains_text ''interrupt'' low
     then ''handler exceeded its time budget (epoch deadline)''
     else if contains_text ''fuel'' low then ''handler exceeded its CPU budget (out of fuel)''
     else if contains_text ''memory'' low \<or> contains_text ''allocation'' low
     then ''handler exceeded its memory budget''
     else ''handler trapped (engine-level fault) '' @ [char_of (226::nat), char_of (128::nat), char_of (148::nat)]
       @ '' common causes: calling an unsupported web API (e.g. network access) or a bug in the handler; ''
       @ ''the raw wasm backtrace is in the host logs/trace'')"

definition reserved_response_header :: "string \<Rightarrow> bool" where
  "reserved_response_header name \<longleftrightarrow> name \<in> {''content-length'', ''transfer-encoding'', ''connection''}"

text \<open>Per byte: the bytes of a character beyond ASCII are all at least 128.\<close>

definition sanitize_header_text :: "string \<Rightarrow> string" where
  "sanitize_header_text v = map (\<lambda>c. if c = CHR 0x09 \<or> (32 \<le> code c \<and> code c \<noteq> 127) then c else CHR 0x20) v"

text \<open>A header map lists its names in the order of their first insertion and the values of a name
  together; the library documents only the order of the values of one name, and the properties
  below rest on no more.\<close>

fun header_append :: "string \<Rightarrow> string \<Rightarrow> pairs \<Rightarrow> pairs" where
  "header_append n v [] = [(n, v)]"
| "header_append n v ((a, b) # hs) =
    (if a = n \<and> n \<notin> fst ` set hs then (a, b) # (n, v) # hs else (a, b) # header_append n v hs)"

record filtered_headers =
  fh_wire :: pairs
  fh_sent :: pairs
  fh_dropped :: "string list"

definition no_headers :: filtered_headers where
  "no_headers = \<lparr>fh_wire = [], fh_sent = [], fh_dropped = []\<rparr>"

definition drop_header :: "string \<Rightarrow> filtered_headers \<Rightarrow> filtered_headers" where
  "drop_header name f = f\<lparr>fh_dropped := fh_dropped f @ [name]\<rparr>"

definition send_header :: "string \<Rightarrow> string \<Rightarrow> filtered_headers \<Rightarrow> filtered_headers" where
  "send_header name v f = f\<lparr>fh_wire := header_append name v (fh_wire f), fh_sent := fh_sent f @ [(name, v)]\<rparr>"

fun filter_each :: "http_lib \<Rightarrow> pairs \<Rightarrow> filtered_headers \<Rightarrow> filtered_headers" where
  "filter_each lib [] f = f"
| "filter_each lib ((name, v) # hs) f = (case ht_header_name lib name of
      None \<Rightarrow> filter_each lib hs (drop_header name f)
    | Some n \<Rightarrow>
      if reserved_response_header n then filter_each lib hs (drop_header n f)
      else if ht_value_ok lib v then filter_each lib hs (send_header n v f)
      else let cleaned = sanitize_header_text v in
        if ht_value_ok lib cleaned then filter_each lib hs (send_header n cleaned f)
        else filter_each lib hs (drop_header n f))"

definition filter_handler_headers :: "http_lib \<Rightarrow> pairs \<Rightarrow> filtered_headers" where
  "filter_handler_headers lib hs = filter_each lib hs no_headers"

definition wire_status :: "http_lib \<Rightarrow> nat \<Rightarrow> nat" where
  "wire_status lib st0 = (if ht_status_ok lib st0 then st0 else 500)"

definition inject_response_trace_id :: "http_lib \<Rightarrow> string option \<Rightarrow> wire_response \<Rightarrow> wire_response" where
  "inject_response_trace_id lib trace_id resp = (case trace_id of
      None \<Rightarrow> resp
    | Some tid \<Rightarrow>
      if ht_value_ok lib tid
      then resp\<lparr>wp_headers := filter (\<lambda>(n, v). n \<noteq> ''x-trace-id'') (wp_headers resp) @ [(''x-trace-id'', tid)]\<rparr>
      else resp)"

definition build_axum_response_owned :: "http_lib \<Rightarrow> wit_response \<Rightarrow> filtered_headers \<Rightarrow> wire_response" where
  "build_axum_response_owned lib resp f =
    \<lparr>wp_status = wire_status lib (wr_status resp),
     wp_headers = (''content-length'', show_nat (length (wr_body resp))) # fh_wire f,
     wp_body = Full (wr_body resp)\<rparr>"

definition build_streaming_response ::
  "http_lib \<Rightarrow> stream_head \<Rightarrow> filtered_headers \<Rightarrow> bytes list \<Rightarrow> string option \<Rightarrow> wire_response" where
  "build_streaming_response lib head f chunks trace_id =
    inject_response_trace_id lib trace_id
      \<lparr>wp_status = wire_status lib (sh_status head), wp_headers = fh_wire f, wp_body = Streamed chunks\<rparr>"

definition json_quote :: string where "json_quote = [CHR 0x22]"

definition not_found_response :: "string \<Rightarrow> wire_response" where
  "not_found_response reason =
    \<lparr>wp_status = 404, wp_headers = [(''content-type'', ''application/json'')],
     wp_body = Full (''{'' @ json_quote @ ''error'' @ json_quote @ '':{'' @ json_quote @ ''code'' @ json_quote @ '':''
       @ json_quote @ ''not_found'' @ json_quote @ '','' @ json_quote @ ''message'' @ json_quote @ '':''
       @ json_quote @ reason @ json_quote @ ''}}'')\<rparr>"

text \<open>\<^theory_text>\<open>msg.lines().next()\<close>: up to the first line feed, a carriage return before it not counted;
  an empty text has no line.\<close>

definition first_line :: "string \<Rightarrow> string" where
  "first_line msg = (let l = takeWhile (\<lambda>c. c \<noteq> CHR 0x0A) msg in
     if l \<noteq> msg \<and> l \<noteq> [] \<and> last l = CHR 0x0D then butlast l else l)"

text \<open>\<^theory_text>\<open>None\<close>: the \<^theory_text>\<open>expect\<close> of the builder panics on a bad header value.\<close>

definition error_response :: "http_lib \<Rightarrow> nat \<Rightarrow> string \<Rightarrow> wire_response option" where
  "error_response lib status msg = (let header_msg = sanitize_header_text (first_line msg) in
     if ht_value_ok lib header_msg
     then Some \<lparr>wp_status = status, wp_headers = [(''x-wiremirage-error'', header_msg)], wp_body = Full msg\<rparr>
     else None)"

section \<open>Building the handler's request and the journal's envelopes\<close>

definition MAX_DISPATCH_BODY_BYTES :: nat where "MAX_DISPATCH_BODY_BYTES = 10 * 1024 * 1024"

definition readable_headers :: "http_lib \<Rightarrow> (string \<times> bytes) list \<Rightarrow> pairs" where
  "readable_headers lib headers =
    List.map_filter (\<lambda>(k, v). map_option (\<lambda>s. (to_lower k, s)) (ht_to_str lib v)) headers"

definition build_request_envelope :: "http_lib \<Rightarrow> http_request \<Rightarrow> bytes \<Rightarrow> nat \<Rightarrow> request_envelope" where
  "build_request_envelope lib req body body_limit =
    (case truncate_body body body_limit of (b, original_size, truncated) \<Rightarrow>
     \<lparr>rq_method = to_upper (hq_method req), rq_path = hq_path req, rq_headers = readable_headers lib (hq_headers req),
      rq_body = b, rq_body_truncated = truncated, rq_original_body_size = original_size\<rparr>)"

definition summarize_response :: "nat \<Rightarrow> filtered_headers \<Rightarrow> bytes \<Rightarrow> response_envelope" where
  "summarize_response status f body =
    (case truncate_body body HANDLED_BODY_LIMIT of (b, original_size, truncated) \<Rightarrow>
     \<lparr>rs_status = status, rs_headers = fh_sent f, rs_body = b, rs_body_truncated = truncated,
      rs_original_body_size = original_size\<rparr>)"

definition form_decode :: "http_lib \<Rightarrow> string \<Rightarrow> string" where
  "form_decode lib s = (let plus_decoded = map (\<lambda>c. if c = CHR ''+'' then CHR 0x20 else c) s in
     case ht_url_decode lib plus_decoded of Some d \<Rightarrow> d | None \<Rightarrow> plus_decoded)"

definition query_pairs :: "http_lib \<Rightarrow> string \<Rightarrow> pairs" where
  "query_pairs lib q = map (\<lambda>pair. case split_once (CHR ''='') pair of
        Some (k, v) \<Rightarrow> (ht_lowercase lib (form_decode lib k), form_decode lib v)
      | None \<Rightarrow> (ht_lowercase lib (form_decode lib pair), form_decode lib []))
    (filter (\<lambda>pair. pair \<noteq> []) (split_on (CHR ''&'') q))"

definition build_wit_request :: "http_lib \<Rightarrow> http_request \<Rightarrow> bytes \<Rightarrow> string \<Rightarrow> pairs \<Rightarrow> wit_request" where
  "build_wit_request lib req body matched_pattern path_params =
    \<lparr>wq_method = to_upper (hq_method req), wq_path = hq_path req, wq_matched_pattern = matched_pattern,
     wq_path_params = path_params,
     wq_query = (case hq_query req of Some q \<Rightarrow> query_pairs lib q | None \<Rightarrow> []),
     wq_headers = readable_headers lib (hq_headers req), wq_body = body\<rparr>"

definition project_near_miss :: "near_miss \<Rightarrow> unmatched_near_miss" where
  "project_near_miss nm = (let r = nm_route nm in
     \<lparr>um_route = r_group_name r @ ''/'' @ show_nat (r_number r), um_route_path = r_path r, um_route_methods = r_methods r,
      um_reason = (case nm_reason nm of
          MethodMismatch expected got \<Rightarrow> UMethodMismatch expected got
        | PrefixMatch i expected got \<Rightarrow> UPrefixMatch i expected got)\<rparr>)"

section \<open>Running the handler\<close>

record stream_summary =
  su_chunks :: nat
  su_bytes :: nat
  su_disposition :: string

definition summary_from_state :: "(nat \<times> nat \<times> bool) option \<Rightarrow> bool \<Rightarrow> stream_summary option" where
  "summary_from_state stats result_ok = (case stats of
      None \<Rightarrow> None
    | Some (chunks, byte_count, client_gone) \<Rightarrow> Some \<lparr>su_chunks = chunks, su_bytes = byte_count,
        su_disposition = (if client_gone then ''client_disconnected''
          else if result_ok then ''finished'' else ''trapped'')\<rparr>)"

text \<open>The result of the blocking task, with what went through the two channels while it ran.\<close>

record outcome =
  oc_result :: "string + wit_response"
  oc_logs :: "log_record list"
  oc_resources :: resource_usage
  oc_stream :: "stream_summary option"
  oc_callbacks :: "scheduled_callback list"
  oc_head :: "stream_head option"
  oc_chunks :: "bytes list"

definition no_resources :: resource_usage where
  "no_resources = \<lparr>fuel_consumed = 0, memory_peak_bytes = 0, wall_clock_ms = 0\<rparr>"

definition not_started :: "string \<Rightarrow> outcome" where
  "not_started e = \<lparr>oc_result = Inl e, oc_logs = [], oc_resources = no_resources, oc_stream = None, oc_callbacks = [],
     oc_head = None, oc_chunks = []\<rparr>"

definition result_text :: "('c, 'z) host_env_scheme \<Rightarrow> trap + wit_response \<Rightarrow> string + wit_response" where
  "result_text env r = (case r of Inl t \<Rightarrow> Inl (he_trap_text env t) | Inr x \<Rightarrow> Inr x)"

text \<open>The environment of the dispatcher; \<^theory_text>\<open>de_fuel_left\<close> is what \<^theory_text>\<open>get_fuel\<close> reports after the call.\<close>

record 'c dispatch_env = "'c host_env" +
  de_http :: http_lib
  de_registry :: registry_env
  de_handled :: "journal_record codec"
  de_unmatched :: "unmatched_record codec"
  de_apex :: string
  de_egress_enabled :: bool
  de_sessions :: "session_store option"
  de_ui_not_found :: "string \<Rightarrow> wire_response"
  de_handler_fuel :: nat
  de_fuel_left :: nat

definition engine_outcome :: "('c, 'z) dispatch_env_scheme \<Rightarrow> string \<Rightarrow> string \<Rightarrow> string \<Rightarrow> bool \<Rightarrow> wit_request \<Rightarrow> mem_store
    \<Rightarrow> outcome \<times> mem_store" where
  "engine_outcome env src gid rid allowed req s =
    (case call_engine env src (route_bucket gid rid) (group_bucket gid) allowed req s of
      (Inl e, s') \<Rightarrow> (not_started e, s')
    | (Inr (r, hst), s') \<Rightarrow>
       (\<lparr>oc_result = result_text env r, oc_logs = hs_logs hst,
         oc_resources = \<lparr>fuel_consumed = u64_max - de_fuel_left env,
           memory_peak_bytes = peak_memory (hs_limits hst), wall_clock_ms = 0\<rparr>,
         oc_stream = summary_from_state (stream_stats hst) (\<not> isl r), oc_callbacks = hs_callbacks hst,
         oc_head = Option.bind (hs_stream hst) sk_sent_head,
         oc_chunks = (case hs_stream hst of Some k \<Rightarrow> sk_sent k | None \<Rightarrow> [])\<rparr>, s'))"

definition component_outcome :: "('c, 'z) dispatch_env_scheme \<Rightarrow> 'c \<Rightarrow> string \<Rightarrow> string \<Rightarrow> wit_request \<Rightarrow> mem_store
    \<Rightarrow> outcome \<times> mem_store" where
  "component_outcome env cpt gid rid req s =
    (case call_component env cpt (route_bucket gid rid) (group_bucket gid) req s of
      (Inl e, s') \<Rightarrow> (not_started e, s')
    | (Inr (r, hst), s') \<Rightarrow>
       (\<lparr>oc_result = result_text env r, oc_logs = hs_logs hst,
         oc_resources = \<lparr>fuel_consumed = de_handler_fuel env - de_fuel_left env,
           memory_peak_bytes = peak_memory (hs_limits hst), wall_clock_ms = 0\<rparr>,
         oc_stream = None, oc_callbacks = [], oc_head = None, oc_chunks = []\<rparr>, s'))"

text \<open>What the handler's run needs, prepared before it starts: the program's text or component.\<close>

datatype 'c handler_code = EngineSource string | Compiled 'c

definition engine_error_text :: "string engine_error \<Rightarrow> string" where
  "engine_error_text e = (case e of
      NoSource rid \<Rightarrow> ''source-language route '' @ rid @ '' has no source stored''
    | TranspileError rid msg \<Rightarrow> ''transpile route '' @ rid @ '': '' @ msg)"

definition handler_code_for :: "('c, 'z) dispatch_env_scheme \<Rightarrow> route \<Rightarrow> 'c route_table
    \<Rightarrow> (string + 'c handler_code) \<times> 'c route_table" where
  "handler_code_for env r t =
    (if is_source_language (r_language r)
     then (case engine_source_for (he_transpile env) r t of
        (Inl e, t') \<Rightarrow> (Inl (engine_error_text e), t') | (Inr src, t') \<Rightarrow> (Inr (EngineSource src), t'))
     else (case component_for (he_compile env) r t of
        (Inl e, t') \<Rightarrow> (Inl e, t') | (Inr cpt, t') \<Rightarrow> (Inr (Compiled cpt), t')))"

definition callouts_allowed_for :: "('c, 'z) dispatch_env_scheme \<Rightarrow> route \<Rightarrow> mem_store \<Rightarrow> bool" where
  "callouts_allowed_for env r s \<longleftrightarrow> is_source_language (r_language r) \<and> de_egress_enabled env
     \<and> (case fst (read_group_by_ref (de_registry env) (r_group_id r) s) of Inr g \<Rightarrow> g_callout_enabled g | Inl e \<Rightarrow> False)"

definition run_handler :: "('c, 'z) dispatch_env_scheme \<Rightarrow> 'c handler_code \<Rightarrow> route \<Rightarrow> bool \<Rightarrow> wit_request \<Rightarrow> mem_store
    \<Rightarrow> outcome \<times> mem_store" where
  "run_handler env code0 r allowed req s = (case code0 of
      EngineSource src \<Rightarrow> engine_outcome env src (r_group_id r) (r_id r) allowed req s
    | Compiled cpt \<Rightarrow> component_outcome env cpt (r_group_id r) (r_id r) req s)"

section \<open>Dispatching one request\<close>

record dispatch_clock =
  ck_mono :: nat
  ck_touch :: int
  ck_touched :: int
  ck_now :: int
  ck_hit :: int
  ck_stream_log :: int
  ck_new_id :: string
  ck_elapsed_ms :: nat

text \<open>What a streamed request still has to journal when its handler ends; the join handle is the
  outcome it will deliver.\<close>

record streaming_ctx =
  sx_trace_id :: "string option"
  sx_matched :: matched_route
  sx_request :: request_envelope
  sx_status :: nat
  sx_headers :: pairs
  sx_dropped :: "string list"
  sx_outcome :: outcome

text \<open>\<^theory_text>\<open>Inl\<close> in the response is an infrastructural failure.\<close>

record 'c dispatched =
  dd_response :: "string + wire_response"
  dd_store :: mem_store
  dd_table :: "'c route_table"
  dd_callbacks :: "(callback_context \<times> scheduled_callback list) option"
  dd_pending :: "streaming_ctx option"

definition answered :: "wire_response \<Rightarrow> mem_store \<Rightarrow> 'c route_table \<Rightarrow> 'c dispatched" where
  "answered resp s t = \<lparr>dd_response = Inr resp, dd_store = s, dd_table = t, dd_callbacks = None, dd_pending = None\<rparr>"

datatype body_read = BodyOk bytes | TooLarge

definition read_body :: "http_lib \<Rightarrow> bytes \<Rightarrow> nat \<Rightarrow> body_read" where
  "read_body lib body max_bytes = (case ht_to_bytes lib body max_bytes of Some b \<Rightarrow> BodyOk b | None \<Rightarrow> TooLarge)"

definition redirect_to :: "string \<Rightarrow> wire_response" where
  "redirect_to target = \<lparr>wp_status = 303, wp_headers = [(''location'', target)], wp_body = Full []\<rparr>"

text \<open>The control-plane hosts: no mock traffic.\<close>

definition control_plane_answer :: "('c, 'z) dispatch_env_scheme \<Rightarrow> dispatch_clock \<Rightarrow> http_request \<Rightarrow> string option
    \<Rightarrow> mem_store \<Rightarrow> 'c route_table \<Rightarrow> 'c dispatched" where
  "control_plane_answer env ck req trace_id s t =
    (let lib = de_http env; inject = inject_response_trace_id lib trace_id in
     if hq_method req = ''GET'' \<and> hq_path req = ''/''
     then (case has_valid_session lib (de_sessions env) (ck_touch ck) (ck_touched ck) (hq_headers req) s of
        (ok, s') \<Rightarrow> answered (inject (redirect_to (if ok then ''/ui/'' else ''/auth/login''))) s' t)
     else if starts_with ''/ui/'' (hq_path req) then answered (inject (de_ui_not_found env (hq_path req))) s t
     else answered (inject (not_found_response ''not found'')) s t)"

definition record_miss :: "('c, 'z) dispatch_env_scheme \<Rightarrow> dispatch_clock \<Rightarrow> http_request \<Rightarrow> bytes \<Rightarrow> string option
    \<Rightarrow> string \<Rightarrow> group \<Rightarrow> mem_store \<Rightarrow> 'c route_table \<Rightarrow> panic + 'c dispatched" where
  "record_miss env ck req body trace_id label g s t =
    (case compute_near_misses_in_group t label (hq_method req) (hq_path req) of
      Inl p \<Rightarrow> Inl p
    | Inr nms \<Rightarrow>
       (let lib = de_http env;
            entry = \<lparr>nu_trace_id = trace_id, nu_group_id = g_id g, nu_group_name = g_name g,
              nu_request = build_request_envelope lib req body UNMATCHED_BODY_LIMIT,
              nu_near_misses = map project_near_miss nms\<rparr>;
            s' = snd (record_unmatched (de_unmatched env) (ck_new_id ck) (ck_now ck) entry s) in
        Inr (answered (inject_response_trace_id lib trace_id (not_found_response ''no route matched'')) s' t)))"

text \<open>The route for a request to a group, or the answer when there is none.\<close>

definition lookup_route :: "('c, 'z) dispatch_env_scheme \<Rightarrow> dispatch_clock \<Rightarrow> http_request \<Rightarrow> bytes \<Rightarrow> string option
    \<Rightarrow> string \<Rightarrow> mem_store \<Rightarrow> 'c route_table \<Rightarrow> panic + ('c dispatched + matched_route \<times> 'c route_table)" where
  "lookup_route env ck req body trace_id label s t =
    (case find_match_in_group t label (hq_method req) (hq_path req) of
      Inl p \<Rightarrow> Inl p
    | Inr (Some m) \<Rightarrow> Inr (Inr (m, t))
    | Inr None \<Rightarrow> (case fst (read_group_by_ref (de_registry env) label s) of
        Inl e \<Rightarrow> Inr (Inl (answered (inject_response_trace_id (de_http env) trace_id (not_found_response ''no such group'')) s t))
      | Inr g \<Rightarrow>
         (case revalidate_and_rematch (de_registry env) s (ck_mono ck) (g_id g) (g_name g) (hq_method req) (hq_path req) t of
            (Inl p, t') \<Rightarrow> Inl p
          | (Inr (Some m), t') \<Rightarrow> Inr (Inr (m, t'))
          | (Inr None, t') \<Rightarrow> (case record_miss env ck req body trace_id label g s t' of
              Inl p \<Rightarrow> Inl p | Inr d \<Rightarrow> Inr (Inl d)))))"

definition journal_entry :: "string option \<Rightarrow> matched_route \<Rightarrow> request_envelope \<Rightarrow> response_envelope
    \<Rightarrow> handler_log_entry list \<Rightarrow> nat \<Rightarrow> resource_usage \<Rightarrow> string option \<Rightarrow> string list \<Rightarrow> new_journal_entry" where
  "journal_entry trace_id m request response logs duration_ms resources err dropped = (let r = mr_route m in
    \<lparr>ne_trace_id = trace_id, ne_group_id = r_group_id r, ne_group_name = r_group_name r, ne_route_id = r_id r,
     ne_route_number = r_number r, ne_matched_pattern = mr_matched_pattern m, ne_request = request,
     ne_response = response, ne_path_params = mr_path_params m, ne_query = [], ne_handler_logs = logs,
     ne_duration_ms = duration_ms, ne_resources = resources, ne_error = err, ne_dropped_response_headers = dropped\<rparr>)"

text \<open>Journal, activity and sliding TTL: each best effort, whatever the one before did.\<close>

definition after_handler :: "('c, 'z) dispatch_env_scheme \<Rightarrow> dispatch_clock \<Rightarrow> route \<Rightarrow> new_journal_entry \<Rightarrow> mem_store \<Rightarrow> mem_store" where
  "after_handler env ck r entry s =
    (let s1 = snd (record_handled (de_handled env) (ck_new_id ck) (ck_now ck) entry s);
         s2 = snd (record_route_hit (de_registry env) (r_group_id r) (r_id r) (ck_hit ck) s1) in
     snd (refresh_group_if_sliding (de_registry env) (r_group_id r) s2))"

definition callbacks_to_fire :: "string option \<Rightarrow> route \<Rightarrow> scheduled_callback list
    \<Rightarrow> (callback_context \<times> scheduled_callback list) option" where
  "callbacks_to_fire trace_id r cbs = (if cbs = [] then None
     else Some (\<lparr>cc_trace_id = trace_id, cc_group_id = r_group_id r, cc_group_name = r_group_name r,
        cc_route_id = r_id r, cc_route_number = r_number r\<rparr>, cbs))"

definition buffered_parts :: "http_lib \<Rightarrow> string + wit_response
    \<Rightarrow> (response_envelope \<times> string list \<times> wire_response \<times> string option) option" where
  "buffered_parts lib result = (case result of
      Inr w \<Rightarrow> (let f = filter_handler_headers lib (wr_headers w) in
        Some (summarize_response (wr_status w) f (wr_body w), fh_dropped f, build_axum_response_owned lib w f, None))
    | Inl e \<Rightarrow> (let msg = friendly_handler_error e in
        map_option (\<lambda>resp. (\<lparr>rs_status = 500, rs_headers = [], rs_body = msg, rs_body_truncated = False,
          rs_original_body_size = length msg\<rparr>, [], resp, Some msg)) (error_response lib 500 msg)))"

definition buffered_answer :: "('c, 'z) dispatch_env_scheme \<Rightarrow> dispatch_clock \<Rightarrow> string option \<Rightarrow> matched_route
    \<Rightarrow> request_envelope \<Rightarrow> outcome \<Rightarrow> mem_store \<Rightarrow> 'c route_table \<Rightarrow> panic + 'c dispatched" where
  "buffered_answer env ck trace_id m request oc s t =
    (let duration_ms = ck_elapsed_ms ck; r = mr_route m in
     case buffered_parts (de_http env) (oc_result oc) of
       None \<Rightarrow> Inl Unreachable
     | Some (envelope, dropped, resp, err) \<Rightarrow>
        (let entry = journal_entry trace_id m request envelope (map into_dry_log (oc_logs oc)) duration_ms
               ((oc_resources oc)\<lparr>wall_clock_ms := duration_ms\<rparr>) err dropped in
         Inr \<lparr>dd_response = Inr (inject_response_trace_id (de_http env) trace_id resp),
           dd_store = after_handler env ck r entry s, dd_table = t,
           dd_callbacks = callbacks_to_fire trace_id r (oc_callbacks oc), dd_pending = None\<rparr>))"

definition streaming_answer :: "('c, 'z) dispatch_env_scheme \<Rightarrow> string option \<Rightarrow> matched_route
    \<Rightarrow> request_envelope \<Rightarrow> stream_head \<Rightarrow> outcome \<Rightarrow> mem_store \<Rightarrow> 'c route_table \<Rightarrow> 'c dispatched" where
  "streaming_answer env trace_id m request head oc s t =
    (let f = filter_handler_headers (de_http env) (sh_headers head) in
     \<lparr>dd_response = Inr (build_streaming_response (de_http env) head f (oc_chunks oc) trace_id),
      dd_store = s, dd_table = t, dd_callbacks = None,
      dd_pending = Some \<lparr>sx_trace_id = trace_id, sx_matched = m, sx_request = request, sx_status = sh_status head,
        sx_headers = fh_sent f, sx_dropped = fh_dropped f, sx_outcome = oc\<rparr>\<rparr>)"

definition dispatch_matched :: "('c, 'z) dispatch_env_scheme \<Rightarrow> dispatch_clock \<Rightarrow> http_request \<Rightarrow> bytes \<Rightarrow> string option
    \<Rightarrow> matched_route \<Rightarrow> mem_store \<Rightarrow> 'c route_table \<Rightarrow> panic + 'c dispatched" where
  "dispatch_matched env ck req body trace_id m s t =
    (let lib = de_http env; r = mr_route m;
         request = build_request_envelope lib req body HANDLED_BODY_LIMIT;
         wit = build_wit_request lib req body (mr_matched_pattern m) (mr_path_params m) in
     case handler_code_for env r t of
       (Inl e, t') \<Rightarrow> Inr \<lparr>dd_response = Inl e, dd_store = s, dd_table = t', dd_callbacks = None, dd_pending = None\<rparr>
     | (Inr code0, t') \<Rightarrow>
        (case run_handler env code0 r (callouts_allowed_for env r s) wit s of
          (oc, s') \<Rightarrow> (case oc_head oc of
              Some head \<Rightarrow> Inr (streaming_answer env trace_id m request head oc s' t')
            | None \<Rightarrow> buffered_answer env ck trace_id m request oc s' t')))"

definition dispatch_inner :: "('c, 'z) dispatch_env_scheme \<Rightarrow> dispatch_clock \<Rightarrow> http_request \<Rightarrow> mem_store
    \<Rightarrow> 'c route_table \<Rightarrow> panic + 'c dispatched" where
  "dispatch_inner env ck req s t =
    (let lib = de_http env; trace_id = ht_trace_id lib (hq_headers req) in
     case read_body lib (hq_body req) MAX_DISPATCH_BODY_BYTES of
       TooLarge \<Rightarrow> (case error_response lib 413 (''request body exceeds '' @ show_nat MAX_DISPATCH_BODY_BYTES @ '' byte limit'') of
           None \<Rightarrow> Inl Unreachable
         | Some resp \<Rightarrow> Inr (answered (inject_response_trace_id lib trace_id resp) s t))
     | BodyOk body \<Rightarrow> (case resolve_host_kind lib (hq_headers req) (de_apex env) of
           GroupHost label \<Rightarrow> (case lookup_route env ck req body trace_id label s t of
               Inl p \<Rightarrow> Inl p
             | Inr (Inl d) \<Rightarrow> Inr d
             | Inr (Inr (m, t')) \<Rightarrow> dispatch_matched env ck req body trace_id m s t')
         | _ \<Rightarrow> Inr (control_plane_answer env ck req trace_id s t)))"

text \<open>\<^theory_text>\<open>dispatch\<close>: an infrastructural failure becomes a 500.\<close>

definition dispatch :: "('c, 'z) dispatch_env_scheme \<Rightarrow> dispatch_clock \<Rightarrow> http_request \<Rightarrow> mem_store
    \<Rightarrow> 'c route_table \<Rightarrow> panic + wire_response \<times> 'c dispatched" where
  "dispatch env ck req s t = (case dispatch_inner env ck req s t of
      Inl p \<Rightarrow> Inl p
    | Inr d \<Rightarrow> (case dd_response d of
        Inr resp \<Rightarrow> Inr (resp, d)
      | Inl e \<Rightarrow> (case error_response (de_http env) 500 e of None \<Rightarrow> Inl Unreachable | Some resp \<Rightarrow> Inr (resp, d))))"

section \<open>The journal entry of a streamed response\<close>

definition stream_entry :: "dispatch_clock \<Rightarrow> streaming_ctx \<Rightarrow> new_journal_entry" where
  "stream_entry ck ctx =
    (let oc = sx_outcome ctx; duration_ms = ck_elapsed_ms ck;
         (chunks, byte_count, disposition) = (case oc_stream oc of
             Some su \<Rightarrow> (su_chunks su, su_bytes su, su_disposition su) | None \<Rightarrow> (0, 0, ''finished''));
         note_line = \<lparr>hl_level = ''info'', hl_message = ''[stream] '' @ show_nat chunks @ '' chunks, ''
             @ show_nat byte_count @ '' bytes, '' @ disposition, hl_timestamp = ck_stream_log ck\<rparr>;
         err = (case oc_result oc of
             Inl e \<Rightarrow> Some e
           | Inr _ \<Rightarrow> if disposition \<noteq> ''finished''
               then Some (''stream '' @ disposition @ '' after '' @ show_nat chunks @ '' chunks'') else None) in
     journal_entry (sx_trace_id ctx) (sx_matched ctx) (sx_request ctx)
       \<lparr>rs_status = sx_status ctx, rs_headers = sx_headers ctx, rs_body = [], rs_body_truncated = True,
        rs_original_body_size = byte_count\<rparr>
       (map into_dry_log (oc_logs oc) @ [note_line]) duration_ms
       ((oc_resources oc)\<lparr>wall_clock_ms := duration_ms\<rparr>) err (sx_dropped ctx))"

definition streaming_journal :: "('c, 'z) dispatch_env_scheme \<Rightarrow> dispatch_clock \<Rightarrow> streaming_ctx \<Rightarrow> mem_store
    \<Rightarrow> mem_store \<times> (callback_context \<times> scheduled_callback list) option" where
  "streaming_journal env ck ctx s = (let r = mr_route (sx_matched ctx) in
     (after_handler env ck r (stream_entry ck ctx) s,
      callbacks_to_fire (sx_trace_id ctx) r (oc_callbacks (sx_outcome ctx))))"

section \<open>Filtering handler headers\<close>

lemma header_append_values:
  "filter (\<lambda>p. fst p = a) (header_append n v hs) = filter (\<lambda>p. fst p = a) hs @ (if a = n then [(n, v)] else [])"
proof (induction n v hs rule: header_append.induct)
  case (2 n v x b hs)
  show ?case
  proof (cases "x = n \<and> n \<notin> fst ` set hs")
    case True
    then have "filter (\<lambda>p. fst p = n) hs = []" by (auto simp: filter_empty_conv)
    with True show ?thesis by (cases "a = n") simp_all
  next
    case False
    then have "header_append n v ((x, b) # hs) = (x, b) # header_append n v hs" by auto
    then show ?thesis using 2[OF False] by simp
  qed
qed simp

definition header_map :: "pairs \<Rightarrow> pairs" where
  "header_map ps = fold (\<lambda>(n, v). header_append n v) ps []"

lemma header_map_values: "filter (\<lambda>p. fst p = a) (header_map ps) = filter (\<lambda>p. fst p = a) ps"
proof -
  have "filter (\<lambda>p. fst p = a) (fold (\<lambda>(n, v). header_append n v) ps hs)
      = filter (\<lambda>p. fst p = a) hs @ filter (\<lambda>p. fst p = a) ps" for hs
    by (induction ps arbitrary: hs) (auto simp: header_append_values)
  then show ?thesis by (simp add: header_map_def)
qed

text \<open>What becomes of one header.\<close>

definition header_fate :: "http_lib \<Rightarrow> string \<times> string \<Rightarrow> string + string \<times> string" where
  "header_fate lib h = (case ht_header_name lib (fst h) of
      None \<Rightarrow> Inl (fst h)
    | Some n \<Rightarrow>
      if reserved_response_header n then Inl n
      else if ht_value_ok lib (snd h) then Inr (n, snd h)
      else if ht_value_ok lib (sanitize_header_text (snd h)) then Inr (n, sanitize_header_text (snd h))
      else Inl n)"

lemma filter_each_fates:
  "filter_each lib hs f = f\<lparr>
     fh_wire := fold (\<lambda>(n, v). header_append n v)
       (List.map_filter (\<lambda>x. case x of Inr p \<Rightarrow> Some p | Inl _ \<Rightarrow> None) (map (header_fate lib) hs)) (fh_wire f),
     fh_sent := fh_sent f @ List.map_filter (\<lambda>x. case x of Inr p \<Rightarrow> Some p | Inl _ \<Rightarrow> None) (map (header_fate lib) hs),
     fh_dropped := fh_dropped f @ List.map_filter (\<lambda>x. case x of Inl n \<Rightarrow> Some n | Inr _ \<Rightarrow> None) (map (header_fate lib) hs)\<rparr>"
  by (induction lib hs f rule: filter_each.induct)
    (auto simp: header_fate_def drop_header_def send_header_def List.map_filter_simps Let_def split: option.splits)

text \<open>\<^theory_text>\<open>HeaderValue\<close> rejects control bytes other than tab, and DEL.\<close>

definition header_byte :: "char \<Rightarrow> bool" where
  "header_byte c \<longleftrightarrow> c = CHR 0x09 \<or> (32 \<le> code c \<and> code c \<noteq> 127)"

definition http_lib_ok :: "http_lib \<Rightarrow> bool" where
  "http_lib_ok lib \<longleftrightarrow> (\<forall>v. ht_value_ok lib v \<longleftrightarrow> list_all header_byte v)"

lemma sanitized_bytes: "list_all header_byte (sanitize_header_text v)"
  by (induction v) (simp_all add: sanitize_header_text_def header_byte_def)

lemma sanitized_ok: "http_lib_ok lib \<Longrightarrow> ht_value_ok lib (sanitize_header_text v)"
  using sanitized_bytes by (simp add: http_lib_ok_def)

lemma sanitize_id: "list_all header_byte v \<Longrightarrow> sanitize_header_text v = v"
  by (induction v) (auto simp: sanitize_header_text_def header_byte_def)

lemma error_response_answers:
  "http_lib_ok lib \<Longrightarrow> error_response lib status msg = Some \<lparr>wp_status = status,
     wp_headers = [(''x-wiremirage-error'', sanitize_header_text (first_line msg))], wp_body = Full msg\<rparr>"
  by (simp add: error_response_def Let_def sanitized_ok)

lemma fates:
  assumes "http_lib_ok lib"
  shows "header_fate lib h = (case ht_header_name lib (fst h) of
      None \<Rightarrow> Inl (fst h)
    | Some n \<Rightarrow> if reserved_response_header n then Inl n else Inr (n, sanitize_header_text (snd h)))"
  using sanitized_ok[OF assms] sanitize_id assms
  by (auto simp: header_fate_def http_lib_ok_def split: option.split)

text \<open>The reference: the pairs to send and the names dropped.\<close>

definition sendable :: "http_lib \<Rightarrow> string \<times> string \<Rightarrow> (string \<times> string) option" where
  "sendable lib h = (case ht_header_name lib (fst h) of
      Some n \<Rightarrow> if reserved_response_header n then None else Some (n, sanitize_header_text (snd h)) | None \<Rightarrow> None)"

definition refused_name :: "http_lib \<Rightarrow> string \<times> string \<Rightarrow> string option" where
  "refused_name lib h = (case ht_header_name lib (fst h) of
      Some n \<Rightarrow> if reserved_response_header n then Some n else None | None \<Rightarrow> Some (fst h))"

lemma map_filter_map: "List.map_filter f (map g xs) = List.map_filter (f \<circ> g) xs"
  by (induction xs) (simp_all add: List.map_filter_simps split: option.split)

lemma filter_handler_headers_fates:
  assumes "http_lib_ok lib"
  shows "filter_handler_headers lib hs = \<lparr>fh_wire = header_map (List.map_filter (sendable lib) hs),
     fh_sent = List.map_filter (sendable lib) hs, fh_dropped = List.map_filter (refused_name lib) hs\<rparr>"
proof -
  have "(\<lambda>x. case x of Inr p \<Rightarrow> Some p | Inl _ \<Rightarrow> None) \<circ> header_fate lib = sendable lib"
    "(\<lambda>x. case x of Inl n \<Rightarrow> Some n | Inr _ \<Rightarrow> None) \<circ> header_fate lib = refused_name lib"
    by (auto simp: fun_eq_iff fates[OF assms] sendable_def refused_name_def split: option.split)
  then show ?thesis
    by (simp add: filter_handler_headers_def filter_each_fates map_filter_map no_headers_def header_map_def)
qed

lemma map_filter_lengths:
  "length (List.map_filter (sendable lib) hs) + length (List.map_filter (refused_name lib) hs) = length hs"
  by (induction hs) (auto simp: List.map_filter_simps sendable_def refused_name_def split: option.split)

lemma sendable_clean:
  "(n, v) \<in> set (List.map_filter (sendable lib) hs) \<Longrightarrow> \<not> reserved_response_header n \<and> list_all header_byte v"
  using sanitized_bytes
  by (induction hs) (auto simp: List.map_filter_simps sendable_def split: option.splits if_splits)


definition demo_http :: http_lib where
  "demo_http = \<lparr>ht_to_str = Some, ht_header_name = (\<lambda>n. if n = [] then None else Some (to_lower n)),
     ht_value_ok = list_all header_byte, ht_status_ok = (\<lambda>n. 100 \<le> n \<and> n < 1000), ht_trace_id = (\<lambda>h. None),
     ht_to_bytes = (\<lambda>b n. if length b \<le> n then Some b else None), ht_url_decode = Some, ht_lowercase = to_lower\<rparr>"

lemma demo_http_ok: "http_lib_ok demo_http"
  by (simp add: http_lib_ok_def demo_http_def)


section \<open>Every request is answered\<close>

lemma lookup_answers: "\<exists>x. lookup_route env ck req body tr label s t = Inr x"
proof -
  have m: "\<exists>out. find_match_filtered t' g (hq_method req) (hq_path req) = Inr out" for g and t' :: "'a route_table"
    using find_match_outcome[of t' g "hq_method req" "hq_path req"] by metis
  have nm: "\<exists>near. compute_near_misses_in_group t' label (hq_method req) (hq_path req) = Inr near" for t' :: "'a route_table"
    using near_misses_ok[of "Some label" "hq_method req" "hq_path req" "routes t'"]
    by (auto simp: compute_near_misses_in_group_def compute_near_misses_filtered_def)
  obtain out where o: "find_match_in_group t label (hq_method req) (hq_path req) = Inr out"
    using m by (auto simp: find_match_in_group_def)
  show ?thesis
  proof (cases out)
    case None
    show ?thesis
    proof (cases "fst (read_group_by_ref (de_registry env) label s)")
      case (Inr g)
      obtain b t' where b: "revalidate_group (de_registry env) s (ck_mono ck) (g_id g) t = (b, t')" by fastforce
      obtain out' where o': "find_match_filtered t' (Some (g_name g)) (hq_method req) (hq_path req) = Inr out'" using m by blast
      obtain near where n: "compute_near_misses_in_group t' label (hq_method req) (hq_path req) = Inr near" using nm by blast
      show ?thesis using None o Inr b o' n
        by (cases b; cases out') (simp_all add: lookup_route_def revalidate_and_rematch_def record_miss_def Let_def)
    qed (simp add: lookup_route_def o None)
  qed (simp add: lookup_route_def o)
qed

lemma buffered_answers:
  assumes "http_lib_ok (de_http env)"
  shows "\<exists>d resp. buffered_answer env ck tr m request oc s t = Inr d \<and> dd_response d = Inr resp"
  by (cases "oc_result oc")
    (simp_all add: buffered_answer_def buffered_parts_def error_response_answers[OF assms] Let_def)


definition demo_dispatch :: "unit dispatch_env" where
  "demo_dispatch = host_env.extend demo_engine
     (dispatch_env.fields demo_http sample_env demo_codec demo_unmatched_codec ''localhost'' False None
       (\<lambda>p. not_found_response p) 0 0)"

lemma demo_dispatch_http [simp]: "de_http demo_dispatch = demo_http" "de_apex demo_dispatch = ''localhost''"
  by (simp_all add: demo_dispatch_def dispatch_env.defs host_env.defs)

definition demo_clock :: dispatch_clock where
  "demo_clock = \<lparr>ck_mono = 0, ck_touch = 0, ck_touched = 0, ck_now = 0, ck_hit = 0, ck_stream_log = 0,
     ck_new_id = ulid_c, ck_elapsed_ms = 1\<rparr>"


section \<open>A request reaches only the group it names\<close>

text \<open>The keys of handler state.\<close>

definition handler_key :: "string \<Rightarrow> bool" where
  "handler_key k \<longleftrightarrow> (\<exists>u. k = ''kv:'' @ u \<or> k = ''gkv:'' @ u)"

lemma after_handler_keeps:
  assumes "handler_key k"
  shows "map_of (after_handler env ck r entry s) k = map_of s k"
proof -
  have k: "k \<noteq> counters_key g" "k \<noteq> journal_key g i" "k \<noteq> journal_number_key g n" "k \<noteq> route_key i" "k \<noteq> group_key g"
    for g i n using assms
    by (auto simp: handler_key_def counters_key_def journal_key_def journal_number_key_def route_key_def group_key_def)
  have 1: "keeps k (record_handled c i now e)" for c i now e
    unfolding record_handled_def Let_def encoded_def
    by (intro keeps_intros; simp add: k admin_bucket_def)
  have 2: "keeps k (record_route_hit reg g i now)" for reg g i now
    unfolding record_route_hit_def Let_def
    by (intro keeps_intros; simp add: k admin_bucket_def)
  have 3: "keeps k (refresh_group_if_sliding reg g)" for reg g
  proof (unfold keeps_def, rule allI)
    fix s
    obtain x s1 where r: "read_group reg g s = (x, s1)" by fastforce
    have s1: "map_of s1 k = map_of s k" by (rule keepsD[OF keeps_read_group r])
    have a: "keeps k (seq_io (arm_group_ttls i n m) (ret b))" for i n m and b :: bool by (intro keeps_intros)
    show "map_of (snd (refresh_group_if_sliding reg g s)) k = map_of s k"
    proof (cases x)
      case (Inl e)
      then show ?thesis using r s1 by (cases e) (simp_all add: refresh_group_if_sliding_def)
    next
      case (Inr gr)
      then show ?thesis using r s1 a[unfolded keeps_def] by (simp add: refresh_group_if_sliding_def ret_def)
    qed
  qed
  show ?thesis by (simp add: after_handler_def Let_def keeps_snd[OF 1] keeps_snd[OF 2] keeps_snd[OF 3])
qed

lemma session_keeps:
  assumes "handler_key k"
  shows "map_of (snd (has_valid_session lib sessions now later hs s)) k = map_of s k"
proof -
  have k: "k \<noteq> session_key tok" for tok using assms by (auto simp: handler_key_def session_key_def)
  have d: "keeps k (session_delete tok)" "keeps k (session_write ss tok x)" "keeps k (session_read ss tok)" for tok ss x
    unfolding session_delete_def session_write_def session_read_def
    by (intro keeps_intros; simp add: k admin_bucket_def keeps_pure split: option.split)+
  have "keeps k (session_touch ss now later c)" for ss c
    unfolding session_touch_def Let_def
    by (auto intro!: keeps_intros d split: option.split prod.split)
  then show ?thesis
    by (auto simp: has_valid_session_def keeps_def split: option.split prod.split) (metis snd_conv)
qed

lemma miss_keeps:
  assumes "handler_key k" "record_miss env ck req body tr label g s t = Inr d"
  shows "map_of (dd_store d) k = map_of s k"
proof -
  have k: "k \<noteq> ''unmatched:counter''" "k \<noteq> unmatched_key i" "k \<noteq> unmatched_number_key n" for i n
    using assms(1) by (auto simp: handler_key_def unmatched_key_def unmatched_number_key_def)
  have "keeps k (record_unmatched c i now e)" for c i now e
    unfolding record_unmatched_def Let_def encoded_def
    by (intro keeps_intros; simp add: k admin_bucket_def)
  then show ?thesis using assms(2)
    by (auto simp: record_miss_def answered_def Let_def keeps_snd split: sum.splits)
qed

lemma handler_keeps:
  assumes "\<not> own_keys (r_group_id r) (r_id r) k"
  shows "map_of (snd (run_handler env c r allowed req s)) k = map_of s k"
proof -
  let ?P = "own_keys (r_group_id r) (r_id r)" and ?rb = "route_bucket (r_group_id r) (r_id r)" and ?gb = "group_bucket (r_group_id r)"
  have "buckets_within ?P (hw_state (handler_world (set_response_stream_sink (instantiate_engine_state src ?rb ?gb allowed)) s))" for src
    by (rule own_buckets) (simp add: handler_world_def set_response_stream_sink_def instantiated_tables)
  note e = view_frame[OF run_confined(1)[OF this], of k, OF assms]
  have "buckets_within ?P (hw_state (handler_world (instantiate_state (he_max_memory env) ?rb ?gb) s))"
    by (rule own_buckets) (simp add: handler_world_def instantiated_tables)
  note c = view_frame[OF run_confined(1)[OF this], of k, OF assms]
  have "map_of (snd (call_engine env src ?rb ?gb allowed req s)) k = map_of s k" for src
    using e by (auto simp: call_engine_def handler_world_def split: option.splits sum.splits prod.splits) (metis snd_conv)
  moreover have "map_of (snd (call_component env cpt ?rb ?gb req s)) k = map_of s k" for cpt
    using c by (auto simp: call_component_def handler_world_def split: sum.splits prod.splits) (metis snd_conv)
  ultimately show ?thesis
    by (auto simp: run_handler_def engine_outcome_def component_outcome_def split: handler_code.split prod.split sum.split)
      (metis snd_conv)+
qed

definition addressed :: "registry_env \<Rightarrow> mem_store \<Rightarrow> string \<Rightarrow> route \<Rightarrow> bool" where
  "addressed reg s label r \<longleftrightarrow> r_group_name r = label
     \<or> (\<exists>g. fst (read_group_by_ref reg label s) = Inr g \<and> r_group_name r = g_name g)"

lemma lookup_found:
  assumes "lookup_route env ck req body tr label s t = Inr (Inr (m, t'))"
  shows "mr_route m \<in> set (routes t')" "addressed (de_registry env) s label (mr_route m)"
    "route_accepts (mr_route m) (hq_method req, hq_path req)" "matched_ok (hq_method req) (hq_path req) m"
proof -
  have f: "mr_route m \<in> set (routes t') \<and> r_group_name (mr_route m) = g
      \<and> route_accepts (mr_route m) (hq_method req, hq_path req) \<and> matched_ok (hq_method req) (hq_path req) m"
    if h: "find_match_filtered t' (Some g) (hq_method req) (hq_path req) = Inr (Some m)" for g
  proof -
    obtain out where o: "find_match_filtered t' (Some g) (hq_method req) (hq_path req) = Inr out"
      "case out of None \<Rightarrow> \<forall>x \<in> set (routes t'). \<not> eligible (Some g) (hq_method req) (hq_path req) x
       | Some mr \<Rightarrow> preferred (eligible (Some g) (hq_method req) (hq_path req)) route_rank (routes t') (mr_route mr)
           \<and> matched_ok (hq_method req) (hq_path req) mr"
      by (rule find_match_outcome)
    then show ?thesis using h by (auto simp: preferred_def)
  qed
  have "\<exists>g. find_match_filtered t' (Some g) (hq_method req) (hq_path req) = Inr (Some m)
      \<and> (g = label \<or> (\<exists>gr. fst (read_group_by_ref (de_registry env) label s) = Inr gr \<and> g = g_name gr))"
    using assms
    by (auto simp: lookup_route_def find_match_in_group_def revalidate_and_rematch_def
        split: sum.splits option.splits prod.splits bool.splits)
  then obtain g where g: "find_match_filtered t' (Some g) (hq_method req) (hq_path req) = Inr (Some m)"
    "g = label \<or> (\<exists>gr. fst (read_group_by_ref (de_registry env) label s) = Inr gr \<and> g = g_name gr)" by blast
  show "mr_route m \<in> set (routes t')" "addressed (de_registry env) s label (mr_route m)"
    "route_accepts (mr_route m) (hq_method req, hq_path req)" "matched_ok (hq_method req) (hq_path req) m"
    using f[OF g(1)] g(2) by (auto simp: addressed_def)
qed

lemma miss_quiet:
  "record_miss env ck req body tr label g s t = Inr d \<Longrightarrow> dd_callbacks d = None \<and> dd_pending d = None"
  by (auto simp: record_miss_def answered_def Let_def split: sum.splits)

lemma lookup_missed:
  assumes "lookup_route env ck req body tr label s t = Inr (Inl d)"
  shows "handler_key k \<Longrightarrow> map_of (dd_store d) k = map_of s k" "dd_callbacks d = None \<and> dd_pending d = None"
proof -
  have "(dd_store d = s \<and> dd_callbacks d = None \<and> dd_pending d = None)
      \<or> (\<exists>g t'. record_miss env ck req body tr label g s t' = Inr d)"
    using assms
    by (auto simp: lookup_route_def answered_def split: sum.splits option.splits prod.splits)
  then show "handler_key k \<Longrightarrow> map_of (dd_store d) k = map_of s k" "dd_callbacks d = None \<and> dd_pending d = None"
    using miss_keeps[of k env ck req body tr label _ s] miss_quiet[of env ck req body tr label _ s] by metis+
qed

lemma matched_keeps:
  assumes "dispatch_matched env ck req body tr m s t = Inr d" "handler_key k"
    and "\<not> own_keys (r_group_id (mr_route m)) (r_id (mr_route m)) k"
  shows "map_of (dd_store d) k = map_of s k"
proof -
  let ?r = "mr_route m" and ?wit = "build_wit_request (de_http env) req body (mr_matched_pattern m) (mr_path_params m)"
  obtain c t1 where 1: "handler_code_for env ?r t = (c, t1)" by fastforce
  show ?thesis
  proof (cases c)
    case (Inr code0)
    obtain oc s1 where 2: "run_handler env code0 ?r (callouts_allowed_for env ?r s) ?wit s = (oc, s1)" by fastforce
    have "map_of s1 k = map_of s k" using handler_keeps[OF assms(3), of env code0 _ ?wit s] 2 by (metis snd_conv)
    then show ?thesis using assms(1) 1 2 Inr after_handler_keeps[OF assms(2), of env]
      by (auto simp: dispatch_matched_def buffered_answer_def streaming_answer_def Let_def split: option.splits prod.splits)
  qed (use assms(1) 1 in \<open>auto simp: dispatch_matched_def Let_def\<close>)
qed

lemma handler_code_routes: "handler_code_for env r t = (c, t') \<Longrightarrow> routes t' = routes t"
  by (auto simp: handler_code_for_def engine_source_for_def component_for_def split: if_splits option.splits sum.splits prod.splits)

lemma matched_table:
  assumes "dispatch_matched env ck req body tr m s t = Inr d"
  shows "routes (dd_table d) = routes t"
proof -
  let ?r = "mr_route m" and ?wit = "build_wit_request (de_http env) req body (mr_matched_pattern m) (mr_path_params m)"
  obtain c t1 where 1: "handler_code_for env ?r t = (c, t1)" by fastforce
  have "dd_table d = t1"
  proof (cases c)
    case (Inr code0)
    obtain oc s1 where 2: "run_handler env code0 ?r (callouts_allowed_for env ?r s) ?wit s = (oc, s1)" by fastforce
    show ?thesis using assms 1 2 Inr
      by (auto simp: dispatch_matched_def buffered_answer_def streaming_answer_def Let_def split: option.splits prod.splits)
  qed (use assms 1 in \<open>auto simp: dispatch_matched_def Let_def\<close>)
  then show ?thesis using handler_code_routes[OF 1] by simp
qed

text \<open>The ways through the dispatcher: an answer without a handler, or a matched route.\<close>

lemma dispatch_inner_ways:
  assumes "dispatch_inner env ck req s t = Inr d"
  obtains (quiet) "dd_callbacks d = None" "dd_pending d = None"
      "\<And>k. handler_key k \<Longrightarrow> map_of (dd_store d) k = map_of s k"
  | (matched) label body m t' where "resolve_host_kind (de_http env) (hq_headers req) (de_apex env) = GroupHost label"
      "lookup_route env ck req body (ht_trace_id (de_http env) (hq_headers req)) label s t = Inr (Inr (m, t'))"
      "dispatch_matched env ck req body (ht_trace_id (de_http env) (hq_headers req)) m s t' = Inr d"
proof (cases "read_body (de_http env) (hq_body req) MAX_DISPATCH_BODY_BYTES")
  case TooLarge
  then show ?thesis using assms quiet by (auto simp: dispatch_inner_def answered_def Let_def split: option.splits)
next
  case (BodyOk body)
  show ?thesis
  proof (cases "resolve_host_kind (de_http env) (hq_headers req) (de_apex env)")
    case (GroupHost label)
    let ?tr = "ht_trace_id (de_http env) (hq_headers req)"
    obtain x where x: "lookup_route env ck req body ?tr label s t = Inr x" using lookup_answers by blast
    show ?thesis
    proof (cases x)
      case (Inl d')
      then have "d' = d" using assms x by (simp add: dispatch_inner_def BodyOk GroupHost Let_def)
      then have "lookup_route env ck req body ?tr label s t = Inr (Inl d)" using x Inl by simp
      note miss = lookup_missed[OF this]
      show ?thesis by (rule quiet) (use miss in blast)+
    next
      case (Inr y)
      obtain m t' where y: "y = (m, t')" by fastforce
      then have "dispatch_matched env ck req body ?tr m s t' = Inr d"
        using assms x Inr by (simp add: dispatch_inner_def BodyOk GroupHost Let_def)
      then show ?thesis using matched GroupHost x Inr y by blast
    qed
  qed (use assms quiet session_keeps in \<open>auto simp: dispatch_inner_def BodyOk control_plane_answer_def answered_def Let_def
        split: if_splits prod.splits, (metis snd_conv)+\<close>)
qed

lemma dispatch_inner_of: "dispatch env ck req s t = Inr (resp, d) \<Longrightarrow> dispatch_inner env ck req s t = Inr d"
  by (auto simp: dispatch_def split: sum.splits option.splits)

text \<open>A request changes the state of handlers only of the group it names.  If dispatching it
  changed a key of handler state at all, then its host is a subdomain of the apex, the table
  holds a route of that group whose pattern and methods accept the request, and the key belongs
  to that route's bucket or to that group's shared bucket.  Control-plane hosts, unknown groups,
  unmatched and oversized requests change no handler state.\<close>

theorem dispatch_stays_in_group:
  assumes "dispatch env ck req s t = Inr (resp, d)" "handler_key k" "map_of (dd_store d) k \<noteq> map_of s k"
  shows "\<exists>label r. resolve_host_kind (de_http env) (hq_headers req) (de_apex env) = GroupHost label
    \<and> r \<in> set (routes (dd_table d)) \<and> addressed (de_registry env) s label r
    \<and> route_accepts r (hq_method req, hq_path req) \<and> own_keys (r_group_id r) (r_id r) k"
  using dispatch_inner_of[OF assms(1)]
proof (cases rule: dispatch_inner_ways)
  case quiet
  then show ?thesis using assms(2,3) by blast
next
  case (matched label body m t')
  have "own_keys (r_group_id (mr_route m)) (r_id (mr_route m)) k"
    using matched_keeps[OF matched(3) assms(2)] assms(3) by blast
  then show ?thesis
    using matched(1) lookup_found[OF matched(2)] matched_table[OF matched(3)] by metis
qed

lemma engine_callbacks:
  assumes "engine_outcome env src gid rid allowed req s = (oc, s')"
  shows "length (oc_callbacks oc) \<le> MAX_CALLBACKS_PER_REQUEST \<and> (oc_callbacks oc \<noteq> [] \<longrightarrow> allowed)"
proof -
  let ?hst = "set_response_stream_sink (instantiate_engine_state src (route_bucket gid rid) (group_bucket gid) allowed)"
  have i: "host_inv (hw_state (handler_world ?hst s))" unfolding handler_world_def using start_inv(1) by simp
  have a: "hs_callouts_allowed (hw_state (handler_world ?hst s)) = allowed"
    by (simp add: handler_world_def set_response_stream_sink_def instantiate_engine_state_def with_buckets_def
        push_bucket_def Let_def)
  show ?thesis
  proof (cases "he_engine env")
    case (Some x)
    show ?thesis
    proof (cases x)
      case (Inr prog)
      obtain r w where r: "run_program (he_readings env) (Some (he_stream_max env)) (he_engine_steps env) (prog req) []
          (handler_world ?hst s) = (r, w)" by fastforce
      have "handler_step\<^sup>*\<^sup>* (handler_world ?hst s) w"
        using run_reaches[of "handler_world ?hst s" "he_readings env" "Some (he_stream_max env)" "he_engine_steps env" "prog req" "[]"] r
        by simp
      from steps_keep[OF this i] a have "host_inv (hw_state w)" "hs_callouts_allowed (hw_state w) = allowed" by simp_all
      then show ?thesis using assms Some Inr r
        by (auto simp: engine_outcome_def call_engine_def host_inv_def)
    qed (use assms Some in \<open>auto simp: engine_outcome_def call_engine_def not_started_def\<close>)
  qed (use assms in \<open>auto simp: engine_outcome_def call_engine_def not_started_def\<close>)
qed

lemma run_handler_callbacks:
  assumes "run_handler env c r allowed req s = (oc, s')"
  shows "length (oc_callbacks oc) \<le> MAX_CALLBACKS_PER_REQUEST \<and> (oc_callbacks oc \<noteq> [] \<longrightarrow> allowed)"
proof (cases c)
  case (EngineSource src)
  then show ?thesis using assms engine_callbacks by (simp add: run_handler_def)
next
  case (Compiled cpt)
  then show ?thesis using assms
    by (auto simp: run_handler_def component_outcome_def not_started_def split: prod.splits sum.splits)
qed

text \<open>C34: Callbacks need the operator and the group.  A dispatched request hands callbacks to the
  background, at once or when its stream ends, only if the host runs with egress enabled, the
  route is a source-language one and its group has opted in at that moment; there are at most
  sixteen, and they carry the route's own group and number.\<close>

theorem callbacks_need_opt_in:
  assumes "dispatch env ck req s t = Inr (resp, d)"
    and "dd_callbacks d = Some (ctx, cbs) \<or> (\<exists>sx. dd_pending d = Some sx
      \<and> snd (streaming_journal env ck' sx s') = Some (ctx, cbs))"
  shows "\<exists>r g. route_accepts r (hq_method req, hq_path req) \<and> cc_group_id ctx = r_group_id r
    \<and> cc_route_id ctx = r_id r \<and> cc_route_number ctx = r_number r
    \<and> de_egress_enabled env \<and> is_source_language (r_language r)
    \<and> fst (read_group_by_ref (de_registry env) (r_group_id r) s) = Inr g \<and> g_callout_enabled g
    \<and> cbs \<noteq> [] \<and> length cbs \<le> 16"
  using dispatch_inner_of[OF assms(1)]
proof (cases rule: dispatch_inner_ways)
  case quiet
  then show ?thesis using assms(2) by simp
next
  case (matched label body m t')
  let ?r = "mr_route m" and ?tr = "ht_trace_id (de_http env) (hq_headers req)"
  let ?wit = "build_wit_request (de_http env) req body (mr_matched_pattern m) (mr_path_params m)"
  obtain c t1 where 1: "handler_code_for env ?r t' = (c, t1)" by fastforce
  show ?thesis
  proof (cases c)
    case (Inr code0)
    obtain oc s1 where 2: "run_handler env code0 ?r (callouts_allowed_for env ?r s) ?wit s = (oc, s1)" by fastforce
    have "callbacks_to_fire ?tr ?r (oc_callbacks oc) = Some (ctx, cbs)"
      using assms(2) matched(3) 1 2 Inr
      by (auto simp: dispatch_matched_def buffered_answer_def streaming_answer_def streaming_journal_def Let_def
          split: option.splits prod.splits)
    then have cb: "cbs = oc_callbacks oc" "cbs \<noteq> []" "cc_group_id ctx = r_group_id ?r" "cc_route_id ctx = r_id ?r"
      "cc_route_number ctx = r_number ?r"
      by (auto simp: callbacks_to_fire_def split: if_splits)
    have "callouts_allowed_for env ?r s" "length cbs \<le> 16"
      using run_handler_callbacks[OF 2] cb(1,2) by (auto simp: MAX_CALLBACKS_PER_REQUEST_def)
    then show ?thesis using cb lookup_found(3)[OF matched(2)]
      by (auto simp: callouts_allowed_for_def split: sum.splits)
  qed (use assms(2) matched(3) 1 in \<open>auto simp: dispatch_matched_def Let_def\<close>)
qed

section \<open>A worked request\<close>

text \<open>A handler that schedules a callback, writes to its group's bucket and answers.\<close>

definition busy_engine :: "wit_request \<Rightarrow> program" where
  "busy_engine req rs = (case rs of
      [] \<Rightarrow> Call (Schedule ''http://cb'' ''GET'' [] [] 0)
    | [_] \<Rightarrow> Call (OnBucket 1 (Put ''n'' ''1''))
    | _ \<Rightarrow> Finish (Inr \<lparr>wr_status = 200, wr_headers = [], wr_body = ''ok''\<rparr>))"

definition busy_env :: "unit dispatch_env" where
  "busy_env = host_env.extend (demo_engine\<lparr>he_engine := Some (Inr busy_engine)\<rparr>)
     (dispatch_env.fields demo_http sample_env demo_codec demo_unmatched_codec ''localhost'' True None
       (\<lambda>p. not_found_response p) 0 0)"

definition busy_request :: http_request where
  "busy_request = \<lparr>hq_method = ''get'', hq_path = ''/x/7'', hq_query = None,
     hq_headers = [(''host'', ''demo.localhost'')], hq_body = []\<rparr>"

definition callout_group :: group where
  "callout_group = demo_group_record\<lparr>g_callout_enabled := True\<rparr>"

definition busy_store :: mem_store where
  "busy_store = [(group_key ulid_a, Hash (group_fields sample_env callout_group))]"

lemma busy_fields [simp]:
  "de_http busy_env = demo_http" "de_apex busy_env = ''localhost''" "de_registry busy_env = sample_env"
  "de_egress_enabled busy_env = True" "he_engine busy_env = Some (Inr busy_engine)" "he_transpile busy_env = Inr"
  "he_readings busy_env = (\<lambda>n. demo_reading)" "he_engine_steps busy_env = 5"
  by (simp_all add: busy_env_def dispatch_env.defs host_env.defs demo_engine_def)

lemma busy_group: "fst (read_group_by_ref sample_env ulid_a busy_store) = Inr callout_group"
proof -
  have h: "hash_at busy_store (group_key ulid_a) = Some (group_fields sample_env callout_group)"
    by (simp add: busy_store_def cell_simps)
  have g: "g_id callout_group = ulid_a" by (simp add: callout_group_def demo_group_record_def)
  have "resolve_group sample_env ulid_a busy_store = (Inr (Some ulid_a), busy_store)"
  proof -
    have "ulid_parses sample_env ulid_a" "ulid_a \<noteq> []" by (simp_all add: sample_env_def) code_simp+
    moreover have "map_of (group_fields sample_env callout_group) ''id'' \<noteq> None" by (simp add: group_fields_def)
    ultimately show ?thesis
      by (simp add: resolve_group_def bind_io_def map_err_run admin_hash_get_all h ret_def)
  qed
  moreover have "wf_group callout_group" using demo_group_wf by (simp add: callout_group_def wf_group_def)
  note decode_group_fields[OF sample_env_ok this]
  ultimately show ?thesis
    by (simp add: read_group_by_ref_def bind_io_def or_not_found_def ret_def read_group_def map_err_run
        admin_hash_get_all h lift_result_def group_fields_def)
qed

definition busy_route :: route where "busy_route = demo_route_record ulid_c ''/x/{id}'' 2"

lemma busy_run:
  "run_handler busy_env (EngineSource src) busy_route True req s = (oc, s') \<Longrightarrow>
     s' = AList.update (group_bucket ulid_a @ ''n'') (Bytes ''1'') s \<and> oc_head oc = None
     \<and> oc_callbacks oc = [\<lparr>sc_url = ''http://cb'', sc_method = ''GET'', sc_headers = [], sc_body = [], sc_delay_ms = 0\<rparr>]
     \<and> oc_result oc = Inr \<lparr>wr_status = 200, wr_headers = [], wr_body = ''ok''\<rparr>"
proof -
  have t: "trim ''http://cb'' = ''http://cb''" by code_simp
  have g: "r_group_id busy_route = ulid_a" by (simp add: busy_route_def demo_route_record_def)
  let ?w = "handler_world (set_response_stream_sink (instantiate_engine_state src (route_bucket ulid_a (r_id busy_route)) (group_bucket ulid_a) True)) s"
  have r: "run_program (\<lambda>n. demo_reading) m 5 (busy_engine req) [] ?w
      = (Inr \<lparr>wr_status = 200, wr_headers = [], wr_body = ''ok''\<rparr>,
         ?w\<lparr>hw_state := (hw_state ?w)\<lparr>hs_callbacks := [\<lparr>sc_url = ''http://cb'', sc_method = ''GET'', sc_headers = [],
              sc_body = [], sc_delay_ms = 0\<rparr>]\<rparr>,
            hw_store := AList.update (group_bucket ulid_a @ ''n'') (Bytes ''1'') s\<rparr>)" for m
    by (simp add: numeral_eq_Suc demo_reading_def busy_engine_def handler_world_def schedule_def t
        set_response_stream_sink_def instantiate_engine_state_def with_buckets_def push_bucket_def new_host_state_def
        MAX_CALLBACKS_PER_REQUEST_def Let_def reply_with_def bind_io_def bucket_set_def mem_set_def ret_def)
  show "run_handler busy_env (EngineSource src) busy_route True req s = (oc, s') \<Longrightarrow> ?thesis"
    by (simp add: run_handler_def engine_outcome_def call_engine_def g r)
      (auto simp: handler_world_def set_response_stream_sink_def new_sink_def result_text_def)
qed

lemma busy_dispatch:
  "\<exists>resp d cbs. dispatch busy_env ck busy_request busy_store demo_table = Inr (resp, d)
    \<and> map_of (dd_store d) (group_bucket ulid_a @ ''n'') = Some (Bytes ''1'')
    \<and> dd_callbacks d = Some (\<lparr>cc_trace_id = None, cc_group_id = ulid_a, cc_group_name = ''demo'', cc_route_id = ulid_c,
         cc_route_number = 2\<rparr>, cbs)"
proof -
  let ?m = "\<lparr>mr_route = busy_route, mr_matched_pattern = ''/x/{id}'', mr_path_params = [(''id'', ''7'')]\<rparr>"
  let ?body = "[]" and ?wit = "build_wit_request demo_http busy_request [] ''/x/{id}'' [(''id'', ''7'')]"
  have host: "resolve_host_kind demo_http [(''host'', ''demo.localhost'')] ''localhost'' = GroupHost ''demo''"
    unfolding demo_http_def resolve_host_kind_def by code_simp
  have body: "read_body demo_http [] MAX_DISPATCH_BODY_BYTES = BodyOk []" by (simp add: read_body_def demo_http_def)
  have tr: "ht_trace_id demo_http h = None" for h by (simp add: demo_http_def)
  have look: "lookup_route busy_env ck busy_request [] None ''demo'' busy_store demo_table = Inr (Inr (?m, demo_table))"
    by (simp add: lookup_route_def busy_request_def demo_table_match busy_route_def)
  have lang: "is_source_language (r_language busy_route)" "r_source busy_route = Some ''y''" "r_group_id busy_route = ulid_a"
    "r_id busy_route = ulid_c"
    by (simp_all add: busy_route_def demo_route_record_def is_source_language_def)
  then have code: "\<exists>t'. handler_code_for busy_env busy_route demo_table = (Inr (EngineSource ''y''), t')"
    by (simp add: handler_code_for_def engine_source_for_def demo_table_def)
  then obtain t' where code: "handler_code_for busy_env busy_route demo_table = (Inr (EngineSource ''y''), t')" by blast
  have allowed: "callouts_allowed_for busy_env busy_route busy_store"
    using busy_group lang by (simp add: callouts_allowed_for_def callout_group_def)
  obtain oc s' where run: "run_handler busy_env (EngineSource ''y'') busy_route True ?wit busy_store = (oc, s')" by fastforce
  note b = busy_run[OF run]
  have hk: "handler_key (group_bucket ulid_a @ ''n'')" by (simp add: handler_key_def group_bucket_def group_bucket_under_def)
  obtain d where d: "dispatch_inner busy_env ck busy_request busy_store demo_table = Inr d"
    "dd_store d = after_handler busy_env ck busy_route (journal_entry None ?m
        (build_request_envelope demo_http busy_request [] HANDLED_BODY_LIMIT)
        (fst (the (buffered_parts demo_http (oc_result oc)))) (map into_dry_log (oc_logs oc)) (ck_elapsed_ms ck)
        ((oc_resources oc)\<lparr>wall_clock_ms := ck_elapsed_ms ck\<rparr>) None []) s'"
    "dd_callbacks d = callbacks_to_fire None busy_route (oc_callbacks oc)" "\<exists>resp. dd_response d = Inr resp"
    using b by (simp add: dispatch_inner_def body host tr look dispatch_matched_def code allowed run buffered_answer_def
        buffered_parts_def filter_handler_headers_def no_headers_def Let_def busy_request_def[THEN arg_cong, of hq_headers]
        busy_request_def[THEN arg_cong, of hq_body])
  then obtain resp where "dispatch busy_env ck busy_request busy_store demo_table = Inr (resp, d)"
    by (auto simp: dispatch_def)
  moreover have "map_of (dd_store d) (group_bucket ulid_a @ ''n'') = Some (Bytes ''1'')"
    using after_handler_keeps[OF hk, of busy_env] b d(2) by simp
  ultimately show ?thesis
    using b d(3) by (auto simp: callbacks_to_fire_def busy_route_def demo_route_record_def)
qed

theorem dispatch_stays_in_group_witness:
  "\<exists>resp d r. dispatch busy_env demo_clock busy_request busy_store demo_table = Inr (resp, d)
    \<and> route_accepts r (''get'', ''/x/7'') \<and> own_keys (r_group_id r) (r_id r) (group_bucket ulid_a @ ''n'')"
proof -
  obtain resp d cbs where d: "dispatch busy_env demo_clock busy_request busy_store demo_table = Inr (resp, d)"
    "map_of (dd_store d) (group_bucket ulid_a @ ''n'') = Some (Bytes ''1'')"
    using busy_dispatch by blast
  have k: "handler_key (group_bucket ulid_a @ ''n'')" by (simp add: handler_key_def group_bucket_def group_bucket_under_def)
  have "map_of busy_store (group_bucket ulid_a @ ''n'') = None"
    by (simp add: busy_store_def group_key_def group_bucket_def group_bucket_under_def)
  then show ?thesis using dispatch_stays_in_group[OF d(1) k] d by (auto simp: busy_request_def)
qed

theorem callbacks_need_opt_in_witness:
  "\<exists>resp d ctx cbs g. dispatch busy_env demo_clock busy_request busy_store demo_table = Inr (resp, d)
    \<and> dd_callbacks d = Some (ctx, cbs)
    \<and> fst (read_group_by_ref sample_env (cc_group_id ctx) busy_store) = Inr g \<and> g_callout_enabled g \<and> length cbs \<le> 16"
proof -
  obtain resp d ctx cbs where d: "dispatch busy_env demo_clock busy_request busy_store demo_table = Inr (resp, d)"
    "dd_callbacks d = Some (ctx, cbs)"
    using busy_dispatch by blast
  show ?thesis using callbacks_need_opt_in[OF d(1) disjI1[OF d(2)]] d by auto
qed

end
