(* ===== verification/Lifecycle.thy ===== *)
theory Lifecycle
  imports Route_Table
begin

text \<open>The background sweeper (\<^theory_text>\<open>lifecycle.rs\<close>): a pass removes the routes of groups that
  are gone, and a lease lets one replica sweep at a time.  The cluster of sweepers is a step
  relation on the shared store and the replicas inside a pass.\<close>

section \<open>One pass\<close>

record sweep_stats =
  groups_swept :: nat
  routes_reaped :: nat

text \<open>Seconds of the default interval.\<close>

definition DEFAULT_SWEEP_INTERVAL :: nat where "DEFAULT_SWEEP_INTERVAL = 30"

text \<open>What a pass works on: storage, the route table of its replica, and the invalidations it
  has sent to the others.\<close>

record 'c sweep_world =
  sw_store :: mem_store
  sw_table :: "'c route_table"
  sw_sent :: "route_invalidation list"

definition on_store :: "(mem_store, 'e, 'a) io \<Rightarrow> ('c sweep_world, 'e, 'a) io" where
  "on_store m w = (case m (sw_store w) of (r, s) \<Rightarrow> (r, w\<lparr>sw_store := s\<rparr>))"

definition drop_from_table :: "string \<Rightarrow> ('c sweep_world, registry_error, unit) io" where
  "drop_from_table gid w = (case refresh_after_group_cascade gid (sw_table w) of (t, ev) \<Rightarrow>
     (Inr (), w\<lparr>sw_table := t, sw_sent := sw_sent w @ [ev]\<rparr>))"

text \<open>\<^theory_text>\<open>call().is_ok()\<close>\<close>

definition succeeds :: "('s, 'e, 'a) io \<Rightarrow> ('s, 'f, bool) io" where
  "succeeds m s = (case m s of (r, s') \<Rightarrow> (Inr (\<not> isl r), s'))"

fun sweep_routes ::
  "registry_env \<Rightarrow> route list \<Rightarrow> string list \<Rightarrow> sweep_stats \<Rightarrow> ('c sweep_world, registry_error, sweep_stats) io" where
  "sweep_routes env [] seen stats = ret stats"
| "sweep_routes env (r # rs) seen stats = (let gid = r_group_id r in
     if gid \<in> set seen then sweep_routes env rs seen stats
     else bind_io (succeeds (on_store (read_group_by_ref env gid))) (\<lambda>alive.
       if alive then sweep_routes env rs (gid # seen) stats
       else bind_io (on_store (cascade_delete_group env gid)) (\<lambda>reaped.
         seq_io (drop_from_table gid)
           (sweep_routes env rs (gid # seen)
             (stats\<lparr>groups_swept := groups_swept stats + 1, routes_reaped := routes_reaped stats + reaped\<rparr>)))))"

definition no_stats :: sweep_stats where "no_stats = \<lparr>groups_swept = 0, routes_reaped = 0\<rparr>"

definition single_pass :: "registry_env \<Rightarrow> ('c sweep_world, registry_error, sweep_stats) io" where
  "single_pass env = bind_io (on_store (list_routes env)) (\<lambda>rs. sweep_routes env rs [] no_stats)"

section \<open>The lease\<close>

definition sweep_lease :: string where "sweep_lease = ''sweep:lease''"

definition lease_seconds :: "nat \<Rightarrow> nat" where
  "lease_seconds interval = max interval 1 * 2"

text \<open>An error of the lease falls through to sweeping; \<^theory_text>\<open>t0\<close> and \<^theory_text>\<open>t1\<close> are the clock readings.\<close>

definition claim_sweep :: "time_codec \<Rightarrow> int \<Rightarrow> int \<Rightarrow> nat \<Rightarrow> mem_store \<Rightarrow> bool \<times> mem_store" where
  "claim_sweep tc t0 t1 interval s =
    (case bucket_try_acquire_lease tc t0 t1 admin_bucket sweep_lease (lease_seconds interval) s of
      (Inr got, s') \<Rightarrow> (got, s') | (Inl e, s') \<Rightarrow> (True, s'))"

definition release_sweep :: "mem_store \<Rightarrow> mem_store" where
  "release_sweep s = snd (bucket_delete admin_bucket sweep_lease s)"

text \<open>The body of the loop of \<^theory_text>\<open>spawn\<close>: \<^theory_text>\<open>None\<close> when another replica sweeps.\<close>

definition sweep_tick :: "registry_env \<Rightarrow> time_codec \<Rightarrow> int \<Rightarrow> int \<Rightarrow> nat \<Rightarrow> 'c sweep_world
    \<Rightarrow> (registry_error + sweep_stats) option \<times> 'c sweep_world" where
  "sweep_tick env tc t0 t1 interval w =
    (case claim_sweep tc t0 t1 interval (sw_store w) of (got, s) \<Rightarrow>
     if \<not> got then (None, w\<lparr>sw_store := s\<rparr>)
     else (case single_pass env (w\<lparr>sw_store := s\<rparr>) of (r, w') \<Rightarrow>
       (Some r, w'\<lparr>sw_store := release_sweep (sw_store w')\<rparr>)))"

section \<open>A pass spares living groups and accounts for dead ones\<close>

lemma read_group_by_ref_state: "snd (read_group_by_ref env gid s) = s"
proof -
  have "snd (resolve_group env gid s) = s"
    by (auto simp: resolve_group_def bind_io_def map_err_run admin_hash_get_all admin_get ret_def lift_result_def
        split: option.splits sum.splits prod.splits)
  moreover have "snd (read_group env i s) = s" for i
    by (auto simp: read_group_def bind_io_def map_err_run admin_hash_get_all raise_def lift_result_def
        split: option.splits)
  moreover have "snd (or_not_found x s) = s" for x :: "string option"
    by (simp add: or_not_found_def raise_def ret_def split: option.splits)
  ultimately show ?thesis
    by (auto simp: read_group_by_ref_def bind_io_parts split: sum.splits)
qed

lemma probe_run: "succeeds (on_store (read_group_by_ref env gid)) w
    = (Inr (\<not> isl (fst (read_group_by_ref env gid (sw_store w)))), w)"
  using read_group_by_ref_state[of env gid "sw_store w"]
  by (cases "read_group_by_ref env gid (sw_store w)") (simp add: succeeds_def on_store_def)

lemma sweep_spares:
  "(\<And>r. r \<in> set rs \<Longrightarrow> \<not> isl (fst (read_group_by_ref env (r_group_id r) (sw_store w)))) \<Longrightarrow>
     sweep_routes env rs seen stats w = (Inr stats, w)"
  by (induction rs arbitrary: seen) (simp_all add: Let_def bind_io_def probe_run ret_def)

definition dead_group :: "registry_env \<Rightarrow> mem_store \<Rightarrow> string \<Rightarrow> bool" where
  "dead_group env s gid \<longleftrightarrow> isl (fst (read_group_by_ref env gid s))"

text \<open>The groups a pass sweeps: each once, each dead when it was looked at, each announced, and
  none of their routes left in the table.\<close>

definition swept_exactly ::
  "registry_env \<Rightarrow> string list \<Rightarrow> 'c sweep_world \<Rightarrow> 'c sweep_world \<Rightarrow> bool" where
  "swept_exactly env gids w w' \<longleftrightarrow> distinct gids
     \<and> map ri_group_id (sw_sent w') = map ri_group_id (sw_sent w) @ gids
     \<and> routes (sw_table w') = filter (\<lambda>r. r_group_id r \<notin> set gids) (routes (sw_table w))
     \<and> (\<forall>gid\<in>set gids. \<exists>s. dead_group env s gid)"

lemma drop_run:
  "drop_from_table gid w = (Inr (), w') \<Longrightarrow> sw_store w' = sw_store w
     \<and> map ri_group_id (sw_sent w') = map ri_group_id (sw_sent w) @ [gid]
     \<and> routes (sw_table w') = filter (\<lambda>r. r_group_id r \<noteq> gid) (routes (sw_table w))"
  by (auto simp: drop_from_table_def refresh_after_group_cascade_def Let_def evict_def with_routes_def for_group_def
      filter_empty_conv split: prod.splits)

lemma sweep_routes_account:
  "sweep_routes env rs seen stats w = (Inr st', w') \<Longrightarrow>
     \<exists>gids. swept_exactly env gids w w' \<and> groups_swept st' = groups_swept stats + length gids
       \<and> set gids \<subseteq> r_group_id ` set rs - set seen"
proof (induction rs arbitrary: seen stats w)
  case Nil
  then show ?case by (intro exI[of _ "[]"]) (simp add: ret_def swept_exactly_def)
next
  case (Cons r rs)
  let ?gid = "r_group_id r"
  show ?case
  proof (cases "?gid \<in> set seen \<or> \<not> dead_group env (sw_store w) ?gid")
    case True
    then have "sweep_routes env rs seen stats w = (Inr st', w') \<or> sweep_routes env rs (?gid # seen) stats w = (Inr st', w')"
      using Cons.prems by (auto simp: Let_def bind_io_def probe_run dead_group_def split: if_splits)
    then obtain seen' where seen': "sweep_routes env rs seen' stats w = (Inr st', w')" "set seen \<subseteq> set seen'"
      using set_subset_Cons[of seen ?gid] by blast
    from Cons.IH[OF seen'(1)] show ?thesis using seen'(2) by auto
  next
    case False
    let ?st = "\<lambda>n. stats\<lparr>groups_swept := groups_swept stats + 1, routes_reaped := routes_reaped stats + n\<rparr>"
    obtain n w1 w2 where c: "on_store (cascade_delete_group env ?gid) w = (Inr n, w1)"
      "drop_from_table ?gid w1 = (Inr (), w2)" "sweep_routes env rs (?gid # seen) (?st n) w2 = (Inr st', w')"
      using Cons.prems False
      by (auto simp: Let_def bind_io_def[of "succeeds m" for m] probe_run dead_group_def bind_io_Inr_iff seq_io_def)
    have w1: "sw_sent w1 = sw_sent w" "sw_table w1 = sw_table w" using c(1) by (auto simp: on_store_def split: prod.splits)
    obtain gids where g: "swept_exactly env gids w2 w'" "groups_swept st' = groups_swept (?st n) + length gids"
      "set gids \<subseteq> r_group_id ` set rs - set (?gid # seen)" using Cons.IH[OF c(3)] by blast
    have "swept_exactly env (?gid # gids) w w'"
      using g(1,3) drop_run[OF c(2)] w1 False by (auto simp: swept_exactly_def intro!: filter_cong)
    moreover have "groups_swept st' = groups_swept stats + length (?gid # gids)" using g(2) by simp
    moreover have "set (?gid # gids) \<subseteq> r_group_id ` set (r # rs) - set seen" using g(3) False by auto
    ultimately show ?thesis by blast
  qed
qed

lemma list_routes_state: "snd (list_routes env s) = s"
proof -
  have "snd (read_routes env ids s) = s" for ids by (rule read_routes_state)
  then show ?thesis
    by (auto simp: list_routes_def bind_io_def map_err_run admin_set_members split: option.splits)
qed


section \<open>A cluster of sweepers\<close>

text \<open>The shared store, the clock, and the replicas inside a pass with the time they claimed it.\<close>

record cluster =
  cl_store :: mem_store
  cl_now :: int
  cl_busy :: "(nat \<times> int) list"

inductive sweeper_step :: "time_codec \<Rightarrow> nat \<Rightarrow> cluster \<Rightarrow> cluster \<Rightarrow> bool" for tc interval where
  claim: "\<lbrakk>map_of (cl_busy c) i = None;
      claim_sweep tc (cl_now c) (cl_now c) interval (cl_store c) = (True, s)\<rbrakk> \<Longrightarrow>
    sweeper_step tc interval c (c\<lparr>cl_store := s, cl_busy := (i, cl_now c) # cl_busy c\<rparr>)"
| skip: "claim_sweep tc (cl_now c) (cl_now c) interval (cl_store c) = (False, s) \<Longrightarrow>
    sweeper_step tc interval c (c\<lparr>cl_store := s\<rparr>)"
| finish: "map_of (cl_busy c) i = Some t \<Longrightarrow>
    sweeper_step tc interval c (c\<lparr>cl_store := release_sweep (cl_store c), cl_busy := AList.delete i (cl_busy c)\<rparr>)"
| wait: "\<lbrakk>cl_now c \<le> t; \<forall>(i, t0)\<in>set (cl_busy c). t < t0 + seconds (lease_seconds interval)\<rbrakk> \<Longrightarrow>
    sweeper_step tc interval c (c\<lparr>cl_now := t\<rparr>)"
| other: "map_of s sweep_lease = map_of (cl_store c) sweep_lease \<Longrightarrow>
    sweeper_step tc interval c (c\<lparr>cl_store := s\<rparr>)"

inductive_cases sweeper_stepE: "sweeper_step tc interval c c'"

definition lease_inv :: "time_codec \<Rightarrow> nat \<Rightarrow> cluster \<Rightarrow> bool" where
  "lease_inv tc interval c \<longleftrightarrow>
     (cl_busy c = [] \<and> map_of (cl_store c) sweep_lease = None)
   \<or> (\<exists>i t. cl_busy c = [(i, t)] \<and> cl_now c < t + seconds (lease_seconds interval)
        \<and> map_of (cl_store c) sweep_lease = Some (Bytes (to_rfc3339 tc (t + seconds (lease_seconds interval)))))"

lemma claim_free:
  "map_of s sweep_lease = None \<Longrightarrow> claim_sweep tc t0 t1 interval s
     = (True, mem_set sweep_lease (to_rfc3339 tc (t0 + seconds (lease_seconds interval))) s)"
  by (simp add: claim_sweep_def bucket_try_acquire_lease_def bucket_get_def mem_get_def io_simps admin_bucket_def
      lease_seconds_def)

lemma claim_held:
  "\<lbrakk>time_ok tc; map_of s sweep_lease = Some (Bytes (to_rfc3339 tc d)); t1 < d\<rbrakk> \<Longrightarrow>
     claim_sweep tc t0 t1 interval s = (False, s)"
  using lease_held[of tc s admin_bucket sweep_lease d t0 t1 "lease_seconds interval"]
  by (simp add: claim_sweep_def admin_bucket_def)

lemma sweeper_step_inv:
  assumes "time_ok tc" "sweeper_step tc interval c c'" "lease_inv tc interval c"
  shows "lease_inv tc interval c'"
  using assms(2)
proof cases
  case (claim i s)
  have "cl_busy c = [] \<and> map_of (cl_store c) sweep_lease = None"
    using assms(3) claim(3) claim_held[OF assms(1)] unfolding lease_inv_def by fastforce
  then show ?thesis using claim claim_free[of "cl_store c" tc] 
    by (auto simp: lease_inv_def mem_set_def lease_seconds_def)
next
  case (skip s)
  then have "cl_busy c \<noteq> []" using assms(3) claim_free[of "cl_store c" tc] unfolding lease_inv_def by fastforce
  then have "s = cl_store c"
    using assms(3) skip(2) claim_held[OF assms(1)] unfolding lease_inv_def by fastforce
  then show ?thesis using skip(1) assms(3) by (simp add: lease_inv_def)
next
  case (finish i t)
  then show ?thesis using assms(3)
    by (auto simp: lease_inv_def release_sweep_def admin_delete split: if_splits)
next
  case (wait t)
  then show ?thesis using assms(3) by (auto simp: lease_inv_def)
next
  case (other s)
  then show ?thesis using assms(3) by (simp add: lease_inv_def)
qed

text \<open>C30: From a store without a lease, however the replicas' ticks interleave, at most one
  replica is inside a pass as long as no pass outlasts its lease; and when none is, the next
  tick of any replica starts one, so the released lease costs no tick.\<close>

theorem one_sweeper_at_a_time:
  assumes "time_ok tc" "(sweeper_step tc interval)\<^sup>*\<^sup>* \<lparr>cl_store = s0, cl_now = t0, cl_busy = []\<rparr> c"
    "map_of s0 sweep_lease = None"
  shows "length (cl_busy c) \<le> 1
    \<and> (cl_busy c = [] \<longrightarrow> fst (claim_sweep tc (cl_now c) (cl_now c) interval (cl_store c)))"
proof -
  have "lease_inv tc interval c"
    using assms(2)
  proof (induction rule: rtranclp_induct)
    case base
    then show ?case using assms(3) by (simp add: lease_inv_def)
  next
    case (step c c')
    then show ?case using sweeper_step_inv[OF assms(1)] by blast
  qed
  then show ?thesis using claim_free[of "cl_store c" tc "cl_now c" "cl_now c" interval] by (auto simp: lease_inv_def)
qed

theorem one_sweeper_at_a_time_witness:
  "\<exists>c. sweeper_step decimal_time 30 \<lparr>cl_store = [], cl_now = 5, cl_busy = []\<rparr> c \<and> cl_busy c \<noteq> []
    \<and> length (cl_busy c) \<le> 1"
proof -
  let ?c = "\<lparr>cl_store = [], cl_now = 5, cl_busy = []\<rparr>"
  let ?s = "mem_set sweep_lease (to_rfc3339 decimal_time (5 + seconds (lease_seconds 30))) []"
  let ?d = "?c\<lparr>cl_store := ?s, cl_busy := (0, cl_now ?c) # cl_busy ?c\<rparr>"
  have "sweeper_step decimal_time 30 ?c ?d"
    by (rule sweeper_step.claim) (simp_all add: claim_free)
  then have r: "(sweeper_step decimal_time 30)\<^sup>*\<^sup>* ?c ?d" and s: "sweeper_step decimal_time 30 ?c ?d" by blast+
  show ?thesis
    using one_sweeper_at_a_time[OF decimal_time_ok r] s by (intro exI[of _ ?d]) simp
qed

text \<open>A store in which the group of a route is gone.\<close>

definition orphan_route :: route where "orphan_route = demo_route_record ulid_b ''/x'' 1"

definition orphan_world :: "unit sweep_world" where
  "orphan_world = \<lparr>sw_store = [(''route:all'', Set [ulid_b]),
       (route_key ulid_b, Hash (route_fields sample_env orphan_route))],
     sw_table = demo_table, sw_sent = []\<rparr>"

lemma orphan_listed: "list_routes sample_env (sw_store orphan_world) = (Inr [orphan_route], sw_store orphan_world)"
proof -
  let ?s = "sw_store orphan_world"
  have k: "route_key ulid_b \<noteq> ''route:all''" by (simp add: key_defs ulid_b_def)
  have "decode_route sample_env (route_fields sample_env orphan_route) = Inr orphan_route"
    unfolding orphan_route_def by (rule decode_route_fields[OF sample_env_ok demo_record_wf])
  moreover have "route_fields sample_env orphan_route \<noteq> []" by (simp add: route_fields_def)
  moreover have "r_id orphan_route = ulid_b" by (simp add: orphan_route_def demo_route_record_def)
  ultimately have "stored_route sample_env ?s ulid_b orphan_route"
    using k by (simp add: stored_route_def orphan_world_def cell_simps)
  then show ?thesis
    using read_routes_stored[of sample_env ?s "[ulid_b]" "[orphan_route]"]
    by (simp add: list_routes_def bind_io_def map_err_run admin_set_members orphan_world_def cell_simps)
qed


end
