(* ===== verification/Group_Spec.thy ===== *)
theory Group_Spec
  imports Filters
begin

text \<open>The document a group is exported to and imported from (\<^theory_text>\<open>wm-core/src/spec.rs\<close>):
  durations and the folding of a document into its canonical form.

  A message formatted for display is kept as the data it is built from.  Serialisation
  (\<^theory_text>\<open>parse_str\<close>, \<^theory_text>\<open>render\<close>) is serde's.\<close>

section \<open>Documents\<close>

record route_spec =
  sr_method :: "string option"
  sr_methods :: "string list"
  sr_path :: string
  sr_language :: "string option"
  sr_source :: "string option"
  sr_source_file :: "string option"

record group_spec =
  sp_name :: string
  sp_ttl :: "string option"
  sp_sliding :: "bool option"
  sp_callout :: "bool option"
  sp_routes :: "route_spec list"

record normalized_route =
  no_methods :: "string list"
  no_path :: string
  no_language :: string
  no_source :: string

record normalized_spec =
  ns_name :: string
  ns_ttl_seconds :: "nat option"
  ns_sliding :: "bool option"
  ns_callout :: "bool option"
  ns_routes :: "normalized_route list"

datatype duration_error =
    EmptyDuration
  | UnitWithoutNumber
  | NumberTooLarge string
  | UnknownUnit
  | SegmentOverflow nat char
  | TotalOverflow
  | TrailingNumber string

datatype spec_error =
    MissingName
  | BadDuration duration_error
  | MethodAndMethods nat string
  | MissingMethod nat string
  | TwoSources nat string
  | UnresolvedFile nat string
  | MissingSource nat string
  | MissingPath nat

section \<open>Durations\<close>

definition checked_u64 :: "nat \<Rightarrow> nat option" where
  "checked_u64 n = (if n \<le> u64_max then Some n else None)"

definition duration_unit :: "char \<Rightarrow> nat option" where
  "duration_unit c =
    (if c = CHR ''s'' then Some 1 else if c = CHR ''m'' then Some 60
     else if c = CHR ''h'' then Some 3600 else if c = CHR ''d'' then Some 86400 else None)"

text \<open>The loop over the characters, with the total and the digits read so far.  The bytes of
  a character beyond ASCII are no digits and no units, so the first of them decides as the
  character does.\<close>

fun duration_loop :: "nat \<Rightarrow> string \<Rightarrow> string \<Rightarrow> duration_error + nat" where
  "duration_loop acc current [] = (if current \<noteq> [] then Inl (TrailingNumber current) else Inr acc)"
| "duration_loop acc current (c # cs) =
    (if is_digit c then duration_loop acc (current @ [c]) cs
     else if current = [] then Inl UnitWithoutNumber
     else (case parse_u64 current of
         None \<Rightarrow> Inl (NumberTooLarge current)
       | Some n \<Rightarrow> (case duration_unit c of
           None \<Rightarrow> Inl UnknownUnit
         | Some mult \<Rightarrow> (case checked_u64 (n * mult) of
             None \<Rightarrow> Inl (SegmentOverflow n c)
           | Some segment \<Rightarrow> (case checked_u64 (acc + segment) of
               None \<Rightarrow> Inl TotalOverflow
             | Some acc' \<Rightarrow> duration_loop acc' [] cs)))))"

definition parse_duration :: "string \<Rightarrow> duration_error + nat" where
  "parse_duration txt = (let s = trim txt in
     if s = [] then Inl EmptyDuration
     else (case parse_u64 s of Some n \<Rightarrow> Inr n | None \<Rightarrow> duration_loop 0 [] s))"

definition format_duration :: "nat \<Rightarrow> string" where
  "format_duration n =
    (if n \<noteq> 0 \<and> n mod 86400 = 0 then show_nat (n div 86400) @ ''d''
     else if n \<noteq> 0 \<and> n mod 3600 = 0 then show_nat (n div 3600) @ ''h''
     else if n \<noteq> 0 \<and> n mod 60 = 0 then show_nat (n div 60) @ ''m''
     else show_nat n @ ''s'')"

section \<open>Normalisation\<close>

definition route_methods :: "nat \<Rightarrow> route_spec \<Rightarrow> spec_error + string list" where
  "route_methods idx r = (case (sr_method r, sr_methods r) of
      (Some m, []) \<Rightarrow> Inr [m]
    | (Some m, _) \<Rightarrow> Inl (MethodAndMethods idx (sr_path r))
    | (None, []) \<Rightarrow> Inl (MissingMethod idx (sr_path r))
    | (None, ms) \<Rightarrow> Inr ms)"

definition route_source :: "nat \<Rightarrow> route_spec \<Rightarrow> spec_error + string" where
  "route_source idx r = (case (sr_source r, sr_source_file r) of
      (Some _, Some _) \<Rightarrow> Inl (TwoSources idx (sr_path r))
    | (Some s, None) \<Rightarrow> Inr s
    | (None, Some _) \<Rightarrow> Inl (UnresolvedFile idx (sr_path r))
    | (None, None) \<Rightarrow> Inl (MissingSource idx (sr_path r)))"

definition normalize_route :: "nat \<Rightarrow> route_spec \<Rightarrow> spec_error + normalized_route" where
  "normalize_route idx r =
    rbind (route_methods idx r) (\<lambda>ms.
    rbind (route_source idx r) (\<lambda>src.
    if trim (sr_path r) = [] then Inl (MissingPath idx)
    else Inr \<lparr>no_methods = ms, no_path = sr_path r,
      no_language = (case sr_language r of Some l \<Rightarrow> l | None \<Rightarrow> ''typescript''), no_source = src\<rparr>))"

fun normalize_routes :: "nat \<Rightarrow> route_spec list \<Rightarrow> spec_error + normalized_route list" where
  "normalize_routes idx [] = Inr []"
| "normalize_routes idx (r # rs) =
    rbind (normalize_route idx r) (\<lambda>n. rmap (Cons n) (normalize_routes (idx + 1) rs))"

definition normalize :: "group_spec \<Rightarrow> spec_error + normalized_spec" where
  "normalize spec =
    (if trim (sp_name spec) = [] then Inl MissingName
     else rbind (case sp_ttl spec of
         None \<Rightarrow> Inr None
       | Some t \<Rightarrow> (case parse_duration t of Inl e \<Rightarrow> Inl (BadDuration e) | Inr n \<Rightarrow> Inr (Some n))) (\<lambda>ttl.
     rbind (normalize_routes 0 (sp_routes spec)) (\<lambda>rs.
     Inr \<lparr>ns_name = sp_name spec, ns_ttl_seconds = ttl, ns_sliding = sp_sliding spec,
       ns_callout = sp_callout spec, ns_routes = rs\<rparr>)))"

section \<open>Durations mean the sum of their segments\<close>

text \<open>The declarative reading: digits, each group followed by a unit.\<close>

fun spell_segments :: "(string \<times> char) list \<Rightarrow> string" where
  "spell_segments [] = []"
| "spell_segments ((ds, u) # segs) = ds @ u # spell_segments segs"

fun segments_value :: "(string \<times> char) list \<Rightarrow> nat" where
  "segments_value [] = 0"
| "segments_value ((ds, u) # segs) = digits_val ds * the (duration_unit u) + segments_value segs"

definition segments_ok :: "(string \<times> char) list \<Rightarrow> bool" where
  "segments_ok segs \<longleftrightarrow> list_all (\<lambda>(ds, u). ds \<noteq> [] \<and> list_all is_digit ds \<and> duration_unit u \<noteq> None) segs"

lemma segments_ok_simps [simp]:
  "segments_ok []"
  "segments_ok ((ds, u) # segs) \<longleftrightarrow>
     ds \<noteq> [] \<and> list_all is_digit ds \<and> duration_unit u \<noteq> None \<and> segments_ok segs"
  by (simp_all add: segments_ok_def)

lemma units:
  "duration_unit u = Some m \<Longrightarrow> \<not> is_digit u \<and> 0 < m"
  by (auto simp: duration_unit_def is_digit_def split: if_splits)

lemma parse_digits_only:
  assumes "ds \<noteq> []" "list_all is_digit ds"
  shows "parse_u64 ds = checked_u64 (digits_val ds)"
proof -
  obtain c cs where c: "ds = c # cs" "is_digit c" using assms by (cases ds) simp_all
  then show ?thesis using digit_not_sign[OF c(2)] assms(2)
    by (simp add: parse_u64_def parse_unsigned_def parse_digits_def checked_u64_def)
qed

lemma loop_digits:
  assumes "list_all is_digit ds"
  shows "duration_loop acc current (ds @ cs) = duration_loop acc (current @ ds) cs"
  using assms by (induction ds arbitrary: current) simp_all

lemma loop_segment:
  assumes "ds \<noteq> []" "list_all is_digit ds" "duration_unit u = Some m" "acc + digits_val ds * m \<le> u64_max"
  shows "duration_loop acc [] (ds @ u # cs) = duration_loop (acc + digits_val ds * m) [] cs"
proof -
  have m: "\<not> is_digit u" "0 < m" using units[OF assms(3)] by simp_all
  have "digits_val ds \<le> digits_val ds * m" using m(2) by (cases m) simp_all
  then have "digits_val ds \<le> u64_max" using assms(4) by (metis add_leD2 le_trans)
  then show ?thesis
    using m assms by (simp add: loop_digits parse_digits_only checked_u64_def)
qed

lemma loop_segments:
  assumes "segments_ok segs" "acc + segments_value segs \<le> u64_max"
  shows "duration_loop acc [] (spell_segments segs) = Inr (acc + segments_value segs)"
  using assms
proof (induction segs arbitrary: acc rule: spell_segments.induct)
  case (2 ds u segs)
  then obtain m where m: "duration_unit u = Some m" by auto
  have "duration_loop acc [] (ds @ u # spell_segments segs) = duration_loop (acc + digits_val ds * m) [] (spell_segments segs)"
    by (rule loop_segment[OF _ _ m]) (use 2 m in simp_all)
  also have "\<dots> = Inr (acc + digits_val ds * m + segments_value segs)"
    by (rule "2.IH") (use 2 m in simp_all)
  finally show ?case using m by simp
qed simp

lemma loop_sound:
  assumes "duration_loop acc current cs = Inr n" "list_all is_digit current" "acc \<le> u64_max"
  shows "n \<le> u64_max \<and> (\<exists>segs. segments_ok segs \<and> current @ cs = spell_segments segs \<and> n = acc + segments_value segs)"
  using assms
proof (induction acc current cs rule: duration_loop.induct)
  case (1 acc current)
  then show ?case by (auto split: if_splits intro!: exI[of _ "[]"])
next
  case (2 acc current c cs)
  show ?case
  proof (cases "is_digit c")
    case True
    then show ?thesis using 2 by simp
  next
    case False
    then have c: "current \<noteq> []" using 2(3) by (auto split: if_splits)
    have p: "parse_u64 current = checked_u64 (digits_val current)" using parse_digits_only[OF c] 2(4) by simp
    have "\<exists>m. parse_u64 current = Some (digits_val current) \<and> duration_unit c = Some m
        \<and> acc + digits_val current * m \<le> u64_max
        \<and> duration_loop (acc + digits_val current * m) [] cs = Inr n"
      using 2(3) False c p
      by (simp add: checked_u64_def split: if_splits option.splits)
    then obtain m where m: "parse_u64 current = Some (digits_val current)" "duration_unit c = Some m"
      "acc + digits_val current * m \<le> u64_max" "duration_loop (acc + digits_val current * m) [] cs = Inr n"
      by blast
    then have "checked_u64 (digits_val current * m) = Some (digits_val current * m)"
      "checked_u64 (acc + digits_val current * m) = Some (acc + digits_val current * m)"
      by (simp_all add: checked_u64_def)
    from 2(2)[OF False c m(1,2) this m(4)] m(3) obtain segs where "n \<le> u64_max" "segments_ok segs"
      "cs = spell_segments segs" "n = acc + digits_val current * m + segments_value segs"
      by auto
    then show ?thesis using c m(2) 2(4) by (intro conjI exI[of _ "(current, c) # segs"]) simp_all
  qed
qed

lemma segments_not_decimal:
  assumes "segments_ok segs" "segs \<noteq> []"
  shows "parse_u64 (spell_segments segs) = None"
proof -
  obtain ds u rest m where s: "segs = (ds, u) # rest" "ds \<noteq> []" "list_all is_digit ds" "duration_unit u = Some m"
    using assms by (cases segs) auto
  then obtain c cs where c: "ds = c # cs" "is_digit c" by (cases ds) simp_all
  have "\<not> list_all is_digit (spell_segments segs)" using units[OF s(4)] by (simp add: s(1))
  then show ?thesis using digit_not_sign[OF c(2)]
    by (simp add: parse_u64_def parse_unsigned_def parse_digits_def s(1) c(1))
qed

text \<open>The parser of durations reads exactly what is meant: a decimal number of seconds, or
  groups of digits each followed by a unit, whose sum is the result; it accepts nothing else and
  nothing above the range of \<^theory_text>\<open>u64\<close>, so no step of its arithmetic wraps.\<close>

theorem parse_duration_iff_segments:
  "parse_duration t = Inr n \<longleftrightarrow>
     n \<le> u64_max \<and> (parse_u64 (trim t) = Some n
       \<or> (\<exists>segs. segs \<noteq> [] \<and> segments_ok segs \<and> trim t = spell_segments segs \<and> n = segments_value segs))"
    (is "?l \<longleftrightarrow> ?r")
proof
  have range: "k \<le> u64_max" if "parse_u64 x = Some k" for x k
    using that by (auto simp: parse_u64_def parse_unsigned_def bind_eq_Some_conv split: list.splits if_splits)
  assume l: ?l
  show ?r
  proof (cases "parse_u64 (trim t)")
    case None
    then have "duration_loop 0 [] (trim t) = Inr n" "trim t \<noteq> []" using l
      by (auto simp: parse_duration_def Let_def split: if_splits)
    then show ?thesis using loop_sound[of 0 "[]" "trim t" n] by fastforce
  next
    case (Some k)
    then show ?thesis using l range[OF Some] by (auto simp: parse_duration_def Let_def split: if_splits)
  qed
next
  assume r: ?r
  show ?l
  proof (cases "parse_u64 (trim t)")
    case None
    then obtain segs where s: "segs \<noteq> []" "segments_ok segs" "trim t = spell_segments segs" "n = segments_value segs"
      using r by auto
    have "spell_segments segs \<noteq> []" using s(1) by (cases segs) auto
    then show ?thesis using loop_segments[OF s(2), of 0] r None s by (simp add: parse_duration_def)
  next
    case (Some k)
    then have "trim t \<noteq> []" by (auto simp: parse_u64_def parse_unsigned_def)
    moreover have "k = n" using r Some segments_not_decimal by auto
    ultimately show ?thesis using Some by (simp add: parse_duration_def)
  qed
qed

lemma format_as_segments:
  "\<exists>k u. format_duration n = spell_segments [(show_nat k, u)] \<and> segments_ok [(show_nat k, u)]
     \<and> segments_value [(show_nat k, u)] = n \<and> plain_text (format_duration n)"
proof -
  have p: "plain_text (show_nat k @ [u])" if "duration_unit u \<noteq> None" for k u
    using plain_digits[of k] that by (auto simp: plain_text_def duration_unit_def ascii_space_def split: if_splits)
  have "\<exists>k u. format_duration n = show_nat k @ [u] \<and> duration_unit u \<noteq> None \<and> k * the (duration_unit u) = n"
    by (auto simp: format_duration_def duration_unit_def)
  then obtain k u where "format_duration n = show_nat k @ [u]" "duration_unit u \<noteq> None" "k * the (duration_unit u) = n"
    by blast
  then show ?thesis using p show_nat_digits[of k] by (intro exI[of _ k] exI[of _ u]) auto
qed

theorem duration_roundtrip:
  assumes "n \<le> u64_max"
  shows "parse_duration (format_duration n) = Inr n"
proof -
  obtain k u where f: "format_duration n = spell_segments [(show_nat k, u)]" "segments_ok [(show_nat k, u)]"
    "segments_value [(show_nat k, u)] = n" "plain_text (format_duration n)"
    using format_as_segments by blast
  then show ?thesis unfolding parse_duration_iff_segments trim_plain[OF f(4)]
    using assms by (intro conjI disjI2 exI[of _ "[(show_nat k, u)]"]) simp_all
qed

end
