(* ===== verification/Api_Base.thy ===== *)
theory Api_Base
  imports Dispatch Auth Lifecycle Group_Spec
begin

text \<open>The REST API (\<^theory_text>\<open>api.rs\<close>): its errors, the caller's identity, and the shapes of its
  answers.

  A handler transforms the world of its replica: storage, the route table and the invalidations
  sent to the others.  A message formatted for display is kept as the data it is built from.\<close>

section \<open>Errors\<close>

datatype api_message =
    Msg string
  | OfRegistry registry_error
  | OfAccounts auth_error
  | OfJournal journal_error
  | OfFilter filter_parse_error
  | OfSlug slug_parse_error
  | OfSpec spec_error
  | OfTranspiler string
  | OwnsRoutes nat
  | WasmRetired
  | SourceRequired string
  | UnsupportedLanguage string
  | NoSourceOf string nat string
  | RouteFailed nat string api_message string

record api_error =
  ap_status :: nat
  ap_code :: string
  ap_message :: api_message
  ap_diagnostics :: "string list"

text \<open>A panic ends the request like an error, with the writes made so far.\<close>

datatype api_failure = Answered api_error | Panicked

definition api_failed :: "nat \<Rightarrow> string \<Rightarrow> api_message \<Rightarrow> api_failure" where
  "api_failed status cd m = Answered \<lparr>ap_status = status, ap_code = cd, ap_message = m, ap_diagnostics = []\<rparr>"

definition validation :: "api_message \<Rightarrow> api_failure" where "validation = api_failed 400 ''validation_failed''"
definition conflict_error :: "api_message \<Rightarrow> api_failure" where "conflict_error = api_failed 409 ''conflict''"
definition not_found :: api_failure where "not_found = api_failed 404 ''not_found'' (Msg ''no such route'')"
definition unauthorized :: "string \<Rightarrow> api_failure" where "unauthorized m = api_failed 401 ''unauthorized'' (Msg m)"
definition forbidden :: "string \<Rightarrow> api_failure" where "forbidden m = api_failed 403 ''forbidden'' (Msg m)"
definition compile_failed :: "api_message \<Rightarrow> api_failure" where "compile_failed = api_failed 400 ''compile_failed''"
definition internal :: "api_message \<Rightarrow> api_failure" where "internal = api_failed 500 ''internal_error''"

fun from_registry :: "registry_error \<Rightarrow> api_failure" where
  "from_registry NotFound = not_found"
| "from_registry (Conflict c) = conflict_error (OfRegistry (Conflict c))"
| "from_registry (InvalidPath e) = validation (OfRegistry (InvalidPath e))"
| "from_registry (InvalidMethod m) = validation (OfRegistry (InvalidMethod m))"
| "from_registry (InvalidName n) = validation (OfRegistry (InvalidName n))"
| "from_registry (InvalidTtl t) = validation (OfRegistry (InvalidTtl t))"
| "from_registry (StorageError e) = internal (OfRegistry (StorageError e))"
| "from_registry (Malformed m) = internal (OfRegistry (Malformed m))"

fun from_accounts :: "auth_error \<Rightarrow> api_failure" where
  "from_accounts ANotFound = not_found"
| "from_accounts (TokenNameTaken n) = conflict_error (OfAccounts (TokenNameTaken n))"
| "from_accounts (EmailTaken e) = conflict_error (OfAccounts (EmailTaken e))"
| "from_accounts (AStorage e) = internal (OfAccounts (AStorage e))"
| "from_accounts (AMalformed m) = internal (OfAccounts (AMalformed m))"
| "from_accounts APanic = Panicked"

fun from_journal :: "journal_error \<Rightarrow> api_failure" where
  "from_journal JNotFound = not_found"
| "from_journal (JStorage e) = internal (OfJournal (JStorage e))"
| "from_journal (JMalformed m) = internal (OfJournal (JMalformed m))"

definition from_filter :: "filter_parse_error \<Rightarrow> api_failure" where
  "from_filter e = Answered
    \<lparr>ap_status = (if e = OwnerNonAdmin then 403 else 400),
     ap_code = (if e = OwnerNonAdmin then ''forbidden'' else ''validation_failed''),
     ap_message = OfFilter e, ap_diagnostics = [''parameter='' @ parameter e]\<rparr>"

section \<open>State and environment\<close>

type_synonym ('c, 'a) handler = "('c sweep_world, api_failure, 'a) io"

record ('c, 'j) api_env = "'c dispatch_env" +
  ae_auth :: auth_env
  ae_callbacks :: "callback_record codec"
  ae_wire :: "'j wire_lib"
  ae_upcase :: "string \<Rightarrow> string"
  ae_downcase :: "string \<Rightarrow> string"
  ae_trust_forwarded :: bool

text \<open>What a request draws: identifiers, random texts, clock readings.\<close>

record api_draw =
  dw_names :: "nat \<Rightarrow> string"
  dw_group_id :: string
  dw_route_id :: string
  dw_account_id :: string
  dw_secret :: string
  dw_run_id :: string
  dw_now :: int
  dw_later :: int
  dw_elapsed_ms :: nat

abbreviation registry_call :: "'a rio \<Rightarrow> ('c, 'a) handler" where
  "registry_call m \<equiv> map_err from_registry (on_store m)"

abbreviation accounts_call :: "'a aio \<Rightarrow> ('c, 'a) handler" where
  "accounts_call m \<equiv> map_err from_accounts (on_store m)"

abbreviation journal_call :: "'a jio \<Rightarrow> ('c, 'a) handler" where
  "journal_call m \<equiv> map_err from_journal (on_store m)"

definition on_table :: "('c route_table \<Rightarrow> 'c route_table \<times> route_invalidation) \<Rightarrow> ('c sweep_world, 'e, unit) io" where
  "on_table f w = (case f (sw_table w) of (t, ev) \<Rightarrow> (Inr (), w\<lparr>sw_table := t, sw_sent := sw_sent w @ [ev]\<rparr>))"

section \<open>Who is calling\<close>

definition extract_session_cookie :: "http_lib \<Rightarrow> (string \<times> bytes) list \<Rightarrow> string option" where
  "extract_session_cookie lib headers = pick_session_cookie lib headers"

definition bearer_caller :: "('c, 'j, 'z) api_env_scheme \<Rightarrow> int \<Rightarrow> int \<Rightarrow> bytes \<Rightarrow> (mem_store, api_failure, auth_context) io" where
  "bearer_caller env t0 t1 given_value = (case ht_to_str (de_http env) given_value of
      None \<Rightarrow> raise (unauthorized ''Authorization header is not valid ASCII'')
    | Some text0 \<Rightarrow> (case strip_prefix ''Bearer '' text0 of
        None \<Rightarrow> raise (unauthorized ''expected `Bearer wmt_...` scheme'')
      | Some given \<Rightarrow>
          bind_io (map_err (\<lambda>e. internal (OfAccounts e)) (authenticate (ae_auth env) t0 t1 (trim given))) (\<lambda>found.
            case found of Some cx \<Rightarrow> ret cx | None \<Rightarrow> raise (unauthorized ''invalid or expired token''))))"

definition session_caller :: "('c, 'j, 'z) api_env_scheme \<Rightarrow> session_store \<Rightarrow> int \<Rightarrow> int \<Rightarrow> string \<Rightarrow> (mem_store, api_failure, auth_context) io" where
  "session_caller env ss t0 t1 cookie =
    bind_io (map_err (\<lambda>e. unauthorized ''invalid or expired session'') (session_touch ss t0 t1 cookie)) (\<lambda>session.
    bind_io (map_err (\<lambda>e. unauthorized ''session refers to a deleted user'')
        (get_user_by_id (ae_auth env) (ss_user_id session))) (\<lambda>user.
    if ss_epoch session \<noteq> us_session_epoch user then raise (unauthorized ''session revoked'')
    else ret \<lparr>cx_user_id = us_id user, cx_user_email = us_email user, cx_is_admin = us_is_admin user,
      cx_credential_kind = SessionCredential, cx_credential_id = ss_id session\<rparr>))"

text \<open>The \<^theory_text>\<open>AuthContext\<close> extractor; the clock is read when the credential is checked and when
  its use is recorded.\<close>

definition caller_of :: "('c, 'j, 'z) api_env_scheme \<Rightarrow> int \<Rightarrow> int \<Rightarrow> (string \<times> bytes) list \<Rightarrow> (mem_store, api_failure, auth_context) io" where
  "caller_of env t0 t1 headers = (case map_of headers ''authorization'' of
      Some v \<Rightarrow> bearer_caller env t0 t1 v
    | None \<Rightarrow> (case (de_sessions env, extract_session_cookie (de_http env) headers) of
        (Some ss, Some cookie) \<Rightarrow> session_caller env ss t0 t1 cookie
      | _ \<Rightarrow> raise (unauthorized ''missing Authorization header or session cookie'')))"

section \<open>Answers\<close>

definition public_base_url :: "http_lib \<Rightarrow> (string \<times> bytes) list \<Rightarrow> bool \<Rightarrow> string" where
  "public_base_url lib headers trust_forwarded =
    (let host = (case Option.bind (map_of headers ''host'') (ht_to_str lib) of Some h \<Rightarrow> h | None \<Rightarrow> ''localhost:8080'');
         scheme = (case (if trust_forwarded then Option.bind (map_of headers ''x-forwarded-proto'') (ht_to_str lib) else None) of
             Some p \<Rightarrow> if p \<noteq> [] then p else ''http'' | None \<Rightarrow> ''http'') in
     scheme @ ''://'' @ host)"

fun split_at_text :: "string \<Rightarrow> string \<Rightarrow> (string \<times> string) option" where
  "split_at_text p [] = (if p = [] then Some ([], []) else None)"
| "split_at_text p (c # cs) = (case strip_prefix p (c # cs) of
      Some after \<Rightarrow> Some ([], after)
    | None \<Rightarrow> map_option (\<lambda>(a, b). (c # a, b)) (split_at_text p cs))"

definition group_base_url :: "http_lib \<Rightarrow> string \<Rightarrow> (string \<times> bytes) list \<Rightarrow> bool \<Rightarrow> string" where
  "group_base_url lib group_name headers trust_forwarded =
    (let base = public_base_url lib headers trust_forwarded in
     case split_at_text ''://'' base of
       Some (scheme, host) \<Rightarrow> scheme @ ''://'' @ group_name @ ''.'' @ host
     | None \<Rightarrow> group_name @ ''.'' @ base)"

record route_response =
  rr_id :: string
  rr_number :: nat
  rr_group_id :: string
  rr_group_name :: string
  rr_methods :: "string list"
  rr_path :: string
  rr_url :: string
  rr_language :: string
  rr_bindings_version :: string
  rr_created_at :: string
  rr_owner_id :: string
  rr_hits_total :: nat
  rr_last_hit_at :: "string option"

definition route_response_of :: "('c, 'j, 'z) api_env_scheme \<Rightarrow> (string \<times> bytes) list \<Rightarrow> route \<Rightarrow> route_response" where
  "route_response_of env headers r =
    \<lparr>rr_id = r_id r, rr_number = r_number r, rr_group_id = r_group_id r, rr_group_name = r_group_name r,
     rr_methods = r_methods r, rr_path = r_path r,
     rr_url = group_base_url (de_http env) (r_group_name r) headers (ae_trust_forwarded env) @ r_path r,
     rr_language = r_language r, rr_bindings_version = r_bindings_version r,
     rr_created_at = to_rfc3339 (de_registry env) (r_created_at r), rr_owner_id = r_owner_id r,
     rr_hits_total = r_hits_total r,
     rr_last_hit_at = map_option (to_rfc3339 (de_registry env)) (r_last_hit_at r)\<rparr>"

record group_response =
  gr_id :: string
  gr_name :: string
  gr_implicit :: bool
  gr_owner_id :: string
  gr_ttl_seconds :: nat
  gr_sliding_ttl :: bool
  gr_callout_enabled :: bool
  gr_created_at :: string
  gr_last_activity_at :: "string option"

definition group_response_of :: "('c, 'j, 'z) api_env_scheme \<Rightarrow> group \<Rightarrow> group_response" where
  "group_response_of env g =
    \<lparr>gr_id = g_id g, gr_name = g_name g, gr_implicit = g_implicit g, gr_owner_id = g_owner_id g,
     gr_ttl_seconds = g_ttl_seconds g, gr_sliding_ttl = g_sliding_ttl g, gr_callout_enabled = g_callout_enabled g,
     gr_created_at = to_rfc3339 (de_registry env) (g_created_at g),
     gr_last_activity_at = map_option (to_rfc3339 (de_registry env)) (g_last_activity_at g)\<rparr>"

record token_record =
  to_id :: string
  to_name :: string
  to_owner_id :: string
  to_created_at :: string
  to_expires_at :: "string option"
  to_last_used_at :: "string option"
  to_scopes :: "string list"

definition token_record_of :: "('c, 'j, 'z) api_env_scheme \<Rightarrow> token \<Rightarrow> token_record" where
  "token_record_of env t = (let text_of = to_rfc3339 (au_time (ae_auth env)) in
    \<lparr>to_id = tk_id t, to_name = tk_name t, to_owner_id = tk_owner_id t, to_created_at = text_of (tk_created_at t),
     to_expires_at = map_option text_of (tk_expires_at t), to_last_used_at = map_option text_of (tk_last_used_at t),
     to_scopes = tk_scopes t\<rparr>)"

record user_record =
  uc_id :: string
  uc_email :: string
  uc_is_admin :: bool
  uc_created_at :: string

definition user_record_of :: "('c, 'j, 'z) api_env_scheme \<Rightarrow> user \<Rightarrow> user_record" where
  "user_record_of env u = \<lparr>uc_id = us_id u, uc_email = us_email u, uc_is_admin = us_is_admin u,
     uc_created_at = to_rfc3339 (au_time (ae_auth env)) (us_created_at u)\<rparr>"

end
