(* ===== verification/Api_Accounts.thy ===== *)
theory Api_Accounts
  imports Api_Base
begin

text \<open>The token and user endpoints of the REST API (\<^theory_text>\<open>api.rs\<close>).\<close>

section \<open>Tokens\<close>

definition api_create_token :: "('c, 'j, 'z) api_env_scheme \<Rightarrow> auth_context \<Rightarrow> api_draw \<Rightarrow> string \<Rightarrow> nat option
    \<Rightarrow> ('c, string \<times> token_record) handler" where
  "api_create_token env cx d name ttl =
    (if trim name = [] then raise (validation (Msg ''token name must not be empty''))
     else bind_io (accounts_call (create_token (ae_auth env) (dw_account_id d) (dw_now d) (dw_secret d)
         (cx_user_id cx) name ttl)) (\<lambda>(t, plaintext). ret (plaintext, token_record_of env t)))"

definition api_list_tokens :: "('c, 'j, 'z) api_env_scheme \<Rightarrow> auth_context \<Rightarrow> ('c, token_record list) handler" where
  "api_list_tokens env cx = bind_io (accounts_call (list_tokens_for (ae_auth env) (cx_user_id cx)))
     (\<lambda>ts. ret (map (token_record_of env) ts))"

definition or_no_such :: "'a option \<Rightarrow> ('c, 'a) handler" where
  "or_no_such found = (case found of Some x \<Rightarrow> ret x | None \<Rightarrow> raise not_found)"

definition api_get_token :: "('c, 'j, 'z) api_env_scheme \<Rightarrow> auth_context \<Rightarrow> string \<Rightarrow> ('c, token_record) handler" where
  "api_get_token env cx name =
    bind_io (bind_io (accounts_call (get_token_by_name (ae_auth env) (cx_user_id cx) name)) or_no_such)
      (\<lambda>t. ret (token_record_of env t))"

definition api_delete_token :: "('c, 'j, 'z) api_env_scheme \<Rightarrow> auth_context \<Rightarrow> string \<Rightarrow> ('c, unit) handler" where
  "api_delete_token env cx name =
    bind_io (accounts_call (revoke_token_by_name (ae_auth env) (cx_user_id cx) name)) (\<lambda>revoked.
      if \<not> revoked then raise not_found else ret ())"

definition api_patch_token :: "('c, 'j, 'z) api_env_scheme \<Rightarrow> auth_context \<Rightarrow> string \<Rightarrow> string \<Rightarrow> ('c, token_record) handler" where
  "api_patch_token env cx old_name name = (let new_name = trim name in
     if new_name = [] then raise (validation (Msg ''token name must not be empty''))
     else bind_io (accounts_call (rename_token (ae_auth env) (cx_user_id cx) old_name new_name))
       (\<lambda>t. ret (token_record_of env t)))"

section \<open>Users\<close>

definition require_admin :: "auth_context \<Rightarrow> ('c, unit) handler" where
  "require_admin cx = (if cx_is_admin cx then ret () else raise (forbidden ''admin role required''))"

definition api_create_user :: "('c, 'j, 'z) api_env_scheme \<Rightarrow> auth_context \<Rightarrow> api_draw \<Rightarrow> string \<Rightarrow> bool
    \<Rightarrow> ('c, user_record) handler" where
  "api_create_user env cx d given is_admin =
    seq_io (require_admin cx) (let email = trim given in
      if email = [] \<or> \<not> has_char (CHR ''@'') email
      then raise (validation (Msg ''user email must be a non-empty email address''))
      else bind_io (accounts_call (create_user (ae_auth env) (dw_account_id d) (dw_now d) email is_admin))
        (\<lambda>u. ret (user_record_of env u)))"

definition api_list_users :: "('c, 'j, 'z) api_env_scheme \<Rightarrow> auth_context \<Rightarrow> ('c, user_record list) handler" where
  "api_list_users env cx = seq_io (require_admin cx)
     (bind_io (accounts_call (list_users (ae_auth env))) (\<lambda>us. ret (map (user_record_of env) us)))"

definition api_get_me :: "('c, 'j, 'z) api_env_scheme \<Rightarrow> auth_context \<Rightarrow> ('c, user_record) handler" where
  "api_get_me env cx = bind_io (accounts_call (get_user_by_id (ae_auth env) (cx_user_id cx)))
     (\<lambda>u. ret (user_record_of env u))"

definition api_revoke_all_my_sessions :: "('c, 'j, 'z) api_env_scheme \<Rightarrow> auth_context \<Rightarrow> ('c, unit) handler" where
  "api_revoke_all_my_sessions env cx =
    bind_io (accounts_call (bump_session_epoch (ae_auth env) (cx_user_id cx))) (\<lambda>epoch. ret ())"

definition selected_user :: "('c, 'j, 'z) api_env_scheme \<Rightarrow> string \<Rightarrow> ('c, user) handler" where
  "selected_user env selector = bind_io (accounts_call (get_user_by_email (ae_auth env) selector)) or_no_such"

definition api_get_user :: "('c, 'j, 'z) api_env_scheme \<Rightarrow> auth_context \<Rightarrow> string \<Rightarrow> ('c, user_record) handler" where
  "api_get_user env cx selector = bind_io (selected_user env selector) (\<lambda>u.
     if \<not> cx_is_admin cx \<and> us_id u \<noteq> cx_user_id cx
     then raise (forbidden ''only an admin or the user themselves may view this record'')
     else ret (user_record_of env u))"

text \<open>The system keeps an admin: the last one is neither demoted nor deleted.\<close>

definition unless_last_admin :: "('c, 'j, 'z) api_env_scheme \<Rightarrow> bool \<Rightarrow> string \<Rightarrow> ('c, unit) handler" where
  "unless_last_admin env concerned refusal =
    (if concerned then bind_io (accounts_call (count_admins (ae_auth env))) (\<lambda>admins.
       if admins \<le> 1 then raise (forbidden refusal) else ret ()) else ret ())"

definition api_patch_user :: "('c, 'j, 'z) api_env_scheme \<Rightarrow> auth_context \<Rightarrow> string \<Rightarrow> bool option \<Rightarrow> ('c, user_record) handler" where
  "api_patch_user env cx selector is_admin =
    seq_io (require_admin cx) (bind_io (selected_user env selector) (\<lambda>u. case is_admin of
      None \<Rightarrow> raise (validation (Msg ''PATCH body must include `is_admin` (the only mutable field today)''))
    | Some target_admin \<Rightarrow>
        seq_io (unless_last_admin env (\<not> target_admin \<and> us_is_admin u)
            ''cannot demote the last admin; promote another user first'')
          (bind_io (accounts_call (set_user_admin (ae_auth env) (us_id u) target_admin))
            (\<lambda>updated. ret (user_record_of env updated)))))"

definition api_delete_user :: "('c, 'j, 'z) api_env_scheme \<Rightarrow> auth_context \<Rightarrow> string \<Rightarrow> ('c, unit) handler" where
  "api_delete_user env cx selector =
    seq_io (require_admin cx) (bind_io (selected_user env selector) (\<lambda>u.
      if us_id u = cx_user_id cx then raise (forbidden ''an admin cannot delete themselves; ask another admin'')
      else seq_io (unless_last_admin env (us_is_admin u) ''cannot delete the last admin; promote another user first'')
        (bind_io (registry_call (list_routes_by_owner (de_registry env) (us_id u))) (\<lambda>owned.
          if owned \<noteq> [] then raise (conflict_error (OwnsRoutes (length owned)))
          else accounts_call (delete_user (ae_auth env) (us_id u))))))"

section \<open>The endpoints\<close>

datatype account_request =
    CreateToken string "nat option"
  | ListTokens
  | GetToken string
  | DeleteToken string
  | PatchToken string string
  | CreateUser string bool
  | ListUsers
  | GetMe
  | RevokeAllMySessions
  | GetUser string
  | PatchUser string "bool option"
  | DeleteUser string

datatype account_answer =
    TokenCreated "string \<times> token_record"
  | TokenList "token_record list"
  | OneToken token_record
  | UserList "user_record list"
  | OneUser user_record
  | AccountDone

fun account_endpoint :: "('c, 'j, 'z) api_env_scheme \<Rightarrow> auth_context \<Rightarrow> api_draw \<Rightarrow> account_request
    \<Rightarrow> ('c, account_answer) handler" where
  "account_endpoint env cx d (CreateToken n ttl) = bind_io (api_create_token env cx d n ttl) (\<lambda>x. ret (TokenCreated x))"
| "account_endpoint env cx d ListTokens = bind_io (api_list_tokens env cx) (\<lambda>x. ret (TokenList x))"
| "account_endpoint env cx d (GetToken n) = bind_io (api_get_token env cx n) (\<lambda>x. ret (OneToken x))"
| "account_endpoint env cx d (DeleteToken n) = bind_io (api_delete_token env cx n) (\<lambda>x. ret AccountDone)"
| "account_endpoint env cx d (PatchToken old n) = bind_io (api_patch_token env cx old n) (\<lambda>x. ret (OneToken x))"
| "account_endpoint env cx d (CreateUser e a) = bind_io (api_create_user env cx d e a) (\<lambda>x. ret (OneUser x))"
| "account_endpoint env cx d ListUsers = bind_io (api_list_users env cx) (\<lambda>x. ret (UserList x))"
| "account_endpoint env cx d GetMe = bind_io (api_get_me env cx) (\<lambda>x. ret (OneUser x))"
| "account_endpoint env cx d RevokeAllMySessions = bind_io (api_revoke_all_my_sessions env cx) (\<lambda>x. ret AccountDone)"
| "account_endpoint env cx d (GetUser e) = bind_io (api_get_user env cx e) (\<lambda>x. ret (OneUser x))"
| "account_endpoint env cx d (PatchUser e a) = bind_io (api_patch_user env cx e a) (\<lambda>x. ret (OneUser x))"
| "account_endpoint env cx d (DeleteUser e) = bind_io (api_delete_user env cx e) (\<lambda>x. ret AccountDone)"

end
