(* ===== verification/Api_Listing.thy ===== *)
theory Api_Listing
  imports Api_Base "HOL-Library.Sorting_Algorithms" "HOL-Library.Option_ord"
begin

text \<open>The listings of the REST API (\<^theory_text>\<open>api.rs\<close>): filters, sorting and pages of routes and
  groups.\<close>

section \<open>Pages\<close>

definition DEFAULT_LIST_LIMIT :: nat where "DEFAULT_LIST_LIMIT = 50"
definition MAX_LIST_LIMIT :: nat where "MAX_LIST_LIMIT = 200"

definition parse_pagination :: "nat option \<Rightarrow> nat option \<Rightarrow> filter_parse_error + nat \<times> nat" where
  "parse_pagination offset limit =
    (let off = (case offset of Some n \<Rightarrow> n | None \<Rightarrow> 0);
         raw_limit = (case limit of Some n \<Rightarrow> n | None \<Rightarrow> DEFAULT_LIST_LIMIT) in
     if raw_limit = 0 then Inl (BadLimit ''0'') else Inr (off, min raw_limit MAX_LIST_LIMIT))"

record 'a page =
  pg_items :: "'a list"
  pg_total :: nat
  pg_next_offset :: "nat option"

definition slice_for_page :: "'a list \<Rightarrow> nat \<Rightarrow> nat \<Rightarrow> 'a page" where
  "slice_for_page items offset limit =
    (let num = length items; start = min offset num; stop = min (start + limit) num in
     \<lparr>pg_items = take (stop - start) (drop start items), pg_total = num,
      pg_next_offset = (if stop < num then Some stop else None)\<rparr>)"

definition time_bound :: "('c, 'j, 'z) api_env_scheme \<Rightarrow> int \<Rightarrow> string option \<Rightarrow> api_failure + int option" where
  "time_bound env now given = (case given of
      None \<Rightarrow> Inr None
    | Some t \<Rightarrow> (case parse_since (au_time (ae_auth env)) (au_chrono (ae_auth env)) t now of
        Inl p \<Rightarrow> Inl Panicked
      | Inr (Inl e) \<Rightarrow> Inl (from_filter e)
      | Inr (Inr ts) \<Rightarrow> Inr (Some ts)))"

definition filtered :: "filter_parse_error + 'a \<Rightarrow> api_failure + 'a" where
  "filtered r = (case r of Inl e \<Rightarrow> Inl (from_filter e) | Inr x \<Rightarrow> Inr x)"

text \<open>Whose records a caller may list: an admin anyone's, others their own.\<close>

definition owner_filter :: "auth_context \<Rightarrow> string option \<Rightarrow> api_failure + string option" where
  "owner_filter cx owner_id =
    (if cx_is_admin cx then Inr owner_id
     else if owner_id \<noteq> None then Inl (from_filter OwnerNonAdmin)
     else Inr (Some (cx_user_id cx)))"

definition within :: "int option \<Rightarrow> int option \<Rightarrow> int option \<Rightarrow> bool" where
  "within since till stamp =
    (if since = None \<and> till = None then True
     else (case stamp of None \<Rightarrow> False
       | Some ts \<Rightarrow>
         if (case since of Some s \<Rightarrow> ts < s | None \<Rightarrow> False) then False
         else if (case till of Some u \<Rightarrow> u < ts | None \<Rightarrow> False) then False
         else True))"

definition or_any :: "'q option \<Rightarrow> ('q \<Rightarrow> bool) \<Rightarrow> bool" where
  "or_any q p = (case q of Some x \<Rightarrow> p x | None \<Rightarrow> True)"

text \<open>A stable sort; an absent time comes before every time.\<close>

definition sort_towards :: "sort_dir \<Rightarrow> 'a comparator \<Rightarrow> 'a list \<Rightarrow> 'a list" where
  "sort_towards dir cmp xs = Sorting_Algorithms.sort (case dir of Asc \<Rightarrow> cmp | Desc \<Rightarrow> reversed cmp) xs"

section \<open>Routes\<close>

record routes_list_query =
  lr_group :: "string option"
  lr_owner_id :: "string option"
  lr_method :: "string option"
  lr_path_pattern :: "string option"
  lr_since :: "string option"
  lr_until :: "string option"
  lr_q :: "string option"
  lr_sort :: "string option"
  lr_dir :: "string option"
  lr_offset :: "nat option"
  lr_limit :: "nat option"

datatype route_sort_key = RouteCreatedAt | RouteLastHitAt | RouteHitsTotal

definition parse_route_sort :: "string option \<Rightarrow> filter_parse_error + route_sort_key" where
  "parse_route_sort given = (case given of
      None \<Rightarrow> Inr RouteCreatedAt
    | Some s \<Rightarrow> if s = ''created_at'' then Inr RouteCreatedAt
        else if s = ''last_hit_at'' then Inr RouteLastHitAt
        else if s = ''hits_total'' then Inr RouteHitsTotal else Inl (BadSort s))"

fun route_order :: "route_sort_key \<Rightarrow> route comparator" where
  "route_order RouteCreatedAt = Comparator.key r_created_at default"
| "route_order RouteLastHitAt = Comparator.key r_last_hit_at default"
| "route_order RouteHitsTotal = Comparator.key r_hits_total default"

definition sort_routes :: "route list \<Rightarrow> route_sort_key \<Rightarrow> sort_dir \<Rightarrow> route list" where
  "sort_routes rs k dir = sort_towards dir (route_order k) rs"

definition route_matches_since_until :: "route \<Rightarrow> int option \<Rightarrow> int option \<Rightarrow> bool" where
  "route_matches_since_until r since till = within since till (r_last_hit_at r)"

definition route_matches_q :: "route \<Rightarrow> string \<Rightarrow> bool" where
  "route_matches_q r needle = (let n = to_lower needle in
     contains_text n (to_lower (r_path r)) \<or> list_ex (\<lambda>m. contains_text n (to_lower m)) (r_methods r))"

definition route_selected ::
  "routes_list_query \<Rightarrow> string option \<Rightarrow> string option \<Rightarrow> int option \<Rightarrow> int option \<Rightarrow> route \<Rightarrow> bool" where
  "route_selected q owner verb since till r \<longleftrightarrow>
     or_any owner (\<lambda>o'. r_owner_id r = o') \<and> or_any (lr_group q) (\<lambda>g. r_group_name r = g \<or> r_group_id r = g)
     \<and> or_any verb (\<lambda>m. m \<in> set (r_methods r)) \<and> or_any (lr_path_pattern q) (\<lambda>p. glob_match p (r_path r))
     \<and> route_matches_since_until r since till \<and> or_any (lr_q q) (route_matches_q r)"

text \<open>The parameters of a listing, checked in the source's order.\<close>

definition route_listing :: "('c, 'j, 'z) api_env_scheme \<Rightarrow> auth_context \<Rightarrow> int \<Rightarrow> routes_list_query
    \<Rightarrow> api_failure + (nat \<times> nat) \<times> route_sort_key \<times> sort_dir \<times> (route \<Rightarrow> bool)" where
  "route_listing env cx now q =
    rbind (filtered (parse_pagination (lr_offset q) (lr_limit q))) (\<lambda>pg.
    rbind (filtered (sort_dir_parse (lr_dir q) Desc)) (\<lambda>dir.
    rbind (filtered (parse_route_sort (lr_sort q))) (\<lambda>k.
    rbind (case lr_method q of None \<Rightarrow> Inr None | Some m \<Rightarrow> rmap Some (filtered (validate_method m))) (\<lambda>verb.
    rbind (time_bound env now (lr_since q)) (\<lambda>since.
    rbind (time_bound env now (lr_until q)) (\<lambda>till.
    rbind (owner_filter cx (lr_owner_id q)) (\<lambda>owner.
    Inr (pg, k, dir, route_selected q owner verb since till))))))))"

definition list_routes_core :: "('c, 'j, 'z) api_env_scheme \<Rightarrow> auth_context \<Rightarrow> int \<Rightarrow> routes_list_query \<Rightarrow> ('c, route page) handler" where
  "list_routes_core env cx now q =
    bind_io (lift_result (route_listing env cx now q)) (\<lambda>((offset, limit), k, dir, selected).
    bind_io (registry_call (list_routes (de_registry env))) (\<lambda>all0.
    ret (slice_for_page (sort_routes (filter selected all0) k dir) offset limit)))"

section \<open>Groups\<close>

record groups_list_query =
  lg_owner_id :: "string option"
  lg_name_prefix :: "string option"
  lg_q :: "string option"
  lg_since :: "string option"
  lg_until :: "string option"
  lg_implicit :: "bool option"
  lg_sort :: "string option"
  lg_dir :: "string option"
  lg_offset :: "nat option"
  lg_limit :: "nat option"

datatype group_sort_key = GroupCreatedAt | GroupName | GroupLastActivityAt

definition parse_group_sort :: "string option \<Rightarrow> filter_parse_error + group_sort_key" where
  "parse_group_sort given = (case given of
      None \<Rightarrow> Inr GroupCreatedAt
    | Some s \<Rightarrow> if s = ''created_at'' then Inr GroupCreatedAt
        else if s = ''name'' then Inr GroupName
        else if s = ''last_activity_at'' then Inr GroupLastActivityAt else Inl (BadSort s))"

fun group_order :: "group_sort_key \<Rightarrow> group comparator" where
  "group_order GroupCreatedAt = Comparator.key g_created_at default"
| "group_order GroupName = Comparator.key g_name default"
| "group_order GroupLastActivityAt = Comparator.key g_last_activity_at default"

definition sort_groups :: "group list \<Rightarrow> group_sort_key \<Rightarrow> sort_dir \<Rightarrow> group list" where
  "sort_groups gs k dir = sort_towards dir (group_order k) gs"

definition group_matches_since_until :: "group \<Rightarrow> int option \<Rightarrow> int option \<Rightarrow> bool" where
  "group_matches_since_until g since till = within since till (g_last_activity_at g)"

definition group_selected :: "groups_list_query \<Rightarrow> int option \<Rightarrow> int option \<Rightarrow> group \<Rightarrow> bool" where
  "group_selected q since till g \<longleftrightarrow>
     or_any (lg_name_prefix q) (\<lambda>p. starts_with p (g_name g))
     \<and> or_any (lg_q q) (\<lambda>needle. contains_text (to_lower needle) (to_lower (g_name g)))
     \<and> group_matches_since_until g since till \<and> or_any (lg_implicit q) (\<lambda>want. g_implicit g = want)"

definition group_listing :: "('c, 'j, 'z) api_env_scheme \<Rightarrow> auth_context \<Rightarrow> int \<Rightarrow> groups_list_query
    \<Rightarrow> api_failure + (nat \<times> nat) \<times> group_sort_key \<times> sort_dir \<times> (group \<Rightarrow> bool) \<times> string option" where
  "group_listing env cx now q =
    rbind (filtered (parse_pagination (lg_offset q) (lg_limit q))) (\<lambda>pg.
    rbind (filtered (sort_dir_parse (lg_dir q) Desc)) (\<lambda>dir.
    rbind (filtered (parse_group_sort (lg_sort q))) (\<lambda>k.
    rbind (time_bound env now (lg_since q)) (\<lambda>since.
    rbind (time_bound env now (lg_until q)) (\<lambda>till.
    rbind (owner_filter cx (lg_owner_id q)) (\<lambda>owner.
    Inr (pg, k, dir, group_selected q since till, owner)))))))"

definition list_groups_core :: "('c, 'j, 'z) api_env_scheme \<Rightarrow> auth_context \<Rightarrow> int \<Rightarrow> groups_list_query \<Rightarrow> ('c, group page) handler" where
  "list_groups_core env cx now q =
    bind_io (lift_result (group_listing env cx now q)) (\<lambda>((offset, limit), k, dir, selected, owner).
    bind_io (registry_call (case owner of
        Some o' \<Rightarrow> list_groups_by_owner (de_registry env) o' | None \<Rightarrow> list_groups (de_registry env))) (\<lambda>gs.
    ret (slice_for_page (sort_groups (filter selected gs) k dir) offset limit)))"

section \<open>What a listing shows\<close>

lemma slice_parts:
  "pg_items (slice_for_page xs off lim) = take lim (drop off xs)"
  "pg_total (slice_for_page xs off lim) = length xs"
  "pg_next_offset (slice_for_page xs off lim) = (if off + lim < length xs then Some (off + lim) else None)"
  by (auto simp: slice_for_page_def Let_def min_def)

text \<open>A client that asks again with the offset it was given, until it is given none.\<close>

function follow_pages :: "'a list \<Rightarrow> nat \<Rightarrow> nat \<Rightarrow> 'a list" where
  "follow_pages xs off lim = (case pg_next_offset (slice_for_page xs off lim) of
      None \<Rightarrow> pg_items (slice_for_page xs off lim)
    | Some n \<Rightarrow> if n \<le> off then [] else pg_items (slice_for_page xs off lim) @ follow_pages xs n lim)"
  by pat_completeness auto
termination
  by (relation "measure (\<lambda>(xs, off, lim). length xs - off)") (auto simp: slice_parts split: if_splits)

declare follow_pages.simps [simp del]

lemma pages_cover: "0 < lim \<Longrightarrow> follow_pages xs off lim = drop off xs"
proof (induction xs off lim rule: follow_pages.induct)
  case (1 xs off lim)
  have step: "take lim (drop off xs) @ drop (off + lim) xs = drop off xs"
    using append_take_drop_id[of lim "drop off xs"] by (simp add: add.commute)
  show ?case
    using 1 by (subst follow_pages.simps) (auto simp: slice_parts step)
qed

end
