(* ===== verification/Api_Journal.thy ===== *)
theory Api_Journal
  imports Api_Listing
begin

text \<open>The journal endpoints of the REST API (\<^theory_text>\<open>api.rs\<close>): handled requests, callbacks,
  unmatched requests, and the events of the live tail.\<close>

section \<open>Who may read\<close>

definition caller_can_read_journal :: "('c, 'j, 'z) api_env_scheme \<Rightarrow> auth_context \<Rightarrow> string \<Rightarrow> ('c, bool) handler" where
  "caller_can_read_journal env cx gid =
    (if cx_is_admin cx then ret True
     else bind_io (registry_call (list_routes_by_owner (de_registry env) (cx_user_id cx))) (\<lambda>owned.
       ret (list_ex (\<lambda>r. r_group_id r = gid) owned)))"

definition unmatched_visible_groups :: "('c, 'j, 'z) api_env_scheme \<Rightarrow> auth_context \<Rightarrow> ('c, string set option) handler" where
  "unmatched_visible_groups env cx =
    (if cx_is_admin cx then ret None
     else bind_io (registry_call (list_groups_by_owner (de_registry env) (cx_user_id cx))) (\<lambda>gs.
       ret (Some (set (map g_id gs)))))"

definition caller_owns_unmatched :: "('c, 'j, 'z) api_env_scheme \<Rightarrow> auth_context \<Rightarrow> string \<Rightarrow> ('c, bool) handler" where
  "caller_owns_unmatched env cx gid w =
    (if cx_is_admin cx then (Inr True, w)
     else (case on_store (read_group_by_ref (de_registry env) gid) w of
         (Inr g, w') \<Rightarrow> (Inr (g_owner_id g = cx_user_id cx), w')
       | (Inl e, w') \<Rightarrow> (Inr False, w')))"

text \<open>The group a reference names, if the caller may read its journal.\<close>

definition journal_group :: "('c, 'j, 'z) api_env_scheme \<Rightarrow> auth_context \<Rightarrow> string \<Rightarrow> string \<Rightarrow> ('c, group) handler" where
  "journal_group env cx refusal group_ref =
    bind_io (map_err (\<lambda>e. not_found) (on_store (read_group_by_ref (de_registry env) group_ref))) (\<lambda>g.
    bind_io (caller_can_read_journal env cx (g_id g)) (\<lambda>allowed.
      if \<not> allowed then raise (forbidden refusal) else ret g))"

section \<open>Handled requests\<close>

record journal_list_query =
  lj_before :: "nat option"
  lj_limit :: "nat option"
  lj_route :: "string option"
  lj_method :: "string option"
  lj_path_pattern :: "string option"
  lj_status :: "string option"
  lj_since :: "string option"
  lj_until :: "string option"

definition parsed :: "('a \<Rightarrow> api_failure + 'b) \<Rightarrow> 'a option \<Rightarrow> api_failure + 'b option" where
  "parsed p given = (case given of None \<Rightarrow> Inr None | Some x \<Rightarrow> rmap Some (p x))"

definition slug_result :: "slug_parse_error + 'a \<Rightarrow> api_failure + 'a" where
  "slug_result r = (case r of Inl e \<Rightarrow> Inl (validation (OfSlug e)) | Inr x \<Rightarrow> Inr x)"

definition build_journal_filter_from_query :: "('c, 'j, 'z) api_env_scheme \<Rightarrow> int \<Rightarrow> string option \<Rightarrow> string option
    \<Rightarrow> string option \<Rightarrow> string option \<Rightarrow> string option \<Rightarrow> string option \<Rightarrow> string option \<Rightarrow> api_failure + journal_filter" where
  "build_journal_filter_from_query env now grp route_text verb path_pattern status_text since till =
    rbind (parsed (\<lambda>s. slug_result (route_slug_parse s)) route_text) (\<lambda>slug.
    rbind (parsed (\<lambda>s. slug_result (status_filter_parse s)) status_text) (\<lambda>status.
    rbind (parsed (\<lambda>m. filtered (validate_method m)) verb) (\<lambda>verb.
    rbind (time_bound env now since) (\<lambda>since.
    rbind (time_bound env now till) (\<lambda>till.
    Inr \<lparr>jf_group = grp, jf_route = slug, jf_method = verb, jf_path_pattern = path_pattern, jf_status = status,
      jf_since = since, jf_until = till\<rparr>)))))"

record 'r log_page =
  lp_entries :: "'r list"
  lp_next_before :: "nat option"

text \<open>The cursor of the next page is the last record read, before the filter is applied.\<close>

definition next_before :: "('r \<Rightarrow> nat) \<Rightarrow> 'r list \<Rightarrow> nat option" where
  "next_before number entries =
    (if entries \<noteq> [] \<and> number (List.last entries) > 1 then Some (number (List.last entries)) else None)"

definition any_handled_filter :: "journal_filter \<Rightarrow> bool" where
  "any_handled_filter f \<longleftrightarrow> jf_route f \<noteq> None \<or> jf_method f \<noteq> None \<or> jf_path_pattern f \<noteq> None
     \<or> jf_status f \<noteq> None \<or> jf_since f \<noteq> None \<or> jf_until f \<noteq> None"

definition cursor_of :: "nat option \<Rightarrow> nat option \<Rightarrow> list_cursor" where
  "cursor_of before limit = \<lparr>cu_before = before, cu_limit = (case limit of Some n \<Rightarrow> n | None \<Rightarrow> 100)\<rparr>"

definition api_list_journal :: "('c, 'j, 'z) api_env_scheme \<Rightarrow> auth_context \<Rightarrow> int \<Rightarrow> string \<Rightarrow> journal_list_query
    \<Rightarrow> ('c, journal_record log_page) handler" where
  "api_list_journal env cx now group_ref q =
    bind_io (journal_group env cx ''must be an admin or own a route in this group to read its journal'' group_ref) (\<lambda>g.
    bind_io (lift_result (build_journal_filter_from_query env now (Some (g_name g)) (lj_route q) (lj_method q)
      (lj_path_pattern q) (lj_status q) (lj_since q) (lj_until q))) (\<lambda>flt.
    bind_io (journal_call (list_for_group (de_handled env) (g_id g) (cursor_of (lj_before q) (lj_limit q)))) (\<lambda>entries.
    ret \<lparr>lp_entries = (if any_handled_filter flt then filter (matches_handled flt) entries else entries),
      lp_next_before = next_before jr_number entries\<rparr>)))"

definition api_get_journal_entry :: "('c, 'j, 'z) api_env_scheme \<Rightarrow> auth_context \<Rightarrow> string \<Rightarrow> nat \<Rightarrow> ('c, journal_record) handler" where
  "api_get_journal_entry env cx group_ref n =
    bind_io (journal_group env cx ''must be an admin or own a route in this group to read its journal'' group_ref) (\<lambda>g.
      journal_call (journal_get (de_handled env) (g_id g) n))"

section \<open>Callbacks\<close>

definition api_list_callbacks :: "('c, 'j, 'z) api_env_scheme \<Rightarrow> auth_context \<Rightarrow> string \<Rightarrow> nat option \<Rightarrow> nat option
    \<Rightarrow> ('c, callback_record log_page) handler" where
  "api_list_callbacks env cx group_ref before limit =
    bind_io (journal_group env cx ''must be an admin or own a route in this group to read its callbacks'' group_ref) (\<lambda>g.
    bind_io (journal_call (list_callbacks_for_group (ae_callbacks env) (g_id g) (cursor_of before limit))) (\<lambda>entries.
    ret \<lparr>lp_entries = entries, lp_next_before = next_before cr_number entries\<rparr>))"

definition api_get_callback_entry :: "('c, 'j, 'z) api_env_scheme \<Rightarrow> auth_context \<Rightarrow> string \<Rightarrow> nat \<Rightarrow> ('c, callback_record) handler" where
  "api_get_callback_entry env cx group_ref n =
    bind_io (journal_group env cx ''must be an admin or own a route in this group to read its callbacks'' group_ref) (\<lambda>g.
      journal_call (get_callback (ae_callbacks env) (g_id g) n))"

section \<open>Unmatched requests\<close>

record unmatched_list_query =
  lu_before :: "nat option"
  lu_limit :: "nat option"
  lu_method :: "string option"
  lu_path_pattern :: "string option"
  lu_since :: "string option"
  lu_until :: "string option"

definition any_unmatched_filter :: "journal_filter \<Rightarrow> bool" where
  "any_unmatched_filter f \<longleftrightarrow> jf_method f \<noteq> None \<or> jf_path_pattern f \<noteq> None \<or> jf_since f \<noteq> None \<or> jf_until f \<noteq> None"

definition api_list_unmatched :: "('c, 'j, 'z) api_env_scheme \<Rightarrow> auth_context \<Rightarrow> int \<Rightarrow> unmatched_list_query
    \<Rightarrow> ('c, unmatched_record log_page) handler" where
  "api_list_unmatched env cx now q =
    bind_io (unmatched_visible_groups env cx) (\<lambda>visible.
    bind_io (lift_result (build_journal_filter_from_query env now None None (lu_method q) (lu_path_pattern q) None
      (lu_since q) (lu_until q))) (\<lambda>flt.
    bind_io (journal_call (list_unmatched (de_unmatched env) (cursor_of (lu_before q) (lu_limit q)) visible)) (\<lambda>entries.
    ret \<lparr>lp_entries = (if any_unmatched_filter flt then filter (matches_unmatched flt) entries else entries),
      lp_next_before = next_before ur_number entries\<rparr>)))"

definition api_get_unmatched_entry :: "('c, 'j, 'z) api_env_scheme \<Rightarrow> auth_context \<Rightarrow> nat \<Rightarrow> ('c, unmatched_record) handler" where
  "api_get_unmatched_entry env cx n =
    bind_io (journal_call (get_unmatched (de_unmatched env) n)) (\<lambda>entry.
    bind_io (caller_owns_unmatched env cx (ur_group_id entry)) (\<lambda>own.
      if \<not> own then raise (forbidden ''must be an admin or own this group to read its unmatched requests'')
      else ret entry))"

section \<open>The live tail\<close>

record tail_query =
  lt_group :: "string option"
  lt_route :: "string option"
  lt_method :: "string option"
  lt_path_pattern :: "string option"
  lt_status :: "string option"

text \<open>The filter of the stream, if the caller may have it.\<close>

definition api_tail_journal :: "('c, 'j, 'z) api_env_scheme \<Rightarrow> auth_context \<Rightarrow> tail_query \<Rightarrow> ('c, journal_filter) handler" where
  "api_tail_journal env cx q =
    bind_io (lift_result (parsed (\<lambda>s. slug_result (route_slug_parse s)) (lt_route q))) (\<lambda>slug.
    bind_io (lift_result (parsed (\<lambda>s. slug_result (status_filter_parse s)) (lt_status q))) (\<lambda>status.
    seq_io (case lt_group q of
        Some group_ref \<Rightarrow> bind_io (journal_group env cx
            ''must be an admin or own a route in this group to tail its journal'' group_ref) (\<lambda>g. ret ())
      | None \<Rightarrow> if \<not> cx_is_admin cx
          then raise (forbidden ''host-wide journal tail is admin-only; supply ?group= to scope it'') else ret ())
    (ret \<lparr>jf_group = lt_group q, jf_route = slug, jf_method = lt_method q, jf_path_pattern = lt_path_pattern q,
       jf_status = status, jf_since = None, jf_until = None\<rparr>)))"

text \<open>What goes out for a message of the broadcast channel: an event, or the number lost when
  the reader was too slow.\<close>

datatype tail_message = Event journal_event | Lagged nat
datatype tail_event = Ready | Sent journal_event | Warning nat

definition tail_step :: "journal_filter \<Rightarrow> tail_message \<Rightarrow> tail_event option" where
  "tail_step flt m = (case m of
      Event ev \<Rightarrow> if filter_matches flt ev then Some (Sent ev) else None
    | Lagged n \<Rightarrow> Some (Warning n))"

definition tail_stream :: "journal_filter \<Rightarrow> tail_message list \<Rightarrow> tail_event list" where
  "tail_stream flt ms = Ready # List.map_filter (tail_step flt) ms"

section \<open>The endpoints\<close>

datatype journal_request =
    ListJournal string journal_list_query
  | GetJournalEntry string nat
  | TailJournal tail_query
  | ListUnmatched unmatched_list_query
  | GetUnmatchedEntry nat
  | ListCallbacks string "nat option" "nat option"
  | GetCallbackEntry string nat

datatype journal_answer =
    JournalPage "journal_record log_page"
  | OneEntry journal_record
  | TailOf journal_filter
  | UnmatchedPage "unmatched_record log_page"
  | OneUnmatched unmatched_record
  | CallbackPage "callback_record log_page"
  | OneCallback callback_record

fun journal_endpoint :: "('c, 'j, 'z) api_env_scheme \<Rightarrow> auth_context \<Rightarrow> api_draw \<Rightarrow> journal_request
    \<Rightarrow> ('c, journal_answer) handler" where
  "journal_endpoint env cx d (ListJournal g q) = bind_io (api_list_journal env cx (dw_now d) g q) (\<lambda>x. ret (JournalPage x))"
| "journal_endpoint env cx d (GetJournalEntry g n) = bind_io (api_get_journal_entry env cx g n) (\<lambda>x. ret (OneEntry x))"
| "journal_endpoint env cx d (TailJournal q) = bind_io (api_tail_journal env cx q) (\<lambda>x. ret (TailOf x))"
| "journal_endpoint env cx d (ListUnmatched q) = bind_io (api_list_unmatched env cx (dw_now d) q) (\<lambda>x. ret (UnmatchedPage x))"
| "journal_endpoint env cx d (GetUnmatchedEntry n) = bind_io (api_get_unmatched_entry env cx n) (\<lambda>x. ret (OneUnmatched x))"
| "journal_endpoint env cx d (ListCallbacks g b l) = bind_io (api_list_callbacks env cx g b l) (\<lambda>x. ret (CallbackPage x))"
| "journal_endpoint env cx d (GetCallbackEntry g n) = bind_io (api_get_callback_entry env cx g n) (\<lambda>x. ret (OneCallback x))"

end
