(* ===== verification/Api_Routes.thy ===== *)
theory Api_Routes
  imports Api_Listing
begin

text \<open>The route endpoints of the REST API (\<^theory_text>\<open>api.rs\<close>): create, read, change and delete a route,
  its state, its source, and a dry run.

  A handler is given the caller, what the request draws and the decoded request.\<close>

section \<open>Creating and changing\<close>

definition SUPPORTED_BINDINGS_VERSION :: string where "SUPPORTED_BINDINGS_VERSION = ''0.1.0''"

record create_route_body =
  cb_group :: "string option"
  cb_methods :: "string list"
  cb_path :: string
  cb_language :: string
  cb_source :: "string option"

record patch_route_body =
  pb_methods :: "string list option"
  pb_path :: "string option"
  pb_language :: "string option"
  pb_source :: "string option"

text \<open>A route goes into an existing group only of its owner or an admin; a foreign group answers
  like a missing one.\<close>

definition tenancy_gate :: "('c, 'j, 'z) api_env_scheme \<Rightarrow> auth_context \<Rightarrow> string option \<Rightarrow> ('c, unit) handler" where
  "tenancy_gate env cx target = (case target of
      None \<Rightarrow> ret ()
    | Some reference \<Rightarrow>
        bind_io (map_err (\<lambda>e. not_found) (on_store (read_group_by_ref (de_registry env) reference))) (\<lambda>g.
          if g_owner_id g = cx_user_id cx \<or> cx_is_admin cx then ret () else raise not_found))"

text \<open>The text of a route, if its language is one that is accepted and it transpiles.\<close>

definition checked_source :: "('c, 'j, 'z) api_env_scheme \<Rightarrow> string \<Rightarrow> string option \<Rightarrow> api_failure + string" where
  "checked_source env language given =
    (if language = ''wasm'' then Inl (validation WasmRetired)
     else if is_source_language language then (case given of
         None \<Rightarrow> Inl (validation (SourceRequired language))
       | Some src \<Rightarrow> (case he_transpile env src of
           Inl e \<Rightarrow> Inl (compile_failed (OfTranspiler e))
         | Inr transpiled \<Rightarrow> Inr src))
     else Inl (validation (UnsupportedLanguage language)))"

definition create_route_core :: "('c, 'j, 'z) api_env_scheme \<Rightarrow> auth_context \<Rightarrow> api_draw \<Rightarrow> create_route_body \<Rightarrow> ('c, route) handler" where
  "create_route_core env cx d b =
    seq_io (tenancy_gate env cx (cb_group b))
    (seq_io (registry_call (precheck_create_conflict (de_registry env) (cb_group b) (cb_methods b) (cb_path b)))
    (bind_io (lift_result (checked_source env (cb_language b) (cb_source b))) (\<lambda>src.
     bind_io (registry_call (create_route (de_registry env) (dw_names d) (dw_group_id d) (dw_route_id d) (dw_now d)
       \<lparr>nr_group = cb_group b, nr_methods = cb_methods b, nr_path = cb_path b, nr_language = cb_language b,
        nr_bindings_version = SUPPORTED_BINDINGS_VERSION, nr_compiled_wasm = [], nr_source = Some src,
        nr_owner_id = cx_user_id cx\<rparr>)) (\<lambda>r.
     seq_io (on_table (refresh_after_create r)) (ret r)))))"

record created_route =
  ca_location :: string
  ca_route :: route_response

definition api_create_route :: "('c, 'j, 'z) api_env_scheme \<Rightarrow> (string \<times> bytes) list \<Rightarrow> auth_context \<Rightarrow> api_draw
    \<Rightarrow> create_route_body \<Rightarrow> ('c, created_route) handler" where
  "api_create_route env headers cx d b = bind_io (create_route_core env cx d b) (\<lambda>r.
     ret \<lparr>ca_location = ''/api/routes/'' @ render_slug (r_group_name r) (r_number r),
       ca_route = route_response_of env headers r\<rparr>)"

text \<open>The route a slug names, for its owner or an admin.\<close>

definition own_route :: "('c, 'j, 'z) api_env_scheme \<Rightarrow> auth_context \<Rightarrow> string \<Rightarrow> string \<Rightarrow> nat \<Rightarrow> ('c, route) handler" where
  "own_route env cx refusal group_ref n =
    bind_io (registry_call (get_route_by_slug (de_registry env) group_ref n)) (\<lambda>r.
      if r_owner_id r \<noteq> cx_user_id cx \<and> \<not> cx_is_admin cx then raise (forbidden refusal) else ret r)"

definition api_get_route :: "('c, 'j, 'z) api_env_scheme \<Rightarrow> (string \<times> bytes) list \<Rightarrow> auth_context \<Rightarrow> string \<Rightarrow> nat
    \<Rightarrow> ('c, route_response) handler" where
  "api_get_route env headers cx group_ref n =
    bind_io (own_route env cx ''only the route's owner or an admin may read it'' group_ref n)
      (\<lambda>r. ret (route_response_of env headers r))"

definition api_list_routes :: "('c, 'j, 'z) api_env_scheme \<Rightarrow> (string \<times> bytes) list \<Rightarrow> auth_context \<Rightarrow> int
    \<Rightarrow> routes_list_query \<Rightarrow> ('c, route_response page) handler" where
  "api_list_routes env headers cx now q = bind_io (list_routes_core env cx now q) (\<lambda>pg.
     ret \<lparr>pg_items = map (route_response_of env headers) (pg_items pg), pg_total = pg_total pg,
       pg_next_offset = pg_next_offset pg\<rparr>)"

definition patch_of_body :: "('c, 'j, 'z) api_env_scheme \<Rightarrow> patch_route_body \<Rightarrow> api_failure + patch_route" where
  "patch_of_body env b =
    (if pb_methods b = None \<and> pb_path b = None \<and> pb_language b = None \<and> pb_source b = None
     then Inl (validation (Msg ''PATCH body must include at least one mutable field (`methods`, `path`, `source`)''))
     else if pb_source b = None then Inr \<lparr>pr_methods = pb_methods b, pr_path = pb_path b, pr_language = None,
       pr_bindings_version = None, pr_compiled_wasm = None, pr_source = None\<rparr>
     else (case pb_language b of
         None \<Rightarrow> Inl (validation (Msg ''`language` is required when changing the route's source''))
       | Some l \<Rightarrow> rmap (\<lambda>src. \<lparr>pr_methods = pb_methods b, pr_path = pb_path b, pr_language = Some l,
           pr_bindings_version = Some SUPPORTED_BINDINGS_VERSION, pr_compiled_wasm = Some [],
           pr_source = Some (Some src)\<rparr>) (checked_source env l (pb_source b))))"

definition patch_route_core :: "('c, 'j, 'z) api_env_scheme \<Rightarrow> auth_context \<Rightarrow> string \<Rightarrow> nat \<Rightarrow> patch_route_body \<Rightarrow> ('c, route) handler" where
  "patch_route_core env cx group_ref n b =
    seq_io (own_route env cx ''only the route's owner or an admin may update it'' group_ref n)
    (bind_io (lift_result (patch_of_body env b)) (\<lambda>patch.
     bind_io (registry_call (update_route (de_registry env) group_ref n patch)) (\<lambda>r.
     seq_io (on_table (refresh_after_update r)) (ret r))))"

definition api_patch_route :: "('c, 'j, 'z) api_env_scheme \<Rightarrow> (string \<times> bytes) list \<Rightarrow> auth_context \<Rightarrow> string \<Rightarrow> nat
    \<Rightarrow> patch_route_body \<Rightarrow> ('c, route_response) handler" where
  "api_patch_route env headers cx group_ref n b =
    bind_io (patch_route_core env cx group_ref n b) (\<lambda>r. ret (route_response_of env headers r))"

definition api_delete_route :: "('c, 'j, 'z) api_env_scheme \<Rightarrow> auth_context \<Rightarrow> string \<Rightarrow> nat \<Rightarrow> ('c, unit) handler" where
  "api_delete_route env cx group_ref n =
    bind_io (own_route env cx ''only the route's owner or an admin may delete it'' group_ref n) (\<lambda>r.
    seq_io (registry_call (delete_route (de_registry env) group_ref n))
      (on_table (refresh_after_delete (r_group_id r) (r_id r))))"

section \<open>State and source\<close>

datatype 'j state_answer = Snapshot "(string \<times> 'j wire_bytes) list" | Preview "state_entry list"

fun snapshot_entry :: "('j, 'z) wire_lib_scheme \<Rightarrow> state_entry \<Rightarrow> (string \<times> 'j wire_bytes) option" where
  "snapshot_entry lib e = map_option (\<lambda>v. (se_key e, from_bytes lib v)) (se_value e)"

definition render_state :: "('j, 'z) wire_lib_scheme \<Rightarrow> state_entry list \<Rightarrow> string option \<Rightarrow> 'j state_answer" where
  "render_state lib entries format =
    (if format = Some ''snapshot''
     then Snapshot (List.map_filter (snapshot_entry lib) (filter (\<lambda>e. se_kind e = ''bytes'') entries))
     else Preview entries)"

definition decode_state_entries :: "('j, 'z) wire_lib_scheme \<Rightarrow> (string \<times> 'j wire_bytes) list \<Rightarrow> api_failure + (string \<times> bytes) list" where
  "decode_state_entries lib entries = (case decode_entries lib entries [] of
      Inl e \<Rightarrow> Inl (validation (Msg e)) | Inr es \<Rightarrow> Inr es)"

definition api_get_route_state :: "('c, 'j, 'z) api_env_scheme \<Rightarrow> auth_context \<Rightarrow> string \<Rightarrow> nat \<Rightarrow> string option
    \<Rightarrow> ('c, 'j state_answer) handler" where
  "api_get_route_state env cx group_ref n format =
    seq_io (own_route env cx ''only the route's owner or an admin may read its state'' group_ref n)
    (bind_io (registry_call (list_route_state (de_registry env) group_ref n)) (\<lambda>es.
     ret (render_state (ae_wire env) es format)))"

definition api_set_route_state :: "('c, 'j, 'z) api_env_scheme \<Rightarrow> auth_context \<Rightarrow> string \<Rightarrow> nat
    \<Rightarrow> (string \<times> 'j wire_bytes) list \<Rightarrow> ('c, unit) handler" where
  "api_set_route_state env cx group_ref n entries =
    seq_io (own_route env cx ''only the route's owner or an admin may write its state'' group_ref n)
    (bind_io (lift_result (decode_state_entries (ae_wire env) entries)) (\<lambda>es.
     registry_call (set_route_state (de_registry env) group_ref n es)))"

definition api_delete_route_state :: "('c, 'j, 'z) api_env_scheme \<Rightarrow> auth_context \<Rightarrow> string \<Rightarrow> nat \<Rightarrow> ('c, unit) handler" where
  "api_delete_route_state env cx group_ref n =
    seq_io (own_route env cx ''only the route's owner or an admin may clear its state'' group_ref n)
    (bind_io (registry_call (clear_route_state (de_registry env) group_ref n)) (\<lambda>cleared. ret ()))"

record route_source_response =
  so_slug :: string
  so_language :: string
  so_source :: "string option"

definition api_get_route_source :: "('c, 'j, 'z) api_env_scheme \<Rightarrow> auth_context \<Rightarrow> string \<Rightarrow> nat
    \<Rightarrow> ('c, route_source_response) handler" where
  "api_get_route_source env cx group_ref n =
    bind_io (own_route env cx ''only the route's owner or an admin may read its source'' group_ref n) (\<lambda>r.
      ret \<lparr>so_slug = render_slug (r_group_name r) (r_number r), so_language = r_language r, so_source = r_source r\<rparr>)"

section \<open>Dry runs\<close>

definition on_dry_run :: "(mem_store \<times> 'c route_table \<Rightarrow> 'a \<times> mem_store \<times> 'c route_table) \<Rightarrow> ('c sweep_world, 'e, 'a) io" where
  "on_dry_run f w = (case f (sw_store w, sw_table w) of (x, s, t) \<Rightarrow> (Inr x, w\<lparr>sw_store := s, sw_table := t\<rparr>))"

definition api_dry_run_route :: "('c, 'j, 'z) api_env_scheme \<Rightarrow> auth_context \<Rightarrow> api_draw \<Rightarrow> string \<Rightarrow> nat \<Rightarrow> 'j dry_run_request
    \<Rightarrow> ('c, dry_run_response) handler" where
  "api_dry_run_route env cx d group_ref n q =
    bind_io (own_route env cx ''only the route's owner or an admin may dry-run it'' group_ref n) (\<lambda>r.
      if \<not> starts_with ''/'' (dq_path q) then raise (validation (Msg ''dry-run path must start with /''))
      else on_dry_run (dry_run env (ae_wire env) (ae_upcase env) (ae_downcase env) (dw_run_id d) (dw_elapsed_ms d) r q))"

section \<open>The endpoints\<close>

datatype 'j route_request =
    CreateRoute create_route_body
  | ListRoutes routes_list_query
  | GetRoute string nat
  | PatchRoute string nat patch_route_body
  | DeleteRoute string nat
  | GetRouteState string nat "string option"
  | SetRouteState string nat "(string \<times> 'j wire_bytes) list"
  | DeleteRouteState string nat
  | GetRouteSource string nat
  | DryRunRoute string nat "'j dry_run_request"

datatype 'j route_answer =
    RouteCreated created_route
  | RoutePage "route_response page"
  | OneRoute route_response
  | RouteState "'j state_answer"
  | RouteSource route_source_response
  | DryRunAnswer dry_run_response
  | RouteDone

fun route_endpoint :: "('c, 'j, 'z) api_env_scheme \<Rightarrow> (string \<times> bytes) list \<Rightarrow> auth_context \<Rightarrow> api_draw
    \<Rightarrow> 'j route_request \<Rightarrow> ('c, 'j route_answer) handler" where
  "route_endpoint env hs cx d (CreateRoute b) = bind_io (api_create_route env hs cx d b) (\<lambda>x. ret (RouteCreated x))"
| "route_endpoint env hs cx d (ListRoutes q) = bind_io (api_list_routes env hs cx (dw_now d) q) (\<lambda>x. ret (RoutePage x))"
| "route_endpoint env hs cx d (GetRoute g n) = bind_io (api_get_route env hs cx g n) (\<lambda>x. ret (OneRoute x))"
| "route_endpoint env hs cx d (PatchRoute g n b) = bind_io (api_patch_route env hs cx g n b) (\<lambda>x. ret (OneRoute x))"
| "route_endpoint env hs cx d (DeleteRoute g n) = bind_io (api_delete_route env cx g n) (\<lambda>x. ret RouteDone)"
| "route_endpoint env hs cx d (GetRouteState g n f) = bind_io (api_get_route_state env cx g n f) (\<lambda>x. ret (RouteState x))"
| "route_endpoint env hs cx d (SetRouteState g n es) = bind_io (api_set_route_state env cx g n es) (\<lambda>x. ret RouteDone)"
| "route_endpoint env hs cx d (DeleteRouteState g n) = bind_io (api_delete_route_state env cx g n) (\<lambda>x. ret RouteDone)"
| "route_endpoint env hs cx d (GetRouteSource g n) = bind_io (api_get_route_source env cx g n) (\<lambda>x. ret (RouteSource x))"
| "route_endpoint env hs cx d (DryRunRoute g n q) = bind_io (api_dry_run_route env cx d g n q) (\<lambda>x. ret (DryRunAnswer x))"

end
