(* ===== verification/Api_Groups.thy ===== *)
theory Api_Groups
  imports Api_Routes
begin

text \<open>The group endpoints of the REST API (\<^theory_text>\<open>api.rs\<close>): lifecycle, state, import and export,
  and the match probe.\<close>

section \<open>Lifecycle\<close>

definition ensure_group_owner_or_admin :: "('c, 'j, 'z) api_env_scheme \<Rightarrow> auth_context \<Rightarrow> string \<Rightarrow> ('c, group) handler" where
  "ensure_group_owner_or_admin env cx group_ref =
    bind_io (map_err (\<lambda>e. not_found) (on_store (read_group_by_ref (de_registry env) group_ref))) (\<lambda>g.
      if \<not> cx_is_admin cx \<and> g_owner_id g \<noteq> cx_user_id cx
      then raise (forbidden ''must be the group's owner or an admin'') else ret g)"

record create_group_body =
  gb_name :: "string option"
  gb_ttl_seconds :: "nat option"
  gb_sliding_ttl :: "bool option"

record patch_group_body =
  gp_name :: "string option"
  gp_ttl_seconds :: "nat option"
  gp_sliding_ttl :: "bool option"
  gp_callout_enabled :: "bool option"

definition api_create_group :: "('c, 'j, 'z) api_env_scheme \<Rightarrow> auth_context \<Rightarrow> api_draw \<Rightarrow> create_group_body
    \<Rightarrow> ('c, group_response) handler" where
  "api_create_group env cx d b =
    bind_io (registry_call (create_group (de_registry env) (dw_names d) (dw_group_id d) (dw_now d)
      \<lparr>ng_name = (case gb_name b of Some name \<Rightarrow> name | None \<Rightarrow> []), ng_owner_id = cx_user_id cx,
       ng_ttl_seconds = gb_ttl_seconds b, ng_sliding_ttl = gb_sliding_ttl b\<rparr>))
      (\<lambda>g. ret (group_response_of env g))"

definition api_list_groups :: "('c, 'j, 'z) api_env_scheme \<Rightarrow> auth_context \<Rightarrow> int \<Rightarrow> groups_list_query
    \<Rightarrow> ('c, group_response page) handler" where
  "api_list_groups env cx now q = bind_io (list_groups_core env cx now q) (\<lambda>pg.
     ret \<lparr>pg_items = map (group_response_of env) (pg_items pg), pg_total = pg_total pg,
       pg_next_offset = pg_next_offset pg\<rparr>)"

definition api_get_group :: "('c, 'j, 'z) api_env_scheme \<Rightarrow> auth_context \<Rightarrow> string \<Rightarrow> ('c, group_response) handler" where
  "api_get_group env cx group_ref =
    bind_io (ensure_group_owner_or_admin env cx group_ref) (\<lambda>g. ret (group_response_of env g))"

text \<open>The new name is applied before the other fields are looked at.\<close>

definition rename_step :: "('c, 'j, 'z) api_env_scheme \<Rightarrow> group \<Rightarrow> string option \<Rightarrow> ('c, unit) handler" where
  "rename_step env g new_name = (case new_name of
      None \<Rightarrow> ret ()
    | Some name \<Rightarrow> bind_io (registry_call (rename_group (de_registry env) (g_id g) name)) (\<lambda>renamed.
        on_table (refresh_after_group_rename (g_id g) (g_name renamed))))"

definition api_patch_group :: "('c, 'j, 'z) api_env_scheme \<Rightarrow> auth_context \<Rightarrow> string \<Rightarrow> patch_group_body
    \<Rightarrow> ('c, group_response) handler" where
  "api_patch_group env cx group_ref b =
    bind_io (ensure_group_owner_or_admin env cx group_ref) (\<lambda>g.
      if gp_name b = None \<and> gp_ttl_seconds b = None \<and> gp_sliding_ttl b = None \<and> gp_callout_enabled b = None
      then raise (validation (Msg ''PATCH body must include at least `name`, `ttl_seconds`, `sliding_ttl`, or `callout_enabled`''))
      else seq_io (rename_step env g (gp_name b))
        (bind_io (registry_call
           (if gp_ttl_seconds b \<noteq> None \<or> gp_sliding_ttl b \<noteq> None \<or> gp_callout_enabled b \<noteq> None
            then patch_group (de_registry env) (g_id g) (gp_ttl_seconds b) (gp_sliding_ttl b) (gp_callout_enabled b)
            else read_group_by_ref (de_registry env) (g_id g)))
         (\<lambda>updated. ret (group_response_of env updated))))"

definition api_delete_group :: "('c, 'j, 'z) api_env_scheme \<Rightarrow> auth_context \<Rightarrow> string \<Rightarrow> ('c, unit) handler" where
  "api_delete_group env cx group_ref =
    bind_io (ensure_group_owner_or_admin env cx group_ref) (\<lambda>g.
    bind_io (registry_call (cascade_delete_group (de_registry env) (g_id g))) (\<lambda>deleted_routes.
      on_table (refresh_after_group_cascade (g_id g))))"

definition api_refresh_group :: "('c, 'j, 'z) api_env_scheme \<Rightarrow> auth_context \<Rightarrow> string \<Rightarrow> ('c, group_response) handler" where
  "api_refresh_group env cx group_ref =
    bind_io (ensure_group_owner_or_admin env cx group_ref) (\<lambda>g.
    bind_io (registry_call (refresh_group (de_registry env) (g_id g))) (\<lambda>refreshed.
      ret (group_response_of env refreshed)))"

section \<open>State and journal\<close>

definition api_get_group_state :: "('c, 'j, 'z) api_env_scheme \<Rightarrow> auth_context \<Rightarrow> string \<Rightarrow> string option
    \<Rightarrow> ('c, 'j state_answer) handler" where
  "api_get_group_state env cx group_ref format =
    bind_io (ensure_group_owner_or_admin env cx group_ref) (\<lambda>g.
    bind_io (registry_call (list_group_state (g_id g))) (\<lambda>es. ret (render_state (ae_wire env) es format)))"

definition api_set_group_state :: "('c, 'j, 'z) api_env_scheme \<Rightarrow> auth_context \<Rightarrow> string
    \<Rightarrow> (string \<times> 'j wire_bytes) list \<Rightarrow> ('c, unit) handler" where
  "api_set_group_state env cx group_ref entries =
    bind_io (ensure_group_owner_or_admin env cx group_ref) (\<lambda>g.
    bind_io (lift_result (decode_state_entries (ae_wire env) entries)) (\<lambda>es.
      registry_call (set_group_state (g_id g) es)))"

definition api_delete_group_state :: "('c, 'j, 'z) api_env_scheme \<Rightarrow> auth_context \<Rightarrow> string \<Rightarrow> ('c, unit) handler" where
  "api_delete_group_state env cx group_ref =
    bind_io (ensure_group_owner_or_admin env cx group_ref) (\<lambda>g. registry_call (clear_group_state (g_id g)))"

definition api_delete_group_journal :: "('c, 'j, 'z) api_env_scheme \<Rightarrow> auth_context \<Rightarrow> string \<Rightarrow> ('c, unit) handler" where
  "api_delete_group_journal env cx group_ref =
    bind_io (ensure_group_owner_or_admin env cx group_ref) (\<lambda>g. registry_call (clear_group_journal (g_id g)))"

section \<open>Import and export\<close>

record import_summary =
  im_group :: string
  im_routes_created :: nat

definition rolled_back :: "('c, 'j, 'z) api_env_scheme \<Rightarrow> group \<Rightarrow> ('c, unit) handler" where
  "rolled_back env g =
    seq_io (ignore_err (on_store (cascade_delete_group (de_registry env) (g_id g))))
      (on_table (refresh_after_group_cascade (g_id g)))"

definition body_of_normalized :: "string \<Rightarrow> normalized_route \<Rightarrow> create_route_body" where
  "body_of_normalized group_name r = \<lparr>cb_group = Some group_name, cb_methods = no_methods r, cb_path = no_path r,
     cb_language = no_language r, cb_source = Some (no_source r)\<rparr>"

text \<open>The routes in order; the \<^theory_text>\<open>idx\<close>-th draws \<^theory_text>\<open>d idx\<close>.  One that fails rolls the whole group
  back.\<close>

fun import_routes :: "('c, 'j, 'z) api_env_scheme \<Rightarrow> auth_context \<Rightarrow> (nat \<Rightarrow> api_draw) \<Rightarrow> group \<Rightarrow> nat
    \<Rightarrow> normalized_route list \<Rightarrow> ('c, unit) handler" where
  "import_routes env cx d g idx [] = ret ()"
| "import_routes env cx d g idx (r # rs) = (\<lambda>w.
    (case create_route_core env cx (d idx) (body_of_normalized (g_name g) r) w of
       (Inr created, w') \<Rightarrow> import_routes env cx d g (idx + 1) rs w'
     | (Inl Panicked, w') \<Rightarrow> (Inl Panicked, w')
     | (Inl (Answered e), w') \<Rightarrow>
         seq_io (rolled_back env g)
           (raise (validation (RouteFailed idx (no_path r) (ap_message e) (g_name g)))) w'))"

definition import_group_core :: "('c, 'j, 'z) api_env_scheme \<Rightarrow> auth_context \<Rightarrow> api_draw \<Rightarrow> (nat \<Rightarrow> api_draw) \<Rightarrow> group_spec
    \<Rightarrow> ('c, import_summary) handler" where
  "import_group_core env cx d0 d spec =
    bind_io (lift_result (case normalize spec of Inl e \<Rightarrow> Inl (validation (OfSpec e)) | Inr n \<Rightarrow> Inr n)) (\<lambda>n.
    bind_io (registry_call (create_group (de_registry env) (dw_names d0) (dw_group_id d0) (dw_now d0)
      \<lparr>ng_name = ns_name n, ng_owner_id = cx_user_id cx, ng_ttl_seconds = ns_ttl_seconds n,
       ng_sliding_ttl = ns_sliding n\<rparr>)) (\<lambda>g.
    seq_io (case ns_callout n of
        None \<Rightarrow> ret ()
      | Some flg \<Rightarrow> bind_io (registry_call (patch_group (de_registry env) (g_id g) None None (Some flg))) (\<lambda>patched. ret ()))
    (seq_io (import_routes env cx d g 0 (ns_routes n))
    (ret \<lparr>im_group = g_name g, im_routes_created = length (ns_routes n)\<rparr>))))"

definition spec_of_route :: "route \<Rightarrow> string \<Rightarrow> route_spec" where
  "spec_of_route r src = \<lparr>sr_method = None, sr_methods = r_methods r, sr_path = r_path r,
     sr_language = Some (r_language r), sr_source = Some src, sr_source_file = None\<rparr>"

fun specs_of_routes :: "group \<Rightarrow> route list \<Rightarrow> api_failure + route_spec list" where
  "specs_of_routes g [] = Inr []"
| "specs_of_routes g (r # rs) = (case r_source r of
      None \<Rightarrow> Inl (validation (NoSourceOf (g_name g) (r_number r) (r_language r)))
    | Some src \<Rightarrow> rmap (Cons (spec_of_route r src)) (specs_of_routes g rs))"

definition export_group_core :: "('c, 'j, 'z) api_env_scheme \<Rightarrow> auth_context \<Rightarrow> string \<Rightarrow> ('c, group_spec) handler" where
  "export_group_core env cx group_ref =
    bind_io (ensure_group_owner_or_admin env cx group_ref) (\<lambda>g.
    bind_io (registry_call (list_routes (de_registry env))) (\<lambda>all0.
    bind_io (lift_result (specs_of_routes g (sort_key r_number (filter (\<lambda>r. r_group_id r = g_id g) all0)))) (\<lambda>specs.
    ret \<lparr>sp_name = g_name g, sp_ttl = Some (format_duration (g_ttl_seconds g)), sp_sliding = Some (g_sliding_ttl g),
      sp_callout = (if g_callout_enabled g then Some True else None), sp_routes = specs\<rparr>)))"

section \<open>The match probe\<close>

record match_query =
  mq_group :: "string option"
  mq_method :: string
  mq_path :: string

record near_miss_response =
  ne_route :: string
  ne_id :: string
  ne_path :: string
  ne_reason :: near_miss_reason

datatype match_response = MatchHit route_response pairs | MatchMiss "near_miss_response list"

definition validate_match_query :: "match_query \<Rightarrow> api_failure + unit" where
  "validate_match_query q =
    (if mq_method q = [] \<or> \<not> list_all (\<lambda>c. is_upper c \<or> c = CHR ''-'' \<or> c = CHR ''_'') (mq_method q)
     then Inl (validation (Msg ''method must be uppercase ASCII (e.g. POST, GET, ANY)''))
     else if \<not> starts_with ''/'' (mq_path q) then Inl (validation (Msg ''path must start with /''))
     else if mq_group q = None \<or> mq_group q = Some []
     then Inl (validation (Msg ''group is required (matching is per-subdomain; ADR-0030)''))
     else Inr ())"

definition near_miss_response_of :: "near_miss \<Rightarrow> near_miss_response" where
  "near_miss_response_of nm = (let r = nm_route nm in
     \<lparr>ne_route = render_slug (r_group_name r) (r_number r), ne_id = r_id r, ne_path = r_path r, ne_reason = nm_reason nm\<rparr>)"

definition answer_probe :: "('c, 'j, 'z) api_env_scheme \<Rightarrow> (string \<times> bytes) list \<Rightarrow> panic + match_probe
    \<Rightarrow> api_failure + match_response" where
  "answer_probe env headers probed = (case probed of
      Inl p \<Rightarrow> Inl Panicked
    | Inr (Hit m) \<Rightarrow> Inr (MatchHit (route_response_of env headers (mr_route m)) (mr_path_params m))
    | Inr (Miss near) \<Rightarrow> Inr (MatchMiss (map near_miss_response_of near)))"

definition api_match_probe :: "('c, 'j, 'z) api_env_scheme \<Rightarrow> (string \<times> bytes) list \<Rightarrow> auth_context \<Rightarrow> match_query
    \<Rightarrow> ('c, match_response) handler" where
  "api_match_probe env headers cx q =
    seq_io (lift_result (validate_match_query q))
    (bind_io (ensure_group_owner_or_admin env cx (case mq_group q of Some g \<Rightarrow> g | None \<Rightarrow> [])) (\<lambda>g.
     (\<lambda>w. (answer_probe env headers (probe_in_group (sw_table w) (g_name g) (mq_method q) (mq_path q)), w))))"

section \<open>The endpoints\<close>

datatype 'j group_request =
    CreateGroup create_group_body
  | ListGroups groups_list_query
  | ImportGroup group_spec
  | GetGroup string
  | PatchGroup string patch_group_body
  | DeleteGroup string
  | ExportGroup string
  | RefreshGroup string
  | GetGroupState string "string option"
  | SetGroupState string "(string \<times> 'j wire_bytes) list"
  | DeleteGroupState string
  | DeleteGroupJournal string
  | MatchProbe match_query

datatype 'j group_answer =
    OneGroup group_response
  | GroupPage "group_response page"
  | GroupImported import_summary
  | GroupExported group_spec
  | GroupState "'j state_answer"
  | Probed match_response
  | GroupDone

fun group_endpoint :: "('c, 'j, 'z) api_env_scheme \<Rightarrow> (string \<times> bytes) list \<Rightarrow> auth_context \<Rightarrow> api_draw
    \<Rightarrow> (nat \<Rightarrow> api_draw) \<Rightarrow> 'j group_request \<Rightarrow> ('c, 'j group_answer) handler" where
  "group_endpoint env hs cx d ds (CreateGroup b) = bind_io (api_create_group env cx d b) (\<lambda>x. ret (OneGroup x))"
| "group_endpoint env hs cx d ds (ListGroups q) = bind_io (api_list_groups env cx (dw_now d) q) (\<lambda>x. ret (GroupPage x))"
| "group_endpoint env hs cx d ds (ImportGroup spec) = bind_io (import_group_core env cx d ds spec) (\<lambda>x. ret (GroupImported x))"
| "group_endpoint env hs cx d ds (GetGroup g) = bind_io (api_get_group env cx g) (\<lambda>x. ret (OneGroup x))"
| "group_endpoint env hs cx d ds (PatchGroup g b) = bind_io (api_patch_group env cx g b) (\<lambda>x. ret (OneGroup x))"
| "group_endpoint env hs cx d ds (DeleteGroup g) = bind_io (api_delete_group env cx g) (\<lambda>x. ret GroupDone)"
| "group_endpoint env hs cx d ds (ExportGroup g) = bind_io (export_group_core env cx g) (\<lambda>x. ret (GroupExported x))"
| "group_endpoint env hs cx d ds (RefreshGroup g) = bind_io (api_refresh_group env cx g) (\<lambda>x. ret (OneGroup x))"
| "group_endpoint env hs cx d ds (GetGroupState g f) = bind_io (api_get_group_state env cx g f) (\<lambda>x. ret (GroupState x))"
| "group_endpoint env hs cx d ds (SetGroupState g es) = bind_io (api_set_group_state env cx g es) (\<lambda>x. ret GroupDone)"
| "group_endpoint env hs cx d ds (DeleteGroupState g) = bind_io (api_delete_group_state env cx g) (\<lambda>x. ret GroupDone)"
| "group_endpoint env hs cx d ds (DeleteGroupJournal g) = bind_io (api_delete_group_journal env cx g) (\<lambda>x. ret GroupDone)"
| "group_endpoint env hs cx d ds (MatchProbe q) = bind_io (api_match_probe env hs cx q) (\<lambda>x. ret (Probed x))"

end
