(* ===== verification/Steady.thy ===== *)
theory Steady
  imports Auth Journal
begin

text \<open>Store discipline: a computation is steady when it takes good states to good states along a
  permitted change.  The rules of the first locale hold for any such discipline; the second adds
  what the store's operations do when a discipline speaks of each key on its own.\<close>

section \<open>Computations that only read\<close>

named_theorems quiet_intros "computations that leave the state as it is"

definition quiet :: "('s, 'e, 'a) io \<Rightarrow> bool" where
  "quiet m \<longleftrightarrow> (\<forall>s. snd (m s) = s)"

lemma quietD: "quiet m \<Longrightarrow> m s = (r, s') \<Longrightarrow> s' = s"
  unfolding quiet_def by (metis snd_conv)

lemma quiet_pure [quiet_intros]: "quiet (ret x)" "quiet (raise e)" "quiet (lift_result r)"
  by (simp_all add: quiet_def ret_def raise_def lift_result_def)

lemma quiet_bind [quiet_intros]: "\<lbrakk>quiet m; \<And>x. quiet (f x)\<rbrakk> \<Longrightarrow> quiet (bind_io m f)"
  by (simp add: quiet_def bind_io_parts split: sum.split)

lemma quiet_seq [quiet_intros]: "\<lbrakk>quiet m; quiet n\<rbrakk> \<Longrightarrow> quiet (seq_io m n)"
  by (simp add: seq_io_def quiet_bind)

lemma quiet_map_err [quiet_intros]: "quiet m \<Longrightarrow> quiet (map_err g m)"
  by (simp add: quiet_def map_err_parts)

lemma quiet_if [quiet_intros]: "\<lbrakk>c \<Longrightarrow> quiet m; \<not> c \<Longrightarrow> quiet n\<rbrakk> \<Longrightarrow> quiet (if c then m else n)"
  by simp

lemma quiet_option [quiet_intros]:
  "\<lbrakk>y = None \<Longrightarrow> quiet m; \<And>x. y = Some x \<Longrightarrow> quiet (f x)\<rbrakk> \<Longrightarrow> quiet (case y of None \<Rightarrow> m | Some x \<Rightarrow> f x)"
  by (simp split: option.split)

lemma quiet_read [quiet_intros]:
  "quiet (bucket_get b key)" "quiet (bucket_hash_get b key f)"
  "quiet (bucket_hash_get_all b key)" "quiet (bucket_set_members b key)"
  "quiet (bucket_set_contains b key m)" "quiet (bucket_list_keys b up)"
  "quiet (bucket_kind b key)" "quiet (bucket_hash_keys b key)" "quiet (bucket_list_length b key)"
  by (simp_all add: quiet_def bucket_get_def bucket_hash_get_def bucket_hash_get_all_def
      bucket_set_members_def bucket_set_contains_def bucket_list_keys_def bucket_kind_def
      bucket_hash_keys_def bucket_list_length_def map_err_parts Let_def)

lemma quiet_ttl [quiet_intros]: "quiet (bucket_set_ttl b key n)" "quiet (bucket_clear_ttl b key)"
  by (simp_all add: quiet_def bucket_set_ttl_def bucket_clear_ttl_def)

text \<open>The reading operations of the registry, the accounts and the journal.\<close>

lemma quiet_groups [quiet_intros]:
  "quiet (resolve_group env reference)" "quiet (read_group env gid)" "quiet (or_not_found x)"
  "quiet (read_group_by_ref env reference)"
  unfolding read_group_by_ref_def resolve_group_def read_group_def or_not_found_def by (intro quiet_intros)+

lemma quiet_readable_groups [quiet_intros]: "quiet (readable_groups env ids)"
proof (induction ids)
  case (Cons i ids)
  then have n: "quiet (bind_io (readable_groups env ids) (\<lambda>gs. ret (g # gs)))" for g by (intro quiet_intros)
  show ?case
    unfolding quiet_def
  proof
    fix s
    obtain r s1 where r: "read_group env i s = (r, s1)" by fastforce
    then have "s1 = s" using quietD quiet_groups(2) by metis
    then show "snd (readable_groups env (i # ids) s) = s"
      using r Cons n by (cases r) (simp_all add: quiet_def)
  qed
qed (simp add: quiet_intros)

lemma quiet_group_lists [quiet_intros]: "quiet (list_groups env)" "quiet (list_groups_by_owner env owner)"
  unfolding list_groups_def list_groups_by_owner_def by (intro quiet_intros)+

lemma quiet_read_route [quiet_intros]: "quiet (read_route env rid)"
  unfolding read_route_def by (intro quiet_intros)

lemma quiet_read_routes [quiet_intros]: "quiet (read_routes env ids)"
  by (induction ids) (auto intro: quiet_intros)

lemma quiet_routes [quiet_intros]:
  "quiet (list_routes env)" "quiet (list_routes_by_owner env owner)" "quiet (routes_in_group env gid)"
  "quiet (route_id_by_number gid n)" "quiet (get_route_by_slug env reference n)"
  "quiet (scan_pattern_conflict env gid ms p ex)" "quiet (precheck_create_conflict env grp ms path)"
  unfolding precheck_create_conflict_def scan_pattern_conflict_def get_route_by_slug_def
    route_id_by_number_def routes_in_group_def list_routes_by_owner_def list_routes_def
  by (intro quiet_intros)+

lemma quiet_state_entry [quiet_intros]: "quiet (state_entry_for b k)"
  unfolding state_entry_for_def Let_def by (intro quiet_intros)

lemma quiet_state_entries [quiet_intros]: "quiet (state_entries b ks)"
  by (induction ks) (auto intro: quiet_intros)

lemma quiet_state [quiet_intros]:
  "quiet (list_bucket_state b)" "quiet (list_group_state gid)" "quiet (list_route_state env reference n)"
  unfolding list_route_state_def list_group_state_def list_bucket_state_def by (intro quiet_intros)+

lemma quiet_accounts [quiet_intros]:
  "quiet (index_id what b)" "quiet (read_user_by_id env i)" "quiet (found_or_error v)" "quiet (get_user_by_id env i)"
  "quiet (read_token_by_id env i)" "quiet (get_token_by_name env owner name)"
  unfolding get_token_by_name_def get_user_by_id_def index_id_def read_user_by_id_def read_token_by_id_def
    found_or_error_def by (intro quiet_intros)+

lemma quiet_read_users [quiet_intros]: "quiet (read_users env ids)"
  by (induction ids) (auto intro: quiet_intros)

lemma quiet_read_tokens [quiet_intros]: "quiet (read_tokens env ids)"
  by (induction ids) (auto intro: quiet_intros)

lemma quiet_account_lists [quiet_intros]:
  "quiet (list_users env)" "quiet (count_admins env)" "quiet (list_tokens_for env owner)"
  unfolding list_tokens_for_def count_admins_def list_users_def by (intro quiet_intros)+

lemma quiet_journal [quiet_intros]:
  "quiet (or_missing x)" "quiet (id_text what b)" "quiet (decoded c b)"
  "quiet (read_by_id hc gid rid)" "quiet (get_via_bucket hc gid n)" "quiet (journal_get hc gid n)"
  "quiet (read_unmatched_by_id uc rid)" "quiet (get_unmatched_via_bucket uc n)" "quiet (get_unmatched uc n)"
  "quiet (get_callback_via_bucket cc gid n)" "quiet (get_callback cc gid n)"
  unfolding get_callback_def get_callback_via_bucket_def get_unmatched_def get_unmatched_via_bucket_def
    read_unmatched_by_id_def journal_get_def get_via_bucket_def read_by_id_def decoded_def id_text_def or_missing_def
  by (intro quiet_intros)+

lemma quiet_walk [quiet_intros]: "(\<And>n. quiet (get n)) \<Longrightarrow> quiet (walk_down get visible limit n out)"
proof (induction n arbitrary: out)
  case (Suc n)
  show ?case
    unfolding quiet_def
  proof
    fix s
    obtain r s1 where r: "get (Suc n) s = (r, s1)" by fastforce
    then have "s1 = s" using quietD Suc.prems by metis
    then show "snd (walk_down get visible limit (Suc n) out s) = s"
      using r Suc.IH Suc.prems by (cases r) (simp_all add: quiet_def)
  qed
qed (simp add: quiet_def)

lemma quiet_logs [quiet_intros]:
  "quiet (list_for_group hc gid cursor)" "quiet (list_callbacks_for_group cc gid cursor)"
  "quiet (list_unmatched uc cursor visible)"
  unfolding list_unmatched_def list_callbacks_for_group_def list_for_group_def Let_def by (intro quiet_intros)+

section \<open>Steady computations\<close>

definition steady_at :: "('s \<Rightarrow> bool) \<Rightarrow> ('s \<Rightarrow> 's \<Rightarrow> bool) \<Rightarrow> 's \<Rightarrow> ('s, 'e, 'a) io \<Rightarrow> bool" where
  "steady_at P Q s m \<longleftrightarrow> (P s \<longrightarrow> P (snd (m s)) \<and> Q s (snd (m s)))"

definition steady :: "('s \<Rightarrow> bool) \<Rightarrow> ('s \<Rightarrow> 's \<Rightarrow> bool) \<Rightarrow> ('s, 'e, 'a) io \<Rightarrow> bool" where
  "steady P Q m \<longleftrightarrow> (\<forall>s. steady_at P Q s m)"

text \<open>A result that the computation has from some good state.\<close>

definition yields :: "('s \<Rightarrow> bool) \<Rightarrow> ('s, 'e, 'a) io \<Rightarrow> 'a \<Rightarrow> bool" where
  "yields P m x \<longleftrightarrow> (\<exists>s s'. P s \<and> m s = (Inr x, s'))"

lemma steadyI: "(\<And>s. P s \<Longrightarrow> P (snd (m s)) \<and> Q s (snd (m s))) \<Longrightarrow> steady P Q m"
  by (simp add: steady_def steady_at_def)

lemma steadyD: "\<lbrakk>steady P Q m; P s\<rbrakk> \<Longrightarrow> P (snd (m s)) \<and> Q s (snd (m s))"
  by (simp add: steady_def steady_at_def)

lemma steady_at: "steady P Q m \<Longrightarrow> steady_at P Q s m"
  by (simp add: steady_def)

lemma yields_map_err [simp]: "yields P (map_err g m) x \<longleftrightarrow> yields P m x"
  by (simp add: yields_def map_err_Inr_iff)

lemma yields_ret: "yields P (ret x) y \<Longrightarrow> y = x"
  by (auto simp: yields_def ret_def)

lemma yields_raise [simp]: "\<not> yields P (raise e) y"
  by (auto simp: yields_def raise_def)

lemma yields_lift: "yields P (lift_result r) x \<Longrightarrow> r = Inr x"
  by (auto simp: yields_def lift_result_def)

locale discipline =
  fixes P :: "'s \<Rightarrow> bool" and Q :: "'s \<Rightarrow> 's \<Rightarrow> bool"
  assumes same: "Q s s"
    and further: "\<lbrakk>Q s t; Q t u\<rbrakk> \<Longrightarrow> Q s u"
begin

lemma at_bind:
  assumes "steady_at P Q s m" "\<And>x s'. \<lbrakk>P s; P s'; m s = (Inr x, s')\<rbrakk> \<Longrightarrow> steady_at P Q s' (f x)"
  shows "steady_at P Q s (bind_io m f)"
proof (cases "m s")
  case (Pair r s')
  then show ?thesis
    using assms unfolding steady_at_def bind_io_def
    by (cases r) (auto intro: further)
qed

lemma pure: "steady P Q (ret x)" "steady P Q (raise e)" "steady P Q (lift_result r)"
  by (simp_all add: steady_def steady_at_def ret_def raise_def lift_result_def same)

lemma bind:
  assumes "steady P Q m" "\<And>x. yields P m x \<Longrightarrow> steady P Q (f x)"
  shows "steady P Q (bind_io m f)"
  using at_bind assms unfolding steady_def yields_def by metis

lemma seq: "\<lbrakk>steady P Q m; steady P Q n\<rbrakk> \<Longrightarrow> steady P Q (seq_io m n)"
  by (simp add: seq_io_def bind)

lemma renamed_error: "steady P Q m \<Longrightarrow> steady P Q (map_err g m)"
  by (simp add: steady_def steady_at_def map_err_parts)

lemma dropped_error: "steady P Q m \<Longrightarrow> steady P Q (ignore_err m)"
  by (simp add: steady_def steady_at_def ignore_err_def)

lemma branch: "\<lbrakk>c \<Longrightarrow> steady P Q m; \<not> c \<Longrightarrow> steady P Q n\<rbrakk> \<Longrightarrow> steady P Q (if c then m else n)"
  by simp

lemma at_branch: "\<lbrakk>c \<Longrightarrow> steady_at P Q s m; \<not> c \<Longrightarrow> steady_at P Q s n\<rbrakk> \<Longrightarrow> steady_at P Q s (if c then m else n)"
  by simp

lemma on_option: "\<lbrakk>y = None \<Longrightarrow> steady P Q m; \<And>x. y = Some x \<Longrightarrow> steady P Q (f x)\<rbrakk>
    \<Longrightarrow> steady P Q (case y of None \<Rightarrow> m | Some x \<Rightarrow> f x)"
  by (simp split: option.split)

lemma each: "(\<And>x. x \<in> set xs \<Longrightarrow> steady P Q (f x)) \<Longrightarrow> steady P Q (each_io f xs)"
  by (induction xs) (auto intro: pure seq)

lemma reading: "quiet m \<Longrightarrow> steady P Q m"
  by (simp add: quiet_def steady_def steady_at_def same)

lemma at_reading:
  assumes "quiet m" "\<And>x. \<lbrakk>P s; m s = (Inr x, s)\<rbrakk> \<Longrightarrow> steady_at P Q s (f x)"
  shows "steady_at P Q s (bind_io m f)"
proof (rule at_bind)
  show "steady_at P Q s m" using reading[OF assms(1)] by (rule steady_at)
  show "steady_at P Q s' (f x)" if "P s" "P s'" "m s = (Inr x, s')" for x s'
    using quietD[OF assms(1) that(3)] assms(2) that by simp
qed

lemmas steps = pure bind seq renamed_error dropped_error branch on_option each

end

section \<open>Disciplines of single keys\<close>

text \<open>Every key holds what it may hold, and the frozen keys do not change.\<close>

definition cells_ok :: "(string \<Rightarrow> mem_value \<Rightarrow> bool) \<Rightarrow> mem_store \<Rightarrow> bool" where
  "cells_ok okay s \<longleftrightarrow> (\<forall>k v. map_of s k = Some v \<longrightarrow> okay k v)"

definition same_on :: "(string \<Rightarrow> bool) \<Rightarrow> mem_store \<Rightarrow> mem_store \<Rightarrow> bool" where
  "same_on frozen s s' \<longleftrightarrow> (\<forall>k. frozen k \<longrightarrow> map_of s' k = map_of s k)"

locale cellwise =
  fixes okay :: "string \<Rightarrow> mem_value \<Rightarrow> bool" and frozen :: "string \<Rightarrow> bool"
  assumes fewer_members: "\<lbrakk>okay k (Set m); set m' \<subseteq> set m\<rbrakk> \<Longrightarrow> okay k (Set m')"
    and fewer_fields: "\<lbrakk>okay k (Hash h); \<And>f x. map_of h' f = Some x \<Longrightarrow> map_of h f = Some x\<rbrakk> \<Longrightarrow> okay k (Hash h')"

sublocale cellwise \<subseteq> discipline "cells_ok okay" "same_on frozen"
  by unfold_locales (simp_all add: same_on_def)

context cellwise
begin

lemma replaced:
  assumes "cells_ok okay s" "\<not> frozen k" "map_of s' k = None \<or> (\<exists>v. map_of s' k = Some v \<and> okay k v)"
    and "\<And>j. j \<noteq> k \<Longrightarrow> map_of s' j = map_of s j"
  shows "cells_ok okay s' \<and> same_on frozen s s'"
  using assms unfolding cells_ok_def same_on_def by (metis option.distinct(1) option.inject)

lemma updated: "\<lbrakk>cells_ok okay s; \<not> frozen k; okay k v\<rbrakk> \<Longrightarrow>
    cells_ok okay (AList.update k v s) \<and> same_on frozen s (AList.update k v s)"
  by (rule replaced[where k = k]) (auto simp: update_conv')

lemma removed: "\<lbrakk>cells_ok okay s; \<not> frozen k\<rbrakk> \<Longrightarrow>
    cells_ok okay (AList.delete k s) \<and> same_on frozen s (AList.delete k s)"
  by (rule replaced[where k = k]) (auto simp: delete_conv')

lemma unchanged: "cells_ok okay s \<Longrightarrow> cells_ok okay s \<and> same_on frozen s s"
  by (simp add: same_on_def)

lemma put_bytes: "\<lbrakk>\<not> frozen k; okay k (Bytes v)\<rbrakk> \<Longrightarrow> steady (cells_ok okay) (same_on frozen) (bucket_set admin_bucket k v)"
  by (rule steadyI) (simp add: admin_set updated)

lemma put_for: "\<lbrakk>\<not> frozen k; okay k (Bytes v)\<rbrakk>
    \<Longrightarrow> steady (cells_ok okay) (same_on frozen) (bucket_set_with_ttl admin_bucket k v n)"
  by (rule steadyI) (simp add: bucket_set_with_ttl_def admin_set updated)

lemma remove: "\<not> frozen k \<Longrightarrow> steady (cells_ok okay) (same_on frozen) (bucket_delete admin_bucket k)"
  by (rule steadyI) (simp add: admin_delete removed)

lemma remove_prefix:
  assumes "\<And>k. starts_with p k \<Longrightarrow> \<not> frozen k"
  shows "steady (cells_ok okay) (same_on frozen) (bucket_delete_with_prefix admin_bucket p)"
  by (rule steadyI)
    (use assms delete_with_prefix_spec(2)[of admin_bucket p]
      in \<open>auto simp: cells_ok_def same_on_def admin_bucket_def split: if_splits\<close>)

lemma add_member:
  assumes "\<not> frozen k" "okay k (Set [x])" "\<And>m. okay k (Set m) \<Longrightarrow> okay k (Set (set_insert x m))"
  shows "steady (cells_ok okay) (same_on frozen) (bucket_set_add admin_bucket k x)"
proof (rule steadyI)
  fix s assume s: "cells_ok okay s"
  have "okay k (Set (set_insert x m))" if "map_of s k = Some (Set m)" for m
    using that s assms(3) by (simp add: cells_ok_def)
  then show "cells_ok okay (snd (bucket_set_add admin_bucket k x s)) \<and> same_on frozen s (snd (bucket_set_add admin_bucket k x s))"
    using unchanged[OF s] updated[OF s assms(1)] assms(2)
    by (cases "map_of s k") (simp_all add: admin_defs mem_set_add_def set_insert_def split: mem_value.split)
qed

lemma remove_member:
  assumes "\<not> frozen k"
  shows "steady (cells_ok okay) (same_on frozen) (bucket_set_remove admin_bucket k x)"
proof (rule steadyI)
  fix s assume s: "cells_ok okay s"
  have "okay k (Set (removeAll x m))" if "map_of s k = Some (Set m)" for m
  proof (rule fewer_members)
    show "okay k (Set m)" using that s by (simp add: cells_ok_def)
  qed auto
  then show "cells_ok okay (snd (bucket_set_remove admin_bucket k x s)) \<and> same_on frozen s (snd (bucket_set_remove admin_bucket k x s))"
    using unchanged[OF s] updated[OF s assms]
    by (cases "map_of s k") (simp_all add: admin_defs mem_set_remove_def split: mem_value.split)
qed

lemma set_field:
  assumes "\<not> frozen k" "\<And>h. h = [] \<or> okay k (Hash h) \<Longrightarrow> okay k (Hash (AList.update f v h))"
  shows "steady (cells_ok okay) (same_on frozen) (bucket_hash_set admin_bucket k f v)"
proof (rule steadyI)
  fix s assume s: "cells_ok okay s"
  have "okay k (Hash (AList.update f v h))" if "map_of s k = Some (Hash h)" for h
    using that s assms(2)[of h] by (simp add: cells_ok_def)
  moreover have "okay k (Hash [(f, v)])" using assms(2)[of "[]"] by simp
  ultimately show "cells_ok okay (snd (bucket_hash_set admin_bucket k f v s)) \<and> same_on frozen s (snd (bucket_hash_set admin_bucket k f v s))"
    using unchanged[OF s] updated[OF s assms(1)]
    by (cases "map_of s k") (simp_all add: admin_defs mem_hash_set_def split: mem_value.split)
qed

lemma delete_field:
  assumes "\<not> frozen k"
  shows "steady (cells_ok okay) (same_on frozen) (bucket_hash_delete admin_bucket k f)"
proof (rule steadyI)
  fix s assume s: "cells_ok okay s"
  have "okay k (Hash (AList.delete f h))" if "map_of s k = Some (Hash h)" for h
  proof (rule fewer_fields)
    show "okay k (Hash h)" using that s by (simp add: cells_ok_def)
    show "map_of (AList.delete f h) g = Some x \<Longrightarrow> map_of h g = Some x" for g x
      by (simp add: delete_conv' split: if_splits)
  qed
  then show "cells_ok okay (snd (bucket_hash_delete admin_bucket k f s)) \<and> same_on frozen s (snd (bucket_hash_delete admin_bucket k f s))"
    using unchanged[OF s] updated[OF s assms]
    by (cases "map_of s k") (simp_all add: admin_defs mem_hash_delete_def split: mem_value.split)
qed

lemma count_field:
  assumes "\<not> frozen k" "\<And>h v. h = [] \<or> okay k (Hash h) \<Longrightarrow> okay k (Hash (AList.update f v h))"
  shows "steady (cells_ok okay) (same_on frozen) (bucket_hash_incr admin_bucket k f n)"
proof (rule steadyI)
  fix s assume s: "cells_ok okay s"
  show "cells_ok okay (snd (bucket_hash_incr admin_bucket k f n s)) \<and> same_on frozen s (snd (bucket_hash_incr admin_bucket k f n s))"
  proof (cases "bucket_hash_incr admin_bucket k f n s")
    case (Pair r s')
    show ?thesis
    proof (cases r)
      case (Inl e)
      then have "s' = s"
        using Pair by (auto simp: bucket_hash_incr_def admin_bucket_def map_err_def mem_hash_incr_def Let_def
          split: option.splits mem_value.splits sum.splits)
      then show ?thesis using Pair s by (simp add: unchanged)
    next
      case (Inr u)
      then obtain h where h: "hash_at s k = Some h" "s' = AList.update k (Hash (AList.update f (show_int u) h)) s"
        using Pair by (auto simp: admin_hash_incr_Inr)
      have "h = [] \<or> okay k (Hash h)"
        using h(1) s by (cases "map_of s k") (auto simp: hash_at_def cells_ok_def split: mem_value.splits)
      then show ?thesis using Pair h(2) updated[OF s assms(1)] assms(2) by simp
    qed
  qed
qed

end

end
