(* ===== verification/Tenancy.thy ===== *)
theory Tenancy
  imports Auth Registry Steady
begin

text \<open>What a caller of the REST API may change.  The groups and routes of others, and the caller,
  are fixed; a good store has records under their own identifiers and the right kind of value under
  every key.  Each operation is shown to keep the store good and to leave the keys of the others
  alone, as long as it is given groups and routes that are not theirs.\<close>

section \<open>Good stores\<close>

record tenant =
  tn_groups :: "string set"
  tn_routes :: "string set"
  tn_caller :: string
  tn_ulid :: "string \<Rightarrow> bool"

text \<open>An identifier: 26 letters or digits that parse as one.\<close>

definition valid_id :: "tenant \<Rightarrow> string \<Rightarrow> bool" where
  "valid_id t i \<longleftrightarrow> ulid_text i \<and> tn_ulid t i"

text \<open>The kind of value a key of the admin bucket holds, where it is fixed.\<close>

definition key_kind :: "string \<Rightarrow> string option" where
  "key_kind k =
    (if k \<in> {''group:all'', ''route:all'', ''user:all''} then Some ''set''
     else if starts_with ''group:owner:'' k \<or> starts_with ''route:in-group:'' k
       \<or> starts_with ''route:by-owner:'' k \<or> starts_with ''token:by-owner:'' k then Some ''set''
     else if starts_with ''group:by-name:'' k \<or> starts_with ''route:by-number:'' k
       \<or> starts_with ''user:by-'' k \<or> starts_with ''token:by-'' k then Some ''bytes''
     else if starts_with ''group:'' k \<or> starts_with ''route:'' k \<or> starts_with ''user:'' k
       \<or> starts_with ''token:'' k then Some ''hash''
     else None)"

text \<open>What a field of a record may hold.\<close>

definition field_ok :: "tenant \<Rightarrow> string \<Rightarrow> string \<Rightarrow> string \<Rightarrow> bool" where
  "field_ok t k f x \<longleftrightarrow>
     (f = ''id'' \<longrightarrow> (\<forall>p\<in>{''group:'', ''route:'', ''user:'', ''token:''}. \<forall>i. k = p @ i \<longrightarrow> x = i \<and> valid_id t i))
   \<and> (f = ''owner_id'' \<longrightarrow> (\<forall>i. k = group_key i \<and> i \<in> tn_groups t \<or> k = route_key i \<and> i \<in> tn_routes t \<longrightarrow> x \<noteq> tn_caller t))
   \<and> (f = ''group_id'' \<longrightarrow> (\<forall>i. k = route_key i \<longrightarrow> ulid_text x \<and> (x \<in> tn_groups t \<longrightarrow> i \<in> tn_routes t)))"

definition record_ok :: "tenant \<Rightarrow> string \<Rightarrow> (string \<times> bytes) list \<Rightarrow> bool" where
  "record_ok t k h \<longleftrightarrow> (\<forall>f x. map_of h f = Some x \<longrightarrow> field_ok t k f x)"

definition index_fits :: "tenant \<Rightarrow> string \<Rightarrow> string list \<Rightarrow> bool" where
  "index_fits t k m \<longleftrightarrow> (\<forall>g x. k = in_group_key g \<and> x \<in> set m \<longrightarrow> ulid_text x \<and> (g \<notin> tn_groups t \<longrightarrow> x \<notin> tn_routes t))"

definition cell_ok :: "tenant \<Rightarrow> string \<Rightarrow> mem_value \<Rightarrow> bool" where
  "cell_ok t k v \<longleftrightarrow> (\<forall>w. key_kind k = Some w \<longrightarrow> value_kind v = w)
     \<and> (\<forall>h. v = Hash h \<longrightarrow> record_ok t k h) \<and> (\<forall>m. v = Set m \<longrightarrow> index_fits t k m)"

text \<open>The keys of the others.\<close>

definition group_data :: "string \<Rightarrow> string \<Rightarrow> bool" where
  "group_data i k \<longleftrightarrow> k \<in> {group_key i, counters_key i, in_group_key i}
     \<or> starts_with (''route:by-number:'' @ i @ '':'') k \<or> starts_with (''kv:'' @ i @ '':'') k
     \<or> starts_with (''gkv:'' @ i @ '':'') k \<or> starts_with (''journal:'' @ i @ '':'') k
     \<or> starts_with (''journal:by-number:'' @ i @ '':'') k"

definition frozen :: "tenant \<Rightarrow> string \<Rightarrow> bool" where
  "frozen t k \<longleftrightarrow> (\<exists>i\<in>tn_groups t. ulid_text i \<and> group_data i k) \<or> (\<exists>i\<in>tn_routes t. ulid_text i \<and> k = route_key i)"

lemma record_ok_fewer:
  "\<lbrakk>record_ok t k h; \<And>f x. map_of h' f = Some x \<Longrightarrow> map_of h f = Some x\<rbrakk> \<Longrightarrow> record_ok t k h'"
  by (simp add: record_ok_def)

lemma record_ok_update: "\<lbrakk>record_ok t k h; field_ok t k f v\<rbrakk> \<Longrightarrow> record_ok t k (AList.update f v h)"
  by (simp add: record_ok_def update_conv')

lemma record_ok_Nil [simp]: "record_ok t k []"
  by (simp add: record_ok_def)

lemma index_fits_fewer: "\<lbrakk>index_fits t k m; set m' \<subseteq> set m\<rbrakk> \<Longrightarrow> index_fits t k m'"
  by (auto simp: index_fits_def)

lemma cell_ok_simps [simp]:
  "cell_ok t k (Bytes b) \<longleftrightarrow> key_kind k \<in> {None, Some ''bytes''}"
  "cell_ok t k (Hash h) \<longleftrightarrow> key_kind k \<in> {None, Some ''hash''} \<and> record_ok t k h"
  "cell_ok t k (Set m) \<longleftrightarrow> key_kind k \<in> {None, Some ''set''} \<and> index_fits t k m"
  by (cases "key_kind k"; auto simp: cell_ok_def)+

interpretation tn: cellwise "cell_ok t" "frozen t" for t
  by unfold_locales (auto intro: record_ok_fewer index_fits_fewer)

abbreviation good :: "tenant \<Rightarrow> mem_store \<Rightarrow> bool" where "good t \<equiv> cells_ok (cell_ok t)"
abbreviation calm :: "tenant \<Rightarrow> (mem_store, 'e, 'a) io \<Rightarrow> bool" where "calm t \<equiv> steady (good t) (same_on (frozen t))"

section \<open>Whose key a key is\<close>

lemma same_id:
  assumes "ulid_text i" "ulid_text j" "i @ CHR '':'' # x = j @ CHR '':'' # y"
  shows "i = j"
  using assms by (simp add: ulid_text_def)

lemma not_ulid: "CHR '':'' \<in> set i \<Longrightarrow> \<not> ulid_text i"
  using ulid_no_colon[of i] by auto

lemma free_keys [simp]:
  "\<not> frozen t (user_key i)" "\<not> frozen t user_all" "\<not> frozen t (by_email_key e)" "\<not> frozen t (by_identity_key p q)"
  "\<not> frozen t (legacy_name_key n)" "\<not> frozen t (token_key i)" "\<not> frozen t (token_by_hash h)"
  "\<not> frozen t (token_by_name owner n)" "\<not> frozen t (token_by_owner owner)" "\<not> frozen t (session_key x)"
  by (simp_all add: frozen_def group_data_def key_defs user_key_def user_all_def by_email_key_def by_identity_key_def
      legacy_name_key_def token_key_def token_by_hash_def token_by_name_def token_by_owner_def session_key_def)

lemma free_names [simp]:
  "\<not> frozen t (by_name_key n)" "\<not> frozen t (group_owner_key u)" "\<not> frozen t ''group:all''"
  "\<not> frozen t (by_owner_key u)" "\<not> frozen t ''route:all''"
  using ulid_not_word[of _ "''all''"]
  by (auto simp: frozen_def group_data_def key_defs not_ulid)

lemma id_prefix:
  "\<lbrakk>ulid_text i; ulid_text j\<rbrakk> \<Longrightarrow> starts_with (j @ '':'') (i @ CHR '':'' # x) \<longleftrightarrow> j = i"
  by (auto simp: starts_with_iff dest: same_id)

lemma colon_prefix [simp]: "\<lbrakk>CHR '':'' \<in> set w; ulid_text i\<rbrakk> \<Longrightarrow> \<not> starts_with w i"
  using not_ulid by (fastforce simp: starts_with_iff)

lemma dash_prefix [simp]: "\<lbrakk>CHR ''-'' \<in> set w; ulid_text i\<rbrakk> \<Longrightarrow> \<not> starts_with w i"
  by (force simp: starts_with_iff ulid_text_def list_all_iff is_alnum_def is_lower_def is_upper_def is_digit_def)

lemma not_by_number: "ulid_text j \<Longrightarrow> j @ u \<noteq> ''by-number:'' @ y"
proof
  assume j: "ulid_text j" and e: "j @ u = ''by-number:'' @ y"
  have "(j @ u) ! 9 = CHR '':''" by (simp only: e) simp
  moreover have "9 < length j" using j by (simp add: ulid_text_def)
  ultimately have "CHR '':'' \<in> set j" by (metis nth_append nth_mem)
  then show False using ulid_no_colon[OF j] by blast
qed

lemma frozen_ids [simp]:
  assumes "ulid_text i"
  shows "frozen t (group_key i) \<longleftrightarrow> i \<in> tn_groups t" "frozen t (counters_key i) \<longleftrightarrow> i \<in> tn_groups t"
    "frozen t (in_group_key i) \<longleftrightarrow> i \<in> tn_groups t" "frozen t (route_key i) \<longleftrightarrow> i \<in> tn_routes t"
  using assms by (auto simp: frozen_def group_data_def key_defs not_ulid)

lemma frozen_number [simp]: "ulid_text i \<Longrightarrow> frozen t (by_number_key i n) \<longleftrightarrow> i \<in> tn_groups t"
  using id_prefix by (auto simp: frozen_def group_data_def key_defs not_ulid)

lemma frozen_data:
  assumes "ulid_text i" "starts_with (p @ i @ '':'') k" "p \<in> {''kv:'', ''gkv:'', ''journal:'', ''journal:by-number:''}"
  shows "frozen t k \<longleftrightarrow> i \<in> tn_groups t"
proof -
  obtain x where k: "k = p @ i @ CHR '':'' # x" using assms(2) by (auto simp: starts_with_iff)
  have j: "starts_with (j @ '':'') (i @ CHR '':'' # x) \<longleftrightarrow> j = i" if "ulid_text j" for j
    using id_prefix[OF assms(1) that] .
  have no: "\<not> starts_with (j @ '':'') (''by-number:'' @ y)" if "ulid_text j" for j y
    using not_by_number[OF that] unfolding starts_with_iff by (metis append_assoc)
  have no': "\<not> starts_with (''by-number:'' @ y) (i @ CHR '':'' # x)" for y
    using not_by_number[OF assms(1)] unfolding starts_with_iff by (metis append_assoc)
  show ?thesis
    using assms(1,3) j no no' by (auto simp: k frozen_def group_data_def key_defs)
qed


section \<open>What may be written where\<close>

lemma all_not_ulid [simp]: "ulid_text i \<Longrightarrow> i \<noteq> ''all''"
  by (auto simp: ulid_text_def)

lemma kinds_of_keys [simp]:
  "key_kind (by_name_key n) = Some ''bytes''" "key_kind (group_owner_key u) = Some ''set''"
  "key_kind ''group:all'' = Some ''set''" "key_kind (by_number_key g m) = Some ''bytes''"
  "key_kind (in_group_key g) = Some ''set''" "key_kind (by_owner_key u) = Some ''set''"
  "key_kind ''route:all'' = Some ''set''" "key_kind (counters_key g) = Some ''hash''"
  "key_kind (by_email_key e) = Some ''bytes''" "key_kind (by_identity_key p x) = Some ''bytes''"
  "key_kind (legacy_name_key n) = Some ''bytes''" "key_kind user_all = Some ''set''"
  "key_kind (token_by_hash h) = Some ''bytes''" "key_kind (token_by_name owner n) = Some ''bytes''"
  "key_kind (token_by_owner owner) = Some ''set''"
  by (simp_all add: key_kind_def key_defs by_email_key_def by_identity_key_def legacy_name_key_def
      user_all_def token_by_hash_def token_by_name_def token_by_owner_def)

lemma key_kind_ids [simp]:
  assumes "ulid_text i"
  shows "key_kind (group_key i) = Some ''hash''" "key_kind (route_key i) = Some ''hash''"
    "key_kind (user_key i) = Some ''hash''" "key_kind (token_key i) = Some ''hash''"
  using assms by (simp_all add: key_kind_def key_defs user_key_def token_key_def)

lemma key_kind_session [simp]: "key_kind (session_key x) = None"
  by (simp add: key_kind_def session_key_def)

lemma plain_field: "f \<notin> {''id'', ''owner_id'', ''group_id''} \<Longrightarrow> field_ok t k f v"
  by (auto simp: field_ok_def)

lemma group_field: "\<lbrakk>valid_id t i; i \<notin> tn_groups t; f = ''id'' \<longrightarrow> v = i\<rbrakk> \<Longrightarrow> field_ok t (group_key i) f v"
  by (auto simp: field_ok_def key_defs)

lemma route_field:
  "\<lbrakk>valid_id t i; i \<notin> tn_routes t; f = ''id'' \<longrightarrow> v = i; f = ''group_id'' \<longrightarrow> ulid_text v \<and> v \<notin> tn_groups t\<rbrakk>
   \<Longrightarrow> field_ok t (route_key i) f v"
  by (auto simp: field_ok_def key_defs)

lemma account_field: "\<lbrakk>valid_id t i; f = ''id'' \<longrightarrow> v = i\<rbrakk> \<Longrightarrow> field_ok t (user_key i) f v \<and> field_ok t (token_key i) f v"
  by (auto simp: field_ok_def key_defs user_key_def token_key_def)

lemma index_fits_other [simp]:
  "index_fits t (group_owner_key u) m" "index_fits t ''group:all'' m" "index_fits t (by_owner_key u) m"
  "index_fits t ''route:all'' m" "index_fits t user_all m" "index_fits t (token_by_owner owner) m"
  by (simp_all add: index_fits_def key_defs user_all_def token_by_owner_def)

lemma index_fits_group [simp]:
  "index_fits t (in_group_key g) m \<longleftrightarrow> (\<forall>x\<in>set m. ulid_text x \<and> (g \<notin> tn_groups t \<longrightarrow> x \<notin> tn_routes t))"
  by (auto simp: index_fits_def)


section \<open>What is read is consistent\<close>

lemma rbind_Inr: "rbind r f = Inr y \<longleftrightarrow> (\<exists>x. r = Inr x \<and> f x = Inr y)"
  by (cases r) simp_all

lemma utf8_Inr: "utf8 h f = Inr b \<Longrightarrow> map_of h f = Some b" "field_utf8 h f = Inr b \<Longrightarrow> map_of h f = Some b"
  by (simp_all add: utf8_def field_utf8_def split: option.splits if_splits)

lemma group_fields_read:
  "decode_group env h = Inr g \<Longrightarrow> map_of h ''id'' = Some (g_id g) \<and> map_of h ''owner_id'' = Some (g_owner_id g)"
  by (auto simp: decode_group_def rbind_Inr dest!: utf8_Inr)

lemma route_fields_read:
  "decode_route env h = Inr r \<Longrightarrow> map_of h ''id'' = Some (r_id r) \<and> map_of h ''owner_id'' = Some (r_owner_id r)
     \<and> map_of h ''group_id'' = Some (r_group_id r)"
  by (auto simp: decode_route_def rbind_Inr dest!: utf8_Inr)

lemma decode_user_id: "decode_user tc h = Inr u \<Longrightarrow> map_of h ''id'' = Some (us_id u)"
  by (auto simp: decode_user_def rbind_Inr dest!: utf8_Inr)

lemma decode_token_id: "decode_token tc h = Inr x \<Longrightarrow> map_of h ''id'' = Some (tk_id x)"
  by (auto simp: decode_token_def rbind_Inr dest!: utf8_Inr)

lemma good_hash:
  assumes "good t s" "hash_at s k = Some h" "map_of h f = Some x"
  shows "field_ok t k f x"
proof -
  have "map_of s k = Some (Hash h)"
    using assms(2,3) by (cases "map_of s k") (auto simp: hash_at_def split: mem_value.splits)
  then have "cell_ok t k (Hash h)" using assms(1) unfolding cells_ok_def by blast
  then show ?thesis using assms(3) by (simp add: record_ok_def)
qed

lemma good_set: "\<lbrakk>good t s; set_at s k = Some m; m \<noteq> []\<rbrakk> \<Longrightarrow> index_fits t k m"
proof -
  assume s: "good t s" "set_at s k = Some m" "m \<noteq> []"
  then have "map_of s k = Some (Set m)" by (auto simp: set_at_def split: option.splits mem_value.splits)
  then have "cell_ok t k (Set m)" using s(1) unfolding cells_ok_def by blast
  then show ?thesis by simp
qed

lemma admin_hall_Inr: "ahall k s = (Inr h, s') \<longleftrightarrow> hash_at s k = Some h \<and> s' = s"
  by (auto simp: map_err_Inr_iff admin_hash_get_all split: option.splits)

lemma smem_Inr: "asmem k s = (Inr m, s') \<longleftrightarrow> set_at s k = Some m \<and> s' = s"
  by (auto simp: map_err_Inr_iff admin_set_members split: option.splits)

lemma id_field:
  assumes "good t s" "hash_at s (p @ i) = Some h" "map_of h ''id'' = Some x" "p \<in> {''group:'', ''route:'', ''user:'', ''token:''}"
  shows "x = i \<and> valid_id t i"
  using good_hash[OF assms(1,2,3)] assms(4) by (auto simp: field_ok_def)

lemma group_read:
  assumes "good t s" "read_group env i s = (Inr g, s')"
  shows "g_id g = i \<and> valid_id t i \<and> (i \<in> tn_groups t \<longrightarrow> g_owner_id g \<noteq> tn_caller t)"
proof -
  obtain h where h: "hash_at s (group_key i) = Some h" "decode_group env h = Inr g"
    using assms(2) by (auto simp: read_group_def bind_io_Inr_iff admin_hall_Inr raise_def lift_result_def split: if_splits)
  show ?thesis
    using id_field[OF assms(1) h(1)[unfolded group_key_def], of "g_id g"] group_fields_read[OF h(2)]
      good_hash[OF assms(1) h(1), of "''owner_id''"] by (auto simp: field_ok_def)
qed

lemma route_read:
  assumes "good t s" "read_route env i s = (Inr r, s')"
  shows "r_id r = i \<and> valid_id t i \<and> ulid_text (r_group_id r) \<and> (r_group_id r \<in> tn_groups t \<longrightarrow> i \<in> tn_routes t)
    \<and> (i \<in> tn_routes t \<longrightarrow> r_owner_id r \<noteq> tn_caller t)"
proof -
  obtain h where h: "hash_at s (route_key i) = Some h" "decode_route env h = Inr r"
    using assms(2) by (auto simp: read_route_def bind_io_Inr_iff admin_hall_Inr raise_def lift_result_def split: if_splits)
  show ?thesis
    using id_field[OF assms(1) h(1)[unfolded route_key_def], of "r_id r"] route_fields_read[OF h(2)]
      good_hash[OF assms(1) h(1), of "''owner_id''"] good_hash[OF assms(1) h(1), of "''group_id''"]
    by (auto simp: field_ok_def)
qed

lemma ref_read:
  assumes "good t s" "read_group_by_ref env reference s = (Inr g, s')"
  shows "valid_id t (g_id g) \<and> (g_id g \<in> tn_groups t \<longrightarrow> g_owner_id g \<noteq> tn_caller t)"
proof -
  obtain gid s1 where g: "bind_io (resolve_group env reference) or_not_found s = (Inr gid, s1)" "read_group env gid s1 = (Inr g, s')"
    using assms(2) by (auto simp: read_group_by_ref_def bind_io_Inr_iff)
  have "quiet (bind_io (resolve_group env reference) or_not_found)" by (intro quiet_intros)
  then have "s1 = s" using g(1) by (rule quietD)
  then show ?thesis using group_read[OF assms(1)] g(2) by blast
qed


section \<open>The registry\<close>

lemma valid_ulid [simp]: "valid_id t i \<Longrightarrow> ulid_text i"
  by (simp add: valid_id_def)

named_theorems calm_intros "operations that leave the keys of the others alone"

lemmas calm_steps [calm_intros] = tn.pure tn.seq tn.renamed_error tn.dropped_error tn.branch tn.on_option

lemma calm_quiet: "quiet m \<Longrightarrow> calm t m"
  by (rule tn.reading)

lemma calm_field:
  assumes "\<not> frozen t k" "key_kind k = Some ''hash''" "field_ok t k f v"
  shows "calm t (bucket_hash_set admin_bucket k f v)"
  using assms record_ok_update[OF record_ok_Nil assms(3)]
  by (intro tn.set_field) (auto intro: record_ok_update)

lemma calm_group_write:
  assumes "valid_id t i" "i \<notin> tn_groups t"
  shows "f = ''id'' \<longrightarrow> v = i \<Longrightarrow> calm t (bucket_hash_set admin_bucket (group_key i) f v)"
    "calm t (bucket_hash_delete admin_bucket (group_key i) f)"
  using assms by (auto intro!: calm_field tn.delete_field group_field)

lemma calm_route_write:
  assumes "valid_id t i" "i \<notin> tn_routes t"
  shows "\<lbrakk>f = ''id'' \<longrightarrow> v = i; f = ''group_id'' \<longrightarrow> ulid_text v \<and> v \<notin> tn_groups t\<rbrakk>
      \<Longrightarrow> calm t (bucket_hash_set admin_bucket (route_key i) f v)"
    "calm t (bucket_hash_delete admin_bucket (route_key i) f)"
  using assms by (auto intro!: calm_field tn.delete_field route_field)

lemma calm_names [calm_intros]:
  "calm t (bucket_set admin_bucket (by_name_key n) v)" "calm t (bucket_delete admin_bucket (by_name_key n))"
  "calm t (bucket_set_add admin_bucket (group_owner_key u) x)" "calm t (bucket_set_remove admin_bucket (group_owner_key u) x)"
  "calm t (bucket_set_add admin_bucket ''group:all'' x)" "calm t (bucket_set_remove admin_bucket ''group:all'' x)"
  "calm t (bucket_set_add admin_bucket (by_owner_key u) x)" "calm t (bucket_set_remove admin_bucket (by_owner_key u) x)"
  "calm t (bucket_set_add admin_bucket ''route:all'' x)" "calm t (bucket_set_remove admin_bucket ''route:all'' x)"
  by (auto intro!: tn.put_bytes tn.remove tn.add_member tn.remove_member)

lemma calm_arm [calm_intros]: "calm t (arm_group_ttl k n)" "calm t (arm_group_ttls gid nm n)"
  unfolding arm_group_ttls_def arm_group_ttl_def
  by (rule calm_quiet, simp add: quiet_intros, rule calm_quiet, simp add: quiet_intros)

lemma calm_write_group: "\<lbrakk>valid_id t (g_id g); g_id g \<notin> tn_groups t\<rbrakk> \<Longrightarrow> calm t (write_group env g)"
  unfolding write_group_def Let_def
  by (intro tn.each) (auto intro!: tn.renamed_error calm_group_write calm_names)

lemma quiet_names: "quiet (try_candidates cs)" "quiet (numbered_name fuel base n)" "quiet (generate_group_name gen)"
proof -
  show c: "quiet (try_candidates cs)" for cs by (induction cs) (auto intro: quiet_intros)
  show n: "quiet (numbered_name fuel base n)" for fuel base n
    by (induction fuel arbitrary: n) (auto simp: Let_def intro: quiet_intros)
  have "quiet (\<lambda>s. numbered_name (Suc (length s)) base n s)" for base n
    using n unfolding quiet_def by blast
  then show "quiet (generate_group_name gen)"
    unfolding generate_group_name_def by (intro quiet_intros c)
qed

lemma calm_create_group:
  assumes "valid_id t i" "i \<notin> tn_groups t"
  shows "calm t (create_group env gen i now params)"
  unfolding create_group_def Let_def
  by (rule tn.bind, rule calm_quiet, intro quiet_intros quiet_names)
    (auto intro!: tn.bind calm_intros calm_write_group simp: assms)

lemma calm_implicit_group:
  assumes "valid_id t i" "i \<notin> tn_groups t"
  shows "calm t (create_implicit_group env gen i now owner)"
  unfolding create_implicit_group_def Let_def
  by (rule tn.bind, rule calm_quiet, rule quiet_names) (auto intro!: calm_intros calm_write_group simp: assms)

lemma calm_patch_group:
  assumes "gid \<notin> tn_groups t"
  shows "calm t (patch_group env gid ttl sliding callout)"
  unfolding patch_group_def
proof (rule tn.bind)
  show "calm t (read_group env gid)" by (intro calm_quiet quiet_intros)
  fix g assume "yields (good t) (read_group env gid) g"
  then have "valid_id t gid" using group_read unfolding yields_def by blast
  note w = calm_group_write(1)[OF this assms]
  show "calm t (bind_io (case ttl of None \<Rightarrow> ret g | Some x \<Rightarrow>
        bind_io (lift_result (normalize_ttl x)) (\<lambda>ttl.
          seq_io (ahset (group_key gid) ''ttl_seconds'' (show_nat ttl))
            (seq_io (arm_group_ttls gid (g_name g) ttl) (ret (g\<lparr>g_ttl_seconds := ttl\<rparr>))))) (\<lambda>g.
    bind_io (case sliding of None \<Rightarrow> ret g | Some b \<Rightarrow>
        seq_io (ahset (group_key gid) ''sliding_ttl'' (flag b)) (ret (g\<lparr>g_sliding_ttl := b\<rparr>))) (\<lambda>g.
    (case callout of None \<Rightarrow> ret g | Some b \<Rightarrow>
        seq_io (ahset (group_key gid) ''callout_enabled'' (flag b))
          (ret (g\<lparr>g_callout_enabled := b\<rparr>))))))"
    by (intro tn.bind calm_intros w) simp_all
qed

lemma calm_refresh [calm_intros]: "calm t (refresh_group env gid)"
  unfolding refresh_group_def arm_group_ttls_def arm_group_ttl_def
  by (rule calm_quiet) (auto intro!: quiet_intros)


lemma members_read:
  assumes "good t s" "asmem (in_group_key gid) s = (Inr ids, s')" "x \<in> set ids"
  shows "ulid_text x \<and> (gid \<notin> tn_groups t \<longrightarrow> x \<notin> tn_routes t)"
proof -
  have "set_at s (in_group_key gid) = Some ids" "ids \<noteq> []" using assms(2,3) by (auto simp: smem_Inr)
  then show ?thesis using good_set[OF assms(1)] assms(3) by fastforce
qed

lemma routes_read:
  assumes "good t s" "read_routes env ids s = (Inr rs, s')" "r \<in> set rs"
  shows "r_id r \<in> set ids \<and> valid_id t (r_id r)"
  using assms(2,3)
proof (induction ids arbitrary: rs s')
  case (Cons i ids)
  obtain q s1 qs s2 where q: "read_route env i s = (Inr q, s1)" "read_routes env ids s1 = (Inr qs, s2)" "rs = q # qs"
    using Cons.prems(1) by (auto simp: bind_io_Inr_iff ret_def)
  have s: "s1 = s" using quietD[OF quiet_read_route q(1)] .
  show ?case
    using route_read[OF assms(1) q(1)] Cons.IH[OF q(2)[unfolded s]] Cons.prems(2) by (auto simp: q(3))
qed (simp add: ret_def)

lemma group_routes_read:
  assumes "yields (good t) (routes_in_group env gid) rs" "gid \<notin> tn_groups t" "r \<in> set rs"
  shows "valid_id t (r_id r) \<and> r_id r \<notin> tn_routes t"
proof -
  obtain s s' ids s1 where y: "good t s" "asmem (in_group_key gid) s = (Inr ids, s1)" "read_routes env ids s1 = (Inr rs, s')"
    using assms(1) by (auto simp: yields_def routes_in_group_def bind_io_Inr_iff)
  have s: "s1 = s" using y(2) by (simp add: smem_Inr)
  show ?thesis
    using routes_read[OF y(1) y(3)[unfolded s] assms(3)] members_read[OF y(1,2)] assms(2) by blast
qed

lemma calm_rename_group:
  assumes "resolve_group env gid s = (Inr (Some gid), s)" "gid \<notin> tn_groups t"
  shows "steady_at (good t) (same_on (frozen t)) s (rename_group env gid new_name)"
proof -
  have r: "bind_io (resolve_group env gid) or_not_found s = (Inr gid, s)"
    using assms(1) by (simp add: bind_io_def or_not_found_def ret_def)
  have body: "calm t (bind_io (read_group env gid) (\<lambda>g.
      if g_name g = new_name then ret g
      else if \<not> is_valid_label new_name then raise (InvalidName new_name)
      else bind_io (aget (by_name_key new_name)) (\<lambda>b.
        if b \<noteq> None then raise (Conflict (GroupExists new_name))
        else seq_io (do_all [
               ahset (group_key gid) ''name'' new_name,
               adel (by_name_key (g_name g)),
               aset (by_name_key new_name) gid,
               arm_group_ttl (by_name_key new_name) (g_ttl_seconds g)])
          (bind_io (routes_in_group env gid) (\<lambda>rs.
            seq_io (each_io (\<lambda>r. ahset (route_key (r_id r)) ''group_name'' new_name) rs)
              (ret (g\<lparr>g_name := new_name\<rparr>)))))))"
  proof (rule tn.bind)
    show "calm t (read_group env gid)" by (intro calm_quiet quiet_intros)
    fix g assume "yields (good t) (read_group env gid) g"
    then have "valid_id t gid" using group_read unfolding yields_def by blast
    note w = calm_group_write(1)[OF this assms(2)]
    have rs: "calm t (bind_io (routes_in_group env gid) (\<lambda>rs.
            seq_io (each_io (\<lambda>r. ahset (route_key (r_id r)) ''group_name'' new_name) rs) (ret (g\<lparr>g_name := new_name\<rparr>))))"
    proof (rule tn.bind)
      show "calm t (routes_in_group env gid)" by (intro calm_quiet quiet_intros)
      show "calm t (seq_io (each_io (\<lambda>r. ahset (route_key (r_id r)) ''group_name'' new_name) rs) (ret (g\<lparr>g_name := new_name\<rparr>)))"
        if "yields (good t) (routes_in_group env gid) rs" for rs
        using group_routes_read[OF that assms(2)]
        by (intro tn.seq tn.pure tn.each tn.renamed_error calm_route_write) simp_all
    qed
    show "calm t (if g_name g = new_name then ret g
      else if \<not> is_valid_label new_name then raise (InvalidName new_name)
      else bind_io (aget (by_name_key new_name)) (\<lambda>b.
        if b \<noteq> None then raise (Conflict (GroupExists new_name))
        else seq_io (do_all [
               ahset (group_key gid) ''name'' new_name,
               adel (by_name_key (g_name g)),
               aset (by_name_key new_name) gid,
               arm_group_ttl (by_name_key new_name) (g_ttl_seconds g)])
          (bind_io (routes_in_group env gid) (\<lambda>rs.
            seq_io (each_io (\<lambda>r. ahset (route_key (r_id r)) ''group_name'' new_name) rs)
              (ret (g\<lparr>g_name := new_name\<rparr>))))))"
      by (rule tn.branch tn.pure)+ (auto intro!: tn.bind calm_quiet[OF quiet_map_err[OF quiet_read(1)]] calm_intros rs w tn.each)
  qed
  show ?thesis
    unfolding rename_group_def
    by (rule tn.at_reading) (use r body in \<open>auto intro!: quiet_intros steady_at\<close>)
qed


lemma calm_prefix:
  assumes "\<And>k. starts_with p k \<Longrightarrow> \<not> frozen t k"
  shows "calm t (bind_io (adelpre p) (\<lambda>x. ret ()))" "calm t (adelpre p)"
  by (intro tn.bind tn.pure tn.renamed_error tn.remove_prefix assms; assumption)+

lemma mine_data:
  assumes "ulid_text i" "i \<notin> tn_groups t" "p \<in> {''kv:'', ''gkv:'', ''journal:'', ''journal:by-number:''}"
    and "starts_with (p @ i @ '':'' @ q) k"
  shows "\<not> frozen t k"
proof -
  have "starts_with (p @ i @ '':'') k" using assms(4) by (auto simp: starts_with_iff)
  then show ?thesis using frozen_data[OF assms(1) _ assms(3)] assms(2) by blast
qed

lemma mine_prefixes:
  assumes "ulid_text i" "i \<notin> tn_groups t"
  shows "starts_with (''kv:'' @ i @ '':'') k \<Longrightarrow> \<not> frozen t k" "starts_with (''gkv:'' @ i @ '':'') k \<Longrightarrow> \<not> frozen t k"
    "starts_with (''journal:'' @ i @ '':'') k \<Longrightarrow> \<not> frozen t k"
    "starts_with (''journal:by-number:'' @ i @ '':'') k \<Longrightarrow> \<not> frozen t k" "starts_with (kv_prefix i rid) k \<Longrightarrow> \<not> frozen t k"
  using mine_data[OF assms, of "''kv:''" "[]" k] mine_data[OF assms, of "''gkv:''" "[]" k]
    mine_data[OF assms, of "''journal:''" "[]" k] mine_data[OF assms, of "''journal:by-number:''" "[]" k]
    mine_data[OF assms, of "''kv:''" "rid @ '':''" k] by (simp_all add: kv_prefix_def)

lemma calm_deletes:
  assumes "ulid_text i" "i \<notin> tn_groups t"
  shows "calm t (adelpre (''kv:'' @ i @ '':''))" "calm t (adelpre (''gkv:'' @ i @ '':''))"
    "calm t (adelpre (''journal:'' @ i @ '':''))" "calm t (adelpre (''journal:by-number:'' @ i @ '':''))"
    "calm t (adelpre (kv_prefix i rid))"
  by (rule calm_prefix(2), erule mine_prefixes[OF assms])+

lemma calm_strip:
  assumes "valid_id t (r_id r)" "ulid_text (r_group_id r)" "r_group_id r \<notin> tn_groups t"
  shows "calm t (strip_route_indexes r)"
  unfolding strip_route_indexes_def
  by (intro tn.each) (use assms in \<open>auto intro!: tn.renamed_error tn.remove tn.remove_member calm_names\<close>)

lemma calm_cascade_route:
  assumes "ulid_text gid" "gid \<notin> tn_groups t" "ulid_text rid" "rid \<notin> tn_routes t"
  shows "calm t (cascade_route env gid rid)"
proof -
  have strip: "calm t (\<lambda>s. case read_route env rid s of (Inr r, s') \<Rightarrow> strip_route_indexes r s' | (Inl e, s') \<Rightarrow> ret () s')"
  proof (rule steadyI)
    fix s assume s: "good t s"
    obtain x s' where x: "read_route env rid s = (x, s')" by fastforce
    have e: "s' = s" using quietD[OF quiet_read_route x] .
    show "good t (snd (case read_route env rid s of (Inr r, s') \<Rightarrow> strip_route_indexes r s' | (Inl e, s') \<Rightarrow> ret () s'))
      \<and> same_on (frozen t) s (snd (case read_route env rid s of (Inr r, s') \<Rightarrow> strip_route_indexes r s' | (Inl e, s') \<Rightarrow> ret () s'))"
    proof (cases x)
      case (Inl err)
      then show ?thesis using s by (simp add: x e ret_def tn.same)
    next
      case (Inr r)
      then have "valid_id t (r_id r) \<and> ulid_text (r_group_id r) \<and> r_group_id r \<notin> tn_groups t"
        using route_read[OF s, of env rid r s'] x assms(4) by auto
      then show ?thesis using steadyD[OF calm_strip[of t r] s] by (simp add: x e Inr)
    qed
  qed
  show ?thesis
    unfolding cascade_route_def
    by (intro tn.seq tn.bind strip calm_deletes(5)[OF assms(1,2)] tn.each)
      (intro tn.renamed_error tn.delete_field calm_names, use assms in \<open>simp_all add: tn.renamed_error calm_names\<close>)
qed

lemma calm_containers:
  assumes "ulid_text gid" "gid \<notin> tn_groups t"
  shows "calm t (cascade_containers gid)"
  unfolding cascade_containers_def
  by (intro tn.each)
    (use assms mine_prefixes[OF assms] in \<open>auto intro!: tn.renamed_error tn.remove calm_prefix simp del: append_Cons append_Nil\<close>)

lemma calm_cascade:
  assumes "ulid_text gid" "gid \<notin> tn_groups t"
  shows "calm t (cascade_delete_group env gid)"
proof -
  let ?look = "\<lambda>s. case read_group env gid s of (Inr g, s') \<Rightarrow> (Inr (Some g), s')
      | (Inl NotFound, s') \<Rightarrow> (Inr None, s') | (Inl e, s') \<Rightarrow> (Inl e, s')"
  have q: "quiet ?look"
    unfolding quiet_def using quietD[OF quiet_groups(2)]
    by (auto split: prod.split sum.split registry_error.split)
  have rec: "calm t (cascade_group_record gid g)" if look: "yields (good t) ?look (Some g)" for g
  proof -
    obtain s s' where y: "good t s" "?look s = (Inr (Some g), s')" using look unfolding yields_def by blast
    then obtain s1 where "read_group env gid s = (Inr g, s1)"
      by (cases "fst (read_group env gid s)") (auto split: prod.splits sum.splits registry_error.splits)
    then have v: "valid_id t gid" using group_read[OF y(1)] by blast
    show ?thesis
      unfolding cascade_group_record_def
      by (intro tn.seq tn.each tn.renamed_error calm_names calm_group_write(2)[OF v assms(2)])
  qed
  show ?thesis
    unfolding cascade_delete_group_def
  proof (rule tn.bind)
    show "calm t ?look" by (rule calm_quiet[OF q])
    fix g assume g: "yields (good t) ?look g"
    show "calm t (bind_io (asmem (in_group_key gid)) (\<lambda>route_ids.
      seq_io (each_io (cascade_route env gid) route_ids)
      (seq_io (cascade_containers gid)
      (seq_io (case g of None \<Rightarrow> ret () | Some g \<Rightarrow> cascade_group_record gid g)
      (seq_io (asrem ''group:all'' gid) (ret (length route_ids)))))))"
    proof (rule tn.bind)
      show "calm t (asmem (in_group_key gid))" by (intro calm_quiet quiet_intros)
      fix ids assume ids: "yields (good t) (asmem (in_group_key gid)) ids"
      have r: "calm t (cascade_route env gid x)" if "x \<in> set ids" for x
      proof -
        obtain s s' where "good t s" "asmem (in_group_key gid) s = (Inr ids, s')" using ids unfolding yields_def by blast
        then show ?thesis using members_read[of t s gid ids s' x] that assms by (intro calm_cascade_route) auto
      qed
      show "calm t (seq_io (each_io (cascade_route env gid) ids)
        (seq_io (cascade_containers gid)
        (seq_io (case g of None \<Rightarrow> ret () | Some g \<Rightarrow> cascade_group_record gid g)
        (seq_io (asrem ''group:all'' gid) (ret (length ids))))))"
        using rec g by (intro tn.seq tn.each r calm_containers assms tn.on_option tn.pure tn.renamed_error calm_names) auto
    qed
  qed
qed

lemma calm_group_state:
  assumes "ulid_text gid" "gid \<notin> tn_groups t"
  shows "calm t (set_group_state gid entries)" "calm t (clear_group_state gid)" "calm t (clear_group_journal gid)"
proof -
  have b: "calm t (bucket_set (group_bucket gid) k v)" for k v
  proof -
    have "bucket_set (group_bucket gid) k v = bucket_set admin_bucket (''gkv:'' @ gid @ '':'' @ k) v"
      by (rule ext) (simp add: bucket_set_def group_bucket_def group_bucket_under_def admin_bucket_def)
    moreover have "\<not> frozen t (''gkv:'' @ gid @ '':'' @ k)"
      by (rule mine_prefixes(2)[OF assms]) (auto simp: starts_with_iff)
    ultimately show ?thesis by (simp add: tn.put_bytes key_kind_def)
  qed
  show "calm t (set_group_state gid entries)"
    unfolding set_group_state_def set_bucket_state_def
    by (intro tn.each) (auto intro!: tn.renamed_error b)
  show "calm t (clear_group_state gid)" "calm t (clear_group_journal gid)"
    unfolding clear_group_state_def clear_group_journal_def
    by (rule tn.bind calm_deletes[OF assms] tn.pure | rule tn.renamed_error, rule tn.remove, use assms in simp)+
qed


section \<open>Routes\<close>

lemma mine_route_data:
  assumes "ulid_text (r_group_id r)" "r_group_id r \<notin> tn_groups t"
  shows "calm t (set_bucket_state (route_bucket (r_group_id r) (r_id r)) entries)"
    "calm t (adelpre (kv_prefix (r_group_id r) (r_id r)))"
proof -
  have b: "calm t (bucket_set (route_bucket (r_group_id r) (r_id r)) k v)" for k v
  proof -
    let ?k = "''kv:'' @ r_group_id r @ '':'' @ r_id r @ '':'' @ k"
    have "bucket_set (route_bucket (r_group_id r) (r_id r)) k v = bucket_set admin_bucket ?k v"
      by (rule ext) (simp add: bucket_set_def route_bucket_def route_bucket_under_def admin_bucket_def)
    moreover have "\<not> frozen t ?k"
      by (rule mine_prefixes(1)[OF assms]) (auto simp: starts_with_iff)
    ultimately show ?thesis by (simp add: tn.put_bytes key_kind_def)
  qed
  show "calm t (set_bucket_state (route_bucket (r_group_id r) (r_id r)) entries)"
    unfolding set_bucket_state_def by (intro tn.each) (auto intro!: tn.renamed_error b)
  show "calm t (adelpre (kv_prefix (r_group_id r) (r_id r)))" by (rule calm_deletes(5)[OF assms])
qed

text \<open>The route a slug names, seen again by the operation that follows.\<close>

lemma slug_again:
  assumes "get_route_by_slug env reference n s = (Inr r, s)"
  obtains gid rid where "bind_io (resolve_group env reference) or_not_found s = (Inr gid, s)"
    "route_id_by_number gid n s = (Inr rid, s)" "read_route env rid s = (Inr r, s)"
proof -
  obtain gid s1 rid s2 where 1: "bind_io (resolve_group env reference) or_not_found s = (Inr gid, s1)"
    "route_id_by_number gid n s1 = (Inr rid, s2)" "read_route env rid s2 = (Inr r, s)"
    using assms by (auto simp: get_route_by_slug_def bind_io_Inr_iff)
  have q: "quiet (bind_io (resolve_group env reference) or_not_found)" by (intro quiet_intros)
  have "s1 = s" using quietD[OF q 1(1)] .
  moreover have "s2 = s1" using quietD[OF quiet_routes(4) 1(2)] .
  ultimately show ?thesis using 1 that by blast
qed

lemma slug_read:
  assumes "good t s" "get_route_by_slug env reference n s = (Inr r, s')" "r_owner_id r = tn_caller t"
  shows "s' = s \<and> valid_id t (r_id r) \<and> r_id r \<notin> tn_routes t \<and> ulid_text (r_group_id r) \<and> r_group_id r \<notin> tn_groups t"
proof -
  have s: "s' = s" using quietD[OF quiet_routes(5) assms(2)] .
  obtain gid rid where "read_route env rid s = (Inr r, s)" using slug_again assms(2) s by metis
  then show ?thesis using route_read[OF assms(1)] assms(3) s by metis
qed

lemma calm_delete_route:
  assumes "get_route_by_slug env reference n s = (Inr r, s)" "r_id r \<notin> tn_routes t"
  shows "steady_at (good t) (same_on (frozen t)) s (delete_route env reference n)"
proof (cases "good t s")
  case True
  obtain gid rid where d: "bind_io (resolve_group env reference) or_not_found s = (Inr gid, s)"
    "route_id_by_number gid n s = (Inr rid, s)" "read_route env rid s = (Inr r, s)"
    using slug_again[OF assms(1)] .
  have r: "r_id r = rid" "valid_id t rid" "ulid_text (r_group_id r)" "r_group_id r \<notin> tn_groups t"
    using route_read[OF True d(3)] assms(2) by auto
  have "calm t (seq_io (strip_route_indexes r) (bind_io (adelpre (kv_prefix (r_group_id r) (r_id r))) (\<lambda>_.
      each_io (\<lambda>f. ahdel (route_key rid) f) delete_route_fields)))"
    by (intro tn.seq tn.bind calm_strip mine_route_data(2) tn.each tn.renamed_error calm_route_write(2))
      (use r assms(2) in simp_all)
  from steady_at[OF this] show ?thesis
    by (simp add: delete_route_def steady_at_def bind_io_def[of "bind_io (resolve_group env reference) or_not_found"]
        bind_io_def[of "route_id_by_number gid n"] bind_io_def[of "read_route env rid"] d)
qed (simp add: steady_at_def)


lemma calm_apply_patch:
  assumes "valid_id t rid" "rid \<notin> tn_routes t"
  shows "calm t (apply_patch env rid patch new_path r)"
  unfolding apply_patch_def Let_def
  by (intro tn.bind tn.on_option tn.seq tn.pure tn.renamed_error calm_route_write[OF assms]) simp_all

lemma calm_update_route:
  assumes "get_route_by_slug env reference n s = (Inr r, s)" "r_id r \<notin> tn_routes t"
  shows "steady_at (good t) (same_on (frozen t)) s (update_route env reference n patch)"
proof (cases "good t s")
  case True
  obtain gid rid where d: "bind_io (resolve_group env reference) or_not_found s = (Inr gid, s)"
    "route_id_by_number gid n s = (Inr rid, s)" "read_route env rid s = (Inr r, s)"
    using slug_again[OF assms(1)] .
  have r: "r_id r = rid" "valid_id t rid" using route_read[OF True d(3)] by auto
  let ?checked = "bind_io (case pr_methods patch of
        Some m \<Rightarrow> seq_io (lift_result (rmap (\<lambda>_. ()) (validate_methods m))) (ret m)
      | None \<Rightarrow> ret (r_methods r)) (\<lambda>new_methods.
    bind_io (case pr_path patch of
        Some p \<Rightarrow> lift_result (rmap raw (lift_pattern (pattern_parse p)))
      | None \<Rightarrow> ret (r_path r)) (\<lambda>new_path.
    seq_io (if pr_methods patch \<noteq> None \<or> pr_path patch \<noteq> None
            then bind_io (lift_result (lift_pattern (pattern_parse new_path))) (\<lambda>new_pattern.
              scan_pattern_conflict env (r_group_id r) new_methods new_pattern (Some (r_id r)))
            else ret ())
      (apply_patch env rid patch new_path r)))"
  have scan: "calm t (scan_pattern_conflict env g ms p x)" for g ms p x by (intro calm_quiet quiet_intros)
  have "calm t ?checked"
    by (intro tn.bind tn.seq tn.on_option tn.branch tn.pure scan calm_apply_patch) (use r assms(2) in simp_all)
  from steady_at[OF this] show ?thesis
    by (simp add: update_route_def steady_at_def bind_io_def[of "bind_io (resolve_group env reference) or_not_found"]
        bind_io_def[of "route_id_by_number gid n"] bind_io_def[of "read_route env rid"] d)
qed (simp add: steady_at_def)

lemma calm_route_state:
  assumes "get_route_by_slug env reference n s = (Inr r, s)" "ulid_text (r_group_id r)" "r_group_id r \<notin> tn_groups t"
  shows "steady_at (good t) (same_on (frozen t)) s (set_route_state env reference n entries)"
    "steady_at (good t) (same_on (frozen t)) s (clear_route_state env reference n)"
  using steady_at[OF mine_route_data(1)[OF assms(2,3)]] steady_at[OF mine_route_data(2)[OF assms(2,3)]]
  by (simp_all add: set_route_state_def clear_route_state_def steady_at_def bind_io_def[of "get_route_by_slug env reference n"] assms(1))

lemma calm_index:
  assumes "ulid_text (r_id r)" "r_id r \<notin> tn_routes t" "ulid_text (r_group_id r)" "r_group_id r \<notin> tn_groups t"
  shows "calm t (index_route r)"
  unfolding index_route_def
  by (intro tn.each) (use assms in \<open>auto intro!: tn.renamed_error tn.put_bytes tn.add_member calm_names\<close>)

lemma calm_write_route:
  assumes "valid_id t (r_id r)" "r_id r \<notin> tn_routes t" "ulid_text (r_group_id r)" "r_group_id r \<notin> tn_groups t"
  shows "calm t (write_route env r)"
  unfolding write_route_def Let_def
  by (intro tn.each) (use assms in \<open>auto intro!: tn.renamed_error calm_route_write split: option.split\<close>)

text \<open>Creating a route, as long as its group turns out to be none of the others'.\<close>

lemma calm_create_route:
  assumes "steady_at (good t) (same_on (frozen t)) s (target_group env gen new_gid now params)"
    and "\<And>g s'. \<lbrakk>good t s; target_group env gen new_gid now params s = (Inr g, s')\<rbrakk> \<Longrightarrow> ulid_text (g_id g) \<and> g_id g \<notin> tn_groups t"
    and "valid_id t new_rid" "new_rid \<notin> tn_routes t"
  shows "steady_at (good t) (same_on (frozen t)) s (create_route env gen new_gid new_rid now params)"
proof -
  have counted: "calm t (ahincr (counters_key gid) ''next_route_number'' 1)" if "ulid_text gid" "gid \<notin> tn_groups t" for gid
    using that record_ok_update[OF record_ok_Nil plain_field, of "''next_route_number''"]
    by (intro tn.renamed_error tn.count_field) (auto intro: record_ok_update plain_field)
  show ?thesis
    unfolding create_route_def
    by (rule tn.at_reading, intro quiet_intros, rule tn.at_reading, intro quiet_intros, rule tn.at_bind[OF assms(1)], rule steady_at)
      (auto simp: Let_def intro!: tn.seq tn.bind tn.pure calm_quiet[OF quiet_routes(6)] counted calm_write_route calm_index
        dest!: assms(2) simp: assms(3,4) valid_ulid[OF assms(3)])
qed


section \<open>Accounts\<close>

lemma yields_user: "yields (good t) (read_user_by_id env i) (Some u) \<Longrightarrow> us_id u = i \<and> valid_id t i"
proof -
  assume "yields (good t) (read_user_by_id env i) (Some u)"
  then obtain s h where "good t s" "hash_at s (user_key i) = Some h" "decode_user (au_time env) h = Inr u"
    by (auto simp: yields_def read_user_by_id_def bind_io_Inr_iff map_err_Inr_iff admin_hash_get_all ret_def lift_result_def
        split: if_splits option.splits)
  then show ?thesis using id_field[of t s "''user:''" i h "us_id u"] decode_user_id by (auto simp: user_key_def)
qed

lemma yields_token: "yields (good t) (read_token_by_id env i) (Some x) \<Longrightarrow> tk_id x = i \<and> valid_id t i"
proof -
  assume "yields (good t) (read_token_by_id env i) (Some x)"
  then obtain s h where "good t s" "hash_at s (token_key i) = Some h" "decode_token (au_time env) h = Inr x"
    by (auto simp: yields_def read_token_by_id_def bind_io_Inr_iff map_err_Inr_iff admin_hash_get_all ret_def lift_result_def
        split: if_splits option.splits)
  then show ?thesis using id_field[of t s "''token:''" i h "tk_id x"] decode_token_id by (auto simp: token_key_def)
qed

lemma yields_bind: "yields P (bind_io m f) y \<Longrightarrow> \<exists>x s s'. P s \<and> m s = (Inr x, s') \<and> (\<exists>s''. f x s' = (Inr y, s''))"
  by (auto simp: yields_def bind_io_Inr_iff)

lemma yields_quiet_bind:
  assumes "yields P (bind_io m f) y" "quiet m"
  shows "\<exists>x. yields P m x \<and> yields P (f x) y"
  using yields_bind[OF assms(1)] quietD[OF assms(2)] unfolding yields_def by metis

lemma yields_found: "yields P (found_or_error v) x \<Longrightarrow> v = Some x"
  by (cases v) (auto simp: yields_def found_or_error_def ret_def raise_def)

lemma yields_known_user: "yields (good t) (bind_io (read_user_by_id env i) found_or_error) u \<Longrightarrow> us_id u = i \<and> valid_id t i"
  using yields_quiet_bind[OF _ quiet_accounts(2)] yields_found yields_user by metis

lemma yields_named_token: "yields (good t) (get_token_by_name env owner name) (Some x) \<Longrightarrow> valid_id t (tk_id x)"
proof -
  assume y: "yields (good t) (get_token_by_name env owner name) (Some x)"
  have q: "quiet (au (bucket_get admin_bucket (token_by_name owner name)))" by (intro quiet_intros)
  obtain e where e: "yields (good t) (case e of None \<Rightarrow> ret None
      | Some b \<Rightarrow> bind_io (index_id ''token:by-name value'' b) (read_token_by_id env)) (Some x)"
    using yields_quiet_bind[OF y[unfolded get_token_by_name_def] q] by blast
  then obtain b where "yields (good t) (bind_io (index_id ''token:by-name value'' b) (read_token_by_id env)) (Some x)"
    by (cases e) (auto simp: yields_def ret_def)
  from yields_quiet_bind[OF this quiet_accounts(1)] show ?thesis using yields_token by metis
qed

lemma calm_account_field:
  assumes "valid_id t i" "f = ''id'' \<longrightarrow> v = i"
  shows "calm t (bucket_hash_set admin_bucket (user_key i) f v)" "calm t (bucket_hash_set admin_bucket (token_key i) f v)"
  using assms account_field[OF assms] by (auto intro!: calm_field)

lemma calm_account_keys [calm_intros]:
  "calm t (bucket_set admin_bucket (by_email_key e) v)" "calm t (bucket_delete admin_bucket (by_email_key e))"
  "calm t (bucket_delete admin_bucket (legacy_name_key n))"
  "calm t (bucket_hash_delete admin_bucket (user_key i) f)" "calm t (bucket_hash_delete admin_bucket (token_key i) f)"
  "calm t (bucket_set_add admin_bucket user_all x)" "calm t (bucket_set_remove admin_bucket user_all x)"
  "calm t (bucket_set admin_bucket (token_by_hash h) v)" "calm t (bucket_delete admin_bucket (token_by_hash h))"
  "calm t (bucket_set admin_bucket (token_by_name owner n) v)" "calm t (bucket_delete admin_bucket (token_by_name owner n))"
  "calm t (bucket_set_add admin_bucket (token_by_owner owner) x)" "calm t (bucket_set_remove admin_bucket (token_by_owner owner) x)"
  by (auto intro!: tn.put_bytes tn.remove tn.add_member tn.remove_member tn.delete_field)

lemma calm_scan_email: "calm t (scan_email env email ids)"
proof (induction ids)
  case (Cons i ids)
  show ?case
    by (simp, rule tn.bind) (auto intro!: calm_quiet[OF quiet_accounts(2)] calm_intros Cons split: option.split)
qed (simp add: tn.pure)

lemma calm_find_user [calm_intros]: "calm t (find_user_by_email env email)"
proof -
  have all: "calm t (scan_all env email)"
    unfolding scan_all_def by (rule tn.bind, intro calm_quiet quiet_intros, rule calm_scan_email)
  show ?thesis
    unfolding find_user_by_email_def
    by (intro tn.bind calm_quiet[OF quiet_map_err[OF quiet_read(1)]] tn.on_option all tn.branch calm_quiet[OF quiet_accounts(1)]
        calm_quiet[OF quiet_accounts(2)] tn.seq tn.renamed_error calm_account_keys(2) tn.pure)
qed

lemma calm_get_user [calm_intros]: "calm t (get_user_by_email env email)"
  unfolding get_user_by_email_def by (rule calm_find_user)

lemma calm_new_user:
  assumes "valid_id t i"
  shows "calm t (create_user env i now email is_admin)"
proof -
  have claim: "calm t (bucket_set_if_absent admin_bucket (by_email_key e) v)" for e v
    unfolding bucket_set_if_absent_def
    using calm_account_keys(1)[of t e v] calm_quiet[OF quiet_read(1)]
    by (auto intro!: tn.bind tn.branch tn.seq tn.pure simp: bucket_set_def[abs_def])
  show ?thesis
    unfolding create_user_def write_new_user_def Let_def
    by (intro tn.bind calm_find_user tn.branch tn.pure tn.seq tn.each tn.renamed_error claim calm_account_keys(6))
      (auto intro!: tn.renamed_error calm_account_field[OF assms])
qed

lemma calm_set_admin [calm_intros]: "calm t (set_user_admin env i is_admin)"
  unfolding set_user_admin_def
  by (rule tn.bind, intro calm_quiet quiet_intros)
    (auto intro!: tn.seq tn.pure tn.renamed_error calm_account_field dest: yields_known_user)

lemma calm_bump [calm_intros]: "calm t (bump_session_epoch env i)"
proof -
  have c: "calm t (bucket_hash_incr admin_bucket (user_key i) ''session_epoch'' 1)" if "valid_id t i"
    using that record_ok_update[OF record_ok_Nil plain_field, of "''session_epoch''"]
    by (intro tn.count_field) (auto intro: record_ok_update plain_field)
  show ?thesis
    unfolding bump_session_epoch_def
    by (rule tn.bind, intro calm_quiet quiet_intros)
      (auto intro!: tn.bind tn.pure tn.renamed_error c dest: yields_known_user)
qed

lemma calm_create_token:
  assumes "valid_id t i"
  shows "calm t (create_token env i now plaintext owner name ttl)"
proof -
  have e: "quiet (token_expiry ch now ttl)" for ch
    unfolding token_expiry_def by (intro quiet_intros)
  have p: "calm t (put_token tc x)" if "tk_id x = i" for tc x
    unfolding put_token_def Let_def that
    by (intro tn.each) (auto intro!: tn.renamed_error tn.pure calm_account_field[OF assms] calm_account_keys split: option.split)
  show ?thesis
    unfolding create_token_def write_new_token_def Let_def
    by (intro tn.bind calm_quiet[OF quiet_accounts(2)] calm_quiet[OF quiet_map_err[OF quiet_read(1)]] calm_quiet[OF e]
        tn.branch tn.pure tn.seq p) simp
qed

lemma calm_rename_token [calm_intros]: "calm t (rename_token env owner old new)"
proof -
  have q: "calm t (bind_io (get_token_by_name env owner old) found_or_error)" by (intro calm_quiet quiet_intros)
  have v: "valid_id t (tk_id x)" if "yields (good t) (bind_io (get_token_by_name env owner old) found_or_error) x" for x
    using yields_quiet_bind[OF that quiet_accounts(6)] yields_found yields_named_token by metis
  show ?thesis
    unfolding rename_token_def
    by (intro tn.bind q calm_quiet[OF quiet_map_err[OF quiet_read(1)]] tn.branch tn.pure tn.seq tn.each)
      (auto intro!: tn.renamed_error calm_account_keys calm_account_field dest: v)
qed

lemma calm_delete_token [calm_intros]: "calm t (delete_token x)"
  unfolding delete_token_def by (intro tn.each) (auto intro!: tn.renamed_error tn.each calm_account_keys)

lemma calm_revoke_token [calm_intros]: "calm t (revoke_token_by_name env owner name)"
  unfolding revoke_token_by_name_def
  by (intro tn.bind calm_quiet[OF quiet_accounts(6)] tn.on_option tn.pure tn.seq calm_delete_token)

lemma calm_delete_user [calm_intros]: "calm t (delete_user env i)"
proof -
  have d: "calm t (delete_tokens env ids)" for ids
  proof (induction ids)
    case (Cons j ids)
    show ?case
      by (simp, rule tn.bind, rule calm_quiet[OF quiet_accounts(5)]) (auto intro!: calm_intros Cons split: option.split)
  qed (simp add: tn.pure)
  show ?thesis
    unfolding delete_user_def
    by (rule tn.bind, intro calm_quiet quiet_intros, rule tn.bind, intro calm_quiet quiet_intros)
      (auto intro!: tn.seq tn.each tn.pure d tn.renamed_error calm_account_keys)
qed

end
