(* ===== verification/Api_Tenancy.thy ===== *)
theory Api_Tenancy
  imports Api Tenancy
begin

text \<open>No request to the REST API changes what belongs to somebody else.\<close>

section \<open>Handlers\<close>

abbreviation good_world :: "tenant \<Rightarrow> 'c sweep_world \<Rightarrow> bool" where "good_world t \<equiv> \<lambda>w. good t (sw_store w)"
abbreviation theirs_same :: "tenant \<Rightarrow> 'c sweep_world \<Rightarrow> 'c sweep_world \<Rightarrow> bool" where
  "theirs_same t \<equiv> \<lambda>w w'. same_on (frozen t) (sw_store w) (sw_store w')"

interpretation tw: discipline "good_world t" "theirs_same t" for t
  by unfold_locales (simp_all add: same_on_def)

abbreviation fair :: "tenant \<Rightarrow> ('c sweep_world, 'e, 'a) io \<Rightarrow> bool" where "fair t \<equiv> steady (good_world t) (theirs_same t)"
abbreviation fair_at :: "tenant \<Rightarrow> 'c sweep_world \<Rightarrow> ('c sweep_world, 'e, 'a) io \<Rightarrow> bool" where
  "fair_at t \<equiv> steady_at (good_world t) (theirs_same t)"

lemma fair_at_store: "steady_at (good t) (same_on (frozen t)) (sw_store w) m \<Longrightarrow> fair_at t w (on_store m)"
  by (cases "m (sw_store w)") (simp add: steady_at_def on_store_def)

lemma fair_store [calm_intros]: "calm t m \<Longrightarrow> fair t (on_store m)"
  by (simp add: steady_def fair_at_store)

lemma fair_table [calm_intros]: "fair t (on_table f)"
  by (rule steadyI) (simp add: on_table_def same_on_def split: prod.split)

lemma quiet_store [quiet_intros]: "quiet m \<Longrightarrow> quiet (on_store m)"
  by (simp add: quiet_def on_store_def split: prod.split) (metis snd_conv sweep_world.surjective sweep_world.update_convs(1))

lemmas fair_steps [calm_intros] = tw.pure tw.seq tw.renamed_error tw.dropped_error tw.branch tw.on_option

lemma fair_quiet: "quiet m \<Longrightarrow> fair t m"
  by (rule tw.reading)

lemma on_store_Inr: "on_store m w = (Inr x, w') \<longleftrightarrow> (\<exists>s. m (sw_store w) = (Inr x, s) \<and> w' = w\<lparr>sw_store := s\<rparr>)"
  by (auto simp: on_store_def split: prod.splits)

text \<open>The caller is the one the others are fixed against, unless there are no others.\<close>

definition caller_is :: "tenant \<Rightarrow> auth_context \<Rightarrow> bool" where
  "caller_is t cx \<longleftrightarrow> \<not> cx_is_admin cx \<and> cx_user_id cx = tn_caller t \<or> tn_groups t = {} \<and> tn_routes t = {}"

lemma mine_group:
  assumes "caller_is t cx" "good t s" "read_group_by_ref env reference s = (Inr g, s')"
    and "g_owner_id g = cx_user_id cx \<or> cx_is_admin cx"
  shows "valid_id t (g_id g) \<and> g_id g \<notin> tn_groups t"
  using ref_read[OF assms(2,3)] assms(1,4) by (auto simp: caller_is_def)

lemma yields_own_group:
  assumes "caller_is t cx" "yields (good_world t) (ensure_group_owner_or_admin env cx reference) g"
  shows "valid_id t (g_id g) \<and> g_id g \<notin> tn_groups t"
proof -
  obtain s0 s where "good t s0" "read_group_by_ref (de_registry env) reference s0 = (Inr g, s)"
    "g_owner_id g = cx_user_id cx \<or> cx_is_admin cx"
    using assms(2) by (auto simp: yields_def ensure_group_owner_or_admin_def bind_io_Inr_iff map_err_Inr_iff on_store_Inr
        ret_def raise_def split: if_splits)
  then show ?thesis using mine_group[OF assms(1)] by blast
qed

lemma quiet_gates [quiet_intros]:
  "quiet (ensure_group_owner_or_admin env cx reference)" "quiet (own_route env cx refusal reference n)"
  "quiet (tenancy_gate env cx target)" "quiet (require_admin cx)" "quiet (or_no_such found)"
  unfolding ensure_group_owner_or_admin_def own_route_def tenancy_gate_def require_admin_def or_no_such_def
  by (intro quiet_intros)+

text \<open>A gated group operation.\<close>

lemma fair_own_group:
  assumes "caller_is t cx" "\<And>g. \<lbrakk>valid_id t (g_id g); g_id g \<notin> tn_groups t\<rbrakk> \<Longrightarrow> fair t (f g)"
  shows "fair t (bind_io (ensure_group_owner_or_admin env cx reference) f)"
  by (rule tw.bind, rule fair_quiet, rule quiet_gates) (use yields_own_group[OF assms(1)] assms(2) in blast)

text \<open>A gated route operation, at the moment the gate is passed.\<close>

lemma fair_own_route:
  assumes "caller_is t cx"
    and "\<And>r w. \<lbrakk>get_route_by_slug (de_registry env) reference n (sw_store w) = (Inr r, sw_store w); valid_id t (r_id r);
        r_id r \<notin> tn_routes t; ulid_text (r_group_id r); r_group_id r \<notin> tn_groups t\<rbrakk> \<Longrightarrow> fair_at t w (f r)"
  shows "fair t (bind_io (own_route env cx refusal reference n) f)"
proof -
  have "fair_at t w (bind_io (own_route env cx refusal reference n) f)" for w
  proof (rule tw.at_reading[OF quiet_gates(2)])
    fix r assume w: "good_world t w" "own_route env cx refusal reference n w = (Inr r, w)"
    then obtain s where s: "get_route_by_slug (de_registry env) reference n (sw_store w) = (Inr r, s)"
      and o: "r_owner_id r = cx_user_id cx \<or> cx_is_admin cx"
      by (auto simp: own_route_def bind_io_Inr_iff map_err_Inr_iff on_store_Inr ret_def raise_def split: if_splits)
    have e: "s = sw_store w" using quietD[OF quiet_routes(5) s] .
    obtain gid rid where "read_route (de_registry env) rid (sw_store w) = (Inr r, sw_store w)" using slug_again s e by metis
    from route_read[OF w(1) this] have "valid_id t (r_id r)" "r_id r \<notin> tn_routes t" "ulid_text (r_group_id r)" "r_group_id r \<notin> tn_groups t"
      using o assms(1) by (auto simp: caller_is_def)
    then show "fair_at t w (f r)" using assms(2) s e by blast
  qed
  then show ?thesis by (simp add: steady_def)
qed


section \<open>Identifying the caller\<close>

lemma quiet_session_read [quiet_intros]: "quiet (session_read ss token)"
  unfolding session_read_def by (auto intro!: quiet_intros split: option.split)

lemma calm_touch: "calm t (session_touch ss now later cookie)"
proof -
  have w: "calm t (session_write ss token x)" for token x
    unfolding session_write_def
    by (auto intro!: tn.pure tn.renamed_error tn.put_for split: option.split)
  have d: "calm t (session_delete token)" for token
    unfolding session_delete_def by (intro tn.renamed_error tn.remove) simp
  show ?thesis
    unfolding session_touch_def Let_def
    by (auto intro!: tn.pure tn.bind calm_quiet[OF quiet_session_read] tn.seq tn.dropped_error w d split: option.split prod.split)
qed

lemma quiet_load_access [quiet_intros]: "quiet (load_access env h)"
  unfolding quiet_def
proof
  fix s
  have q: "quiet (load_access_token (au_oauth env) h)"
    unfolding load_access_token_def read_json_hash_def by (auto intro!: quiet_intros split: option.split)
  obtain x s' where x: "load_access_token (au_oauth env) h s = (x, s')" by fastforce
  have e: "s' = s" using quietD[OF q x] .
  show "snd (load_access env h s) = s"
    by (cases x; (cases "projl x")?) (auto simp: load_access_def x e ret_def raise_def split: oauth_store_error.split sum.split)
qed

lemma calm_authenticate: "calm t (authenticate env t0 t1 plaintext)"
proof -
  have wmt: "calm t (authenticate_wmt env t0 t1 plaintext)"
    unfolding authenticate_wmt_def
    by (intro tn.bind calm_quiet[OF quiet_map_err[OF quiet_read(1)]] tn.on_option tn.pure tn.branch
        calm_quiet[OF quiet_accounts(1)] calm_quiet[OF quiet_accounts(2)] calm_quiet[OF quiet_accounts(5)] tn.seq
        tn.dropped_error calm_account_field) (auto dest: yields_token)
  have wmm: "calm t (authenticate_wmm env t0 plaintext)"
    unfolding authenticate_wmm_def
    by (rule calm_quiet) (auto intro!: quiet_intros)
  show ?thesis unfolding authenticate_def by (intro tn.branch wmt wmm tn.pure)
qed

lemma calm_caller: "calm t (caller_of env t0 t1 hs)"
  unfolding caller_of_def bearer_caller_def session_caller_def
  by (auto intro!: tn.pure tn.bind tn.renamed_error calm_authenticate calm_touch calm_quiet[OF quiet_accounts(4)]
      split: option.split)

section \<open>Endpoints\<close>

text \<open>Identifiers drawn for a request are new: none of the others'.\<close>

definition draws_new :: "tenant \<Rightarrow> api_draw \<Rightarrow> bool" where
  "draws_new t d \<longleftrightarrow> valid_id t (dw_group_id d) \<and> dw_group_id d \<notin> tn_groups t
     \<and> valid_id t (dw_route_id d) \<and> dw_route_id d \<notin> tn_routes t \<and> valid_id t (dw_account_id d)"

lemma target_of_ref:
  assumes "nr_group params = Some reference" "target_group env gen i now params s = (Inr g, s')"
  shows "\<exists>s''. read_group_by_ref env reference s = (Inr g, s'')"
  using assms by (fastforce simp: target_group_def read_group_by_ref_def bind_io_Inr_iff or_not_found_def ret_def raise_def
      split: option.splits)

lemma fair_create_route:
  assumes "caller_is t cx" "draws_new t d"
  shows "fair t (create_route_core env cx d b)"
proof -
  have "fair_at t w (create_route_core env cx d b)" for w
  proof -
    let ?s = "sw_store w" and ?reg = "de_registry env"
    have made: "fair_at t w (on_store (create_route ?reg (dw_names d) (dw_group_id d) (dw_route_id d) (dw_now d) params))"
      if gate: "tenancy_gate env cx (cb_group b) w = (Inr u, w)" and grp: "nr_group params = cb_group b" for params u
    proof (rule fair_at_store, rule calm_create_route)
      let ?t = "target_group ?reg (dw_names d) (dw_group_id d) (dw_now d) params"
      have "calm t ?t"
        unfolding target_group_def
        by (intro tn.on_option tn.bind calm_quiet[OF quiet_groups(1)] calm_quiet[OF quiet_groups(2)] tn.pure calm_implicit_group)
          (use assms(2) in \<open>simp_all add: draws_new_def\<close>)
      then show "steady_at (good t) (same_on (frozen t)) ?s ?t" by (rule steady_at)
      show "ulid_text (g_id g) \<and> g_id g \<notin> tn_groups t" if s: "good t ?s" and g: "?t ?s = (Inr g, s')" for g s'
      proof (cases "cb_group b")
        case None
        then show ?thesis
          using g grp assms(2)
          by (auto simp: target_group_def create_implicit_group_def bind_io_Inr_iff seq_io_def Let_def ret_def draws_new_def)
      next
        case (Some reference)
        then have "nr_group params = Some reference" using grp by simp
        from target_of_ref[OF this g] obtain s2 where r: "read_group_by_ref ?reg reference ?s = (Inr g, s2)" by blast
        then have "g_owner_id g = cx_user_id cx \<or> cx_is_admin cx"
          using gate Some by (auto simp: tenancy_gate_def bind_io_def map_err_run on_store_def ret_def raise_def split: if_splits)
        then show ?thesis using mine_group[OF assms(1) s r] valid_ulid by blast
      qed
      show "valid_id t (dw_route_id d)" "dw_route_id d \<notin> tn_routes t" using assms(2) by (simp_all add: draws_new_def)
    qed
    show ?thesis
      unfolding create_route_core_def seq_io_def
    proof (rule tw.at_reading[OF quiet_gates(3)])
      fix u assume gate: "tenancy_gate env cx (cb_group b) w = (Inr u, w)"
      show "fair_at t w (bind_io (registry_call (precheck_create_conflict ?reg (cb_group b) (cb_methods b) (cb_path b))) (\<lambda>_.
        bind_io (lift_result (checked_source env (cb_language b) (cb_source b))) (\<lambda>src.
         bind_io (registry_call (create_route ?reg (dw_names d) (dw_group_id d) (dw_route_id d) (dw_now d)
           \<lparr>nr_group = cb_group b, nr_methods = cb_methods b, nr_path = cb_path b, nr_language = cb_language b,
            nr_bindings_version = SUPPORTED_BINDINGS_VERSION, nr_compiled_wasm = [], nr_source = Some src,
            nr_owner_id = cx_user_id cx\<rparr>)) (\<lambda>r. bind_io (on_table (refresh_after_create r)) (\<lambda>_. ret r)))))"
      proof (rule tw.at_reading, intro quiet_intros, rule tw.at_reading, rule quiet_pure, rule tw.at_bind)
        show "fair_at t w (registry_call (create_route ?reg (dw_names d) (dw_group_id d) (dw_route_id d) (dw_now d)
           \<lparr>nr_group = cb_group b, nr_methods = cb_methods b, nr_path = cb_path b, nr_language = cb_language b,
            nr_bindings_version = SUPPORTED_BINDINGS_VERSION, nr_compiled_wasm = [], nr_source = Some src,
            nr_owner_id = cx_user_id cx\<rparr>))" for src
          using made[OF gate, of "\<lparr>nr_group = cb_group b, nr_methods = cb_methods b, nr_path = cb_path b, nr_language = cb_language b,
            nr_bindings_version = SUPPORTED_BINDINGS_VERSION, nr_compiled_wasm = [], nr_source = Some src,
            nr_owner_id = cx_user_id cx\<rparr>"] by (simp add: steady_at_def map_err_parts)
        show "fair_at t w' (bind_io (on_table (refresh_after_create r)) (\<lambda>_. ret r))" for w' r
          by (rule steady_at) (intro tw.bind fair_table tw.pure)
      qed
    qed
  qed
  then show ?thesis by (simp add: steady_def)
qed


lemma fair_dry_run:
  fixes env :: "('c, 'z) host_env_scheme" and lib :: "('j, 'y) wire_lib_scheme"
  shows "fair t (on_dry_run (dry_run env lib upcase downcase run_id ms r q))"
proof (rule steadyI)
  fix w :: "'c sweep_world"
  assume g: "good t (sw_store w)"
  let ?root = "dry_root_of run_id"
  let ?s1 = "fst (snd (run_in_snapshot env lib upcase downcase r ?root q (sw_store w, sw_table w)))"
  let ?s2 = "snd (cleanup_dry_run ?root ?s1)"
  have cell: "map_of ?s2 k = (if starts_with ?root k then None else map_of (sw_store w) k)" for k
    using delete_with_prefix_spec(2)[of admin_bucket ?root ?s1 k]
      view_frame[OF run_outside, of ?root k env lib upcase downcase r q "sw_store w" "sw_table w"]
    by (simp add: cleanup_dry_run_def admin_bucket_def)
  have root: "\<not> frozen t k" if "starts_with ?root k" for k
    using that by (auto simp: starts_with_iff dry_root_of_def frozen_def group_data_def key_defs)
  have w2: "sw_store (snd (on_dry_run (dry_run env lib upcase downcase run_id ms r q) w)) = ?s2"
    by (simp add: on_dry_run_def dry_run_def split: prod.split)
  have "good t ?s2" using g unfolding cells_ok_def cell by auto
  moreover have "same_on (frozen t) (sw_store w) ?s2" unfolding same_on_def cell using root by auto
  ultimately show "good_world t (snd (on_dry_run (dry_run env lib upcase downcase run_id ms r q) w))
      \<and> theirs_same t w (snd (on_dry_run (dry_run env lib upcase downcase run_id ms r q) w))"
    by (simp only: w2)
qed

lemma fair_routes:
  assumes "caller_is t cx" "draws_new t d"
  shows "fair t (route_endpoint env hs cx d q)"
proof (cases q)
  case (CreateRoute b)
  then show ?thesis
    by (simp add: api_create_route_def bind_assoc) (intro tw.bind fair_create_route[OF assms] tw.pure)
next
  case (ListRoutes lq)
  then show ?thesis
    by (simp add: api_list_routes_def list_routes_core_def) (intro fair_quiet quiet_intros, simp add: split_beta quiet_intros)
next
  case (GetRoute g n)
  then show ?thesis by (simp add: api_get_route_def) (intro fair_quiet quiet_intros)
next
  case (PatchRoute g n b)
  have "fair_at t w (bind_io (lift_result (patch_of_body env b)) (\<lambda>patch.
       bind_io (registry_call (update_route (de_registry env) g n patch)) (\<lambda>r. seq_io (on_table (refresh_after_update r)) (ret r))))"
    if r: "get_route_by_slug (de_registry env) g n (sw_store w) = (Inr r, sw_store w)" "r_id r \<notin> tn_routes t" for w r
  proof (rule tw.at_reading, rule quiet_pure, rule tw.at_bind)
    show "fair_at t w (registry_call (update_route (de_registry env) g n patch))" for patch
      using fair_at_store[OF calm_update_route[OF r]] by (simp add: steady_at_def map_err_parts)
    show "fair_at t w' (seq_io (on_table (refresh_after_update x)) (ret x))" for w' x
      by (rule steady_at) (intro tw.seq fair_table tw.pure)
  qed
  then have "fair t (patch_route_core env cx g n b)"
    unfolding patch_route_core_def seq_io_def[of "own_route _ _ _ _ _"] by (intro fair_own_route assms) blast
  then show ?thesis using PatchRoute by (simp add: api_patch_route_def bind_assoc) (intro tw.bind tw.pure)
next
  case (DeleteRoute g n)
  have "fair_at t w (seq_io (registry_call (delete_route (de_registry env) g n)) (on_table f))"
    if r: "get_route_by_slug (de_registry env) g n (sw_store w) = (Inr r, sw_store w)" "r_id r \<notin> tn_routes t" for w r f
    unfolding seq_io_def
  proof (rule tw.at_bind)
    show "fair_at t w (registry_call (delete_route (de_registry env) g n))"
      using fair_at_store[OF calm_delete_route[OF r]] by (simp add: steady_at_def map_err_parts)
  qed (intro steady_at fair_table)
  then have "fair t (api_delete_route env cx g n)"
    unfolding api_delete_route_def by (intro fair_own_route assms) blast
  then show ?thesis using DeleteRoute by simp (intro tw.bind tw.pure)
next
  case (GetRouteState g n f)
  then show ?thesis by (simp add: api_get_route_state_def) (intro fair_quiet quiet_intros)
next
  case (SetRouteState g n es)
  have "fair_at t w (bind_io (lift_result (decode_state_entries (ae_wire env) es)) (\<lambda>es.
      registry_call (set_route_state (de_registry env) g n es)))"
    if r: "get_route_by_slug (de_registry env) g n (sw_store w) = (Inr r, sw_store w)" "ulid_text (r_group_id r)"
      "r_group_id r \<notin> tn_groups t" for w r
  proof (rule tw.at_reading, rule quiet_pure)
    show "fair_at t w (registry_call (set_route_state (de_registry env) g n x))" for x
      using fair_at_store[OF calm_route_state(1)[OF r]] by (simp add: steady_at_def map_err_parts)
  qed
  then have "fair t (api_set_route_state env cx g n es)"
    unfolding api_set_route_state_def seq_io_def by (intro fair_own_route assms) blast
  then show ?thesis using SetRouteState by simp (intro tw.bind tw.pure)
next
  case (DeleteRouteState g n)
  have "fair_at t w (bind_io (registry_call (clear_route_state (de_registry env) g n)) (\<lambda>cleared. ret ()))"
    if r: "get_route_by_slug (de_registry env) g n (sw_store w) = (Inr r, sw_store w)" "ulid_text (r_group_id r)"
      "r_group_id r \<notin> tn_groups t" for w r
  proof (rule tw.at_bind)
    show "fair_at t w (registry_call (clear_route_state (de_registry env) g n))"
      using fair_at_store[OF calm_route_state(2)[OF r]] by (simp add: steady_at_def map_err_parts)
  qed (intro steady_at tw.pure)
  then have "fair t (api_delete_route_state env cx g n)"
    unfolding api_delete_route_state_def seq_io_def by (intro fair_own_route assms) blast
  then show ?thesis using DeleteRouteState by simp (intro tw.bind tw.pure)
next
  case (GetRouteSource g n)
  then show ?thesis by (simp add: api_get_route_source_def) (intro fair_quiet quiet_intros)
next
  case (DryRunRoute g n q)
  have "fair t (api_dry_run_route env cx d g n q)"
    unfolding api_dry_run_route_def
    by (intro fair_own_route assms) (rule steady_at, intro tw.branch tw.pure fair_dry_run)
  then show ?thesis using DryRunRoute by simp (intro tw.bind tw.pure)
qed


lemma fair_accounts:
  assumes "draws_new t d"
  shows "fair t (account_endpoint env cx d q)"
proof -
  have i: "valid_id t (dw_account_id d)" using assms by (simp add: draws_new_def)
  have sel: "fair t (selected_user env e)" for e
    unfolding selected_user_def
    by (rule tw.bind) (auto intro!: calm_intros fair_quiet[OF quiet_gates(5)])
  have guard: "quiet (unless_last_admin env c refusal)" for c refusal
    unfolding unless_last_admin_def by (intro quiet_intros)
  show ?thesis
  proof (cases q)
    case (CreateToken n ttl)
    then show ?thesis
      by (auto simp: api_create_token_def split_beta intro!: tw.bind tw.branch tw.pure tw.renamed_error fair_store calm_create_token[OF i])
  next
    case ListTokens
    then show ?thesis by (simp add: api_list_tokens_def) (intro fair_quiet quiet_intros)
  next
    case (GetToken n)
    then show ?thesis by (simp add: api_get_token_def) (intro fair_quiet quiet_intros)
  next
    case (DeleteToken n)
    then show ?thesis
      by (auto simp: api_delete_token_def intro!: tw.bind tw.branch tw.pure tw.renamed_error fair_store calm_revoke_token)
  next
    case (PatchToken old n)
    then show ?thesis
      by (auto simp: api_patch_token_def Let_def intro!: tw.bind tw.branch tw.pure tw.renamed_error fair_store calm_rename_token)
  next
    case (CreateUser e a)
    then show ?thesis
      by (auto simp: api_create_user_def Let_def intro!: tw.bind tw.seq tw.branch tw.pure tw.renamed_error fair_store
          calm_new_user[OF i] fair_quiet[OF quiet_gates(4)])
  next
    case ListUsers
    then show ?thesis by (simp add: api_list_users_def) (intro fair_quiet quiet_intros)
  next
    case GetMe
    then show ?thesis by (simp add: api_get_me_def) (intro fair_quiet quiet_intros)
  next
    case RevokeAllMySessions
    then show ?thesis
      by (auto simp: api_revoke_all_my_sessions_def intro!: tw.bind tw.pure tw.renamed_error fair_store calm_bump)
  next
    case (GetUser e)
    then show ?thesis by (auto simp: api_get_user_def intro!: tw.bind tw.branch tw.pure sel)
  next
    case (PatchUser e a)
    then show ?thesis
      by (auto simp: api_patch_user_def intro!: tw.bind tw.seq tw.pure tw.renamed_error fair_store calm_set_admin sel
          fair_quiet[OF guard] fair_quiet[OF quiet_gates(4)] split: option.split)
  next
    case (DeleteUser e)
    then show ?thesis
      by (auto simp: api_delete_user_def intro!: tw.bind tw.seq tw.branch tw.pure tw.renamed_error fair_store calm_delete_user sel
          fair_quiet[OF guard] fair_quiet[OF quiet_gates(4)] fair_quiet[OF quiet_store[OF quiet_routes(2)]])
  qed
qed

lemma fair_journal:
  fixes env :: "('c, 'j, 'z) api_env_scheme"
  shows "fair t (journal_endpoint env cx d q)"
proof -
  have r: "quiet (caller_can_read_journal env cx gid)" "quiet (unmatched_visible_groups env cx)" "quiet (journal_group env cx refusal reference)"
    for gid refusal reference
    unfolding journal_group_def caller_can_read_journal_def unmatched_visible_groups_def by (intro quiet_intros)+
  have o: "quiet (caller_owns_unmatched env cx gid)" for gid
    unfolding quiet_def
  proof
    fix w :: "'c sweep_world"
    obtain x w' where x: "on_store (read_group_by_ref (de_registry env) gid) w = (x, w')" by fastforce
    have "w' = w" using quietD[OF quiet_store[OF quiet_groups(4)] x] .
    then show "snd (caller_owns_unmatched env cx gid w) = w"
      using x by (cases x) (simp_all add: caller_owns_unmatched_def)
  qed
  have tail: "quiet (api_tail_journal env cx tq)" for tq
    unfolding api_tail_journal_def by (intro quiet_intros r)
  have "quiet (journal_endpoint env cx d q)"
    by (cases q)
      (simp_all add: api_list_journal_def api_get_journal_entry_def api_list_unmatched_def
        api_get_unmatched_entry_def api_list_callbacks_def api_get_callback_entry_def,
       (intro quiet_intros r o tail)+)
  then show ?thesis by (rule fair_quiet)
qed


lemma fair_rename_step:
  assumes "g_id g \<notin> tn_groups t" "tn_ulid t = ulid_parses (de_registry env)"
    and "read_group_by_ref (de_registry env) reference (sw_store w) = (Inr g, s')"
  shows "fair_at t w (rename_step env g new_name)"
proof (cases new_name)
  case None
  then show ?thesis by (simp add: rename_step_def steady_at tw.pure)
next
  case (Some name)
  let ?reg = "de_registry env" and ?s = "sw_store w"
  have at: "fair_at t w (registry_call (rename_group ?reg (g_id g) name))"
  proof (cases "good t ?s")
    case True
    obtain gid where rg: "read_group ?reg gid ?s = (Inr g, ?s)"
    proof -
      obtain gid s1 where 1: "bind_io (resolve_group ?reg reference) or_not_found ?s = (Inr gid, s1)"
        "read_group ?reg gid s1 = (Inr g, s')"
        using assms(3) by (auto simp: read_group_by_ref_def bind_io_Inr_iff)
      have q: "quiet (bind_io (resolve_group ?reg reference) or_not_found)" by (intro quiet_intros)
      show ?thesis using that 1 quietD[OF q 1(1)] quietD[OF quiet_groups(2) 1(2)] by simp
    qed
    then have v: "g_id g = gid" "valid_id t gid" using group_read[OF True] by auto
    obtain h where h: "hash_at ?s (group_key gid) = Some h" "map_of h ''id'' = Some gid"
      using rg v(1) by (auto simp: read_group_def bind_io_Inr_iff admin_hall_Inr raise_def lift_result_def
          dest!: group_fields_read split: if_splits)
    have "gid \<noteq> []" using v(2) by (auto simp: valid_id_def ulid_text_def)
    moreover have "ulid_parses ?reg gid" using v(2) assms(2) by (simp add: valid_id_def)
    ultimately have "resolve_group ?reg (g_id g) ?s = (Inr (Some (g_id g)), ?s)"
      using h by (simp add: resolve_group_def bind_io_def map_err_run admin_hash_get_all ret_def v(1))
    from fair_at_store[OF calm_rename_group[OF this assms(1)]] show ?thesis by (simp add: steady_at_def map_err_parts)
  qed (simp add: steady_at_def)
  show ?thesis
    unfolding rename_step_def Some option.case by (rule tw.at_bind[OF at]) (intro steady_at fair_table)
qed

lemma fair_import_routes:
  fixes env :: "('c, 'j, 'z) api_env_scheme"
  assumes "caller_is t cx" "\<And>i. draws_new t (d i)" "ulid_text (g_id g)" "g_id g \<notin> tn_groups t"
  shows "fair t (import_routes env cx d g idx rs)"
proof (induction rs arbitrary: idx)
  case (Cons r rs)
  have undo: "fair t (seq_io (rolled_back env g) (raise e))" for e
    unfolding rolled_back_def
    by (intro tw.seq tw.dropped_error fair_store calm_cascade[OF assms(3,4)] fair_table tw.pure)
  show ?case
  proof (rule steadyI)
    fix w :: "'c sweep_world" assume w: "good_world t w"
    let ?c = "create_route_core env cx (d idx) (body_of_normalized (g_name g) r)"
    obtain x w' where x: "?c w = (x, w')" by fastforce
    have c: "good_world t w'" "theirs_same t w w'"
      using steadyD[OF fair_create_route[OF assms(1,2)] w] x by (metis snd_conv)+
    show "good_world t (snd (import_routes env cx d g idx (r # rs) w)) \<and> theirs_same t w (snd (import_routes env cx d g idx (r # rs) w))"
      using x c steadyD[OF Cons.IH c(1), of "idx + 1"] steadyD[OF undo c(1)]
      by (auto split: sum.split api_failure.split intro: tw.further)
  qed
qed (simp add: tw.pure)

lemma fair_import:
  assumes "caller_is t cx" "draws_new t d0" "\<And>i. draws_new t (d i)"
  shows "fair t (import_group_core env cx d0 d spec)"
proof -
  have new: "g_id g = dw_group_id d0"
    if "yields P (on_store (create_group reg gen (dw_group_id d0) now params)) g" for P reg gen now params g
    using that by (auto simp: yields_def on_store_Inr create_group_def bind_io_Inr_iff seq_io_def Let_def ret_def)
  have i: "valid_id t (dw_group_id d0)" "dw_group_id d0 \<notin> tn_groups t" using assms(2) by (simp_all add: draws_new_def)
  have u: "ulid_text (dw_group_id d0)" using i(1) by (rule valid_ulid)
  show ?thesis
    unfolding import_group_core_def
    by (rule tw.bind, rule tw.pure, rule tw.bind, intro tw.renamed_error fair_store calm_create_group i)
      (auto dest!: new intro!: tw.seq tw.on_option tw.bind tw.pure tw.renamed_error fair_store calm_patch_group fair_import_routes
        simp: i u assms)
qed


lemma fair_groups:
  assumes "caller_is t cx" "draws_new t d" "\<And>i. draws_new t (ds i)" "tn_ulid t = ulid_parses (de_registry env)"
  shows "fair t (group_endpoint env hs cx d ds q)"
proof (cases q)
  case (CreateGroup b)
  then show ?thesis
    using assms(2) by (auto simp: api_create_group_def draws_new_def intro!: tw.bind tw.pure tw.renamed_error fair_store calm_create_group)
next
  case (ListGroups lq)
  then show ?thesis
    by (auto simp: api_list_groups_def list_groups_core_def split_beta intro!: fair_quiet quiet_intros)
next
  case (ImportGroup spec)
  then show ?thesis by simp (intro tw.bind tw.pure fair_import assms)
next
  case (GetGroup g)
  then show ?thesis by (simp add: api_get_group_def) (intro fair_quiet quiet_intros)
next
  case (PatchGroup ref b)
  have "fair_at t w (api_patch_group env cx ref b)" for w
    unfolding api_patch_group_def
  proof (rule tw.at_reading[OF quiet_gates(1)])
    fix g assume w: "good_world t w" and e: "ensure_group_owner_or_admin env cx ref w = (Inr g, w)"
    then obtain s where r: "read_group_by_ref (de_registry env) ref (sw_store w) = (Inr g, s)"
      by (auto simp: ensure_group_owner_or_admin_def bind_io_Inr_iff map_err_Inr_iff on_store_Inr ret_def raise_def split: if_splits)
    have g: "valid_id t (g_id g)" "g_id g \<notin> tn_groups t"
      using yields_own_group[OF assms(1)] w e unfolding yields_def by blast+
    have s: "fair_at t w (seq_io (rename_step env g (gp_name b)) (bind_io (registry_call
           (if gp_ttl_seconds b \<noteq> None \<or> gp_sliding_ttl b \<noteq> None \<or> gp_callout_enabled b \<noteq> None
            then patch_group (de_registry env) (g_id g) (gp_ttl_seconds b) (gp_sliding_ttl b) (gp_callout_enabled b)
            else read_group_by_ref (de_registry env) (g_id g))) (\<lambda>updated. ret (group_response_of env updated))))"
      unfolding seq_io_def
      by (rule tw.at_bind[OF fair_rename_step[OF g(2) assms(4) r]], rule steady_at)
        (auto intro!: tw.bind tw.pure tw.renamed_error fair_store calm_patch_group[OF g(2)] calm_quiet[OF quiet_groups(4)])
    show "fair_at t w (if gp_name b = None \<and> gp_ttl_seconds b = None \<and> gp_sliding_ttl b = None \<and> gp_callout_enabled b = None
      then raise (validation (Msg ''PATCH body must include at least `name`, `ttl_seconds`, `sliding_ttl`, or `callout_enabled`''))
      else seq_io (rename_step env g (gp_name b))
        (bind_io (registry_call
           (if gp_ttl_seconds b \<noteq> None \<or> gp_sliding_ttl b \<noteq> None \<or> gp_callout_enabled b \<noteq> None
            then patch_group (de_registry env) (g_id g) (gp_ttl_seconds b) (gp_sliding_ttl b) (gp_callout_enabled b)
            else read_group_by_ref (de_registry env) (g_id g)))
         (\<lambda>updated. ret (group_response_of env updated))))"
      by (rule tw.at_branch, rule steady_at, rule tw.pure, rule s)
  qed
  then have "fair t (api_patch_group env cx ref b)" by (simp add: steady_def)
  then show ?thesis using PatchGroup by simp (intro tw.bind tw.pure)
next
  case (DeleteGroup g)
  then show ?thesis
    by (auto simp: api_delete_group_def intro!: tw.bind fair_own_group[OF assms(1)] tw.pure tw.renamed_error fair_store
        fair_table calm_cascade)
next
  case (ExportGroup g)
  then show ?thesis by (simp add: export_group_core_def) (intro fair_quiet quiet_intros)
next
  case (RefreshGroup g)
  then show ?thesis
    by (auto simp: api_refresh_group_def intro!: tw.bind fair_own_group[OF assms(1)] tw.pure tw.renamed_error fair_store calm_refresh)
next
  case (GetGroupState g f)
  then show ?thesis by (simp add: api_get_group_state_def) (intro fair_quiet quiet_intros)
next
  case (SetGroupState g es)
  then show ?thesis
    by (auto simp: api_set_group_state_def intro!: tw.bind fair_own_group[OF assms(1)] tw.pure tw.renamed_error fair_store calm_group_state)
next
  case (DeleteGroupState g)
  then show ?thesis
    by (auto simp: api_delete_group_state_def intro!: tw.bind fair_own_group[OF assms(1)] tw.pure tw.renamed_error fair_store calm_group_state)
next
  case (DeleteGroupJournal g)
  then show ?thesis
    by (auto simp: api_delete_group_journal_def intro!: tw.bind fair_own_group[OF assms(1)] tw.pure tw.renamed_error fair_store calm_group_state)
next
  case (MatchProbe q)
  have "quiet (\<lambda>w. (answer_probe env hs (probe_in_group (sw_table w) n m p), w))" for n m p by (simp add: quiet_def)
  then show ?thesis using MatchProbe by (simp add: api_match_probe_def) (intro fair_quiet quiet_intros)
qed

lemma fair_endpoint:
  assumes "caller_is t cx" "draws_new t d" "\<And>i. draws_new t (ds i)" "tn_ulid t = ulid_parses (de_registry env)"
  shows "fair t (endpoint env hs cx d ds q)"
  by (cases q) (auto intro!: tw.bind tw.pure fair_routes fair_accounts fair_journal fair_groups assms)


section \<open>Sequences of requests\<close>

type_synonym 'j api_request_line = "(string \<times> bytes) list \<times> api_draw \<times> (nat \<Rightarrow> api_draw) \<times> 'j api_request"

fun serve :: "('c, 'j, 'z) api_env_scheme \<Rightarrow> 'j api_request_line list \<Rightarrow> 'c sweep_world \<Rightarrow> 'c sweep_world" where
  "serve env [] w = w"
| "serve env ((hs, d, ds, q) # lines) w = serve env lines (snd (api_call env hs d ds q w))"

text \<open>Whoever the requests are recognised as, when they are served, satisfies \<^theory_text>\<open>p\<close>.\<close>

fun callers_all :: "(auth_context \<Rightarrow> bool) \<Rightarrow> ('c, 'j, 'z) api_env_scheme \<Rightarrow> 'j api_request_line list \<Rightarrow> 'c sweep_world \<Rightarrow> bool" where
  "callers_all p env [] w = True"
| "callers_all p env ((hs, d, ds, q) # lines) w =
     ((case fst (caller_of env (dw_now d) (dw_later d) hs (sw_store w)) of Inr cx \<Rightarrow> p cx | Inl e \<Rightarrow> True)
      \<and> callers_all p env lines (snd (api_call env hs d ds q w)))"

definition line_draws_new :: "tenant \<Rightarrow> 'j api_request_line \<Rightarrow> bool" where
  "line_draws_new t line = (case line of (hs, d, ds, q) \<Rightarrow> draws_new t d \<and> (\<forall>i. draws_new t (ds i)))"

lemma fair_call:
  assumes "good_world t w" "draws_new t d" "\<And>i. draws_new t (ds i)" "tn_ulid t = ulid_parses (de_registry env)"
    and "case fst (caller_of env (dw_now d) (dw_later d) hs (sw_store w)) of Inr cx \<Rightarrow> caller_is t cx | Inl e \<Rightarrow> True"
  shows "good_world t (snd (api_call env hs d ds q w)) \<and> theirs_same t w (snd (api_call env hs d ds q w))"
proof -
  have "fair_at t w (api_call env hs d ds q)"
    unfolding api_call_def
  proof (rule tw.at_bind)
    show "fair_at t w (on_store (caller_of env (dw_now d) (dw_later d) hs))"
      by (intro steady_at fair_store calm_caller)
    fix cx w' assume "on_store (caller_of env (dw_now d) (dw_later d) hs) w = (Inr cx, w')"
    then have "caller_is t cx" using assms(5) by (auto simp: on_store_Inr)
    then show "fair_at t w' (endpoint env hs cx d ds q)" by (intro steady_at fair_endpoint assms)
  qed
  then show ?thesis using assms(1) by (simp add: steady_at_def)
qed

lemma fair_serve:
  assumes "good_world t w" "tn_ulid t = ulid_parses (de_registry env)"
    and "callers_all (caller_is t) env lines w" "list_all (line_draws_new t) lines"
  shows "good_world t (serve env lines w) \<and> theirs_same t w (serve env lines w)"
  using assms
proof (induction lines arbitrary: w)
  case (Cons line lines)
  obtain hs d ds q where l: "line = (hs, d, ds, q)" by (cases line) blast
  have c: "good_world t (snd (api_call env hs d ds q w)) \<and> theirs_same t w (snd (api_call env hs d ds q w))"
    using Cons.prems by (intro fair_call) (auto simp: l line_draws_new_def)
  then show ?case
    using Cons.IH[of "snd (api_call env hs d ds q w)"] Cons.prems tw.further[of t w] by (auto simp: l)
qed (simp add: tw.same)

end
