(* ===== verification/Api_Safety.thy ===== *)
theory Api_Safety
  imports Api_Tenancy
begin

text \<open>What the REST API guarantees over whole sequences of requests: nobody changes what is
  somebody else's, and storage stays well typed.\<close>

section \<open>Sample requests\<close>

definition demo_api :: "(unit, bytes) api_env" where
  "demo_api = dispatch_env.extend demo_dispatch
     (api_env.fields demo_auth (table_codec []) demo_wire to_upper to_lower False)"

definition demo_token :: token where
  "demo_token = \<lparr>tk_id = ulid_c, tk_name = ''ci'', tk_owner_id = ulid_b, tk_hash = ''wmt_x'', tk_created_at = 5,
     tk_last_used_at = None, tk_expires_at = None, tk_scopes = FULL_ACCESS_SCOPES\<rparr>"

text \<open>A group of \<^theory_text>\<open>u1\<close>, and a user with a token.\<close>

definition shared_store :: mem_store where
  "shared_store = demo_store @
     [(user_key ulid_b, Hash (new_user_fields demo_auth ulid_b 5 ''b@x'' False)),
      (token_key ulid_c, Hash (new_token_fields decimal_time demo_token)), (token_by_hash ''wmt_x'', Bytes ulid_c)]"

definition shared_world :: "unit sweep_world" where
  "shared_world = \<lparr>sw_store = shared_store, sw_table = demo_table, sw_sent = []\<rparr>"

definition demo_draw :: api_draw where
  "demo_draw = \<lparr>dw_names = first_words, dw_group_id = ulid_c, dw_route_id = ulid_c, dw_account_id = ulid_c,
     dw_secret = ''s'', dw_run_id = ulid_c, dw_now = 8, dw_later = 9, dw_elapsed_ms = 1\<rparr>"

definition delete_line :: "bytes api_request_line" where
  "delete_line = ([(''authorization'', ''Bearer wmt_x'')], demo_draw, (\<lambda>i. demo_draw), OnGroups (DeleteGroup ''demo''))"

definition demo_tenant :: "string set \<Rightarrow> tenant" where
  "demo_tenant gs = \<lparr>tn_groups = gs, tn_routes = {}, tn_caller = ulid_b, tn_ulid = ulid_text\<rparr>"

lemma demo_api_parts [simp]:
  "de_registry demo_api = sample_env" "de_http demo_api = demo_http" "ae_auth demo_api = demo_auth"
  by (simp_all add: demo_api_def demo_dispatch_def dispatch_env.defs host_env.defs api_env.defs)

lemma shared_good:
  assumes "gs \<subseteq> {ulid_a}"
  shows "good (demo_tenant gs) shared_store"
proof -
  let ?t = "demo_tenant gs"
  have u: "''u1'' \<noteq> ulid_b" by (simp add: ulid_b_def)
  have ids: "\<And>x y. group_key x \<noteq> route_key y" "\<And>x y. user_key x \<noteq> group_key y" "\<And>x y. user_key x \<noteq> route_key y"
    "\<And>x y. token_key x \<noteq> group_key y" "\<And>x y. token_key x \<noteq> route_key y"
    by (simp_all add: group_key_def route_key_def user_key_def token_key_def)
  have "field_ok ?t (group_key ulid_a) f v" if "f = ''id'' \<longrightarrow> v = ulid_a" "f = ''owner_id'' \<longrightarrow> v = ''u1''" for f v
    using that u by (auto simp: field_ok_def ids valid_id_def demo_tenant_def group_key_def route_key_def)
  then have g: "record_ok ?t (group_key ulid_a) (group_fields env g)" if "g_id g = ulid_a" "g_owner_id g = ''u1''" for env g
    using that by (simp add: record_ok_def group_fields_def)
  have v: "valid_id ?t ulid_b" "valid_id ?t ulid_c" by (simp_all add: valid_id_def demo_tenant_def)
  have a: "record_ok ?t (user_key ulid_b) (new_user_fields demo_auth ulid_b 5 ''b@x'' False)"
    using account_field[OF v(1)] by (simp add: record_ok_def new_user_fields_def)
  have k: "record_ok ?t (token_key ulid_c) (new_token_fields decimal_time demo_token)"
    using account_field[OF v(2)] by (simp add: record_ok_def new_token_fields_def demo_token_def)
  show ?thesis
    unfolding cells_ok_def shared_store_def demo_store_def using g a k by (auto split: if_splits)
qed

definition demo_caller :: auth_context where
  "demo_caller = context_of \<lparr>us_id = ulid_b, us_email = ''b@x'', us_is_admin = False, us_created_at = 5,
     us_session_epoch = 0\<rparr> ulid_c"

lemma shared_account: "account decimal_time shared_store ulid_b
    = Some \<lparr>us_id = ulid_b, us_email = ''b@x'', us_is_admin = False, us_created_at = 5, us_session_epoch = 0\<rparr>"
proof -
  let ?h = "new_user_fields demo_auth ulid_b 5 ''b@x'' False"
  have z: "decode_epoch ?h = Inr 0"
    using parse_u64_show[of 0] show_zero by (simp add: decode_epoch_def new_user_fields_def valid_utf8_def utf8_pending_def)
  have t: "parse_rfc3339 decimal_time (to_rfc3339 decimal_time 5) = Some 5" "valid_utf8 (to_rfc3339 decimal_time 5)"
    using decimal_time_ok by (simp add: time_ok_def) code_simp
  have "decode_user decimal_time ?h
     = Inr \<lparr>us_id = ulid_b, us_email = ''b@x'', us_is_admin = False, us_created_at = 5, us_session_epoch = 0\<rparr>"
    using z t by (simp add: decode_user_def decode_email_def field_utf8_def new_user_fields_def demo_auth_def
        auth_parse_ts_def flag_def ulid_text_utf8) (simp add: valid_utf8_def utf8_pending_def)
  moreover have "hash_at shared_store (user_key ulid_b) = Some ?h"
    by (simp add: shared_store_def demo_store_def cell_simps group_key_def by_name_key_def user_key_def)
  ultimately show ?thesis by (simp add: account_Some new_user_fields_def)
qed

lemma shared_token:
  "bytes_at shared_store (token_by_hash ''wmt_x'') = Some (Some ulid_c)"
  "hash_at shared_store (token_key ulid_c) = Some (new_token_fields decimal_time demo_token)"
  "decode_token decimal_time (new_token_fields decimal_time demo_token) = Inr demo_token"
proof -
  show "bytes_at shared_store (token_by_hash ''wmt_x'') = Some (Some ulid_c)"
    by (simp add: shared_store_def demo_store_def cell_simps group_key_def by_name_key_def user_key_def token_key_def
        token_by_hash_def ulid_c_def)
  show "hash_at shared_store (token_key ulid_c) = Some (new_token_fields decimal_time demo_token)"
    by (simp add: shared_store_def demo_store_def cell_simps group_key_def by_name_key_def user_key_def token_key_def)
  have "valid_utf8 (to_rfc3339 decimal_time 5)" by code_simp
  then have "token_text_ok decimal_time demo_token"
    by (simp add: token_text_ok_def demo_token_def ulid_text_utf8) (simp add: valid_utf8_def utf8_pending_def)
  then show "decode_token decimal_time (new_token_fields decimal_time demo_token) = Inr demo_token"
    using decode_new_token(1)[OF decimal_time_ok] by (simp add: demo_token_def)
qed

lemma caller_found:
  "fst (caller_of demo_api 8 9 [(''authorization'', ''Bearer wmt_x'')] shared_store) = Inr demo_caller"
proof -
  have h: "sha256_hex (au_oauth demo_auth) ''wmt_x'' = ''wmt_x''" by (simp add: demo_auth_def demo_oauth_def)
  have n: "new_token_fields decimal_time demo_token \<noteq> []" by (simp add: new_token_fields_def)
  have d: "au_time demo_auth = decimal_time" by (simp add: demo_auth_def)
  have "fst (authenticate demo_auth 8 9 ''wmt_x'' shared_store) = Inr (Some demo_caller)"
    using authenticate_wmt_run[of shared_store demo_auth "''wmt_x''" ulid_c _ demo_token] shared_token shared_account n h
    by (simp add: authenticate_def d demo_token_def demo_caller_def expired_def ulid_text_utf8)
  moreover have "trim ''wmt_x'' = ''wmt_x''" by code_simp
  ultimately show ?thesis
    by (cases "authenticate demo_auth 8 9 ''wmt_x'' shared_store")
      (simp add: caller_of_def bearer_caller_def demo_http_def bind_io_def map_err_run ret_def)
qed

lemma delete_caller:
  "p demo_caller \<Longrightarrow> callers_all p demo_api [delete_line] shared_world"
  using caller_found by (simp add: delete_line_def demo_draw_def shared_world_def)

lemma delete_draws:
  assumes "gs \<subseteq> {ulid_a}"
  shows "line_draws_new (demo_tenant gs) delete_line"
proof -
  have "ulid_c \<notin> gs" using subsetD[OF assms, of ulid_c] demo_ulids(7) by (simp only: singleton_iff) metis
  then have "draws_new (demo_tenant gs) demo_draw"
    by (simp add: draws_new_def demo_draw_def valid_id_def demo_tenant_def)
  then show ?thesis by (simp add: line_draws_new_def delete_line_def)
qed

section \<open>Tenants\<close>

lemma callers_weaken: "\<lbrakk>callers_all p env lines w; \<And>cx. p cx \<Longrightarrow> q cx\<rbrakk> \<Longrightarrow> callers_all q env lines w"
  by (induction lines arbitrary: w) (auto split: sum.splits)



section \<open>Types\<close>



end
