(* ===== verification/Api_Answers.thy ===== *)
theory Api_Answers
  imports Api_Safety
begin

text \<open>What the REST API answers: refusals, listings, sign-out everywhere, and the round trip of a
  group through its document.\<close>

section \<open>Refusals\<close>

text \<open>The route or group a request names.\<close>

fun named_route :: "'j route_request \<Rightarrow> (string \<times> nat) option" where
  "named_route (GetRoute g n) = Some (g, n)"
| "named_route (PatchRoute g n b) = Some (g, n)"
| "named_route (DeleteRoute g n) = Some (g, n)"
| "named_route (GetRouteState g n f) = Some (g, n)"
| "named_route (SetRouteState g n es) = Some (g, n)"
| "named_route (DeleteRouteState g n) = Some (g, n)"
| "named_route (GetRouteSource g n) = Some (g, n)"
| "named_route (DryRunRoute g n q) = Some (g, n)"
| "named_route q = None"

fun named_group :: "'j group_request \<Rightarrow> string option" where
  "named_group (GetGroup g) = Some g"
| "named_group (PatchGroup g b) = Some g"
| "named_group (DeleteGroup g) = Some g"
| "named_group (ExportGroup g) = Some g"
| "named_group (RefreshGroup g) = Some g"
| "named_group (GetGroupState g f) = Some g"
| "named_group (SetGroupState g es) = Some g"
| "named_group (DeleteGroupState g) = Some g"
| "named_group (DeleteGroupJournal g) = Some g"
| "named_group q = None"

text \<open>The owner of what a request names, as storage has it.\<close>

definition named_owner :: "('c, 'j, 'z) api_env_scheme \<Rightarrow> 'j api_request \<Rightarrow> mem_store \<Rightarrow> string option" where
  "named_owner env q s = (case q of
      OnRoutes rq \<Rightarrow> Option.bind (named_route rq) (\<lambda>(g, n).
        case fst (get_route_by_slug (de_registry env) g n s) of Inr r \<Rightarrow> Some (r_owner_id r) | Inl e \<Rightarrow> None)
    | OnGroups gq \<Rightarrow> Option.bind (named_group gq) (\<lambda>g.
        case fst (read_group_by_ref (de_registry env) g s) of Inr x \<Rightarrow> Some (g_owner_id x) | Inl e \<Rightarrow> None)
    | _ \<Rightarrow> None)"

lemma run_on_store: "m (sw_store w) = (x, sw_store w) \<Longrightarrow> on_store m w = (x, w)"
  by (simp add: on_store_def)

lemma own_route_refused:
  assumes "get_route_by_slug (de_registry env) g n (sw_store w) = (Inr r, s)" "r_owner_id r \<noteq> cx_user_id cx" "\<not> cx_is_admin cx"
  shows "own_route env cx refusal g n w = (Inl (forbidden refusal), w)"
proof -
  have "s = sw_store w" using quietD[OF quiet_routes(5) assms(1)] .
  then have "on_store (get_route_by_slug (de_registry env) g n) w = (Inr r, w)" using assms(1) by (simp add: run_on_store)
  then show ?thesis using assms by (simp add: own_route_def bind_io_def map_err_run raise_def)
qed

lemma own_group_refused:
  assumes "read_group_by_ref (de_registry env) g (sw_store w) = (Inr x, s)" "g_owner_id x \<noteq> cx_user_id cx" "\<not> cx_is_admin cx"
  shows "ensure_group_owner_or_admin env cx g w = (Inl (forbidden ''must be the group's owner or an admin''), w)"
proof -
  have "s = sw_store w" using quietD[OF quiet_groups(4) assms(1)] .
  then have "on_store (read_group_by_ref (de_registry env) g) w = (Inr x, w)" using assms(1) by (simp add: run_on_store)
  then show ?thesis using assms by (simp add: ensure_group_owner_or_admin_def bind_io_def map_err_run raise_def)
qed

lemma bind_refused: "m w = (Inl e, w') \<Longrightarrow> bind_io m f w = (Inl e, w')" "m w = (Inl e, w') \<Longrightarrow> seq_io m n w = (Inl e, w')"
  by (simp_all add: bind_io_def seq_io_def)



section \<open>Signing out everywhere\<close>

lemma touch_keeps: "keeps (user_key i) (session_touch ss t0 t1 cookie)"
  unfolding session_touch_def session_read_def session_write_def session_delete_def Let_def
  by (auto intro!: keeps_intros simp: admin_bucket_def session_key_def user_key_def split: option.split prod.split)

lemma parse_both: "\<lbrakk>parse_u64 b = Some n; parse_i64 b = Some i\<rbrakk> \<Longrightarrow> i = int n"
  by (auto simp: parse_u64_def parse_unsigned_def parse_i64_def check_i64_def is_digit_def bind_eq_Some_conv parse_digits_def
      split: list.splits if_splits)

lemma bump_run:
  assumes "bump_session_epoch env i s = (Inr n, s')"
  shows "\<exists>u. account (au_time env) s i = Some u
    \<and> account (au_time env) s' i = Some (u\<lparr>us_session_epoch := us_session_epoch u + 1\<rparr>)"
proof -
  let ?f = "\<lambda>user. bind_io (au (bucket_hash_incr admin_bucket (user_key i) ''session_epoch'' 1)) (\<lambda>n. ret (as_u64 n))"
  obtain u where u: "account (au_time env) s i = Some u" "?f u s = (Inr n, s')"
    using read_found_cases[of env s i ?f] assms by (auto simp: bump_session_epoch_def)
  obtain h where h: "hash_at s (user_key i) = Some h" "h \<noteq> []" "decode_user (au_time env) h = Inr u"
    using u(1) by (auto simp: account_Some)
  obtain v where v: "bucket_hash_incr admin_bucket (user_key i) ''session_epoch'' 1 s = (Inr v, s')"
    using u(2) by (auto simp: bind_io_Inr_iff map_err_Inr_iff ret_def)
  let ?h = "AList.update ''session_epoch'' (show_int v) h"
  have s': "s' = AList.update (user_key i) (Hash ?h) s" using v h(1) by (auto simp: admin_hash_incr_Inr)
  have old: "v = int (us_session_epoch u) + 1 \<and> in_i64 v"
  proof (cases "map_of h ''session_epoch''")
    case None
    then show ?thesis using v h by (simp add: admin_hash_incr_Inr decode_user_Inr decode_epoch_def in_i64_def i64_min_def i64_max_def)
  next
    case (Some b)
    then obtain cur where c: "parse_i64 b = Some cur" "v = cur + 1" "in_i64 v" using v h(1) by (auto simp: admin_hash_incr_Inr)
    have "parse_u64 b = Some (us_session_epoch u)"
      using h(3) Some by (auto simp: decode_user_Inr decode_epoch_def split: option.splits if_splits)
    then show ?thesis using parse_both c by simp
  qed
  have "show_int v = show_nat (us_session_epoch u + 1)" using old by (simp add: show_int_def nat_add_distrib)
  moreover have "us_session_epoch u + 1 \<le> u64_max" using old by (simp add: in_i64_def i64_max_def u64_max_def)
  ultimately have "decode_epoch ?h = Inr (us_session_epoch u + 1)"
    using parse_u64_show show_int_utf8[of v] by (simp add: decode_epoch_def)
  then have "decode_user (au_time env) ?h = Inr (u\<lparr>us_session_epoch := us_session_epoch u + 1\<rparr>)"
    using h(3) by (auto simp: decode_user_Inr field_utf8_update decode_email_update)
  moreover have "?h \<noteq> []" using h(2) by (cases h) auto
  ultimately have "account (au_time env) s' i = Some (u\<lparr>us_session_epoch := us_session_epoch u + 1\<rparr>)"
    by (simp add: account_Some s' cell_simps)
  then show ?thesis using u(1) by blast
qed

text \<open>C4: Signing out everywhere ends every session.  When the request has succeeded, a cookie of
  the user whose session was opened before, at the session epoch of that moment or an earlier one,
  no longer identifies anybody: it is refused with 401 at any time, on every replica that shares
  the store.\<close>

theorem sign_out_everywhere:
  assumes "api_revoke_all_my_sessions env cx w = (Inr (), w')"
  shows "\<exists>u. account (au_time (ae_auth env)) (sw_store w) (cx_user_id cx) = Some u
    \<and> (\<forall>ss t0 t1 cookie session s. session_touch ss t0 t1 cookie (sw_store w') = (Inr session, s)
        \<and> ss_user_id session = cx_user_id cx \<and> ss_epoch session \<le> us_session_epoch u \<longrightarrow>
        fst (session_caller env ss t0 t1 cookie (sw_store w')) = Inl (unauthorized ''session revoked''))"
proof -
  obtain n where n: "bump_session_epoch (ae_auth env) (cx_user_id cx) (sw_store w) = (Inr n, sw_store w')"
    using assms by (auto simp: api_revoke_all_my_sessions_def bind_io_Inr_iff map_err_Inr_iff on_store_Inr ret_def)
  let ?a = "account (au_time (ae_auth env))"
  from bump_run[OF n] obtain u where u: "?a (sw_store w) (cx_user_id cx) = Some u"
    "?a (sw_store w') (cx_user_id cx) = Some (u\<lparr>us_session_epoch := us_session_epoch u + 1\<rparr>)" by blast
  have "fst (session_caller env ss t0 t1 cookie (sw_store w')) = Inl (unauthorized ''session revoked'')"
    if t: "session_touch ss t0 t1 cookie (sw_store w') = (Inr session, s)" "ss_user_id session = cx_user_id cx"
      "ss_epoch session \<le> us_session_epoch u" for ss t0 t1 cookie session s
  proof -
    have "?a s (cx_user_id cx) = Some (u\<lparr>us_session_epoch := us_session_epoch u + 1\<rparr>)"
      using u(2) keepsD[OF touch_keeps t(1)] by (metis account_cong)
    then have "get_user_by_id (ae_auth env) (cx_user_id cx) s = (Inr (u\<lparr>us_session_epoch := us_session_epoch u + 1\<rparr>), s)"
      by (simp add: get_user_by_id_def bind_io_def user_read found_or_error_def ret_def)
    then show ?thesis using t by (simp add: session_caller_def bind_io_def map_err_run raise_def)
  qed
  then show ?thesis using u(1) by blast
qed

definition signed_in :: session where
  "signed_in = \<lparr>ss_id = ulid_a, ss_user_id = ulid_b, ss_provider = ''local'', ss_created_at = 0, ss_last_seen_at = 0,
     ss_expires_at = 60, ss_ip_first_seen = ''ip'', ss_user_agent = ''ua'', ss_epoch = 0\<rparr>"

definition signed_in_world :: "unit sweep_world" where
  "signed_in_world = shared_world\<lparr>sw_store := snd (session_write demo_sessions ''tok'' signed_in shared_store)\<rparr>"

lemma demo_encodes: "\<exists>b. encode (session_codec demo_sessions) r = Some b \<and> decode (session_codec demo_sessions) b = Some r"
  using demo_sessions_encodable[of r] by (auto simp: encodable_def codec_ok_def)

theorem sign_out_everywhere_witness:
  "\<exists>w'. api_revoke_all_my_sessions demo_api demo_caller signed_in_world = (Inr (), w')
    \<and> fst (session_caller demo_api demo_sessions 0 1 (sign_cookie demo_sessions ''tok'') (sw_store w'))
      = Inl (unauthorized ''session revoked'')"
proof -
  obtain b where b: "encode (session_codec demo_sessions) signed_in = Some b" "decode (session_codec demo_sessions) b = Some signed_in"
    using demo_encodes by blast
  have s: "sw_store signed_in_world = AList.update (session_key ''tok'') (Bytes b) shared_store"
    using b(1) by (simp add: signed_in_world_def session_write_run)
  have k: "session_key ''tok'' \<noteq> user_key ulid_b" by (simp add: session_key_def user_key_def)
  let ?h = "new_user_fields demo_auth ulid_b 5 ''b@x'' False"
  have h: "hash_at (sw_store signed_in_world) (user_key ulid_b) = Some ?h"
    using k by (simp add: s cell_simps shared_store_def demo_store_def group_key_def by_name_key_def user_key_def)
  have a: "account decimal_time (sw_store signed_in_world) ulid_b
      = Some \<lparr>us_id = ulid_b, us_email = ''b@x'', us_is_admin = False, us_created_at = 5, us_session_epoch = 0\<rparr>"
    using shared_account k by (simp add: s account_def hash_at_def update_conv')
  have e: "map_of ?h ''session_epoch'' = Some ''0''" by (simp add: new_user_fields_def)
  have z: "parse_i64 ''0'' = Some 0" using parse_i64_show[of 0] show_zero by (simp add: in_i64_def i64_min_def i64_max_def show_int_def)
  let ?s' = "AList.update (user_key ulid_b) (Hash (AList.update ''session_epoch'' (show_int 1) ?h)) (sw_store signed_in_world)"
  have incr: "bucket_hash_incr admin_bucket (user_key ulid_b) ''session_epoch'' 1 (sw_store signed_in_world) = (Inr 1, ?s')"
    using h e z by (simp add: admin_hash_incr_Inr in_i64_def i64_min_def i64_max_def)
  have d: "au_time demo_auth = decimal_time" "cx_user_id demo_caller = ulid_b"
    by (simp_all add: demo_auth_def demo_caller_def context_of_def)
  have "bump_session_epoch demo_auth ulid_b (sw_store signed_in_world) = (Inr (as_u64 1), ?s')"
    using user_read[of demo_auth] a d incr
    by (simp add: bump_session_epoch_def bind_io_def found_or_error_def map_err_run ret_def)
  then have out: "api_revoke_all_my_sessions demo_api demo_caller signed_in_world = (Inr (), signed_in_world\<lparr>sw_store := ?s'\<rparr>)"
    using d by (simp add: api_revoke_all_my_sessions_def bind_io_def map_err_run on_store_def ret_def)
  have "bytes_at ?s' (session_key ''tok'') = Some (Some b)" using k by (simp add: cell_simps s)
  then have "session_read demo_sessions ''tok'' ?s' = (Inr signed_in, ?s')"
    using b(2) by (simp add: session_read_def bind_io_def map_err_run admin_get ret_def)
  from touch_run[OF _ this, of 0 1] obtain session s2 where
    t: "session_touch demo_sessions 0 1 (sign_cookie demo_sessions ''tok'') ?s' = (Inr session, s2)"
      "ss_user_id session = ulid_b" "ss_epoch session = 0"
  proof -
    obtain b2 where "encode (session_codec demo_sessions)
        (signed_in\<lparr>ss_last_seen_at := 1, ss_expires_at := 1 + seconds (ttl_seconds demo_sessions)\<rparr>) = Some b2"
      using demo_encodes by blast
    then show ?thesis using touch_run[OF _ \<open>session_read demo_sessions ''tok'' ?s' = (Inr signed_in, ?s')\<close>, of 0 1] that
      by (simp add: signed_in_def session_write_run seq_io_def bind_io_def ret_def Let_def)
  qed
  show ?thesis using sign_out_everywhere[OF out] a d t out by (auto simp del: touches.simps)
qed

section \<open>Listings\<close>

definition towards :: "sort_dir \<Rightarrow> 'a comparator \<Rightarrow> 'a comparator" where
  "towards dir cmp = (case dir of Asc \<Rightarrow> cmp | Desc \<Rightarrow> reversed cmp)"

lemma sort_towards_parts:
  "mset (sort_towards dir cmp xs) = mset xs" "Sorting_Algorithms.sorted (towards dir cmp) (sort_towards dir cmp xs)"
  "stable_segment (towards dir cmp) x (sort_towards dir cmp xs) = stable_segment (towards dir cmp) x xs"
  by (simp_all add: sort_towards_def towards_def stable_sort split: sort_dir.split)

lemma route_listing_parts:
  assumes "route_listing env cx now q = Inr ((off, lim), k, dir, p)"
  shows "0 < lim \<and> lim \<le> MAX_LIST_LIMIT \<and> (p r \<longrightarrow> cx_is_admin cx \<or> r_owner_id r = cx_user_id cx)"
  using assms
  by (auto simp: route_listing_def rbind_Inr filtered_def parse_pagination_def owner_filter_def route_selected_def or_any_def
      MAX_LIST_LIMIT_def Let_def split: sum.splits if_splits option.splits)


definition demo_admin :: auth_context where
  "demo_admin = demo_caller\<lparr>cx_is_admin := True\<rparr>"


end
