(* ===== verification/Api_Edges.thy ===== *)
theory Api_Edges
  imports Api_Answers
begin

text \<open>The edges of the REST API: requests without a caller, a group through its document, and three
  places where the answer is not what a client expects: a change of a group that is applied by
  half, and the two filters that compare names a rename has changed.\<close>

section \<open>Requests without a caller\<close>

lemma load_access_same: "load_access env h s = (x, s') \<Longrightarrow> s' = s"
  using quietD[OF quiet_load_access] .

lemma unrecognised_same:
  assumes "authenticate env t0 t1 given s = (r, s')" "\<And>cx. r \<noteq> Inr (Some cx)"
  shows "s' = s"
proof -
  have wmt: "snd (authenticate_wmt env t0 t1 given s) = s"
    if "\<And>cx. fst (authenticate_wmt env t0 t1 given s) \<noteq> Inr (Some cx)"
  proof (rule ccontr)
    assume n: "snd (authenticate_wmt env t0 t1 given s) \<noteq> s"
    obtain x s1 where a: "au (bucket_get admin_bucket (token_by_hash (sha256_hex (au_oauth env) given))) s = (x, s1)" by fastforce
    have "s1 = s" using quietD[OF quiet_map_err[OF quiet_read(1)] a] .
    with a n that show False
      unfolding authenticate_wmt_def
      by (auto simp: bind_io_def seq_io_def ret_def ignore_err_def split: sum.splits option.splits prod.splits if_splits
          dest!: quietD[OF quiet_accounts(1)] quietD[OF quiet_accounts(5)] quietD[OF quiet_accounts(2)])
  qed
  have "quiet (authenticate_wmm env t0 given)"
    unfolding authenticate_wmm_def by (auto intro!: quiet_intros)
  then have "snd (authenticate_wmm env t0 given s) = s" by (simp add: quiet_def)
  then show ?thesis using assms wmt by (auto simp: authenticate_def ret_def split: if_splits)
qed

lemma touch_elsewhere:
  assumes "\<not> starts_with ''session:'' k"
  shows "keeps k (session_touch ss t0 t1 cookie)"
proof -
  have k: "\<And>x. k \<noteq> session_key x" "\<And>x. session_key x \<noteq> k" using assms by (auto simp: session_key_def)
  have w: "keeps k (session_write ss token x)" "keeps k (session_delete token)" "keeps k (session_read ss token)" for token x
    unfolding session_write_def session_delete_def session_read_def
    by (intro keeps_intros; simp add: admin_bucket_def k keeps_pure split: option.split)+
  show ?thesis
    unfolding session_touch_def Let_def
    by (auto intro!: keeps_intros w split: option.split prod.split)
qed

text \<open>C11: A request whose caller is not identified does nothing: its answer is the refusal, with status
  401 or, when storage fails, 500; no handler runs, the route table and the other replicas are left
  alone, and in storage at most a session record changes.\<close>

theorem unidentified_requests_do_nothing:
  fixes env :: "('c, 'j, 'z) api_env_scheme" and w :: "'c sweep_world"
  assumes "caller_of env (dw_now d) (dw_later d) hs (sw_store w) = (Inl e, s)"
  shows "api_call env hs d ds q w = (Inl e, w\<lparr>sw_store := s\<rparr>)
    \<and> (\<exists>er. e = Answered er \<and> ap_status er \<in> {401, 500})
    \<and> (starts_with ''session:'' k \<or> map_of s k = map_of (sw_store w) k)"
proof -
  let ?s = "sw_store w"
  have run: "api_call env hs d ds q w = (Inl e, w\<lparr>sw_store := s\<rparr>)"
    using assms by (simp add: api_call_def bind_io_def on_store_def)
  have refusal: "\<And>m. unauthorized m = Answered \<lparr>ap_status = 401, ap_code = ''unauthorized'', ap_message = Msg m, ap_diagnostics = []\<rparr>"
    "\<And>m. internal m = Answered \<lparr>ap_status = 500, ap_code = ''internal_error'', ap_message = m, ap_diagnostics = []\<rparr>"
    by (simp_all add: unauthorized_def internal_def api_failed_def)
  have "(\<exists>er. e = Answered er \<and> ap_status er \<in> {401, 500}) \<and> (starts_with ''session:'' k \<or> map_of s k = map_of ?s k)"
  proof (cases "map_of hs ''authorization''")
    case (Some v)
    then have b: "bearer_caller env (dw_now d) (dw_later d) v ?s = (Inl e, s)" using assms by (simp add: caller_of_def)
    show ?thesis
    proof (cases "Option.bind (ht_to_str (de_http env) v) (strip_prefix ''Bearer '')")
      case None
      then show ?thesis using b by (auto simp: bearer_caller_def refusal raise_def split: option.splits)
    next
      case (Some given)
      obtain r s1 where a: "authenticate (ae_auth env) (dw_now d) (dw_later d) (trim given) ?s = (r, s1)" by fastforce
      have "s1 = s \<and> (\<forall>cx. r \<noteq> Inr (Some cx)) \<and> (\<exists>er. e = Answered er \<and> ap_status er \<in> {401, 500})"
        using b Some a
        by (auto simp: bearer_caller_def bind_eq_Some_conv bind_io_def map_err_run refusal raise_def ret_def
            split: sum.splits option.splits)
      then show ?thesis using unrecognised_same[OF a] by blast
    qed
  next
    case None
    show ?thesis
    proof (cases "de_sessions env = None \<or> extract_session_cookie (de_http env) hs = None")
      case True
      then show ?thesis using None assms by (auto simp: caller_of_def refusal raise_def split: option.splits)
    next
      case False
      then obtain ss cookie where c: "session_caller env ss (dw_now d) (dw_later d) cookie ?s = (Inl e, s)"
        using None assms by (auto simp: caller_of_def)
      then have st: "\<exists>er. e = Answered er \<and> ap_status er \<in> {401, 500}"
        by (auto simp: session_caller_def bind_io_def map_err_run refusal raise_def ret_def
            split: sum.splits prod.splits if_splits)
      have "keeps k (session_caller env ss (dw_now d) (dw_later d) cookie)" if "\<not> starts_with ''session:'' k"
        unfolding session_caller_def get_user_by_id_def found_or_error_def
        by (auto intro!: keeps_intros touch_elsewhere[OF that] keeps_read_user split: option.split)
      then show ?thesis using st keepsD c by blast
    qed
  qed
  then show ?thesis using run by blast
qed

theorem unidentified_requests_do_nothing_witness:
  "api_call demo_api [] demo_draw (\<lambda>i. demo_draw) (OnGroups (DeleteGroup ''demo'')) shared_world
     = (Inl (unauthorized ''missing Authorization header or session cookie''), shared_world)"
proof -
  have "caller_of demo_api (dw_now demo_draw) (dw_later demo_draw) [] (sw_store shared_world)
      = (Inl (unauthorized ''missing Authorization header or session cookie''), sw_store shared_world)"
    by (simp add: caller_of_def extract_session_cookie_def pick_session_cookie_def raise_def split: option.split)
  from unidentified_requests_do_nothing[OF this] show ?thesis by simp
qed

section \<open>A group through its document\<close>

definition kept_route :: "route \<Rightarrow> normalized_route" where
  "kept_route r = \<lparr>no_methods = r_methods r, no_path = r_path r, no_language = r_language r,
     no_source = (case r_source r of Some src \<Rightarrow> src | None \<Rightarrow> [])\<rparr>"

lemma exported_routes:
  assumes "specs_of_routes g rs = Inr specs" "list_all (\<lambda>r. sr_methods r \<noteq> [] \<and> trim (sr_path r) \<noteq> []) specs"
  shows "normalize_routes idx specs = Inr (map kept_route rs)"
  using assms
proof (induction rs arbitrary: specs idx)
  case (Cons r rs)
  then obtain src rest where s: "r_source r = Some src" "specs_of_routes g rs = Inr rest" "specs = spec_of_route r src # rest"
    by (auto simp: rmap_def split: option.splits sum.splits)
  have "normalize_route idx (spec_of_route r src) = Inr (kept_route r)"
    using Cons.prems(2) s by (cases "r_methods r")
      (auto simp: normalize_route_def route_methods_def route_source_def spec_of_route_def kept_route_def)
  moreover have "normalize_routes (idx + 1) rest = Inr (map kept_route rs)" using Cons s by simp
  ultimately show ?case using s by (simp add: rmap_def)
qed simp

lemma parsed_range: "parse_u64 x = Some n \<Longrightarrow> n \<le> u64_max"
  by (auto simp: parse_u64_def parse_unsigned_def bind_eq_Some_conv split: list.splits if_splits)

lemma decoded_ttl: "decode_group env h = Inr g \<Longrightarrow> \<exists>x. parse_u64 x = Some (g_ttl_seconds g)"
  by (auto simp: decode_group_def rbind_Inr split: option.splits)

lemma read_ttl: "read_group_by_ref env reference s = (Inr g, s') \<Longrightarrow> g_ttl_seconds g \<le> u64_max"
  using decoded_ttl parsed_range
  by (auto simp: read_group_by_ref_def bind_io_Inr_iff read_group_def raise_def lift_result_def split: if_splits) blast

lemma gate_reads:
  "ensure_group_owner_or_admin env cx reference w = (Inr g, w') \<Longrightarrow>
     \<exists>s. read_group_by_ref (de_registry env) reference (sw_store w) = (Inr g, s)"
  by (auto simp: ensure_group_owner_or_admin_def bind_io_Inr_iff map_err_Inr_iff on_store_Inr ret_def raise_def split: if_splits)

text \<open>C13: A group survives its document: the exported document normalises, and what an import would
  create from it is the group again, with its name, lifetime and both switches, and its routes in
  the order of their numbers with their methods, paths, languages and sources.\<close>

theorem export_import_roundtrip:
  assumes "export_group_core env cx reference w = (Inr spec, w')" "trim (sp_name spec) \<noteq> []"
    and "list_all (\<lambda>r. sr_methods r \<noteq> [] \<and> trim (sr_path r) \<noteq> []) (sp_routes spec)"
  shows "\<exists>g all0 rs. ensure_group_owner_or_admin env cx reference w = (Inr g, w)
    \<and> list_routes (de_registry env) (sw_store w) = (Inr all0, sw_store w)
    \<and> mset rs = filter_mset (\<lambda>r. r_group_id r = g_id g) (mset all0) \<and> sorted_wrt (\<le>) (map r_number rs)
    \<and> normalize spec = Inr \<lparr>ns_name = g_name g, ns_ttl_seconds = Some (g_ttl_seconds g), ns_sliding = Some (g_sliding_ttl g),
        ns_callout = (if g_callout_enabled g then Some True else None), ns_routes = map kept_route rs\<rparr>"
proof -
  obtain g w1 where g: "ensure_group_owner_or_admin env cx reference w = (Inr g, w1)"
    using assms(1) by (auto simp: export_group_core_def bind_io_Inr_iff)
  have w1: "w1 = w" using quietD[OF quiet_gates(1) g] .
  obtain all0 s specs where l: "list_routes (de_registry env) (sw_store w) = (Inr all0, s)"
    "specs_of_routes g (sort_key r_number (filter (\<lambda>r. r_group_id r = g_id g) all0)) = Inr specs"
    "spec = \<lparr>sp_name = g_name g, sp_ttl = Some (format_duration (g_ttl_seconds g)), sp_sliding = Some (g_sliding_ttl g),
      sp_callout = (if g_callout_enabled g then Some True else None), sp_routes = specs\<rparr>"
    using assms(1) g w1
    by (auto simp: export_group_core_def bind_io_Inr_iff map_err_Inr_iff on_store_Inr lift_result_def ret_def)
  have "quiet (list_routes (de_registry env))" by (intro quiet_intros)
  from quietD[OF this l(1)] have s: "s = sw_store w" .
  have "g_ttl_seconds g \<le> u64_max" using gate_reads[OF g] read_ttl by blast
  then have "parse_duration (format_duration (g_ttl_seconds g)) = Inr (g_ttl_seconds g)" by (rule duration_roundtrip)
  then have "normalize spec = Inr \<lparr>ns_name = g_name g, ns_ttl_seconds = Some (g_ttl_seconds g), ns_sliding = Some (g_sliding_ttl g),
        ns_callout = (if g_callout_enabled g then Some True else None),
        ns_routes = map kept_route (sort_key r_number (filter (\<lambda>r. r_group_id r = g_id g) all0))\<rparr>"
    using assms(2,3) l(3) exported_routes[OF l(2)] by (simp add: normalize_def)
  then show ?thesis
    using g w1 l(1) s by (intro exI[of _ g] exI[of _ all0] exI[of _ "sort_key r_number (filter (\<lambda>r. r_group_id r = g_id g) all0)"]) simp
qed

definition demo_world :: "unit sweep_world" where
  "demo_world = \<lparr>sw_store = demo_store, sw_table = demo_table, sw_sent = []\<rparr>"

lemma demo_gate:
  "ensure_group_owner_or_admin demo_api demo_admin ''demo'' demo_world = (Inr
      \<lparr>g_id = ulid_a, g_name = ''demo'', g_implicit = False, g_created_at = 7, g_owner_id = ''u1'',
       g_ttl_seconds = 60, g_sliding_ttl = True, g_callout_enabled = False, g_last_activity_at = None\<rparr>, demo_world)"
  using demo_resolve[OF demo_store_cells(1)] demo_read_group
  by (simp add: ensure_group_owner_or_admin_def bind_io_def map_err_run on_store_def read_group_by_ref_def or_not_found_def
      ret_def demo_world_def demo_admin_def)

theorem export_import_roundtrip_witness:
  "\<exists>spec. export_group_core demo_api demo_admin ''demo'' demo_world = (Inr spec, demo_world)
     \<and> normalize spec = Inr \<lparr>ns_name = ''demo'', ns_ttl_seconds = Some 60, ns_sliding = Some True, ns_callout = None, ns_routes = []\<rparr>"
proof -
  have "map_of demo_store ''route:all'' = None" by (simp add: demo_store_def key_defs ulid_a_def)
  then have "set_at demo_store ''route:all'' = Some []" by (simp add: set_at_def)
  then have l: "list_routes sample_env demo_store = (Inr [], demo_store)"
    by (simp add: list_routes_def bind_io_def map_err_run admin_set_members ret_def)
  let ?spec = "\<lparr>sp_name = ''demo'', sp_ttl = Some (format_duration 60), sp_sliding = Some True, sp_callout = None, sp_routes = []\<rparr>"
  have w: "sw_store demo_world = demo_store" "demo_world\<lparr>sw_store := demo_store\<rparr> = demo_world" by (simp_all add: demo_world_def)
  have e: "export_group_core demo_api demo_admin ''demo'' demo_world = (Inr ?spec, demo_world)"
    using l w by (simp add: export_group_core_def bind_io_def demo_gate map_err_run on_store_def lift_result_def ret_def)
  have "trim ''demo'' \<noteq> []" by code_simp
  from export_import_roundtrip[OF e] this l show ?thesis
    using e w by (auto simp: demo_gate)
qed

section \<open>A change applied by half\<close>

text \<open>A request that renames a group and gives an impossible lifetime answers 400 and leaves the group
  renamed: its subdomain has moved, and the other replicas have been told.\<close>

lemma rename_survives_refusal:
  assumes "ensure_group_owner_or_admin env cx reference w = (Inr g, w)"
    and "rename_group (de_registry env) (g_id g) name (sw_store w) = (Inr g', s1)"
    and "read_group (de_registry env) (g_id g) s1 = (Inr g1, s1)" "MAX_GROUP_TTL_SECONDS < t"
  shows "\<exists>w'. api_patch_group env cx reference
      \<lparr>gp_name = Some name, gp_ttl_seconds = Some t, gp_sliding_ttl = None, gp_callout_enabled = None\<rparr> w
    = (Inl (validation (OfRegistry (InvalidTtl t))), w') \<and> sw_store w' = s1
    \<and> sw_sent w' = sw_sent w @ [snd (refresh_after_group_rename (g_id g) (g_name g') (sw_table w))]"
proof -
  obtain tb ev where r: "refresh_after_group_rename (g_id g) (g_name g') (sw_table w) = (tb, ev)" by fastforce
  have n: "normalize_ttl t = Inl (InvalidTtl t)" using assms(4) by (simp add: normalize_ttl_def)
  show ?thesis
    by (simp add: api_patch_group_def rename_step_def bind_io_def seq_io_def map_err_run on_store_def on_table_def assms(1-3) r
        patch_group_def n lift_result_def)
qed

section \<open>Names in filters\<close>

text \<open>A filtered listing of a group's journal drops every entry recorded under an earlier name of the
  group, though the same listing without a filter shows it.\<close>

lemma filtered_journal_by_current_name:
  assumes "api_list_journal env cx now reference q w = (Inr page, w')"
    and "lj_method q \<noteq> None \<or> lj_route q \<noteq> None \<or> lj_path_pattern q \<noteq> None \<or> lj_status q \<noteq> None
      \<or> lj_since q \<noteq> None \<or> lj_until q \<noteq> None"
  shows "\<exists>g w1. journal_group env cx ''must be an admin or own a route in this group to read its journal'' reference w = (Inr g, w1)
    \<and> list_all (\<lambda>r. jr_group_name r = g_name g \<or> jr_group_id r = g_name g) (lp_entries page)"
proof -
  obtain g w1 flt w2 entries where p:
    "journal_group env cx ''must be an admin or own a route in this group to read its journal'' reference w = (Inr g, w1)"
    "build_journal_filter_from_query env now (Some (g_name g)) (lj_route q) (lj_method q)
      (lj_path_pattern q) (lj_status q) (lj_since q) (lj_until q) = Inr flt"
    "page = \<lparr>lp_entries = (if any_handled_filter flt then filter (matches_handled flt) entries else entries),
      lp_next_before = next_before jr_number entries\<rparr>"
    using assms(1) by (auto simp: api_list_journal_def bind_io_Inr_iff lift_result_def ret_def)
  have "jf_group flt = Some (g_name g) \<and> any_handled_filter flt"
    using p(2) assms(2)
    by (auto simp: build_journal_filter_from_query_def rbind_Inr parsed_def rmap_def any_handled_filter_def time_bound_def
        split: option.splits sum.splits)
  then show ?thesis
    using p(1,3) by (intro exI[of _ g] exI[of _ w1]) (auto simp: list_all_iff matches_handled_def split: if_splits)
qed

text \<open>A live tail that is given for a group's name follows the name: every event whose group bears that
  name is sent, whichever group that is and whoever owns it.\<close>

lemma tail_follows_name:
  assumes "api_tail_journal env cx \<lparr>lt_group = Some name, lt_route = None, lt_method = None, lt_path_pattern = None,
      lt_status = None\<rparr> w = (Inr flt, w')" "jr_group_name r = name"
  shows "Sent (Handled r) \<in> set (tail_stream flt [Event (Handled r)])"
proof -
  have "flt = \<lparr>jf_group = Some name, jf_route = None, jf_method = None, jf_path_pattern = None, jf_status = None,
      jf_since = None, jf_until = None\<rparr>"
    using assms(1) by (auto simp: api_tail_journal_def bind_io_Inr_iff seq_io_def parsed_def lift_result_def ret_def)
  then show ?thesis using assms(2)
    by (simp add: tail_stream_def tail_step_def matches_handled_def List.map_filter_simps)
qed

text \<open>Routes that were never hit come first when the last hit is sorted ascending.\<close>

lemma never_hit_first:
  assumes "r_last_hit_at r = None" "r_last_hit_at x = Some ts"
  shows "sort_routes [x, r] RouteLastHitAt Asc = [r, x]"
  using assms by (simp add: sort_routes_def sort_towards_def Sorting_Algorithms.sort_def)

end
