(* ===== verification/Local_Auth.thy ===== *)
theory Local_Auth
  imports Auth
begin

text \<open>Accounts from the environment (\<^theory_text>\<open>local_auth.rs\<close>): the parser of the account list,
  and the check of a password against the parsed accounts.

  Password hashing is a parameter: \<^theory_text>\<open>hash n p\<close> is the hash of the \<^theory_text>\<open>n\<close>-th password (its salt
  is random), \<^theory_text>\<open>check p h\<close> the verdict of the verifier.\<close>

section \<open>The account list\<close>

datatype local_role = AdminRole | UserRole

record credential =
  cr_hash :: string
  cr_role :: local_role

type_synonym local_auth = "(string \<times> credential) list"

datatype local_parse_error =
    EmptyEntry
  | MissingPassword string
  | NotAnEmail string
  | EmptyPassword string
  | InvalidRole string string
  | DuplicateEmail string

datatype verify_error = InvalidCredentials | HashEngine string

datatype hash_verdict = HashMatches | HashDiffers | HashFails string

definition parse_role :: "string \<Rightarrow> local_role option" where
  "parse_role s = (let w = trim s in
     if w = ''admin'' then Some AdminRole else if w = ''user'' then Some UserRole else None)"

definition split_role :: "string \<Rightarrow> string \<Rightarrow> local_parse_error + (string \<times> local_role)" where
  "split_role email rest = (case rsplit_once (CHR '':'') rest of
      Some (pw, candidate) \<Rightarrow> (case parse_role candidate of
          Some r \<Rightarrow> Inr (pw, r) | None \<Rightarrow> Inl (InvalidRole email candidate))
    | None \<Rightarrow> Inr (rest, UserRole))"

definition add_entry ::
  "(nat \<Rightarrow> string \<Rightarrow> string option) \<Rightarrow> string \<Rightarrow> local_auth \<Rightarrow> local_parse_error + local_auth" where
  "add_entry hash entry users = (let entry = trim entry in
     if entry = [] then Inl EmptyEntry
     else (case split_once (CHR '':'') entry of
         None \<Rightarrow> Inl (MissingPassword entry)
       | Some (email, rest) \<Rightarrow> (let email = normalize_email email in
           if email = [] \<or> CHR ''@'' \<notin> set email then Inl (NotAnEmail email)
           else rbind (split_role email rest) (\<lambda>(password, r).
             if password = [] then Inl (EmptyPassword email)
             else if map_of users email \<noteq> None then Inl (DuplicateEmail email)
             else (case hash (length users) password of
                 None \<Rightarrow> Inl (InvalidRole email ''<hash-failure>'')
               | Some h \<Rightarrow> Inr (AList.update email \<lparr>cr_hash = h, cr_role = r\<rparr> users))))))"

fun add_entries ::
  "(nat \<Rightarrow> string \<Rightarrow> string option) \<Rightarrow> string list \<Rightarrow> local_auth \<Rightarrow> local_parse_error + local_auth" where
  "add_entries hash [] users = Inr users"
| "add_entries hash (e # es) users = rbind (add_entry hash e users) (add_entries hash es)"

definition local_auth_parse ::
  "(nat \<Rightarrow> string \<Rightarrow> string option) \<Rightarrow> string \<Rightarrow> local_parse_error + local_auth" where
  "local_auth_parse hash txt = (let trimmed = trim txt in
     if trimmed = [] then Inr [] else add_entries hash (split_on (CHR '','') trimmed) [])"

definition has_user :: "local_auth \<Rightarrow> string \<Rightarrow> bool" where
  "has_user users email \<longleftrightarrow> map_of users (normalize_email email) \<noteq> None"

definition role_of :: "local_auth \<Rightarrow> string \<Rightarrow> local_role option" where
  "role_of users email = map_option cr_role (map_of users (normalize_email email))"

definition local_verify ::
  "(string \<Rightarrow> string \<Rightarrow> hash_verdict) \<Rightarrow> local_auth \<Rightarrow> string \<Rightarrow> string \<Rightarrow> verify_error + local_role" where
  "local_verify check users email password = (case map_of users (normalize_email email) of
      None \<Rightarrow> Inl InvalidCredentials
    | Some c \<Rightarrow> (case check password (cr_hash c) of
          HashMatches \<Rightarrow> Inr (cr_role c)
        | HashDiffers \<Rightarrow> Inl InvalidCredentials
        | HashFails m \<Rightarrow> Inl (HashEngine m)))"

section \<open>Trimming text that has no white space at its ends\<close>

definition visible :: "char \<Rightarrow> bool" where
  "visible c \<longleftrightarrow> code c < 128 \<and> \<not> ascii_space c"

lemma if_both: "(if c then x else False) \<Longrightarrow> c \<and> x"
  by (simp split: if_splits)

lemma blank_invisible: "blank s \<Longrightarrow> x \<in> set s \<Longrightarrow> \<not> visible x"
proof (induction s rule: blank.induct)
  case (2 a s)
  show ?case
  proof (cases "ascii_space a")
    case True
    then show ?thesis using 2 by (auto simp: visible_def)
  next
    case False
    obtain b t where s: "s = b # t" using 2(4) False by (cases s) simp_all
    show ?thesis
    proof (cases "code a = 194 \<and> (code b = 133 \<or> code b = 160)")
      case True
      then have "blank t" using 2(4) False s by simp
      then show ?thesis using 2(2)[OF False s True] 2(5) True s by (auto simp: visible_def)
    next
      case no: False
      obtain c u where t: "t = c # u" using 2(4) False s no by (cases t) (simp_all split: if_splits)
      let ?w = "(code a = 225 \<and> code b = 154 \<and> code c = 128)
              \<or> (code a = 226 \<and> code b = 128 \<and> ((128 \<le> code c \<and> code c \<le> 138) \<or> code c \<in> {168, 169, 175}))
              \<or> (code a = 226 \<and> code b = 129 \<and> code c = 159)
              \<or> (code a = 227 \<and> code b = 128 \<and> code c = 128)"
      have "blank (a # s) = (if ?w then blank u else False)"
        unfolding s t blank.simps using False no by (simp only: if_False list.case)
      then have "if ?w then blank u else False" using 2(4) by (rule subst)
      note w = if_both[THEN conjunct1, OF this] if_both[THEN conjunct2, OF this]
      have "128 \<le> code a" "128 \<le> code b" "128 \<le> code c" using w(1) by (elim disjE conjE; simp)+
      then show ?thesis using 2(3)[OF False s no t w] 2(5) s t by (auto simp: visible_def)
    qed
  qed
qed simp

lemma blank_ends_visible: "visible x \<Longrightarrow> \<not> blank (s @ [x])"
  using blank_invisible[of "s @ [x]" x] by auto

lemma trim_visible:
  assumes "s \<noteq> []" "visible (hd s)" "visible (last s)" shows "trim s = s"
proof -
  have e: "trim_end (t @ [x]) = t @ [x]" if "visible x" for t x
    using that
  proof (induction t)
    case (Cons a t)
    then show ?case using blank_ends_visible[of x "a # t"] by (simp del: blank.simps)
  qed (simp add: visible_def)
  obtain a t where s: "s = a # t" using assms(1) by (cases s) simp_all
  have "white_len s = 0"
    using assms(2) s by (auto simp: white_len_def visible_def ascii_not_blank numeral_2_eq_2 numeral_3_eq_3
        simp del: blank.simps)
  then have "trim_start s = s" by (simp add: trim_start.simps)
  moreover have "trim_end s = s" using e[OF assms(3), of "butlast s"] assms(1) by simp
  ultimately show ?thesis by (simp add: trim_def)
qed

lemma rsplit_once_append: "d \<notin> set b \<Longrightarrow> rsplit_once d (a @ d # b) = Some (a, b)"
proof -
  assume d: "d \<notin> set b"
  have "takeWhile (\<lambda>c. c \<noteq> d) (rev b @ d # rev a) = rev b" using d by (subst takeWhile_append2) auto
  moreover have "dropWhile (\<lambda>c. c \<noteq> d) (rev b @ d # rev a) = d # rev a" using d by (subst dropWhile_append2) auto
  ultimately show ?thesis by (simp add: rsplit_once_def)
qed

section \<open>Printing and parsing back\<close>

fun role_text :: "local_role \<Rightarrow> string" where
  "role_text AdminRole = ''admin''"
| "role_text UserRole = ''user''"

definition entry_text :: "string \<times> string \<times> local_role \<Rightarrow> string" where
  "entry_text e = (case e of (email, password, r) \<Rightarrow> email @ '':'' @ password @ '':'' @ role_text r)"

text \<open>An entry an operator can write: an address in lower case, a password without a comma.\<close>

definition writable_entry :: "string \<times> string \<times> local_role \<Rightarrow> bool" where
  "writable_entry e = (case e of (email, password, r) \<Rightarrow>
     email \<noteq> [] \<and> visible (hd email) \<and> visible (last email) \<and> to_lower email = email \<and> CHR ''@'' \<in> set email
     \<and> CHR '':'' \<notin> set email \<and> CHR '','' \<notin> set email \<and> password \<noteq> [] \<and> CHR '','' \<notin> set password)"

lemma role_text_facts:
  "CHR '':'' \<notin> set (role_text r)" "CHR '','' \<notin> set (role_text r)" "role_text r \<noteq> []" "visible (last (role_text r))"
  "parse_role (role_text r) = Some r"
proof -
  have "trim ''admin'' = ''admin''" "trim ''user'' = ''user''" by code_simp+
  then show "parse_role (role_text r) = Some r" by (cases r) (simp_all add: parse_role_def)
qed (cases r; simp add: visible_def ascii_space_def)+

lemma normal_email: "writable_entry (e, p, r) \<Longrightarrow> normalize_email e = e"
  by (simp add: writable_entry_def normalize_email_def trim_visible)

lemma entry_ends:
  assumes "writable_entry e"
  shows "entry_text e \<noteq> []" "visible (hd (entry_text e))" "visible (last (entry_text e))" "CHR '','' \<notin> set (entry_text e)"
  using assms role_text_facts by (cases e; auto simp: entry_text_def writable_entry_def)+

lemma add_entry_run:
  assumes w: "writable_entry (e, p, r)" and new: "map_of users e = None" and h: "hash (length users) p = Some h"
  shows "add_entry hash (entry_text (e, p, r)) users = Inr (AList.update e \<lparr>cr_hash = h, cr_role = r\<rparr> users)"
proof -
  have t: "trim (entry_text (e, p, r)) = entry_text (e, p, r)"
    using entry_ends[OF w] by (intro trim_visible) simp_all
  have "split_once (CHR '':'') (entry_text (e, p, r)) = Some (e, p @ '':'' @ role_text r)"
    using w split_once_append[of "CHR '':''" e] by (simp add: entry_text_def writable_entry_def)
  moreover have "split_role e (p @ '':'' @ role_text r) = Inr (p, r)"
    using rsplit_once_append[OF role_text_facts(1), of p r] role_text_facts(5) by (simp add: split_role_def)
  ultimately show ?thesis
    using w t entry_ends(1)[OF w] normal_email[OF w] new h by (simp add: add_entry_def Let_def writable_entry_def)
qed

definition hashing_ok :: "(nat \<Rightarrow> string \<Rightarrow> string option) \<Rightarrow> (string \<Rightarrow> string \<Rightarrow> hash_verdict) \<Rightarrow> bool" where
  "hashing_ok hash check \<longleftrightarrow>
     (\<forall>n p. \<exists>h. hash n p = Some h \<and> (\<forall>q. check q h = (if q = p then HashMatches else HashDiffers)))"

lemma add_entries_run:
  assumes "hashing_ok hash check"
  shows "\<lbrakk>\<forall>e\<in>set es. writable_entry e; distinct (map fst es); \<forall>e\<in>set es. map_of users (fst e) = None\<rbrakk> \<Longrightarrow>
    \<exists>us. add_entries hash (map entry_text es) users = Inr us
      \<and> (\<forall>(e, p, r)\<in>set es. \<exists>c. map_of us e = Some c \<and> cr_role c = r
           \<and> (\<forall>q. check q (cr_hash c) = (if q = p then HashMatches else HashDiffers)))
      \<and> (\<forall>x. x \<notin> fst ` set es \<longrightarrow> map_of us x = map_of users x)"
proof (induction es arbitrary: users)
  case (Cons en es)
  obtain e p r where en: "en = (e, p, r)" by (cases en)
  obtain h where h: "hash (length users) p = Some h" "\<forall>q. check q h = (if q = p then HashMatches else HashDiffers)"
    using assms unfolding hashing_ok_def by blast
  let ?users = "AList.update e \<lparr>cr_hash = h, cr_role = r\<rparr> users"
  have add: "add_entry hash (entry_text en) users = Inr ?users"
    using add_entry_run[of e p r users hash h] Cons.prems en h(1) by simp
  have pre: "\<forall>e\<in>set es. writable_entry e" "distinct (map fst es)" "\<forall>e\<in>set es. map_of ?users (fst e) = None"
    using Cons.prems en by force+
  obtain us where us: "add_entries hash (map entry_text es) ?users = Inr us"
    "\<forall>(e, p, r)\<in>set es. \<exists>c. map_of us e = Some c \<and> cr_role c = r
           \<and> (\<forall>q. check q (cr_hash c) = (if q = p then HashMatches else HashDiffers))"
    "\<forall>x. x \<notin> fst ` set es \<longrightarrow> map_of us x = map_of ?users x"
    using Cons.IH[OF pre] by blast
  have "map_of us e = Some \<lparr>cr_hash = h, cr_role = r\<rparr>" using us(3) Cons.prems(2) en by simp
  then have "\<forall>(e, p, r)\<in>set (en # es). \<exists>c. map_of us e = Some c \<and> cr_role c = r
           \<and> (\<forall>q. check q (cr_hash c) = (if q = p then HashMatches else HashDiffers))"
    using us(2) h(2) en by simp
  moreover have "\<forall>x. x \<notin> fst ` set (en # es) \<longrightarrow> map_of us x = map_of users x"
    using us(3) en by auto
  ultimately show ?case using us(1) add by simp
qed simp

text \<open>An account list written as \<^theory_text>\<open>email:password:role\<close> entries is read as what it
  says: exactly the listed addresses exist, each with its role, and each accepts exactly its own
  password, colons inside a password included.\<close>

theorem local_auth_roundtrip:
  assumes "hashing_ok hash check" "es \<noteq> []" "\<forall>e\<in>set es. writable_entry e" "distinct (map fst es)"
  shows "\<exists>us. local_auth_parse hash (join '','' (map entry_text es)) = Inr us
    \<and> (\<forall>(e, p, r)\<in>set es. role_of us e = Some r
         \<and> (\<forall>q. local_verify check us e q = (if q = p then Inr r else Inl InvalidCredentials)))
    \<and> (\<forall>x q. normalize_email x \<notin> fst ` set es \<longrightarrow>
         \<not> has_user us x \<and> local_verify check us x q = Inl InvalidCredentials)"
proof -
  let ?txt = "join '','' (map entry_text es)"
  obtain e es' where es: "es = e # es'" using assms(2) by (cases es) auto
  have ends: "?txt \<noteq> [] \<and> visible (hd ?txt) \<and> visible (last ?txt)"
  proof -
    have "\<forall>e\<in>set fs. writable_entry e \<Longrightarrow> fs \<noteq> [] \<Longrightarrow> (let t = join '','' (map entry_text fs) in
        t \<noteq> [] \<and> visible (hd t) \<and> visible (last t))" for fs
    proof (induction fs)
      case (Cons f fs)
      then show ?case using entry_ends[of f]
        by (cases fs) (auto simp: Let_def)
    qed simp
    then show ?thesis using assms(2,3) by (simp add: Let_def)
  qed
  have "split_on (CHR '','') ?txt = map entry_text es"
    using assms(2,3) entry_ends(4) by (intro split_join) auto
  then have parse: "local_auth_parse hash ?txt = add_entries hash (map entry_text es) []"
    using ends trim_visible[of ?txt] by (simp add: local_auth_parse_def Let_def)
  obtain us where us: "add_entries hash (map entry_text es) [] = Inr us"
    "\<forall>(e, p, r)\<in>set es. \<exists>c. map_of us e = Some c \<and> cr_role c = r
           \<and> (\<forall>q. check q (cr_hash c) = (if q = p then HashMatches else HashDiffers))"
    "\<forall>x. x \<notin> fst ` set es \<longrightarrow> map_of us x = None"
    using add_entries_run[OF assms(1,3,4), of "[]"] by auto
  have "role_of us e = Some r \<and> (\<forall>q. local_verify check us e q = (if q = p then Inr r else Inl InvalidCredentials))"
    if h: "(e, p, r) \<in> set es" for e p r
  proof -
    have n: "normalize_email e = e" using assms(3) h normal_email by blast
    obtain c where c: "map_of us e = Some c" "cr_role c = r"
      "\<forall>q. check q (cr_hash c) = (if q = p then HashMatches else HashDiffers)" using bspec[OF us(2) h] by auto
    then show ?thesis by (simp add: role_of_def local_verify_def n)
  qed
  moreover have "\<not> has_user us x \<and> local_verify check us x q = Inl InvalidCredentials"
    if "normalize_email x \<notin> fst ` set es" for x q
    using us(3) that by (simp add: has_user_def local_verify_def)
  ultimately show ?thesis using parse us(1) by auto
qed

theorem local_auth_roundtrip_witness:
  "\<exists>us. local_auth_parse (\<lambda>n p. Some p) ''a@x:p:w:admin,b@x:q:user'' = Inr us
     \<and> local_verify (\<lambda>p h. if p = h then HashMatches else HashDiffers) us ''a@x'' ''p:w'' = Inr AdminRole"
proof -
  have ok: "hashing_ok (\<lambda>n p. Some p) (\<lambda>p h. if p = h then HashMatches else HashDiffers)"
    by (simp add: hashing_ok_def)
  show ?thesis
    using local_auth_roundtrip[OF ok, of "[(''a@x'', ''p:w'', AdminRole), (''b@x'', ''q'', UserRole)]"]
    by (auto simp: writable_entry_def visible_def ascii_space_def to_lower_def lower_def is_upper_def entry_text_def)
qed

text \<open>Without a role at its end, a password with a colon makes the entry an error.\<close>

lemma colon_password_needs_role:
  assumes "parse_role w = None" "CHR '':'' \<notin> set w"
  shows "split_role email (password @ '':'' @ w) = Inl (InvalidRole email w)"
  using assms rsplit_once_append[of "CHR '':''" w password] by (simp add: split_role_def)

end
