(* ===== verification/Identity.thy ===== *)
theory Identity
  imports Local_Auth Filters Dispatch
begin

text \<open>Identities from outside (\<^theory_text>\<open>github_oauth.rs\<close>, \<^theory_text>\<open>oidc.rs\<close>): the configuration of the
  providers, their token and profile requests, the identity assembled from the answers, and the
  rules that admit it.

  The HTTP client, the URL encoder, the decoders serde derives and the debug format of a text are
  parameters (\<^theory_text>\<open>provider_lib\<close>).  \<^theory_text>\<open>send\<close> answers a request with an error text or a status and a
  body; it stands for whatever the provider answers.  A JSON value is a datatype, its objects
  association lists without repeated keys.\<close>

section \<open>JSON values, requests and errors\<close>

datatype json =
    JsNull
  | JsBool bool
  | JsNumber string
  | JsText string
  | JsItems "json list"
  | JsObject "(string \<times> json) list"

fun json_field :: "string \<Rightarrow> json \<Rightarrow> json option" where
  "json_field k (JsObject fs) = map_of fs k"
| "json_field k _ = None"

fun as_text :: "json \<Rightarrow> string option" where
  "as_text (JsText s) = Some s"
| "as_text _ = None"

fun as_bool :: "json \<Rightarrow> bool option" where
  "as_bool (JsBool b) = Some b"
| "as_bool _ = None"

definition text_field :: "string \<Rightarrow> json \<Rightarrow> string option" where
  "text_field k v = Option.bind (json_field k v) as_text"

record outgoing =
  og_method :: string
  og_url :: string
  og_headers :: "(string \<times> string) list"
  og_basic :: "(string \<times> string) option"
  og_body :: string

record github_user =
  gu_id :: nat
  gu_login :: string
  gu_email :: "string option"

record github_email =
  ge_email :: string
  ge_primary :: bool
  ge_verified :: bool

record discovery_doc =
  dd_issuer :: string
  dd_authorization_endpoint :: string
  dd_token_endpoint :: string
  dd_userinfo_endpoint :: "string option"
  dd_auth_methods :: "string list option"

record provider_lib =
  pl_send :: "outgoing \<Rightarrow> string + (nat \<times> bytes)"
  pl_json :: "bytes \<Rightarrow> json option"
  pl_user :: "bytes \<Rightarrow> github_user option"
  pl_emails :: "bytes \<Rightarrow> github_email list option"
  pl_orgs :: "bytes \<Rightarrow> string list option"
  pl_discovery :: "bytes \<Rightarrow> discovery_doc option"
  pl_form :: "(string \<times> string) list \<Rightarrow> string"
  pl_with_query :: "string \<Rightarrow> (string \<times> string) list \<Rightarrow> string option"
  pl_url_host :: "string \<Rightarrow> string option"
  pl_debug :: "string \<Rightarrow> string"

datatype provider_error =
    SendFailed string
  | BadBody
  | BadStatus nat bytes
  | Refused string string
  | NoAccessToken
  | NoSubject
  | IssuerMismatch string string
  | NoUserinfo

datatype config_error =
    HalfConfigured
  | NoAllowRules
  | CredentialsWithoutIssuer
  | NotHttpIssuer string
  | IssuerWithoutCredentials
  | BadAllowAll string
  | RulesBesideAllowAll

definition success_status :: "nat \<Rightarrow> bool" where
  "success_status n \<longleftrightarrow> 200 \<le> n \<and> n \<le> 299"

definition sent :: "provider_lib \<Rightarrow> outgoing \<Rightarrow> provider_error + (nat \<times> bytes)" where
  "sent lib q = (case pl_send lib q of Inl e \<Rightarrow> Inl (SendFailed e) | Inr r \<Rightarrow> Inr r)"

definition body_as :: "(bytes \<Rightarrow> 'a option) \<Rightarrow> bytes \<Rightarrow> provider_error + 'a" where
  "body_as dec b = (case dec b of None \<Rightarrow> Inl BadBody | Some v \<Rightarrow> Inr v)"

definition nonempty :: "string option \<Rightarrow> string option" where
  "nonempty v = (case v of Some s \<Rightarrow> if s = [] then None else Some s | None \<Rightarrow> None)"

definition parse_csv :: "string \<Rightarrow> string list" where
  "parse_csv s = filter (\<lambda>w. w \<noteq> []) (map trim (split_on (CHR '','') s))"

definition listed :: "string list \<Rightarrow> string \<Rightarrow> bool" where
  "listed rules v \<longleftrightarrow> list_ex (\<lambda>u. to_lower u = to_lower v) rules"

section \<open>GitHub\<close>

record github_endpoints =
  authorize_url :: string
  token_url :: string
  api_base_url :: string

definition github_endpoints_default :: github_endpoints where
  "github_endpoints_default = \<lparr>authorize_url = ''https://github.com/login/oauth/authorize'',
     token_url = ''https://github.com/login/oauth/access_token'', api_base_url = ''https://api.github.com''\<rparr>"

record github_config =
  gc_client_id :: string
  gc_client_secret :: string
  gc_allow_users :: "string list"
  gc_allow_orgs :: "string list"
  gc_admin_users :: "string list"
  gc_endpoints :: github_endpoints

record github_env_values =
  gv_client_id :: "string option"
  gv_client_secret :: "string option"
  gv_allow_users :: string
  gv_allow_orgs :: string
  gv_admin_users :: string

definition github_from_env_values :: "github_env_values \<Rightarrow> config_error + github_config option" where
  "github_from_env_values v = (case (nonempty (gv_client_id v), nonempty (gv_client_secret v)) of
      (None, None) \<Rightarrow> Inr None
    | (Some i, Some s) \<Rightarrow>
       (let allow_users = parse_csv (gv_allow_users v); allow_orgs = parse_csv (gv_allow_orgs v) in
        if allow_users = [] \<and> allow_orgs = [] then Inl NoAllowRules
        else Inr (Some \<lparr>gc_client_id = i, gc_client_secret = s, gc_allow_users = allow_users,
          gc_allow_orgs = allow_orgs, gc_admin_users = parse_csv (gv_admin_users v),
          gc_endpoints = github_endpoints_default\<rparr>))
    | _ \<Rightarrow> Inl HalfConfigured)"

text \<open>\<^theory_text>\<open>None\<close> is the panic on an address that is no URL.\<close>

definition github_authorize_url :: "provider_lib \<Rightarrow> github_config \<Rightarrow> string \<Rightarrow> string \<Rightarrow> string option" where
  "github_authorize_url lib c redirect_uri nonce = pl_with_query lib (authorize_url (gc_endpoints c))
     [(''client_id'', gc_client_id c), (''redirect_uri'', redirect_uri), (''state'', nonce),
      (''scope'', ''read:user user:email read:org'')]"

definition form_post :: "string \<Rightarrow> string \<Rightarrow> (string \<times> string) option \<Rightarrow> outgoing" where
  "form_post address body basic = \<lparr>og_method = ''POST'', og_url = address,
     og_headers = [(''accept'', ''application/json''), (''content-type'', ''application/x-www-form-urlencoded'')],
     og_basic = basic, og_body = body\<rparr>"

definition refusal_of :: "json \<Rightarrow> provider_error option" where
  "refusal_of body = (case text_field ''error'' body of
      None \<Rightarrow> None
    | Some err \<Rightarrow> Some (Refused err (case text_field ''error_description'' body of
        Some d \<Rightarrow> d | None \<Rightarrow> ''(no description)'')))"

definition access_token_of :: "json \<Rightarrow> provider_error + string" where
  "access_token_of body = (case text_field ''access_token'' body of
      None \<Rightarrow> Inl NoAccessToken | Some t \<Rightarrow> Inr t)"

definition github_exchange_code :: "provider_lib \<Rightarrow> github_config \<Rightarrow> string \<Rightarrow> string \<Rightarrow> provider_error + string" where
  "github_exchange_code lib c auth_code redirect_uri =
    rbind (sent lib (form_post (token_url (gc_endpoints c))
      (pl_form lib [(''client_id'', gc_client_id c), (''client_secret'', gc_client_secret c),
         (''code'', auth_code), (''redirect_uri'', redirect_uri)]) None)) (\<lambda>(status, b).
    rbind (body_as (pl_json lib) b) (\<lambda>body.
    if \<not> success_status status then Inl (BadStatus status b)
    else (case refusal_of body of Some e \<Rightarrow> Inl e | None \<Rightarrow> access_token_of body)))"

definition github_get_json :: "provider_lib \<Rightarrow> (bytes \<Rightarrow> 'a option) \<Rightarrow> string \<Rightarrow> string \<Rightarrow> provider_error + 'a" where
  "github_get_json lib dec address tok =
    rbind (sent lib \<lparr>og_method = ''GET'', og_url = address,
      og_headers = [(''accept'', ''application/vnd.github+json''), (''authorization'', ''Bearer '' @ tok)],
      og_basic = None, og_body = []\<rparr>) (\<lambda>(status, b).
    if \<not> success_status status then Inl (BadStatus status b) else body_as dec b)"

record github_identity =
  gi_id :: nat
  gi_login :: string
  gi_email :: "string option"
  gi_orgs :: "string list option"

definition assemble :: "github_user \<Rightarrow> github_email list \<Rightarrow> string list option \<Rightarrow> github_identity" where
  "assemble u es orgs = \<lparr>gi_id = gu_id u, gi_login = gu_login u,
     gi_email = (case find (\<lambda>e. ge_primary e \<and> ge_verified e) es of
         Some e \<Rightarrow> Some (ge_email e)
       | None \<Rightarrow> (case find ge_verified es of Some e \<Rightarrow> Some (ge_email e) | None \<Rightarrow> gu_email u)),
     gi_orgs = orgs\<rparr>"

text \<open>The requests run side by side and any failure ends them; the caller treats all failures
  alike.\<close>

definition github_fetch_identity :: "provider_lib \<Rightarrow> github_config \<Rightarrow> string \<Rightarrow> provider_error + github_identity" where
  "github_fetch_identity lib c tok =
    (let base = api_base_url (gc_endpoints c) in
     rbind (github_get_json lib (pl_user lib) (base @ ''/user'') tok) (\<lambda>u.
     rbind (github_get_json lib (pl_emails lib) (base @ ''/user/emails'') tok) (\<lambda>es.
     if gc_allow_orgs c \<noteq> []
     then rmap (\<lambda>orgs. assemble u es (Some orgs)) (github_get_json lib (pl_orgs lib) (base @ ''/user/orgs'') tok)
     else Inr (assemble u es None))))"

record github_denial =
  gd_login :: string
  gd_checked_orgs :: "string list"

definition github_check_allow :: "github_config \<Rightarrow> github_identity \<Rightarrow> github_denial + unit" where
  "github_check_allow c i =
    (if listed (gc_allow_users c) (gi_login i) then Inr ()
     else if (case gi_orgs i of Some orgs \<Rightarrow> list_ex (listed (gc_allow_orgs c)) orgs | None \<Rightarrow> False) then Inr ()
     else Inl \<lparr>gd_login = gi_login i, gd_checked_orgs = (case gi_orgs i of Some orgs \<Rightarrow> orgs | None \<Rightarrow> [])\<rparr>)"

definition github_is_admin :: "github_config \<Rightarrow> string \<Rightarrow> bool" where
  "github_is_admin c login = listed (gc_admin_users c) login"

definition github_denial_text :: "provider_lib \<Rightarrow> github_denial \<Rightarrow> string" where
  "github_denial_text lib d = ''github login '' @ pl_debug lib (gd_login d) @ '' is not on this host's allow-list''
     @ (if gd_checked_orgs d \<noteq> [] then '' (user is in orgs: '' @ join '', '' (gd_checked_orgs d) @ '')'' else [])"

section \<open>OpenID Connect\<close>

record oidc_config =
  ox_issuer :: string
  ox_client_id :: string
  ox_client_secret :: string
  ox_display_name :: string
  ox_allow_all :: bool
  ox_allow_emails :: "string list"
  ox_allow_domains :: "string list"
  ox_allow_groups :: "string list"
  ox_admin_emails :: "string list"
  ox_admin_groups :: "string list"
  ox_groups_claim :: string
  ox_extra_scopes :: "string list"

record oidc_endpoints =
  oe_authorization :: string
  oe_token :: string
  oe_userinfo :: string
  oe_token_auth_basic :: bool

record oidc_provider =
  op_config :: oidc_config
  op_endpoints :: oidc_endpoints

record oidc_env_values =
  ov_issuer :: "string option"
  ov_client_id :: "string option"
  ov_client_secret :: "string option"
  ov_display_name :: "string option"
  ov_allow_all :: "string option"
  ov_allow_emails :: string
  ov_allow_domains :: string
  ov_allow_groups :: string
  ov_admin_emails :: string
  ov_admin_groups :: string
  ov_groups_claim :: "string option"
  ov_extra_scopes :: string

definition parse_allow_all :: "string option \<Rightarrow> config_error + bool" where
  "parse_allow_all v = (case v of
      None \<Rightarrow> Inr False
    | Some s \<Rightarrow> if s = [] then Inr False
        else if eq_ignore_case s ''true'' \<or> s = ''1'' \<or> eq_ignore_case s ''on'' then Inr True
        else Inl (BadAllowAll s))"

definition issuer_host :: "provider_lib \<Rightarrow> string \<Rightarrow> string" where
  "issuer_host lib issuer = (case pl_url_host lib issuer of Some h \<Rightarrow> h | None \<Rightarrow> issuer)"

definition oidc_credentials :: "oidc_env_values \<Rightarrow> config_error + (string \<times> string)" where
  "oidc_credentials v = (case (nonempty (ov_client_id v), nonempty (ov_client_secret v)) of
      (Some i, Some s) \<Rightarrow> Inr (i, s) | _ \<Rightarrow> Inl IssuerWithoutCredentials)"

definition oidc_from_env_values :: "provider_lib \<Rightarrow> oidc_env_values \<Rightarrow> config_error + oidc_config option" where
  "oidc_from_env_values lib v = (case nonempty (ov_issuer v) of
      None \<Rightarrow> if nonempty (ov_client_id v) \<noteq> None \<or> nonempty (ov_client_secret v) \<noteq> None
              then Inl CredentialsWithoutIssuer else Inr None
    | Some given \<Rightarrow>
      if \<not> starts_with ''https://'' given \<and> \<not> starts_with ''http://'' given then Inl (NotHttpIssuer given)
      else (let issuer = trim_slashes given in
       rbind (oidc_credentials v) (\<lambda>(client_id, client_secret).
       rbind (parse_allow_all (ov_allow_all v)) (\<lambda>allow_all.
       (let allow_emails = parse_csv (ov_allow_emails v); allow_domains = parse_csv (ov_allow_domains v);
            allow_groups = parse_csv (ov_allow_groups v);
            has_identity_rules = (allow_emails \<noteq> [] \<or> allow_domains \<noteq> [] \<or> allow_groups \<noteq> []) in
        if allow_all \<and> has_identity_rules then Inl RulesBesideAllowAll
        else if \<not> allow_all \<and> \<not> has_identity_rules then Inl NoAllowRules
        else Inr (Some \<lparr>ox_issuer = issuer, ox_client_id = client_id, ox_client_secret = client_secret,
          ox_display_name = (case nonempty (ov_display_name v) of Some n \<Rightarrow> n | None \<Rightarrow> issuer_host lib issuer),
          ox_allow_all = allow_all, ox_allow_emails = allow_emails, ox_allow_domains = allow_domains,
          ox_allow_groups = allow_groups, ox_admin_emails = parse_csv (ov_admin_emails v),
          ox_admin_groups = parse_csv (ov_admin_groups v),
          ox_groups_claim = (case nonempty (ov_groups_claim v) of Some n \<Rightarrow> n | None \<Rightarrow> ''groups''),
          ox_extra_scopes = parse_csv (ov_extra_scopes v)\<rparr>))))))"

definition discover :: "provider_lib \<Rightarrow> oidc_config \<Rightarrow> provider_error + oidc_provider" where
  "discover lib c =
    rbind (sent lib \<lparr>og_method = ''GET'', og_url = ox_issuer c @ ''/.well-known/openid-configuration'',
      og_headers = [], og_basic = None, og_body = []\<rparr>) (\<lambda>(status, b).
    if \<not> success_status status then Inl (BadStatus status b)
    else rbind (body_as (pl_discovery lib) b) (\<lambda>doc.
      if trim_slashes (dd_issuer doc) \<noteq> ox_issuer c then Inl (IssuerMismatch (ox_issuer c) (dd_issuer doc))
      else (case dd_userinfo_endpoint doc of
          None \<Rightarrow> Inl NoUserinfo
        | Some userinfo \<Rightarrow> Inr \<lparr>op_config = c, op_endpoints =
            \<lparr>oe_authorization = dd_authorization_endpoint doc, oe_token = dd_token_endpoint doc,
             oe_userinfo = userinfo, oe_token_auth_basic = (case dd_auth_methods doc of
               Some methods \<Rightarrow> ''client_secret_basic'' \<in> set methods | None \<Rightarrow> True)\<rparr>\<rparr>)))"

definition oidc_authorize_url :: "provider_lib \<Rightarrow> oidc_provider \<Rightarrow> string \<Rightarrow> string \<Rightarrow> string \<Rightarrow> string option" where
  "oidc_authorize_url lib p redirect_uri nonce challenge =
    pl_with_query lib (oe_authorization (op_endpoints p))
     [(''response_type'', ''code''), (''client_id'', ox_client_id (op_config p)), (''redirect_uri'', redirect_uri),
      (''state'', nonce),
      (''scope'', foldl (\<lambda>scope extra. scope @ '' '' @ extra) ''openid profile email'' (ox_extra_scopes (op_config p))),
      (''code_challenge'', challenge), (''code_challenge_method'', ''S256'')]"

definition oidc_exchange_code :: "provider_lib \<Rightarrow> oidc_provider \<Rightarrow> string \<Rightarrow> string \<Rightarrow> string \<Rightarrow> provider_error + string" where
  "oidc_exchange_code lib p auth_code redirect_uri verifier =
    (let c = op_config p; basic = oe_token_auth_basic (op_endpoints p) in
     rbind (sent lib (form_post (oe_token (op_endpoints p))
       (pl_form lib ([(''grant_type'', ''authorization_code''), (''code'', auth_code),
          (''redirect_uri'', redirect_uri), (''code_verifier'', verifier)]
          @ (if basic then [] else [(''client_id'', ox_client_id c), (''client_secret'', ox_client_secret c)])))
       (if basic then Some (ox_client_id c, ox_client_secret c) else None))) (\<lambda>(status, b).
     rbind (body_as (pl_json lib) b) (\<lambda>body.
     case refusal_of body of
       Some e \<Rightarrow> Inl e
     | None \<Rightarrow> if \<not> success_status status then Inl (BadStatus status b) else access_token_of body)))"

datatype missing_email = NoClaim | BlankClaim | UnverifiedClaim

record oidc_identity =
  oi_subject :: string
  oi_email :: "missing_email + string"
  oi_groups :: "string list"

definition email_of_claims :: "json \<Rightarrow> missing_email + string" where
  "email_of_claims claims =
    (let email_verified = (case Option.bind (json_field ''email_verified'' claims) as_bool of Some b \<Rightarrow> b | None \<Rightarrow> True) in
     case text_field ''email'' claims of
       None \<Rightarrow> Inl NoClaim
     | Some e \<Rightarrow> if trim e = [] then Inl BlankClaim
         else if \<not> email_verified then Inl UnverifiedClaim
         else Inr e)"

definition groups_of_claims :: "string \<Rightarrow> json \<Rightarrow> string list" where
  "groups_of_claims claim claims = (case json_field claim claims of
      Some (JsItems items) \<Rightarrow> List.map_filter as_text items
    | Some (JsText one) \<Rightarrow> [one]
    | _ \<Rightarrow> [])"

definition from_claims :: "string \<Rightarrow> json \<Rightarrow> provider_error + oidc_identity" where
  "from_claims claim claims = (case nonempty (text_field ''sub'' claims) of
      None \<Rightarrow> Inl NoSubject
    | Some subject \<Rightarrow> Inr \<lparr>oi_subject = subject, oi_email = email_of_claims claims,
        oi_groups = groups_of_claims claim claims\<rparr>)"

definition verified_email :: "oidc_identity \<Rightarrow> string option" where
  "verified_email i = (case oi_email i of Inr e \<Rightarrow> Some e | Inl m \<Rightarrow> None)"

definition oidc_fetch_identity :: "provider_lib \<Rightarrow> oidc_provider \<Rightarrow> string \<Rightarrow> provider_error + oidc_identity" where
  "oidc_fetch_identity lib p tok =
    rbind (sent lib \<lparr>og_method = ''GET'', og_url = oe_userinfo (op_endpoints p),
      og_headers = [(''accept'', ''application/json''), (''authorization'', ''Bearer '' @ tok)],
      og_basic = None, og_body = []\<rparr>) (\<lambda>(status, b).
    if \<not> success_status status then Inl (BadStatus status b)
    else rbind (body_as (pl_json lib) b) (from_claims (ox_groups_claim (op_config p))))"

record oidc_denial =
  od_subject :: string
  od_email :: "string option"
  od_groups :: "string list"

definition email_admitted :: "oidc_config \<Rightarrow> string \<Rightarrow> bool" where
  "email_admitted c email \<longleftrightarrow> listed (ox_allow_emails c) email
     \<or> (case rsplit_once (CHR ''@'') (to_lower email) of
          Some (_, domain) \<Rightarrow> list_ex (\<lambda>d. to_lower d = domain) (ox_allow_domains c) | None \<Rightarrow> False)"

definition oidc_check_allow :: "oidc_provider \<Rightarrow> oidc_identity \<Rightarrow> oidc_denial + unit" where
  "oidc_check_allow p i = (let c = op_config p in
    if ox_allow_all c then Inr ()
    else if (case verified_email i of Some email \<Rightarrow> email_admitted c email | None \<Rightarrow> False) then Inr ()
    else if list_ex (listed (ox_allow_groups c)) (oi_groups i) then Inr ()
    else Inl \<lparr>od_subject = oi_subject i, od_email = verified_email i, od_groups = oi_groups i\<rparr>)"

definition oidc_is_admin :: "oidc_provider \<Rightarrow> oidc_identity \<Rightarrow> bool" where
  "oidc_is_admin p i \<longleftrightarrow>
     (case verified_email i of Some email \<Rightarrow> listed (ox_admin_emails (op_config p)) email | None \<Rightarrow> False)
     \<or> list_ex (listed (ox_admin_groups (op_config p))) (oi_groups i)"

definition oidc_denial_text :: "provider_lib \<Rightarrow> oidc_denial \<Rightarrow> string" where
  "oidc_denial_text lib d = ''OIDC subject '' @ pl_debug lib (od_subject d) @ '' is not on this host's allow-list''
     @ (case od_email d of Some e \<Rightarrow> '' (email: '' @ e | None \<Rightarrow> '' (no verified email'')
     @ (if od_groups d = [] then '', no groups)'' else '', groups: '' @ join '', '' (od_groups d) @ '')'')"

definition em_dash :: string where "em_dash = [CHR 0xE2, CHR 0x80, CHR 0x94]"

fun missing_email_text :: "missing_email \<Rightarrow> string" where
  "missing_email_text NoClaim = ''userinfo carried no `email` claim '' @ em_dash @ '' check that the client is granted an `email` scope and that a claim mapping produces it''"
| "missing_email_text BlankClaim = ''the `email` claim was empty '' @ em_dash @ '' this user's record at the IdP has no address''"
| "missing_email_text UnverifiedClaim = ''the IdP marked the address `email_verified: false` '' @ em_dash @ '' it has no verification step it can vouch for on this account''"

section \<open>Who is admitted\<close>

lemma listed_iff: "listed rules v \<longleftrightarrow> to_lower v \<in> to_lower ` set rules"
  by (auto simp: listed_def list_ex_iff image_iff) metis

lemma listed_any: "list_ex (listed rules) vs \<longleftrightarrow> to_lower ` set vs \<inter> to_lower ` set rules \<noteq> {}"
  by (auto simp: list_ex_iff listed_iff)

lemma rsplit_once_Some: "rsplit_once d s = Some (a, b) \<longleftrightarrow> s = a @ d # b \<and> d \<notin> set b"
proof
  assume h: "rsplit_once d s = Some (a, b)"
  then have "d \<in> set s" by (simp add: rsplit_once_def split: if_splits)
  then obtain u v where s: "s = u @ d # v" "d \<notin> set v" by (metis split_list_last)
  then show "s = a @ d # b \<and> d \<notin> set b" using h rsplit_once_append[of d v u] by simp
qed (auto simp: rsplit_once_append)

text \<open>The domain of an address is what follows its last at-sign.\<close>

definition address_domain :: "string \<Rightarrow> string \<Rightarrow> bool" where
  "address_domain email domain \<longleftrightarrow> CHR ''@'' \<notin> set domain \<and> ends_with (CHR ''@'' # domain) email"

lemma domain_of_address:
  "(case rsplit_once (CHR ''@'') e of Some (_, domain) \<Rightarrow> P domain | None \<Rightarrow> False)
     \<longleftrightarrow> (\<exists>domain. address_domain e domain \<and> P domain)"
proof (cases "rsplit_once (CHR ''@'') e")
  case None
  have "\<not> address_domain e domain" for domain
    using None rsplit_once_append[of "CHR ''@''" domain] by (auto simp: address_domain_def ends_with_iff)
  then show ?thesis using None by simp
next
  case (Some p)
  obtain a b where p: "p = (a, b)" by force
  have "address_domain e domain \<longleftrightarrow> domain = b" for domain
  proof
    assume "address_domain e domain"
    then obtain t where "e = t @ CHR ''@'' # domain" "CHR ''@'' \<notin> set domain"
      by (auto simp: address_domain_def ends_with_iff)
    then show "domain = b" using Some p rsplit_once_append[of "CHR ''@''" domain t] by simp
  qed (use Some p in \<open>auto simp: address_domain_def ends_with_iff rsplit_once_Some\<close>)
  then show ?thesis using Some p by simp
qed

lemma email_admitted_iff:
  "email_admitted c email \<longleftrightarrow> to_lower email \<in> to_lower ` set (ox_allow_emails c)
     \<or> (\<exists>domain. address_domain (to_lower email) domain \<and> domain \<in> to_lower ` set (ox_allow_domains c))"
  unfolding email_admitted_def listed_iff domain_of_address list_ex_iff image_iff by (metis (no_types))

text \<open>An OpenID Connect identity is admitted exactly when the issuer's whole user base is, when its verified address is
  listed or lies in a listed domain, or when one of its groups is listed, all without regard to case.\<close>

theorem oidc_admission:
  "oidc_check_allow p i = Inr () \<longleftrightarrow>
     ox_allow_all (op_config p)
   \<or> (\<exists>email. oi_email i = Inr email \<and>
        (to_lower email \<in> to_lower ` set (ox_allow_emails (op_config p))
         \<or> (\<exists>domain. address_domain (to_lower email) domain \<and> domain \<in> to_lower ` set (ox_allow_domains (op_config p)))))
   \<or> to_lower ` set (oi_groups i) \<inter> to_lower ` set (ox_allow_groups (op_config p)) \<noteq> {}"
  by (auto simp: oidc_check_allow_def Let_def listed_any email_admitted_iff[symmetric] verified_email_def
      split: sum.split if_splits)

theorem github_admission:
  "github_check_allow c i = Inr () \<longleftrightarrow>
     to_lower (gi_login i) \<in> to_lower ` set (gc_allow_users c)
   \<or> (\<exists>orgs. gi_orgs i = Some orgs \<and> to_lower ` set orgs \<inter> to_lower ` set (gc_allow_orgs c) \<noteq> {})"
  by (auto simp: github_check_allow_def listed_any listed_iff split: option.split if_splits)

text \<open>An address the provider marks unverified never counts: the identity has no address, whatever the rules.\<close>

lemma unverified_claim_is_no_address:
  assumes "from_claims claim claims = Inr i" "json_field ''email_verified'' claims = Some (JsBool False)"
  shows "verified_email i = None"
  using assms by (auto simp: from_claims_def email_of_claims_def verified_email_def split: option.splits if_splits)

lemma parse_csv_items [simp]: "[] \<notin> set (parse_csv s)"
  by (simp add: parse_csv_def)

lemma nonempty_Some [simp]: "nonempty x = Some y \<longleftrightarrow> x = Some y \<and> y \<noteq> []"
  by (auto simp: nonempty_def split: option.splits)

lemma trim_slashes_end [simp]: "\<not> ends_with ''/'' (trim_slashes x)"
  using hd_dropWhile[of "\<lambda>c. c = CHR ''/''" "rev x"]
  by (auto simp: ends_with_single trim_slashes_def last_rev)

lemma accepted_config:
  assumes "oidc_from_env_values lib v = Inr (Some c)"
  shows "\<exists>given b. ox_issuer c = trim_slashes given
    \<and> oidc_credentials v = Inr (ox_client_id c, ox_client_secret c) \<and> ox_allow_all c = b
    \<and> ox_allow_emails c = parse_csv (ov_allow_emails v) \<and> ox_allow_domains c = parse_csv (ov_allow_domains v)
    \<and> ox_allow_groups c = parse_csv (ov_allow_groups v) \<and> ox_admin_emails c = parse_csv (ov_admin_emails v)
    \<and> ox_admin_groups c = parse_csv (ov_admin_groups v) \<and> ox_groups_claim c \<noteq> []
    \<and> (ox_allow_all c \<longleftrightarrow> ox_allow_emails c = [] \<and> ox_allow_domains c = [] \<and> ox_allow_groups c = [])"
proof -
  obtain given where g: "nonempty (ov_issuer v) = Some given"
    using assms by (auto simp: oidc_from_env_values_def split: option.splits if_splits)
  obtain i k where cr: "oidc_credentials v = Inr (i, k)"
    using assms g by (cases "oidc_credentials v") (auto simp: oidc_from_env_values_def Let_def split: if_splits)
  obtain b where b: "parse_allow_all (ov_allow_all v) = Inr b"
    using assms g cr by (cases "parse_allow_all (ov_allow_all v)") (auto simp: oidc_from_env_values_def Let_def split: if_splits)
  show ?thesis using assms g cr b
    by (simp add: oidc_from_env_values_def Let_def split: if_splits) (auto split: option.splits)
qed

text \<open>A configuration that is accepted has credentials and one intent: either the whole user base or at least one rule,
  and no rule is the empty text.\<close>

theorem accepted_config_states_one_intent:
  assumes "oidc_from_env_values lib v = Inr (Some c)"
  shows "ox_client_id c \<noteq> [] \<and> ox_client_secret c \<noteq> [] \<and> ox_groups_claim c \<noteq> []
    \<and> \<not> ends_with ''/'' (ox_issuer c)
    \<and> (ox_allow_all c \<longleftrightarrow> ox_allow_emails c = [] \<and> ox_allow_domains c = [] \<and> ox_allow_groups c = [])
    \<and> [] \<notin> set (ox_allow_emails c) \<union> set (ox_allow_domains c) \<union> set (ox_allow_groups c)
        \<union> set (ox_admin_emails c) \<union> set (ox_admin_groups c)"
proof -
  have "ox_client_id c \<noteq> [] \<and> ox_client_secret c \<noteq> []"
    using accepted_config[OF assms] by (auto simp: oidc_credentials_def split: option.splits)
  then show ?thesis using accepted_config[OF assms] by auto
qed

lemma accepted_github_has_rules:
  assumes "github_from_env_values v = Inr (Some c)"
  shows "gc_client_id c \<noteq> [] \<and> gc_client_secret c \<noteq> [] \<and> set (gc_allow_users c) \<union> set (gc_allow_orgs c) \<noteq> {}
    \<and> [] \<notin> set (gc_allow_users c) \<union> set (gc_allow_orgs c) \<union> set (gc_admin_users c)"
  using assms by (auto simp: github_from_env_values_def Let_def split: option.splits if_splits)

text \<open>Without a verified entry the address of the profile is taken as it is.\<close>

lemma profile_address_unchecked:
  "list_all (\<lambda>e. \<not> ge_verified e) es \<Longrightarrow> gi_email (assemble u es orgs) = gu_email u"
  by (simp add: assemble_def list_all_iff find_None_iff split: option.split)
    (metis find_Some_iff nth_mem)

end
