(* ===== verification/Login.thy ===== *)
theory Login
  imports Identity Api_Base
begin

text \<open>Browser logins (\<^theory_text>\<open>auth_api.rs\<close>): the login page, the password login, the logout, and
  the two steps of a login at GitHub or at an OpenID Connect provider.

  The draws of a request (random texts, identifiers, clock readings) are an argument.  An address
  is the text it is shown as, \<^theory_text>\<open>le_parse_ip\<close> its parser.  An answer is a text with its status,
  the login page as the data it is rendered from, a redirect with an optional cookie, or a panic.\<close>

section \<open>Environment and answers\<close>

record login_env =
  le_http :: http_lib
  le_auth :: auth_env
  le_sessions :: "session_store option"
  le_local :: local_auth
  le_check :: "string \<Rightarrow> string \<Rightarrow> hash_verdict"
  le_github :: "github_config option"
  le_oidc :: "oidc_provider option"
  le_lib :: provider_lib
  le_state :: "(string \<times> string) codec"
  le_challenge :: "string \<Rightarrow> string"
  le_parse_ip :: "string \<Rightarrow> string option"
  le_trust_forwarded :: bool
  le_secure_cookies :: bool

record login_draw =
  ld_now :: int
  ld_ticks :: ticks
  ld_user_id :: string
  ld_user_now :: int
  ld_token :: string
  ld_session_id :: string
  ld_session_now :: int
  ld_nonce :: string
  ld_verifier :: string

record login_view =
  lv_local_enabled :: bool
  lv_github_enabled :: bool
  lv_oidc_enabled :: bool
  lv_oidc_display_name :: string
  lv_next :: "string option"
  lv_signed_out :: bool

datatype login_reply =
    Plain nat string
  | LoginPage login_view
  | RedirectTo string "string option"
  | LoginPanic

type_synonym headers = "(string \<times> bytes) list"

definition DEFAULT_POST_LOGIN_PATH :: string where "DEFAULT_POST_LOGIN_PATH = ''/ui/''"
definition OAUTH_STATE_TTL_SECONDS :: nat where "OAUTH_STATE_TTL_SECONDS = 600"

definition on_host :: "string \<Rightarrow> bool" where
  "on_host n \<longleftrightarrow> starts_with ''/'' n \<and> \<not> starts_with ''//'' n \<and> CHR 0x5C \<notin> set n
     \<and> list_all (\<lambda>b. 32 \<le> code b \<and> code b \<le> 126) n"

definition sanitize_next :: "string option \<Rightarrow> string option" where
  "sanitize_next n = (case n of Some t \<Rightarrow> if on_host t then Some t else None | None \<Rightarrow> None)"

definition safe_next :: "string option \<Rightarrow> string" where
  "safe_next n = (case sanitize_next n of Some t \<Rightarrow> t | None \<Rightarrow> DEFAULT_POST_LOGIN_PATH)"

text \<open>A redirect whose target is no header value answers 500; a cookie that is none panics.\<close>

definition login_redirect :: "string \<Rightarrow> login_reply" where
  "login_redirect target = (if list_all (\<lambda>b. (32 \<le> code b \<and> code b \<noteq> 127) \<or> code b = 9) target
     then RedirectTo target None else Plain 500 ''failed to parse header value'')"

definition with_cookie :: "string \<Rightarrow> login_reply \<Rightarrow> login_reply" where
  "with_cookie c r = (if list_all (\<lambda>b. (32 \<le> code b \<and> code b < 127) \<or> code b = 9) c
     then (case r of RedirectTo target _ \<Rightarrow> RedirectTo target (Some c) | _ \<Rightarrow> r) else LoginPanic)"

definition format_set_cookie :: "string \<Rightarrow> nat \<Rightarrow> bool \<Rightarrow> string" where
  "format_set_cookie given max_age secure = COOKIE_NAME @ ''='' @ given
     @ ''; Path=/; HttpOnly; SameSite=Lax; Max-Age='' @ show_nat max_age @ (if secure then ''; Secure'' else [])"

definition format_clear_cookie :: "bool \<Rightarrow> string" where
  "format_clear_cookie secure = COOKIE_NAME @ ''=; Path=/; HttpOnly; SameSite=Lax; Max-Age=0''
     @ (if secure then ''; Secure'' else [])"

definition parse_session_cookie :: "http_lib \<Rightarrow> headers \<Rightarrow> string option" where
  "parse_session_cookie lib hs = pick_session_cookie lib hs"

definition client_ip :: "login_env \<Rightarrow> headers \<Rightarrow> string" where
  "client_ip env hs =
    (case (if le_trust_forwarded env then Option.bind (map_of hs ''x-forwarded-for'') (ht_to_str (le_http env)) else None) of
       Some given \<Rightarrow> (case le_parse_ip env (trim (hd (split_on (CHR '','') given))) of
           Some ip \<Rightarrow> ip | None \<Rightarrow> ''127.0.0.1'')
     | None \<Rightarrow> ''127.0.0.1'')"

definition user_agent :: "login_env \<Rightarrow> headers \<Rightarrow> string" where
  "user_agent env hs = (case Option.bind (map_of hs ''user-agent'') (ht_to_str (le_http env)) of Some t \<Rightarrow> t | None \<Rightarrow> [])"

definition derive_redirect_uri :: "login_env \<Rightarrow> headers \<Rightarrow> string" where
  "derive_redirect_uri env hs = public_base_url (le_http env) hs (le_trust_forwarded env) @ ''/auth/callback''"

definition derive_oidc_redirect_uri :: "login_env \<Rightarrow> headers \<Rightarrow> string" where
  "derive_oidc_redirect_uri env hs = public_base_url (le_http env) hs (le_trust_forwarded env) @ ''/auth/callback/oidc''"

section \<open>Page, password and logout\<close>

definition login_page :: "login_env \<Rightarrow> string option \<Rightarrow> string option \<Rightarrow> login_reply" where
  "login_page env nxt signed_out = LoginPage
    \<lparr>lv_local_enabled = le_local env \<noteq> [], lv_github_enabled = le_github env \<noteq> None,
     lv_oidc_enabled = le_oidc env \<noteq> None,
     lv_oidc_display_name = (case le_oidc env of Some p \<Rightarrow> ox_display_name (op_config p) | None \<Rightarrow> []),
     lv_next = sanitize_next nxt, lv_signed_out = signed_out \<noteq> None\<rparr>"

record login_form =
  lf_email :: string
  lf_password :: string
  lf_next :: "string option"

text \<open>The last steps of every login: the session and the redirect that carries its cookie.\<close>

definition mint_session :: "login_env \<Rightarrow> session_store \<Rightarrow> headers \<Rightarrow> login_draw \<Rightarrow> user \<Rightarrow> string \<Rightarrow> string
    \<Rightarrow> string \<Rightarrow> mem_store \<Rightarrow> login_reply \<times> mem_store" where
  "mint_session env ss hs d u provider failure nxt s =
    (case session_create ss (ld_token d) (ld_session_id d) (ld_session_now d) (us_id u) provider
        (client_ip env hs) (user_agent env hs) (us_session_epoch u) s of
       (Inl e, s') \<Rightarrow> (Plain 500 failure, s')
     | (Inr (_, cookie), s') \<Rightarrow>
        (with_cookie (format_set_cookie cookie (ttl_seconds ss) (le_secure_cookies env)) (login_redirect nxt), s'))"

definition password_login :: "login_env \<Rightarrow> headers \<Rightarrow> login_draw \<Rightarrow> login_form \<Rightarrow> mem_store \<Rightarrow> login_reply \<times> mem_store" where
  "password_login env hs d form s =
    (let ip = client_ip env hs; tc = au_time (le_auth env) in
     case le_sessions env of
       None \<Rightarrow> (Plain 503 ''session store not configured; set SESSION_SECRET'', s)
     | Some ss \<Rightarrow>
       if le_local env = [] then (Plain 503 ''local auth not configured; set WM_LOCAL_AUTH'', s)
       else if is_locked_out tc (ld_now d) ip s then (Plain 429 ''too many failed attempts'', s)
       else (case local_verify (le_check env) (le_local env) (lf_email form) (lf_password form) of
           Inl InvalidCredentials \<Rightarrow> (Plain 401 ''login failed'', snd (record_failure tc (ld_ticks d) ip s))
         | Inl (HashEngine m) \<Rightarrow> (Plain 500 ''login failed'', s)
         | Inr r \<Rightarrow>
           (case upsert_local_user (le_auth env) (ld_user_id d) (ld_user_now d) (lf_email form) (r = AdminRole)
               (record_success ip s) of
              (Inl e, s') \<Rightarrow> (Plain 500 ''login failed'', s')
            | (Inr u, s') \<Rightarrow> mint_session env ss hs d u ''local'' ''login failed'' (safe_next (lf_next form)) s')))"

definition logout :: "login_env \<Rightarrow> headers \<Rightarrow> mem_store \<Rightarrow> login_reply \<times> mem_store" where
  "logout env hs s =
    (with_cookie (format_clear_cookie (le_secure_cookies env)) (login_redirect ''/auth/login?signed_out=1''),
     (case (le_sessions env, parse_session_cookie (le_http env) hs) of
        (Some ss, Some cookie) \<Rightarrow> snd (delete_by_cookie cookie s)
      | _ \<Rightarrow> s))"

section \<open>The state of a login in flight\<close>

definition oauth_state_key :: "string \<Rightarrow> string" where "oauth_state_key nonce = ''oauth_state:'' @ nonce"
definition oidc_state_key :: "string \<Rightarrow> string" where "oidc_state_key nonce = ''oidc_state:'' @ nonce"

datatype state_error = StateNotFound | StateStorage store_error

definition consume_oauth_state :: "string \<Rightarrow> (mem_store, state_error, string) io" where
  "consume_oauth_state nonce =
    bind_io (map_err StateStorage (bucket_get admin_bucket (oauth_state_key nonce))) (\<lambda>v. case v of
      None \<Rightarrow> raise StateNotFound
    | Some b \<Rightarrow> (let nxt = (if valid_utf8 b then b else ''/ui/'') in
        seq_io (ignore_err (bucket_delete admin_bucket (oauth_state_key nonce))) (ret (safe_next (Some nxt)))))"

definition consume_oidc_state :: "login_env \<Rightarrow> string \<Rightarrow> (mem_store, state_error, string \<times> string) io" where
  "consume_oidc_state env nonce =
    bind_io (map_err StateStorage (bucket_get admin_bucket (oidc_state_key nonce))) (\<lambda>v. case v of
      None \<Rightarrow> raise StateNotFound
    | Some b \<Rightarrow> seq_io (ignore_err (bucket_delete admin_bucket (oidc_state_key nonce)))
        (case decode (le_state env) b of
           None \<Rightarrow> raise StateNotFound
         | Some (nxt, verifier) \<Rightarrow> ret (safe_next (Some nxt), verifier)))"

record callback_query =
  cq_code :: "string option"
  cq_state :: "string option"
  cq_error :: "string option"
  cq_error_description :: "string option"

section \<open>GitHub\<close>

definition panicking :: "string option \<Rightarrow> login_reply" where
  "panicking target = (case target of Some t \<Rightarrow> login_redirect t | None \<Rightarrow> LoginPanic)"

definition start_github :: "login_env \<Rightarrow> headers \<Rightarrow> login_draw \<Rightarrow> string option \<Rightarrow> mem_store \<Rightarrow> login_reply \<times> mem_store" where
  "start_github env hs d nxt s = (case le_github env of
      None \<Rightarrow> (Plain 503 ''GitHub login not configured; set WM_GITHUB_CLIENT_ID and WM_GITHUB_CLIENT_SECRET'', s)
    | Some c \<Rightarrow>
      (case bucket_set_with_ttl admin_bucket (oauth_state_key (ld_nonce d)) (safe_next nxt) OAUTH_STATE_TTL_SECONDS s of
         (Inl e, s') \<Rightarrow> (Plain 500 ''internal error'', s')
       | (Inr _, s') \<Rightarrow> (panicking (github_authorize_url (le_lib env) c (derive_redirect_uri env hs) (ld_nonce d)), s')))"

definition github_identity_of :: "login_env \<Rightarrow> github_config \<Rightarrow> headers \<Rightarrow> string \<Rightarrow> login_reply + github_identity" where
  "github_identity_of env c hs auth_code =
    (case github_exchange_code (le_lib env) c auth_code (derive_redirect_uri env hs) of
       Inl e \<Rightarrow> Inl (Plain 401 ''GitHub login failed (code exchange)'')
     | Inr tok \<Rightarrow> (case github_fetch_identity (le_lib env) c tok of
         Inl e \<Rightarrow> Inl (Plain 401 ''GitHub login failed (identity fetch)'')
       | Inr i \<Rightarrow> (case github_check_allow c i of
           Inl deny \<Rightarrow> Inl (Plain 403 (github_denial_text (le_lib env) deny))
         | Inr _ \<Rightarrow> Inr i)))"

definition finish_login :: "login_env \<Rightarrow> session_store \<Rightarrow> headers \<Rightarrow> login_draw \<Rightarrow> string \<Rightarrow> string \<Rightarrow> string
    \<Rightarrow> bool \<Rightarrow> string \<Rightarrow> mem_store \<Rightarrow> login_reply \<times> mem_store" where
  "finish_login env ss hs d provider subject email is_admin nxt s =
    (case upsert_oauth_user (le_auth env) (ld_user_id d) (ld_user_now d) provider subject email is_admin s of
       (Inl e, s') \<Rightarrow> (Plain 500 ''internal error (user upsert)'', s')
     | (Inr u, s') \<Rightarrow> mint_session env ss hs d u provider ''internal error (session mint)'' nxt s')"

definition callback_state :: "callback_query \<Rightarrow> string \<Rightarrow> login_reply + (string \<times> string)" where
  "callback_state q provider_name = (case cq_error q of
      Some err \<Rightarrow> Inl (Plain 401 (provider_name @ '' login failed: '' @ err @ '' (''
        @ (case cq_error_description q of Some t \<Rightarrow> t | None \<Rightarrow> []) @ '')''))
    | None \<Rightarrow> (case cq_code q of
        None \<Rightarrow> Inl (Plain 400 ''missing `code` parameter'')
      | Some auth_code \<Rightarrow> (case cq_state q of
          None \<Rightarrow> Inl (Plain 400 ''missing `state` parameter'')
        | Some nonce \<Rightarrow> Inr (auth_code, nonce))))"

definition state_reply :: "state_error \<Rightarrow> login_reply" where
  "state_reply e = (case e of
      StateNotFound \<Rightarrow> Plain 400 ''invalid or expired `state` parameter; restart the login flow''
    | StateStorage _ \<Rightarrow> Plain 500 ''internal error'')"

definition github_callback :: "login_env \<Rightarrow> headers \<Rightarrow> login_draw \<Rightarrow> callback_query \<Rightarrow> mem_store \<Rightarrow> login_reply \<times> mem_store" where
  "github_callback env hs d q s = (case le_github env of
      None \<Rightarrow> (Plain 503 ''GitHub login not configured'', s)
    | Some c \<Rightarrow> (case callback_state q ''GitHub'' of
        Inl r \<Rightarrow> (r, s)
      | Inr (auth_code, nonce) \<Rightarrow> (case consume_oauth_state nonce s of
          (Inl e, s') \<Rightarrow> (state_reply e, s')
        | (Inr nxt, s') \<Rightarrow> (case le_sessions env of
            None \<Rightarrow> (Plain 503 ''session store not configured; set SESSION_SECRET'', s')
          | Some ss \<Rightarrow> (case github_identity_of env c hs auth_code of
              Inl r \<Rightarrow> (r, s')
            | Inr i \<Rightarrow> (case gi_email i of
                None \<Rightarrow> (Plain 401 ''GitHub login failed: your GitHub account exposes no verified email, and WireMirage accounts are keyed by email. Verify an email address on GitHub and retry.'', s')
              | Some email \<Rightarrow> finish_login env ss hs d ''github'' (show_nat (gi_id i)) email
                  (github_is_admin c (gi_login i)) nxt s'))))))"

section \<open>OpenID Connect\<close>

definition start_oidc :: "login_env \<Rightarrow> headers \<Rightarrow> login_draw \<Rightarrow> string option \<Rightarrow> mem_store \<Rightarrow> login_reply \<times> mem_store" where
  "start_oidc env hs d nxt s = (case le_oidc env of
      None \<Rightarrow> (Plain 503 ''OIDC login not configured; set WM_OIDC_ISSUER, WM_OIDC_CLIENT_ID, and WM_OIDC_CLIENT_SECRET'', s)
    | Some p \<Rightarrow> (case encode (le_state env) (safe_next nxt, ld_verifier d) of
        None \<Rightarrow> (LoginPanic, s)
      | Some b \<Rightarrow>
        (case bucket_set_with_ttl admin_bucket (oidc_state_key (ld_nonce d)) b OAUTH_STATE_TTL_SECONDS s of
           (Inl e, s') \<Rightarrow> (Plain 500 ''internal error'', s')
         | (Inr _, s') \<Rightarrow> (panicking (oidc_authorize_url (le_lib env) p (derive_oidc_redirect_uri env hs)
              (ld_nonce d) (le_challenge env (ld_verifier d))), s'))))"

definition oidc_identity_of :: "login_env \<Rightarrow> oidc_provider \<Rightarrow> headers \<Rightarrow> string \<Rightarrow> string \<Rightarrow> login_reply + oidc_identity" where
  "oidc_identity_of env p hs auth_code verifier =
    (case oidc_exchange_code (le_lib env) p auth_code (derive_oidc_redirect_uri env hs) verifier of
       Inl e \<Rightarrow> Inl (Plain 401 ''OIDC login failed (code exchange)'')
     | Inr tok \<Rightarrow> (case oidc_fetch_identity (le_lib env) p tok of
         Inl e \<Rightarrow> Inl (Plain 401 ''OIDC login failed (identity fetch)'')
       | Inr i \<Rightarrow> (case oidc_check_allow p i of
           Inl deny \<Rightarrow> Inl (Plain 403 (oidc_denial_text (le_lib env) deny))
         | Inr _ \<Rightarrow> Inr i)))"

definition oidc_callback :: "login_env \<Rightarrow> headers \<Rightarrow> login_draw \<Rightarrow> callback_query \<Rightarrow> mem_store \<Rightarrow> login_reply \<times> mem_store" where
  "oidc_callback env hs d q s = (case le_oidc env of
      None \<Rightarrow> (Plain 503 ''OIDC login not configured'', s)
    | Some p \<Rightarrow> (case callback_state q ''OIDC'' of
        Inl r \<Rightarrow> (r, s)
      | Inr (auth_code, nonce) \<Rightarrow> (case consume_oidc_state env nonce s of
          (Inl e, s') \<Rightarrow> (state_reply e, s')
        | (Inr (nxt, verifier), s') \<Rightarrow> (case le_sessions env of
            None \<Rightarrow> (Plain 503 ''session store not configured; set SESSION_SECRET'', s')
          | Some ss \<Rightarrow> (case oidc_identity_of env p hs auth_code verifier of
              Inl r \<Rightarrow> (r, s')
            | Inr i \<Rightarrow> (case oi_email i of
                Inl cause \<Rightarrow> (Plain 401 (''OIDC login failed: the IdP returned no verified `email` claim, and WireMirage accounts are keyed by email. Specifically: ''
                    @ missing_email_text cause @ ''.''), s')
              | Inr email \<Rightarrow> finish_login env ss hs d ''oidc'' (oi_subject i) email (oidc_is_admin p i) nxt s'))))))"

section \<open>The endpoints\<close>

datatype login_request =
    ShowLogin "string option" "string option"
  | PasswordLogin login_form
  | LogOut
  | StartGithub "string option"
  | GithubCallback callback_query
  | StartOidc "string option"
  | OidcCallback callback_query

fun login_call :: "login_env \<Rightarrow> headers \<Rightarrow> login_draw \<Rightarrow> login_request \<Rightarrow> mem_store \<Rightarrow> login_reply \<times> mem_store" where
  "login_call env hs d (ShowLogin nxt signed_out) s = (login_page env nxt signed_out, s)"
| "login_call env hs d (PasswordLogin form) s = password_login env hs d form s"
| "login_call env hs d LogOut s = logout env hs s"
| "login_call env hs d (StartGithub nxt) s = start_github env hs d nxt s"
| "login_call env hs d (GithubCallback q) s = github_callback env hs d q s"
| "login_call env hs d (StartOidc nxt) s = start_oidc env hs d nxt s"
| "login_call env hs d (OidcCallback q) s = oidc_callback env hs d q s"

section \<open>Redirects\<close>

text \<open>What keeps a browser on the host: a slash, no second slash or backslash after it, and printable ASCII.\<close>

definition stays_local :: "string \<Rightarrow> bool" where
  "stays_local t \<longleftrightarrow> (case t of [] \<Rightarrow> False
     | c # cs \<Rightarrow> c = CHR ''/'' \<and> (cs = [] \<or> hd cs \<noteq> CHR ''/'' \<and> hd cs \<noteq> CHR 0x5C)
         \<and> list_all (\<lambda>b. 32 \<le> code b \<and> code b \<le> 126) cs)"

lemma on_host_local: "on_host t \<Longrightarrow> stays_local t"
  by (cases t; cases "tl t") (auto simp: on_host_def stays_local_def starts_with_iff)

lemma safe_next_local [simp]: "stays_local (safe_next n)"
proof -
  have "stays_local DEFAULT_POST_LOGIN_PATH" by (simp add: DEFAULT_POST_LOGIN_PATH_def stays_local_def)
  then show ?thesis by (simp add: safe_next_def sanitize_next_def on_host_local split: option.split)
qed

lemma redirect_parts:
  "login_redirect t = RedirectTo target c \<Longrightarrow> target = t \<and> c = None"
  "with_cookie k r = RedirectTo target c \<Longrightarrow> (\<exists>k'. r = RedirectTo target k') \<and> c = Some k"
  by (auto simp: login_redirect_def with_cookie_def split: if_splits login_reply.splits)

lemma mint_target: "mint_session env ss hs d u pr fail nxt s = (RedirectTo target c, s') \<Longrightarrow> target = nxt \<and> c \<noteq> None"
  by (auto simp: mint_session_def split: prod.splits sum.splits dest!: redirect_parts)

lemma finish_target: "finish_login env ss hs d pr sub e a nxt s = (RedirectTo target c, s') \<Longrightarrow> target = nxt \<and> c \<noteq> None"
  by (auto simp: finish_login_def split: prod.splits sum.splits dest: mint_target)

lemma consumed_oauth_state:
  "consume_oauth_state nonce s = (case bytes_at s (oauth_state_key nonce) of
      None \<Rightarrow> (Inl (StateStorage (WrongType (oauth_state_key nonce) (value_kind (the (map_of s (oauth_state_key nonce)))) ''bytes'')), s)
    | Some None \<Rightarrow> (Inl StateNotFound, s)
    | Some (Some b) \<Rightarrow> (Inr (safe_next (Some (if valid_utf8 b then b else ''/ui/''))), AList.delete (oauth_state_key nonce) s))"
  by (simp add: consume_oauth_state_def bind_io_def map_err_run admin_get raise_def seq_io_def ignore_err_def
      admin_delete ret_def Let_def split: option.split)

lemma consumed_oidc_state:
  "consume_oidc_state env nonce s = (case bytes_at s (oidc_state_key nonce) of
      None \<Rightarrow> (Inl (StateStorage (WrongType (oidc_state_key nonce) (value_kind (the (map_of s (oidc_state_key nonce)))) ''bytes'')), s)
    | Some None \<Rightarrow> (Inl StateNotFound, s)
    | Some (Some b) \<Rightarrow> ((case decode (le_state env) b of None \<Rightarrow> Inl StateNotFound
        | Some (nxt, verifier) \<Rightarrow> Inr (safe_next (Some nxt), verifier)), AList.delete (oidc_state_key nonce) s))"
  by (simp add: consume_oidc_state_def bind_io_def map_err_run admin_get raise_def seq_io_def ignore_err_def
      admin_delete ret_def split: option.split)

lemma state_reply_target [simp]: "state_reply e \<noteq> RedirectTo target c"
  by (simp add: state_reply_def split: state_error.split)

lemma callback_state_target [simp]: "callback_state q n \<noteq> Inl (RedirectTo target c)"
  by (simp add: callback_state_def split: option.split)

lemma identity_target [simp]:
  "github_identity_of env g hs k \<noteq> Inl (RedirectTo target c)" "oidc_identity_of env p hs k v \<noteq> Inl (RedirectTo target c)"
  by (simp_all add: github_identity_of_def oidc_identity_of_def split: sum.split)

lemma callback_targets:
  "github_callback env hs d q s = (RedirectTo target c, s') \<Longrightarrow> stays_local target \<and> c \<noteq> None"
  "oidc_callback env hs d q s = (RedirectTo target c, s') \<Longrightarrow> stays_local target \<and> c \<noteq> None"
  by (auto simp: github_callback_def oidc_callback_def consumed_oauth_state consumed_oidc_state
      split: option.splits sum.splits prod.splits dest!: finish_target)

text \<open>C9: A login never sends the browser to another host.  The target of every redirect is a path
  of this host in printable ASCII, whatever the link, the form or the stored state says; the one
  exception is the start of an external login, which goes to the address of the configured
  provider and sets no cookie.\<close>

theorem redirects_stay_on_host:
  assumes "login_call env hs d q s = (RedirectTo target c, s')"
  shows "case q of
      StartGithub nxt \<Rightarrow> (\<exists>g. le_github env = Some g \<and> c = None
        \<and> github_authorize_url (le_lib env) g (derive_redirect_uri env hs) (ld_nonce d) = Some target)
    | StartOidc nxt \<Rightarrow> (\<exists>p. le_oidc env = Some p \<and> c = None
        \<and> oidc_authorize_url (le_lib env) p (derive_oidc_redirect_uri env hs) (ld_nonce d) (le_challenge env (ld_verifier d)) = Some target)
    | _ \<Rightarrow> stays_local target \<and> c \<noteq> None"
proof (cases q)
  case (ShowLogin nxt out)
  then show ?thesis using assms by (simp add: login_page_def)
next
  case (PasswordLogin form)
  then show ?thesis using assms
    by (auto simp: password_login_def Let_def split: option.splits if_splits sum.splits verify_error.splits prod.splits
        dest!: mint_target)
next
  case LogOut
  have "stays_local ''/auth/login?signed_out=1''" by (simp add: stays_local_def)
  then show ?thesis using LogOut assms by (auto simp: logout_def dest!: redirect_parts)
next
  case (StartGithub nxt)
  then show ?thesis using assms
    by (auto simp: start_github_def panicking_def split: option.splits prod.splits sum.splits dest!: redirect_parts)
next
  case (StartOidc nxt)
  then show ?thesis using assms
    by (auto simp: start_oidc_def panicking_def split: option.splits prod.splits sum.splits dest!: redirect_parts)
qed (use assms callback_targets in \<open>auto dest: callback_targets\<close>)

section \<open>What a login writes\<close>

lemma keeps_accounts:
  assumes "\<not> starts_with ''user:'' k"
  shows "keeps k (upsert_local_user aenv i now email b)" "keeps k (upsert_oauth_user aenv i now provider subject email b)"
proof -
  have ne: "k \<noteq> user_key j" "k \<noteq> user_all" "k \<noteq> by_email_key e" "k \<noteq> by_identity_key p n" "k \<noteq> legacy_name_key n" for j e p n
    using assms by (auto simp: user_key_def user_all_def by_email_key_def by_identity_key_def legacy_name_key_def)
  have absent: "keeps k (bucket_set_if_absent admin_bucket key v)" if "k \<noteq> key" for key v
  proof -
    have "keeps k (\<lambda>s. (Inr (), mem_set key v s))" using that by (simp add: keeps_def mem_set_def)
    then show ?thesis unfolding bucket_set_if_absent_def by (auto intro!: keeps_intros simp: admin_bucket_def)
  qed
  have own: "keeps k (bucket_set admin_bucket key v)" "keeps k (bucket_hash_set admin_bucket key f v)"
    "keeps k (bucket_set_add admin_bucket key v)" "keeps k (bucket_delete admin_bucket key)"
    "keeps k (bucket_hash_delete admin_bucket key f)" if "k \<noteq> key" for key f v
    using that by (auto intro!: keeps_write keeps_admin_write simp: admin_bucket_def)
  note go = keeps_intros own absent ne keeps_find
  have sync: "keeps k (sync_admin u b)" for u unfolding sync_admin_def by (intro go)
  have heal: "keeps k (backfill_email aenv e u)" for e u unfolding backfill_email_def by (intro go)
  have new: "keeps k (write_new_user aenv i now e b)" for e
    unfolding write_new_user_def Let_def by (auto intro!: keeps_intros absent keeps_find simp: ne admin_bucket_def)
  have link: "keeps k (link_or_create aenv i now key e b)" if "k \<noteq> key" for key e
    unfolding link_or_create_def by (intro go sync new that)
  show "keeps k (upsert_local_user aenv i now email b)"
    unfolding upsert_local_user_def Let_def by (intro go sync new)
  show "keeps k (upsert_oauth_user aenv i now provider subject email b)"
    unfolding upsert_oauth_user_def Let_def index_id_def by (intro go sync heal link)
qed

lemma throttle_frame:
  assumes "\<not> starts_with ''throttle:'' k"
  shows "map_of (snd (record_failure tc tk ip s)) k = map_of s k" "map_of (record_success ip s) k = map_of s k"
proof -
  have ne: "k \<noteq> fails_key ip" "k \<noteq> window_key ip" "k \<noteq> lock_key ip"
    using assms by (auto simp: fails_key_def window_key_def lock_key_def)
  show "map_of (record_success ip s) k = map_of s k"
    using ne by (simp add: record_success_def admin_delete)
  have acq: "map_of (snd (or_else False (bucket_try_acquire_lease tc t0 t1 admin_bucket key n) t)) k = map_of t k"
    if "k \<noteq> key" for t0 t1 key n t
  proof -
    have "keeps k (\<lambda>s. (Inr (), mem_set key v s))" for v using that by (simp add: keeps_def mem_set_def)
    then have "keeps k (bucket_try_acquire_lease tc t0 t1 admin_bucket key n)"
      unfolding bucket_try_acquire_lease_def Let_def by (auto intro!: keeps_intros simp: admin_bucket_def)
    from keeps_snd[OF this, of t] show ?thesis
      by (cases "bucket_try_acquire_lease tc t0 t1 admin_bucket key n t"; cases "fst (bucket_try_acquire_lease tc t0 t1 admin_bucket key n t)")
        (simp_all add: or_else_def)
  qed
  have cnt: "map_of (snd (count_failure b ip t)) k = map_of t k" for b t
  proof -
    have "keeps k (count_failure b ip)"
      unfolding count_failure_def using ne by (auto intro!: keeps_intros simp: admin_bucket_def)
    then show ?thesis by (rule keeps_snd)
  qed
  obtain f s1 where 1: "or_else False (bucket_try_acquire_lease tc (window_start tk) (window_check tk)
      admin_bucket (window_key ip) WINDOW_SECONDS) s = (f, s1)" by force
  obtain c s2 where 2: "count_failure f ip s1 = (c, s2)" by force
  obtain l s4 where 4: "or_else False (bucket_try_acquire_lease tc (lock_start tk) (lock_check tk)
      admin_bucket (lock_key ip) LOCKOUT_SECONDS) s2 = (l, s4)" by force
  have s2: "map_of s2 k = map_of s k"
    using acq[OF ne(2), of "window_start tk" "window_check tk" WINDOW_SECONDS s] cnt[of f s1] 1 2 by simp
  have s4: "map_of s4 k = map_of s k"
    using acq[OF ne(3), of "lock_start tk" "lock_check tk" LOCKOUT_SECONDS s2] 4 s2 by simp
  show "map_of (snd (record_failure tc tk ip s)) k = map_of s k"
    using 1 2 4 s2 s4 ne
    by (cases c) (simp_all add: record_failure_def Let_def bucket_set_ttl_def admin_delete)
qed


lemma session_key_other: "\<not> starts_with ''user:'' (session_key t)" "\<not> starts_with ''throttle:'' (session_key t)"
  "session_key t \<noteq> oauth_state_key n" "session_key t \<noteq> oidc_state_key n"
  by (simp_all add: session_key_def oauth_state_key_def oidc_state_key_def)

lemma mint_writes:
  assumes "mint_session env ss hs d u pr fail nxt s = (r, s')" "k \<noteq> session_key (ld_token d)"
  shows "map_of s' k = map_of s k"
  using assms
  by (auto simp: mint_session_def session_create_def Let_def seq_io_def bind_io_def ret_def session_write_def raise_def
      map_err_run bucket_set_with_ttl_def admin_set split: option.splits)

lemma finish_writes:
  assumes "finish_login env ss hs d pr sub email a nxt s = (r, s')" "k \<noteq> session_key (ld_token d)" "\<not> starts_with ''user:'' k"
  shows "map_of s' k = map_of s k"
proof -
  obtain x s1 where u: "upsert_oauth_user (le_auth env) (ld_user_id d) (ld_user_now d) pr sub email a s = (x, s1)" by force
  then have "map_of s1 k = map_of s k" using keepsD[OF keeps_accounts(2)[OF assms(3)]] by blast
  then show ?thesis using assms(1) u mint_writes[OF _ assms(2)] by (cases x) (auto simp: finish_login_def)
qed

lemma bytes_found: "bytes_at s k = Some (Some b) \<longleftrightarrow> map_of s k = Some (Bytes b)"
  by (auto simp: bytes_at_def split: option.splits mem_value.splits)

lemma identity_found:
  "github_identity_of env g hs auth_code = Inr i \<longleftrightarrow> (\<exists>access.
     github_exchange_code (le_lib env) g auth_code (derive_redirect_uri env hs) = Inr access
     \<and> github_fetch_identity (le_lib env) g access = Inr i \<and> github_check_allow g i = Inr ())"
  "oidc_identity_of env p hs auth_code verifier = Inr j \<longleftrightarrow> (\<exists>access.
     oidc_exchange_code (le_lib env) p auth_code (derive_oidc_redirect_uri env hs) verifier = Inr access
     \<and> oidc_fetch_identity (le_lib env) p access = Inr j \<and> oidc_check_allow p j = Inr ())"
  by (auto simp: github_identity_of_def oidc_identity_of_def split: sum.split)

lemma callback_state_found:
  "callback_state q n = Inr (auth_code, nonce) \<longleftrightarrow> cq_error q = None \<and> cq_code q = Some auth_code \<and> cq_state q = Some nonce"
  by (auto simp: callback_state_def split: option.split)


section \<open>A login in flight is used once\<close>

text \<open>A state that was looked up is gone, whatever became of the login, so a second callback with it is refused without
  an effect.\<close>

definition refused_state :: login_reply where
  "refused_state = Plain 400 ''invalid or expired `state` parameter; restart the login flow''"

lemma state_consumed:
  "consume_oauth_state nonce s = (Inr nxt, s1) \<Longrightarrow> map_of s1 (oauth_state_key nonce) = None"
  "consume_oidc_state env nonce s = (x, s1) \<Longrightarrow> x = Inr y \<Longrightarrow> map_of s1 (oidc_state_key nonce) = None"
  by (auto simp: consumed_oauth_state consumed_oidc_state split: option.splits)

lemma missing_state_refused:
  assumes "callback_state q n = Inr (auth_code, nonce)"
  shows "\<lbrakk>n = ''GitHub''; le_github env = Some g; map_of s (oauth_state_key nonce) = None\<rbrakk> \<Longrightarrow>
      github_callback env hs d q s = (refused_state, s)"
    "\<lbrakk>n = ''OIDC''; le_oidc env = Some p; map_of s (oidc_state_key nonce) = None\<rbrakk> \<Longrightarrow>
      oidc_callback env hs d q s = (refused_state, s)"
  using assms by (simp_all add: github_callback_def oidc_callback_def consumed_oauth_state consumed_oidc_state
      bytes_at_def state_reply_def refused_state_def)

end
