(* ===== verification/Login_Safety.thy ===== *)
theory Login_Safety
  imports Login Api_Answers
begin

text \<open>What a login amounts to: the password login seen by the API, the lockout seen by the login
  form, and the single use of the state of a login in flight over any sequence of requests.\<close>

section \<open>The account behind a password login\<close>

lemma shrinks_throttle: "shrinks tc s (record_success ip s)"
proof -
  have "map_of (record_success ip s) k = map_of s k" if "starts_with ''user:'' k" for k
    using that by (intro throttle_frame(2)) (auto simp: str_simps)
  then have "account tc (record_success ip s) i = account tc s i" "members (record_success ip s) = members s" for i
    by (auto intro!: account_cong members_cong simp: user_key_def user_all_def)
  then show ?thesis by (auto simp: shrinks_def)
qed

lemma fresh_after_throttle: "fresh_id s i \<Longrightarrow> fresh_id (record_success ip s) i"
proof -
  assume h: "fresh_id s i"
  have "map_of (record_success ip s) k = map_of s k" if "starts_with ''user:'' k" for k
    using that by (intro throttle_frame(2)) (auto simp: str_simps)
  then have "members (record_success ip s) = members s" "hash_at (record_success ip s) (user_key i) = hash_at s (user_key i)"
    by (auto intro!: members_cong simp: user_key_def user_all_def hash_at_def)
  then show ?thesis using h by (simp add: fresh_id_def)
qed

lemma new_user_written:
  assumes "write_new_user env i now email b s = (Inr u, s')" "fresh_id s i" "time_ok (au_time env)"
    "valid_utf8 i" "valid_utf8 email" "valid_utf8 (to_rfc3339 (au_time env) now)"
  shows "u = \<lparr>us_id = i, us_email = email, us_is_admin = b, us_created_at = now, us_session_epoch = 0\<rparr>
    \<and> account (au_time env) s' i = Some u"
proof -
  obtain x s1 where f: "find_user_by_email env email s = (x, s1)" by force
  have x: "x = Inr None"
  proof (rule ccontr)
    assume "x \<noteq> Inr None"
    then consider e where "x = Inl e" | v where "x = Inr (Some v)" by (cases x) auto
    then show False using assms(1) f
      by cases (simp_all add: write_new_user_def bind_io_def[of "find_user_by_email env email"] raise_def del: each_io.simps)
  qed
  have h1: "hash_at s1 (user_key i) = Some []" using fresh_find[OF assms(2) f] by (simp add: fresh_id_def)
  let ?s2 = "AList.update (user_key i) (Hash (new_user_fields env i now email b)) s1"
  have plain: "CHR '':'' \<notin> set i" "i \<noteq> ''all''" using assms(2) by (simp_all add: fresh_id_def)
  have ne: "user_key i \<noteq> by_email_key email" "user_key i \<noteq> user_all"
    using plain_id_keys[OF plain(1)] plain(2) by (auto simp: user_key_def user_all_def)
  have m: "map_of s' (user_key i) = Some (Hash (new_user_fields env i now email b))"
    using write_new_user_cases[OF f[unfolded x] h1 assms(1)] ne by auto
  have z: "decode_epoch (new_user_fields env i now email b) = Inr 0"
    using parse_u64_show[of 0] show_zero by (simp add: decode_epoch_def new_user_fields_def valid_utf8_def utf8_pending_def)
  have "decode_user (au_time env) (new_user_fields env i now email b)
      = Inr \<lparr>us_id = i, us_email = email, us_is_admin = b, us_created_at = now, us_session_epoch = 0\<rparr>"
    using z assms(3-6) by (simp add: decode_user_def decode_email_def field_utf8_def auth_parse_ts_def flag_def
        new_user_fields_def valid_utf8_def utf8_pending_def time_ok_def)
  moreover have "u = \<lparr>us_id = i, us_email = email, us_is_admin = b, us_created_at = now, us_session_epoch = 0\<rparr>"
    using assms(1) f x by (auto simp: write_new_user_def bind_io_Inr_iff seq_io_def ret_def raise_def Let_def split: if_splits)
  ultimately show ?thesis using m by (simp add: account_def hash_at_def new_user_fields_def)
qed


lemma local_user_written:
  assumes "upsert_local_user env i now email b s = (Inr u, s')" "emails_unique (au_time env) s" "fresh_id s i"
    "time_ok (au_time env)" "valid_utf8 i" "valid_utf8 (normalize_email email)" "valid_utf8 (to_rfc3339 (au_time env) now)"
  shows "account (au_time env) s' (us_id u) = Some u \<and> us_email u = normalize_email email \<and> us_is_admin u = b"
proof -
  let ?e = "normalize_email email" and ?a = "account (au_time env)"
  obtain x s1 where f: "find_user_by_email env ?e s = (x, s1)" by force
  have same: "?a (AList.update (by_identity_key ''local'' ?e) v t) j = ?a t j" if "CHR '':'' \<notin> set j" for v t j
    using plain_id_keys[OF that] by (simp add: account_update)
  consider v where "x = Inr (Some v)" | "x = Inr None"
    using assms(1) f by (cases x; cases "projr x") (auto simp: upsert_local_user_def Let_def bind_io_def)
  then show ?thesis
  proof cases
    case 1
    note found = find_Some[OF assms(2) f[unfolded 1]]
    obtain y s2 where y: "sync_admin v b s1 = (y, s2)" by force
    note run = sync_admin_run[OF found(1) y]
    have "u = v\<lparr>us_is_admin := b\<rparr>" "s' = AList.update (by_identity_key ''local'' ?e) (Bytes (us_id v)) s2"
      using assms(1) f 1 y run(2) by (auto simp: upsert_local_user_def Let_def bind_io_def[of "find_user_by_email env ?e"]
          bind_io_def[of "sync_admin v b"] seq_io_def bind_io_def[of "au m" for m] map_err_run admin_set ret_def)
    then show ?thesis using same[OF found(3)] run(3) found(2) by simp
  next
    case 2
    obtain y s2 where y: "write_new_user env i now ?e b s1 = (y, s2)" by force
    obtain v where v: "y = Inr v" "u = v" "s' = AList.update (by_identity_key ''local'' ?e) (Bytes (us_id v)) s2"
      using assms(1) f 2 y by (cases y) (auto simp: upsert_local_user_def Let_def bind_io_def[of "find_user_by_email env ?e"]
          bind_io_def[of "write_new_user env i now ?e b"] seq_io_def bind_io_def[of "au m" for m] map_err_run admin_set ret_def)
    have i: "fresh_id s1 i" using fresh_find[OF assms(3) f] .
    have plain: "CHR '':'' \<notin> set i" using i by (simp add: fresh_id_def)
    from new_user_written[OF y[unfolded v(1)] i assms(4-7)] v same[OF plain] show ?thesis by simp
  qed
qed

lemma user_found: "account (au_time env) s i = Some u \<Longrightarrow> get_user_by_id env i s = (Inr u, s)"
  by (simp add: get_user_by_id_def bind_io_def user_read found_or_error_def ret_def)

lemma mint_run:
  assumes "mint_session env ss hs d u pr fail nxt s = (RedirectTo target (Some c), s')"
  shows "\<exists>r b. c = format_set_cookie (sign_cookie ss (ld_token d)) (ttl_seconds ss) (le_secure_cookies env)
    \<and> ss_user_id r = us_id u \<and> ss_epoch r = us_session_epoch u \<and> ss_expires_at r = ld_session_now d + seconds (ttl_seconds ss)
    \<and> encode (session_codec ss) r = Some b \<and> s' = AList.update (session_key (ld_token d)) (Bytes b) s"
proof -
  let ?r = "\<lparr>ss_id = ld_session_id d, ss_user_id = us_id u, ss_provider = pr, ss_created_at = ld_session_now d,
       ss_last_seen_at = ld_session_now d, ss_expires_at = ld_session_now d + seconds (ttl_seconds ss),
       ss_ip_first_seen = client_ip env hs, ss_user_agent = user_agent env hs, ss_epoch = us_session_epoch u\<rparr>"
  obtain b where b: "encode (session_codec ss) ?r = Some b"
    using assms by (cases "encode (session_codec ss) ?r")
      (auto simp: mint_session_def session_create_def Let_def seq_io_def bind_io_def session_write_def raise_def)
  have "c = format_set_cookie (sign_cookie ss (ld_token d)) (ttl_seconds ss) (le_secure_cookies env)"
    "s' = AList.update (session_key (ld_token d)) (Bytes b) s"
    using assms b by (auto simp: mint_session_def session_create_def Let_def seq_io_def bind_io_def session_write_run ret_def
        dest!: redirect_parts(2))
  then show ?thesis using b by (intro exI[of _ ?r] exI[of _ b]) simp
qed

lemma touched_session:
  assumes "\<forall>r. encodable ss r" "CHR ''.'' \<notin> set token" "encode (session_codec ss) r = Some b"
    "map_of s (session_key token) = Some (Bytes b)" "t0 \<le> ss_expires_at r"
  shows "\<exists>r' s'. session_touch ss t0 t1 (sign_cookie ss token) s = (Inr r', s')
    \<and> ss_user_id r' = ss_user_id r \<and> ss_epoch r' = ss_epoch r \<and> ss_id r' = ss_id r"
proof -
  have "decode (session_codec ss) b = Some r" using assms(1,3) unfolding encodable_def codec_ok_def by blast
  then have rd: "session_read ss token s = (Inr r, s)"
    using assms(4) by (simp add: session_read_def bind_io_def map_err_run admin_get bytes_at_def ret_def)
  let ?r = "r\<lparr>ss_last_seen_at := t1, ss_expires_at := t1 + seconds (ttl_seconds ss)\<rparr>"
  obtain b2 where "encode (session_codec ss) ?r = Some b2" using assms(1) unfolding encodable_def by blast
  then show ?thesis using touch_run[OF assms(2) rd, of t0 t1] assms(5) by (simp add: session_write_run Let_def)
qed

text \<open>C10: The right password, and only the right one, signs its user in.  After a password login
  that answers with a cookie the API takes whoever presents the cookie, within the lifetime of the
  session, for the account of that e-mail, an administrator exactly if the account list says so.\<close>

theorem password_login_identifies:
  fixes api :: "('c, 'j, 'z) api_env_scheme"
  assumes run: "login_call env hs d (PasswordLogin form) s = (RedirectTo target (Some c), s')"
    and store: "emails_unique (au_time (le_auth env)) s" "fresh_id s (ld_user_id d)"
    and texts: "clock_ok (au_time (le_auth env))" "valid_utf8 (ld_user_id d)" "valid_utf8 (normalize_email (lf_email form))"
    and ss: "le_sessions env = Some ss" "\<forall>r. encodable ss r" "CHR ''.'' \<notin> set (ld_token d)"
    and use: "ae_auth api = le_auth env" "t0 \<le> ld_session_now d + seconds (ttl_seconds ss)"
  shows "\<exists>role cx. local_verify (le_check env) (le_local env) (lf_email form) (lf_password form) = Inr role
    \<and> c = format_set_cookie (sign_cookie ss (ld_token d)) (ttl_seconds ss) (le_secure_cookies env)
    \<and> fst (session_caller api ss t0 t1 (sign_cookie ss (ld_token d)) s') = Inr cx
    \<and> cx_user_email cx = normalize_email (lf_email form) \<and> (cx_is_admin cx \<longleftrightarrow> role = AdminRole)"
proof -
  let ?tc = "au_time (le_auth env)" and ?ip = "client_ip env hs"
  have run: "password_login env hs d form s = (RedirectTo target (Some c), s')" using run by simp
  have l: "le_local env \<noteq> []" "\<not> is_locked_out ?tc (ld_now d) ?ip s"
    using run ss(1) by (auto simp: password_login_def Let_def split: if_splits)
  obtain role where role: "local_verify (le_check env) (le_local env) (lf_email form) (lf_password form) = Inr role"
    using run ss(1) l by (auto simp: password_login_def Let_def split: sum.splits verify_error.splits)
  obtain x s1 where u: "upsert_local_user (le_auth env) (ld_user_id d) (ld_user_now d) (lf_email form) (role = AdminRole)
      (record_success ?ip s) = (x, s1)" by force
  obtain v where v: "x = Inr v" "mint_session env ss hs d v ''local'' ''login failed'' (safe_next (lf_next form)) s1
      = (RedirectTo target (Some c), s')"
    using run ss(1) l role u by (cases x) (auto simp: password_login_def Let_def)
  have acc: "account ?tc s1 (us_id v) = Some v" "us_email v = normalize_email (lf_email form)" "us_is_admin v = (role = AdminRole)"
    using local_user_written[OF u[unfolded v(1)] shrinks_unique[OF store(1) shrinks_throttle] fresh_after_throttle[OF store(2)] _ texts(2,3)]
      texts(1) by (simp_all add: clock_ok_def)
  obtain r b where m: "c = format_set_cookie (sign_cookie ss (ld_token d)) (ttl_seconds ss) (le_secure_cookies env)"
    "ss_user_id r = us_id v" "ss_epoch r = us_session_epoch v" "ss_expires_at r = ld_session_now d + seconds (ttl_seconds ss)"
    "encode (session_codec ss) r = Some b" "s' = AList.update (session_key (ld_token d)) (Bytes b) s1"
    using mint_run[OF v(2)] by blast
  obtain r' s2 where t: "session_touch ss t0 t1 (sign_cookie ss (ld_token d)) s' = (Inr r', s2)"
    "ss_user_id r' = us_id v" "ss_epoch r' = us_session_epoch v"
    using touched_session[OF ss(2,3) m(5), of s' t0 t1] m use(2) by auto
  have "map_of s2 (user_key (us_id v)) = map_of s1 (user_key (us_id v))"
    using keepsD[OF touch_keeps t(1), of "us_id v"] m(6) by (simp add: session_key_def user_key_def)
  then have "account ?tc s2 (us_id v) = Some v" using acc(1) account_cong by metis
  from user_found[OF this] have "fst (session_caller api ss t0 t1 (sign_cookie ss (ld_token d)) s')
      = Inr \<lparr>cx_user_id = us_id v, cx_user_email = us_email v, cx_is_admin = us_is_admin v,
          cx_credential_kind = SessionCredential, cx_credential_id = ss_id r'\<rparr>"
    using t use(1) by (simp add: session_caller_def bind_io_def map_err_run ret_def)
  then show ?thesis using role m(1) acc(2,3) by simp
qed


section \<open>Sequences of requests\<close>

fun login_run :: "login_env \<Rightarrow> (headers \<times> login_draw \<times> login_request) list \<Rightarrow> mem_store \<Rightarrow> login_reply list \<times> mem_store" where
  "login_run env [] s = ([], s)"
| "login_run env ((hs, d, q) # qs) s = (case login_call env hs d q s of (r, s') \<Rightarrow>
     (case login_run env qs s' of (rs, s'') \<Rightarrow> (r # rs, s'')))"

lemma wrong_password:
  assumes "le_sessions env = Some ss" "le_local env \<noteq> []" "\<not> is_locked_out (au_time (le_auth env)) (ld_now d) (client_ip env hs) s"
    and "local_verify (le_check env) (le_local env) (lf_email form) (lf_password form) = Inl InvalidCredentials"
  shows "login_call env hs d (PasswordLogin form) s
    = (Plain 401 ''login failed'', snd (record_failure (au_time (le_auth env)) (ld_ticks d) (client_ip env hs) s))"
  using assms by (simp add: password_login_def Let_def)


lemma state_stays_gone:
  assumes "map_of s (oauth_state_key n) = None" "ld_nonce d \<noteq> n"
  shows "map_of (snd (login_call env hs d q s)) (oauth_state_key n) = None"
proof -
  let ?k = "oauth_state_key n"
  have kk: "\<not> starts_with ''user:'' ?k" "\<not> starts_with ''throttle:'' ?k" "?k \<noteq> session_key t" "?k \<noteq> oidc_state_key m" for t m
    by (simp_all add: oauth_state_key_def session_key_def oidc_state_key_def)
  have mint: "map_of (snd (mint_session env ss hs d u pr fail nxt t)) ?k = map_of t ?k" for ss u pr fail nxt t
    using mint_writes[of env ss hs d u pr fail nxt t _ _ ?k, OF prod.collapse[symmetric]] kk(3) by simp
  have finish: "map_of (snd (finish_login env ss hs d pr sub email a nxt t)) ?k = map_of t ?k" for ss pr sub email a nxt t
    using finish_writes[of env ss hs d pr sub email a nxt t _ _ ?k, OF prod.collapse[symmetric]] kk(1,3) by simp
  show ?thesis
  proof (cases q)
    case (PasswordLogin form)
    have up: "map_of (snd (upsert_local_user (le_auth env) (ld_user_id d) (ld_user_now d) (lf_email form) b t)) ?k = map_of t ?k" for b t
      using keeps_snd[OF keeps_accounts(1)[OF kk(1)]] .
    have "map_of (snd (password_login env hs d form s)) ?k = map_of s ?k"
      unfolding password_login_def Let_def using mint up throttle_frame[OF kk(2)]
      by (auto split: option.split sum.split verify_error.split prod.split) (metis snd_conv)+
    then show ?thesis using PasswordLogin assms by simp
  next
    case LogOut
    have "map_of (snd (delete_by_cookie c s)) ?k = None" for c
      using assms(1) by (auto simp: delete_by_cookie_def session_delete_run raise_def split: option.split)
    then show ?thesis using LogOut assms by (simp add: logout_def split: option.split)
  next
    case (GithubCallback cq)
    then show ?thesis using assms(1) finish kk
      by (auto simp: github_callback_def consumed_oauth_state split: option.split sum.split prod.split)
  next
    case (OidcCallback cq)
    then show ?thesis using assms(1) finish kk
      by (auto simp: oidc_callback_def consumed_oidc_state split: option.split sum.split prod.split)
  qed (use assms kk in \<open>auto simp: start_github_def start_oidc_def bucket_set_with_ttl_def admin_set oauth_state_key_def
      split: option.split\<close>)
qed


lemma run_keeps_gone:
  "\<lbrakk>map_of s (oauth_state_key n) = None; \<forall>(hs, d, q)\<in>set qs. ld_nonce d \<noteq> n\<rbrakk>
   \<Longrightarrow> map_of (snd (login_run env qs s)) (oauth_state_key n) = None"
proof (induction qs arbitrary: s)
  case (Cons x qs)
  obtain hs d q where x: "x = (hs, d, q)" by (cases x)
  obtain r s1 where 1: "login_call env hs d q s = (r, s1)" by force
  have "map_of s1 (oauth_state_key n) = None"
    using state_stays_gone[OF Cons.prems(1), of d env hs q] Cons.prems(2) 1 x by simp
  then show ?case using Cons.IH[of s1] Cons.prems(2) 1 x by (simp add: case_prod_beta)
qed simp

text \<open>C8: A login at GitHub can be finished once.  A callback that found its state has removed it
  before it asks GitHub anything, so that whatever came of it, and whatever other requests follow,
  a second callback with the same state is refused with 400 and has no effect.\<close>

theorem login_state_used_once:
  assumes first: "login_call env hs d (GithubCallback q) s = (r, s1)" "callback_state q ''GitHub'' = Inr (auth_code, nonce)"
    and env: "le_github env = Some g" "bytes_at s (oauth_state_key nonce) \<noteq> None" "ld_nonce d \<noteq> nonce"
    and between: "\<forall>(hs, d, q)\<in>set qs. ld_nonce d \<noteq> nonce" "login_run env qs s1 = (rs, s2)"
    and again: "callback_state q2 ''GitHub'' = Inr (auth_code2, nonce)"
  shows "login_call env hs2 d2 (GithubCallback q2) s2
    = (Plain 400 ''invalid or expired `state` parameter; restart the login flow'', s2)"
proof -
  have "map_of s1 (oauth_state_key nonce) = None"
  proof (cases "map_of s (oauth_state_key nonce)")
    case None
    from state_stays_gone[OF this env(3), of env hs "GithubCallback q"] first(1) show ?thesis by simp
  next
    case (Some v)
    then obtain b where b: "bytes_at s (oauth_state_key nonce) = Some (Some b)"
      using env(2) by (cases v) (auto simp: bytes_at_def)
    let ?s = "AList.delete (oauth_state_key nonce) s"
    have k: "oauth_state_key nonce \<noteq> session_key t" "\<not> starts_with ''user:'' (oauth_state_key nonce)" for t
      by (simp_all add: oauth_state_key_def session_key_def)
    have "map_of (snd (finish_login env ss hs d pr sub email a nxt ?s)) (oauth_state_key nonce) = None" for ss pr sub email a nxt
      using finish_writes[of env ss hs d pr sub email a nxt ?s _ _ "oauth_state_key nonce", OF prod.collapse[symmetric]] k by simp
    then have "map_of (snd (github_callback env hs d q s)) (oauth_state_key nonce) = None"
      using env(1) first(2) b by (auto simp: github_callback_def consumed_oauth_state split: option.split sum.split)
    then show ?thesis using first(1) by simp
  qed
  from run_keeps_gone[OF this between(1), of env] between(2) have "map_of s2 (oauth_state_key nonce) = None" by simp
  from missing_state_refused(1)[OF again refl env(1) this] show ?thesis by (simp add: refused_state_def)
qed

text \<open>A callback looks at no cookie: a state and a code obtained in one browser sign in any browser that follows
  the link, as the account they were obtained for.\<close>

lemma callback_ignores_cookies:
  "github_callback env hs d q s = github_callback env (filter (\<lambda>(k, v). k \<noteq> ''cookie'') hs) d q s"
  "oidc_callback env hs d q s = oidc_callback env (filter (\<lambda>(k, v). k \<noteq> ''cookie'') hs) d q s"
proof -
  let ?hs = "filter (\<lambda>(k, v). k \<noteq> ''cookie'') hs"
  have "map_of ?hs k = map_of hs k" if "k \<noteq> ''cookie''" for k
    using map_of_filter_fst[of "\<lambda>k. k \<noteq> ''cookie''" hs k] that by simp
  then have h: "map_of ?hs ''host'' = map_of hs ''host''" "map_of ?hs ''x-forwarded-proto'' = map_of hs ''x-forwarded-proto''"
    "map_of ?hs ''x-forwarded-for'' = map_of hs ''x-forwarded-for''" "map_of ?hs ''user-agent'' = map_of hs ''user-agent''"
    by simp_all
  have p: "public_base_url lib ?hs t = public_base_url lib hs t" for lib t using h by (simp add: public_base_url_def)
  have i: "github_identity_of env g ?hs k = github_identity_of env g hs k" for g k
    by (simp add: github_identity_of_def derive_redirect_uri_def p)
  have j: "oidc_identity_of env pr ?hs k v = oidc_identity_of env pr hs k v" for pr k v
    by (simp add: oidc_identity_of_def derive_oidc_redirect_uri_def p)
  have m: "mint_session env ss ?hs d u pr fail nxt t = mint_session env ss hs d u pr fail nxt t" for ss u pr fail nxt t
    using h by (simp add: mint_session_def client_ip_def user_agent_def)
  have f: "finish_login env ss ?hs d pr sub email a nxt t = finish_login env ss hs d pr sub email a nxt t" for ss pr sub email a nxt t
    by (simp add: finish_login_def m split: prod.split sum.split)
  show "github_callback env hs d q s = github_callback env ?hs d q s" by (simp add: github_callback_def i f split: option.split sum.split prod.split)
  show "oidc_callback env hs d q s = oidc_callback env ?hs d q s" by (simp add: oidc_callback_def j f split: option.split sum.split prod.split)
qed

section \<open>A concrete host\<close>

definition demo_lib :: provider_lib where
  "demo_lib = \<lparr>pl_send = (\<lambda>q. Inr (200, og_url q)),
     pl_json = (\<lambda>b. Some (JsObject [(''access_token'', JsText ''t'')])),
     pl_user = (\<lambda>b. Some \<lparr>gu_id = 7, gu_login = ''Alice'', gu_email = None\<rparr>),
     pl_emails = (\<lambda>b. Some [\<lparr>ge_email = ''a@x'', ge_primary = True, ge_verified = True\<rparr>]),
     pl_orgs = (\<lambda>b. Some []), pl_discovery = (\<lambda>b. None), pl_form = concat \<circ> map snd,
     pl_with_query = (\<lambda>u ps. Some u), pl_url_host = Some, pl_debug = id\<rparr>"

definition demo_github :: github_config where
  "demo_github = \<lparr>gc_client_id = ''i'', gc_client_secret = ''s'', gc_allow_users = [''alice''], gc_allow_orgs = [],
     gc_admin_users = [], gc_endpoints = github_endpoints_default\<rparr>"

definition demo_login :: login_env where
  "demo_login = \<lparr>le_http = demo_http, le_auth = demo_auth, le_sessions = Some demo_sessions,
     le_local = [(''a@x'', \<lparr>cr_hash = ''pw'', cr_role = UserRole\<rparr>)],
     le_check = (\<lambda>p h. if p = h then HashMatches else HashDiffers), le_github = Some demo_github, le_oidc = None,
     le_lib = demo_lib, le_state = table_codec [], le_challenge = id, le_parse_ip = Some,
     le_trust_forwarded = False, le_secure_cookies = True\<rparr>"

definition login_draw_of :: "string \<Rightarrow> login_draw" where
  "login_draw_of nonce = \<lparr>ld_now = 5, ld_ticks = at_time 5, ld_user_id = ''U'', ld_user_now = 5, ld_token = ''tok'',
     ld_session_id = ulid_a, ld_session_now = 5, ld_nonce = nonce, ld_verifier = ''v''\<rparr>"

definition guess :: "string \<Rightarrow> login_form" where
  "guess pw = \<lparr>lf_email = ''a@x'', lf_password = pw, lf_next = None\<rparr>"

definition callback_of :: "string \<Rightarrow> callback_query" where
  "callback_of nonce = \<lparr>cq_code = Some ''c'', cq_state = Some nonce, cq_error = None, cq_error_description = None\<rparr>"

lemma normal_demo: "normalize_email ''a@x'' = ''a@x''"
  by code_simp

lemma demo_verify: "local_verify (le_check demo_login) (le_local demo_login) (lf_email (guess pw)) (lf_password (guess pw))
    = (if pw = ''pw'' then Inr UserRole else Inl InvalidCredentials)"
  by (simp add: local_verify_def demo_login_def guess_def normal_demo)


theorem login_state_used_once_witness:
  "login_call demo_login [] (login_draw_of ''m'') (GithubCallback (callback_of ''n''))
      (snd (login_call demo_login [] (login_draw_of ''m'') (GithubCallback (callback_of ''n''))
        [(oauth_state_key ''n'', Bytes ''/ui/'')]))
    = (Plain 400 ''invalid or expired `state` parameter; restart the login flow'',
       snd (login_call demo_login [] (login_draw_of ''m'') (GithubCallback (callback_of ''n''))
        [(oauth_state_key ''n'', Bytes ''/ui/'')]))"
proof -
  have "callback_state (callback_of ''n'') ''GitHub'' = Inr (''c'', ''n'')" by (simp add: callback_state_def callback_of_def)
  moreover have "le_github demo_login = Some demo_github" "ld_nonce (login_draw_of ''m'') = ''m''"
    by (simp_all add: demo_login_def login_draw_of_def)
  ultimately show ?thesis
    by (intro login_state_used_once[where qs = "[]", OF prod.collapse[symmetric]]) (simp_all add: bytes_at_def)
qed


lemma demo_new_user:
  "write_new_user demo_auth ''U'' 5 ''a@x'' False []
     = (Inr \<lparr>us_id = ''U'', us_email = ''a@x'', us_is_admin = False, us_created_at = 5, us_session_epoch = 0\<rparr>, demo_new_accounts)"
proof -
  have none: "find_user_by_email demo_auth ''a@x'' [] = (Inr None, [])"
    by (simp add: find_user_by_email_def scan_all_def bind_io_def map_err_run admin_get admin_set_members
        cell_simps ret_def)
  have keys: "user_key ''U'' \<noteq> by_email_key ''a@x''" "user_key ''U'' \<noteq> user_all" "user_all \<noteq> by_email_key ''a@x''"
    by (simp_all add: user_key_def by_email_key_def user_all_def)
  show ?thesis
    using keys write_record_run[of "[]" "''U''" "''a@x''" False demo_auth 5]
    unfolding write_new_user_def bind_io_def[of "find_user_by_email demo_auth e" for e] none Let_def
    by (simp add: cell_simps seq_io_def bind_io_def[of "do_all ms" for ms] bind_io_def[of "au m" for m]
        map_err_run set_if_absent_run admin_set_add set_insert_def ret_def demo_new_accounts_def
        demo_user_fields_def del: each_io.simps)
qed

text \<open>The host signs its cookies with a text that is printable.\<close>

lemma demo_cookie: "list_all (\<lambda>b. (32 \<le> code b \<and> code b < 127) \<or> code b = 9)
    (format_set_cookie (sign_cookie demo_sessions ''tok'') (ttl_seconds demo_sessions) True)"
proof -
  have "list_all is_digit (show_nat (ttl_seconds demo_sessions))" by (rule show_nat_digits)
  then have "list_all (\<lambda>b. (32 \<le> code b \<and> code b < 127) \<or> code b = 9) (show_nat (ttl_seconds demo_sessions))"
    by (rule list.pred_mono_strong) (auto simp: is_digit_def)
  then show ?thesis
    by (simp add: format_set_cookie_def sign_cookie_def compute_signature_def demo_sessions_def COOKIE_NAME_def eval_nat_numeral)
qed

lemma demo_password_login:
  "\<exists>b. login_call demo_login [] (login_draw_of ''n'') (PasswordLogin (guess ''pw'')) []
     = (RedirectTo ''/ui/'' (Some (format_set_cookie (sign_cookie demo_sessions ''tok'') 60 True)),
        AList.update (session_key ''tok'') (Bytes b) (AList.update (by_identity_key ''local'' ''a@x'') (Bytes ''U'') demo_new_accounts))"
proof -
  let ?d = "login_draw_of ''n''" and ?s = "AList.update (by_identity_key ''local'' ''a@x'') (Bytes ''U'') demo_new_accounts"
  let ?u = "\<lparr>us_id = ''U'', us_email = ''a@x'', us_is_admin = False, us_created_at = 5, us_session_epoch = 0\<rparr>"
  have none: "find_user_by_email demo_auth ''a@x'' [] = (Inr None, [])"
    by (simp add: find_user_by_email_def scan_all_def bind_io_def map_err_run admin_get admin_set_members
        cell_simps ret_def)
  have up: "upsert_local_user demo_auth ''U'' 5 ''a@x'' False [] = (Inr ?u, ?s)"
    by (simp add: upsert_local_user_def Let_def normal_demo bind_io_def none demo_new_user seq_io_def map_err_run admin_set ret_def)
  have parts: "le_sessions demo_login = Some demo_sessions" "le_local demo_login \<noteq> []" "le_auth demo_login = demo_auth"
    "lf_email (guess ''pw'') = ''a@x''" "lf_next (guess ''pw'') = None" "ld_user_id ?d = ''U''" "ld_user_now ?d = 5"
    "ld_token ?d = ''tok''" "le_secure_cookies demo_login" "ttl_seconds demo_sessions = 60"
    by (simp_all add: demo_login_def guess_def login_draw_of_def demo_sessions_def)
  have throttle: "\<not> is_locked_out tc now ip []" "record_success ip [] = []" for tc now ip
    by (simp_all add: not_locked record_success_def admin_delete)
  have next_path: "login_redirect (safe_next None) = RedirectTo ''/ui/'' None"
    by (simp add: safe_next_def sanitize_next_def login_redirect_def DEFAULT_POST_LOGIN_PATH_def)
  let ?r = "\<lparr>ss_id = ld_session_id ?d, ss_user_id = ''U'', ss_provider = ''local'', ss_created_at = ld_session_now ?d,
       ss_last_seen_at = ld_session_now ?d, ss_expires_at = ld_session_now ?d + seconds 60,
       ss_ip_first_seen = client_ip demo_login [], ss_user_agent = user_agent demo_login [], ss_epoch = 0\<rparr>"
  obtain b where b: "encode (session_codec demo_sessions) ?r = Some b" using demo_encodes by blast
  have "mint_session demo_login demo_sessions [] ?d ?u ''local'' ''login failed'' (safe_next None) ?s
      = (RedirectTo ''/ui/'' (Some (format_set_cookie (sign_cookie demo_sessions ''tok'') 60 True)),
         AList.update (session_key ''tok'') (Bytes b) ?s)"
    using b parts demo_cookie next_path
    by (simp add: mint_session_def session_create_def Let_def seq_io_def bind_io_def session_write_run ret_def with_cookie_def)
  then have "password_login demo_login [] ?d (guess ''pw'') []
      = (RedirectTo ''/ui/'' (Some (format_set_cookie (sign_cookie demo_sessions ''tok'') 60 True)),
         AList.update (session_key ''tok'') (Bytes b) ?s)"
    using parts throttle up demo_verify[of "''pw''"] by (simp add: password_login_def Let_def)
  then show ?thesis by auto
qed

theorem password_login_identifies_witness:
  "\<exists>cx s'. snd (login_call demo_login [] (login_draw_of ''n'') (PasswordLogin (guess ''pw'')) []) = s'
    \<and> fst (session_caller demo_api demo_sessions 9 10 (sign_cookie demo_sessions ''tok'') s') = Inr cx
    \<and> cx_user_email cx = ''a@x'' \<and> \<not> cx_is_admin cx"
proof -
  obtain s' where run: "login_call demo_login [] (login_draw_of ''n'') (PasswordLogin (guess ''pw'')) []
     = (RedirectTo ''/ui/'' (Some (format_set_cookie (sign_cookie demo_sessions ''tok'') 60 True)), s')"
    using demo_password_login by blast
  have p: "le_auth demo_login = demo_auth" "au_time demo_auth = decimal_time" "ld_user_id (login_draw_of ''n'') = ''U''"
    "ld_token (login_draw_of ''n'') = ''tok''" "ld_session_now (login_draw_of ''n'') = 5" "lf_email (guess ''pw'') = ''a@x''"
    "le_sessions demo_login = Some demo_sessions"
    by (simp_all add: demo_login_def demo_auth_def login_draw_of_def guess_def)
  have e: "emails_unique decimal_time []" "fresh_id [] ''U''"
    by (simp_all add: emails_unique_def account_def members_def cell_simps fresh_id_def)
  have "valid_utf8 ''U''" "valid_utf8 ''a@x''" by (simp_all add: valid_utf8_def utf8_pending_def)
  then show ?thesis
    using password_login_identifies[OF run, where api = demo_api and ss = demo_sessions and ?t0.0 = 9 and ?t1.0 = 10] p e decimal_clock_ok
      demo_sessions_encodable demo_verify[of "''pw''"] run
    by (auto simp: normal_demo demo_sessions_def)
qed


theorem redirects_stay_on_host_witness:
  "login_call demo_login [] (login_draw_of ''n'') LogOut [] =
     (RedirectTo ''/auth/login?signed_out=1'' (Some (format_clear_cookie True)), []) \<and> stays_local ''/auth/login?signed_out=1''"
proof -
  have run: "login_call demo_login [] (login_draw_of ''n'') LogOut [] =
     (RedirectTo ''/auth/login?signed_out=1'' (Some (format_clear_cookie True)), [])"
    by (simp add: logout_def with_cookie_def login_redirect_def format_clear_cookie_def COOKIE_NAME_def demo_login_def
        parse_session_cookie_def pick_session_cookie_def)
  from redirects_stay_on_host[OF run] run show ?thesis by simp
qed

end
