(* ===== verification/Csrf.thy ===== *)
theory Csrf
  imports Login_Safety
begin

text \<open>The layers around the pages (\<^theory_text>\<open>ui/csrf.rs\<close>, \<^theory_text>\<open>ui/auth_redirect.rs\<close>, the router of
  \<^theory_text>\<open>ui/mod.rs\<close>): a browser without a session is sent to the login page, a form must carry the
  token of its cookie, and the admin pages are for administrators.

  A page is a transformer of the world; \<^theory_text>\<open>minted\<close> is the random token of the request.\<close>

section \<open>The form token\<close>

definition CSRF_COOKIE_NAME :: string where "CSRF_COOKIE_NAME = ''wm_csrf''"
definition MAX_FORM_BYTES :: nat where "MAX_FORM_BYTES = 64 * 1024"

fun named_cookie :: "string \<Rightarrow> string list \<Rightarrow> string option" where
  "named_cookie name [] = None"
| "named_cookie name (p # ps) = (case strip_prefix (name @ ''='') (trim p) of
      Some v \<Rightarrow> Some v | None \<Rightarrow> named_cookie name ps)"

fun named_cookie_in :: "http_lib \<Rightarrow> string \<Rightarrow> bytes list \<Rightarrow> string option" where
  "named_cookie_in lib name [] = None"
| "named_cookie_in lib name (v # vs) = (case ht_to_str lib v of
      None \<Rightarrow> named_cookie_in lib name vs
    | Some txt \<Rightarrow> (case named_cookie name (split_on (CHR '';'') txt) of
        Some c \<Rightarrow> Some c | None \<Rightarrow> named_cookie_in lib name vs))"

definition pick_csrf_cookie :: "http_lib \<Rightarrow> headers \<Rightarrow> string option" where
  "pick_csrf_cookie lib hs = named_cookie_in lib CSRF_COOKIE_NAME (map snd (filter (\<lambda>(k, v). k = ''cookie'') hs))"

fun csrf_field :: "http_lib \<Rightarrow> string list \<Rightarrow> string option" where
  "csrf_field lib [] = None"
| "csrf_field lib (p # ps) = (case split_once (CHR ''='') p of
      None \<Rightarrow> if p = ''_csrf'' then ht_url_decode lib [] else csrf_field lib ps
    | Some (k, v) \<Rightarrow> if k = ''_csrf'' then ht_url_decode lib v else csrf_field lib ps)"

definition pick_csrf_from_form :: "http_lib \<Rightarrow> bytes \<Rightarrow> string option" where
  "pick_csrf_from_form lib body = (if valid_utf8 body then csrf_field lib (split_on (CHR ''&'') body) else None)"

definition build_set_cookie :: "string \<Rightarrow> bool \<Rightarrow> string" where
  "build_set_cookie given secure = CSRF_COOKIE_NAME @ ''='' @ given
     @ ''; Path=/; HttpOnly; SameSite=Strict; Max-Age=86400'' @ (if secure then ''; Secure'' else [])"

text \<open>What comes out of the layers: the page's answer or a refusal, with the cookie added to it.\<close>

datatype 'r guarded =
    Served 'r "string option"
  | Bounced nat string
  | ToLogin string
  | Unidentified api_failure "string option"
  | AdminsOnly "string option"

definition is_mutating :: "string \<Rightarrow> bool" where
  "is_mutating m \<longleftrightarrow> m = ''POST'' \<or> m = ''PUT'' \<or> m = ''PATCH'' \<or> m = ''DELETE''"

fun add_cookie :: "string option \<Rightarrow> 'r guarded \<Rightarrow> 'r guarded" where
  "add_cookie c (Served r _) = Served r c"
| "add_cookie c (Unidentified e _) = Unidentified e c"
| "add_cookie c (AdminsOnly _) = AdminsOnly c"
| "add_cookie c g = g"

definition csrf_middleware :: "http_lib \<Rightarrow> bool \<Rightarrow> headers \<Rightarrow> string \<Rightarrow> bytes \<Rightarrow> string
    \<Rightarrow> (string \<Rightarrow> bytes \<Rightarrow> 's \<Rightarrow> 'r guarded \<times> 's) \<Rightarrow> 's \<Rightarrow> 'r guarded \<times> 's" where
  "csrf_middleware lib secure hs method body minted page s =
    (let existing = pick_csrf_cookie lib hs;
         active = (case existing of Some v \<Rightarrow> v | None \<Rightarrow> minted) in
     if is_mutating method then (case existing of
         None \<Rightarrow> (Bounced 403 ''csrf: missing wm_csrf cookie (start with a GET to mint one)'', s)
       | Some cookie \<Rightarrow> (case ht_to_bytes lib body MAX_FORM_BYTES of
           None \<Rightarrow> (Bounced 400 ''csrf: form body too large'', s)
         | Some b \<Rightarrow>
             if pick_csrf_from_form lib b = Some cookie then page active b s
             else (Bounced 403 ''csrf: token mismatch'', s)))
     else (case page active body s of (r, s') \<Rightarrow>
       (let header = build_set_cookie active secure in
        (if existing = None \<and> list_all (\<lambda>b. (32 \<le> code b \<and> code b < 127) \<or> code b = 9) header
         then add_cookie (Some header) r else r, s'))))"

section \<open>Sessions and administrators\<close>

definition encode_next :: "string \<Rightarrow> string" where
  "encode_next path = percent_encode path"

definition require_session :: "http_lib \<Rightarrow> session_store option \<Rightarrow> int \<Rightarrow> int \<Rightarrow> headers \<Rightarrow> string
    \<Rightarrow> ('c sweep_world \<Rightarrow> 'r guarded \<times> 'c sweep_world) \<Rightarrow> 'c sweep_world \<Rightarrow> 'r guarded \<times> 'c sweep_world" where
  "require_session lib sessions t0 t1 hs path page w =
    (case has_valid_session lib sessions t0 t1 hs (sw_store w) of (authed, s) \<Rightarrow>
      (let w' = w\<lparr>sw_store := s\<rparr> in
       if authed then page w' else (ToLogin (''/auth/login?next='' @ encode_next path), w')))"

text \<open>The extractor of the caller in front of a page.\<close>

definition identified :: "('c, 'j, 'z) api_env_scheme \<Rightarrow> int \<Rightarrow> int \<Rightarrow> headers
    \<Rightarrow> (auth_context \<Rightarrow> 'c sweep_world \<Rightarrow> 'r guarded \<times> 'c sweep_world) \<Rightarrow> 'c sweep_world \<Rightarrow> 'r guarded \<times> 'c sweep_world" where
  "identified env t0 t1 hs page w = (case caller_of env t0 t1 hs (sw_store w) of
      (Inl e, s) \<Rightarrow> (Unidentified e None, w\<lparr>sw_store := s\<rparr>)
    | (Inr cx, s) \<Rightarrow> page cx (w\<lparr>sw_store := s\<rparr>))"

definition require_admin_page :: "('c, 'j, 'z) api_env_scheme \<Rightarrow> int \<Rightarrow> int \<Rightarrow> headers
    \<Rightarrow> ('c sweep_world \<Rightarrow> 'r guarded \<times> 'c sweep_world) \<Rightarrow> 'c sweep_world \<Rightarrow> 'r guarded \<times> 'c sweep_world" where
  "require_admin_page env t0 t1 hs page =
     identified env t0 t1 hs (\<lambda>cx w. if cx_is_admin cx then page w else (AdminsOnly None, w))"

text \<open>A page behind all layers; its own caller is identified once more.\<close>

type_synonym ('c, 'r) ui_page = "string \<Rightarrow> bytes \<Rightarrow> auth_context \<Rightarrow> 'c sweep_world \<Rightarrow> 'r \<times> 'c sweep_world"

record ui_request =
  uq_headers :: headers
  uq_method :: string
  uq_path :: string
  uq_body :: bytes
  uq_minted :: string

definition under_admin :: "string \<Rightarrow> bool" where
  "under_admin path \<longleftrightarrow> path = ''/ui/admin'' \<or> starts_with ''/ui/admin/'' path"

definition plain_page :: "('c, 'j, 'z) api_env_scheme \<Rightarrow> int \<Rightarrow> int \<Rightarrow> headers \<Rightarrow> ('c, 'r) ui_page \<Rightarrow> string \<Rightarrow> bytes
    \<Rightarrow> 'c sweep_world \<Rightarrow> 'r guarded \<times> 'c sweep_world" where
  "plain_page env t0 t1 hs page token body = identified env t0 t1 hs (\<lambda>cx w.
     case page token body cx w of (r, w') \<Rightarrow> (Served r None, w'))"

definition ui_call :: "('c, 'j, 'z) api_env_scheme \<Rightarrow> bool \<Rightarrow> int \<Rightarrow> int \<Rightarrow> ui_request \<Rightarrow> ('c, 'r) ui_page
    \<Rightarrow> 'c sweep_world \<Rightarrow> 'r guarded \<times> 'c sweep_world" where
  "ui_call env secure t0 t1 q page =
    require_session (de_http env) (de_sessions env) t0 t1 (uq_headers q) (uq_path q)
      (csrf_middleware (de_http env) secure (uq_headers q) (uq_method q) (uq_body q) (uq_minted q) (\<lambda>token body.
         if under_admin (uq_path q)
         then require_admin_page env t0 t1 (uq_headers q) (plain_page env t0 t1 (uq_headers q) page token body)
         else plain_page env t0 t1 (uq_headers q) page token body))"

section \<open>What the layers guarantee\<close>

lemma touch_frame: "\<not> starts_with ''session:'' k \<Longrightarrow> keeps k (session_touch ss t0 t1 cookie)"
  unfolding session_touch_def session_read_def session_write_def session_delete_def Let_def
  by (auto intro!: keeps_intros simp: admin_bucket_def session_key_def split: option.split prod.split)

lemma valid_session_frame:
  assumes "has_valid_session lib sessions t0 t1 hs s = (ok, s')" "\<not> starts_with ''session:'' k"
  shows "map_of s' k = map_of s k"
  using assms keepsD[OF touch_frame[OF assms(2)]]
  by (auto simp: has_valid_session_def split: option.splits prod.splits)

lemma caller_frame:
  assumes "\<not> starts_with ''session:'' k" "\<not> starts_with ''token:'' k"
  shows "keeps k (caller_of env t0 t1 hs)"
proof -
  have t: "k \<noteq> token_key i" for i using assms(2) by (auto simp: token_key_def)
  have o: "keeps k (load_access aenv h)" for aenv h
  proof -
    have "snd (load_access aenv h s) = s" for s
    proof -
      have r: "snd (load_access_token (au_oauth aenv) h s) = s" by (simp add: load_access_token_def)
      obtain v s' where v: "load_access_token (au_oauth aenv) h s = (v, s')" by force
      have "snd (from_oauth_error e s') = s'" for e by (cases e) (simp_all add: io_simps)
      then show ?thesis using r v by (cases v) (simp_all add: load_access_def)
    qed
    then show ?thesis by (simp add: keeps_def)
  qed
  have rt: "keeps k (read_token_by_id aenv i)" for aenv i by (simp add: keeps_def)
  have a: "keeps k (authenticate aenv t0 t1 given)" for aenv given
    unfolding authenticate_def authenticate_wmt_def authenticate_wmm_def index_id_def
    by (auto intro!: keeps_intros o rt simp: t admin_bucket_def)
  have u: "keeps k (get_user_by_id aenv i)" for aenv i
    unfolding get_user_by_id_def found_or_error_def by (auto intro!: keeps_intros split: option.split)
  show ?thesis
    unfolding caller_of_def bearer_caller_def session_caller_def
    by (auto intro!: keeps_intros a u touch_frame[OF assms(1)] split: option.split)
qed

text \<open>C6: A page behind the layers is served to nobody else.  If a request that may change
  something ends with a page, its browser has a valid session, sent the form token as a cookie and
  as the field \<^theory_text>\<open>_csrf\<close> of a body of at most 64 KiB, and the caller is identified, an
  administrator below \<^theory_text>\<open>/ui/admin\<close>.  Without that
  no page runs: the route table stays, and so does the store but for the use of sessions and tokens.\<close>

theorem pages_are_guarded:
  fixes env :: "('c, 'j, 'z) api_env_scheme" and w :: "'c sweep_world"
  assumes run: "ui_call env secure t0 t1 q page w = (x, w')" and m: "is_mutating (uq_method q)"
  shows "(\<exists>token b s s1 cx r. x = Served r None
      \<and> has_valid_session (de_http env) (de_sessions env) t0 t1 (uq_headers q) (sw_store w) = (True, s)
      \<and> pick_csrf_cookie (de_http env) (uq_headers q) = Some token
      \<and> ht_to_bytes (de_http env) (uq_body q) (64 * 1024) = Some b \<and> pick_csrf_from_form (de_http env) b = Some token
      \<and> (\<exists>s2. caller_of env t0 t1 (uq_headers q) s1 = (Inr cx, s2) \<and> page token b cx (w\<lparr>sw_store := s2\<rparr>) = (r, w'))
      \<and> (if under_admin (uq_path q) then \<exists>cx0. caller_of env t0 t1 (uq_headers q) s = (Inr cx0, s1) \<and> cx_is_admin cx0
         else s1 = s))
    \<or> ((\<forall>r c. x \<noteq> Served r c) \<and> sw_table w' = sw_table w \<and> sw_sent w' = sw_sent w
      \<and> (\<forall>k. starts_with ''session:'' k \<or> starts_with ''token:'' k \<or> map_of (sw_store w') k = map_of (sw_store w) k))"
proof -
  note cf = keepsD[OF caller_frame]
  obtain ok s where s: "has_valid_session (de_http env) (de_sessions env) t0 t1 (uq_headers q) (sw_store w) = (ok, s)" by force
  show ?thesis
  proof (cases "ok \<and> (\<exists>token b. pick_csrf_cookie (de_http env) (uq_headers q) = Some token
      \<and> ht_to_bytes (de_http env) (uq_body q) MAX_FORM_BYTES = Some b \<and> pick_csrf_from_form (de_http env) b = Some token)")
    case False
    then show ?thesis using run m s valid_session_frame[OF s]
      by (auto simp: ui_call_def require_session_def Let_def csrf_middleware_def split: option.splits if_splits)
  next
    case True
    then obtain token b where t: "pick_csrf_cookie (de_http env) (uq_headers q) = Some token"
      "ht_to_bytes (de_http env) (uq_body q) MAX_FORM_BYTES = Some b" "pick_csrf_from_form (de_http env) b = Some token"
      by blast
    have run1: "(if under_admin (uq_path q)
         then require_admin_page env t0 t1 (uq_headers q) (plain_page env t0 t1 (uq_headers q) page token b)
         else plain_page env t0 t1 (uq_headers q) page token b) (w\<lparr>sw_store := s\<rparr>) = (x, w')"
      using run m s t True
      by (cases "under_admin (uq_path q)") (simp_all add: ui_call_def require_session_def Let_def csrf_middleware_def)
    have plain: "(\<exists>cx s2 r. x = Served r None \<and> caller_of env t0 t1 (uq_headers q) s1 = (Inr cx, s2)
          \<and> page token b cx (w\<lparr>sw_store := s2\<rparr>) = (r, w'))
        \<or> ((\<forall>r c. x \<noteq> Served r c) \<and> sw_table w' = sw_table w \<and> sw_sent w' = sw_sent w
      \<and> (\<forall>k. starts_with ''session:'' k \<or> starts_with ''token:'' k \<or> map_of (sw_store w') k = map_of (sw_store w) k))"
      if p: "plain_page env t0 t1 (uq_headers q) page token b (w\<lparr>sw_store := s1\<rparr>) = (x, w')"
        and s1: "\<forall>k. starts_with ''session:'' k \<or> starts_with ''token:'' k \<or> map_of s1 k = map_of (sw_store w) k" for s1
    proof (cases "caller_of env t0 t1 (uq_headers q) s1")
      case (Pair y s2)
      have k: "\<forall>k. starts_with ''session:'' k \<or> starts_with ''token:'' k \<or> map_of s2 k = map_of (sw_store w) k"
        using cf[OF _ _ Pair] s1 by metis
      show ?thesis
      proof (cases y)
        case (Inl e)
        then have "w' = w\<lparr>sw_store := s2\<rparr>" "x = Unidentified e None" using p Pair by (simp_all add: plain_page_def identified_def)
        then show ?thesis using k by simp
      next
        case (Inr cx)
        then show ?thesis using p Pair by (auto simp: plain_page_def identified_def split: prod.splits)
      qed
    qed
    have sk: "\<forall>k. starts_with ''session:'' k \<or> starts_with ''token:'' k \<or> map_of s k = map_of (sw_store w) k"
      using valid_session_frame[OF s] by blast
    show ?thesis
    proof (cases "under_admin (uq_path q)")
      case False
      then show ?thesis using plain[of s] sk run1 t s True unfolding MAX_FORM_BYTES_def by auto
    next
      case adm: True
      obtain y s1 where y: "caller_of env t0 t1 (uq_headers q) s = (y, s1)" by force
      have s1: "\<forall>k. starts_with ''session:'' k \<or> starts_with ''token:'' k \<or> map_of s1 k = map_of (sw_store w) k"
        using cf[OF _ _ y] sk by metis
      show ?thesis
      proof (cases "\<exists>cx0. y = Inr cx0 \<and> cx_is_admin cx0")
        case False
        then show ?thesis using run1 adm y s1
          by (cases y) (auto simp: require_admin_page_def identified_def)
      next
        case True
        then have "plain_page env t0 t1 (uq_headers q) page token b (w\<lparr>sw_store := s1\<rparr>) = (x, w')"
          using run1 adm y by (auto simp: require_admin_page_def identified_def)
        from plain[OF this s1] True y t s adm \<open>ok \<and> _\<close> show ?thesis unfolding MAX_FORM_BYTES_def by auto
      qed
    qed
  qed
qed


text \<open>A form with a matching token from a browser without a session.\<close>

definition demo_submission :: ui_request where
  "demo_submission = \<lparr>uq_headers = [(''cookie'', ''wm_csrf=abc'')], uq_method = ''POST'', uq_path = ''/ui/admin'',
     uq_body = ''_csrf=abc&x=y'', uq_minted = ''new''\<rparr>"

definition demo_page :: "(unit, string) ui_page" where
  "demo_page token body cx w = (''done'', w\<lparr>sw_store := []\<rparr>)"

theorem pages_are_guarded_witness:
  "\<exists>w'. ui_call demo_api False 8 9 demo_submission demo_page shared_world = (ToLogin ''/auth/login?next=/ui/admin'', w')
    \<and> sw_table w' = demo_table \<and> map_of (sw_store w') (group_key ulid_a) = map_of shared_store (group_key ulid_a)"
proof -
  have n: "de_sessions demo_api = None" by (simp add: demo_api_def demo_dispatch_def dispatch_env.defs host_env.defs api_env.defs)
  have e: "encode_next ''/ui/admin'' = ''/ui/admin''" by code_simp
  obtain x w' where r: "ui_call demo_api False 8 9 demo_submission demo_page shared_world = (x, w')" by force
  then have x: "x = ToLogin ''/auth/login?next=/ui/admin''"
    using n e by (simp add: ui_call_def require_session_def has_valid_session_def Let_def demo_submission_def)
  have "is_mutating (uq_method demo_submission)" by (simp add: demo_submission_def is_mutating_def)
  from pages_are_guarded[OF r this] x have "sw_table w' = sw_table shared_world"
    "\<forall>k. starts_with ''session:'' k \<or> starts_with ''token:'' k \<or> map_of (sw_store w') k = map_of (sw_store shared_world) k"
    by auto
  moreover have "\<not> starts_with ''session:'' (group_key ulid_a)" "\<not> starts_with ''token:'' (group_key ulid_a)"
    by (simp_all add: group_key_def)
  ultimately have "sw_table w' = sw_table shared_world"
    "map_of (sw_store w') (group_key ulid_a) = map_of (sw_store shared_world) (group_key ulid_a)" by blast+
  then show ?thesis using r x by (simp add: shared_world_def)
qed


text \<open>A form the host rendered passes: its body starts with the token the browser holds as its only cookie of that
  name.\<close>

definition token_char :: "char \<Rightarrow> bool" where
  "token_char c \<longleftrightarrow> is_alnum c \<or> c = CHR ''-'' \<or> c = CHR ''_''"

lemma token_text_facts:
  assumes "list_all token_char token"
  shows "CHR '';'' \<notin> set token" "CHR ''='' \<notin> set token" "CHR ''&'' \<notin> set token" "list_all (\<lambda>c. code c < 128) token"
  using assms by (auto simp: list_all_iff token_char_def is_alnum_def is_lower_def is_upper_def is_digit_def)

lemma own_form_passes:
  assumes "list_all token_char token" "valid_utf8 flds" "ht_url_decode lib token = Some token"
  shows "pick_csrf_from_form lib (''_csrf='' @ token @ ''&'' @ flds) = Some token"
proof -
  note t = token_text_facts[OF assms(1)]
  have "valid_utf8 (''_csrf='' @ token @ ''&'')" using t(4) by (intro valid_utf8_ascii) (simp add: list_all_iff)
  from valid_utf8_append[OF this assms(2)] have u: "valid_utf8 (''_csrf='' @ token @ ''&'' @ flds)" by simp
  have "split_on (CHR ''&'') ((''_csrf='' @ token) @ CHR ''&'' # flds) = (''_csrf='' @ token) # split_on (CHR ''&'') flds"
    using t(3) by (intro split_on_append) simp
  then have f: "csrf_field lib (split_on (CHR ''&'') (''_csrf='' @ token @ ''&'' @ flds))
      = csrf_field lib ((''_csrf'' @ CHR ''='' # token) # split_on (CHR ''&'') flds)" by simp
  have "split_once (CHR ''='') (''_csrf'' @ CHR ''='' # token) = Some (''_csrf'', token)"
    by (rule split_once_append) simp
  then show ?thesis using u f assms(3) by (simp add: pick_csrf_from_form_def)
qed

text \<open>The layer cannot tell who chose the pair: any token accepted in the form is accepted if the same text comes first
  among the cookies, the host's own token after it notwithstanding.\<close>

lemma foreign_token_accepted:
  assumes "list_all token_char token" "token \<noteq> []" "ht_to_str lib v = Some (''wm_csrf='' @ token @ ''; '' @ others)"
    and "is_mutating method" "ht_to_bytes lib body MAX_FORM_BYTES = Some b" "pick_csrf_from_form lib b = Some token"
  shows "csrf_middleware lib secure ((''cookie'', v) # hs) method body minted page s = page token b s"
proof -
  note t = token_text_facts[OF assms(1)]
  have "split_on (CHR '';'') ((''wm_csrf='' @ token) @ CHR '';'' # ('' '' @ others))
      = (''wm_csrf='' @ token) # split_on (CHR '';'') ('' '' @ others)"
    using t(1) by (intro split_on_append) simp
  moreover have "trim (''wm_csrf='' @ token) = ''wm_csrf='' @ token"
  proof (rule trim_visible)
    have "token_char (last token)" using assms(1,2) by (simp add: list_all_iff)
    then show "visible (last (''wm_csrf='' @ token))" using assms(2)
      by (auto simp: visible_def ascii_space_def token_char_def is_alnum_def is_lower_def is_upper_def is_digit_def)
  qed (simp_all add: visible_def ascii_space_def)
  ultimately have "pick_csrf_cookie lib ((''cookie'', v) # hs) = Some token"
    using assms(3) by (simp add: pick_csrf_cookie_def CSRF_COOKIE_NAME_def)
  then show ?thesis using assms(4-6) by (simp add: csrf_middleware_def Let_def)
qed

text \<open>A handler of a group sends such a cookie for the whole domain: \<^theory_text>\<open>set-cookie\<close> is no reserved header.\<close>

lemma handler_sets_any_cookie:
  assumes "ht_header_name lib ''set-cookie'' = Some ''set-cookie''" "ht_value_ok lib v"
  shows "fh_wire (filter_handler_headers lib [(''set-cookie'', v)]) = header_append ''set-cookie'' v []"
  using assms by (simp add: filter_handler_headers_def no_headers_def send_header_def reserved_response_header_def)

end
