(* ===== verification/Mcp_Base.thy ===== *)
theory Mcp_Base
  imports Api
begin

text \<open>The MCP server's ground (\<^theory_text>\<open>mcp/error.rs\<close>, \<^theory_text>\<open>mcp/auth.rs\<close>, \<^theory_text>\<open>mcp/context.rs\<close>): the
  errors of its tools, the bearer check in front of them, and who may use a group, a route or a
  journal.

  A tool transforms the world like an endpoint of the REST API; it fails with an error of JSON-RPC.
  The transport (rmcp) is not modelled: a tool starts from its decoded arguments, in the request
  that passed the bearer check, so \<^theory_text>\<open>auth_from\<close> finds its caller.\<close>

section \<open>Errors\<close>

datatype rpc_kind = ResourceNotFound | InvalidParams | InternalError

record mcp_error =
  me_kind :: rpc_kind
  me_message :: api_message
  me_code :: string
  me_parameter :: "string option"
  me_diagnostics :: "string list"

datatype mcp_failure = Rpc mcp_error | RpcPanicked

definition rpc :: "rpc_kind \<Rightarrow> string \<Rightarrow> api_message \<Rightarrow> mcp_failure" where
  "rpc kind cd m = Rpc \<lparr>me_kind = kind, me_message = m, me_code = cd, me_parameter = None, me_diagnostics = []\<rparr>"

definition mcp_not_found :: "string \<Rightarrow> mcp_failure" where "mcp_not_found m = rpc ResourceNotFound ''not_found'' (Msg m)"
definition mcp_forbidden :: "string \<Rightarrow> mcp_failure" where "mcp_forbidden m = rpc InvalidParams ''forbidden'' (Msg m)"
definition mcp_validation :: "api_message \<Rightarrow> mcp_failure" where "mcp_validation = rpc InvalidParams ''validation_failed''"
definition mcp_conflict :: "api_message \<Rightarrow> mcp_failure" where "mcp_conflict = rpc InvalidParams ''conflict''"
definition mcp_internal :: "api_message \<Rightarrow> mcp_failure" where "mcp_internal = rpc InternalError ''internal_error''"

text \<open>The messages of these errors are formatted from the data kept here.\<close>

fun map_registry_error :: "registry_error \<Rightarrow> mcp_failure" where
  "map_registry_error NotFound = mcp_not_found ''not found''"
| "map_registry_error (Conflict c) = mcp_conflict (OfRegistry (Conflict c))"
| "map_registry_error (InvalidPath e) = mcp_validation (OfRegistry (InvalidPath e))"
| "map_registry_error (InvalidMethod m) = mcp_validation (OfRegistry (InvalidMethod m))"
| "map_registry_error (InvalidName n) = mcp_validation (OfRegistry (InvalidName n))"
| "map_registry_error (InvalidTtl t) = mcp_validation (OfRegistry (InvalidTtl t))"
| "map_registry_error (StorageError e) = mcp_internal (OfRegistry (StorageError e))"
| "map_registry_error (Malformed m) = mcp_internal (OfRegistry (Malformed m))"

definition map_filter_error :: "filter_parse_error \<Rightarrow> mcp_failure" where
  "map_filter_error e = Rpc \<lparr>me_kind = InvalidParams, me_message = OfFilter e,
     me_code = (if e = OwnerNonAdmin then ''forbidden'' else ''validation_failed''),
     me_parameter = Some (parameter e), me_diagnostics = []\<rparr>"

fun map_journal_error :: "journal_error \<Rightarrow> mcp_failure" where
  "map_journal_error JNotFound = mcp_not_found ''not found''"
| "map_journal_error (JStorage e) = mcp_internal (OfJournal (JStorage e))"
| "map_journal_error (JMalformed m) = mcp_internal (OfJournal (JMalformed m))"

definition kind_of_code :: "string \<Rightarrow> rpc_kind" where
  "kind_of_code c =
    (if c = ''not_found'' then ResourceNotFound
     else if c = ''unauthorized'' \<or> c = ''forbidden'' then InvalidParams
     else if c = ''compile_failed'' \<or> c = ''validation_failed'' \<or> c = ''conflict'' then InvalidParams
     else InternalError)"

fun map_api_error :: "api_failure \<Rightarrow> mcp_failure" where
  "map_api_error (Answered e) = Rpc \<lparr>me_kind = kind_of_code (ap_code e), me_message = ap_message e,
     me_code = ap_code e, me_parameter = None, me_diagnostics = ap_diagnostics e\<rparr>"
| "map_api_error Panicked = RpcPanicked"

section \<open>The bearer check\<close>

text \<open>A refusal is an answer of HTTP: 401 with the pointer to the metadata if it is a header value,
  or 500.\<close>

datatype bearer_refusal =
    Unauthenticated string "string option"
  | AuthLookup auth_error

definition unauthenticated :: "('c, 'j, 'z) api_env_scheme \<Rightarrow> (string \<times> bytes) list \<Rightarrow> string \<Rightarrow> bearer_refusal" where
  "unauthenticated env hs m =
    (let base = public_base_url (de_http env) hs (ae_trust_forwarded env);
         challenge = ''Bearer realm='' @ [CHR 0x22] @ ''wm-host'' @ [CHR 0x22] @ '', resource_metadata='' @ [CHR 0x22]
           @ base @ ''/.well-known/oauth-protected-resource'' @ [CHR 0x22] in
     Unauthenticated m (if ht_value_ok (de_http env) challenge then Some challenge else None))"

definition require_bearer :: "('c, 'j, 'z) api_env_scheme \<Rightarrow> int \<Rightarrow> int \<Rightarrow> (string \<times> bytes) list
    \<Rightarrow> (mem_store, bearer_refusal, auth_context) io" where
  "require_bearer env t0 t1 hs =
    (let refused = (\<lambda>m. raise (unauthenticated env hs m)) in
     case map_of hs ''authorization'' of
       None \<Rightarrow> refused ''missing Authorization header''
     | Some v \<Rightarrow> (case ht_to_str (de_http env) v of
         None \<Rightarrow> refused ''Authorization header is not valid ASCII''
       | Some raw0 \<Rightarrow> (case strip_prefix ''Bearer '' raw0 of
           None \<Rightarrow> refused ''expected `Bearer wmt_...` or `Bearer wmm_...` scheme''
         | Some given \<Rightarrow> bind_io (map_err AuthLookup (authenticate (ae_auth env) t0 t1 (trim given))) (\<lambda>found.
             case found of None \<Rightarrow> refused ''invalid or expired token'' | Some cx \<Rightarrow> ret cx))))"

section \<open>Who may use what\<close>

type_synonym ('c, 'a) tool = "('c sweep_world, mcp_failure, 'a) io"

abbreviation mcp_registry :: "'a rio \<Rightarrow> ('c, 'a) tool" where
  "mcp_registry m \<equiv> map_err map_registry_error (on_store m)"

abbreviation mcp_journal :: "'a jio \<Rightarrow> ('c, 'a) tool" where
  "mcp_journal m \<equiv> map_err map_journal_error (on_store m)"

definition mcp_group_by_ref :: "('c, 'j, 'z) api_env_scheme \<Rightarrow> string \<Rightarrow> ('c, group) tool" where
  "mcp_group_by_ref env group_ref =
    map_err (\<lambda>e. mcp_not_found ''group not found'') (on_store (read_group_by_ref (de_registry env) group_ref))"

definition mcp_group_gate :: "('c, 'j, 'z) api_env_scheme \<Rightarrow> auth_context \<Rightarrow> string \<Rightarrow> ('c, group) tool" where
  "mcp_group_gate env cx group_ref = bind_io (mcp_group_by_ref env group_ref) (\<lambda>g.
     if \<not> cx_is_admin cx \<and> g_owner_id g \<noteq> cx_user_id cx
     then raise (mcp_forbidden ''must be the group's owner or an admin'') else ret g)"

definition reads_journal :: "('c, 'j, 'z) api_env_scheme \<Rightarrow> auth_context \<Rightarrow> string \<Rightarrow> string \<Rightarrow> ('c, group) tool" where
  "reads_journal env cx refusal group_ref = bind_io (mcp_group_by_ref env group_ref) (\<lambda>g.
     if cx_is_admin cx then ret g
     else bind_io (mcp_registry (list_routes_by_owner (de_registry env) (cx_user_id cx))) (\<lambda>owned.
       if \<not> list_ex (\<lambda>r. r_group_id r = g_id g) owned then raise (mcp_forbidden refusal) else ret g))"

definition ensure_journal_reader :: "('c, 'j, 'z) api_env_scheme \<Rightarrow> auth_context \<Rightarrow> string \<Rightarrow> ('c, group) tool" where
  "ensure_journal_reader env cx = reads_journal env cx ''must be admin or own a route in this group to read its journal''"

definition mcp_route_gate :: "('c, 'j, 'z) api_env_scheme \<Rightarrow> auth_context \<Rightarrow> string \<Rightarrow> nat \<Rightarrow> ('c, route) tool" where
  "mcp_route_gate env cx group_ref n = bind_io (mcp_registry (get_route_by_slug (de_registry env) group_ref n)) (\<lambda>r.
     if \<not> cx_is_admin cx \<and> r_owner_id r \<noteq> cx_user_id cx
     then raise (mcp_forbidden ''must be the route's owner or an admin'') else ret r)"

section \<open>Arguments\<close>

text \<open>The slug of a route; the transport hands over texts.\<close>

definition parse_slug :: "string \<Rightarrow> mcp_failure + string \<times> nat" where
  "parse_slug slug = (case rsplit_once (CHR ''/'') slug of
      None \<Rightarrow> Inl (mcp_validation (Msg (''expected `{group}/{n}` slug, got: '' @ slug)))
    | Some (grp, num) \<Rightarrow> (case parse_u32 num of
        None \<Rightarrow> Inl (mcp_validation (Msg (''not a valid route number: '' @ num)))
      | Some n \<Rightarrow> Inr (grp, n)))"

definition confirmed :: "string \<Rightarrow> bool \<Rightarrow> ('c, unit) tool" where
  "confirmed name confirm =
    (if confirm then ret ()
     else raise (mcp_validation (Msg (name @ '' requires `confirm: true` '' @ [CHR 0xE2, CHR 0x80, CHR 0x94]
       @ '' set it explicitly to proceed''))))"

definition mcp_filtered :: "filter_parse_error + 'a \<Rightarrow> mcp_failure + 'a" where
  "mcp_filtered r = (case r of Inl e \<Rightarrow> Inl (map_filter_error e) | Inr x \<Rightarrow> Inr x)"

definition mcp_time_bound :: "('c, 'j, 'z) api_env_scheme \<Rightarrow> int \<Rightarrow> string option \<Rightarrow> mcp_failure + int option" where
  "mcp_time_bound env now given = (case given of
      None \<Rightarrow> Inr None
    | Some t \<Rightarrow> (case parse_since (au_time (ae_auth env)) (au_chrono (ae_auth env)) t now of
        Inl p \<Rightarrow> Inl RpcPanicked
      | Inr r \<Rightarrow> rmap Some (mcp_filtered r)))"

definition mcp_method :: "string option \<Rightarrow> mcp_failure + string option" where
  "mcp_method given = (case given of None \<Rightarrow> Inr None | Some m \<Rightarrow> rmap Some (mcp_filtered (validate_method m)))"

definition mcp_owner_filter :: "auth_context \<Rightarrow> string option \<Rightarrow> mcp_failure + string option" where
  "mcp_owner_filter cx owner_id =
    (if cx_is_admin cx then Inr owner_id
     else if owner_id \<noteq> None then Inl (map_filter_error OwnerNonAdmin)
     else Inr (Some (cx_user_id cx)))"

section \<open>Tools that mirror endpoints\<close>

text \<open>Two errors agree on their code.  A tool twins an endpoint if, from every world, both lead
  to the same world and both fail with agreeing errors or both succeed with related answers.\<close>

fun err_agree :: "mcp_failure \<Rightarrow> api_failure \<Rightarrow> bool" where
  "err_agree (Rpc x) (Answered y) \<longleftrightarrow> me_code x = ap_code y"
| "err_agree RpcPanicked Panicked \<longleftrightarrow> True"
| "err_agree _ _ \<longleftrightarrow> False"

definition twins :: "('a \<Rightarrow> 'b \<Rightarrow> bool) \<Rightarrow> ('c, 'a) tool \<Rightarrow> ('c, 'b) handler \<Rightarrow> bool" where
  "twins R m n \<longleftrightarrow> (\<forall>w. snd (m w) = snd (n w) \<and> rel_sum err_agree R (fst (m w)) (fst (n w)))"

named_theorems twin_intros

lemma agree_simps [simp]:
  "err_agree (mcp_not_found m) not_found"
  "err_agree (mcp_forbidden m) (forbidden m')"
  "err_agree (mcp_validation m1) (validation m2)"
  "err_agree (mcp_conflict m1) (conflict_error m2)"
  "err_agree (mcp_internal m1) (internal m2)"
  by (simp_all add: mcp_not_found_def not_found_def mcp_forbidden_def forbidden_def mcp_validation_def validation_def
      mcp_conflict_def conflict_error_def mcp_internal_def internal_def rpc_def api_failed_def)

lemma agree_registry [simp]: "err_agree (map_registry_error e) (from_registry e)"
  by (cases e) simp_all

lemma agree_journal [simp]: "err_agree (map_journal_error e) (from_journal e)"
  by (cases e) simp_all

lemma agree_filter [simp]: "err_agree (map_filter_error e) (from_filter e)"
  by (simp add: map_filter_error_def from_filter_def)

lemma agree_api [simp]: "err_agree (map_api_error e) e"
  by (cases e) simp_all

lemma mirrorsI: "(\<And>w. snd (m w) = snd (n w) \<and> rel_sum err_agree R (fst (m w)) (fst (n w))) \<Longrightarrow> twins R m n"
  by (simp add: twins_def)

lemma twins_ret [twin_intros]: "R x y \<Longrightarrow> twins R (ret x) (ret y)"
  by (simp add: twins_def ret_def)

lemma twins_raise [twin_intros]: "err_agree e f \<Longrightarrow> twins R (raise e) (raise f)"
  by (simp add: twins_def raise_def)

lemma twins_map_err [twin_intros]:
  "(\<And>e. err_agree (f e) (g e)) \<Longrightarrow> twins (=) (map_err f m) (map_err g m)"
  by (auto simp: twins_def map_err_run split: prod.split sum.split)

lemma twins_lift [twin_intros]: "rel_sum err_agree R r s \<Longrightarrow> twins R (lift_result r) (lift_result s)"
  by (auto simp: twins_def lift_result_def ret_def raise_def split: sum.splits)

lemma twins_bind:
  assumes "twins R m n" "\<And>x y. R x y \<Longrightarrow> twins S (f x) (g y)"
  shows "twins S (bind_io m f) (bind_io n g)"
proof (rule mirrorsI)
  fix w
  obtain x w1 where m: "m w = (x, w1)" by force
  obtain y w2 where n: "n w = (y, w2)" by force
  have "w1 = w2" "rel_sum err_agree R x y" using assms(1) m n by (auto simp: twins_def dest: spec[of _ w])
  then show "snd (bind_io m f w) = snd (bind_io n g w)
    \<and> rel_sum err_agree S (fst (bind_io m f w)) (fst (bind_io n g w))"
    using m n assms(2) by (auto simp: bind_io_def twins_def elim!: rel_sum.cases)
qed

lemma twins_bind_eq [twin_intros]:
  "\<lbrakk>twins (=) m n; \<And>x. twins S (f x) (g x)\<rbrakk> \<Longrightarrow> twins S (bind_io m f) (bind_io n g)"
  using twins_bind[of "(=)" m n S f g] by simp

lemma twins_seq [twin_intros]:
  "\<lbrakk>twins (=) m n; twins S f g\<rbrakk> \<Longrightarrow> twins S (seq_io m f) (seq_io n g)"
  unfolding seq_io_def by (rule twins_bind_eq)

lemma twins_if [twin_intros]:
  "\<lbrakk>b = c; c \<Longrightarrow> twins R m n; \<not> c \<Longrightarrow> twins R m' n'\<rbrakk>
   \<Longrightarrow> twins R (if b then m else m') (if c then n else n')"
  by simp

lemma twins_mono: "\<lbrakk>twins R m n; \<And>x y. R x y \<Longrightarrow> S x y\<rbrakk> \<Longrightarrow> twins S m n"
  by (auto simp: twins_def intro: sum.rel_mono_strong)

lemma twins_table [twin_intros]: "twins (=) (on_table f) (on_table f)"
  by (auto simp: twins_def on_table_def split: prod.split)

lemma twins_api [twin_intros]: "twins (=) (map_err map_api_error m) m"
  by (auto simp: twins_def map_err_run sum.rel_refl split: prod.split sum.split)

text \<open>An endpoint's answer is wrapped once more.\<close>

lemma twins_wrapped: "\<lbrakk>twins R m n; \<And>x y. R x y \<Longrightarrow> S x (f y)\<rbrakk> \<Longrightarrow> twins S m (bind_io n (\<lambda>y. ret (f y)))"
proof (rule mirrorsI)
  fix w
  assume a: "twins R m n" "\<And>x y. R x y \<Longrightarrow> S x (f y)"
  obtain x w1 where m: "m w = (x, w1)" by force
  obtain y w2 where n: "n w = (y, w2)" by force
  have "w1 = w2" "rel_sum err_agree R x y" using a(1) m n by (auto simp: twins_def dest: spec[of _ w])
  then show "snd (m w) = snd (bind_io n (\<lambda>y. ret (f y)) w) \<and> rel_sum err_agree S (fst (m w)) (fst (bind_io n (\<lambda>y. ret (f y)) w))"
    using m n a(2) by (auto simp: bind_io_def ret_def elim!: rel_sum.cases)
qed

end
