(* ===== verification/Mcp_Groups.thy ===== *)
theory Mcp_Groups
  imports Mcp_Base
begin

text \<open>The group tools of the MCP server (\<^theory_text>\<open>mcp/tools/groups.rs\<close>) and the tools on the state of
  groups (\<^theory_text>\<open>mcp/tools/state.rs\<close>).  Their code repeats the endpoints of the REST API rather than
  calling them.\<close>

section \<open>Groups\<close>

record mcp_group =
  gm_id :: string
  gm_name :: string
  gm_owner_id :: string
  gm_ttl_seconds :: nat
  gm_sliding_ttl :: bool
  gm_callout_enabled :: bool
  gm_implicit :: bool
  gm_created_at :: string
  gm_last_activity_at :: "string option"

definition mcp_group_of :: "('c, 'j, 'z) api_env_scheme \<Rightarrow> group \<Rightarrow> mcp_group" where
  "mcp_group_of env g = (let text_of = to_rfc3339 (de_registry env) in
    \<lparr>gm_id = g_id g, gm_name = g_name g, gm_owner_id = g_owner_id g, gm_ttl_seconds = g_ttl_seconds g,
     gm_sliding_ttl = g_sliding_ttl g, gm_callout_enabled = g_callout_enabled g, gm_implicit = g_implicit g,
     gm_created_at = text_of (g_created_at g), gm_last_activity_at = map_option text_of (g_last_activity_at g)\<rparr>)"

definition mcp_group_listing :: "('c, 'j, 'z) api_env_scheme \<Rightarrow> auth_context \<Rightarrow> int \<Rightarrow> groups_list_query
    \<Rightarrow> mcp_failure + (nat \<times> nat) \<times> group_sort_key \<times> sort_dir \<times> (group \<Rightarrow> bool) \<times> string option" where
  "mcp_group_listing env cx now q =
    rbind (mcp_filtered (parse_pagination (lg_offset q) (lg_limit q))) (\<lambda>pg.
    rbind (mcp_filtered (sort_dir_parse (lg_dir q) Desc)) (\<lambda>dir.
    rbind (mcp_filtered (parse_group_sort (lg_sort q))) (\<lambda>k.
    rbind (mcp_time_bound env now (lg_since q)) (\<lambda>since.
    rbind (mcp_time_bound env now (lg_until q)) (\<lambda>till.
    rbind (mcp_owner_filter cx (lg_owner_id q)) (\<lambda>owner.
    Inr (pg, k, dir, group_selected q since till, owner)))))))"

definition mcp_list_groups :: "('c, 'j, 'z) api_env_scheme \<Rightarrow> auth_context \<Rightarrow> int \<Rightarrow> groups_list_query
    \<Rightarrow> ('c, mcp_group page) tool" where
  "mcp_list_groups env cx now q =
    bind_io (lift_result (mcp_group_listing env cx now q)) (\<lambda>((offset, limit), k, dir, selected, owner).
    bind_io (mcp_registry (case owner of
        Some o' \<Rightarrow> list_groups_by_owner (de_registry env) o' | None \<Rightarrow> list_groups (de_registry env))) (\<lambda>gs.
    (let pg = slice_for_page (sort_groups (filter selected gs) k dir) offset limit in
     ret \<lparr>pg_items = map (mcp_group_of env) (pg_items pg), pg_total = pg_total pg,
       pg_next_offset = pg_next_offset pg\<rparr>)))"

definition mcp_show_group :: "('c, 'j, 'z) api_env_scheme \<Rightarrow> auth_context \<Rightarrow> string \<Rightarrow> ('c, mcp_group) tool" where
  "mcp_show_group env cx group_ref =
    bind_io (mcp_group_gate env cx group_ref) (\<lambda>g. ret (mcp_group_of env g))"

definition mcp_create_group :: "('c, 'j, 'z) api_env_scheme \<Rightarrow> auth_context \<Rightarrow> api_draw \<Rightarrow> create_group_body
    \<Rightarrow> ('c, mcp_group) tool" where
  "mcp_create_group env cx d a =
    bind_io (mcp_registry (create_group (de_registry env) (dw_names d) (dw_group_id d) (dw_now d)
      \<lparr>ng_name = (case gb_name a of Some n \<Rightarrow> n | None \<Rightarrow> []), ng_owner_id = cx_user_id cx,
       ng_ttl_seconds = gb_ttl_seconds a, ng_sliding_ttl = gb_sliding_ttl a\<rparr>)) (\<lambda>g.
    ret (mcp_group_of env g))"

text \<open>The number of routes that went with the group.\<close>

definition mcp_delete_group :: "('c, 'j, 'z) api_env_scheme \<Rightarrow> auth_context \<Rightarrow> string \<Rightarrow> bool \<Rightarrow> ('c, nat) tool" where
  "mcp_delete_group env cx group_ref confirm =
    seq_io (confirmed ''delete_group'' confirm)
    (bind_io (mcp_group_gate env cx group_ref) (\<lambda>g.
     bind_io (mcp_registry (cascade_delete_group (de_registry env) (g_id g))) (\<lambda>routes_deleted.
     seq_io (on_table (refresh_after_group_cascade (g_id g))) (ret routes_deleted))))"

definition mcp_refresh_group_ttl :: "('c, 'j, 'z) api_env_scheme \<Rightarrow> auth_context \<Rightarrow> string \<Rightarrow> ('c, mcp_group) tool" where
  "mcp_refresh_group_ttl env cx group_ref =
    bind_io (mcp_group_gate env cx group_ref) (\<lambda>g.
    bind_io (mcp_registry (refresh_group (de_registry env) (g_id g))) (\<lambda>refreshed.
    ret (mcp_group_of env refreshed)))"

definition mcp_rename_step :: "('c, 'j, 'z) api_env_scheme \<Rightarrow> group \<Rightarrow> string option \<Rightarrow> ('c, unit) tool" where
  "mcp_rename_step env g new_name = (case new_name of
      None \<Rightarrow> ret ()
    | Some n \<Rightarrow> bind_io (mcp_registry (rename_group (de_registry env) (g_id g) n)) (\<lambda>renamed.
        on_table (refresh_after_group_rename (g_id g) (g_name renamed))))"

definition mcp_update_group :: "('c, 'j, 'z) api_env_scheme \<Rightarrow> auth_context \<Rightarrow> string \<Rightarrow> patch_group_body
    \<Rightarrow> ('c, mcp_group) tool" where
  "mcp_update_group env cx group_ref a =
    bind_io (mcp_group_gate env cx group_ref) (\<lambda>g.
      if gp_name a = None \<and> gp_ttl_seconds a = None \<and> gp_sliding_ttl a = None \<and> gp_callout_enabled a = None
      then raise (mcp_validation (Msg
        ''update_group needs at least one of `name`, `ttl_seconds`, `sliding_ttl`, or `callout_enabled`''))
      else seq_io (mcp_rename_step env g (gp_name a))
        (bind_io (mcp_registry
           (if gp_ttl_seconds a \<noteq> None \<or> gp_sliding_ttl a \<noteq> None \<or> gp_callout_enabled a \<noteq> None
            then patch_group (de_registry env) (g_id g) (gp_ttl_seconds a) (gp_sliding_ttl a) (gp_callout_enabled a)
            else read_group_by_ref (de_registry env) (g_id g)))
         (\<lambda>updated. ret (mcp_group_of env updated))))"

definition mcp_clear_journal :: "('c, 'j, 'z) api_env_scheme \<Rightarrow> auth_context \<Rightarrow> string \<Rightarrow> bool \<Rightarrow> ('c, unit) tool" where
  "mcp_clear_journal env cx group_ref confirm =
    seq_io (confirmed ''clear_journal'' confirm)
    (bind_io (mcp_group_gate env cx group_ref) (\<lambda>g. mcp_registry (clear_group_journal (g_id g))))"

definition mcp_import_group :: "('c, 'j, 'z) api_env_scheme \<Rightarrow> auth_context \<Rightarrow> api_draw \<Rightarrow> (nat \<Rightarrow> api_draw)
    \<Rightarrow> group_spec \<Rightarrow> ('c, import_summary) tool" where
  "mcp_import_group env cx d ds spec = map_err map_api_error (import_group_core env cx d ds spec)"

definition mcp_export_group :: "('c, 'j, 'z) api_env_scheme \<Rightarrow> auth_context \<Rightarrow> string \<Rightarrow> ('c, group_spec) tool" where
  "mcp_export_group env cx group_ref = map_err map_api_error (export_group_core env cx group_ref)"

section \<open>The state of a group\<close>

record 'j mcp_state_entry =
  ms_key :: string
  ms_kind :: string
  ms_value :: "'j wire_bytes option"
  ms_length :: "nat option"

definition mcp_state_entry_of :: "('j, 'z) wire_lib_scheme \<Rightarrow> state_entry \<Rightarrow> 'j mcp_state_entry" where
  "mcp_state_entry_of lib e = \<lparr>ms_key = se_key e, ms_kind = se_kind e,
     ms_value = map_option (from_bytes lib) (se_value e), ms_length = se_length e\<rparr>"

text \<open>The entries to write; the number written is the number of different keys.\<close>

definition mcp_entries :: "('j, 'z) wire_lib_scheme \<Rightarrow> (string \<times> 'j wire_bytes) list \<Rightarrow> mcp_failure + (string \<times> bytes) list" where
  "mcp_entries lib entries = (case decode_entries lib entries [] of
      Inl e \<Rightarrow> Inl (mcp_validation (Msg e)) | Inr es \<Rightarrow> Inr es)"

definition mcp_clear_group_state :: "('c, 'j, 'z) api_env_scheme \<Rightarrow> auth_context \<Rightarrow> string \<Rightarrow> bool \<Rightarrow> ('c, unit) tool" where
  "mcp_clear_group_state env cx group_ref confirm =
    seq_io (confirmed ''clear_group_state'' confirm)
    (bind_io (mcp_group_gate env cx group_ref) (\<lambda>g. mcp_registry (clear_group_state (g_id g))))"

definition mcp_show_group_state :: "('c, 'j, 'z) api_env_scheme \<Rightarrow> auth_context \<Rightarrow> string
    \<Rightarrow> ('c, 'j mcp_state_entry list) tool" where
  "mcp_show_group_state env cx group_ref =
    bind_io (mcp_group_gate env cx group_ref) (\<lambda>g.
    bind_io (mcp_registry (list_group_state (g_id g))) (\<lambda>es.
    ret (map (mcp_state_entry_of (ae_wire env)) es)))"

definition mcp_set_group_state :: "('c, 'j, 'z) api_env_scheme \<Rightarrow> auth_context \<Rightarrow> string
    \<Rightarrow> (string \<times> 'j wire_bytes) list \<Rightarrow> ('c, nat) tool" where
  "mcp_set_group_state env cx group_ref entries =
    bind_io (mcp_group_gate env cx group_ref) (\<lambda>g.
    bind_io (lift_result (mcp_entries (ae_wire env) entries)) (\<lambda>es.
    seq_io (mcp_registry (set_group_state (g_id g) es)) (ret (length es))))"

section \<open>The tools and the endpoints\<close>

text \<open>What the two servers answer for the same group.\<close>

definition same_group :: "mcp_group \<Rightarrow> group_response \<Rightarrow> bool" where
  "same_group x y \<longleftrightarrow> gm_id x = gr_id y \<and> gm_name x = gr_name y \<and> gm_owner_id x = gr_owner_id y
     \<and> gm_ttl_seconds x = gr_ttl_seconds y \<and> gm_sliding_ttl x = gr_sliding_ttl y
     \<and> gm_callout_enabled x = gr_callout_enabled y \<and> gm_implicit x = gr_implicit y
     \<and> gm_created_at x = gr_created_at y \<and> gm_last_activity_at x = gr_last_activity_at y"

definition same_page :: "('a \<Rightarrow> 'b \<Rightarrow> bool) \<Rightarrow> 'a page \<Rightarrow> 'b page \<Rightarrow> bool" where
  "same_page R x y \<longleftrightarrow> list_all2 R (pg_items x) (pg_items y) \<and> pg_total x = pg_total y
     \<and> pg_next_offset x = pg_next_offset y"

lemma same_group_of [simp]: "same_group (mcp_group_of env g) (group_response_of env g)"
  by (simp add: same_group_def mcp_group_of_def group_response_of_def Let_def)

lemma agree_rbind [twin_intros]:
  "\<lbrakk>rel_sum err_agree (=) r s; \<And>x. rel_sum err_agree S (f x) (g x)\<rbrakk>
   \<Longrightarrow> rel_sum err_agree S (rbind r f) (rbind s g)"
  by (auto elim!: rel_sum.cases)

lemma agree_filtered [twin_intros]: "rel_sum err_agree (=) (mcp_filtered r) (filtered r)"
  by (simp add: mcp_filtered_def filtered_def split: sum.split)

lemma agree_time_bound [twin_intros]: "rel_sum err_agree (=) (mcp_time_bound env now t) (time_bound env now t)"
  by (simp add: mcp_time_bound_def time_bound_def mcp_filtered_def split: option.split sum.split)

lemma agree_owner [twin_intros]: "rel_sum err_agree (=) (mcp_owner_filter cx i) (owner_filter cx i)"
  by (simp add: mcp_owner_filter_def owner_filter_def)

lemma agree_entries [twin_intros]: "rel_sum err_agree (=) (mcp_entries lib es) (decode_state_entries lib es)"
  by (simp add: mcp_entries_def decode_state_entries_def split: sum.split)

lemma twins_group_gate [twin_intros]: "twins (=) (mcp_group_gate env cx g) (ensure_group_owner_or_admin env cx g)"
  unfolding mcp_group_gate_def ensure_group_owner_or_admin_def mcp_group_by_ref_def
  by (auto intro!: twin_intros)

lemma confirmed_True [simp]: "seq_io (confirmed n True) m = m"
  by (simp add: confirmed_def seq_io_def)

lemma group_listing_agrees:
  "rel_sum err_agree (=) (mcp_group_listing env cx now q) (group_listing env cx now q)"
  unfolding mcp_group_listing_def group_listing_def
  by (intro twin_intros) simp

lemma same_page_map:
  "(\<And>x. R (f x) (g x)) \<Longrightarrow> same_page R \<lparr>pg_items = map f xs, pg_total = n, pg_next_offset = m\<rparr>
     \<lparr>pg_items = map g xs, pg_total = n, pg_next_offset = m\<rparr>"
  by (simp add: same_page_def list_all2_conv_all_nth)

lemma twins_list_groups: "twins (same_page same_group) (mcp_list_groups env cx now q) (api_list_groups env cx now q)"
  unfolding mcp_list_groups_def api_list_groups_def list_groups_core_def bind_assoc
  by (auto simp: Let_def bind_assoc intro!: twin_intros group_listing_agrees same_page_map)

lemma twins_show_group: "twins same_group (mcp_show_group env cx g) (api_get_group env cx g)"
  unfolding mcp_show_group_def api_get_group_def by (intro twin_intros same_group_of)

lemma twins_create_group: "twins same_group (mcp_create_group env cx d b) (api_create_group env cx d b)"
  unfolding mcp_create_group_def api_create_group_def by (intro twin_intros same_group_of agree_registry)

lemma twins_delete_group: "twins (\<lambda>n _. True) (mcp_delete_group env cx g True) (api_delete_group env cx g)"
proof -
  have "twins (\<lambda>n _. True) (seq_io (on_table f) (ret n)) (on_table f)" for f and n :: nat
    by (auto simp: twins_def on_table_def seq_io_def bind_io_def ret_def split: prod.split)
  then show ?thesis unfolding mcp_delete_group_def api_delete_group_def confirmed_True
    by (intro twin_intros agree_registry) auto
qed

lemma twins_refresh_group: "twins same_group (mcp_refresh_group_ttl env cx g) (api_refresh_group env cx g)"
  unfolding mcp_refresh_group_ttl_def api_refresh_group_def by (intro twin_intros same_group_of agree_registry)

lemma twins_rename [twin_intros]: "twins (=) (mcp_rename_step env g n) (rename_step env g n)"
  unfolding mcp_rename_step_def rename_step_def
  by (cases n) (auto intro!: twin_intros)

lemma twins_update_group: "twins same_group (mcp_update_group env cx g b) (api_patch_group env cx g b)"
  unfolding mcp_update_group_def api_patch_group_def by (intro twin_intros same_group_of agree_registry agree_simps refl)

lemma twins_clear_journal: "twins (=) (mcp_clear_journal env cx g True) (api_delete_group_journal env cx g)"
  unfolding mcp_clear_journal_def api_delete_group_journal_def confirmed_True by (intro twin_intros agree_registry)

lemma twins_clear_group_state: "twins (=) (mcp_clear_group_state env cx g True) (api_delete_group_state env cx g)"
  unfolding mcp_clear_group_state_def api_delete_group_state_def confirmed_True by (intro twin_intros agree_registry)

fun same_state :: "('j, 'z) wire_lib_scheme \<Rightarrow> 'j mcp_state_entry list \<Rightarrow> 'j state_answer \<Rightarrow> bool" where
  "same_state lib xs (Preview es) \<longleftrightarrow> xs = map (mcp_state_entry_of lib) es"
| "same_state lib xs (Snapshot es) \<longleftrightarrow> False"

lemma twins_show_group_state:
  "twins (same_state (ae_wire env)) (mcp_show_group_state env cx g) (api_get_group_state env cx g None)"
  unfolding mcp_show_group_state_def api_get_group_state_def
  by (intro twin_intros agree_registry) (simp add: render_state_def)

lemma twins_written:
  "twins (\<lambda>n _. n = k) (seq_io (map_err map_registry_error m) (ret k)) (map_err from_registry m)"
  by (auto simp: twins_def seq_io_def bind_io_def ret_def map_err_run split: prod.split sum.split)

lemma twins_set_group_state: "twins (\<lambda>n _. True) (mcp_set_group_state env cx g es) (api_set_group_state env cx g es)"
  unfolding mcp_set_group_state_def api_set_group_state_def
  by (intro twin_intros) (rule twins_mono[OF twins_written], simp)

end
