(* ===== verification/Mcp_Routes.thy ===== *)
theory Mcp_Routes
  imports Mcp_Groups
begin

text \<open>The route tools of the MCP server (\<^theory_text>\<open>mcp/tools/routes.rs\<close>) and the tools on the state of
  routes and dry runs (\<^theory_text>\<open>mcp/tools/state.rs\<close>).\<close>

section \<open>Routes\<close>

record mcp_route =
  mu_id :: string
  mu_number :: nat
  mu_group_id :: string
  mu_group_name :: string
  mu_methods :: "string list"
  mu_path :: string
  mu_url :: string
  mu_language :: string
  mu_bindings_version :: string
  mu_owner_id :: string
  mu_created_at :: string
  mu_hits_total :: nat
  mu_last_hit_at :: "string option"

definition mcp_route_of :: "('c, 'j, 'z) api_env_scheme \<Rightarrow> (string \<times> bytes) list \<Rightarrow> route \<Rightarrow> mcp_route" where
  "mcp_route_of env hs r =
    \<lparr>mu_id = r_id r, mu_number = r_number r, mu_group_id = r_group_id r, mu_group_name = r_group_name r,
     mu_methods = r_methods r, mu_path = r_path r,
     mu_url = group_base_url (de_http env) (r_group_name r) hs (ae_trust_forwarded env) @ r_path r,
     mu_language = r_language r, mu_bindings_version = r_bindings_version r, mu_owner_id = r_owner_id r,
     mu_created_at = to_rfc3339 (de_registry env) (r_created_at r), mu_hits_total = r_hits_total r,
     mu_last_hit_at = map_option (to_rfc3339 (de_registry env)) (r_last_hit_at r)\<rparr>"

record list_routes_args = routes_list_query +
  la_mine :: "bool option"

text \<open>An admin sees the routes of the owner asked for, their own or all; others their own.\<close>

definition mcp_route_owner :: "auth_context \<Rightarrow> list_routes_args \<Rightarrow> mcp_failure + string option" where
  "mcp_route_owner cx a =
    (if cx_is_admin cx then
       (if lr_owner_id a \<noteq> None then Inr (lr_owner_id a)
        else if la_mine a = Some True then Inr (Some (cx_user_id cx)) else Inr None)
     else if lr_owner_id a \<noteq> None then Inl (map_filter_error OwnerNonAdmin)
     else Inr (Some (cx_user_id cx)))"

definition mcp_route_listing :: "('c, 'j, 'z) api_env_scheme \<Rightarrow> auth_context \<Rightarrow> int \<Rightarrow> list_routes_args
    \<Rightarrow> mcp_failure + (nat \<times> nat) \<times> route_sort_key \<times> sort_dir \<times> (route \<Rightarrow> bool)" where
  "mcp_route_listing env cx now a =
    rbind (mcp_filtered (parse_pagination (lr_offset a) (lr_limit a))) (\<lambda>pg.
    rbind (mcp_filtered (sort_dir_parse (lr_dir a) Desc)) (\<lambda>dir.
    rbind (mcp_filtered (parse_route_sort (lr_sort a))) (\<lambda>k.
    rbind (mcp_method (lr_method a)) (\<lambda>verb.
    rbind (mcp_time_bound env now (lr_since a)) (\<lambda>since.
    rbind (mcp_time_bound env now (lr_until a)) (\<lambda>till.
    rbind (mcp_route_owner cx a) (\<lambda>owner.
    Inr (pg, k, dir, route_selected (routes_list_query.truncate a) owner verb since till))))))))"

definition mcp_list_routes :: "('c, 'j, 'z) api_env_scheme \<Rightarrow> (string \<times> bytes) list \<Rightarrow> auth_context \<Rightarrow> int
    \<Rightarrow> list_routes_args \<Rightarrow> ('c, mcp_route page) tool" where
  "mcp_list_routes env hs cx now a =
    bind_io (lift_result (mcp_route_listing env cx now a)) (\<lambda>((offset, limit), k, dir, selected).
    bind_io (mcp_registry (list_routes (de_registry env))) (\<lambda>all0.
    (let pg = slice_for_page (sort_routes (filter selected all0) k dir) offset limit in
     ret \<lparr>pg_items = map (mcp_route_of env hs) (pg_items pg), pg_total = pg_total pg,
       pg_next_offset = pg_next_offset pg\<rparr>)))"

text \<open>A tool on the route a slug names, for its owner or an admin.\<close>

definition on_slug :: "string \<Rightarrow> (string \<Rightarrow> nat \<Rightarrow> ('c, 'a) tool) \<Rightarrow> ('c, 'a) tool" where
  "on_slug slug f = bind_io (lift_result (parse_slug slug)) (\<lambda>(grp, n). f grp n)"

definition mcp_show_route :: "('c, 'j, 'z) api_env_scheme \<Rightarrow> (string \<times> bytes) list \<Rightarrow> auth_context \<Rightarrow> string
    \<Rightarrow> ('c, mcp_route) tool" where
  "mcp_show_route env hs cx slug = on_slug slug (\<lambda>grp n.
    bind_io (mcp_route_gate env cx grp n) (\<lambda>r. ret (mcp_route_of env hs r)))"

record mcp_route_source =
  mo_slug :: string
  mo_language :: string
  mo_source :: "string option"

definition mcp_show_route_source :: "('c, 'j, 'z) api_env_scheme \<Rightarrow> auth_context \<Rightarrow> string \<Rightarrow> ('c, mcp_route_source) tool" where
  "mcp_show_route_source env cx slug = on_slug slug (\<lambda>grp n.
    bind_io (mcp_route_gate env cx grp n) (\<lambda>r.
    ret \<lparr>mo_slug = render_slug (r_group_name r) (r_number r), mo_language = r_language r, mo_source = r_source r\<rparr>))"

definition mcp_create_route :: "('c, 'j, 'z) api_env_scheme \<Rightarrow> (string \<times> bytes) list \<Rightarrow> auth_context \<Rightarrow> api_draw
    \<Rightarrow> create_route_body \<Rightarrow> ('c, mcp_route) tool" where
  "mcp_create_route env hs cx d a =
    bind_io (map_err map_api_error (create_route_core env cx d a)) (\<lambda>r. ret (mcp_route_of env hs r))"

definition mcp_update_route :: "('c, 'j, 'z) api_env_scheme \<Rightarrow> (string \<times> bytes) list \<Rightarrow> auth_context \<Rightarrow> string
    \<Rightarrow> patch_route_body \<Rightarrow> ('c, mcp_route) tool" where
  "mcp_update_route env hs cx slug a = on_slug slug (\<lambda>grp n.
    bind_io (map_err map_api_error (patch_route_core env cx grp n a)) (\<lambda>r. ret (mcp_route_of env hs r)))"

text \<open>The gate is followed by a second test of the owner.\<close>

definition mcp_delete_route :: "('c, 'j, 'z) api_env_scheme \<Rightarrow> auth_context \<Rightarrow> string \<Rightarrow> bool \<Rightarrow> ('c, unit) tool" where
  "mcp_delete_route env cx slug confirm = seq_io (confirmed ''delete_route'' confirm) (on_slug slug (\<lambda>grp n.
    bind_io (mcp_route_gate env cx grp n) (\<lambda>r.
    if \<not> cx_is_admin cx \<and> r_owner_id r \<noteq> cx_user_id cx
    then raise (mcp_forbidden ''must be the route's owner or an admin'')
    else seq_io (map_err (\<lambda>e. if e = NotFound then mcp_not_found ''route not found'' else map_registry_error e)
        (on_store (delete_route (de_registry env) grp n)))
      (on_table (refresh_after_delete (r_group_id r) (r_id r))))))"

section \<open>State and dry runs\<close>

definition mcp_show_route_state :: "('c, 'j, 'z) api_env_scheme \<Rightarrow> auth_context \<Rightarrow> string
    \<Rightarrow> ('c, 'j mcp_state_entry list) tool" where
  "mcp_show_route_state env cx slug = on_slug slug (\<lambda>grp n.
    seq_io (mcp_route_gate env cx grp n)
    (bind_io (mcp_registry (list_route_state (de_registry env) grp n)) (\<lambda>es.
     ret (map (mcp_state_entry_of (ae_wire env)) es))))"

definition mcp_set_route_state :: "('c, 'j, 'z) api_env_scheme \<Rightarrow> auth_context \<Rightarrow> string
    \<Rightarrow> (string \<times> 'j wire_bytes) list \<Rightarrow> ('c, nat) tool" where
  "mcp_set_route_state env cx slug entries = on_slug slug (\<lambda>grp n.
    seq_io (mcp_route_gate env cx grp n)
    (bind_io (lift_result (mcp_entries (ae_wire env) entries)) (\<lambda>es.
     seq_io (mcp_registry (set_route_state (de_registry env) grp n es)) (ret (length es)))))"

definition mcp_clear_route_state :: "('c, 'j, 'z) api_env_scheme \<Rightarrow> auth_context \<Rightarrow> string \<Rightarrow> bool \<Rightarrow> ('c, nat) tool" where
  "mcp_clear_route_state env cx slug confirm = seq_io (confirmed ''clear_route_state'' confirm) (on_slug slug (\<lambda>grp n.
    seq_io (mcp_route_gate env cx grp n) (mcp_registry (clear_route_state (de_registry env) grp n))))"

record 'j dry_run_args =
  da_method :: string
  da_path :: "string option"
  da_headers :: "pairs option"
  da_body :: "'j wire_bytes option"
  da_path_params :: "pairs option"
  da_kv_overrides :: "(string \<times> 'j wire_bytes) list option"
  da_gkv_overrides :: "(string \<times> 'j wire_bytes) list option"

definition dry_path :: "'j dry_run_args \<Rightarrow> route \<Rightarrow> string" where
  "dry_path a r = (case da_path a of Some p \<Rightarrow> p | None \<Rightarrow> r_path r)"

definition dry_body :: "('j, 'z) wire_lib_scheme \<Rightarrow> 'j dry_run_args \<Rightarrow> mcp_failure + bytes" where
  "dry_body lib a = (case da_body a of
      None \<Rightarrow> Inr []
    | Some x \<Rightarrow> (case into_bytes lib x of
        Inl e \<Rightarrow> Inl (mcp_validation (Msg (''body: invalid base64: '' @ e))) | Inr b \<Rightarrow> Inr b))"

definition dry_request :: "'j dry_run_args \<Rightarrow> string \<Rightarrow> bytes \<Rightarrow> 'j dry_run_request" where
  "dry_request a path body = \<lparr>dq_method = da_method a, dq_path = path,
     dq_headers = (case da_headers a of Some hs \<Rightarrow> hs | None \<Rightarrow> []), dq_body = body, dq_path_params = da_path_params a,
     dq_query = [], dq_kv_overrides = (case da_kv_overrides a of Some x \<Rightarrow> x | None \<Rightarrow> []),
     dq_gkv_overrides = (case da_gkv_overrides a of Some x \<Rightarrow> x | None \<Rightarrow> [])\<rparr>"

record mcp_log_entry =
  ml_level :: string
  ml_message :: string
  ml_timestamp :: string

record 'j mcp_dry_run =
  dm_status :: nat
  dm_headers :: pairs
  dm_body :: "'j wire_bytes"
  dm_handler_logs :: "mcp_log_entry list"
  dm_duration_ms :: nat
  dm_error :: "string option"
  dm_snapshot_keys :: nat

definition mcp_dry_run_of :: "('c, 'j, 'z) api_env_scheme \<Rightarrow> dry_run_response \<Rightarrow> 'j mcp_dry_run" where
  "mcp_dry_run_of env x = \<lparr>dm_status = dp_status x, dm_headers = dp_headers x,
     dm_body = from_bytes (ae_wire env) (dp_body x),
     dm_handler_logs = map (\<lambda>l. \<lparr>ml_level = hl_level l, ml_message = hl_message l,
       ml_timestamp = to_rfc3339 (de_registry env) (hl_timestamp l)\<rparr>) (dp_handler_logs x), dm_duration_ms = dp_duration_ms x, dm_error = dp_error x,
     dm_snapshot_keys = dp_snapshot_keys x\<rparr>"

definition mcp_dry_run_route :: "('c, 'j, 'z) api_env_scheme \<Rightarrow> auth_context \<Rightarrow> api_draw \<Rightarrow> string \<Rightarrow> 'j dry_run_args
    \<Rightarrow> ('c, 'j mcp_dry_run) tool" where
  "mcp_dry_run_route env cx d slug a = on_slug slug (\<lambda>grp n.
    bind_io (mcp_route_gate env cx grp n) (\<lambda>r.
    if \<not> starts_with ''/'' (dry_path a r) then raise (mcp_validation (Msg ''dry-run path must start with /''))
    else bind_io (lift_result (dry_body (ae_wire env) a)) (\<lambda>body.
      bind_io (on_dry_run (dry_run env (ae_wire env) (ae_upcase env) (ae_downcase env) (dw_run_id d) (dw_elapsed_ms d) r
        (dry_request a (dry_path a r) body))) (\<lambda>x. ret (mcp_dry_run_of env x)))))"

section \<open>The tools and the endpoints\<close>

definition same_route :: "mcp_route \<Rightarrow> route_response \<Rightarrow> bool" where
  "same_route x y \<longleftrightarrow> mu_id x = rr_id y \<and> mu_number x = rr_number y \<and> mu_group_id x = rr_group_id y
     \<and> mu_group_name x = rr_group_name y \<and> mu_methods x = rr_methods y \<and> mu_path x = rr_path y \<and> mu_url x = rr_url y
     \<and> mu_language x = rr_language y \<and> mu_bindings_version x = rr_bindings_version y \<and> mu_owner_id x = rr_owner_id y
     \<and> mu_created_at x = rr_created_at y \<and> mu_hits_total x = rr_hits_total y \<and> mu_last_hit_at x = rr_last_hit_at y"

lemma same_route_of [simp]: "same_route (mcp_route_of env hs r) (route_response_of env hs r)"
  by (simp add: same_route_def mcp_route_of_def route_response_of_def)

lemma on_slug_ok: "parse_slug slug = Inr (grp, n) \<Longrightarrow> on_slug slug f = f grp n"
  by (rule ext) (simp add: on_slug_def lift_result_def bind_io_def)

lemma twins_route_gate [twin_intros]: "twins (=) (mcp_route_gate env cx g n) (own_route env cx m g n)"
  unfolding mcp_route_gate_def own_route_def by (auto intro!: twin_intros)

text \<open>What REST calls it: the owner is named instead of \<^theory_text>\<open>mine\<close>.\<close>

definition rest_listing :: "auth_context \<Rightarrow> list_routes_args \<Rightarrow> routes_list_query" where
  "rest_listing cx a = (routes_list_query.truncate a)\<lparr>lr_owner_id :=
     (if cx_is_admin cx \<and> lr_owner_id a = None \<and> la_mine a = Some True then Some (cx_user_id cx) else lr_owner_id a)\<rparr>"

lemma rest_listing_parts [simp]:
  "lr_offset (rest_listing cx a) = lr_offset a" "lr_limit (rest_listing cx a) = lr_limit a"
  "lr_dir (rest_listing cx a) = lr_dir a" "lr_sort (rest_listing cx a) = lr_sort a"
  "lr_method (rest_listing cx a) = lr_method a" "lr_since (rest_listing cx a) = lr_since a"
  "lr_until (rest_listing cx a) = lr_until a"
  by (simp_all add: rest_listing_def routes_list_query.defs)

lemma rest_selected: "route_selected (rest_listing cx a) o' = route_selected (routes_list_query.truncate a) o'"
  by (intro ext) (simp add: route_selected_def rest_listing_def routes_list_query.defs)

lemma agree_route_owner [twin_intros]:
  "rel_sum err_agree (=) (mcp_route_owner cx a) (owner_filter cx (lr_owner_id (rest_listing cx a)))"
  by (simp add: mcp_route_owner_def owner_filter_def rest_listing_def routes_list_query.defs)

lemma agree_method [twin_intros]:
  "rel_sum err_agree (=) (mcp_method m) (case m of None \<Rightarrow> Inr None | Some m \<Rightarrow> rmap Some (filtered (validate_method m)))"
  by (simp add: mcp_method_def mcp_filtered_def filtered_def split: option.split sum.split)

lemma route_listing_agrees:
  "rel_sum err_agree (=) (mcp_route_listing env cx now a) (route_listing env cx now (rest_listing cx a))"
  unfolding mcp_route_listing_def route_listing_def rest_listing_parts rest_selected
  by (intro twin_intros) simp

lemma twins_list_routes:
  "twins (same_page same_route) (mcp_list_routes env hs cx now a) (api_list_routes env hs cx now (rest_listing cx a))"
  unfolding mcp_list_routes_def api_list_routes_def list_routes_core_def bind_assoc
  by (auto simp: Let_def bind_assoc intro!: twin_intros route_listing_agrees same_page_map)

lemma twins_show_route:
  "parse_slug slug = Inr (g, n) \<Longrightarrow> twins same_route (mcp_show_route env hs cx slug) (api_get_route env hs cx g n)"
  unfolding mcp_show_route_def api_get_route_def by (simp add: on_slug_ok) (intro twin_intros same_route_of)

definition same_source :: "mcp_route_source \<Rightarrow> route_source_response \<Rightarrow> bool" where
  "same_source x y \<longleftrightarrow> mo_slug x = so_slug y \<and> mo_language x = so_language y \<and> mo_source x = so_source y"

lemma twins_show_source:
  "parse_slug slug = Inr (g, n) \<Longrightarrow> twins same_source (mcp_show_route_source env cx slug) (api_get_route_source env cx g n)"
  unfolding mcp_show_route_source_def api_get_route_source_def
  by (simp add: on_slug_ok) (intro twin_intros, simp add: same_source_def)

lemma twins_create_route:
  "twins (\<lambda>x y. same_route x (ca_route y)) (mcp_create_route env hs cx d a) (api_create_route env hs cx d a)"
  unfolding mcp_create_route_def api_create_route_def by (intro twin_intros) simp

lemma twins_update_route:
  "parse_slug slug = Inr (g, n) \<Longrightarrow> twins same_route (mcp_update_route env hs cx slug a) (api_patch_route env hs cx g n a)"
  unfolding mcp_update_route_def api_patch_route_def by (simp add: on_slug_ok) (intro twin_intros, simp)

lemma gate_owner: "mcp_route_gate env cx g n w = (Inr r, w') \<Longrightarrow> cx_is_admin cx \<or> r_owner_id r = cx_user_id cx"
  by (auto simp: mcp_route_gate_def bind_io_def map_err_run ret_def raise_def split: prod.splits sum.splits if_splits)

lemma twins_delete_route:
  assumes "parse_slug slug = Inr (g, n)"
  shows "twins (=) (mcp_delete_route env cx slug True) (api_delete_route env cx g n)"
proof -
  let ?del = "\<lambda>r. seq_io (map_err (\<lambda>e. if e = NotFound then mcp_not_found ''route not found'' else map_registry_error e)
        (on_store (delete_route (de_registry env) g n))) (on_table (refresh_after_delete (r_group_id r) (r_id r)))"
  have "mcp_delete_route env cx slug True = bind_io (mcp_route_gate env cx g n) ?del"
    unfolding mcp_delete_route_def confirmed_True on_slug_ok[OF assms]
    by (rule ext) (auto simp: bind_io_def raise_def split: prod.split sum.split dest: gate_owner)
  moreover have "err_agree (if e = NotFound then mcp_not_found ''route not found'' else map_registry_error e) (from_registry e)" for e
    by simp
  ultimately show ?thesis unfolding api_delete_route_def by (simp only:) (intro twin_intros)
qed

lemma twins_show_route_state:
  "parse_slug slug = Inr (g, n) \<Longrightarrow>
   twins (same_state (ae_wire env)) (mcp_show_route_state env cx slug) (api_get_route_state env cx g n None)"
  unfolding mcp_show_route_state_def api_get_route_state_def
  by (simp add: on_slug_ok) (intro twin_intros agree_registry, simp add: render_state_def)

lemma twins_set_route_state:
  "parse_slug slug = Inr (g, n) \<Longrightarrow>
   twins (\<lambda>k _. True) (mcp_set_route_state env cx slug es) (api_set_route_state env cx g n es)"
  unfolding mcp_set_route_state_def api_set_route_state_def
  by (simp add: on_slug_ok) (intro twin_intros, rule twins_mono[OF twins_written], simp)

lemma twins_dropped: "twins (\<lambda>k _. True) (map_err map_registry_error m) (bind_io (map_err from_registry m) (\<lambda>c. ret ()))"
  by (auto simp: twins_def bind_io_def ret_def map_err_run split: prod.split sum.split)

lemma twins_clear_route_state:
  "parse_slug slug = Inr (g, n) \<Longrightarrow>
   twins (\<lambda>k _. True) (mcp_clear_route_state env cx slug True) (api_delete_route_state env cx g n)"
  unfolding mcp_clear_route_state_def api_delete_route_state_def confirmed_True
  by (simp add: on_slug_ok) (intro twin_intros twins_dropped)

lemma twins_rendered: "twins (\<lambda>x y. x = h y) (bind_io (on_dry_run f) (\<lambda>x. ret (h x))) (on_dry_run f)"
  by (auto simp: twins_def on_dry_run_def bind_io_def ret_def split: prod.split)

lemma bind_lift_Inr: "bind_io (lift_result (Inr x)) f = f x"
  by (rule ext) (simp add: bind_io_def lift_result_def)

text \<open>A dry run with a path and a body that decodes.\<close>

lemma twins_on_dry_run [twin_intros]: "twins (=) (on_dry_run f) (on_dry_run f)"
  by (auto simp: twins_def on_dry_run_def split: prod.split)

lemma twins_dry_run:
  assumes "parse_slug slug = Inr (g, n)" "da_path a = Some p" "dry_body (ae_wire env) a = Inr body"
  shows "twins (\<lambda>x y. x = mcp_dry_run_of env y) (mcp_dry_run_route env cx d slug a)
    (api_dry_run_route env cx d g n (dry_request a p body))"
proof -
  have "dq_path (dry_request a p body) = p" by (simp add: dry_request_def)
  then show ?thesis unfolding mcp_dry_run_route_def api_dry_run_route_def on_slug_ok[OF assms(1)]
    using assms by (auto simp: dry_path_def bind_lift_Inr intro!: twin_intros twins_rendered)
qed

end
