(* ===== verification/Mcp_Discovery.thy ===== *)
theory Mcp_Discovery
  imports Mcp_Routes
begin

text \<open>The tools of the MCP server that look around (\<^theory_text>\<open>mcp/tools/discovery.rs\<close>,
  \<^theory_text>\<open>identity.rs\<close>, \<^theory_text>\<open>capabilities.rs\<close>): the workspace, the journals, unmatched requests, the match
  probe, the caller.  The version and the build of the host are set when it is compiled.\<close>

section \<open>The workspace\<close>

record group_summary =
  gs_name :: string
  gs_id :: string
  gs_base_url :: string
  gs_owner_id :: string
  gs_route_count :: nat
  gs_ttl_seconds :: nat
  gs_is_mine :: bool

record workspace =
  wk_version :: string
  wk_build :: "string option"
  wk_base_url :: string
  wk_email :: string
  wk_is_admin :: bool
  wk_groups :: "group_summary list"
  wk_recent_unmatched_5m :: nat

definition group_summary_of :: "('c, 'j, 'z) api_env_scheme \<Rightarrow> (string \<times> bytes) list \<Rightarrow> auth_context \<Rightarrow> route list
    \<Rightarrow> group \<Rightarrow> group_summary" where
  "group_summary_of env hs cx all0 g =
    \<lparr>gs_name = g_name g, gs_id = g_id g,
     gs_base_url = group_base_url (de_http env) (g_name g) hs (ae_trust_forwarded env), gs_owner_id = g_owner_id g,
     gs_route_count = length (filter (\<lambda>r. r_group_id r = g_id g) all0) mod 2 ^ 32, gs_ttl_seconds = g_ttl_seconds g,
     gs_is_mine = (g_owner_id g = cx_user_id cx)\<rparr>"

definition mcp_summarize_workspace :: "('c, 'j, 'z) api_env_scheme \<Rightarrow> string \<Rightarrow> string option \<Rightarrow> (string \<times> bytes) list
    \<Rightarrow> auth_context \<Rightarrow> int \<Rightarrow> ('c, workspace) tool" where
  "mcp_summarize_workspace env version build hs cx now =
    bind_io (mcp_registry (if cx_is_admin cx then list_groups (de_registry env)
        else list_groups_by_owner (de_registry env) (cx_user_id cx))) (\<lambda>gs.
    bind_io (mcp_registry (list_routes (de_registry env))) (\<lambda>all0.
    bind_io (mcp_journal (count_unmatched_since (de_unmatched env) now (seconds 300)
        (if cx_is_admin cx then None else Some (set (map g_id gs))))) (\<lambda>unmatched.
    ret \<lparr>wk_version = version, wk_build = build,
      wk_base_url = public_base_url (de_http env) hs (ae_trust_forwarded env), wk_email = cx_user_email cx,
      wk_is_admin = cx_is_admin cx, wk_groups = map (group_summary_of env hs cx all0) gs,
      wk_recent_unmatched_5m = uw_count unmatched\<rparr>)))"

record who_am_i =
  wi_id :: string
  wi_email :: string
  wi_is_admin :: bool
  wi_base_url :: string

definition mcp_who_am_i :: "('c, 'j, 'z) api_env_scheme \<Rightarrow> (string \<times> bytes) list \<Rightarrow> auth_context \<Rightarrow> ('c, who_am_i) tool" where
  "mcp_who_am_i env hs cx = ret \<lparr>wi_id = cx_user_id cx, wi_email = cx_user_email cx, wi_is_admin = cx_is_admin cx,
     wi_base_url = public_base_url (de_http env) hs (ae_trust_forwarded env)\<rparr>"

text \<open>The topic whose text is answered, and all topics.\<close>

definition mcp_get_capabilities :: "('c, 'j, 'z) api_env_scheme \<Rightarrow> string option \<Rightarrow> ('c, string \<times> string list) tool" where
  "mcp_get_capabilities env topic = ret (lookup_topic (ae_downcase env) topic, capability_topics)"

section \<open>Unmatched requests\<close>

record recent_unmatched_args =
  ru_limit :: "nat option"
  ru_before :: "nat option"
  ru_method :: "string option"
  ru_path_pattern :: "string option"
  ru_since :: "string option"
  ru_until :: "string option"

record unmatched_summary =
  um_number :: nat
  um_group :: string
  um_method :: string
  um_path :: string
  um_created_at :: string
  um_trace_id :: "string option"
  um_near_misses :: "unmatched_near_miss list"

definition unmatched_summary_of :: "('c, 'j, 'z) api_env_scheme \<Rightarrow> unmatched_record \<Rightarrow> unmatched_summary" where
  "unmatched_summary_of env r = \<lparr>um_number = ur_number r, um_group = ur_group_name r,
     um_method = rq_method (ur_request r), um_path = rq_path (ur_request r),
     um_created_at = to_rfc3339 (de_registry env) (ur_created_at r), um_trace_id = ur_trace_id r,
     um_near_misses = ur_near_misses r\<rparr>"

definition recent_selected :: "string option \<Rightarrow> string option \<Rightarrow> int option \<Rightarrow> int option \<Rightarrow> unmatched_record \<Rightarrow> bool" where
  "recent_selected verb pattern0 since till r =
    (if \<not> (verb \<noteq> None \<or> pattern0 \<noteq> None \<or> since \<noteq> None \<or> till \<noteq> None) then True
     else if (case verb of Some m \<Rightarrow> \<not> eq_ignore_case m (rq_method (ur_request r)) | None \<Rightarrow> False) then False
     else if (case pattern0 of Some p \<Rightarrow> \<not> glob_match p (rq_path (ur_request r)) | None \<Rightarrow> False) then False
     else if (case since of Some t \<Rightarrow> ur_created_at r < t | None \<Rightarrow> False) then False
     else if (case till of Some t \<Rightarrow> ur_created_at r > t | None \<Rightarrow> False) then False
     else True)"

definition mcp_list_recent_unmatched :: "('c, 'j, 'z) api_env_scheme \<Rightarrow> auth_context \<Rightarrow> int \<Rightarrow> recent_unmatched_args
    \<Rightarrow> ('c, unmatched_summary log_page) tool" where
  "mcp_list_recent_unmatched env cx now a =
    bind_io (if cx_is_admin cx then ret None
      else bind_io (mcp_registry (list_groups_by_owner (de_registry env) (cx_user_id cx))) (\<lambda>gs.
        ret (Some (set (map g_id gs))))) (\<lambda>visible.
    bind_io (lift_result (mcp_method (ru_method a))) (\<lambda>verb.
    bind_io (lift_result (mcp_time_bound env now (ru_since a))) (\<lambda>since.
    bind_io (lift_result (mcp_time_bound env now (ru_until a))) (\<lambda>till.
    bind_io (mcp_journal (list_unmatched (de_unmatched env) \<lparr>cu_before = ru_before a,
        cu_limit = (case ru_limit a of Some n \<Rightarrow> n | None \<Rightarrow> 20)\<rparr> visible)) (\<lambda>found.
    ret \<lparr>lp_entries = map (unmatched_summary_of env)
        (filter (recent_selected verb (ru_path_pattern a) since till) found),
      lp_next_before = next_before ur_number found\<rparr>)))))"

definition mcp_show_unmatched :: "('c, 'j, 'z) api_env_scheme \<Rightarrow> auth_context \<Rightarrow> nat \<Rightarrow> ('c, unmatched_record) tool" where
  "mcp_show_unmatched env cx n = bind_io (mcp_journal (get_unmatched (de_unmatched env) n)) (\<lambda>r w.
     if cx_is_admin cx then (Inr r, w)
     else (case on_store (read_group_by_ref (de_registry env) (ur_group_id r)) w of (found, w') \<Rightarrow>
       ((if (case found of Inr g \<Rightarrow> g_owner_id g = cx_user_id cx | Inl e \<Rightarrow> False) then Inr r
         else Inl (mcp_forbidden ''must be an admin or own this group to read its unmatched requests'')), w')))"

section \<open>Handled requests and callbacks\<close>

record list_journal_args =
  jl_group :: string
  jl_route :: "string option"
  jl_method :: "string option"
  jl_path_pattern :: "string option"
  jl_status :: "string option"
  jl_since :: "string option"
  jl_until :: "string option"
  jl_before :: "nat option"
  jl_limit :: "nat option"

definition mcp_cursor :: "nat option \<Rightarrow> nat option \<Rightarrow> list_cursor" where
  "mcp_cursor before limit =
    \<lparr>cu_before = before, cu_limit = clamp 1 200 (case limit of Some n \<Rightarrow> n | None \<Rightarrow> 50)\<rparr>"

definition mcp_slug :: "slug_parse_error + 'a \<Rightarrow> mcp_failure + 'a" where
  "mcp_slug r = (case r of Inl e \<Rightarrow> Inl (mcp_validation (OfSlug e)) | Inr x \<Rightarrow> Inr x)"

definition mcp_parsed :: "('a \<Rightarrow> mcp_failure + 'b) \<Rightarrow> 'a option \<Rightarrow> mcp_failure + 'b option" where
  "mcp_parsed p given = (case given of None \<Rightarrow> Inr None | Some x \<Rightarrow> rmap Some (p x))"

definition mcp_journal_filter :: "('c, 'j, 'z) api_env_scheme \<Rightarrow> int \<Rightarrow> string \<Rightarrow> list_journal_args \<Rightarrow> mcp_failure + journal_filter" where
  "mcp_journal_filter env now group_name a =
    rbind (mcp_parsed (\<lambda>s. mcp_slug (route_slug_parse s)) (jl_route a)) (\<lambda>slug.
    rbind (mcp_parsed (\<lambda>s. mcp_slug (status_filter_parse s)) (jl_status a)) (\<lambda>status.
    rbind (mcp_method (jl_method a)) (\<lambda>verb.
    rbind (mcp_time_bound env now (jl_since a)) (\<lambda>since.
    rbind (mcp_time_bound env now (jl_until a)) (\<lambda>till.
    Inr \<lparr>jf_group = Some group_name, jf_route = slug, jf_method = verb, jf_path_pattern = jl_path_pattern a,
      jf_status = status, jf_since = since, jf_until = till\<rparr>)))))"

definition mcp_list_journal :: "('c, 'j, 'z) api_env_scheme \<Rightarrow> auth_context \<Rightarrow> int \<Rightarrow> list_journal_args
    \<Rightarrow> ('c, journal_record log_page) tool" where
  "mcp_list_journal env cx now a =
    bind_io (ensure_journal_reader env cx (jl_group a)) (\<lambda>g.
    bind_io (lift_result (mcp_journal_filter env now (g_name g) a)) (\<lambda>flt.
    bind_io (mcp_journal (list_for_group (de_handled env) (g_id g) (mcp_cursor (jl_before a) (jl_limit a)))) (\<lambda>entries.
    ret \<lparr>lp_entries = (if any_handled_filter flt then filter (matches_handled flt) entries else entries),
      lp_next_before = next_before jr_number entries\<rparr>)))"

definition mcp_list_callbacks :: "('c, 'j, 'z) api_env_scheme \<Rightarrow> auth_context \<Rightarrow> string \<Rightarrow> nat option \<Rightarrow> nat option
    \<Rightarrow> ('c, callback_record log_page) tool" where
  "mcp_list_callbacks env cx group_ref before limit =
    bind_io (ensure_journal_reader env cx group_ref) (\<lambda>g.
    bind_io (mcp_journal (list_callbacks_for_group (ae_callbacks env) (g_id g) (mcp_cursor before limit))) (\<lambda>entries.
    ret \<lparr>lp_entries = entries, lp_next_before = next_before cr_number entries\<rparr>))"

definition mcp_show_callback :: "('c, 'j, 'z) api_env_scheme \<Rightarrow> auth_context \<Rightarrow> string \<Rightarrow> nat \<Rightarrow> ('c, callback_record) tool" where
  "mcp_show_callback env cx group_ref n =
    bind_io (ensure_journal_reader env cx group_ref) (\<lambda>g. mcp_journal (get_callback (ae_callbacks env) (g_id g) n))"

section \<open>The match probe\<close>

record find_route_miss =
  fm_route :: string
  fm_route_id :: string
  fm_route_path :: string
  fm_reason :: near_miss_reason

datatype find_route_result = FoundRoute mcp_route pairs | NoRoute "find_route_miss list"

definition find_route_miss_of :: "near_miss \<Rightarrow> find_route_miss" where
  "find_route_miss_of nm = (let r = nm_route nm in
     \<lparr>fm_route = render_slug (r_group_name r) (r_number r), fm_route_id = r_id r, fm_route_path = r_path r,
      fm_reason = nm_reason nm\<rparr>)"

definition mcp_find_route :: "('c, 'j, 'z) api_env_scheme \<Rightarrow> (string \<times> bytes) list \<Rightarrow> auth_context \<Rightarrow> string \<Rightarrow> string
    \<Rightarrow> string \<Rightarrow> ('c, find_route_result) tool" where
  "mcp_find_route env hs cx group_ref verb path =
    bind_io (mcp_group_gate env cx group_ref) (\<lambda>g.
    if verb = [] \<or> \<not> list_all (\<lambda>c. is_upper c \<or> c = CHR ''-'' \<or> c = CHR ''_'') verb
    then raise (mcp_validation (Msg ''method must be uppercase ASCII (e.g. POST, GET, ANY)''))
    else if \<not> starts_with ''/'' path then raise (mcp_validation (Msg ''path must start with /''))
    else (\<lambda>w. ((case probe_in_group (sw_table w) (g_name g) verb path of
        Inl p \<Rightarrow> Inl RpcPanicked
      | Inr (Hit m) \<Rightarrow> Inr (FoundRoute (mcp_route_of env hs (mr_route m)) (mr_path_params m))
      | Inr (Miss near) \<Rightarrow> Inr (NoRoute (map find_route_miss_of near))), w)))"

section \<open>The tools and the endpoints\<close>

lemma twins_reads: "twins (=) (reads_journal env cx m g) (journal_group env cx m' g)"
  unfolding reads_journal_def journal_group_def caller_can_read_journal_def mcp_group_by_ref_def
  by (cases "cx_is_admin cx") (auto simp: bind_assoc intro!: twin_intros)

lemma twins_reader [twin_intros]: "twins (=) (ensure_journal_reader env cx g) (journal_group env cx m g)"
  unfolding ensure_journal_reader_def by (rule twins_reads)

lemma agree_slug [twin_intros]:
  "rel_sum err_agree (=) (mcp_parsed (\<lambda>s. mcp_slug (p s)) t) (parsed (\<lambda>s. slug_result (p s)) t)"
  by (simp add: mcp_parsed_def parsed_def mcp_slug_def slug_result_def split: option.split sum.split)

lemma parsed_method: "parsed (\<lambda>m. filtered (validate_method m)) t =
    (case t of None \<Rightarrow> Inr None | Some m \<Rightarrow> rmap Some (filtered (validate_method m)))"
  by (simp add: parsed_def)

text \<open>What REST calls the same requests.\<close>

definition rest_journal :: "list_journal_args \<Rightarrow> journal_list_query" where
  "rest_journal a = \<lparr>lj_before = jl_before a, lj_limit = Some (clamp 1 200 (case jl_limit a of Some n \<Rightarrow> n | None \<Rightarrow> 50)),
     lj_route = jl_route a, lj_method = jl_method a, lj_path_pattern = jl_path_pattern a, lj_status = jl_status a,
     lj_since = jl_since a, lj_until = jl_until a\<rparr>"

definition rest_unmatched :: "recent_unmatched_args \<Rightarrow> unmatched_list_query" where
  "rest_unmatched a = \<lparr>lu_before = ru_before a, lu_limit = Some (case ru_limit a of Some n \<Rightarrow> n | None \<Rightarrow> 20),
     lu_method = ru_method a, lu_path_pattern = ru_path_pattern a, lu_since = ru_since a, lu_until = ru_until a\<rparr>"

lemma journal_filter_agrees:
  "rel_sum err_agree (=) (mcp_journal_filter env now g a)
    (build_journal_filter_from_query env now (Some g) (jl_route a) (jl_method a) (jl_path_pattern a) (jl_status a)
      (jl_since a) (jl_until a))"
  unfolding mcp_journal_filter_def build_journal_filter_from_query_def parsed_method
  by (intro twin_intros) simp

lemma twins_list_journal:
  "twins (=) (mcp_list_journal env cx now a) (api_list_journal env cx now (jl_group a) (rest_journal a))"
  unfolding mcp_list_journal_def api_list_journal_def
  by (auto simp: rest_journal_def mcp_cursor_def cursor_of_def intro!: twin_intros journal_filter_agrees)

lemma twins_list_callbacks:
  "twins (=) (mcp_list_callbacks env cx g before limit)
    (api_list_callbacks env cx g before (Some (clamp 1 200 (case limit of Some n \<Rightarrow> n | None \<Rightarrow> 50))))"
  unfolding mcp_list_callbacks_def api_list_callbacks_def
  by (auto simp: mcp_cursor_def cursor_of_def intro!: twin_intros)

lemma twins_show_callback: "twins (=) (mcp_show_callback env cx g n) (api_get_callback_entry env cx g n)"
  unfolding mcp_show_callback_def api_get_callback_entry_def by (auto intro!: twin_intros)

lemma twins_show_unmatched: "twins (=) (mcp_show_unmatched env cx n) (api_get_unmatched_entry env cx n)"
proof -
  have "twins (=) (\<lambda>w. if cx_is_admin cx then (Inr r, w)
     else (case on_store (read_group_by_ref (de_registry env) (ur_group_id r)) w of (found, w') \<Rightarrow>
       ((if (case found of Inr g \<Rightarrow> g_owner_id g = cx_user_id cx | Inl e \<Rightarrow> False) then Inr r
         else Inl (mcp_forbidden ''must be an admin or own this group to read its unmatched requests'')), w')))
    (bind_io (caller_owns_unmatched env cx (ur_group_id r)) (\<lambda>own.
      if \<not> own then raise (forbidden ''must be an admin or own this group to read its unmatched requests'')
      else ret r))" for r
    by (auto simp: twins_def caller_owns_unmatched_def bind_io_def ret_def raise_def split: prod.split sum.split)
  then show ?thesis unfolding mcp_show_unmatched_def api_get_unmatched_entry_def by (auto intro!: twin_intros)
qed

definition same_unmatched :: "('c, 'j, 'z) api_env_scheme \<Rightarrow> unmatched_summary log_page \<Rightarrow> unmatched_record log_page \<Rightarrow> bool" where
  "same_unmatched env x y \<longleftrightarrow> lp_entries x = map (unmatched_summary_of env) (lp_entries y)
     \<and> lp_next_before x = lp_next_before y"

lemma bind_lift_rbind:
  "bind_io (lift_result (rbind r f)) g = bind_io (lift_result r) (\<lambda>x. bind_io (lift_result (f x)) g)"
  by (rule ext) (cases r; simp add: bind_io_def lift_result_def)

lemma recent_is_filter:
  "filter (recent_selected verb pattern0 since till) xs =
    (let flt = \<lparr>jf_group = None, jf_route = None, jf_method = verb, jf_path_pattern = pattern0, jf_status = None,
       jf_since = since, jf_until = till\<rparr> in
     if any_unmatched_filter flt then filter (matches_unmatched flt) xs else xs)"
proof -
  let ?flt = "\<lparr>jf_group = None, jf_route = None, jf_method = verb, jf_path_pattern = pattern0, jf_status = None,
       jf_since = since, jf_until = till\<rparr>"
  have "recent_selected verb pattern0 since till r = (if any_unmatched_filter ?flt then matches_unmatched ?flt r else True)" for r
    unfolding recent_selected_def any_unmatched_filter_def matches_unmatched_def by simp
  then have "recent_selected verb pattern0 since till = (\<lambda>r. if any_unmatched_filter ?flt then matches_unmatched ?flt r else True)"
    by blast
  then show ?thesis by (simp add: Let_def)
qed

lemma twins_visible [twin_intros]:
  "twins (=) (if cx_is_admin cx then ret None
      else bind_io (mcp_registry (list_groups_by_owner (de_registry env) (cx_user_id cx))) (\<lambda>gs.
        ret (Some (set (map g_id gs))))) (unmatched_visible_groups env cx)"
  unfolding unmatched_visible_groups_def by (auto intro!: twin_intros)

lemma rest_unmatched_parts:
  "lu_method (rest_unmatched a) = ru_method a" "lu_path_pattern (rest_unmatched a) = ru_path_pattern a"
  "lu_since (rest_unmatched a) = ru_since a" "lu_until (rest_unmatched a) = ru_until a"
  "cursor_of (lu_before (rest_unmatched a)) (lu_limit (rest_unmatched a))
     = \<lparr>cu_before = ru_before a, cu_limit = (case ru_limit a of Some n \<Rightarrow> n | None \<Rightarrow> 20)\<rparr>"
  by (simp_all add: rest_unmatched_def cursor_of_def)

lemma twins_recent:
  "twins (same_unmatched env) (mcp_list_recent_unmatched env cx now a) (api_list_unmatched env cx now (rest_unmatched a))"
proof -
  have n: "parsed f None = Inr None" for f :: "'x \<Rightarrow> api_failure + 'y" by (simp add: parsed_def)
  show ?thesis
    unfolding mcp_list_recent_unmatched_def api_list_unmatched_def build_journal_filter_from_query_def
      parsed_method recent_is_filter rest_unmatched_parts n rbind_simps bind_lift_rbind bind_lift_Inr Let_def
    by (intro twin_intros agree_journal) (simp add: same_unmatched_def)
qed

fun same_miss :: "find_route_miss \<Rightarrow> near_miss_response \<Rightarrow> bool" where
  "same_miss x y \<longleftrightarrow> fm_route x = ne_route y \<and> fm_route_id x = ne_id y \<and> fm_route_path x = ne_path y \<and> fm_reason x = ne_reason y"

fun same_probe :: "find_route_result \<Rightarrow> match_response \<Rightarrow> bool" where
  "same_probe (FoundRoute r ps) (MatchHit r' ps') \<longleftrightarrow> same_route r r' \<and> ps = ps'"
| "same_probe (NoRoute xs) (MatchMiss ys) \<longleftrightarrow> list_all2 same_miss xs ys"
| "same_probe _ _ \<longleftrightarrow> False"

text \<open>A valid probe; an invalid one fails at both, though the gate comes first here.\<close>

lemma twins_find_route:
  assumes "validate_match_query \<lparr>mq_group = Some g, mq_method = m, mq_path = p\<rparr> = Inr ()"
  shows "twins same_probe (mcp_find_route env hs cx g m p)
    (api_match_probe env hs cx \<lparr>mq_group = Some g, mq_method = m, mq_path = p\<rparr>)"
proof -
  have "\<not> (m = [] \<or> \<not> list_all (\<lambda>c. is_upper c \<or> c = CHR ''-'' \<or> c = CHR ''_'') m)" "starts_with ''/'' p"
    using assms by (auto simp: validate_match_query_def split: if_splits)
  moreover have "list_all2 same_miss (map find_route_miss_of near) (map near_miss_response_of near)" for near
    by (simp add: list_all2_conv_all_nth find_route_miss_of_def near_miss_response_of_def Let_def)
  ultimately have probe: "twins same_probe
    (if m = [] \<or> \<not> list_all (\<lambda>c. is_upper c \<or> c = CHR ''-'' \<or> c = CHR ''_'') m
     then raise (mcp_validation (Msg ''method must be uppercase ASCII (e.g. POST, GET, ANY)''))
     else if \<not> starts_with ''/'' p then raise (mcp_validation (Msg ''path must start with /''))
     else (\<lambda>w. ((case probe_in_group (sw_table w) (g_name x) m p of
        Inl q \<Rightarrow> Inl RpcPanicked
      | Inr (Hit h) \<Rightarrow> Inr (FoundRoute (mcp_route_of env hs (mr_route h)) (mr_path_params h))
      | Inr (Miss near) \<Rightarrow> Inr (NoRoute (map find_route_miss_of near))), w)))
    (\<lambda>w. (answer_probe env hs (probe_in_group (sw_table w) (g_name x) m p), w))" for x
    by (auto simp: twins_def answer_probe_def split: sum.split match_probe.split)
  show ?thesis unfolding mcp_find_route_def api_match_probe_def seq_io_def assms bind_lift_Inr
    by (auto intro!: twins_bind_eq twins_group_gate probe)
qed

end
