(* ===== verification/Mcp_Streaming.thy ===== *)
theory Mcp_Streaming
  imports Mcp_Discovery
begin

text \<open>The tools of the MCP server that wait for traffic (\<^theory_text>\<open>mcp/tools/streaming.rs\<close>).

  What the subscription delivers is a list of messages with the times they are received; work
  between two messages takes no time.  The allocator is a parameter: the list of entries is
  reserved at its full size beforehand, and a host that cannot reserve it aborts.  The heartbeats
  of a blocked tool carry no journal data and are left out.\<close>

section \<open>The tools\<close>

definition DEFAULT_WAIT_TIMEOUT_S :: nat where "DEFAULT_WAIT_TIMEOUT_S = 30"
definition MAX_WAIT_TIMEOUT_S :: nat where "MAX_WAIT_TIMEOUT_S = 300"
definition DEFAULT_TAIL_IDLE_S :: nat where "DEFAULT_TAIL_IDLE_S = 30"
definition MAX_TAIL_IDLE_S :: nat where "MAX_TAIL_IDLE_S = 300"
definition DEFAULT_TAIL_MAX_ENTRIES :: nat where "DEFAULT_TAIL_MAX_ENTRIES = 100"
definition MAX_TAIL_MAX_ENTRIES :: nat where "MAX_TAIL_MAX_ENTRIES = 1000"

record wait_args =
  wx_group :: "string option"
  wx_route :: "string option"
  wx_method :: "string option"
  wx_path_pattern :: "string option"
  wx_status :: "string option"
  wx_count :: "nat option"
  wx_timeout_seconds :: "nat option"

record tail_args =
  tj_group :: "string option"
  tj_route :: "string option"
  tj_method :: "string option"
  tj_path_pattern :: "string option"
  tj_status :: "string option"
  tj_max_entries :: "nat option"
  tj_idle_timeout_seconds :: "nat option"

definition build_filter :: "string option \<Rightarrow> string option \<Rightarrow> string option \<Rightarrow> string option \<Rightarrow> string option
    \<Rightarrow> mcp_failure + journal_filter" where
  "build_filter grp slug_text verb pattern0 status_text =
    rbind (mcp_parsed (\<lambda>s. mcp_slug (route_slug_parse s)) slug_text) (\<lambda>slug.
    rbind (mcp_parsed (\<lambda>s. mcp_slug (status_filter_parse s)) status_text) (\<lambda>status.
    Inr \<lparr>jf_group = grp, jf_route = slug, jf_method = verb, jf_path_pattern = pattern0, jf_status = status,
      jf_since = None, jf_until = None\<rparr>))"

definition streamed_group :: "journal_filter \<Rightarrow> string option" where
  "streamed_group flt = (case jf_group flt of Some g \<Rightarrow> Some g | None \<Rightarrow> map_option sl_group_ref (jf_route flt))"

definition ensure_streaming_authorized :: "('c, 'j, 'z) api_env_scheme \<Rightarrow> auth_context \<Rightarrow> journal_filter \<Rightarrow> ('c, unit) tool" where
  "ensure_streaming_authorized env cx flt = (case streamed_group flt of
      Some ref \<Rightarrow> bind_io (reads_journal env cx
        ''must be admin or own a route in this group to stream its journal'' ref) (\<lambda>g. ret ())
    | None \<Rightarrow>
        if \<not> cx_is_admin cx
        then raise (mcp_forbidden ''host-wide journal streaming is admin-only; supply a group or route filter to scope it'')
        else ret ())"

datatype received = Got journal_event | LaggedBy nat | BusClosed

type_synonym feed = "(int \<times> received) list"

definition lagged :: "nat \<Rightarrow> nat \<Rightarrow> nat" where
  "lagged dropped n = min (2 ^ 32 - 1) (dropped + n mod 2 ^ 32)"

record wait_result =
  wt_entries :: "journal_record list"
  wt_timed_out :: bool
  wt_dropped :: nat

text \<open>One deadline for the whole call.\<close>

fun wait_loop :: "nat \<Rightarrow> int \<Rightarrow> journal_filter \<Rightarrow> feed \<Rightarrow> journal_record list \<Rightarrow> nat \<Rightarrow> wait_result" where
  "wait_loop k deadline flt [] entries dropped =
    \<lparr>wt_entries = entries, wt_timed_out = (\<not> k \<le> length entries mod 2 ^ 32), wt_dropped = dropped\<rparr>"
| "wait_loop k deadline flt ((t, m) # rest) entries dropped =
    (if k \<le> length entries mod 2 ^ 32 then \<lparr>wt_entries = entries, wt_timed_out = False, wt_dropped = dropped\<rparr>
     else if deadline < t then \<lparr>wt_entries = entries, wt_timed_out = True, wt_dropped = dropped\<rparr>
     else (case m of
         Got (Handled r) \<Rightarrow>
           wait_loop k deadline flt rest (if filter_matches flt (Handled r) then entries @ [r] else entries) dropped
       | Got (Unmatched u) \<Rightarrow> wait_loop k deadline flt rest entries dropped
       | LaggedBy n \<Rightarrow> wait_loop k deadline flt rest entries (lagged dropped n)
       | BusClosed \<Rightarrow> \<lparr>wt_entries = entries, wt_timed_out = True, wt_dropped = dropped\<rparr>))"

datatype wait_outcome = Waited wait_result | OutOfMemory

definition wait_count :: "wait_args \<Rightarrow> nat" where
  "wait_count a = max 1 (case wx_count a of Some n \<Rightarrow> n | None \<Rightarrow> 1)"

definition wait_timeout :: "wait_args \<Rightarrow> nat" where
  "wait_timeout a = clamp 1 MAX_WAIT_TIMEOUT_S (case wx_timeout_seconds a of Some n \<Rightarrow> n | None \<Rightarrow> DEFAULT_WAIT_TIMEOUT_S)"

definition mcp_wait_for_request :: "('c, 'j, 'z) api_env_scheme \<Rightarrow> (nat \<Rightarrow> bool) \<Rightarrow> auth_context \<Rightarrow> int \<Rightarrow> feed \<Rightarrow> wait_args
    \<Rightarrow> ('c, wait_outcome) tool" where
  "mcp_wait_for_request env reserve cx now feed a =
    bind_io (lift_result (build_filter (wx_group a) (wx_route a) (wx_method a) (wx_path_pattern a) (wx_status a))) (\<lambda>flt.
    seq_io (ensure_streaming_authorized env cx flt)
    (ret (if reserve (wait_count a)
          then Waited (wait_loop (wait_count a) (now + seconds (wait_timeout a)) flt feed [] 0)
          else OutOfMemory)))"

datatype tail_stopped = MaxEntries | IdleTimeout

record tail_result =
  tz_entries :: "journal_record list"
  tz_unmatched :: "unmatched_record list"
  tz_stopped :: tail_stopped
  tz_dropped :: nat

text \<open>The idle window starts again at a match only.\<close>

fun tail_loop :: "nat \<Rightarrow> int \<Rightarrow> journal_filter \<Rightarrow> int \<Rightarrow> feed \<Rightarrow> journal_record list \<Rightarrow> unmatched_record list \<Rightarrow> nat
    \<Rightarrow> tail_result" where
  "tail_loop k idle flt deadline [] entries unmatched dropped =
    \<lparr>tz_entries = entries, tz_unmatched = unmatched,
     tz_stopped = (if k \<le> length entries + length unmatched then MaxEntries else IdleTimeout), tz_dropped = dropped\<rparr>"
| "tail_loop k idle flt deadline ((t, m) # rest) entries unmatched dropped =
    (if k \<le> length entries + length unmatched
     then \<lparr>tz_entries = entries, tz_unmatched = unmatched, tz_stopped = MaxEntries, tz_dropped = dropped\<rparr>
     else if deadline < t
     then \<lparr>tz_entries = entries, tz_unmatched = unmatched, tz_stopped = IdleTimeout, tz_dropped = dropped\<rparr>
     else (case m of
         Got ev \<Rightarrow>
           if \<not> filter_matches flt ev then tail_loop k idle flt deadline rest entries unmatched dropped
           else (case ev of
               Handled r \<Rightarrow> tail_loop k idle flt (t + idle) rest (entries @ [r]) unmatched dropped
             | Unmatched u \<Rightarrow> tail_loop k idle flt (t + idle) rest entries (unmatched @ [u]) dropped)
       | LaggedBy n \<Rightarrow> tail_loop k idle flt deadline rest entries unmatched (lagged dropped n)
       | BusClosed \<Rightarrow>
           \<lparr>tz_entries = entries, tz_unmatched = unmatched, tz_stopped = IdleTimeout, tz_dropped = dropped\<rparr>))"

definition tail_max :: "tail_args \<Rightarrow> nat" where
  "tail_max a = clamp 1 MAX_TAIL_MAX_ENTRIES (case tj_max_entries a of Some n \<Rightarrow> n | None \<Rightarrow> DEFAULT_TAIL_MAX_ENTRIES)"

definition tail_idle :: "tail_args \<Rightarrow> nat" where
  "tail_idle a = clamp 1 MAX_TAIL_IDLE_S (case tj_idle_timeout_seconds a of Some n \<Rightarrow> n | None \<Rightarrow> DEFAULT_TAIL_IDLE_S)"

definition mcp_tail_journal :: "('c, 'j, 'z) api_env_scheme \<Rightarrow> auth_context \<Rightarrow> int \<Rightarrow> feed \<Rightarrow> tail_args \<Rightarrow> ('c, tail_result) tool" where
  "mcp_tail_journal env cx now feed a =
    bind_io (lift_result (build_filter (tj_group a) (tj_route a) (tj_method a) (tj_path_pattern a) (tj_status a))) (\<lambda>flt.
    seq_io (ensure_streaming_authorized env cx flt)
    (ret (tail_loop (tail_max a) (seconds (tail_idle a)) flt (now + seconds (tail_idle a)) feed [] [] 0)))"

section \<open>What a wait returns\<close>

text \<open>The matching requests received before the deadline and before the bus closed.\<close>

definition in_reach :: "int \<Rightarrow> feed \<Rightarrow> feed" where
  "in_reach deadline = takeWhile (\<lambda>(t, m). t \<le> deadline \<and> m \<noteq> BusClosed)"

fun wanted :: "journal_filter \<Rightarrow> feed \<Rightarrow> journal_record list" where
  "wanted flt [] = []"
| "wanted flt ((t, Got (Handled r)) # xs) = (if filter_matches flt (Handled r) then r # wanted flt xs else wanted flt xs)"
| "wanted flt (x # xs) = wanted flt xs"

lemma wait_loop_spec:
  assumes "k < 2 ^ 32" "length entries \<le> k"
  shows "wt_entries (wait_loop k deadline flt feed entries dropped)
      = entries @ take (k - length entries) (wanted flt (in_reach deadline feed))
    \<and> (wt_timed_out (wait_loop k deadline flt feed entries dropped)
       \<longleftrightarrow> length entries + length (wanted flt (in_reach deadline feed)) < k)"
  using assms
proof (induction k deadline flt feed entries dropped rule: wait_loop.induct)
  case (1 k deadline flt entries dropped)
  have "length entries mod 2 ^ 32 = length entries" by (rule mod_less[OF le_less_trans[OF 1(2,1)]])
  then show ?case using 1 by (auto simp: in_reach_def)
next
  case (2 k deadline flt t m rest entries dropped)
  have l: "length entries mod 2 ^ 32 = length entries" by (rule mod_less[OF le_less_trans[OF 2(5,4)]])
  show ?case
  proof (cases "k \<le> length entries")
    case True
    then show ?thesis using 2(5) l by simp
  next
    case more: False
    show ?thesis
    proof (cases "deadline < t")
      case True
      then show ?thesis using more l by (simp add: in_reach_def)
    next
      case early: False
      note step = more early l
      have go: "\<not> k \<le> length entries mod 2 ^ 32" using more l by simp
      show ?thesis
      proof (cases m)
        case (Got ev)
        show ?thesis
        proof (cases ev)
          case (Handled r)
          have "length (if filter_matches flt (Handled r) then entries @ [r] else entries) \<le> k" using more by auto
          from 2(1)[OF go early Got Handled 2(4) this] show ?thesis using step Got Handled
            by (auto simp: in_reach_def take_Cons' Suc_diff_le)
        next
          case (Unmatched u)
          from 2(2)[OF go early Got Unmatched 2(4,5)] show ?thesis using step Got Unmatched by (simp add: in_reach_def)
        qed
      next
        case (LaggedBy n)
        from 2(3)[OF go early LaggedBy 2(4,5)] show ?thesis using step LaggedBy by (simp add: in_reach_def)
      next
        case BusClosed
        then show ?thesis using step by (simp add: in_reach_def)
      qed
    qed
  qed
qed

section \<open>What a tail returns\<close>

text \<open>The matching events before the bus closed, and those of them that come within the idle window
  after the one before.\<close>

fun matching :: "journal_filter \<Rightarrow> feed \<Rightarrow> (int \<times> journal_event) list" where
  "matching flt [] = []"
| "matching flt ((t, Got ev) # xs) = (if filter_matches flt ev then (t, ev) # matching flt xs else matching flt xs)"
| "matching flt ((t, LaggedBy n) # xs) = matching flt xs"
| "matching flt ((t, BusClosed) # xs) = []"

fun lively :: "int \<Rightarrow> int \<Rightarrow> (int \<times> journal_event) list \<Rightarrow> journal_event list" where
  "lively idle deadline [] = []"
| "lively idle deadline ((t, ev) # xs) = (if t \<le> deadline then ev # lively idle (t + idle) xs else [])"

fun handled_in :: "journal_event list \<Rightarrow> journal_record list" where
  "handled_in [] = []"
| "handled_in (Handled r # es) = r # handled_in es"
| "handled_in (Unmatched u # es) = handled_in es"

fun unmatched_in :: "journal_event list \<Rightarrow> unmatched_record list" where
  "unmatched_in [] = []"
| "unmatched_in (Handled r # es) = unmatched_in es"
| "unmatched_in (Unmatched u # es) = u # unmatched_in es"

lemma matching_times: "x \<in> set (matching flt xs) \<Longrightarrow> fst x \<in> fst ` set xs"
  by (induction flt xs rule: matching.induct) (auto split: if_splits simp: image_iff)

lemma lively_late:
  assumes "sorted_wrt (\<le>) (map fst ((t, m) # xs))" "deadline < t"
  shows "lively idle deadline (matching flt xs) = []"
proof (cases "matching flt xs")
  case (Cons y ys)
  have "fst y \<in> fst ` set xs" using matching_times[of y flt xs] Cons by simp
  then have "t \<le> fst y" using assms(1) by auto
  then show ?thesis using assms(2) Cons by (cases y) simp
qed simp

lemma tail_loop_spec:
  assumes "sorted_wrt (\<le>) (map fst feed)" "length entries + length unmatched \<le> k"
  shows "tz_entries (tail_loop k idle flt deadline feed entries unmatched dropped) = entries
        @ handled_in (take (k - (length entries + length unmatched)) (lively idle deadline (matching flt feed)))
    \<and> tz_unmatched (tail_loop k idle flt deadline feed entries unmatched dropped) = unmatched
        @ unmatched_in (take (k - (length entries + length unmatched)) (lively idle deadline (matching flt feed)))
    \<and> (tz_stopped (tail_loop k idle flt deadline feed entries unmatched dropped) = MaxEntries
       \<longleftrightarrow> k \<le> length entries + length unmatched + length (lively idle deadline (matching flt feed)))"
  using assms
proof (induction k idle flt deadline feed entries unmatched dropped rule: tail_loop.induct)
  case (1 k idle flt deadline entries unmatched dropped)
  then show ?case by simp
next
  case (2 k idle flt deadline t m rest entries unmatched dropped)
  have rest: "sorted_wrt (\<le>) (map fst rest)" using 2(5) by simp
  let ?n = "length entries + length unmatched"
  show ?case
  proof (cases "k \<le> ?n")
    case True
    then show ?thesis using 2(6) by simp
  next
    case go: False
    show ?thesis
    proof (cases "deadline < t")
      case late: True
      have "lively idle deadline (matching flt ((t, m) # rest)) = []"
        using lively_late[OF 2(5) late] late by (cases m) auto
      then show ?thesis using go late by simp
    next
      case early: False
      show ?thesis
      proof (cases m)
        case (Got ev)
        show ?thesis
        proof (cases "filter_matches flt ev")
          case False
          from 2(1)[OF go early Got False rest 2(6)] show ?thesis using go early Got False by simp
        next
          case True
          have s: "k - ?n = Suc (k - Suc ?n)" using go by simp
          have nn: "\<not> \<not> filter_matches flt ev" using True by simp
          show ?thesis
          proof (cases ev)
            case (Handled r)
            have "length (entries @ [r]) + length unmatched \<le> k" using go by simp
            from 2(2)[OF go early Got nn Handled rest this] show ?thesis using go early Got Handled True s by simp
          next
            case (Unmatched u)
            have "length entries + length (unmatched @ [u]) \<le> k" using go by simp
            from 2(3)[OF go early Got nn Unmatched rest this] show ?thesis using go early Got Unmatched True s by simp
          qed
        qed
      next
        case (LaggedBy n)
        from 2(4)[OF go early LaggedBy rest 2(6)] show ?thesis using go early LaggedBy by simp
      next
        case BusClosed
        then show ?thesis using go early by simp
      qed
    qed
  qed
qed

section \<open>What a stream shows\<close>

text \<open>A filter on a group or a route lets pass only handled requests of the group it names.\<close>

lemma scoped_event:
  assumes "filter_matches flt ev" "streamed_group flt = Some ref"
  shows "\<exists>r. ev = Handled r \<and> (jr_group_name r = ref \<or> jr_group_id r = ref)"
  using assms by (cases ev) (auto simp: streamed_group_def matches_handled_def matches_unmatched_def
      split: option.splits if_splits)

lemma wanted_matches: "r \<in> set (wanted flt xs) \<Longrightarrow> filter_matches flt (Handled r)"
  by (induction flt xs rule: wanted.induct) (auto split: if_splits)

lemma matching_matches: "x \<in> set (matching flt xs) \<Longrightarrow> filter_matches flt (snd x)"
  by (induction flt xs rule: matching.induct) (auto split: if_splits)

lemma lively_subset: "set (lively idle deadline xs) \<subseteq> snd ` set xs"
  by (induction idle deadline xs rule: lively.induct) auto

lemma in_handled: "r \<in> set (handled_in es) \<longleftrightarrow> Handled r \<in> set es"
  by (induction es rule: handled_in.induct) auto

lemma in_unmatched: "u \<in> set (unmatched_in es) \<longleftrightarrow> Unmatched u \<in> set es"
  by (induction es rule: unmatched_in.induct) auto

end
