(* ===== verification/Spec2Isabelle.thy ===== *)
theory Spec2Isabelle
  imports Throttle Callout Api_Edges Csrf Mcp_Streaming
begin

text \<open>A verification development for wiremirage, a programmable mock HTTP server
  (\<^theory_text>\<open>crates/wm-host\<close>).

  \<^bold>\<open>The program.\<close>  Users create groups, each with a subdomain of its own, and in a group
  routes: a path pattern, a method list and a handler, a program run in a WebAssembly sandbox.  A
  request to a group's subdomain is matched against the routes of that group
  (\<^theory_text>\<open>route_table.rs\<close>, \<^theory_text>\<open>pattern.rs\<close>), the handler runs with two key-value buckets, its
  route's and its group's, and its answer goes back and into the group's journal.  A handler may
  stream its response and schedule callbacks, which are sent afterwards and filtered by the host's
  egress policy.  Groups have a lifetime; a sweeper removes what a lapsed group leaves behind.
  Everything is kept in one key-value store, in memory or in Valkey, shared by several replicas.
  The control plane has local accounts, bearer tokens, cookie sessions and an OAuth server for MCP
  clients.

  \<^bold>\<open>Theories and sources\<close> (all under \<^theory_text>\<open>crates/wm-host/src\<close>), in the order of import:

  \<^item> \<^theory_text>\<open>Prelude\<close>: text helpers, association lists, the state and error monad \<^theory_text>\<open>io\<close>, numbers at
    their width (\<^theory_text>\<open>u32\<close>, \<^theory_text>\<open>u64\<close>, \<^theory_text>\<open>i64\<close> as bounded integers with the overflow written out).
  \<^item> \<^theory_text>\<open>Naming\<close> (\<^theory_text>\<open>naming.rs\<close>), \<^theory_text>\<open>Pattern\<close> (\<^theory_text>\<open>pattern.rs\<close>).
  \<^item> \<^theory_text>\<open>Store\<close> (\<^theory_text>\<open>store/memory.rs\<close>, \<^theory_text>\<open>store/mod.rs\<close>): typed values under string keys, as an
    association list; a bucket is its key prefix.  \<^theory_text>\<open>Records\<close>: what the components share, which keys an
    operation can touch (\<^theory_text>\<open>keeps\<close>, \<^theory_text>\<open>confined\<close>) and the laws of hash fields.
  \<^item> \<^theory_text>\<open>Registry\<close> (\<^theory_text>\<open>registry.rs\<close>): groups and routes, their indexes, lifetimes and state.
  \<^item> \<^theory_text>\<open>Exclusive\<close>: the contract between conflict detection and matching, as a locale.
  \<^item> \<^theory_text>\<open>Route_Table\<close> (\<^theory_text>\<open>route_table.rs\<close>, \<^theory_text>\<open>bus.rs\<close>): the replica's cache of routes.
  \<^item> \<^theory_text>\<open>Journal\<close> (\<^theory_text>\<open>journal.rs\<close>), \<^theory_text>\<open>Filters\<close> (\<^theory_text>\<open>journal_filter.rs\<close>, \<^theory_text>\<open>api_filters.rs\<close>).
  \<^item> \<^theory_text>\<open>Throttle\<close> (\<^theory_text>\<open>login_throttle.rs\<close>), \<^theory_text>\<open>Sessions\<close> (\<^theory_text>\<open>session.rs\<close>), \<^theory_text>\<open>Auth\<close>
    (\<^theory_text>\<open>auth.rs\<close>), \<^theory_text>\<open>Local_Auth\<close> (\<^theory_text>\<open>local_auth.rs\<close>), \<^theory_text>\<open>OAuth\<close> (\<^theory_text>\<open>mcp_oauth.rs\<close>).
  \<^item> \<^theory_text>\<open>Callout\<close> (\<^theory_text>\<open>egress.rs\<close>, \<^theory_text>\<open>callout.rs\<close>), \<^theory_text>\<open>Lifecycle\<close> (\<^theory_text>\<open>lifecycle.rs\<close>).
  \<^item> \<^theory_text>\<open>Host_State\<close> (\<^theory_text>\<open>host_state.rs\<close>, \<^theory_text>\<open>log.rs\<close>, the limits of \<^theory_text>\<open>runtime.rs\<close>): the imports a
    handler can call, over the host state and the store.  \<^theory_text>\<open>Wire\<close> (\<^theory_text>\<open>wire.rs\<close>), \<^theory_text>\<open>Dry_Run\<close>
    (\<^theory_text>\<open>dry_run.rs\<close>), \<^theory_text>\<open>Dispatch\<close> (\<^theory_text>\<open>server.rs\<close>).

  \<^bold>\<open>How the code is represented.\<close>  A Rust struct is a record, an enum a datatype, with the
  source's names.  A fallible operation on storage is a state transformer into a sum, \<^theory_text>\<open>Inl\<close> the
  error, and what it wrote before it failed stays written.  A panic is a value (\<^theory_text>\<open>panic\<close>), so that its
  absence can be proved.  Text is a list of bytes.  Clocks, random draws, fresh identifiers and the
  decisions of the scheduler are arguments.  What the code takes from crates is a field of an
  environment record (\<^theory_text>\<open>registry_env\<close>, \<^theory_text>\<open>auth_env\<close>, \<^theory_text>\<open>oauth_env\<close>, \<^theory_text>\<open>net_lib\<close>, \<^theory_text>\<open>callout_lib\<close>,
  \<^theory_text>\<open>wire_lib\<close>, \<^theory_text>\<open>http_lib\<close>, \<^theory_text>\<open>host_env\<close>): text formats of times, JSON encodings, hashes, CIDR
  parsing, DNS, the HTTP client, base64, the transpiler and the component compiler; what is used of
  their documentation is a predicate next to the record (\<^theory_text>\<open>env_ok\<close>, \<^theory_text>\<open>codec_ok\<close>, \<^theory_text>\<open>hashing_ok\<close>,
  \<^theory_text>\<open>net_lib_ok\<close>, \<^theory_text>\<open>http_lib_ok\<close>), and each is shown to hold for a concrete instance.  A handler
  is an arbitrary program of host calls: after the replies so far it either makes a further call or
  ends, and \<^theory_text>\<open>run_program\<close> runs it for as many calls as its budget pays for.

  \<^bold>\<open>What is proved\<close>, by group of lemmas:

  \<^item> Storage: counters are exact and never wrap; a lease excludes every second claim until its
    deadline; a bucket behaves as a store of its own, so components reason about their keys alone.
  \<^item> Registry: names are free and valid when handed out, conflicts of patterns are decided
    exactly, creation keeps every group free of conflicts, and what the cleanups leave behind.
  \<^item> Matching: the matcher decides the instances of a pattern; the table answers with a best route
    and an invalidation brings it in step with storage.
  \<^item> Journal: numbering, reading back, paging; globs against a declarative reading.
  \<^item> Accounts: distinct e-mails over any history, tokens from creation to revocation, sessions,
    throttling, and the token endpoint: what it accepts, what it spends, and its race.
  \<^item> Handlers: no program reaches beyond its buckets or observes anything outside them, streams are
    committed once and counted exactly, the limits hold; a dry run leaves no trace and predicts the
    live answer.
  \<^item> Dispatch: every request is answered, stays in the group its host names, is journaled as it was
    sent, and fires callbacks only where host and group allow them, to vetted addresses only.
  \<^item> Upkeep: a sweep removes what is dead and nothing else, on one replica at a time.

  \<^bold>\<open>Bounds.\<close>  Three loops of the code run until they find something; each is a recursion with fuel
  and a lemma that the fuel suffices: the numbered group names (one more than the keys stored), the
  windowed count of unmatched requests (the source's own cap of scanned entries) and a handler (its
  budget of host calls, which the sandbox meters).  The steps of a sweep, of callbacks and of a
  streamed response's journal are separate transitions, so they may be interleaved with requests.

  \<^bold>\<open>Not modelled.\<close>  The Valkey backend (\<^theory_text>\<open>store/valkey.rs\<close>) and the pub/sub channels: calls to an
  external server.  The sandbox itself and the JavaScript engine: wasmtime and a compiled component.
  External logins (\<^theory_text>\<open>oidc.rs\<close>, \<^theory_text>\<open>github_oauth.rs\<close>): clients of identity providers over HTTP and JWT
  libraries.  The web interface (\<^theory_text>\<open>ui\<close>) and the MCP tools (\<^theory_text>\<open>mcp\<close>): templates and protocol glue over
  the modelled operations.  Telemetry, metrics, capabilities and process set-up.  The command-line
  client and the client library (\<^theory_text>\<open>crates/wm-cli\<close>, \<^theory_text>\<open>crates/wm-core\<close>), the transpiler wrapper.\<close>

end
